(* ===== verification/Mesh_Prelude.thy ===== *)
theory Mesh_Prelude
  imports
    Complex_Main
    "HOL-Library.Word"
    "HOL-Library.Multiset"
    "HOL-Library.State_Monad"
begin

text \<open>
  What the component theories share: the machine types of the C code, fixed-size
  buffers with the effect of \<open>memcpy\<close> and \<open>memset\<close> on them, little-endian
  encodings, the wrap-around comparison of millisecond counters, and triples for
  the state monad in which the stateful components are written.

  Buffers are byte lists.  A \<open>memcpy\<close> into a buffer is \<open>mem_write\<close>: it splices
  the bytes in at the offset and does not truncate, so that a write that reaches past
  the end of the destination changes the length of the list.  "Every buffer keeps
  its declared length" is therefore the statement that no write is out of bounds.
  A read is \<open>mem_read\<close>: it yields fewer bytes than asked for when it runs past the end.
\<close>

unbundle bit_operations_syntax

section \<open>Machine types\<close>

type_synonym byte = "8 word"
type_synonym u16 = "16 word"
type_synonym u32 = "32 word"
type_synonym bytes = "byte list"

text \<open>A pointer into the packet pool is the index of the packet in \<open>packet_buf\<close>.\<close>

type_synonym packet_ref = nat

named_theorems buf_simps \<open>lengths and contents of buffers after reads and writes\<close>
named_theorems wp \<open>triples for the operations of the state monad\<close>
named_theorems mesh_defs \<open>definitions unfolded by the branch proofs\<close>

section \<open>Buffers\<close>

definition mem_write :: "nat \<Rightarrow> 'a list \<Rightarrow> 'a list \<Rightarrow> 'a list" where
  "mem_write off src dst = take off dst @ src @ drop (off + length src) dst"

definition mem_read :: "nat \<Rightarrow> nat \<Rightarrow> 'a list \<Rightarrow> 'a list" where
  "mem_read off n src = take n (drop off src)"

definition zeros :: "nat \<Rightarrow> bytes" where
  "zeros n = replicate n 0"

text \<open>The contents a host hook leaves in an \<open>n\<close>-byte output buffer.\<close>

definition buf :: "nat \<Rightarrow> (nat \<Rightarrow> byte) \<Rightarrow> bytes" where
  "buf n f = map f [0..<n]"

text \<open>\<open>buf[i]\<close> for an index inside the buffer.\<close>

definition byte_at :: "bytes \<Rightarrow> nat \<Rightarrow> byte" where
  "byte_at bs i = (if i < length bs then bs ! i else 0)"

lemma length_zeros [simp, buf_simps]: "length (zeros n) = n"
  by (simp add: zeros_def)

lemma length_buf [simp, buf_simps]: "length (buf n f) = n"
  by (simp add: buf_def)

lemma byte_at_nth [simp]: "i < length bs \<Longrightarrow> byte_at bs i = bs ! i"
  by (simp add: byte_at_def)

lemma length_mem_write [simp, buf_simps]:
  "off + length src \<le> length dst \<Longrightarrow> length (mem_write off src dst) = length dst"
  by (simp add: mem_write_def)

lemma mem_write_in_bounds_iff:
  "src \<noteq> [] \<Longrightarrow> length (mem_write off src dst) = length dst \<longleftrightarrow> off + length src \<le> length dst"
  by (cases src) (auto simp: mem_write_def min_def)

lemma mem_write_Nil [simp, buf_simps]: "mem_write off [] dst = dst"
  by (simp add: mem_write_def)

lemma length_mem_read [simp, buf_simps]:
  "off + n \<le> length src \<Longrightarrow> length (mem_read off n src) = n"
  by (simp add: mem_read_def)

lemma length_mem_read_le: "length (mem_read off n src) \<le> n"
  by (simp add: mem_read_def)

lemma mem_read_0 [simp, buf_simps]: "mem_read off 0 src = []"
  by (simp add: mem_read_def)

lemma mem_read_split: "mem_read off (m + n) src = mem_read off m src @ mem_read (off + m) n src"
  by (simp add: mem_read_def take_add ac_simps)

lemma mem_read_all [simp]: "length src = n \<Longrightarrow> mem_read 0 n src = src"
  by (simp add: mem_read_def)

lemma mem_read_0_take: "mem_read 0 n src = take n src"
  by (simp add: mem_read_def)

lemma take_mem_write_before [buf_simps]:
  "n \<le> off \<Longrightarrow> off \<le> length dst \<Longrightarrow> take n (mem_write off src dst) = take n dst"
  by (simp add: mem_write_def min_def)

lemma take_mem_write_through:
  "off \<le> length dst \<Longrightarrow>
   take (off + length src) (mem_write off src dst) = take off dst @ src"
  by (simp add: mem_write_def)

lemma mem_read_mem_write_same [simp, buf_simps]:
  "off \<le> length dst \<Longrightarrow> n = length src \<Longrightarrow> mem_read off n (mem_write off src dst) = src"
  by (simp add: mem_read_def mem_write_def)

lemma mem_read_mem_write_before [buf_simps]:
  "a + n \<le> off \<Longrightarrow> off \<le> length dst \<Longrightarrow>
   mem_read a n (mem_write off src dst) = mem_read a n dst"
  by (simp add: mem_read_def mem_write_def drop_take min_absorb1)

lemma mem_read_mem_write_after [buf_simps]:
  "off + length src \<le> a \<Longrightarrow> off \<le> length dst \<Longrightarrow>
   mem_read a n (mem_write off src dst) = mem_read a n dst"
  by (simp add: mem_read_def mem_write_def min_absorb2 min_absorb1)

lemma mem_write_mem_write_append:
  "off \<le> length dst \<Longrightarrow>
   mem_write (off + length a) b (mem_write off a dst) = mem_write off (a @ b) dst"
  by (simp add: mem_write_def ac_simps)

lemma nth_mem_write_before [buf_simps]:
  "i < off \<Longrightarrow> off \<le> length dst \<Longrightarrow> mem_write off src dst ! i = dst ! i"
  by (simp add: mem_write_def nth_append min_def)

lemma nth_mem_write_in [buf_simps]:
  "off \<le> length dst \<Longrightarrow> off \<le> i \<Longrightarrow> i < off + length src \<Longrightarrow>
   mem_write off src dst ! i = src ! (i - off)"
  by (auto simp: mem_write_def nth_append min_def)

section \<open>Little-endian encodings\<close>

text \<open>
  \<open>memcpy(&dest, &value, n)\<close> on the little-endian target and back.
\<close>

primrec le_bytes :: "nat \<Rightarrow> 'a::len word \<Rightarrow> bytes" where
  "le_bytes 0 w = []"
| "le_bytes (Suc n) w = ucast w # le_bytes n (drop_bit 8 w)"

primrec le_word :: "bytes \<Rightarrow> 'a::len word" where
  "le_word [] = 0"
| "le_word (b # bs) = ucast b OR push_bit 8 (le_word bs)"

lemma length_le_bytes [simp, buf_simps]: "length (le_bytes n w) = n"
  by (induction n arbitrary: w) auto

lemma le_word_le_bytes_mask:
  "le_word (le_bytes n w) = take_bit (8 * n) (w :: 'a::len word)"
proof (induction n arbitrary: w)
  case (Suc n)
  show ?case
    unfolding le_bytes.simps le_word.simps Suc
    by (rule bit_word_eqI)
       (auto simp: bit_or_iff bit_push_bit_iff bit_take_bit_iff bit_drop_bit_eq
             bit_unsigned_iff possible_bit_word dest: bit_imp_le_length)
qed simp

lemma le_word_le_bytes [simp]:
  "LENGTH('a) \<le> 8 * n \<Longrightarrow> le_word (le_bytes n w) = (w :: 'a::len word)"
  by (simp add: le_word_le_bytes_mask take_bit_word_eq_self)

lemma le_bytes_le_word:
  "8 * length bs \<le> LENGTH('a) \<Longrightarrow> le_bytes (length bs) (le_word bs :: 'a::len word) = bs"
proof (induction bs)
  case (Cons b bs)
  let ?w = "le_word bs :: 'a word"
  have hd: "(ucast (ucast b OR push_bit 8 ?w :: 'a word) :: byte) = b"
    using Cons.prems
    by (intro bit_word_eqI) (auto simp: bit_or_iff bit_push_bit_iff bit_unsigned_iff
        dest: bit_imp_le_length)
  have small: "\<not> bit ?w k" if "8 * length bs \<le> k" for k
    using that
  proof (induction bs arbitrary: k)
    case (Cons c cs)
    then have "\<not> bit (le_word cs :: 'a word) (k - 8)" by simp
    with Cons.prems show ?case
      by (auto simp: bit_or_iff bit_push_bit_iff bit_unsigned_iff dest: bit_imp_le_length)
  qed simp
  have tl: "drop_bit 8 (ucast b OR push_bit 8 ?w :: 'a word) = ?w"
  proof (rule bit_word_eqI)
    fix k assume "k < LENGTH('a)"
    show "bit (drop_bit 8 (ucast b OR push_bit 8 ?w :: 'a word)) k = bit ?w k"
      using small [of k] Cons.prems
      by (auto simp: bit_drop_bit_eq bit_or_iff bit_push_bit_iff bit_unsigned_iff
          possible_bit_word dest: bit_imp_le_length)
  qed
  show ?case using Cons hd tl by simp
qed simp

lemma le_bytes_le_word_of:
  "length bs = n \<Longrightarrow> 8 * n \<le> LENGTH('a) \<Longrightarrow> le_bytes n (le_word bs :: 'a::len word) = bs"
  using le_bytes_le_word by blast

lemma byte_le_max [simp]: "(x :: byte) \<le> 0xFF"
  using unsigned_less [of x, where ?'a = nat] by (simp add: word_le_nat_alt)

section \<open>Millisecond counters\<close>

text \<open>
  \<open>(int32_t)(a - b) > 0\<close>: \<open>a\<close> lies after \<open>b\<close> on the 32-bit circle.
\<close>

definition after :: "u32 \<Rightarrow> u32 \<Rightarrow> bool" where
  "after a b \<longleftrightarrow> 0 < sint (a - b)"

lemma after_irrefl [simp]: "\<not> after a a"
  by (simp add: after_def)

section \<open>The state monad\<close>

definition gets :: "('s \<Rightarrow> 'a) \<Rightarrow> ('s, 'a) state" where
  "gets f = State (\<lambda>s. (f s, s))"

definition modify :: "('s \<Rightarrow> 's) \<Rightarrow> ('s, unit) state" where
  "modify f = State (\<lambda>s. ((), f s))"

definition when_do :: "bool \<Rightarrow> ('s, unit) state \<Rightarrow> ('s, unit) state" where
  "when_do b m = (if b then m else State_Monad.return ())"

lemma run_state_gets [simp]: "run_state (gets f) s = (f s, s)"
  by (simp add: gets_def)

lemma run_state_modify [simp]: "run_state (modify f) s = ((), f s)"
  by (simp add: modify_def)

lemma run_state_when_do [simp]:
  "run_state (when_do b m) s = (if b then run_state m s else ((), s))"
  by (simp add: when_do_def)

text \<open>
  \<open>triple P m Q\<close>: from a state with \<open>P\<close>, \<open>m\<close> returns a result and a state with \<open>Q\<close>.
  Every computation of the monad returns, so that the triples are total.
\<close>

definition triple :: "('s \<Rightarrow> bool) \<Rightarrow> ('s, 'a) state \<Rightarrow> ('a \<Rightarrow> 's \<Rightarrow> bool) \<Rightarrow> bool" where
  "triple P m Q \<longleftrightarrow> (\<forall>s. P s \<longrightarrow> Q (fst (run_state m s)) (snd (run_state m s)))"

lemma tripleI [intro?]:
  "(\<And>s. P s \<Longrightarrow> Q (fst (run_state m s)) (snd (run_state m s))) \<Longrightarrow> triple P m Q"
  by (simp add: triple_def)

lemma tripleD:
  "triple P m Q \<Longrightarrow> P s \<Longrightarrow> Q (fst (run_state m s)) (snd (run_state m s))"
  by (simp add: triple_def)

lemma tripleE:
  "triple P m Q \<Longrightarrow> run_state m s = (r, s') \<Longrightarrow> P s \<Longrightarrow> Q r s'"
  by (auto simp: triple_def)

lemma triple_pre: "triple P' m Q \<Longrightarrow> (\<And>s. P s \<Longrightarrow> P' s) \<Longrightarrow> triple P m Q"
  by (simp add: triple_def)

lemma triple_post:
  "triple P m Q' \<Longrightarrow> (\<And>r s. Q' r s \<Longrightarrow> Q r s) \<Longrightarrow> triple P m Q"
  by (simp add: triple_def)

lemma triple_conj:
  "triple P m Q \<Longrightarrow> triple P' m Q' \<Longrightarrow> triple (\<lambda>s. P s \<and> P' s) m (\<lambda>r s. Q r s \<and> Q' r s)"
  by (simp add: triple_def)

lemma triple_return [wp]: "triple (Q r) (State_Monad.return r) Q"
  by (simp add: triple_def)

lemma triple_bind:
  "triple P m R \<Longrightarrow> (\<And>r. triple (R r) (f r) Q) \<Longrightarrow> triple P (State_Monad.bind m f) Q"
  by (fastforce simp: triple_def split: prod.splits)

lemma triple_gets [wp]: "triple (\<lambda>s. Q (f s) s) (gets f) Q"
  by (simp add: triple_def)

lemma triple_modify [wp]: "triple (\<lambda>s. Q () (f s)) (modify f) Q"
  by (simp add: triple_def)

lemma triple_if:
  "(b \<Longrightarrow> triple P m Q) \<Longrightarrow> (\<not> b \<Longrightarrow> triple P m' Q) \<Longrightarrow> triple P (if b then m else m') Q"
  by simp

lemma triple_when_do:
  "(b \<Longrightarrow> triple P m (\<lambda>_. Q)) \<Longrightarrow> (\<And>s. \<not> b \<Longrightarrow> P s \<Longrightarrow> Q s) \<Longrightarrow>
   triple P (when_do b m) (\<lambda>_. Q)"
  by (simp add: triple_def)

section \<open>Rings of slots\<close>

text \<open>
  The interface of a fixed array that is overwritten round robin: every operation leaves
  the array alone or stores one value in the next slot.  A stored value then survives as many
  further operations as there are other slots.
\<close>

locale ring_slots =
  fixes wf :: "'s \<Rightarrow> bool"
    and slots :: "'s \<Rightarrow> 'a list"
    and nxt :: "'s \<Rightarrow> nat"
    and step :: "'o \<Rightarrow> 's \<Rightarrow> 's"
    and cap :: nat
  assumes shape: "wf s \<Longrightarrow> length (slots s) = cap \<and> nxt s < cap"
    and step_wf: "wf s \<Longrightarrow> wf (step p s)"
    and step_ring: "wf s \<Longrightarrow>
      slots (step p s) = slots s \<and> nxt (step p s) = nxt s \<or>
      (\<exists>x. slots (step p s) = (slots s)[nxt s := x] \<and> nxt (step p s) = (nxt s + 1) mod cap)"
begin

lemma fold_wf: "wf s \<Longrightarrow> wf (fold step ps s)"
  by (induction ps arbitrary: s) (auto simp: step_wf)

lemma retained_position:
  assumes "wf s" and "k < cap" and "nxt s = (k + 1) mod cap" and "slots s ! k = x"
    and "length ps < cap"
  shows "slots (fold step ps s) ! k = x \<and>
    (\<exists>m \<le> length ps. nxt (fold step ps s) = (k + 1 + m) mod cap)"
  using assms(5)
proof (induction ps rule: rev_induct)
  case Nil
  then show ?case using assms by auto
next
  case (snoc p ps)
  let ?t = "fold step ps s"
  have wf: "wf ?t" using assms(1) by (rule fold_wf)
  obtain m where m: "m \<le> length ps" "nxt ?t = (k + 1 + m) mod cap" and x: "slots ?t ! k = x"
    using snoc by auto
  have len: "length (slots ?t) = cap" "nxt ?t < cap" using shape [OF wf] by auto
  have "nxt ?t \<noteq> k"
  proof
    assume "nxt ?t = k"
    then have "(k + (1 + m)) mod cap = (k + 0) mod cap" using m(2) assms(2) by simp
    then have "(1 + m) mod cap = 0 mod cap" by (simp only: mod_add_left_eq nat_mod_eq_iff) auto
    then show False using m(1) snoc.prems by simp
  qed
  then have "(slots ?t)[nxt ?t := y] ! k = x" for y using x by simp
  moreover have "(nxt ?t + 1) mod cap = (k + 1 + (m + 1)) mod cap"
    unfolding m(2) by (simp add: mod_Suc_eq)
  ultimately show ?case
    using step_ring [OF wf, of p] m x by (auto intro: exI [of _ m] exI [of _ "m + 1"])
qed

lemma retained:
  assumes "wf s" and "k < cap" and "nxt s = (k + 1) mod cap" and "slots s ! k = x"
    and "length ps < cap"
  shows "x \<in> set (slots (fold step ps s))"
  using retained_position [OF assms] assms(2) shape [OF fold_wf [OF assms(1)], of ps]
  by (metis nth_mem)

end

end
