(* ===== verification/Utils.thy ===== *)
theory Utils
  imports Mesh_Prelude
begin

text \<open>
  \<open>src/core/meshcore_utils.c\<close>: hashing, the block cipher and MAC wrappers over the
  host's primitives, hexadecimal conversion and text splitting.

  The primitives (\<open>meshcore_platform_crypto_*\<close>, reached through one-line forwarders of
  \<open>meshcore_platform_bridge.c\<close>) are supplied by the host.  They are the fields of the
  record \<open>crypto\<close>; each is a function of the bytes it is given that either fails
  (\<open>None\<close>, the hook returned false) or fills its output buffer.  What is assumed of them
  is a hypothesis of the lemmas that need it (\<open>aes_inverse\<close>, \<open>hmac_total\<close>).
\<close>

section \<open>Host primitives and error codes\<close>

record crypto =
  crypto_sha256 :: "nat \<Rightarrow> bytes \<Rightarrow> (nat \<Rightarrow> byte) option"
  crypto_sha256_two_fragments :: "nat \<Rightarrow> bytes \<Rightarrow> bytes \<Rightarrow> (nat \<Rightarrow> byte) option"
  crypto_aes128_encrypt_block :: "bytes \<Rightarrow> bytes \<Rightarrow> (nat \<Rightarrow> byte) option"
  crypto_aes128_decrypt_block :: "bytes \<Rightarrow> bytes \<Rightarrow> (nat \<Rightarrow> byte) option"
  crypto_hmac_sha256 :: "nat \<Rightarrow> bytes \<Rightarrow> bytes \<Rightarrow> (nat \<Rightarrow> byte) option"

text \<open>The negative error codes the library returns; \<open>HostErr rc\<close> passes on a host's code.\<close>

datatype errno = EINVAL | EIO | ENOSPC | ENOMEM | ENOENT | EMSGSIZE | EBUSY | EALREADY
  | EPERM | EOVERFLOW | ENODATA | ENODEV | ENOBUFS | ENOTSUP | HostErr int

section \<open>Hashing\<close>

definition meshcore_utils_sha256 :: "crypto \<Rightarrow> nat \<Rightarrow> bytes \<Rightarrow> int \<Rightarrow> bytes" where
  "meshcore_utils_sha256 c hash_len msg msg_len =
     (if hash_len = 0 \<or> msg_len < 0 then zeros hash_len
      else case crypto_sha256 c hash_len (mem_read 0 (nat msg_len) msg) of
             None \<Rightarrow> zeros hash_len
           | Some f \<Rightarrow> buf hash_len f)"

definition meshcore_utils_sha256_two_fragments ::
  "crypto \<Rightarrow> nat \<Rightarrow> bytes \<Rightarrow> int \<Rightarrow> bytes \<Rightarrow> int \<Rightarrow> bytes" where
  "meshcore_utils_sha256_two_fragments c hash_len frag1 frag1_len frag2 frag2_len =
     (if hash_len = 0 \<or> frag1_len < 0 \<or> frag2_len < 0 then zeros hash_len
      else case crypto_sha256_two_fragments c hash_len
                  (mem_read 0 (nat frag1_len) frag1) (mem_read 0 (nat frag2_len) frag2) of
             None \<Rightarrow> zeros hash_len
           | Some f \<Rightarrow> buf hash_len f)"

lemma length_sha256 [simp, buf_simps]: "length (meshcore_utils_sha256 c n msg l) = n"
  by (simp add: meshcore_utils_sha256_def split: option.split)

lemma length_sha256_two_fragments [simp, buf_simps]:
  "length (meshcore_utils_sha256_two_fragments c n a la b lb) = n"
  by (simp add: meshcore_utils_sha256_two_fragments_def split: option.split)

section \<open>Block encryption\<close>

abbreviation (input) CIPHER_BLOCK :: nat where "CIPHER_BLOCK \<equiv> 16"
abbreviation (input) CIPHER_MAC :: nat where "CIPHER_MAC \<equiv> 2"

definition aes_key :: "bytes \<Rightarrow> bytes" where
  "aes_key secret = mem_read 0 16 secret"

function decrypt_loop :: "crypto \<Rightarrow> bytes \<Rightarrow> nat \<Rightarrow> bytes \<Rightarrow> nat \<Rightarrow> nat \<Rightarrow> bytes \<Rightarrow> nat \<times> bytes" where
  "decrypt_loop c secret sp src src_off src_len dest =
     (if sp < src_len then
        (case crypto_aes128_decrypt_block c (aes_key secret) (mem_read (src_off + sp) 16 src) of
           None \<Rightarrow> (0, dest)
         | Some f \<Rightarrow>
             decrypt_loop c secret (sp + 16) src src_off src_len (mem_write sp (buf 16 f) dest))
      else (sp, dest))"
  by pat_completeness auto
termination
  by (relation "measure (\<lambda>(c, secret, sp, src, src_off, src_len, dest). src_len - sp)") auto

declare decrypt_loop.simps [simp del]

text \<open>
  \<open>meshcore_utils_decrypt\<close> reads \<open>src_len\<close> bytes of \<open>src\<close> from \<open>src_off\<close> and writes
  to the start of \<open>dest\<close>; it returns the number of plaintext bytes, 0 for a failure.
\<close>

definition meshcore_utils_decrypt ::
  "crypto \<Rightarrow> bytes \<Rightarrow> bytes \<Rightarrow> bytes \<Rightarrow> nat \<Rightarrow> int \<Rightarrow> nat \<times> bytes" where
  "meshcore_utils_decrypt c secret dest src src_off src_len =
     (if src_len \<le> 0 \<or> src_len mod 16 \<noteq> 0 then (0, dest)
      else decrypt_loop c secret 0 src src_off (nat src_len) dest)"

fun encrypt_loop ::
  "crypto \<Rightarrow> bytes \<Rightarrow> nat \<Rightarrow> nat \<Rightarrow> nat \<Rightarrow> bytes \<Rightarrow> bytes \<Rightarrow> (errno + nat) \<times> bytes" where
  "encrypt_loop c secret dp sp src_len src dest =
     (if 16 \<le> src_len then
        (case crypto_aes128_encrypt_block c (aes_key secret) (mem_read sp 16 src) of
           None \<Rightarrow> (Inl EIO, dest)
         | Some f \<Rightarrow>
             encrypt_loop c secret (dp + 16) (sp + 16) (src_len - 16) src
               (mem_write dp (buf 16 f) dest))
      else if 0 < src_len then
        (case crypto_aes128_encrypt_block c (aes_key secret)
                (mem_write 0 (mem_read sp src_len src) (zeros 16)) of
           None \<Rightarrow> (Inl EIO, dest)
         | Some f \<Rightarrow> (Inr (dp + 16), mem_write dp (buf 16 f) dest))
      else (Inr dp, dest))"

declare encrypt_loop.simps [simp del]

text \<open>
  \<open>dest + dest_off\<close> is the destination pointer of the C call; the result counts the bytes
  written there.
\<close>

definition meshcore_utils_encrypt ::
  "crypto \<Rightarrow> bytes \<Rightarrow> bytes \<Rightarrow> nat \<Rightarrow> bytes \<Rightarrow> int \<Rightarrow> (errno + nat) \<times> bytes" where
  "meshcore_utils_encrypt c secret dest dest_off src src_len =
     (if src_len < 0 then (Inl EINVAL, dest)
      else case encrypt_loop c secret dest_off 0 (nat src_len) src dest of
             (Inl e, d) \<Rightarrow> (Inl e, d)
           | (Inr dp, d) \<Rightarrow> (Inr (dp - dest_off), d))"

definition meshcore_utils_encrypt_then_mac ::
  "crypto \<Rightarrow> bytes \<Rightarrow> bytes \<Rightarrow> nat \<Rightarrow> bytes \<Rightarrow> int \<Rightarrow> (errno + nat) \<times> bytes" where
  "meshcore_utils_encrypt_then_mac c secret dest dest_off src src_len =
     (if src_len < 0 then (Inl EINVAL, dest)
      else case meshcore_utils_encrypt c secret dest (dest_off + 2) src src_len of
             (Inl e, d) \<Rightarrow> (Inl e, d)
           | (Inr enc_len, d) \<Rightarrow>
               if 0 < src_len \<and> enc_len = 0 then (Inl EIO, d)
               else case crypto_hmac_sha256 c 2 (mem_read 0 32 secret)
                           (mem_read (dest_off + 2) enc_len d) of
                      None \<Rightarrow> (Inl EIO, d)
                    | Some f \<Rightarrow> (Inr (2 + enc_len), mem_write dest_off (buf 2 f) d))"

definition meshcore_utils_mac_then_decrypt ::
  "crypto \<Rightarrow> bytes \<Rightarrow> bytes \<Rightarrow> bytes \<Rightarrow> nat \<Rightarrow> int \<Rightarrow> nat \<times> bytes" where
  "meshcore_utils_mac_then_decrypt c secret dest src src_off src_len =
     (if src_len \<le> 2 then (0, dest)
      else case crypto_hmac_sha256 c 2 (mem_read 0 32 secret)
                  (mem_read (src_off + 2) (nat src_len - 2) src) of
             None \<Rightarrow> (0, dest)
           | Some f \<Rightarrow>
               if buf 2 f \<noteq> mem_read src_off 2 src then (0, dest)
               else meshcore_utils_decrypt c secret dest src (src_off + 2) (src_len - 2))"

section \<open>Hexadecimal\<close>

definition hex_chars :: string where
  "hex_chars = ''0123456789ABCDEF''"

definition to_hex_byte :: "byte \<Rightarrow> string" where
  "to_hex_byte b = [hex_chars ! unat (drop_bit 4 b), hex_chars ! unat (b AND 0x0F)]"

text \<open>The terminating NUL is the end of the string.\<close>

primrec meshcore_utils_to_hex :: "bytes \<Rightarrow> string" where
  "meshcore_utils_to_hex [] = []"
| "meshcore_utils_to_hex (b # bs) = to_hex_byte b @ meshcore_utils_to_hex bs"

definition hex_val :: "char \<Rightarrow> byte" where
  "hex_val ch = (let n = of_char ch :: nat in
     if 65 \<le> n \<and> n \<le> 70 then of_nat (n - 65 + 10)
     else if 97 \<le> n \<and> n \<le> 102 then of_nat (n - 97 + 10)
     else if 48 \<le> n \<and> n \<le> 57 then of_nat (n - 48)
     else 0)"

definition meshcore_utils_is_hex_char :: "char \<Rightarrow> bool" where
  "meshcore_utils_is_hex_char ch \<longleftrightarrow> ch = CHR ''0'' \<or> 0 < hex_val ch"

fun from_hex_loop :: "string \<Rightarrow> nat \<Rightarrow> bytes \<Rightarrow> bool \<times> bytes" where
  "from_hex_loop (ch # cl # rest) dp dest =
     (if \<not> meshcore_utils_is_hex_char ch \<or> \<not> meshcore_utils_is_hex_char cl then (False, dest)
      else from_hex_loop rest (dp + 1)
             (mem_write dp [push_bit 4 (hex_val ch) OR hex_val cl] dest))"
| "from_hex_loop _ dp dest = (True, dest)"

definition meshcore_utils_from_hex :: "bytes \<Rightarrow> int \<Rightarrow> string \<Rightarrow> bool \<times> bytes" where
  "meshcore_utils_from_hex dest dest_size src_hex =
     (if dest_size < 0 \<or> int (length src_hex) \<noteq> dest_size * 2 then (False, dest)
      else from_hex_loop src_hex 0 dest)"

section \<open>Splitting text\<close>

text \<open>
  \<open>meshcore_utils_parse_text_parts\<close> cuts the text in place; the parts are the strings
  the stored pointers then denote.  After \<open>max_num\<close> parts the next separator, if any,
  is overwritten by a NUL.
\<close>

fun parse_text_parts :: "string \<Rightarrow> nat \<Rightarrow> char \<Rightarrow> string list" where
  "parse_text_parts [] n sep = []"
| "parse_text_parts (ch # text) 0 sep = []"
| "parse_text_parts (ch # text) (Suc n) sep =
     takeWhile (\<lambda>x. x \<noteq> sep) (ch # text) #
     parse_text_parts (drop 1 (dropWhile (\<lambda>x. x \<noteq> sep) (ch # text))) n sep"

definition meshcore_utils_parse_text_parts :: "string \<Rightarrow> int \<Rightarrow> char \<Rightarrow> nat \<times> string list" where
  "meshcore_utils_parse_text_parts text max_num sep =
     (let parts = parse_text_parts text (nat max_num) sep in (length parts, parts))"

section \<open>Encryption and decryption\<close>

text \<open>The documented law of the block cipher: decryption inverts encryption.\<close>

definition aes_inverse :: "crypto \<Rightarrow> bytes \<Rightarrow> bool" where
  "aes_inverse c key \<longleftrightarrow> (\<forall>b. length b = 16 \<longrightarrow>
     (\<exists>f g. crypto_aes128_encrypt_block c key b = Some f \<and>
            crypto_aes128_decrypt_block c key (buf 16 f) = Some g \<and> buf 16 g = b))"

definition hmac_total :: "crypto \<Rightarrow> bytes \<Rightarrow> bool" where
  "hmac_total c key \<longleftrightarrow> (\<forall>msg. crypto_hmac_sha256 c 2 key msg \<noteq> None)"

definition ceil16 :: "nat \<Rightarrow> nat" where
  "ceil16 n = (n + 15) div 16 * 16"

definition pad16 :: "bytes \<Rightarrow> bytes" where
  "pad16 bs = bs @ zeros (ceil16 (length bs) - length bs)"

lemma ceil16_ge: "n \<le> ceil16 n" and ceil16_less: "ceil16 n < n + 16"
  and ceil16_dvd [simp]: "16 dvd ceil16 n"
  by (auto simp: ceil16_def)

lemma ceil16_step: "16 \<le> n \<Longrightarrow> ceil16 n = 16 + ceil16 (n - 16)"
proof -
  assume "16 \<le> n"
  then have "n + 15 = (n - 16 + 15) + 16" by simp
  then show ?thesis unfolding ceil16_def by (metis add.commute div_add_self2 mult_Suc_right
    mult.commute zero_neq_numeral Suc_eq_plus1)
qed

lemma ceil16_tail: "0 < n \<Longrightarrow> n < 16 \<Longrightarrow> ceil16 n = 16"
  by (simp add: ceil16_def)

lemma ceil16_0 [simp]: "ceil16 0 = 0"
  by (simp add: ceil16_def)

lemma length_pad16 [simp]: "length (pad16 bs) = ceil16 (length bs)"
  using ceil16_ge [of "length bs"] by (simp add: pad16_def)

lemma pad16_block: "16 \<le> length bs \<Longrightarrow> pad16 bs = take 16 bs @ pad16 (drop 16 bs)"
  by (simp add: pad16_def ceil16_step add.commute flip: append_assoc)

lemma pad16_tail:
  "0 < length bs \<Longrightarrow> length bs < 16 \<Longrightarrow> mem_write 0 bs (zeros 16) = pad16 bs"
  by (simp add: pad16_def ceil16_tail mem_write_def zeros_def)

text \<open>Block-wise decryption of a byte string, the reference for the in-place loop.\<close>

function ecb_decrypt :: "crypto \<Rightarrow> bytes \<Rightarrow> bytes \<Rightarrow> bytes option" where
  "ecb_decrypt c key bs =
     (if bs = [] then Some []
      else case crypto_aes128_decrypt_block c key (take 16 bs) of
             None \<Rightarrow> None
           | Some f \<Rightarrow> map_option ((@) (buf 16 f)) (ecb_decrypt c key (drop 16 bs)))"
  by pat_completeness auto
termination
  by (relation "measure (\<lambda>(c, key, bs). length bs)") auto

declare ecb_decrypt.simps [simp del]

lemma ecb_decrypt_Nil [simp]: "ecb_decrypt c key [] = Some []"
  by (simp add: ecb_decrypt.simps)

lemma ecb_decrypt_block:
  "length b = 16 \<Longrightarrow> crypto_aes128_decrypt_block c key b = Some g \<Longrightarrow>
   ecb_decrypt c key (b @ bs) = map_option ((@) (buf 16 g)) (ecb_decrypt c key bs)"
  by (subst ecb_decrypt.simps) auto

text \<open>The encryption loop writes some ciphertext that decrypts to the padded input.\<close>

lemma encrypt_loop_spec:
  assumes "aes_inverse c (aes_key secret)"
    and "sp + n \<le> length src" and "dp + ceil16 n \<le> length dest"
  shows "\<exists>ct. length ct = ceil16 n \<and>
      encrypt_loop c secret dp sp n src dest = (Inr (dp + ceil16 n), mem_write dp ct dest) \<and>
      ecb_decrypt c (aes_key secret) ct = Some (pad16 (mem_read sp n src))"
  using assms(2,3)
proof (induction n arbitrary: dp sp dest rule: less_induct)
  case (less n)
  let ?k = "aes_key secret"
  consider (step) "16 \<le> n" | (tail) "0 < n" "n < 16" | (zero) "n = 0" by linarith
  then show ?case
  proof cases
    case step
    let ?b = "mem_read sp 16 src"
    have "length ?b = 16" using step less.prems by simp
    then obtain f g where f: "crypto_aes128_encrypt_block c ?k ?b = Some f"
      and g: "crypto_aes128_decrypt_block c ?k (buf 16 f) = Some g" "buf 16 g = ?b"
      using assms(1) unfolding aes_inverse_def by blast
    let ?dest = "mem_write dp (buf 16 f) dest"
    have "dp + 16 + ceil16 (n - 16) \<le> length ?dest" "sp + 16 + (n - 16) \<le> length src"
      using step less.prems by (simp_all add: ceil16_step)
    then obtain ct where ct: "length ct = ceil16 (n - 16)"
      "encrypt_loop c secret (dp + 16) (sp + 16) (n - 16) src ?dest
         = (Inr (dp + 16 + ceil16 (n - 16)), mem_write (dp + 16) ct ?dest)"
      "ecb_decrypt c ?k ct = Some (pad16 (mem_read (sp + 16) (n - 16) src))"
      using less.IH [of "n - 16" "sp + 16" "dp + 16" ?dest] step by auto
    have split: "pad16 (mem_read sp n src) = ?b @ pad16 (mem_read (sp + 16) (n - 16) src)"
      using step less.prems
      by (subst pad16_block) (simp_all add: mem_read_def drop_take min_absorb1 add.commute)
    have wr: "mem_write (dp + 16) ct ?dest = mem_write dp (buf 16 f @ ct) dest"
      using mem_write_mem_write_append [of dp dest "buf 16 f" ct] less.prems by simp
    show ?thesis
      using step f g ct split wr
      by (intro exI [of _ "buf 16 f @ ct"])
         (simp add: encrypt_loop.simps [of _ _ _ _ n] ceil16_step ecb_decrypt_block)
  next
    case tail
    let ?b = "mem_read sp n src"
    have len: "length ?b = n" using less.prems by simp
    with tail have p: "mem_write 0 ?b (zeros 16) = pad16 ?b" "length (pad16 ?b) = 16"
      by (simp_all add: pad16_tail ceil16_tail)
    then obtain f g where f: "crypto_aes128_encrypt_block c ?k (pad16 ?b) = Some f"
      and g: "crypto_aes128_decrypt_block c ?k (buf 16 f) = Some g" "buf 16 g = pad16 ?b"
      using assms(1) unfolding aes_inverse_def by blast
    have "ecb_decrypt c ?k (buf 16 f) = Some (pad16 ?b)"
      using ecb_decrypt_block [of "buf 16 f" c ?k g "[]"] g by simp
    then show ?thesis
      using tail f p(1)
      by (intro exI [of _ "buf 16 f"]) (simp add: encrypt_loop.simps [of _ _ _ _ n] ceil16_tail)
  next
    case zero
    then show ?thesis by (simp add: encrypt_loop.simps pad16_def zeros_def)
  qed
qed

lemma decrypt_loop_spec:
  assumes "ecb_decrypt c (aes_key secret) (mem_read (off + sp) (n - sp) src) = Some pt"
    and "16 dvd n - sp" and "sp \<le> n" and "off + n \<le> length src" and "n \<le> length dest"
  shows "decrypt_loop c secret sp src off n dest = (n, mem_write sp pt dest)"
  using assms
proof (induction "n - sp" arbitrary: sp pt dest rule: less_induct)
  case less
  let ?k = "aes_key secret"
  show ?case
  proof (cases "sp < n")
    case False
    with less.prems show ?thesis by (simp add: decrypt_loop.simps)
  next
    case True
    then have ge: "16 \<le> n - sp" using less.prems(2) by (auto dest: dvd_imp_le)
    let ?ct = "mem_read (off + sp) (n - sp) src"
    have split: "?ct = mem_read (off + sp) 16 src @ mem_read (off + (sp + 16)) (n - (sp + 16)) src"
      using mem_read_split [of "off + sp" 16 "n - (sp + 16)" src] ge by (simp add: ac_simps)
    have lb: "length (mem_read (off + sp) 16 src) = 16" using ge less.prems by simp
    then obtain g pt' where g: "crypto_aes128_decrypt_block c ?k (mem_read (off + sp) 16 src) = Some g"
      and pt: "ecb_decrypt c ?k (mem_read (off + (sp + 16)) (n - (sp + 16)) src) = Some pt'"
        "pt = buf 16 g @ pt'"
      using less.prems(1) ge unfolding split
      by (subst (asm) ecb_decrypt.simps) (auto split: option.splits if_splits)
    let ?dest = "mem_write sp (buf 16 g) dest"
    have "16 dvd n - (sp + 16)" using less.prems(2) ge by (metis dvd_diff_nat diff_diff_left dvd_refl)
    then have "decrypt_loop c secret (sp + 16) src off n ?dest = (n, mem_write (sp + 16) pt' ?dest)"
      using less.prems ge pt by (intro less.hyps) auto
    moreover have "mem_write (sp + 16) pt' ?dest = mem_write sp pt dest"
      using mem_write_mem_write_append [of sp dest "buf 16 g" pt'] less.prems pt by simp
    ultimately show ?thesis using True g by (simp add: decrypt_loop.simps [of _ _ sp])
  qed
qed

lemma encrypt_then_mac_spec:
  assumes "aes_inverse c (aes_key secret)" and "hmac_total c (mem_read 0 32 secret)"
    and "0 < n" and "n \<le> length src" and "off + 2 + ceil16 n \<le> length dest"
  shows "\<exists>ct f. length ct = ceil16 n \<and>
      crypto_hmac_sha256 c 2 (mem_read 0 32 secret) ct = Some f \<and>
      ecb_decrypt c (aes_key secret) ct = Some (pad16 (take n src)) \<and>
      meshcore_utils_encrypt_then_mac c secret dest off src (int n)
        = (Inr (2 + ceil16 n), mem_write off (buf 2 f @ ct) dest)"
proof -
  obtain ct where ct: "length ct = ceil16 n"
    "encrypt_loop c secret (off + 2) 0 n src dest
       = (Inr (off + 2 + ceil16 n), mem_write (off + 2) ct dest)"
    "ecb_decrypt c (aes_key secret) ct = Some (pad16 (mem_read 0 n src))"
    using encrypt_loop_spec [OF assms(1), of 0 n src "off + 2" dest] assms by auto
  obtain f where f: "crypto_hmac_sha256 c 2 (mem_read 0 32 secret) ct = Some f"
    using assms(2) unfolding hmac_total_def by blast
  have pos: "0 < ceil16 n" using assms(3) ceil16_ge [of n] by simp
  have rd: "mem_read (off + 2) (ceil16 n) (mem_write (off + 2) ct dest) = ct"
    using ct(1) assms(5) by simp
  have wr: "mem_write off (buf 2 f) (mem_write (off + 2) ct dest) = mem_write off (buf 2 f @ ct) dest"
    using assms(5) by (simp add: mem_write_def min_absorb1 ac_simps)
  show ?thesis
    using ct f pos rd wr assms(3)
    by (intro exI [of _ ct] exI [of _ f])
       (simp add: meshcore_utils_encrypt_then_mac_def meshcore_utils_encrypt_def mem_read_0_take)
qed

lemma mac_then_decrypt_spec:
  assumes "crypto_hmac_sha256 c 2 (mem_read 0 32 secret) ct = Some f"
    and "ecb_decrypt c (aes_key secret) ct = Some pt"
    and "ct \<noteq> []" and "16 dvd length ct" and "length ct \<le> length out"
    and "off \<le> length src" and "mem_read off (2 + length ct) src = buf 2 f @ ct"
  shows "meshcore_utils_mac_then_decrypt c secret out src off (int (2 + length ct))
       = (length ct, mem_write 0 pt out)"
proof -
  have "length (mem_read off (2 + length ct) src) = 2 + length ct" using assms(7) by simp
  then have len: "off + 2 + length ct \<le> length src"
    using assms(6) by (auto simp: mem_read_def min_def split: if_splits)
  have "drop 2 (mem_read off (2 + length ct) src) = drop 2 (buf 2 f @ ct)" using assms(7) by simp
  then have ct: "mem_read (off + 2) (length ct) src = ct"
    by (simp add: mem_read_def drop_take add.commute)
  have "take 2 (mem_read off (2 + length ct) src) = take 2 (buf 2 f @ ct)" using assms(7) by simp
  then have mac: "mem_read off 2 src = buf 2 f" by (simp add: mem_read_def numeral_2_eq_2)
  have md: "int (length ct) mod 16 = 0" using assms(4) by (auto elim: dvdE)
  have "decrypt_loop c secret 0 src (off + 2) (length ct) out = (length ct, mem_write 0 pt out)"
    using assms ct len by (intro decrypt_loop_spec) auto
  then show ?thesis
    using assms(1,3) ct mac md
    by (simp add: meshcore_utils_mac_then_decrypt_def meshcore_utils_decrypt_def nat_add_distrib)
qed

text \<open>What decryption accepts: only a whole number of blocks under a matching MAC.\<close>

lemma decrypt_loop_result:
  "16 dvd n - sp \<Longrightarrow> sp \<le> n \<Longrightarrow> fst (decrypt_loop c secret sp src off n dest) \<in> {0, n}"
proof (induction c secret sp src off n dest rule: decrypt_loop.induct)
  case (1 c secret sp src off n dest)
  show ?case
  proof (cases "sp < n")
    case True
    then have "16 \<le> n - sp" using 1(2) by (auto dest: dvd_imp_le)
    moreover then have "16 dvd n - (sp + 16)"
      using 1(2) by (metis dvd_diff_nat diff_diff_left dvd_refl)
    ultimately show ?thesis
      using True 1 by (simp add: decrypt_loop.simps [of _ _ sp] split: option.split)
  qed (use 1 in \<open>simp add: decrypt_loop.simps\<close>)
qed

text \<open>
  A block that cannot be decrypted makes the result 0; what follows the place of the
  plaintext in the destination is untouched.
\<close>

lemma decrypt_loop_fails:
  assumes "ecb_decrypt c (aes_key secret) (mem_read (off + sp) (n - sp) src) = None"
    and "16 dvd n - sp" and "sp \<le> n" and "off + n \<le> length src" and "n \<le> length dest"
  shows "\<exists>d. decrypt_loop c secret sp src off n dest = (0, d) \<and> drop n d = drop n dest"
  using assms
proof (induction c secret sp src off n dest rule: decrypt_loop.induct)
  case (1 c secret sp src off n dest)
  let ?k = "aes_key secret"
  have lt: "sp < n" using "1.prems"(1,3) by (cases "sp = n") auto
  then have ge: "16 \<le> n - sp" using "1.prems"(2) by (auto dest: dvd_imp_le)
  let ?ct = "mem_read (off + sp) (n - sp) src"
  have split: "?ct = mem_read (off + sp) 16 src @ mem_read (off + (sp + 16)) (n - (sp + 16)) src"
    using mem_read_split [of "off + sp" 16 "n - (sp + 16)" src] ge by (simp add: ac_simps)
  have lb: "length (mem_read (off + sp) 16 src) = 16" using ge "1.prems" by simp
  show ?case
  proof (cases "crypto_aes128_decrypt_block c ?k (mem_read (off + sp) 16 src)")
    case None
    then show ?thesis using lt by (simp add: decrypt_loop.simps [of _ _ sp])
  next
    case (Some g)
    have "ecb_decrypt c ?k (mem_read (off + (sp + 16)) (n - (sp + 16)) src) = None"
      using "1.prems"(1) ge lb Some unfolding split
      by (subst (asm) ecb_decrypt.simps) (auto split: option.splits if_splits)
    moreover have "16 dvd n - (sp + 16)"
      using "1.prems"(2) ge by (metis dvd_diff_nat diff_diff_left dvd_refl)
    ultimately have "\<exists>d. decrypt_loop c secret (sp + 16) src off n (mem_write sp (buf 16 g) dest)
        = (0, d) \<and> drop n d = drop n (mem_write sp (buf 16 g) dest)"
      using "1.prems" ge by (intro "1.IH" [OF lt Some]) auto
    moreover have "drop n (mem_write sp (buf 16 g) dest) = drop n dest"
      using "1.prems" ge by (simp add: mem_write_def)
    ultimately show ?thesis using Some lt by (simp add: decrypt_loop.simps [of _ _ sp])
  qed
qed

text \<open>
  An authentic message of \<open>len\<close> bytes: a two-byte tag, followed by a positive whole number
  of cipher blocks that the tag authenticates.
\<close>

definition authentic :: "crypto \<Rightarrow> bytes \<Rightarrow> bytes \<Rightarrow> nat \<Rightarrow> int \<Rightarrow> bool" where
  "authentic c secret src off len \<longleftrightarrow> 2 < len \<and> 16 dvd nat len - 2 \<and>
     map_option (buf 2)
         (crypto_hmac_sha256 c 2 (mem_read 0 32 secret) (mem_read (off + 2) (nat len - 2) src))
       = Some (mem_read off 2 src)"

lemma mac_then_decrypt_eq:
  "meshcore_utils_mac_then_decrypt c secret dest src off len =
     (if authentic c secret src off len
      then decrypt_loop c secret 0 src (off + 2) (nat len - 2) dest else (0, dest))"
proof -
  have "(len - 2) mod 16 = 0 \<longleftrightarrow> 16 dvd nat len - 2" "nat (len - 2) = nat len - 2" if "2 < len"
  proof -
    have "(len - 2) mod 16 = 0 \<longleftrightarrow> int 16 dvd int (nat len - 2)" using that by auto
    then show "(len - 2) mod 16 = 0 \<longleftrightarrow> 16 dvd nat len - 2" by (simp only: int_dvd_int_iff)
  qed simp
  then show ?thesis
    by (cases "2 < len")
       (auto simp: authentic_def meshcore_utils_mac_then_decrypt_def meshcore_utils_decrypt_def
          split: option.split)
qed

section \<open>Hexadecimal round trip\<close>

lemma nibble_less: "unat (drop_bit 4 (b::byte)) < 16" "unat (b AND 0x0F) < 16"
proof -
  show "unat (drop_bit 4 b) < 16"
    using unsigned_less [of b, where ?'a = nat]
    by (simp add: drop_bit_eq_div unat_div less_mult_imp_div_less)
  have "b AND 0x0F = take_bit 4 b" by (simp add: take_bit_eq_mask mask_eq_exp_minus_1)
  then show "unat (b AND 0x0F) < 16" by (simp add: take_bit_eq_mod unat_mod)
qed

lemma hex_val_hex_chars:
  "i < 16 \<Longrightarrow> hex_val (hex_chars ! i) = of_nat i \<and> meshcore_utils_is_hex_char (hex_chars ! i)"
proof -
  have "\<forall>i\<in>set [0..<16]. hex_val (hex_chars ! i) = of_nat i \<and> meshcore_utils_is_hex_char (hex_chars ! i)"
    by code_simp
  then show "i < 16 \<Longrightarrow> ?thesis" by simp
qed

lemma nibbles: "push_bit 4 (drop_bit 4 b) OR (b AND 0x0F) = (b :: byte)"
proof -
  have "b AND 0x0F = take_bit 4 b" by (simp add: take_bit_eq_mask mask_eq_exp_minus_1)
  then show ?thesis
    by (intro bit_word_eqI)
       (auto simp: bit_or_iff bit_push_bit_iff bit_drop_bit_eq bit_take_bit_iff)
qed

lemma from_hex_byte:
  "from_hex_loop (to_hex_byte b @ rest) dp dest = from_hex_loop rest (dp + 1) (mem_write dp [b] dest)"
  using hex_val_hex_chars [OF nibble_less(1)] hex_val_hex_chars [OF nibble_less(2)]
  by (simp add: to_hex_byte_def nibbles)

lemma length_to_hex [simp]: "length (meshcore_utils_to_hex bs) = 2 * length bs"
  by (induction bs) (simp_all add: to_hex_byte_def)

lemma from_hex_loop_to_hex:
  "dp \<le> length dest \<Longrightarrow>
   from_hex_loop (meshcore_utils_to_hex bs) dp dest = (True, mem_write dp bs dest)"
proof (induction bs arbitrary: dp dest)
  case (Cons b bs)
  have "dp + 1 \<le> length (mem_write dp [b] dest)"
    using Cons.prems by (simp add: mem_write_def)
  then show ?case
    using Cons.IH Cons.prems mem_write_mem_write_append [of dp dest "[b]" bs]
    by (simp add: from_hex_byte)
qed simp

lemma from_hex_loop_ok:
  "even (length s) \<Longrightarrow>
   fst (from_hex_loop s dp dest) \<longleftrightarrow> (\<forall>ch\<in>set s. meshcore_utils_is_hex_char ch)"
  by (induction s dp dest rule: from_hex_loop.induct) auto

section \<open>Properties\<close>


definition xor_crypto :: crypto where
  "xor_crypto = \<lparr> crypto_sha256 = \<lambda>n m. Some (\<lambda>i. of_nat (length m)),
     crypto_sha256_two_fragments = \<lambda>n a b. Some (\<lambda>i. of_nat (length a + length b)),
     crypto_aes128_encrypt_block = \<lambda>k b. Some (\<lambda>i. byte_at b i XOR 0x5A),
     crypto_aes128_decrypt_block = \<lambda>k b. Some (\<lambda>i. byte_at b i XOR 0x5A),
     crypto_hmac_sha256 = \<lambda>n k m. Some (\<lambda>i. foldr (XOR) m (of_nat i)) \<rparr>"

lemma xor_crypto_laws: "aes_inverse xor_crypto k" "hmac_total xor_crypto k'"
proof -
  show "aes_inverse xor_crypto k"
    by (auto simp: aes_inverse_def xor_crypto_def buf_def xor.assoc intro!: nth_equalityI)
  show "hmac_total xor_crypto k'"
    by (simp add: hmac_total_def xor_crypto_def)
qed


text \<open>
  C18. \<open>meshcore_utils_mac_then_decrypt\<close> reports plaintext only for an authentic
  message: a non-zero result means that the two bytes in front of the ciphertext are the MAC
  of all the following bytes, that these are a positive whole number of blocks, and
  that the result is their number. A message that is not authentic gives 0 and leaves the
  destination untouched. An authentic one, within both buffers, is decrypted; only the
  failure of the block cipher can then still give 0, with the blocks decrypted before it
  already written at the front of the destination.
\<close>

theorem mac_then_decrypt_authentic:
  assumes "meshcore_utils_mac_then_decrypt c secret dest src off len = (n, d)"
  shows "(n \<noteq> 0 \<longrightarrow> 2 < len \<and> 16 dvd n \<and> int n = len - 2 \<and>
      map_option (buf 2)
          (crypto_hmac_sha256 c 2 (mem_read 0 32 secret) (mem_read (off + 2) n src))
        = Some (mem_read off 2 src)) \<and>
    (\<not> authentic c secret src off len \<longrightarrow> n = 0 \<and> d = dest) \<and>
    (authentic c secret src off len \<and> off + nat len \<le> length src \<and> nat len - 2 \<le> length dest \<longrightarrow>
      (case ecb_decrypt c (aes_key secret) (mem_read (off + 2) (nat len - 2) src) of
         Some pt \<Rightarrow> n = nat len - 2 \<and> d = mem_write 0 pt dest
       | None \<Rightarrow> n = 0 \<and> drop (nat len - 2) d = drop (nat len - 2) dest))"
proof -
  let ?m = "nat len - 2"
  have r: "(n, d) = (if authentic c secret src off len
      then decrypt_loop c secret 0 src (off + 2) ?m dest else (0, dest))"
    using assms mac_then_decrypt_eq by metis
  have "n \<in> {0, ?m}" if "authentic c secret src off len"
    using decrypt_loop_result [of ?m 0 c secret src "off + 2" dest] that r
    by (metis authentic_def diff_zero fst_conv le0)
  moreover have "case ecb_decrypt c (aes_key secret) (mem_read (off + 2) ?m src) of
         Some pt \<Rightarrow> n = ?m \<and> d = mem_write 0 pt dest
       | None \<Rightarrow> n = 0 \<and> drop ?m d = drop ?m dest"
    if "authentic c secret src off len \<and> off + nat len \<le> length src \<and> ?m \<le> length dest"
    using that r decrypt_loop_fails [of c secret "off + 2" 0 ?m src dest]
      decrypt_loop_spec [of c secret "off + 2" 0 ?m src _ dest]
    by (force simp: authentic_def split: option.split)
  ultimately show ?thesis using r by (auto simp: authentic_def split: if_splits)
qed

theorem mac_then_decrypt_authentic_witness:
  "(\<exists>d. meshcore_utils_mac_then_decrypt xor_crypto (zeros 32) (zeros 16)
          ([0, 1] @ zeros 16) 0 18 = (16, d) \<and> (16::nat) dvd 16 \<and>
     map_option (buf 2) (crypto_hmac_sha256 xor_crypto 2 (zeros 32)
        (mem_read 2 16 ([0, 1] @ zeros 16))) = Some [0, 1]) \<and>
   meshcore_utils_mac_then_decrypt xor_crypto (zeros 32) (zeros 16) ([0, 2] @ zeros 16) 0 18
     = (0, zeros 16)"
proof (rule conjI)
  have run: "\<exists>d. meshcore_utils_mac_then_decrypt xor_crypto (zeros 32) (zeros 16)
          ([0, 1] @ zeros 16) 0 18 = (16, d)"
    by (rule exI) code_simp
  then obtain d where d: "meshcore_utils_mac_then_decrypt xor_crypto (zeros 32) (zeros 16)
          ([0, 1] @ zeros 16) 0 18 = (16, d)" ..
  from mac_then_decrypt_authentic [OF d]
  show "\<exists>d. meshcore_utils_mac_then_decrypt xor_crypto (zeros 32) (zeros 16)
          ([0, 1] @ zeros 16) 0 18 = (16, d) \<and> (16::nat) dvd 16 \<and>
     map_option (buf 2) (crypto_hmac_sha256 xor_crypto 2 (zeros 32)
        (mem_read 2 16 ([0, 1] @ zeros 16))) = Some [0, 1]"
    using d by (simp add: mem_read_def)
next
  have "\<not> authentic xor_crypto (zeros 32) ([0, 2] @ zeros 16) 0 18" by code_simp
  then show "meshcore_utils_mac_then_decrypt xor_crypto (zeros 32) (zeros 16)
      ([0, 2] @ zeros 16) 0 18 = (0, zeros 16)"
    using mac_then_decrypt_authentic [OF prod.collapse [symmetric]] by (metis prod.collapse)
qed

text \<open>
  Hexadecimal text: \<open>meshcore_utils_from_hex\<close> reads back what
  \<open>meshcore_utils_to_hex\<close> prints.
\<close>

theorem from_hex_to_hex:
  assumes "length dest = length bs"
  shows "meshcore_utils_from_hex dest (int (length bs)) (meshcore_utils_to_hex bs) = (True, bs)"
  using assms by (simp add: meshcore_utils_from_hex_def from_hex_loop_to_hex mem_write_def)

theorem from_hex_to_hex_witness:
  "meshcore_utils_from_hex [0, 0] 2 (meshcore_utils_to_hex [0xAB, 0x07]) = (True, [0xAB, 0x07])"
  using from_hex_to_hex [of "[0, 0]" "[0xAB, 0x07]"] by simp

end
