(* ===== verification/Packet.thy ===== *)
theory Packet
  imports Utils
begin

text \<open>
  \<open>src/core/meshcore_packet.c\<close> and \<open>.h\<close>: the packet, its header and path-length
  fields, the wire format (\<open>meshcore_packet_write_to\<close>, \<open>meshcore_packet_read_from\<close>) and
  the packet hash.  A \<open>struct meshcore_packet *\<close> argument is passed as the value it points
  to and returned updated, so the guards against a NULL packet have no counterpart here.
  The wire buffer is a byte list beside the C index \<open>i\<close>, kept as an 8-bit word because
  the code keeps it in a \<open>uint8_t\<close>.

  Shown here: the wire format round trip in both directions, that serialisation stays
  within the 255-byte transmission unit (so that the 8-bit index never wraps), that
  parsing keeps every buffer within its bounds and leaves a valid path, and the algebra of
  the encoded path length.
\<close>

section \<open>The packet\<close>

abbreviation (input) "MAX_PATH_LEN \<equiv> 64 :: nat"
abbreviation (input) "PACKET_PAYLOAD_MAX_LEN \<equiv> 184 :: nat"
abbreviation (input) "PACKET_HASH_SIZE \<equiv> 8 :: nat"
abbreviation (input) "MAX_TRANS_UNIT_LEN \<equiv> 255 :: nat"

abbreviation (input) "ROUTE_TYPE_TRANSPORT_FLOOD \<equiv> 0x00 :: byte"
abbreviation (input) "ROUTE_TYPE_FLOOD \<equiv> 0x01 :: byte"
abbreviation (input) "ROUTE_TYPE_DIRECT \<equiv> 0x02 :: byte"
abbreviation (input) "ROUTE_TYPE_TRANSPORT_DIRECT \<equiv> 0x03 :: byte"

abbreviation (input) "PAYLOAD_TYPE_REQ \<equiv> 0x00 :: byte"
abbreviation (input) "PAYLOAD_TYPE_RESPONSE \<equiv> 0x01 :: byte"
abbreviation (input) "PAYLOAD_TYPE_TXT_MSG \<equiv> 0x02 :: byte"
abbreviation (input) "PAYLOAD_TYPE_ACK \<equiv> 0x03 :: byte"
abbreviation (input) "PAYLOAD_TYPE_ADVERT \<equiv> 0x04 :: byte"
abbreviation (input) "PAYLOAD_TYPE_GRP_TXT \<equiv> 0x05 :: byte"
abbreviation (input) "PAYLOAD_TYPE_GRP_DATA \<equiv> 0x06 :: byte"
abbreviation (input) "PAYLOAD_TYPE_ANON_REQ \<equiv> 0x07 :: byte"
abbreviation (input) "PAYLOAD_TYPE_PATH \<equiv> 0x08 :: byte"
abbreviation (input) "PAYLOAD_TYPE_TRACE \<equiv> 0x09 :: byte"
abbreviation (input) "PAYLOAD_TYPE_MULTIPART \<equiv> 0x0A :: byte"
abbreviation (input) "PAYLOAD_TYPE_CONTROL \<equiv> 0x0B :: byte"
abbreviation (input) "PAYLOAD_TYPE_RAW_CUSTOM \<equiv> 0x0F :: byte"

abbreviation (input) "PAYLOAD_VER_1 \<equiv> 0x00 :: byte"

abbreviation (input) "SNR_TRANSPORT_CODE0 \<equiv> 0x534E :: u16"
abbreviation (input) "SNR_TRANSPORT_CODE1 \<equiv> 0x0001 :: u16"

record packet =
  pk_header :: byte
  pk_payload_len :: u16
  pk_path_len :: u16
  pk_transport_codes :: "u16 \<times> u16"
  pk_path :: bytes
  pk_payload :: bytes
  pk_snr_q4 :: byte

text \<open>The bounds of the two arrays of the struct.\<close>

definition packet_wf :: "packet \<Rightarrow> bool" where
  "packet_wf p \<longleftrightarrow> length (pk_path p) = 64 \<and> length (pk_payload p) = 184"

definition meshcore_packet_init :: packet where
  "meshcore_packet_init =
     \<lparr> pk_header = 0, pk_payload_len = 0, pk_path_len = 0, pk_transport_codes = (0, 0),
       pk_path = zeros 64, pk_payload = zeros 184, pk_snr_q4 = 0 \<rparr>"

definition meshcore_packet_path_len_field :: "packet \<Rightarrow> byte" where
  "meshcore_packet_path_len_field p = ucast (pk_path_len p)"

definition meshcore_packet_get_route_type :: "packet \<Rightarrow> byte" where
  "meshcore_packet_get_route_type p = pk_header p AND 0x03"

definition meshcore_packet_is_route_flood :: "packet \<Rightarrow> bool" where
  "meshcore_packet_is_route_flood p \<longleftrightarrow>
     (let route_type = meshcore_packet_get_route_type p in
      route_type = ROUTE_TYPE_FLOOD \<or> route_type = ROUTE_TYPE_TRANSPORT_FLOOD)"

definition meshcore_packet_is_route_direct :: "packet \<Rightarrow> bool" where
  "meshcore_packet_is_route_direct p \<longleftrightarrow>
     (let route_type = meshcore_packet_get_route_type p in
      route_type = ROUTE_TYPE_DIRECT \<or> route_type = ROUTE_TYPE_TRANSPORT_DIRECT)"

definition meshcore_packet_has_transport_codes :: "packet \<Rightarrow> bool" where
  "meshcore_packet_has_transport_codes p \<longleftrightarrow>
     (let route_type = meshcore_packet_get_route_type p in
      route_type = ROUTE_TYPE_TRANSPORT_FLOOD \<or> route_type = ROUTE_TYPE_TRANSPORT_DIRECT)"

definition meshcore_packet_has_snr_flag :: "packet \<Rightarrow> bool" where
  "meshcore_packet_has_snr_flag p \<longleftrightarrow> meshcore_packet_has_transport_codes p \<and>
     pk_transport_codes p = (SNR_TRANSPORT_CODE0, SNR_TRANSPORT_CODE1)"

definition meshcore_packet_get_payload_type :: "packet \<Rightarrow> byte" where
  "meshcore_packet_get_payload_type p = drop_bit 2 (pk_header p) AND 0x0F"

definition meshcore_packet_get_payload_ver :: "packet \<Rightarrow> byte" where
  "meshcore_packet_get_payload_ver p = drop_bit 6 (pk_header p) AND 0x03"

section \<open>The encoded path length\<close>

text \<open>Bits 0 to 5 count the hops; bits 6 and 7 hold the bytes per hop, less one.\<close>

definition meshcore_packet_get_path_hash_size :: "packet \<Rightarrow> byte" where
  "meshcore_packet_get_path_hash_size p = drop_bit 6 (meshcore_packet_path_len_field p) + 1"

definition meshcore_packet_get_path_hash_count :: "packet \<Rightarrow> byte" where
  "meshcore_packet_get_path_hash_count p = meshcore_packet_path_len_field p AND 63"

definition meshcore_packet_get_path_byte_len :: "packet \<Rightarrow> byte" where
  "meshcore_packet_get_path_byte_len p =
     meshcore_packet_get_path_hash_count p * meshcore_packet_get_path_hash_size p"

definition meshcore_packet_set_path_hash_count :: "packet \<Rightarrow> byte \<Rightarrow> packet" where
  "meshcore_packet_set_path_hash_count p hash_count =
     p \<lparr> pk_path_len := (pk_path_len p AND NOT 63) OR ucast (hash_count AND 63) \<rparr>"

definition meshcore_packet_set_path_hash_size_and_count :: "packet \<Rightarrow> byte \<Rightarrow> byte \<Rightarrow> packet" where
  "meshcore_packet_set_path_hash_size_and_count p hash_size hash_count =
     p \<lparr> pk_path_len := push_bit 6 (ucast hash_size - 1) OR ucast (hash_count AND 63) \<rparr>"

definition meshcore_packet_is_valid_path_len :: "byte \<Rightarrow> bool" where
  "meshcore_packet_is_valid_path_len path_len \<longleftrightarrow>
     (let hash_count = path_len AND 63; hash_size = drop_bit 6 path_len + 1 in
      if hash_size = 4 then False
      else (ucast hash_count * ucast hash_size :: u16) \<le> 64)"

text \<open>
  \<open>meshcore_packet_write_path(&dest[off], src, path_len)\<close>: the number of bytes copied
  and the destination buffer.
\<close>

definition meshcore_packet_write_path :: "nat \<Rightarrow> bytes \<Rightarrow> bytes \<Rightarrow> byte \<Rightarrow> nat \<times> bytes" where
  "meshcore_packet_write_path off dest src path_len =
     (let hash_count = path_len AND 63; hash_size = drop_bit 6 path_len + 1;
          len = unat hash_count * unat hash_size in
      if len > 64 then (0, dest)
      else (len, mem_write off (mem_read 0 len src) dest))"

definition meshcore_packet_copy_path :: "bytes \<Rightarrow> bytes \<Rightarrow> byte \<Rightarrow> byte \<times> bytes" where
  "meshcore_packet_copy_path dest src path_len =
     (path_len, snd (meshcore_packet_write_path 0 dest src path_len))"

definition meshcore_packet_mark_do_not_retransmit :: "packet \<Rightarrow> packet" where
  "meshcore_packet_mark_do_not_retransmit p = p \<lparr> pk_header := 0xFF \<rparr>"

definition meshcore_packet_is_marked_do_not_retransmit :: "packet \<Rightarrow> bool" where
  "meshcore_packet_is_marked_do_not_retransmit p \<longleftrightarrow> pk_header p = 0xFF"

text \<open>\<open>snr_q4 / 4.0f\<close> is exact in single precision; it is a rational here.\<close>

definition meshcore_packet_get_snr :: "packet \<Rightarrow> rat" where
  "meshcore_packet_get_snr p = of_int (sint (pk_snr_q4 p)) / 4"

definition meshcore_packet_get_raw_length :: "packet \<Rightarrow> nat" where
  "meshcore_packet_get_raw_length p =
     2 + unat (meshcore_packet_get_path_byte_len p) + unat (pk_payload_len p) +
     (if meshcore_packet_has_transport_codes p then 4 else 0)"

section \<open>Hash\<close>

definition packet_hash_input :: "packet \<Rightarrow> bytes" where
  "packet_hash_input p =
     (let payload_type = meshcore_packet_get_payload_type p in
      payload_type #
      (if payload_type = PAYLOAD_TYPE_TRACE then le_bytes 2 (pk_path_len p) else []) @
      mem_read 0 (unat (pk_payload_len p)) (pk_payload p))"

definition meshcore_packet_calculate_hash :: "crypto \<Rightarrow> packet \<Rightarrow> bytes" where
  "meshcore_packet_calculate_hash c p =
     (if unat (pk_payload_len p) > 184 then zeros 8
      else
        let payload_type = meshcore_packet_get_payload_type p;
            extra = (if payload_type = PAYLOAD_TYPE_TRACE then 2 else 0);
            data_len = 1 + extra + unat (pk_payload_len p) in
        if data_len > 1 + 2 + 184 then zeros 8
        else meshcore_utils_sha256 c 8 (packet_hash_input p) (int data_len))"

lemma length_packet_hash [simp, buf_simps]: "length (meshcore_packet_calculate_hash c p) = 8"
  by (simp add: meshcore_packet_calculate_hash_def Let_def)

section \<open>Wire format\<close>

definition meshcore_packet_write_to :: "packet \<Rightarrow> bytes \<Rightarrow> byte \<times> bytes" where
  "meshcore_packet_write_to p dest =
     (let path_len_field = meshcore_packet_path_len_field p in
      if \<not> meshcore_packet_is_valid_path_len path_len_field \<or> unat (pk_payload_len p) > 184
      then (0, dest)
      else
        let i = 0 :: byte;
            dest = mem_write (unat i) [pk_header p] dest;
            i = i + 1;
            (i, dest) =
              (if meshcore_packet_has_transport_codes p then
                 let dest = mem_write (unat i) (le_bytes 2 (fst (pk_transport_codes p))) dest;
                     i = i + 2;
                     dest = mem_write (unat i) (le_bytes 2 (snd (pk_transport_codes p))) dest;
                     i = i + 2
                 in (i, dest)
               else (i, dest));
            dest = mem_write (unat i) [path_len_field] dest;
            i = i + 1;
            (path_len_bytes, dest) =
              meshcore_packet_write_path (unat i) dest (pk_path p) path_len_field;
            i = i + of_nat path_len_bytes;
            dest = mem_write (unat i) (mem_read 0 (unat (pk_payload_len p)) (pk_payload p)) dest;
            i = i + ucast (pk_payload_len p)
        in (i, dest))"

text \<open>
  The packet is written field by field while the bytes are checked, so that a rejected
  message leaves the fields read before the failure in place.
\<close>

definition read_path_and_payload :: "packet \<Rightarrow> bytes \<Rightarrow> byte \<Rightarrow> byte \<Rightarrow> bool \<times> packet" where
  "read_path_and_payload p src len i =
     (if i \<ge> len then (False, p)
      else
        let p = p \<lparr> pk_path_len := ucast (byte_at src (unat i)) \<rparr>;
            i = i + 1 in
        if \<not> meshcore_packet_is_valid_path_len (meshcore_packet_path_len_field p) then (False, p)
        else
          let path_byte_len = meshcore_packet_get_path_byte_len p in
          if unat i + unat path_byte_len > unat len then (False, p)
          else
            let p = p \<lparr> pk_path :=
                          mem_write 0 (mem_read (unat i) (unat path_byte_len) src) (pk_path p) \<rparr>;
                i = i + path_byte_len in
            if i \<ge> len then (False, p)
            else
              let p = p \<lparr> pk_payload_len := ucast (len - i) \<rparr> in
              if unat (pk_payload_len p) > 184 then (False, p)
              else
                (True, p \<lparr> pk_payload :=
                   mem_write 0 (mem_read (unat i) (unat (pk_payload_len p)) src)
                     (pk_payload p) \<rparr>))"

definition meshcore_packet_read_from :: "packet \<Rightarrow> bytes \<Rightarrow> byte \<Rightarrow> bool \<times> packet" where
  "meshcore_packet_read_from p src len =
     (if len = 0 then (False, p)
      else
        let i = 0 :: byte;
            p = p \<lparr> pk_header := byte_at src (unat i) \<rparr>;
            i = i + 1 in
        if meshcore_packet_has_transport_codes p then
          if unat i + 4 > unat len then (False, p)
          else
            let p = p \<lparr> pk_transport_codes :=
                  (le_word (mem_read (unat i) 2 src), le_word (mem_read (unat (i + 2)) 2 src)) \<rparr>;
                i = i + 2 + 2 in
            read_path_and_payload p src len i
        else
          let p = p \<lparr> pk_transport_codes := (0, 0) \<rparr> in
          read_path_and_payload p src len i)"

section \<open>Facts about the path length\<close>

definition hash_size :: "byte \<Rightarrow> nat" where
  "hash_size pl = unat (drop_bit 6 pl) + 1"

definition hash_count :: "byte \<Rightarrow> nat" where
  "hash_count pl = unat (pl AND 63)"

definition path_bytes :: "byte \<Rightarrow> nat" where
  "path_bytes pl = hash_count pl * hash_size pl"

lemma and_63: "(w::'a::len word) AND 63 = take_bit 6 w"
  by (simp add: take_bit_eq_mask mask_eq_exp_minus_1)

lemma hash_count_le: "hash_count pl \<le> 63"
proof -
  have "hash_count pl < 64" unfolding hash_count_def and_63 by (simp add: take_bit_eq_mod unat_mod)
  then show ?thesis by simp
qed

lemma hash_size_bounds: "1 \<le> hash_size pl" "hash_size pl \<le> 4"
proof -
  have "unat pl div 64 < 4"
    using unsigned_less [of pl, where ?'a = nat] by (simp add: less_mult_imp_div_less)
  then show "1 \<le> hash_size pl" "hash_size pl \<le> 4"
    by (simp_all add: hash_size_def drop_bit_eq_div unat_div)
qed

lemma unat_hash_size: "unat (drop_bit 6 pl + 1 :: byte) = hash_size pl"
  using hash_size_bounds [of pl] by (simp add: hash_size_def unat_word_ariths)

lemma path_bytes_le: "path_bytes pl \<le> 252"
  using mult_le_mono [OF hash_count_le hash_size_bounds(2)] by (simp add: path_bytes_def)

lemma unat_path_byte_len [simp]:
  "unat (meshcore_packet_get_path_byte_len p) = path_bytes (meshcore_packet_path_len_field p)"
  using path_bytes_le [of "meshcore_packet_path_len_field p"]
  by (simp add: meshcore_packet_get_path_byte_len_def meshcore_packet_get_path_hash_count_def
      meshcore_packet_get_path_hash_size_def unat_word_ariths(2) unat_hash_size
      path_bytes_def hash_count_def)

lemma valid_path_len_iff:
  "meshcore_packet_is_valid_path_len pl \<longleftrightarrow> hash_size pl \<noteq> 4 \<and> path_bytes pl \<le> 64"
proof -
  have "unat (ucast (pl AND 63) * ucast (drop_bit 6 pl + 1) :: u16) = path_bytes pl"
    using path_bytes_le [of pl] hash_count_le [of pl] hash_size_bounds(2) [of pl]
    unfolding path_bytes_def hash_count_def
    by (simp add: unat_word_ariths(2) unsigned_ucast_eq unat_hash_size)
       (simp add: take_bit_nat_eq_self)
  moreover have "drop_bit 6 pl + 1 = (4::byte) \<longleftrightarrow> hash_size pl = 4"
    by (subst word_unat_eq_iff) (simp add: unat_hash_size)
  ultimately show ?thesis
    by (simp add: meshcore_packet_is_valid_path_len_def Let_def word_le_nat_alt)
qed

lemma write_path_eq:
  "path_bytes pl \<le> 64 \<Longrightarrow>
   meshcore_packet_write_path off dest src pl
     = (path_bytes pl, mem_write off (mem_read 0 (path_bytes pl) src) dest)"
  by (simp add: meshcore_packet_write_path_def Let_def path_bytes_def hash_count_def unat_hash_size)

section \<open>Serialisation\<close>

text \<open>The wire image of a packet, and what the serialiser requires of it.\<close>

definition wire :: "packet \<Rightarrow> bytes" where
  "wire p =
     [pk_header p] @
     (if meshcore_packet_has_transport_codes p
      then le_bytes 2 (fst (pk_transport_codes p)) @ le_bytes 2 (snd (pk_transport_codes p))
      else []) @
     [meshcore_packet_path_len_field p] @
     mem_read 0 (path_bytes (meshcore_packet_path_len_field p)) (pk_path p) @
     mem_read 0 (unat (pk_payload_len p)) (pk_payload p)"

definition sendable :: "packet \<Rightarrow> bool" where
  "sendable p \<longleftrightarrow> packet_wf p \<and> meshcore_packet_is_valid_path_len (meshcore_packet_path_len_field p) \<and>
     unat (pk_payload_len p) \<le> 184"

lemma sendableD:
  assumes "sendable p"
  shows "length (pk_path p) = 64" "length (pk_payload p) = 184"
    "path_bytes (meshcore_packet_path_len_field p) \<le> 64" "unat (pk_payload_len p) \<le> 184"
    "meshcore_packet_is_valid_path_len (meshcore_packet_path_len_field p)"
  using assms by (simp_all add: sendable_def packet_wf_def valid_path_len_iff)

lemma length_wire:
  "sendable p \<Longrightarrow> length (wire p) = meshcore_packet_get_raw_length p"
  by (simp add: wire_def meshcore_packet_get_raw_length_def sendableD)

lemma length_wire_le: "sendable p \<Longrightarrow> length (wire p) \<le> 254"
  using sendableD(3,4) [of p] by (simp add: length_wire meshcore_packet_get_raw_length_def)

lemma unat_add_small:
  "unat (i::byte) = n \<Longrightarrow> unat k = m \<Longrightarrow> n + m < 256 \<Longrightarrow> unat (i + k) = n + m"
  by (simp add: unat_word_ariths(1))

lemma write_to_wire:
  assumes "sendable p" and "254 \<le> length dest"
  shows "meshcore_packet_write_to p dest = (of_nat (length (wire p)), mem_write 0 (wire p) dest)"
proof -
  note D = sendableD [OF assms(1)]
  let ?tc = "le_bytes 2 (fst (pk_transport_codes p)) @ le_bytes 2 (snd (pk_transport_codes p))"
  let ?f = "meshcore_packet_path_len_field p"
  let ?path = "mem_read 0 (path_bytes ?f) (pk_path p)"
  let ?pay = "mem_read 0 (unat (pk_payload_len p)) (pk_payload p)"
  have app: "length a = n \<Longrightarrow> mem_write n b (mem_write 0 a dest) = mem_write 0 (a @ b) dest"
    for a b n
    using mem_write_mem_write_append [of 0 dest a b] by simp
  have n: "unat (2::byte) = 2" "unat (3::byte) = 3" "unat (5::byte) = 5" "unat (6::byte) = 6"
    by simp_all
  show ?thesis
  proof (cases "meshcore_packet_has_transport_codes p")
    case True
    have w: "wire p = (((([pk_header p] @ le_bytes 2 (fst (pk_transport_codes p))) @
        le_bytes 2 (snd (pk_transport_codes p))) @ [?f]) @ ?path) @ ?pay"
      using True by (simp add: wire_def)
    have u: "unat (6 + of_nat (path_bytes ?f) :: byte) = 6 + path_bytes ?f"
      using D(3) by (simp add: unat_word_ariths unat_of_nat)
    show ?thesis
      using True D u n
      by (simp add: w meshcore_packet_write_to_def Let_def write_path_eq app)
  next
    case False
    have w: "wire p = (([pk_header p] @ [?f]) @ ?path) @ ?pay"
      using False by (simp add: wire_def)
    have u: "unat (2 + of_nat (path_bytes ?f) :: byte) = 2 + path_bytes ?f"
      using D(3) by (simp add: unat_word_ariths unat_of_nat)
    show ?thesis
      using False D u n
      by (simp add: w meshcore_packet_write_to_def Let_def write_path_eq app)
  qed
qed

section \<open>Parsing\<close>

text \<open>The packet that parsing the wire image of \<open>p\<close> into \<open>q\<close> yields.\<close>

definition received :: "packet \<Rightarrow> packet \<Rightarrow> packet" where
  "received p q =
     q \<lparr> pk_header := pk_header p,
         pk_transport_codes :=
           (if meshcore_packet_has_transport_codes p then pk_transport_codes p else (0, 0)),
         pk_path_len := ucast (meshcore_packet_path_len_field p),
         pk_path := mem_write 0 (mem_read 0 (path_bytes (meshcore_packet_path_len_field p)) (pk_path p))
                      (pk_path q),
         pk_payload_len := pk_payload_len p,
         pk_payload := mem_write 0 (mem_read 0 (unat (pk_payload_len p)) (pk_payload p))
                         (pk_payload q) \<rparr>"

lemma has_transport_codes_header:
  "pk_header p = pk_header q \<Longrightarrow>
   meshcore_packet_has_transport_codes p = meshcore_packet_has_transport_codes q"
  by (simp add: meshcore_packet_has_transport_codes_def meshcore_packet_get_route_type_def)

lemma has_transport_codes_upd [simp]:
  "meshcore_packet_has_transport_codes (p \<lparr> pk_transport_codes := x \<rparr>)
     = meshcore_packet_has_transport_codes p"
  "meshcore_packet_has_transport_codes (p \<lparr> pk_path_len := y \<rparr>)
     = meshcore_packet_has_transport_codes p"
  "meshcore_packet_has_transport_codes (p \<lparr> pk_path := z \<rparr>)
     = meshcore_packet_has_transport_codes p"
  "meshcore_packet_has_transport_codes (p \<lparr> pk_payload_len := y \<rparr>)
     = meshcore_packet_has_transport_codes p"
  "meshcore_packet_has_transport_codes (p \<lparr> pk_payload := z \<rparr>)
     = meshcore_packet_has_transport_codes p"
  by (simp_all add: meshcore_packet_has_transport_codes_def meshcore_packet_get_route_type_def)

lemma path_len_field_upd [simp]:
  "meshcore_packet_path_len_field (p \<lparr> pk_path_len := ucast (b :: byte) \<rparr>) = b"
  "meshcore_packet_path_len_field (p \<lparr> pk_path := z \<rparr>) = meshcore_packet_path_len_field p"
  "meshcore_packet_path_len_field (p \<lparr> pk_header := b \<rparr>) = meshcore_packet_path_len_field p"
  "meshcore_packet_path_len_field (p \<lparr> pk_payload_len := y \<rparr>) = meshcore_packet_path_len_field p"
  "meshcore_packet_path_len_field (p \<lparr> pk_payload := z \<rparr>) = meshcore_packet_path_len_field p"
  "meshcore_packet_path_len_field (p \<lparr> pk_transport_codes := x \<rparr>)
     = meshcore_packet_path_len_field p"
  by (simp_all add: meshcore_packet_path_len_field_def unsigned_ucast_eq
      take_bit_word_eq_self)

lemma mem_read_append_after:
  "length a = off \<Longrightarrow> mem_read off n (a @ b) = take n b"
  by (auto simp: mem_read_def)

text \<open>
  Parsing with the index as a natural number: the 8-bit index of the code never wraps.
\<close>

definition read_at :: "packet \<Rightarrow> bytes \<Rightarrow> nat \<Rightarrow> nat \<Rightarrow> bool \<times> packet" where
  "read_at p src len off =
     (if off \<ge> len then (False, p)
      else
        let f = byte_at src off; p = p \<lparr> pk_path_len := ucast f \<rparr>; off' = off + 1 + path_bytes f in
        if \<not> meshcore_packet_is_valid_path_len f \<or> off' > len then (False, p)
        else
          let p = p \<lparr> pk_path := mem_write 0 (mem_read (off + 1) (path_bytes f) src) (pk_path p) \<rparr> in
          if off' \<ge> len then (False, p)
          else
            let p = p \<lparr> pk_payload_len := of_nat (len - off') \<rparr> in
            if len - off' > 184 then (False, p)
            else (True, p \<lparr> pk_payload := mem_write 0 (mem_read off' (len - off') src) (pk_payload p) \<rparr>))"

lemma unat_sub_le: "(i::byte) \<le> len \<Longrightarrow> unat (len - i) = unat len - unat i"
  by (simp add: unat_sub word_le_nat_alt)

lemma ucast_byte_u16: "(ucast (b :: byte) :: u16) = of_nat (unat b)"
  by simp

lemma read_tail:
  assumes i: "unat i = off" "off \<le> 5"
  shows "read_path_and_payload p src len i
       = read_at p src (unat len) off"
proof (cases "unat len \<le> off")
  case True
  then show ?thesis using i by (simp add: read_path_and_payload_def read_at_def word_le_nat_alt)
next
  case False
  have lt: "unat len < 256" using unsigned_less [of len, where ?'a = nat] by simp
  let ?f = "byte_at src off"
  let ?p = "p \<lparr> pk_path_len := ucast ?f \<rparr>"
  let ?k = "meshcore_packet_get_path_byte_len ?p"
  have i1: "unat (i + 1) = off + 1" using i by (simp add: unat_word_ariths(1))
  have k: "unat ?k = path_bytes ?f" by simp
  show ?thesis
  proof (cases "off + 1 + path_bytes ?f \<le> unat len")
    case True
    then have ik: "unat (i + 1 + ?k) = off + 1 + path_bytes ?f"
      using lt i1 k by (simp add: unat_word_ariths(1))
    have le: "i + 1 + ?k \<le> len" using True ik by (simp add: word_le_nat_alt)
    have sub: "unat (len - (i + 1 + ?k)) = unat len - (off + 1 + path_bytes ?f)"
      using unat_sub_le [OF le] ik by simp
    have pl: "(ucast (len - (i + 1 + ?k)) :: u16) = of_nat (unat len - (off + 1 + path_bytes ?f))"
      using sub by (metis ucast_byte_u16)
    have upl: "unat (of_nat m :: u16) = m" if "m \<le> unat len" for m
      using lt that by (simp add: unsigned_of_nat take_bit_nat_eq_self)
    have ge: "len \<le> i + 1 + ?k \<longleftrightarrow> unat len \<le> off + 1 + path_bytes ?f"
      using ik by (simp add: word_le_nat_alt)
    show ?thesis
      using \<open>\<not> unat len \<le> off\<close> i True
      by (simp only: read_path_and_payload_def read_at_def Let_def i1 k ik pl upl ge word_le_nat_alt [of len i]
          path_len_field_upd packet.simps packet.update_convs packet.select_convs if_False not_le simp_thms)
         (simp add: not_less upl del: of_nat_diff)
  next
    case nF: False
    show ?thesis
      using False i nF
      by (simp add: read_path_and_payload_def read_at_def Let_def i1 k word_le_nat_alt [of len i] del: unat_path_byte_len) 
  qed
qed

lemma read_from_eq:
  "meshcore_packet_read_from p src len =
     (if len = 0 then (False, p)
      else let q = p \<lparr> pk_header := byte_at src 0 \<rparr> in
        if meshcore_packet_has_transport_codes q then
          if unat len < 5 then (False, q)
          else read_at (q \<lparr> pk_transport_codes :=
                 (le_word (mem_read 1 2 src), le_word (mem_read 3 2 src)) \<rparr>) src (unat len) 5
        else read_at (q \<lparr> pk_transport_codes := (0, 0) \<rparr>) src (unat len) 1)"
proof -
  have n: "unat (3::byte) = 3" "unat (5::byte) = 5" by simp_all
  then show ?thesis
    by (simp add: meshcore_packet_read_from_def read_tail Let_def not_less)
qed

lemma read_at_wire:
  assumes "length a = off" and "length path = path_bytes f" and "length pay = n"
    and "meshcore_packet_is_valid_path_len f" and "0 < n" and "n \<le> 184"
  shows "read_at q (a @ [f] @ path @ pay @ rest) (off + 1 + path_bytes f + n) off =
    (True, q \<lparr> pk_path_len := ucast f, pk_path := mem_write 0 path (pk_path q),
               pk_payload_len := of_nat n, pk_payload := mem_write 0 pay (pk_payload q) \<rparr>)"
proof -
  have "byte_at (a @ [f] @ path @ pay @ rest) off = f"
    using assms(1) by (simp add: byte_at_def nth_append)
  moreover have "mem_read (off + 1) (path_bytes f) ((a @ [f]) @ path @ pay @ rest) = path"
    using assms(1,2) by (subst mem_read_append_after) auto
  moreover have "mem_read (off + 1 + path_bytes f) n ((a @ [f] @ path) @ pay @ rest) = pay"
    using assms(1-3) by (subst mem_read_append_after) auto
  ultimately show ?thesis
    using assms(4-6) by (simp add: read_at_def Let_def)
qed

lemma read_from_wire:
  assumes "sendable p" and "0 < unat (pk_payload_len p)" and len: "unat len = length (wire p)"
  shows "meshcore_packet_read_from q (wire p @ rest) len = (True, received p q)"
proof -
  note D = sendableD [OF assms(1)]
  let ?f = "meshcore_packet_path_len_field p"
  let ?n = "unat (pk_payload_len p)"
  let ?path = "mem_read 0 (path_bytes ?f) (pk_path p)"
  let ?pay = "mem_read 0 ?n (pk_payload p)"
  let ?t0 = "le_bytes 2 (fst (pk_transport_codes p))"
  let ?t1 = "le_bytes 2 (snd (pk_transport_codes p))"
  have nz: "len \<noteq> 0" using len by (auto simp: wire_def unat_eq_0 [symmetric])
  have tc: "meshcore_packet_has_transport_codes (q \<lparr> pk_header := pk_header p \<rparr>)
      = meshcore_packet_has_transport_codes p"
    by (rule has_transport_codes_header) simp
  have h: "byte_at (wire p @ rest) 0 = pk_header p" by (simp add: wire_def byte_at_def)
  show ?thesis
  proof (cases "meshcore_packet_has_transport_codes p")
    case True
    have w: "wire p @ rest = ([pk_header p] @ ?t0 @ ?t1) @ [?f] @ ?path @ ?pay @ rest"
      and lw: "length (wire p) = 5 + 1 + path_bytes ?f + ?n"
      using True D by (simp_all add: wire_def)
    have t: "mem_read 1 2 (wire p @ rest) = ?t0" "mem_read 3 2 (wire p @ rest) = ?t1"
      using True by (simp_all add: wire_def mem_read_def numeral_2_eq_2 numeral_3_eq_3)
    show ?thesis
      using True D assms(2) read_at_wire [of "[pk_header p] @ ?t0 @ ?t1" 5 ?path ?f ?pay ?n]
      unfolding read_from_eq h tc Let_def t
      unfolding w len lw
      using nz by (simp add: received_def lw tc)
  next
    case False
    have w: "wire p @ rest = [pk_header p] @ [?f] @ ?path @ ?pay @ rest"
      and lw: "length (wire p) = 1 + 1 + path_bytes ?f + ?n"
      using False D by (simp_all add: wire_def)
    show ?thesis
      using False D assms(2) read_at_wire [of "[pk_header p]" 1 ?path ?f ?pay ?n]
      unfolding read_from_eq h tc Let_def
      unfolding w len lw
      using nz by (simp add: received_def lw tc)
  qed
qed

text \<open>Parsing never writes outside the arrays of the packet.\<close>

lemma read_at_wf:
  assumes "packet_wf p" and "len \<le> length src"
  shows "packet_wf (snd (read_at p src len off))"
proof -
  have "path_bytes f \<le> 64" if "meshcore_packet_is_valid_path_len f" for f
    using that by (simp add: valid_path_len_iff)
  then show ?thesis using assms by (auto simp: read_at_def Let_def packet_wf_def)
qed

lemma read_from_wf:
  assumes "packet_wf p" and "unat len \<le> length src"
  shows "packet_wf (snd (meshcore_packet_read_from p src len))"
proof -
  have "packet_wf (p \<lparr> pk_header := h \<rparr>)" "packet_wf (p \<lparr> pk_header := h, pk_transport_codes := t \<rparr>)"
    for h t using assms(1) by (simp_all add: packet_wf_def)
  then show ?thesis using assms by (simp add: read_from_eq Let_def read_at_wf)
qed

lemma read_at_success:
  assumes "read_at p src len off = (True, q)" and "packet_wf p" and "len \<le> length src" and "len < 256"
  shows "sendable q \<and> 0 < unat (pk_payload_len q) \<and> pk_header q = pk_header p \<and>
    pk_transport_codes q = pk_transport_codes p \<and> pk_snr_q4 q = pk_snr_q4 p \<and>
    meshcore_packet_path_len_field q #
      mem_read 0 (path_bytes (meshcore_packet_path_len_field q)) (pk_path q) @
      mem_read 0 (unat (pk_payload_len q)) (pk_payload q) = mem_read off (len - off) src"
proof -
  let ?f = "byte_at src off"
  let ?o = "off + 1 + path_bytes ?f"
  have c: "off < len" "meshcore_packet_is_valid_path_len ?f" "?o < len" "len - ?o \<le> 184"
    and q: "q = p \<lparr> pk_path_len := ucast ?f,
        pk_path := mem_write 0 (mem_read (off + 1) (path_bytes ?f) src) (pk_path p),
        pk_payload_len := of_nat (len - ?o),
        pk_payload := mem_write 0 (mem_read ?o (len - ?o) src) (pk_payload p) \<rparr>"
    using assms(1) by (auto simp: read_at_def Let_def not_le split: if_splits)
  have pb: "path_bytes ?f \<le> 64" using c(2) by (simp add: valid_path_len_iff)
  have ul: "unat (of_nat (len - ?o) :: u16) = len - ?o"
    using assms(4) by (simp add: unsigned_of_nat take_bit_nat_eq_self)
  have wf: "packet_wf q" using read_at_wf [OF assms(2,3), of off] assms(1) by simp
  have "mem_read off (1 + (path_bytes ?f + (len - ?o))) src
      = mem_read off 1 src @ mem_read (off + 1) (path_bytes ?f) src @ mem_read ?o (len - ?o) src"
    by (simp only: mem_read_split)
  moreover have "1 + (path_bytes ?f + (len - ?o)) = len - off" using c(3) by simp
  moreover have "mem_read off 1 src = [?f]"
    using c(1) assms(3) by (simp add: mem_read_def byte_at_def take_Suc_conv_app_nth)
  ultimately show ?thesis
    using c pb ul wf assms(2,3)
    by (simp add: q sendable_def packet_wf_def mem_read_0_take)
       (simp add: mem_write_def mem_read_def packet_wf_def)
qed

lemma read_from_success:
  assumes "meshcore_packet_read_from p src len = (True, q)" and "packet_wf p"
    and "unat len \<le> length src"
  shows "sendable q" "0 < unat (pk_payload_len q)" "wire q = take (unat len) src"
    "pk_snr_q4 q = pk_snr_q4 p"
proof -
  let ?p = "p \<lparr> pk_header := byte_at src 0 \<rparr>"
  have lt: "unat len < 256" using unsigned_less [of len, where ?'a = nat] by simp
  have l0: "len \<noteq> 0" using assms(1) by (auto simp: read_from_eq)
  then have pos: "0 < unat len" by (simp add: unat_gt_0)
  have wf: "packet_wf (?p \<lparr> pk_transport_codes := t \<rparr>)" for t
    using assms(2) by (simp add: packet_wf_def)
  have hd: "mem_read 0 1 src = [byte_at src 0]"
    using pos assms(3) by (cases src) (simp_all add: mem_read_def)
  have "sendable q \<and> 0 < unat (pk_payload_len q) \<and> wire q = take (unat len) src \<and>
      pk_snr_q4 q = pk_snr_q4 p"
  proof (cases "meshcore_packet_has_transport_codes ?p")
    case True
    let ?t = "(le_word (mem_read 1 2 src), le_word (mem_read 3 2 src)) :: u16 \<times> u16"
    have ge: "5 \<le> unat len"
      and rd: "read_at (?p \<lparr> pk_transport_codes := ?t \<rparr>) src (unat len) 5 = (True, q)"
      using assms(1) l0 True by (auto simp: read_from_eq Let_def split: if_splits)
    note R = read_at_success [OF rd wf assms(3) lt]
    have tq: "meshcore_packet_has_transport_codes q"
      using R True has_transport_codes_header [of q ?p] by simp
    have le: "le_bytes 2 (fst ?t) = mem_read 1 2 src" "le_bytes 2 (snd ?t) = mem_read 3 2 src"
      using ge assms(3) by (simp_all add: le_bytes_le_word_of)
    have "1 + (2 + (2 + (unat len - 5))) = unat len" using ge by simp
    then have "take (unat len) src = mem_read 0 (1 + (2 + (2 + (unat len - 5)))) src"
      by (simp only: mem_read_0_take)
    also have "\<dots> = mem_read 0 1 src @ mem_read 1 2 src @ mem_read 3 2 src @ mem_read 5 (unat len - 5) src"
      by (simp only: mem_read_split) (simp add: numeral_eq_Suc)
    finally show ?thesis
      using R tq le hd by (simp add: wire_def)
  next
    case False
    have rd: "read_at (?p \<lparr> pk_transport_codes := (0, 0) \<rparr>) src (unat len) 1 = (True, q)"
      using assms(1) l0 False by (auto simp: read_from_eq Let_def split: if_splits)
    note R = read_at_success [OF rd wf assms(3) lt]
    have tq: "\<not> meshcore_packet_has_transport_codes q"
      using R False has_transport_codes_header [of q ?p] by simp
    have "take (unat len) src = mem_read 0 (1 + (unat len - 1)) src"
      using pos by (simp add: mem_read_0_take)
    also have "\<dots> = mem_read 0 1 src @ mem_read 1 (unat len - 1) src"
      by (simp only: mem_read_split) simp
    finally show ?thesis
      using R tq hd by (simp add: wire_def)
  qed
  then show "sendable q" "0 < unat (pk_payload_len q)" "wire q = take (unat len) src"
    "pk_snr_q4 q = pk_snr_q4 p" by auto
qed

section \<open>Updating the path length\<close>

lemma mask_63: "(63 :: 'a::len word) = mask 6"
  by (simp add: mask_eq_exp_minus_1)

lemma path_len_set_count:
  "meshcore_packet_path_len_field (meshcore_packet_set_path_hash_count p n)
     = (meshcore_packet_path_len_field p AND NOT 63) OR (n AND 63)"
  unfolding meshcore_packet_set_path_hash_count_def meshcore_packet_path_len_field_def mask_63
  by (rule bit_word_eqI)
     (auto simp: bit_or_iff bit_and_iff bit_not_iff bit_unsigned_iff bit_mask_iff)

lemma hash_count_set_count:
  "hash_count (meshcore_packet_path_len_field (meshcore_packet_set_path_hash_count p n))
     = unat n mod 64"
proof -
  have "(meshcore_packet_path_len_field p AND NOT 63 OR n AND 63) AND 63 = n AND 63"
    unfolding mask_63 by (rule bit_word_eqI) (auto simp: bit_or_iff bit_and_iff bit_not_iff)
  then show ?thesis
    by (simp add: hash_count_def path_len_set_count and_63 take_bit_eq_mod unat_mod)
qed

lemma hash_size_set_count:
  "hash_size (meshcore_packet_path_len_field (meshcore_packet_set_path_hash_count p n))
     = hash_size (meshcore_packet_path_len_field p)"
proof -
  have "drop_bit 6 (meshcore_packet_path_len_field p AND NOT 63 OR n AND 63)
      = drop_bit 6 (meshcore_packet_path_len_field p)"
    unfolding mask_63
    by (rule bit_word_eqI)
       (auto simp: bit_drop_bit_eq bit_or_iff bit_and_iff bit_not_iff bit_mask_iff
         dest: bit_imp_le_length)
  then show ?thesis by (simp add: hash_size_def path_len_set_count)
qed

lemma drop_6_or: "drop_bit 6 (c OR (x AND 63)) = drop_bit 6 (c :: byte)"
  unfolding mask_63
  by (rule bit_word_eqI) (auto simp: bit_drop_bit_eq bit_or_iff bit_and_iff bit_mask_iff)

lemma path_len_set_size_count:
  assumes "hs \<in> {1, 2, 3, 4}"
  shows "meshcore_packet_path_len_field (meshcore_packet_set_path_hash_size_and_count p hs hc)
     = push_bit 6 (hs - 1) OR (hc AND 63)"
  using assms
  by (auto simp: meshcore_packet_set_path_hash_size_and_count_def
      meshcore_packet_path_len_field_def unsigned_or_eq unsigned_ucast_eq take_bit_word_eq_self)

lemma hash_size_count_set:
  fixes p :: packet
  assumes "hs \<in> {1, 2, 3, 4}"
    and f_def: "f = meshcore_packet_path_len_field
                  (meshcore_packet_set_path_hash_size_and_count p hs hc)"
  shows "hash_size f = unat hs" and "hash_count f = unat hc mod 64"
proof -
  have f: "f = push_bit 6 (hs - 1) OR (hc AND 63)"
    using path_len_set_size_count [OF assms(1)] by (simp add: f_def)
  show "hash_size f = unat hs"
    using assms(1) by (auto simp: hash_size_def f drop_6_or)
  have "f AND 63 = hc AND 63"
    using assms(1) unfolding f and_63 by (auto simp: take_bit_or)
  then show "hash_count f = unat hc mod 64"
    by (simp add: hash_count_def and_63 take_bit_eq_mod unat_mod)
qed

section \<open>Properties\<close>

text \<open>
  C1. Serialising a packet that satisfies the guards of the serialiser succeeds, returns the
  length the packet announces (which is between 2 and 254, so neither the 8-bit index nor a
  255-byte buffer overflows), writes exactly the wire image and leaves the rest of the buffer
  as it was; reading the buffer back yields the same header, transport codes, path, payload.
\<close>

theorem packet_write_read_round_trip:
  assumes "sendable p" and "0 < unat (pk_payload_len p)" and "length dest = 255"
  shows "\<exists>n d. meshcore_packet_write_to p dest = (n, d) \<and>
      unat n = meshcore_packet_get_raw_length p \<and> 2 \<le> unat n \<and> unat n \<le> 254 \<and>
      length d = 255 \<and> drop (unat n) d = drop (unat n) dest \<and>
      meshcore_packet_read_from q d n = (True, received p q)"
proof -
  have w: "meshcore_packet_write_to p dest = (of_nat (length (wire p)), mem_write 0 (wire p) dest)"
    using write_to_wire assms by simp
  have le: "length (wire p) \<le> 254" using length_wire_le assms(1) .
  then have n: "unat (of_nat (length (wire p)) :: byte) = length (wire p)"
    by (simp add: unsigned_of_nat take_bit_nat_eq_self)
  have d: "mem_write 0 (wire p) dest = wire p @ drop (length (wire p)) dest"
    by (simp add: mem_write_def)
  show ?thesis
    using w n le d assms read_from_wire [OF assms(1,2) n] length_wire [OF assms(1)]
    by (auto simp: meshcore_packet_get_raw_length_def)
qed

definition example_packet :: packet where
  "example_packet = meshcore_packet_init \<lparr> pk_header := 0x0C, pk_transport_codes := (0x1234, 7),
     pk_path_len := 0x42, pk_path := mem_write 0 [1, 2, 3, 4] (zeros 64),
     pk_payload_len := 3, pk_payload := mem_write 0 [9, 8, 7] (zeros 184) \<rparr>"

lemma example_packet_sendable: "sendable example_packet" "unat (pk_payload_len example_packet) = 3"
  "packet_wf meshcore_packet_init"
  by code_simp+

theorem packet_write_read_round_trip_witness:
  "\<exists>n d. meshcore_packet_write_to example_packet (zeros 255) = (n, d) \<and> unat n = 13 \<and>
     meshcore_packet_read_from meshcore_packet_init d n
       = (True, received example_packet meshcore_packet_init)"
proof -
  have "meshcore_packet_get_raw_length example_packet = 13" by code_simp
  then show ?thesis
    using packet_write_read_round_trip
      [of example_packet "zeros 255" meshcore_packet_init] example_packet_sendable by auto
qed

text \<open>
  C11. Parsing is safe and canonical for every input: the arrays of the packet keep their
  bounds whether the bytes are accepted or not, and an accepted packet has a valid path
  length and a non-empty payload of at most 184 bytes, and \<open>meshcore_packet_write_to\<close>,
  given a buffer of at least 254 bytes, reports the number of bytes that were read and
  writes those bytes, the rest of the buffer keeping its contents.
\<close>

theorem packet_read_from_safe_canonical:
  assumes "packet_wf p" and "unat len \<le> length src"
    and "meshcore_packet_read_from p src len = (ok, q)"
  shows "packet_wf q \<and>
    (ok \<longrightarrow> sendable q \<and> 0 < unat (pk_payload_len q) \<and> wire q = take (unat len) src \<and>
           meshcore_packet_get_raw_length q = unat len \<and>
           (254 \<le> length dest \<longrightarrow>
              meshcore_packet_write_to q dest = (len, mem_write 0 (take (unat len) src) dest)))"
proof -
  have "packet_wf q" using read_from_wf [OF assms(1,2)] assms(3) by simp
  moreover have "sendable q \<and> 0 < unat (pk_payload_len q) \<and> wire q = take (unat len) src \<and>
      meshcore_packet_get_raw_length q = unat len \<and>
      (254 \<le> length dest \<longrightarrow>
         meshcore_packet_write_to q dest = (len, mem_write 0 (take (unat len) src) dest))" if ok
  proof -
    from that assms(3) have r: "meshcore_packet_read_from p src len = (True, q)" by simp
    note R = read_from_success [OF r assms(1,2)]
    then have "length (wire q) = unat len" using assms(2) by simp
    then have "meshcore_packet_write_to q dest = (len, mem_write 0 (take (unat len) src) dest)"
      if "254 \<le> length dest" using write_to_wire [OF R(1) that] R(3) by simp
    then show ?thesis using R assms(2) length_wire [OF R(1)] by simp
  qed
  ultimately show ?thesis by blast
qed

theorem packet_read_from_safe_canonical_witness:
  "\<exists>q. meshcore_packet_read_from meshcore_packet_init [0x05, 0x01, 0xAA, 0x10] 4 = (True, q) \<and>
       packet_wf q \<and> meshcore_packet_write_to q (zeros 255)
         = (4, mem_write 0 [0x05, 0x01, 0xAA, 0x10] (zeros 255))"
proof -
  obtain ok q where r: "meshcore_packet_read_from meshcore_packet_init [0x05, 0x01, 0xAA, 0x10] 4
      = (ok, q)" by force
  moreover have "fst (meshcore_packet_read_from meshcore_packet_init [0x05, 0x01, 0xAA, 0x10] 4)"
    by code_simp
  ultimately show ?thesis
    using packet_read_from_safe_canonical [OF _ _ r, of "zeros 255"] example_packet_sendable(3)
    by auto
qed

text \<open>
  The path-length encoding: setting a hop size of one to four bytes and a hop count below
  64 makes both readable again, and changing only the count keeps the size.
\<close>

theorem path_len_set_get:
  assumes "hs \<in> {1, 2, 3, 4}" and "unat hc < 64" and "unat hc' < 64"
    and "q = meshcore_packet_set_path_hash_size_and_count p hs hc"
  shows "meshcore_packet_get_path_hash_size q = hs \<and> meshcore_packet_get_path_hash_count q = hc \<and>
    meshcore_packet_get_path_hash_size (meshcore_packet_set_path_hash_count q hc') = hs \<and>
    meshcore_packet_get_path_hash_count (meshcore_packet_set_path_hash_count q hc') = hc'"
  using assms hash_size_count_set [OF assms(1) refl, of p hc]
    hash_size_set_count [of q hc'] hash_count_set_count [of q hc']
  by (simp add: word_unat_eq_iff meshcore_packet_get_path_hash_size_def unat_hash_size
      meshcore_packet_get_path_hash_count_def flip: hash_count_def)

theorem path_len_set_get_witness:
  "meshcore_packet_get_path_hash_count (meshcore_packet_set_path_hash_count
     (meshcore_packet_set_path_hash_size_and_count meshcore_packet_init 3 5) 6) = 6"
  using path_len_set_get [of 3 5 6 _ meshcore_packet_init] by simp

end
