(* ===== verification/Packet_Manager.thy ===== *)
theory Packet_Manager
  imports Packet
begin

text \<open>
  \<open>src/support/meshcore_packet_manager.c\<close>: the fixed packet arena and the three array
  queues (unused, outbound, inbound) of pointers into it.  A pointer is the index of the
  packet in \<open>packet_buf\<close>; \<open>None\<close> is NULL.

  A queue is the record of its C arrays; the locale \<open>timed_queue\<close> states what its
  operations promise in terms of the list of its entries, and the array implementation
  is shown to satisfy it (\<open>array_queue\<close>).  The manager is verified against that interface:
  every packet of the arena is in exactly one queue or in the hands of one caller
  (\<open>pool_inv\<close>), from which it follows that returning a packet never fails.
\<close>

section \<open>Array queues\<close>

text \<open>\<open>MESHCORE_PACKET_QUEUE_MANAGER_MAX_POOL_SIZE\<close>, with its default value.\<close>

definition MAX_POOL_SIZE :: nat where
  "MAX_POOL_SIZE = 10"

record packet_queue =
  q_table :: "packet_ref option list"
  q_pri_table :: "byte list"
  q_schedule_table :: "u32 list"
  q_size :: nat
  q_num :: nat

definition queue_zero :: packet_queue where
  "queue_zero = \<lparr> q_table = replicate MAX_POOL_SIZE None, q_pri_table = replicate MAX_POOL_SIZE 0,
     q_schedule_table = replicate MAX_POOL_SIZE 0, q_size = 0, q_num = 0 \<rparr>"

function compact_loop :: "packet_queue \<Rightarrow> nat \<Rightarrow> packet_queue" where
  "compact_loop q idx =
     (if idx < q_num q then
        compact_loop (q \<lparr> q_table := (q_table q)[idx := q_table q ! (idx + 1)],
                          q_pri_table := (q_pri_table q)[idx := q_pri_table q ! (idx + 1)],
                          q_schedule_table :=
                            (q_schedule_table q)[idx := q_schedule_table q ! (idx + 1)] \<rparr>)
          (idx + 1)
      else q)"
  by pat_completeness auto
termination
  by (relation "measure (\<lambda>(q, idx). q_num q - idx)") auto

declare compact_loop.simps [simp del]

definition meshcore_packet_queue_compact_from :: "packet_queue \<Rightarrow> nat \<Rightarrow> packet_queue" where
  "meshcore_packet_queue_compact_from q idx = compact_loop (q \<lparr> q_num := q_num q - 1 \<rparr>) idx"

text \<open>
  The queue is cleared before the capacity is checked, so that a too large request leaves an
  empty queue of size 0.
\<close>

definition meshcore_packet_queue_init :: "packet_queue \<Rightarrow> int \<Rightarrow> bool \<times> packet_queue" where
  "meshcore_packet_queue_init q max_entries =
     (if max_entries < 0 then (False, q)
      else if max_entries > int MAX_POOL_SIZE then (False, queue_zero)
      else if max_entries = 0 then (True, queue_zero)
      else (True, queue_zero \<lparr> q_size := nat max_entries \<rparr>))"

definition meshcore_packet_queue_deinit :: "packet_queue \<Rightarrow> packet_queue" where
  "meshcore_packet_queue_deinit q = queue_zero"

text \<open>The scan of \<open>meshcore_packet_queue_get\<close>: \<open>(min_pri, best_idx)\<close> after index \<open>j\<close>.\<close>

definition get_scan_step :: "packet_queue \<Rightarrow> u32 \<Rightarrow> byte \<times> nat option \<Rightarrow> nat \<Rightarrow> byte \<times> nat option" where
  "get_scan_step q now = (\<lambda>(min_pri, best_idx) j.
     if after (q_schedule_table q ! j) now then (min_pri, best_idx)
     else if q_pri_table q ! j < min_pri then (q_pri_table q ! j, Some j)
     else (min_pri, best_idx))"

definition meshcore_packet_queue_get :: "packet_queue \<Rightarrow> u32 \<Rightarrow> packet_ref option \<times> packet_queue" where
  "meshcore_packet_queue_get q now =
     (case snd (foldl (get_scan_step q now) (0xFF, None) [0..<q_num q]) of
        None \<Rightarrow> (None, q)
      | Some best_idx \<Rightarrow>
          (q_table q ! best_idx, meshcore_packet_queue_compact_from q best_idx))"

definition meshcore_packet_queue_add ::
  "packet_queue \<Rightarrow> packet_ref \<Rightarrow> byte \<Rightarrow> u32 \<Rightarrow> bool \<times> packet_queue" where
  "meshcore_packet_queue_add q packet priority scheduled_for =
     (if q_num q \<ge> q_size q then (False, q)
      else (True, q \<lparr> q_table := (q_table q)[q_num q := Some packet],
                      q_pri_table := (q_pri_table q)[q_num q := priority],
                      q_schedule_table := (q_schedule_table q)[q_num q := scheduled_for],
                      q_num := q_num q + 1 \<rparr>))"

definition meshcore_packet_queue_count :: "packet_queue \<Rightarrow> nat" where
  "meshcore_packet_queue_count q = q_num q"

definition meshcore_packet_queue_count_before :: "packet_queue \<Rightarrow> u32 \<Rightarrow> nat" where
  "meshcore_packet_queue_count_before q now =
     (if now = 0xFFFFFFFF then q_num q
      else foldl (\<lambda>n j. if after (q_schedule_table q ! j) now then n else n + 1) 0 [0..<q_num q])"

fun next_scheduled_loop :: "packet_queue \<Rightarrow> u32 \<Rightarrow> nat list \<Rightarrow> u32 option \<Rightarrow> u32 option" where
  "next_scheduled_loop q now [] best = best"
| "next_scheduled_loop q now (j # js) best =
     (let candidate = q_schedule_table q ! j in
      if \<not> after candidate now then Some now
      else if best = None \<or> sint (candidate - the best) < 0
      then next_scheduled_loop q now js (Some candidate)
      else next_scheduled_loop q now js best)"

definition meshcore_packet_queue_next_scheduled_get :: "packet_queue \<Rightarrow> u32 \<Rightarrow> u32 option" where
  "meshcore_packet_queue_next_scheduled_get q now = next_scheduled_loop q now [0..<q_num q] None"

definition meshcore_packet_queue_item_at :: "packet_queue \<Rightarrow> int \<Rightarrow> packet_ref option" where
  "meshcore_packet_queue_item_at q i =
     (if i < 0 \<or> i \<ge> int (q_num q) then None else q_table q ! nat i)"

definition meshcore_packet_queue_remove_by_idx ::
  "packet_queue \<Rightarrow> int \<Rightarrow> packet_ref option \<times> packet_queue" where
  "meshcore_packet_queue_remove_by_idx q i =
     (if i < 0 \<or> i \<ge> int (q_num q) then (None, q)
      else (q_table q ! nat i, meshcore_packet_queue_compact_from q (nat i)))"

section \<open>The manager\<close>

record queue_manager =
  qm_packet_buf :: "packet list"
  qm_pool_size :: int
  qm_initialized :: bool
  qm_unused :: packet_queue
  qm_send_queue :: packet_queue
  qm_rx_queue :: packet_queue

definition manager_zero :: queue_manager where
  "manager_zero = \<lparr> qm_packet_buf = replicate MAX_POOL_SIZE meshcore_packet_init,
     qm_pool_size = 0, qm_initialized = False,
     qm_unused = queue_zero, qm_send_queue = queue_zero, qm_rx_queue = queue_zero \<rparr>"

definition meshcore_packet_queue_manager_deinit :: "queue_manager \<Rightarrow> queue_manager" where
  "meshcore_packet_queue_manager_deinit m =
     (let m = m \<lparr> qm_unused := meshcore_packet_queue_deinit (qm_unused m) \<rparr>;
          m = m \<lparr> qm_send_queue := meshcore_packet_queue_deinit (qm_send_queue m) \<rparr>;
          m = m \<lparr> qm_rx_queue := meshcore_packet_queue_deinit (qm_rx_queue m) \<rparr>
      in manager_zero)"

text \<open>The loop that fills the unused queue; \<open>None\<close> when an insertion fails.\<close>

fun prepare_loop :: "queue_manager \<Rightarrow> nat list \<Rightarrow> queue_manager option" where
  "prepare_loop m [] = Some m"
| "prepare_loop m (i # is) =
     (let m = m \<lparr> qm_packet_buf := (qm_packet_buf m)[i := meshcore_packet_init] \<rparr> in
      case meshcore_packet_queue_add (qm_unused m) i 0 0 of
        (False, _) \<Rightarrow> None
      | (True, u) \<Rightarrow> prepare_loop (m \<lparr> qm_unused := u \<rparr>) is)"

definition meshcore_packet_queue_manager_prepare :: "queue_manager \<Rightarrow> int \<Rightarrow> queue_manager" where
  "meshcore_packet_queue_manager_prepare m pool_size =
     (let m = meshcore_packet_queue_manager_deinit m;
          m = manager_zero in
      if pool_size \<le> 0 then m \<lparr> qm_pool_size := 0 \<rparr>
      else if pool_size > int MAX_POOL_SIZE then m
      else
        let m = m \<lparr> qm_pool_size := pool_size \<rparr>;
            (ok1, u) = meshcore_packet_queue_init (qm_unused m) pool_size;
            (ok2, sq) = meshcore_packet_queue_init (qm_send_queue m) pool_size;
            (ok3, rq) = meshcore_packet_queue_init (qm_rx_queue m) pool_size in
        if \<not> ok1 \<or> \<not> ok2 \<or> \<not> ok3 then meshcore_packet_queue_manager_deinit m
        else
          case prepare_loop (m \<lparr> qm_unused := u, qm_send_queue := sq, qm_rx_queue := rq \<rparr>)
                 [0..<nat pool_size] of
            None \<Rightarrow> meshcore_packet_queue_manager_deinit m
          | Some m \<Rightarrow> m \<lparr> qm_initialized := True \<rparr>)"

definition meshcore_packet_queue_manager_alloc_new ::
  "queue_manager \<Rightarrow> packet_ref option \<times> queue_manager" where
  "meshcore_packet_queue_manager_alloc_new m =
     (if \<not> qm_initialized m then (None, m)
      else let (r, u) = meshcore_packet_queue_remove_by_idx (qm_unused m) 0
           in (r, m \<lparr> qm_unused := u \<rparr>))"

definition meshcore_packet_queue_manager_free :: "queue_manager \<Rightarrow> packet_ref \<Rightarrow> queue_manager" where
  "meshcore_packet_queue_manager_free m packet =
     (if \<not> qm_initialized m then m
      else m \<lparr> qm_unused := snd (meshcore_packet_queue_add (qm_unused m) packet 0 0) \<rparr>)"

definition meshcore_packet_queue_manager_queue_outbound ::
  "queue_manager \<Rightarrow> packet_ref \<Rightarrow> byte \<Rightarrow> u32 \<Rightarrow> queue_manager" where
  "meshcore_packet_queue_manager_queue_outbound m packet priority scheduled_for =
     (if \<not> qm_initialized m then m
      else case meshcore_packet_queue_add (qm_send_queue m) packet priority scheduled_for of
             (False, _) \<Rightarrow> meshcore_packet_queue_manager_free m packet
           | (True, q) \<Rightarrow> m \<lparr> qm_send_queue := q \<rparr>)"

definition meshcore_packet_queue_manager_get_next_outbound ::
  "queue_manager \<Rightarrow> u32 \<Rightarrow> packet_ref option \<times> queue_manager" where
  "meshcore_packet_queue_manager_get_next_outbound m now =
     (if \<not> qm_initialized m then (None, m)
      else let (r, q) = meshcore_packet_queue_get (qm_send_queue m) now
           in (r, m \<lparr> qm_send_queue := q \<rparr>))"

definition meshcore_packet_queue_manager_get_outbound_count :: "queue_manager \<Rightarrow> u32 \<Rightarrow> nat" where
  "meshcore_packet_queue_manager_get_outbound_count m now =
     (if \<not> qm_initialized m then 0 else meshcore_packet_queue_count_before (qm_send_queue m) now)"

definition meshcore_packet_queue_manager_get_outbound_total :: "queue_manager \<Rightarrow> nat" where
  "meshcore_packet_queue_manager_get_outbound_total m =
     (if \<not> qm_initialized m then 0 else meshcore_packet_queue_count (qm_send_queue m))"

definition meshcore_packet_queue_manager_next_outbound_scheduled_get ::
  "queue_manager \<Rightarrow> u32 \<Rightarrow> u32 option" where
  "meshcore_packet_queue_manager_next_outbound_scheduled_get m now =
     (if \<not> qm_initialized m then None
      else meshcore_packet_queue_next_scheduled_get (qm_send_queue m) now)"

definition meshcore_packet_queue_manager_get_free_count :: "queue_manager \<Rightarrow> int" where
  "meshcore_packet_queue_manager_get_free_count m =
     (if \<not> qm_initialized m then qm_pool_size m
      else int (meshcore_packet_queue_count (qm_unused m)))"

definition meshcore_packet_queue_manager_get_outbound_by_idx ::
  "queue_manager \<Rightarrow> int \<Rightarrow> packet_ref option" where
  "meshcore_packet_queue_manager_get_outbound_by_idx m i =
     (if \<not> qm_initialized m then None else meshcore_packet_queue_item_at (qm_send_queue m) i)"

definition meshcore_packet_queue_manager_remove_outbound_by_idx ::
  "queue_manager \<Rightarrow> int \<Rightarrow> packet_ref option \<times> queue_manager" where
  "meshcore_packet_queue_manager_remove_outbound_by_idx m i =
     (if \<not> qm_initialized m then (None, m)
      else let (r, q) = meshcore_packet_queue_remove_by_idx (qm_send_queue m) i
           in (r, m \<lparr> qm_send_queue := q \<rparr>))"

definition meshcore_packet_queue_manager_queue_inbound ::
  "queue_manager \<Rightarrow> packet_ref \<Rightarrow> u32 \<Rightarrow> queue_manager" where
  "meshcore_packet_queue_manager_queue_inbound m packet scheduled_for =
     (if \<not> qm_initialized m then m
      else case meshcore_packet_queue_add (qm_rx_queue m) packet 0 scheduled_for of
             (False, _) \<Rightarrow> meshcore_packet_queue_manager_free m packet
           | (True, q) \<Rightarrow> m \<lparr> qm_rx_queue := q \<rparr>)"

definition meshcore_packet_queue_manager_get_next_inbound ::
  "queue_manager \<Rightarrow> u32 \<Rightarrow> packet_ref option \<times> queue_manager" where
  "meshcore_packet_queue_manager_get_next_inbound m now =
     (if \<not> qm_initialized m then (None, m)
      else let (r, q) = meshcore_packet_queue_get (qm_rx_queue m) now
           in (r, m \<lparr> qm_rx_queue := q \<rparr>))"

definition meshcore_packet_queue_manager_next_inbound_scheduled_get ::
  "queue_manager \<Rightarrow> u32 \<Rightarrow> u32 option" where
  "meshcore_packet_queue_manager_next_inbound_scheduled_get m now =
     (if \<not> qm_initialized m then None
      else meshcore_packet_queue_next_scheduled_get (qm_rx_queue m) now)"

section \<open>The interface of a timed priority queue\<close>

type_synonym entry = "packet_ref \<times> byte \<times> u32"

abbreviation "e_ref \<equiv> fst :: entry \<Rightarrow> packet_ref"

definition e_pri :: "entry \<Rightarrow> byte" where
  "e_pri e = fst (snd e)"

definition e_due :: "u32 \<Rightarrow> entry \<Rightarrow> bool" where
  "e_due now e \<longleftrightarrow> \<not> after (snd (snd e)) now"

definition remove_nth :: "nat \<Rightarrow> 'a list \<Rightarrow> 'a list" where
  "remove_nth i xs = take i xs @ drop (i + 1) xs"

text \<open>
  The entry \<open>get\<close> takes: among the due entries the one of smallest priority value, the
  oldest of these; 255 is not a priority that is ever served.
\<close>

definition selected :: "u32 \<Rightarrow> entry list \<Rightarrow> nat \<Rightarrow> bool" where
  "selected now es i \<longleftrightarrow> i < length es \<and> e_due now (es ! i) \<and> e_pri (es ! i) < 0xFF \<and>
     (\<forall>j < length es. e_due now (es ! j) \<longrightarrow>
        e_pri (es ! i) \<le> e_pri (es ! j) \<and> (j < i \<longrightarrow> e_pri (es ! i) < e_pri (es ! j)))"

lemma mset_remove_nth: "i < length xs \<Longrightarrow> add_mset (xs ! i) (mset (remove_nth i xs)) = mset xs"
  by (subst (2) id_take_nth_drop [of i xs]) (simp_all add: remove_nth_def)

lemma length_remove_nth [simp]: "i < length xs \<Longrightarrow> length (remove_nth i xs) = length xs - 1"
  by (auto simp: remove_nth_def)

locale timed_queue =
  fixes wf :: "'q \<Rightarrow> bool"
    and entries :: "'q \<Rightarrow> entry list"
    and cap :: "'q \<Rightarrow> nat"
    and add :: "'q \<Rightarrow> packet_ref \<Rightarrow> byte \<Rightarrow> u32 \<Rightarrow> bool \<times> 'q"
    and get :: "'q \<Rightarrow> u32 \<Rightarrow> packet_ref option \<times> 'q"
    and remove_at :: "'q \<Rightarrow> int \<Rightarrow> packet_ref option \<times> 'q"
  assumes add_room:
      "wf q \<Longrightarrow> length (entries q) < cap q \<Longrightarrow>
       \<exists>q'. add q r p t = (True, q') \<and> wf q' \<and> cap q' = cap q \<and> entries q' = entries q @ [(r, p, t)]"
    and add_full: "wf q \<Longrightarrow> \<not> length (entries q) < cap q \<Longrightarrow> add q r p t = (False, q)"
    and get_none: "wf q \<Longrightarrow> get q now = (None, q') \<Longrightarrow>
       q' = q \<and> (\<forall>e \<in> set (entries q). e_due now e \<longrightarrow> e_pri e = 0xFF)"
    and get_some: "wf q \<Longrightarrow> get q now = (Some r, q') \<Longrightarrow>
       wf q' \<and> cap q' = cap q \<and>
       (\<exists>i. selected now (entries q) i \<and> r = e_ref (entries q ! i) \<and>
            entries q' = remove_nth i (entries q))"
    and remove_none: "wf q \<Longrightarrow> \<not> (0 \<le> i \<and> i < int (length (entries q))) \<Longrightarrow> remove_at q i = (None, q)"
    and remove_some: "wf q \<Longrightarrow> 0 \<le> i \<Longrightarrow> i < int (length (entries q)) \<Longrightarrow>
       \<exists>q'. remove_at q i = (Some (e_ref (entries q ! nat i)), q') \<and> wf q' \<and> cap q' = cap q \<and>
            entries q' = remove_nth (nat i) (entries q)"
begin

definition refs :: "'q \<Rightarrow> packet_ref multiset" where
  "refs q = mset (map e_ref (entries q))"

lemma refs_add:
  assumes "wf q" and "length (entries q) < cap q"
  obtains q' where "add q r p t = (True, q')" "wf q'" "cap q' = cap q" "refs q' = add_mset r (refs q)"
    "length (entries q') = length (entries q) + 1"
  using add_room [OF assms, of r p t] by (auto simp: refs_def)

lemma refs_removed:
  assumes "i < length (entries q)" and "entries q' = remove_nth i (entries q)"
  shows "add_mset (e_ref (entries q ! i)) (refs q') = refs q"
proof -
  have "add_mset (e_ref (entries q ! i)) (refs q')
      = image_mset e_ref (add_mset (entries q ! i) (mset (remove_nth i (entries q))))"
    using assms(2) by (simp add: refs_def)
  also have "\<dots> = refs q" using assms(1) by (simp add: mset_remove_nth refs_def)
  finally show ?thesis .
qed

lemma refs_get:
  assumes "wf q" and "get q now = (r, q')"
  shows "wf q' \<and> cap q' = cap q \<and>
    (case r of None \<Rightarrow> q' = q | Some x \<Rightarrow> refs q = add_mset x (refs q'))"
proof (cases r)
  case None
  then show ?thesis using get_none assms by auto
next
  case (Some x)
  then obtain i where i: "selected now (entries q) i" "x = e_ref (entries q ! i)"
      "entries q' = remove_nth i (entries q)" "wf q'" "cap q' = cap q"
    using get_some assms by blast
  then have "refs q = add_mset x (refs q')"
    using refs_removed [of i q q'] by (simp add: selected_def)
  then show ?thesis using i Some by simp
qed

lemma refs_remove:
  assumes "wf q" and "remove_at q i = (r, q')"
  shows "wf q' \<and> cap q' = cap q \<and>
    (case r of None \<Rightarrow> q' = q | Some x \<Rightarrow> refs q = add_mset x (refs q'))"
proof (cases "0 \<le> i \<and> i < int (length (entries q))")
  case False
  then show ?thesis using remove_none assms by auto
next
  case True
  then obtain q'' where "remove_at q i = (Some (e_ref (entries q ! nat i)), q'')" "wf q''"
      "cap q'' = cap q" "entries q'' = remove_nth (nat i) (entries q)"
    using remove_some assms(1) by blast
  then show ?thesis
    using assms(2) True refs_removed [of "nat i" q q''] by (auto simp: nat_less_iff)
qed

end

section \<open>The array queue implements the interface\<close>

definition q_wf :: "packet_queue \<Rightarrow> bool" where
  "q_wf q \<longleftrightarrow> length (q_table q) = MAX_POOL_SIZE \<and> length (q_pri_table q) = MAX_POOL_SIZE \<and>
     length (q_schedule_table q) = MAX_POOL_SIZE \<and> q_num q \<le> q_size q \<and> q_size q \<le> MAX_POOL_SIZE \<and>
     (\<forall>i < q_num q. q_table q ! i \<noteq> None)"

definition q_entry :: "packet_queue \<Rightarrow> nat \<Rightarrow> entry" where
  "q_entry q i = (the (q_table q ! i), q_pri_table q ! i, q_schedule_table q ! i)"

definition q_entries :: "packet_queue \<Rightarrow> entry list" where
  "q_entries q = map (q_entry q) [0..<q_num q]"

lemma length_q_entries [simp]: "length (q_entries q) = q_num q"
  by (simp add: q_entries_def)

lemma nth_q_entries [simp]: "i < q_num q \<Longrightarrow> q_entries q ! i = q_entry q i"
  by (simp add: q_entries_def)

lemma compact_loop_spec:
  "q_num q < length (q_table q) \<Longrightarrow> q_num q < length (q_pri_table q) \<Longrightarrow>
   q_num q < length (q_schedule_table q) \<Longrightarrow> q' = compact_loop q idx \<Longrightarrow>
   length (q_table q') = length (q_table q) \<and> length (q_pri_table q') = length (q_pri_table q) \<and>
   length (q_schedule_table q') = length (q_schedule_table q) \<and>
   q_num q' = q_num q \<and> q_size q' = q_size q \<and>
   (\<forall>i < q_num q. let k = (if idx \<le> i then i + 1 else i) in
      q_table q' ! i = q_table q ! k \<and> q_pri_table q' ! i = q_pri_table q ! k \<and>
      q_schedule_table q' ! i = q_schedule_table q ! k)"
proof (induction q idx rule: compact_loop.induct)
  case (1 q idx)
  show ?case
  proof (cases "idx < q_num q")
    case False
    then show ?thesis using 1(5) by (simp add: compact_loop.simps Let_def)
  next
    case True
    let ?u = "q \<lparr> q_table := (q_table q)[idx := q_table q ! (idx + 1)],
                   q_pri_table := (q_pri_table q)[idx := q_pri_table q ! (idx + 1)],
                   q_schedule_table := (q_schedule_table q)[idx := q_schedule_table q ! (idx + 1)] \<rparr>"
    have q': "q' = compact_loop ?u (idx + 1)"
      using True 1(5) by (simp add: compact_loop.simps [of q])
    show ?thesis
      using 1(1) [OF True _ _ _ q'] 1(2-4) True
      by (auto simp: Let_def nth_list_update)
  qed
qed

lemma compact_from_spec:
  assumes "q_wf q" and "idx < q_num q"
  shows "q_wf (meshcore_packet_queue_compact_from q idx)"
    "q_size (meshcore_packet_queue_compact_from q idx) = q_size q"
    "q_entries (meshcore_packet_queue_compact_from q idx) = remove_nth idx (q_entries q)"
proof -
  let ?q = "q \<lparr> q_num := q_num q - 1 \<rparr>"
  let ?r = "meshcore_packet_queue_compact_from q idx"
  have S: "length (q_table ?r) = MAX_POOL_SIZE" "length (q_pri_table ?r) = MAX_POOL_SIZE"
    "length (q_schedule_table ?r) = MAX_POOL_SIZE" "q_num ?r = q_num q - 1" "q_size ?r = q_size q"
    "\<And>i. i < q_num q - 1 \<Longrightarrow> q_table ?r ! i = q_table q ! (if idx \<le> i then i + 1 else i) \<and>
      q_entry ?r i = q_entry q (if idx \<le> i then i + 1 else i)"
    using assms compact_loop_spec [of ?q ?r idx]
    by (auto simp: q_wf_def meshcore_packet_queue_compact_from_def Let_def q_entry_def)
  show "q_wf ?r"
    using assms S(1-5) S(6) by (auto simp: q_wf_def)
  show "q_size ?r = q_size q" by fact
  show "q_entries ?r = remove_nth idx (q_entries q)"
  proof (rule nth_equalityI)
    show "length (q_entries ?r) = length (remove_nth idx (q_entries q))"
      using assms(2) S(4) by simp
    show "q_entries ?r ! i = remove_nth idx (q_entries q) ! i" if "i < length (q_entries ?r)" for i
      using that assms(2) S(4,6) by (simp add: remove_nth_def nth_append min_def)
  qed
qed

text \<open>What the scan has found after the first \<open>n\<close> entries.\<close>

definition scan_inv :: "packet_queue \<Rightarrow> u32 \<Rightarrow> nat \<Rightarrow> byte \<times> nat option \<Rightarrow> bool" where
  "scan_inv q now n = (\<lambda>(min_pri, best).
     (\<forall>j < n. e_due now (q_entry q j) \<longrightarrow> min_pri \<le> e_pri (q_entry q j)) \<and>
     (case best of
        None \<Rightarrow> min_pri = 0xFF
      | Some i \<Rightarrow> i < n \<and> e_due now (q_entry q i) \<and> e_pri (q_entry q i) = min_pri \<and> min_pri < 0xFF \<and>
          (\<forall>j < i. e_due now (q_entry q j) \<longrightarrow> min_pri < e_pri (q_entry q j))))"

lemma get_scan_inv:
  "scan_inv q now n (foldl (get_scan_step q now) (0xFF, None) [0..<n])"
proof (induction n)
  case 0
  show ?case by (simp add: scan_inv_def)
next
  case (Suc n)
  obtain m b where mb: "foldl (get_scan_step q now) (0xFF, None) [0..<n] = (m, b)" by force
  have fields: "e_due now (q_entry q j) \<longleftrightarrow> \<not> after (q_schedule_table q ! j) now"
    "e_pri (q_entry q j) = q_pri_table q ! j" for j
    by (simp_all add: e_due_def e_pri_def q_entry_def)
  show ?case
    using Suc mb
    by (auto simp: scan_inv_def get_scan_step_def fields less_Suc_eq not_less split: option.splits
        dest: order.strict_trans2 intro: order.trans less_imp_le)
qed

lemma queue_get_spec:
  assumes "q_wf q"
  shows "meshcore_packet_queue_get q now = (None, q') \<Longrightarrow>
      q' = q \<and> (\<forall>e \<in> set (q_entries q). e_due now e \<longrightarrow> e_pri e = 0xFF)"
    and "meshcore_packet_queue_get q now = (Some r, q') \<Longrightarrow>
      q_wf q' \<and> q_size q' = q_size q \<and>
      (\<exists>i. selected now (q_entries q) i \<and> r = e_ref (q_entries q ! i) \<and>
           q_entries q' = remove_nth i (q_entries q))"
proof -
  obtain m b where mb: "foldl (get_scan_step q now) (0xFF, None) [0..<q_num q] = (m, b)" by force
  have inv: "scan_inv q now (q_num q) (m, b)"
    using get_scan_inv [of q now "q_num q"] mb by simp
  show "q' = q \<and> (\<forall>e \<in> set (q_entries q). e_due now e \<longrightarrow> e_pri e = 0xFF)"
    if g: "meshcore_packet_queue_get q now = (None, q')"
  proof (cases b)
    case None
    then show ?thesis
      using g inv mb
      by (auto simp: meshcore_packet_queue_get_def scan_inv_def q_entries_def intro: antisym)
  next
    case (Some i)
    then show ?thesis
      using g inv mb assms by (auto simp: meshcore_packet_queue_get_def scan_inv_def q_wf_def)
  qed
  show "q_wf q' \<and> q_size q' = q_size q \<and>
      (\<exists>i. selected now (q_entries q) i \<and> r = e_ref (q_entries q ! i) \<and>
           q_entries q' = remove_nth i (q_entries q))"
    if g: "meshcore_packet_queue_get q now = (Some r, q')"
  proof (cases b)
    case None
    then show ?thesis using g mb by (simp add: meshcore_packet_queue_get_def)
  next
    case (Some i)
    then have i: "i < q_num q" "selected now (q_entries q) i"
      using inv by (auto simp: scan_inv_def selected_def)
    moreover have "Some r = q_table q ! i" "q' = meshcore_packet_queue_compact_from q i"
      using g mb Some by (simp_all add: meshcore_packet_queue_get_def)
    moreover have "r = e_ref (q_entries q ! i)"
      using i(1) calculation(3) by (cases "q_table q ! i") (auto simp: q_entry_def)
    ultimately show ?thesis
      using compact_from_spec [OF assms i(1)] by blast
  qed
qed

lemma queue_add_spec:
  assumes "q_wf q"
  shows "q_num q < q_size q \<Longrightarrow>
      \<exists>q'. meshcore_packet_queue_add q r p t = (True, q') \<and> q_wf q' \<and> q_size q' = q_size q \<and>
           q_entries q' = q_entries q @ [(r, p, t)]"
    and "\<not> q_num q < q_size q \<Longrightarrow> meshcore_packet_queue_add q r p t = (False, q)"
  using assms
  by (auto simp: meshcore_packet_queue_add_def q_wf_def q_entries_def q_entry_def nth_list_update less_Suc_eq)

lemma queue_remove_spec:
  assumes "q_wf q"
  shows "\<not> (0 \<le> i \<and> i < int (q_num q)) \<Longrightarrow> meshcore_packet_queue_remove_by_idx q i = (None, q)"
    and "0 \<le> i \<Longrightarrow> i < int (q_num q) \<Longrightarrow>
       \<exists>q'. meshcore_packet_queue_remove_by_idx q i = (Some (e_ref (q_entries q ! nat i)), q') \<and>
            q_wf q' \<and> q_size q' = q_size q \<and> q_entries q' = remove_nth (nat i) (q_entries q)"
  using assms compact_from_spec [OF assms, of "nat i"]
  by (auto simp: meshcore_packet_queue_remove_by_idx_def q_wf_def q_entry_def nat_less_iff)

interpretation array_queue: timed_queue q_wf q_entries q_size
  meshcore_packet_queue_add meshcore_packet_queue_get meshcore_packet_queue_remove_by_idx
proof (unfold_locales, goal_cases)
  case (1 q r p t)
  then show ?case using queue_add_spec(1) [of q r p t] by simp
next
  case (2 q r p t)
  then show ?case using queue_add_spec(2) [of q r p t] by simp
next
  case (3 q now q')
  then show ?case using queue_get_spec(1) by blast
next
  case (4 q now r q')
  then show ?case using queue_get_spec(2) by blast
next
  case (5 q i)
  then show ?case using queue_remove_spec(1) [of q i] by simp
next
  case (6 q i)
  then show ?case using queue_remove_spec(2) [of q i] by (simp only: length_q_entries)
qed

section \<open>Ownership of the packets\<close>

definition mgr_refs :: "queue_manager \<Rightarrow> packet_ref multiset" where
  "mgr_refs m = array_queue.refs (qm_unused m) + array_queue.refs (qm_send_queue m) +
     array_queue.refs (qm_rx_queue m)"

definition mgr_ok :: "queue_manager \<Rightarrow> bool" where
  "mgr_ok m \<longleftrightarrow> qm_initialized m \<and> 0 < qm_pool_size m \<and> qm_pool_size m \<le> int MAX_POOL_SIZE \<and>
     length (qm_packet_buf m) = MAX_POOL_SIZE \<and> (\<forall>p \<in> set (qm_packet_buf m). packet_wf p) \<and>
     (\<forall>q \<in> {qm_unused m, qm_send_queue m, qm_rx_queue m}. q_wf q \<and> q_size q = nat (qm_pool_size m))"

text \<open>
  \<open>held\<close> are the packets the callers have in hand.  Each index of the pool occurs once, in a
  queue or in \<open>held\<close>: no packet is lost, none is queued or held twice.
\<close>

definition pool_inv :: "queue_manager \<Rightarrow> packet_ref multiset \<Rightarrow> bool" where
  "pool_inv m held \<longleftrightarrow> mgr_ok m \<and> mgr_refs m + held = mset [0..<nat (qm_pool_size m)]"

lemma size_refs [simp]: "size (array_queue.refs q) = q_num q"
  by (simp add: array_queue.refs_def)

lemma pool_inv_room:
  assumes "pool_inv m (add_mset r held)" and "q \<in> {qm_unused m, qm_send_queue m, qm_rx_queue m}"
  shows "q_wf q" "length (q_entries q) < q_size q"
proof -
  have "size (mgr_refs m + add_mset r held) = size (mset [0..<nat (qm_pool_size m)])"
    using assms(1) by (simp only: pool_inv_def)
  then show "q_wf q" "length (q_entries q) < q_size q"
    using assms by (auto simp: pool_inv_def mgr_ok_def mgr_refs_def)
qed

lemma pool_inv_range:
  assumes "pool_inv m held" and "r \<in># held"
  shows "r < nat (qm_pool_size m)" "r < length (qm_packet_buf m)"
proof -
  have "r \<in># mset [0..<nat (qm_pool_size m)]"
    using assms by (metis pool_inv_def union_iff)
  then show "r < nat (qm_pool_size m)" "r < length (qm_packet_buf m)"
    using assms(1) by (auto simp: pool_inv_def mgr_ok_def)
qed

lemma pool_inv_distinct: "pool_inv m held \<Longrightarrow> count held r \<le> 1"
proof -
  assume "pool_inv m held"
  then have "count (mgr_refs m) r + count held r = count (mset [0..<nat (qm_pool_size m)]) r"
    by (metis pool_inv_def count_union)
  also have "\<dots> \<le> 1" by (metis distinct_count_atmost_1 distinct_upt le_numeral_extra(4) zero_le_one)
  finally show ?thesis by simp
qed

lemma manager_free_inv:
  assumes "pool_inv m (add_mset r held)"
  shows "pool_inv (meshcore_packet_queue_manager_free m r) held"
proof -
  from pool_inv_room [OF assms, of "qm_unused m"] obtain u where
    "meshcore_packet_queue_add (qm_unused m) r 0 0 = (True, u)" "q_wf u"
    "q_size u = q_size (qm_unused m)" "array_queue.refs u = add_mset r (array_queue.refs (qm_unused m))"
    by (auto elim: array_queue.refs_add [of "qm_unused m" r 0 0])
  then show ?thesis
    using assms
    by (auto simp: meshcore_packet_queue_manager_free_def pool_inv_def mgr_ok_def mgr_refs_def)
qed

lemma queue_outbound_inv:
  assumes "pool_inv m (add_mset r held)"
  shows "pool_inv (meshcore_packet_queue_manager_queue_outbound m r pri t) held"
proof -
  from pool_inv_room [OF assms, of "qm_send_queue m"] obtain u where
    "meshcore_packet_queue_add (qm_send_queue m) r pri t = (True, u)" "q_wf u"
    "q_size u = q_size (qm_send_queue m)"
    "array_queue.refs u = add_mset r (array_queue.refs (qm_send_queue m))"
    by (auto elim: array_queue.refs_add [of "qm_send_queue m" r pri t])
  then show ?thesis
    using assms
    by (auto simp: meshcore_packet_queue_manager_queue_outbound_def pool_inv_def mgr_ok_def mgr_refs_def)
qed

lemma queue_inbound_inv:
  assumes "pool_inv m (add_mset r held)"
  shows "pool_inv (meshcore_packet_queue_manager_queue_inbound m r t) held"
proof -
  from pool_inv_room [OF assms, of "qm_rx_queue m"] obtain u where
    "meshcore_packet_queue_add (qm_rx_queue m) r 0 t = (True, u)" "q_wf u"
    "q_size u = q_size (qm_rx_queue m)"
    "array_queue.refs u = add_mset r (array_queue.refs (qm_rx_queue m))"
    by (auto elim: array_queue.refs_add [of "qm_rx_queue m" r 0 t])
  then show ?thesis
    using assms
    by (auto simp: meshcore_packet_queue_manager_queue_inbound_def pool_inv_def mgr_ok_def mgr_refs_def)
qed

text \<open>Packets leave a queue into the hands of the caller.\<close>

definition held_after :: "packet_ref option \<Rightarrow> packet_ref multiset \<Rightarrow> packet_ref multiset" where
  "held_after r held = (case r of None \<Rightarrow> held | Some x \<Rightarrow> add_mset x held)"

lemma held_after_simps [simp]:
  "held_after None held = held" "held_after (Some x) held = add_mset x held"
  by (simp_all add: held_after_def)

lemma alloc_new_inv:
  assumes "pool_inv m held" and "meshcore_packet_queue_manager_alloc_new m = (r, m')"
  shows "pool_inv m' (held_after r held)"
proof -
  obtain u where u: "meshcore_packet_queue_remove_by_idx (qm_unused m) 0 = (r, u)"
      "m' = m \<lparr> qm_unused := u \<rparr>"
    using assms
    by (auto simp: meshcore_packet_queue_manager_alloc_new_def pool_inv_def mgr_ok_def split: prod.splits)
  have "q_wf (qm_unused m)" using assms(1) by (simp add: pool_inv_def mgr_ok_def)
  from array_queue.refs_remove [OF this u(1)] show ?thesis
    using assms(1) u(2) by (cases r) (auto simp: pool_inv_def mgr_ok_def mgr_refs_def)
qed

lemma get_next_outbound_inv:
  assumes "pool_inv m held" and "meshcore_packet_queue_manager_get_next_outbound m now = (r, m')"
  shows "pool_inv m' (held_after r held)"
proof -
  obtain u where u: "meshcore_packet_queue_get (qm_send_queue m) now = (r, u)"
      "m' = m \<lparr> qm_send_queue := u \<rparr>"
    using assms
    by (auto simp: meshcore_packet_queue_manager_get_next_outbound_def pool_inv_def mgr_ok_def
        split: prod.splits)
  have "q_wf (qm_send_queue m)" using assms(1) by (simp add: pool_inv_def mgr_ok_def)
  from array_queue.refs_get [OF this u(1)] show ?thesis
    using assms(1) u(2) by (cases r) (auto simp: pool_inv_def mgr_ok_def mgr_refs_def)
qed

lemma get_next_inbound_inv:
  assumes "pool_inv m held" and "meshcore_packet_queue_manager_get_next_inbound m now = (r, m')"
  shows "pool_inv m' (held_after r held)"
proof -
  obtain u where u: "meshcore_packet_queue_get (qm_rx_queue m) now = (r, u)"
      "m' = m \<lparr> qm_rx_queue := u \<rparr>"
    using assms
    by (auto simp: meshcore_packet_queue_manager_get_next_inbound_def pool_inv_def mgr_ok_def
        split: prod.splits)
  have "q_wf (qm_rx_queue m)" using assms(1) by (simp add: pool_inv_def mgr_ok_def)
  from array_queue.refs_get [OF this u(1)] show ?thesis
    using assms(1) u(2) by (cases r) (auto simp: pool_inv_def mgr_ok_def mgr_refs_def)
qed

lemma remove_outbound_inv:
  assumes "pool_inv m held" and "meshcore_packet_queue_manager_remove_outbound_by_idx m i = (r, m')"
  shows "pool_inv m' (held_after r held)"
proof -
  obtain u where u: "meshcore_packet_queue_remove_by_idx (qm_send_queue m) i = (r, u)"
      "m' = m \<lparr> qm_send_queue := u \<rparr>"
    using assms
    by (auto simp: meshcore_packet_queue_manager_remove_outbound_by_idx_def pool_inv_def mgr_ok_def
        split: prod.splits)
  have "q_wf (qm_send_queue m)" using assms(1) by (simp add: pool_inv_def mgr_ok_def)
  from array_queue.refs_remove [OF this u(1)] show ?thesis
    using assms(1) u(2) by (cases r) (auto simp: pool_inv_def mgr_ok_def mgr_refs_def)
qed

text \<open>Writing through a packet pointer.\<close>

definition mgr_packet :: "queue_manager \<Rightarrow> packet_ref \<Rightarrow> packet" where
  "mgr_packet m r = qm_packet_buf m ! r"

definition mgr_set_packet :: "packet_ref \<Rightarrow> packet \<Rightarrow> queue_manager \<Rightarrow> queue_manager" where
  "mgr_set_packet r p m = m \<lparr> qm_packet_buf := (qm_packet_buf m)[r := p] \<rparr>"

lemma mgr_set_packet_inv: "pool_inv m held \<Longrightarrow> packet_wf p \<Longrightarrow> pool_inv (mgr_set_packet r p m) held"
  by (auto simp: mgr_set_packet_def pool_inv_def mgr_ok_def mgr_refs_def
      dest: set_update_subset_insert [THEN subsetD])

lemma mgr_packet_wf: "pool_inv m held \<Longrightarrow> r \<in># held \<Longrightarrow> packet_wf (mgr_packet m r)"
  using pool_inv_range by (auto simp: mgr_packet_def pool_inv_def mgr_ok_def)

lemma mgr_packet_set [simp]:
  "r < length (qm_packet_buf m) \<Longrightarrow> mgr_packet (mgr_set_packet r p m) r = p"
  by (simp add: mgr_packet_def mgr_set_packet_def)

lemma mgr_packet_set_other [simp]:
  "r \<noteq> r' \<Longrightarrow> mgr_packet (mgr_set_packet r p m) r' = mgr_packet m r'"
  by (simp add: mgr_packet_def mgr_set_packet_def)

section \<open>Preparing the manager\<close>

definition q_fresh :: "nat \<Rightarrow> packet_queue" where
  "q_fresh n = queue_zero \<lparr> q_size := n \<rparr>"

lemma q_fresh_wf [simp]:
  "n \<le> MAX_POOL_SIZE \<Longrightarrow> q_wf (q_fresh n)" "q_entries (q_fresh n) = []" "q_size (q_fresh n) = n"
  "q_num (q_fresh n) = 0" "array_queue.refs (q_fresh n) = {#}"
  by (simp_all add: q_fresh_def queue_zero_def q_wf_def q_entries_def array_queue.refs_def)

lemma prepare_loop_spec:
  assumes "q_wf (qm_unused m)" and "q_entries (qm_unused m) = map (\<lambda>i. (i, 0, 0)) [0..<k]"
    and "k + n \<le> q_size (qm_unused m)" and "\<forall>p \<in> set (qm_packet_buf m). packet_wf p"
    and "length (qm_packet_buf m) = MAX_POOL_SIZE"
  shows "\<exists>u b. prepare_loop m [k..<k + n] = Some (m \<lparr> qm_unused := u, qm_packet_buf := b \<rparr>) \<and>
      q_wf u \<and> q_size u = q_size (qm_unused m) \<and> q_entries u = map (\<lambda>i. (i, 0, 0)) [0..<k + n] \<and>
      (\<forall>p \<in> set b. packet_wf p) \<and> length b = MAX_POOL_SIZE"
  using assms
proof (induction n arbitrary: k m)
  case 0
  then show ?case by (intro exI [of _ "qm_unused m"] exI [of _ "qm_packet_buf m"]) simp
next
  case (Suc n)
  let ?b = "(qm_packet_buf m)[k := meshcore_packet_init]"
  have "length (q_entries (qm_unused m)) < q_size (qm_unused m)"
    using Suc.prems(2,3) by simp
  with array_queue.add_room [OF Suc.prems(1), of k 0 0] obtain u where u:
    "meshcore_packet_queue_add (qm_unused m) k 0 0 = (True, u)" "q_wf u"
    "q_size u = q_size (qm_unused m)" "q_entries u = q_entries (qm_unused m) @ [(k, 0, 0)]"
    by auto
  let ?m = "m \<lparr> qm_packet_buf := ?b, qm_unused := u \<rparr>"
  have "packet_wf meshcore_packet_init" by (rule example_packet_sendable(3))
  then have b: "\<forall>p \<in> set ?b. packet_wf p"
    using Suc.prems(4) set_update_subset_insert [of "qm_packet_buf m"] by blast
  have step: "prepare_loop m [k..<k + Suc n] = prepare_loop ?m [k + 1..<k + 1 + n]"
  proof -
    have "[k..<k + Suc n] = k # [k + 1..<k + 1 + n]"
      by (simp add: upt_conv_Cons del: upt_Suc)
    then show ?thesis using u(1) by simp
  qed
  show ?case
    using Suc.IH [of ?m "k + 1"] Suc.prems u b unfolding step by auto
qed

lemma prepare_inv:
  assumes "0 < n" and "n \<le> int MAX_POOL_SIZE"
  shows "pool_inv (meshcore_packet_queue_manager_prepare m n) {#}"
    and "q_num (qm_unused (meshcore_packet_queue_manager_prepare m n)) = nat n"
    and "qm_pool_size (meshcore_packet_queue_manager_prepare m n) = n"
proof -
  let ?m = "manager_zero \<lparr> qm_pool_size := n, qm_unused := q_fresh (nat n),
      qm_send_queue := q_fresh (nat n), qm_rx_queue := q_fresh (nat n) \<rparr>"
  have init: "meshcore_packet_queue_init q n = (True, q_fresh (nat n))" for q
    using assms by (simp add: meshcore_packet_queue_init_def q_fresh_def)
  have wf: "\<forall>p \<in> set (qm_packet_buf ?m). packet_wf p"
    using example_packet_sendable(3) by (simp add: manager_zero_def)
  have len: "length (qm_packet_buf ?m) = MAX_POOL_SIZE" by (simp add: manager_zero_def)
  have le: "nat n \<le> MAX_POOL_SIZE" using assms(2) by simp
  obtain u b where r: "prepare_loop ?m [0..<nat n] = Some (?m \<lparr> qm_unused := u, qm_packet_buf := b \<rparr>)"
    and u: "q_wf u" "q_size u = nat n" "q_entries u = map (\<lambda>i. (i, 0, 0)) [0..<nat n]"
    and b: "\<forall>p \<in> set b. packet_wf p" "length b = MAX_POOL_SIZE"
    using prepare_loop_spec [of ?m 0 "nat n"] wf len le by auto
  have eq: "meshcore_packet_queue_manager_prepare m n
      = ?m \<lparr> qm_unused := u, qm_packet_buf := b, qm_initialized := True \<rparr>"
    using assms r init
    by (simp add: meshcore_packet_queue_manager_prepare_def manager_zero_def queue_zero_def Let_def)
  have "array_queue.refs u = mset [0..<nat n]"
    by (simp add: array_queue.refs_def u comp_def)
  then show "pool_inv (meshcore_packet_queue_manager_prepare m n) {#}"
    using eq u b assms le by (simp add: pool_inv_def mgr_ok_def mgr_refs_def)
  show "q_num (qm_unused (meshcore_packet_queue_manager_prepare m n)) = nat n"
    using eq u(3) length_q_entries [of u] by simp
  show "qm_pool_size (meshcore_packet_queue_manager_prepare m n) = n"
    using eq by simp
qed

section \<open>The next wake-up time\<close>

lemma sint_sub_small:
  assumes "0 < sint (x :: u32)" and "0 < sint y"
  shows "sint (x - y) = sint x - sint y"
proof -
  have "sint x < 2 ^ 31" "sint y < 2 ^ 31"
    using sint_lt [of x] sint_lt [of y] by simp_all
  then show ?thesis
    using assms by (simp add: sint_word_ariths signed_take_bit_int_eq_self)
qed

lemma after_order:
  assumes "after c now" and "after b now"
  shows "sint (c - b) < 0 \<longleftrightarrow> sint (c - now) < sint (b - now)"
proof -
  have "c - b = (c - now) - (b - now)" by simp
  then have "sint (c - b) = sint (c - now) - sint (b - now)"
    using sint_sub_small assms unfolding after_def by metis
  then show ?thesis by simp
qed

lemma next_scheduled_loop_spec:
  assumes "best = None \<or> after (the best) now"
    and ts_def: "ts = (!) (q_schedule_table q) ` set js"
  shows "case next_scheduled_loop q now js best of
      None \<Rightarrow> js = [] \<and> best = None
    | Some t \<Rightarrow>
        if \<exists>x \<in> ts. \<not> after x now then t = now
        else after t now \<and> t \<in> ts \<union> set_option best \<and>
          (\<forall>x \<in> ts \<union> set_option best. sint (t - now) \<le> sint (x - now))"
  using assms(1) unfolding ts_def
proof (induction js arbitrary: best)
  case Nil
  then show ?case by (cases best) auto
next
  case (Cons j js)
  let ?c = "q_schedule_table q ! j"
  show ?case
  proof (cases "after ?c now")
    case False
    then show ?thesis by simp
  next
    case True
    show ?thesis
    proof (cases "best = None \<or> sint (?c - the best) < 0")
      case take: True
      have less: "\<forall>x \<in> set_option best. sint (?c - now) \<le> sint (x - now)"
        using take True Cons.prems after_order [of ?c now "the best"] by (cases best) auto
      show ?thesis
        using Cons.IH [of "Some ?c"] True take less by (auto split: option.splits if_splits)
    next
      case False
      then have less: "sint (the best - now) \<le> sint (?c - now)" "best \<noteq> None"
        using True Cons.prems after_order [of ?c now "the best"] by auto
      show ?thesis
        using Cons.IH [of best] True False less Cons.prems
        by (auto split: option.splits if_splits)
    qed
  qed
qed

section \<open>The manager as a state machine\<close>

text \<open>
  Any sequence of manager calls by clients that respect ownership: a client passes only
  packets it holds, and writes only to packets it holds.
\<close>

inductive mgr_step :: "queue_manager \<times> packet_ref multiset \<Rightarrow> queue_manager \<times> packet_ref multiset \<Rightarrow> bool"
where
  alloc: "meshcore_packet_queue_manager_alloc_new m = (r, m') \<Longrightarrow>
    mgr_step (m, held) (m', held_after r held)"
| free: "mgr_step (m, add_mset r held) (meshcore_packet_queue_manager_free m r, held)"
| outbound: "mgr_step (m, add_mset r held)
    (meshcore_packet_queue_manager_queue_outbound m r pri t, held)"
| inbound: "mgr_step (m, add_mset r held)
    (meshcore_packet_queue_manager_queue_inbound m r t, held)"
| next_out: "meshcore_packet_queue_manager_get_next_outbound m now = (r, m') \<Longrightarrow>
    mgr_step (m, held) (m', held_after r held)"
| next_in: "meshcore_packet_queue_manager_get_next_inbound m now = (r, m') \<Longrightarrow>
    mgr_step (m, held) (m', held_after r held)"
| remove: "meshcore_packet_queue_manager_remove_outbound_by_idx m i = (r, m') \<Longrightarrow>
    mgr_step (m, held) (m', held_after r held)"
| store: "r \<in># held \<Longrightarrow> packet_wf p \<Longrightarrow> mgr_step (m, held) (mgr_set_packet r p m, held)"

inductive_cases mgr_stepE [elim]: "mgr_step (m, held) (m', held')"

inductive mgr_reach :: "int \<Rightarrow> queue_manager \<times> packet_ref multiset \<Rightarrow> bool" for n where
  start: "mgr_reach n (meshcore_packet_queue_manager_prepare m n, {#})"
| step: "mgr_reach n s \<Longrightarrow> mgr_step s s' \<Longrightarrow> mgr_reach n s'"

lemma mgr_step_inv: "mgr_step (m, held) (m', held') \<Longrightarrow> pool_inv m held \<Longrightarrow> pool_inv m' held'"
  by (auto intro: alloc_new_inv manager_free_inv queue_outbound_inv queue_inbound_inv
      get_next_outbound_inv get_next_inbound_inv remove_outbound_inv mgr_set_packet_inv)

lemma manager_pool_size [simp]:
  "qm_pool_size (meshcore_packet_queue_manager_free m r) = qm_pool_size m"
  "qm_pool_size (meshcore_packet_queue_manager_queue_outbound m r pri t) = qm_pool_size m"
  "qm_pool_size (meshcore_packet_queue_manager_queue_inbound m r t) = qm_pool_size m"
  "qm_pool_size (mgr_set_packet r p m) = qm_pool_size m"
  by (simp_all add: meshcore_packet_queue_manager_free_def mgr_set_packet_def
      meshcore_packet_queue_manager_queue_outbound_def
      meshcore_packet_queue_manager_queue_inbound_def split: prod.split bool.split)

lemma manager_pool_size_get:
  "meshcore_packet_queue_manager_alloc_new m = (x, m') \<Longrightarrow> qm_pool_size m' = qm_pool_size m"
  "meshcore_packet_queue_manager_get_next_outbound m now = (x, m') \<Longrightarrow> qm_pool_size m' = qm_pool_size m"
  "meshcore_packet_queue_manager_get_next_inbound m now = (x, m') \<Longrightarrow> qm_pool_size m' = qm_pool_size m"
  "meshcore_packet_queue_manager_remove_outbound_by_idx m i = (x, m') \<Longrightarrow> qm_pool_size m' = qm_pool_size m"
  by (auto simp: meshcore_packet_queue_manager_alloc_new_def
      meshcore_packet_queue_manager_get_next_outbound_def
      meshcore_packet_queue_manager_get_next_inbound_def
      meshcore_packet_queue_manager_remove_outbound_by_idx_def split: if_splits prod.splits)

lemma mgr_step_pool_size: "mgr_step (m, held) (m', held') \<Longrightarrow> qm_pool_size m' = qm_pool_size m"
  by (auto dest: manager_pool_size_get)

lemma mgr_reach_inv:
  assumes "mgr_reach n s" and "0 < n" and "n \<le> int MAX_POOL_SIZE"
  shows "pool_inv (fst s) (snd s) \<and> qm_pool_size (fst s) = n"
  using assms(1)
proof induction
  case (start m)
  then show ?case using prepare_inv [OF assms(2,3)] by simp
next
  case (step s s')
  then show ?case
    using mgr_step_inv mgr_step_pool_size by (cases s; cases s') auto
qed

section \<open>Properties\<close>

text \<open>
  C5. No packet of the arena is ever lost, duplicated or queued twice: whatever sequence of
  allocations, releases, queueings and removals follows the preparation of a pool of \<open>n\<close>
  packets, each of the \<open>n\<close> packets is in exactly one of the three queues or in the hands of
  exactly one client, so that the four counts always add up to \<open>n\<close>.
\<close>

theorem packet_pool_conservation:
  assumes "mgr_reach n (m, held)" and "0 < n" and "n \<le> int MAX_POOL_SIZE"
  shows "mgr_refs m + held = mset [0..<nat n] \<and> mgr_ok m \<and>
    meshcore_packet_queue_manager_get_free_count m
      + int (meshcore_packet_queue_manager_get_outbound_total m)
      + int (meshcore_packet_queue_count (qm_rx_queue m)) + int (size held) = n"
proof -
  have inv: "mgr_refs m + held = mset [0..<nat n]" "mgr_ok m"
    using mgr_reach_inv [OF assms] by (auto simp: pool_inv_def)
  then have "size (mgr_refs m + held) = nat n" by simp
  then show ?thesis
    using inv assms(2)
    by (auto simp: mgr_refs_def mgr_ok_def meshcore_packet_queue_manager_get_free_count_def
        meshcore_packet_queue_manager_get_outbound_total_def meshcore_packet_queue_count_def)
qed

theorem packet_pool_conservation_witness:
  "\<exists>m r. mgr_reach 3 (meshcore_packet_queue_manager_queue_outbound m r 2 50, {#}) \<and>
     mgr_refs (meshcore_packet_queue_manager_queue_outbound m r 2 50) = mset [0, 1, 2]"
proof -
  let ?m0 = "meshcore_packet_queue_manager_prepare manager_zero 3"
  have "fst (meshcore_packet_queue_manager_alloc_new ?m0) = Some 0" by code_simp
  then obtain m where a: "meshcore_packet_queue_manager_alloc_new ?m0 = (Some 0, m)"
    by (metis prod.collapse)
  have "mgr_reach 3 (m, {#0#})"
    using mgr_reach.step [OF mgr_reach.start mgr_step.alloc [OF a]] by simp
  then have s: "mgr_reach 3 (meshcore_packet_queue_manager_queue_outbound m 0 2 50, {#})"
    using mgr_step.outbound by (rule mgr_reach.step)
  moreover have "[0..<nat 3] = [0, 1, 2]" by code_simp
  ultimately show ?thesis
    using packet_pool_conservation [OF s] by (auto simp: MAX_POOL_SIZE_def)
qed

text \<open>
  C9. \<open>meshcore_packet_queue_get\<close> on the arrays refines the queue of entries: it takes,
  among the due entries, the first one of the smallest priority value and closes the gap;
  it returns NULL, leaving the queue as it was, only when every due entry has priority 255.
\<close>

theorem queue_get_refines_priority_queue:
  assumes "q_wf q" and "meshcore_packet_queue_get q now = (r, q')"
  shows "case r of
      None \<Rightarrow> q' = q \<and> (\<forall>e \<in> set (q_entries q). e_due now e \<longrightarrow> e_pri e = 0xFF)
    | Some x \<Rightarrow> q_wf q' \<and> q_size q' = q_size q \<and>
        (\<exists>i. selected now (q_entries q) i \<and> x = e_ref (q_entries q ! i) \<and>
             q_entries q' = remove_nth i (q_entries q))"
  using array_queue.get_none [OF assms(1)] array_queue.get_some [OF assms(1)] assms(2)
  by (cases r) auto

definition example_queue :: packet_queue where
  "example_queue = snd (meshcore_packet_queue_add (snd (meshcore_packet_queue_add
     (snd (meshcore_packet_queue_add (q_fresh 3) 7 5 10)) 8 1 90)) 9 2 20)"

theorem queue_get_refines_priority_queue_witness:
  "q_wf example_queue \<and> fst (meshcore_packet_queue_get example_queue 30) = Some 9 \<and>
   (\<exists>i. selected 30 (q_entries example_queue) i \<and> 9 = e_ref (q_entries example_queue ! i))"
proof -
  obtain r q' where g: "meshcore_packet_queue_get example_queue 30 = (r, q')" by force
  have w: "q_wf example_queue" by code_simp
  have "fst (meshcore_packet_queue_get example_queue 30) = Some 9" by code_simp
  then show ?thesis using queue_get_refines_priority_queue [OF w g] w g by auto
qed

text \<open>
  The wake-up time of a queue: none for an empty queue, \<open>now\<close> when an entry is already
  due, and otherwise the schedule time of an entry that lies nearest after \<open>now\<close> on the
  32-bit millisecond circle.
\<close>

theorem queue_next_scheduled_correct:
  "case meshcore_packet_queue_next_scheduled_get q now of
     None \<Rightarrow> q_num q = 0
   | Some t \<Rightarrow> let ts = (!) (q_schedule_table q) ` {0..<q_num q} in
       if (\<exists>x \<in> ts. \<not> after x now) then t = now
       else t \<in> ts \<and> {x \<in> ts. sint (x - now) < sint (t - now)} = {}"
proof -
  let ?ts = "(!) (q_schedule_table q) ` {0..<q_num q}"
  have ts: "?ts = (!) (q_schedule_table q) ` set [0..<q_num q]" by simp
  show ?thesis
    using next_scheduled_loop_spec [of None now ?ts q "[0..<q_num q]", OF _ ts]
    unfolding meshcore_packet_queue_next_scheduled_get_def Let_def
    by (cases "next_scheduled_loop q now [0..<q_num q] None"; cases "\<exists>x \<in> ?ts. \<not> after x now")
       (auto simp: not_less)
qed

end
