(* ===== verification/Tables.thy ===== *)
theory Tables
  imports Packet
begin

text \<open>
  \<open>src/support/meshcore_tables.c\<close>: the duplicate filter, a ring of the last 160 packet hashes
  with counters of the duplicates seen on direct and on flood routes.
\<close>

section \<open>The tables\<close>

abbreviation (input) "MAX_PACKET_HASHES \<equiv> 160 :: nat"

record tables =
  tb_hashes :: bytes
  tb_next_idx :: nat
  tb_direct_dups :: u32
  tb_flood_dups :: u32

definition meshcore_tables_init :: tables where
  "meshcore_tables_init = \<lparr> tb_hashes = zeros (160 * 8), tb_next_idx = 0,
     tb_direct_dups = 0, tb_flood_dups = 0 \<rparr>"

definition meshcore_tables_count_dup :: "tables \<Rightarrow> packet \<Rightarrow> tables" where
  "meshcore_tables_count_dup t p =
     (if meshcore_packet_is_route_direct p then t \<lparr> tb_direct_dups := tb_direct_dups t + 1 \<rparr>
      else t \<lparr> tb_flood_dups := tb_flood_dups t + 1 \<rparr>)"

text \<open>The loop over the slots: the first slot from \<open>i\<close> on that holds \<open>hash\<close>.\<close>

definition find_slot :: "tables \<Rightarrow> bytes \<Rightarrow> nat option" where
  "find_slot t hash = List.find (\<lambda>i. hash = mem_read (i * 8) 8 (tb_hashes t)) [0..<160]"

definition meshcore_tables_has_seen_hash :: "crypto \<Rightarrow> packet \<Rightarrow> tables \<Rightarrow> bool \<times> tables" where
  "meshcore_tables_has_seen_hash c p t =
     (let hash = meshcore_packet_calculate_hash c p in
      case find_slot t hash of
        Some i \<Rightarrow> (True, meshcore_tables_count_dup t p)
      | None \<Rightarrow>
          (False, t \<lparr> tb_hashes := mem_write (tb_next_idx t * 8) hash (tb_hashes t),
                      tb_next_idx := (tb_next_idx t + 1) mod 160 \<rparr>))"

definition meshcore_tables_has_seen :: "crypto \<Rightarrow> packet \<Rightarrow> tables \<Rightarrow> bool \<times> tables" where
  "meshcore_tables_has_seen c p t = meshcore_tables_has_seen_hash c p t"

definition meshcore_tables_clear :: "crypto \<Rightarrow> packet \<Rightarrow> tables \<Rightarrow> tables" where
  "meshcore_tables_clear c p t =
     (let hash = meshcore_packet_calculate_hash c p in
      case find_slot t hash of
        Some i \<Rightarrow> t \<lparr> tb_hashes := mem_write (i * 8) (zeros 8) (tb_hashes t) \<rparr>
      | None \<Rightarrow> t)"

definition meshcore_tables_get_num_direct_dups :: "tables \<Rightarrow> u32" where
  "meshcore_tables_get_num_direct_dups t = tb_direct_dups t"

definition meshcore_tables_get_num_flood_dups :: "tables \<Rightarrow> u32" where
  "meshcore_tables_get_num_flood_dups t = tb_flood_dups t"

definition meshcore_tables_reset_stats :: "tables \<Rightarrow> tables" where
  "meshcore_tables_reset_stats t = t \<lparr> tb_direct_dups := 0, tb_flood_dups := 0 \<rparr>"

section \<open>Slots\<close>

definition tb_slot :: "tables \<Rightarrow> nat \<Rightarrow> bytes" where
  "tb_slot t i = mem_read (i * 8) 8 (tb_hashes t)"

definition tb_slots :: "tables \<Rightarrow> bytes list" where
  "tb_slots t = map (tb_slot t) [0..<160]"

definition tables_wf :: "tables \<Rightarrow> bool" where
  "tables_wf t \<longleftrightarrow> length (tb_hashes t) = 1280 \<and> tb_next_idx t < 160"

text \<open>Every hash other than the all-zero one is stored at most once.\<close>

definition tables_inv :: "tables \<Rightarrow> bool" where
  "tables_inv t \<longleftrightarrow> tables_wf t \<and>
     (\<forall>i < 160. \<forall>j < 160. tb_slot t i = tb_slot t j \<longrightarrow> i \<noteq> j \<longrightarrow> tb_slot t i = zeros 8)"

lemma length_tb_slots [simp]: "length (tb_slots t) = 160"
  by (simp add: tb_slots_def)

lemma nth_tb_slots [simp]: "i < 160 \<Longrightarrow> tb_slots t ! i = tb_slot t i"
  by (simp add: tb_slots_def)

lemma find_slot_Some:
  "find_slot t h = Some i \<Longrightarrow> i < 160 \<and> tb_slot t i = h"
  by (auto simp: find_slot_def find_Some_iff tb_slot_def)

lemma find_slot_None_iff: "find_slot t h = None \<longleftrightarrow> h \<notin> set (tb_slots t)"
  by (auto simp: find_slot_def find_None_iff tb_slots_def tb_slot_def)

lemma slot_write:
  assumes "length (tb_hashes t) = 1280" and "k < 160" and "i < 160" and "length h = 8"
  shows "tb_slot (t \<lparr> tb_hashes := mem_write (k * 8) h (tb_hashes t) \<rparr>) i
       = (if i = k then h else tb_slot t i)"
proof -
  consider "i = k" | "i * 8 + 8 \<le> k * 8" | "k * 8 + length h \<le> i * 8"
    using assms(4) by (cases i k rule: linorder_cases) auto
  then show ?thesis
    using assms by cases (simp_all add: tb_slot_def mem_read_mem_write_before mem_read_mem_write_after)
qed

lemma tb_slot_upd [simp]:
  "tb_slot (t \<lparr> tb_next_idx := n \<rparr>) i = tb_slot t i"
  "tb_slot (t \<lparr> tb_direct_dups := d \<rparr>) i = tb_slot t i"
  "tb_slot (t \<lparr> tb_flood_dups := d \<rparr>) i = tb_slot t i"
  by (simp_all add: tb_slot_def)

lemma count_dup_frame [simp]:
  "tb_slot (meshcore_tables_count_dup t p) i = tb_slot t i"
  "tb_slots (meshcore_tables_count_dup t p) = tb_slots t"
  "tb_next_idx (meshcore_tables_count_dup t p) = tb_next_idx t"
  "tables_wf (meshcore_tables_count_dup t p) = tables_wf t"
  "tables_inv (meshcore_tables_count_dup t p) = tables_inv t"
  by (simp_all add: meshcore_tables_count_dup_def tb_slots_def tables_wf_def tables_inv_def)

text \<open>The table after a call on a packet that was not in it.\<close>

definition tables_record :: "bytes \<Rightarrow> tables \<Rightarrow> tables" where
  "tables_record h t = t \<lparr> tb_hashes := mem_write (tb_next_idx t * 8) h (tb_hashes t),
     tb_next_idx := (tb_next_idx t + 1) mod 160 \<rparr>"

lemma tables_record_slots:
  assumes "tables_wf t" and "length h = 8"
  shows "tables_wf (tables_record h t)" "tb_slots (tables_record h t) = (tb_slots t)[tb_next_idx t := h]"
    "tb_next_idx (tables_record h t) = (tb_next_idx t + 1) mod 160"
proof -
  show "tables_wf (tables_record h t)" "tb_next_idx (tables_record h t) = (tb_next_idx t + 1) mod 160"
    using assms by (simp_all add: tables_wf_def tables_record_def)
  show "tb_slots (tables_record h t) = (tb_slots t)[tb_next_idx t := h]"
    using assms slot_write [of t "tb_next_idx t" _ h]
    by (intro nth_equalityI) (auto simp: tables_wf_def tables_record_def nth_list_update)
qed

lemma has_seen_eq:
  "meshcore_tables_has_seen c p t =
     (let h = meshcore_packet_calculate_hash c p in
      if h \<in> set (tb_slots t) then (True, meshcore_tables_count_dup t p)
      else (False, tables_record h t))"
  by (auto simp: meshcore_tables_has_seen_def meshcore_tables_has_seen_hash_def Let_def
      tables_record_def find_slot_None_iff split: option.split dest: find_slot_Some)
     (metis find_slot_None_iff option.distinct(1))

interpretation hash_ring: ring_slots tables_wf tb_slots tb_next_idx
  "\<lambda>p t. snd (meshcore_tables_has_seen c p t)" 160
  by unfold_locales
     (auto simp: has_seen_eq Let_def tables_record_slots, auto simp: tables_wf_def)

lemma slot_in_slots: "i < 160 \<Longrightarrow> tb_slot t i \<in> set (tb_slots t)"
  by (simp add: tb_slots_def)

lemma tables_inv_write:
  assumes "tables_inv t" and "k < 160" and "length h = 8" and "h = zeros 8 \<or> h \<notin> set (tb_slots t)"
  shows "tables_inv (t \<lparr> tb_hashes := mem_write (k * 8) h (tb_hashes t) \<rparr>)"
proof -
  let ?t = "t \<lparr> tb_hashes := mem_write (k * 8) h (tb_hashes t) \<rparr>"
  have wf: "tables_wf t" and len: "length (tb_hashes t) = 1280"
    using assms(1) by (simp_all add: tables_inv_def tables_wf_def)
  have sl: "tb_slot ?t i = (if i = k then h else tb_slot t i)" if "i < 160" for i
    using slot_write [OF len assms(2) that assms(3)] .
  have new: "h = zeros 8 \<or> tb_slot t i \<noteq> h" if "i < 160" for i
    using assms(4) slot_in_slots [OF that, of t] by auto
  have old: "tb_slot t i = tb_slot t j \<Longrightarrow> i \<noteq> j \<Longrightarrow> tb_slot t i = zeros 8"
    if "i < 160" "j < 160" for i j
    using assms(1) that unfolding tables_inv_def by blast
  have "tb_slot ?t i = zeros 8"
    if "i < 160" "j < 160" "tb_slot ?t i = tb_slot ?t j" "i \<noteq> j" for i j
    using that(4) old [OF that(1,2)] new [OF that(1)] new [OF that(2)] that(3)
    unfolding sl [OF that(1)] sl [OF that(2)]
    by (cases "i = k"; cases "j = k") auto
  moreover have "tables_wf ?t" using wf assms(2,3) by (simp add: tables_wf_def)
  ultimately show ?thesis unfolding tables_inv_def by blast
qed

lemma tables_inv_next: "n < 160 \<Longrightarrow> tables_inv t \<Longrightarrow> tables_inv (t \<lparr> tb_next_idx := n \<rparr>)"
  by (simp add: tables_inv_def tables_wf_def)

lemma has_seen_inv:
  assumes "tables_inv t"
  shows "tables_inv (snd (meshcore_tables_has_seen c p t))"
proof (cases "meshcore_packet_calculate_hash c p \<in> set (tb_slots t)")
  case True
  then show ?thesis using assms by (simp add: has_seen_eq)
next
  case False
  have "tb_next_idx t < 160" using assms by (simp add: tables_inv_def tables_wf_def)
  then show ?thesis
    using False tables_inv_write [OF assms, of "tb_next_idx t" "meshcore_packet_calculate_hash c p"]
    by (simp add: has_seen_eq Let_def tables_record_def tables_inv_next)
qed

lemma clear_inv:
  assumes "tables_inv t"
  shows "tables_inv (meshcore_tables_clear c p t)"
    and "meshcore_packet_calculate_hash c p \<noteq> zeros 8 \<Longrightarrow>
      meshcore_packet_calculate_hash c p \<notin> set (tb_slots (meshcore_tables_clear c p t))"
proof -
  let ?h = "meshcore_packet_calculate_hash c p"
  have len: "length (tb_hashes t) = 1280" using assms by (simp add: tables_inv_def tables_wf_def)
  show "tables_inv (meshcore_tables_clear c p t)"
    using assms tables_inv_write [OF assms, of _ "zeros 8"]
    by (simp add: meshcore_tables_clear_def Let_def find_slot_Some split: option.split)
  show "?h \<notin> set (tb_slots (meshcore_tables_clear c p t))" if nz: "?h \<noteq> zeros 8"
  proof (cases "find_slot t ?h")
    case None
    then show ?thesis
      using find_slot_None_iff [of t ?h] by (simp add: meshcore_tables_clear_def Let_def)
  next
    case (Some k)
    then have k: "k < 160" "tb_slot t k = ?h" using find_slot_Some by auto
    have "tb_slot (meshcore_tables_clear c p t) i \<noteq> ?h" if "i < 160" for i
      using that k nz assms Some slot_write [OF len k(1) that, of "zeros 8"]
      by (auto simp: meshcore_tables_clear_def Let_def tables_inv_def)
    then show ?thesis unfolding tb_slots_def by force
  qed
qed

lemma init_slots: "set (tb_slots meshcore_tables_init) = {zeros 8}"
  by (simp add: tb_slots_def tb_slot_def meshcore_tables_init_def mem_read_def zeros_def
      image_constant_conv)

section \<open>Properties\<close>

text \<open>
  C23. Duplicate suppression: a packet that \<open>meshcore_tables_has_seen\<close> reports as new is reported
  as seen by the next calls for it, for as long as fewer than 160 calls for any packets
  come in between; the table keeps its bounds throughout.
\<close>

theorem duplicate_retained:
  assumes "tables_wf t" and "meshcore_tables_has_seen c p t = (False, t')"
    and "length ps < 160"
  shows "let t'' = fold (\<lambda>q t. snd (meshcore_tables_has_seen c q t)) ps t' in
    tables_wf t'' \<and> fst (meshcore_tables_has_seen c p t'')"
proof -
  let ?h = "meshcore_packet_calculate_hash c p"
  have t': "t' = tables_record ?h t"
    using assms(2) by (auto simp: has_seen_eq Let_def split: if_splits)
  have k: "tb_next_idx t < 160" using assms(1) by (simp add: tables_wf_def)
  have wf: "tables_wf t'" and nxt: "tb_next_idx t' = (tb_next_idx t + 1) mod 160"
    and "tb_slots t' = (tb_slots t)[tb_next_idx t := ?h]"
    using tables_record_slots [OF assms(1), of ?h] t' by simp_all
  then have sl: "tb_slots t' ! tb_next_idx t = ?h" using k by simp
  show ?thesis
    using hash_ring.retained [OF wf k nxt sl assms(3), of c] hash_ring.fold_wf [OF wf, of c ps]
    by (simp add: has_seen_eq Let_def)
qed

theorem duplicate_retained_witness:
  "\<exists>t'. meshcore_tables_has_seen xor_crypto example_packet meshcore_tables_init = (False, t') \<and>
     fst (meshcore_tables_has_seen xor_crypto example_packet t')"
proof -
  have wf: "tables_wf meshcore_tables_init" by (simp add: tables_wf_def meshcore_tables_init_def)
  have "meshcore_packet_calculate_hash xor_crypto example_packet \<noteq> zeros 8" by code_simp
  then have "\<not> fst (meshcore_tables_has_seen xor_crypto example_packet meshcore_tables_init)"
    by (simp add: has_seen_eq Let_def init_slots)
  then obtain t' where r:
    "meshcore_tables_has_seen xor_crypto example_packet meshcore_tables_init = (False, t')"
    by (metis (full_types) prod.collapse)
  show ?thesis using duplicate_retained [OF wf r, of "[]"] r by auto
qed

text \<open>
  \<open>meshcore_tables_clear\<close> makes the filter forget a packet: in a table in which no hash
  is stored twice (which every operation preserves), the packet is reported as new after
  it was cleared, unless its hash is the all-zero value of an empty slot.
\<close>

theorem clear_forgets:
  assumes "tables_inv t" and "meshcore_packet_calculate_hash c p \<noteq> zeros 8"
  shows "\<not> fst (meshcore_tables_has_seen c p (meshcore_tables_clear c p t)) \<and>
    tables_inv (meshcore_tables_clear c p t) \<and> tables_inv (snd (meshcore_tables_has_seen c p t))"
  using clear_inv [OF assms(1)] has_seen_inv [OF assms(1)] assms(2)
  by (simp add: has_seen_eq Let_def)

theorem clear_forgets_witness:
  "\<not> fst (meshcore_tables_has_seen xor_crypto example_packet
       (meshcore_tables_clear xor_crypto example_packet meshcore_tables_init))"
proof -
  have "tables_inv meshcore_tables_init"
    by (auto simp: tables_inv_def tables_wf_def meshcore_tables_init_def tb_slot_def zeros_def
        mem_read_def)
  moreover have "meshcore_packet_calculate_hash xor_crypto example_packet \<noteq> zeros 8" by code_simp
  ultimately show ?thesis using clear_forgets by blast
qed

text \<open>
  An empty slot holds eight zero bytes, and a packet whose hash cannot be computed (the
  hash primitive fails, or its length field exceeds 184) gets the hash zero: while the
  table has an empty slot, every such packet is reported as a duplicate on its first call.
\<close>

theorem unhashable_packet_is_duplicate:
  assumes "184 < unat (pk_payload_len p) \<or> (\<forall>msg. crypto_sha256 c 8 msg = None)"
    and "i < 160" and "tb_slot t i = zeros 8"
  shows "meshcore_tables_has_seen c p t = (True, meshcore_tables_count_dup t p)"
proof -
  have "meshcore_packet_calculate_hash c p = zeros 8"
    using assms(1)
    by (auto simp: meshcore_packet_calculate_hash_def meshcore_utils_sha256_def Let_def)
  moreover have "zeros 8 \<in> set (tb_slots t)"
    using assms(2,3) by (auto simp: tb_slots_def intro!: image_eqI [of _ _ i])
  ultimately show ?thesis by (simp add: has_seen_eq)
qed

theorem unhashable_packet_is_duplicate_witness:
  "fst (meshcore_tables_has_seen (xor_crypto \<lparr> crypto_sha256 := \<lambda>n m. None \<rparr>) example_packet
     meshcore_tables_init)"
  using unhashable_packet_is_duplicate
    [of example_packet "xor_crypto \<lparr> crypto_sha256 := \<lambda>n m. None \<rparr>" 0 meshcore_tables_init]
  by (simp add: tb_slot_def meshcore_tables_init_def mem_read_def zeros_def)

end
