(* ===== verification/Float_Model.thy ===== *)
theory Float_Model
  imports Mesh_Prelude "HOL-Library.Log_Nat"
begin

text \<open>
  The C floating-point arithmetic the sources use.  A finite float is the rational number it
  denotes; every operation is the exact one followed by rounding to the precision of its
  type, ties to even (\<open>f32\<close>: 24 significant bits, \<open>f64\<close>: 53).  The exponent range is not
  bounded, so overflow to infinity and subnormal results are outside the model.  A conversion
  to an integer type truncates toward zero.
\<close>

definition pow2 :: "int \<Rightarrow> rat" where
  "pow2 e = (if 0 \<le> e then 2 ^ nat e else 1 / 2 ^ nat (- e))"

definition round_even :: "rat \<Rightarrow> int" where
  "round_even q =
     (let f = \<lfloor>q\<rfloor>; r = q - of_int f in
      if r < 1 / 2 then f else if r > 1 / 2 then f + 1 else if even f then f else f + 1)"

text \<open>\<open>fl p x\<close>: \<open>x\<close> rounded to \<open>p\<close> significant bits.\<close>

definition fl :: "nat \<Rightarrow> rat \<Rightarrow> rat" where
  "fl p x =
     (if x = 0 then 0
      else
        let (n, d) = quotient_of \<bar>x\<bar>;
            e0 = bitlen n - bitlen d - int p;
            e = (if \<bar>x\<bar> / pow2 e0 \<ge> 2 ^ p then e0 + 1 else e0)
        in sgn x * of_int (round_even (\<bar>x\<bar> / pow2 e)) * pow2 e)"

abbreviation "f32 \<equiv> fl 24"
abbreviation "f64 \<equiv> fl 53"

text \<open>\<open>(T)x\<close> for an integer type \<open>T\<close> in whose range the result lies.\<close>

definition trunc :: "rat \<Rightarrow> int" where
  "trunc x = (if 0 \<le> x then \<lfloor>x\<rfloor> else \<lceil>x\<rceil>)"

section \<open>Facts\<close>

lemma pow2_pos [simp]: "0 < pow2 e"
  by (simp add: pow2_def)

lemma pow2_nonzero [simp]: "pow2 e \<noteq> 0"
  by (simp add: pow2_def)

lemma round_even_nonneg: "0 \<le> q \<Longrightarrow> 0 \<le> round_even q"
  by (simp add: round_even_def Let_def)

lemma round_even_of_int [simp]: "round_even (of_int n) = n"
  by (simp add: round_even_def)

lemma fl_0 [simp]: "fl p 0 = 0"
  by (simp add: fl_def)

lemma fl_nonneg: "0 \<le> x \<Longrightarrow> 0 \<le> fl p x"
  by (auto simp: fl_def Let_def sgn_if zero_le_mult_iff less_imp_le round_even_nonneg split: prod.split)

lemma trunc_nonneg: "0 \<le> x \<Longrightarrow> 0 \<le> trunc x"
  by (simp add: trunc_def)

lemma trunc_of_int [simp]: "trunc (of_int n) = n"
  by (simp add: trunc_def)

lemma pow2_int: "0 \<le> e \<Longrightarrow> pow2 e = of_int (2 ^ nat e)"
  by (simp add: pow2_def)

lemma pow2_inverse: "e \<le> 0 \<Longrightarrow> x / pow2 e = x * 2 ^ nat (- e)"
  by (simp add: pow2_def)

text \<open>Integers of at most \<open>p\<close> bits are represented exactly.\<close>

lemma fl_of_int:
  assumes "\<bar>n\<bar> < 2 ^ p"
  shows "fl p (of_int n) = of_int n"
proof (cases "n = 0")
  case False
  let ?m = "\<bar>n\<bar>"
  let ?e0 = "bitlen ?m - bitlen 1 - int p"
  let ?e = "if \<bar>of_int n :: rat\<bar> / pow2 ?e0 \<ge> 2 ^ p then ?e0 + 1 else ?e0"
  have b1: "bitlen 1 = 1" by code_simp
  have "bitlen ?m \<le> int p"
    using assms False bitlen_le_iff_power by force
  then have "?e \<le> 0" using b1 by simp
  then have q: "\<bar>of_int n :: rat\<bar> / pow2 ?e = of_int (?m * 2 ^ nat (- ?e))"
    by (simp only: pow2_inverse) simp
  have quot: "quotient_of \<bar>of_int n :: rat\<bar> = (?m, 1)"
  proof -
    have "quotient_of (of_int k) = (k, 1)" for k
      by (simp add: of_int_rat quotient_of_Fract normalize_def)
    then show ?thesis by (simp flip: of_int_abs)
  qed
  have "fl p (of_int n) = sgn (of_int n) * of_int (round_even (\<bar>of_int n :: rat\<bar> / pow2 ?e)) * pow2 ?e"
    using False unfolding fl_def quot Let_def by simp
  also have "\<dots> = sgn (of_int n) * (\<bar>of_int n :: rat\<bar> / pow2 ?e) * pow2 ?e"
    unfolding q by (simp only: round_even_of_int)
  also have "\<dots> = of_int n"
    using pow2_pos [of ?e] by (simp add: sgn_mult_abs)
  finally show ?thesis .
qed simp

end
