(* ===== verification/Advert_Data.thy ===== *)
theory Advert_Data
  imports Float_Model
begin

text \<open>
  \<open>src/support/meshcore_advert_data.c\<close>: the application data of an advert (node type,
  location, two feature words, name) as built by the sender and parsed by the receiver.
  A C string is the list of its bytes; it ends before the first zero byte or at the end
  of the list.
\<close>

section \<open>Building\<close>

abbreviation (input) "ADV_LATLON_MASK \<equiv> 0x10 :: byte"
abbreviation (input) "ADV_FEAT1_MASK \<equiv> 0x20 :: byte"
abbreviation (input) "ADV_FEAT2_MASK \<equiv> 0x40 :: byte"
abbreviation (input) "ADV_NAME_MASK \<equiv> 0x80 :: byte"
abbreviation (input) "MAX_ADVERT_DATA_LEN \<equiv> 32 :: nat"

record advert_data_builder =
  ab_type :: byte
  ab_has_loc :: bool
  ab_name :: "bytes option"
  ab_lat :: u32
  ab_lon :: u32
  ab_feat1 :: u16
  ab_feat2 :: u16

definition meshcore_advert_data_scale_coord :: "rat \<Rightarrow> u32" where
  "meshcore_advert_data_scale_coord v = of_int (trunc (f64 (v * 1000000)))"

definition meshcore_advert_data_builder_init :: "byte \<Rightarrow> advert_data_builder" where
  "meshcore_advert_data_builder_init adv_type =
     \<lparr> ab_type = adv_type, ab_has_loc = False, ab_name = None, ab_lat = 0, ab_lon = 0,
       ab_feat1 = 0, ab_feat2 = 0 \<rparr>"

definition meshcore_advert_data_builder_init_with_name ::
  "byte \<Rightarrow> bytes option \<Rightarrow> advert_data_builder" where
  "meshcore_advert_data_builder_init_with_name adv_type name =
     (meshcore_advert_data_builder_init adv_type) \<lparr> ab_name := name \<rparr>"

definition meshcore_advert_data_builder_init_with_name_lat_lon ::
  "byte \<Rightarrow> bytes option \<Rightarrow> rat \<Rightarrow> rat \<Rightarrow> advert_data_builder" where
  "meshcore_advert_data_builder_init_with_name_lat_lon adv_type name lat lon =
     (meshcore_advert_data_builder_init_with_name adv_type name)
       \<lparr> ab_has_loc := True,
         ab_lat := meshcore_advert_data_scale_coord lat,
         ab_lon := meshcore_advert_data_scale_coord lon \<rparr>"

definition meshcore_advert_data_builder_set_feat1 ::
  "advert_data_builder \<Rightarrow> u16 \<Rightarrow> advert_data_builder" where
  "meshcore_advert_data_builder_set_feat1 b feat1 = b \<lparr> ab_feat1 := feat1 \<rparr>"

definition meshcore_advert_data_builder_set_feat2 ::
  "advert_data_builder \<Rightarrow> u16 \<Rightarrow> advert_data_builder" where
  "meshcore_advert_data_builder_set_feat2 b feat2 = b \<lparr> ab_feat2 := feat2 \<rparr>"

text \<open>\<open>app_data[0] |= mask\<close>\<close>

definition or_first :: "byte \<Rightarrow> bytes \<Rightarrow> bytes" where
  "or_first m d = mem_write 0 [byte_at d 0 OR m] d"

primrec copy_name :: "bytes \<Rightarrow> nat \<Rightarrow> bytes \<Rightarrow> nat \<times> bytes" where
  "copy_name [] i d = (i, d)"
| "copy_name (ch # sp) i d =
     (if ch = 0 \<or> \<not> i < 32 then (i, d) else copy_name sp (i + 1) (mem_write i [ch] d))"

definition encode_name :: "advert_data_builder \<Rightarrow> nat \<times> bytes \<Rightarrow> nat \<times> bytes" where
  "encode_name b = (\<lambda>(i, d). case ab_name b of
       None \<Rightarrow> (i, d)
     | Some name \<Rightarrow> if byte_at name 0 \<noteq> 0 then copy_name name i (or_first ADV_NAME_MASK d)
                    else (i, d))"

definition meshcore_advert_data_builder_encode_to ::
  "advert_data_builder \<Rightarrow> bytes \<Rightarrow> byte \<times> bytes" where
  "meshcore_advert_data_builder_encode_to b d =
     (let i = 1;
          d = mem_write 0 [ab_type b] d;
          (i, d) = (if ab_has_loc b then
              (i + 4 + 4, mem_write (i + 4) (le_bytes 4 (ab_lon b))
                 (mem_write i (le_bytes 4 (ab_lat b)) (or_first ADV_LATLON_MASK d)))
            else (i, d));
          (i, d) = (if ab_feat1 b \<noteq> 0 then
              (i + 2, mem_write i (le_bytes 2 (ab_feat1 b)) (or_first ADV_FEAT1_MASK d))
            else (i, d));
          (i, d) = (if ab_feat2 b \<noteq> 0 then
              (i + 2, mem_write i (le_bytes 2 (ab_feat2 b)) (or_first ADV_FEAT2_MASK d))
            else (i, d));
          (i, d) = encode_name b (i, d)
      in (of_nat i, d))"

section \<open>Parsing\<close>

record advert_data_parser =
  ap_flags :: byte
  ap_valid :: bool
  ap_name :: bytes
  ap_lat :: u32
  ap_lon :: u32
  ap_feat1 :: u16
  ap_feat2 :: u16

text \<open>
  The parser is filled in step by step; \<open>None\<close> marks the early return of a truncated
  input, which keeps the fields read so far and leaves the parser invalid.
\<close>

definition parse_latlon ::
  "bytes \<Rightarrow> nat \<Rightarrow> advert_data_parser \<times> nat \<Rightarrow> advert_data_parser \<times> nat option" where
  "parse_latlon app_data len = (\<lambda>(ps, i).
     if ap_flags ps AND ADV_LATLON_MASK \<noteq> 0 then
       if len < i + 4 + 4 then (ps, None)
       else (ps \<lparr> ap_lat := le_word (mem_read i 4 app_data),
                  ap_lon := le_word (mem_read (i + 4) 4 app_data) \<rparr>, Some (i + 4 + 4))
     else (ps, Some i))"

definition parse_feat1 ::
  "bytes \<Rightarrow> nat \<Rightarrow> advert_data_parser \<times> nat \<Rightarrow> advert_data_parser \<times> nat option" where
  "parse_feat1 app_data len = (\<lambda>(ps, i).
     if ap_flags ps AND ADV_FEAT1_MASK \<noteq> 0 then
       if len < i + 2 then (ps, None)
       else (ps \<lparr> ap_feat1 := le_word (mem_read i 2 app_data) \<rparr>, Some (i + 2))
     else (ps, Some i))"

definition parse_feat2 ::
  "bytes \<Rightarrow> nat \<Rightarrow> advert_data_parser \<times> nat \<Rightarrow> advert_data_parser \<times> nat option" where
  "parse_feat2 app_data len = (\<lambda>(ps, i).
     if ap_flags ps AND ADV_FEAT2_MASK \<noteq> 0 then
       if len < i + 2 then (ps, None)
       else (ps \<lparr> ap_feat2 := le_word (mem_read i 2 app_data) \<rparr>, Some (i + 2))
     else (ps, Some i))"

definition parse_name ::
  "bytes \<Rightarrow> nat \<Rightarrow> advert_data_parser \<times> nat \<Rightarrow> advert_data_parser \<times> nat option" where
  "parse_name app_data len = (\<lambda>(ps, i).
     if len < i then (ps, None)
     else if ap_flags ps AND ADV_NAME_MASK \<noteq> 0 then
       let nlen = len - i in
       if nlen \<ge> length (ap_name ps) then (ps, None)
       else (ps \<lparr> ap_name := mem_write nlen [0]
                    (if nlen > 0 then mem_write 0 (mem_read i nlen app_data) (ap_name ps)
                     else ap_name ps) \<rparr>, Some i)
     else (ps, Some i))"

definition and_then ::
  "advert_data_parser \<times> nat option \<Rightarrow>
   (advert_data_parser \<times> nat \<Rightarrow> advert_data_parser \<times> nat option) \<Rightarrow>
   advert_data_parser \<times> nat option" where
  "and_then r f = (case r of (ps, None) \<Rightarrow> (ps, None) | (ps, Some i) \<Rightarrow> f (ps, i))"

definition meshcore_advert_data_parser_init ::
  "advert_data_parser \<Rightarrow> bytes \<Rightarrow> byte \<Rightarrow> advert_data_parser" where
  "meshcore_advert_data_parser_init ps app_data app_data_len =
     (let ps = ps \<lparr> ap_name := mem_write 0 [0] (ap_name ps), ap_lat := 0, ap_lon := 0,
                    ap_flags := 0, ap_valid := False, ap_feat1 := 0, ap_feat2 := 0 \<rparr>;
          len = unat app_data_len in
      if app_data_len = 0 then ps
      else
        let ps = ps \<lparr> ap_flags := byte_at app_data 0 \<rparr> in
        case and_then (and_then (and_then (parse_latlon app_data len (ps, 1))
               (parse_feat1 app_data len)) (parse_feat2 app_data len)) (parse_name app_data len) of
          (ps, None) \<Rightarrow> ps
        | (ps, Some i) \<Rightarrow> ps \<lparr> ap_valid := True \<rparr>)"

definition meshcore_advert_data_parser_is_valid :: "advert_data_parser \<Rightarrow> bool" where
  "meshcore_advert_data_parser_is_valid ps = ap_valid ps"

definition meshcore_advert_data_parser_get_type :: "advert_data_parser \<Rightarrow> byte" where
  "meshcore_advert_data_parser_get_type ps = ap_flags ps AND 0x0F"

definition meshcore_advert_data_parser_get_feat1 :: "advert_data_parser \<Rightarrow> u16" where
  "meshcore_advert_data_parser_get_feat1 ps = ap_feat1 ps"

definition meshcore_advert_data_parser_get_feat2 :: "advert_data_parser \<Rightarrow> u16" where
  "meshcore_advert_data_parser_get_feat2 ps = ap_feat2 ps"

definition meshcore_advert_data_parser_has_name :: "advert_data_parser \<Rightarrow> bool" where
  "meshcore_advert_data_parser_has_name ps \<longleftrightarrow> byte_at (ap_name ps) 0 \<noteq> 0"

text \<open>The C string at the start of a character array.\<close>

definition c_string :: "bytes \<Rightarrow> bytes" where
  "c_string d = takeWhile (\<lambda>b. b \<noteq> 0) d"

definition meshcore_advert_data_parser_get_name :: "advert_data_parser \<Rightarrow> bytes" where
  "meshcore_advert_data_parser_get_name ps = c_string (ap_name ps)"

definition meshcore_advert_data_parser_has_lat_lon :: "advert_data_parser \<Rightarrow> bool" where
  "meshcore_advert_data_parser_has_lat_lon ps \<longleftrightarrow> ap_flags ps AND ADV_LATLON_MASK \<noteq> 0"

definition meshcore_advert_data_parser_get_int_lat :: "advert_data_parser \<Rightarrow> int" where
  "meshcore_advert_data_parser_get_int_lat ps = sint (ap_lat ps)"

definition meshcore_advert_data_parser_get_int_lon :: "advert_data_parser \<Rightarrow> int" where
  "meshcore_advert_data_parser_get_int_lon ps = sint (ap_lon ps)"

definition meshcore_advert_data_parser_get_lat :: "advert_data_parser \<Rightarrow> rat" where
  "meshcore_advert_data_parser_get_lat ps = f64 (of_int (sint (ap_lat ps)) / 1000000)"

definition meshcore_advert_data_parser_get_lon :: "advert_data_parser \<Rightarrow> rat" where
  "meshcore_advert_data_parser_get_lon ps = f64 (of_int (sint (ap_lon ps)) / 1000000)"

section \<open>The image of a builder\<close>

definition ab_cname :: "advert_data_builder \<Rightarrow> bytes" where
  "ab_cname b = (case ab_name b of None \<Rightarrow> [] | Some name \<Rightarrow> c_string name)"

definition adv_flags :: "advert_data_builder \<Rightarrow> byte" where
  "adv_flags b = (((ab_type b OR (if ab_has_loc b then ADV_LATLON_MASK else 0)) OR
     (if ab_feat1 b \<noteq> 0 then ADV_FEAT1_MASK else 0)) OR
     (if ab_feat2 b \<noteq> 0 then ADV_FEAT2_MASK else 0)) OR (if ab_cname b \<noteq> [] then ADV_NAME_MASK else 0)"

definition adv_fields :: "advert_data_builder \<Rightarrow> bytes" where
  "adv_fields b =
     (if ab_has_loc b then le_bytes 4 (ab_lat b) @ le_bytes 4 (ab_lon b) else []) @
     (if ab_feat1 b \<noteq> 0 then le_bytes 2 (ab_feat1 b) else []) @
     (if ab_feat2 b \<noteq> 0 then le_bytes 2 (ab_feat2 b) else [])"

definition adv_name :: "advert_data_builder \<Rightarrow> bytes" where
  "adv_name b = take (31 - length (adv_fields b)) (ab_cname b)"

definition adv_image :: "advert_data_builder \<Rightarrow> bytes" where
  "adv_image b = adv_flags b # adv_fields b @ adv_name b"

lemma length_adv_fields: "length (adv_fields b) \<le> 12"
  by (simp add: adv_fields_def)

lemma length_adv_image: "1 \<le> length (adv_image b)" "length (adv_image b) \<le> 32"
  using length_adv_fields [of b] by (auto simp: adv_image_def adv_name_def)

lemma or_first_mem_write: "or_first m (mem_write 0 (x # xs) d) = mem_write 0 ((x OR m) # xs) d"
  by (simp add: or_first_def mem_write_def byte_at_def)

lemma mem_write_snoc:
  "length a = n \<Longrightarrow> mem_write n b (mem_write 0 a d) = mem_write 0 (a @ b) d"
  using mem_write_mem_write_append [of 0 d a b] by simp

lemma copy_name_spec:
  "length a = i \<Longrightarrow> i \<le> 32 \<Longrightarrow>
   copy_name name i (mem_write 0 a d)
     = (i + length (take (32 - i) (c_string name)), mem_write 0 (a @ take (32 - i) (c_string name)) d)"
proof (induction name arbitrary: i a)
  case (Cons ch sp)
  show ?case
  proof (cases "ch = 0 \<or> \<not> i < 32")
    case False
    then have "32 - i = Suc (32 - Suc i)" by arith
    then show ?thesis
      using False Cons.prems Cons.IH [of "a @ [ch]" "i + 1"]
      by (simp add: mem_write_snoc c_string_def)
  qed (use Cons.prems in \<open>auto simp: c_string_def\<close>)
qed (simp add: c_string_def)

lemma c_string_Nil_iff: "c_string name = [] \<longleftrightarrow> byte_at name 0 = 0"
  by (cases name) (auto simp: c_string_def byte_at_def)

lemma encode_image:
  "meshcore_advert_data_builder_encode_to b d
     = (of_nat (length (adv_image b)), mem_write 0 (adv_image b) d)"
proof -
  have nm: "encode_name b (i, mem_write 0 (x # a) d)
      = (i + length (take (32 - i) (ab_cname b)),
         mem_write 0 ((if ab_cname b \<noteq> [] then x OR ADV_NAME_MASK else x) # a @ take (32 - i) (ab_cname b)) d)"
    if "length a + 1 = i" "i \<le> 32" for i x a
    using that copy_name_spec [of "(x OR ADV_NAME_MASK) # a" i _ d]
    by (auto simp: encode_name_def or_first_mem_write ab_cname_def c_string_Nil_iff split: option.split)
  show ?thesis
    by (cases "ab_has_loc b"; cases "ab_feat1 b \<noteq> 0"; cases "ab_feat2 b \<noteq> 0")
       (simp_all add: meshcore_advert_data_builder_encode_to_def Let_def or_first_mem_write mem_write_snoc nm
         adv_image_def adv_name_def adv_fields_def adv_flags_def)
qed

section \<open>Parsing an image\<close>

lemma parse_latlon_image:
  assumes "length a = i" and "ap_flags ps AND ADV_LATLON_MASK \<noteq> 0 \<longleftrightarrow> h"
    and "f = (if h then le_bytes 4 lat @ le_bytes 4 lon else [])" and "i + length f \<le> len"
  shows "parse_latlon (a @ f @ r) len (ps, i)
       = (if h then ps \<lparr> ap_lat := lat, ap_lon := lon \<rparr> else ps, Some (i + length f))"
proof -
  have "mem_read i 4 (a @ (le_bytes 4 lat @ le_bytes 4 lon) @ r) = le_bytes 4 lat"
    "mem_read (i + 4) 4 ((a @ le_bytes 4 lat) @ le_bytes 4 lon @ r) = le_bytes 4 lon"
    using assms(1) by (auto simp: mem_read_def)
  then show ?thesis using assms(2-4) by (auto simp: parse_latlon_def)
qed

lemma parse_feat1_image:
  assumes "length a = i" and "ap_flags ps AND ADV_FEAT1_MASK \<noteq> 0 \<longleftrightarrow> h"
    and "f = (if h then le_bytes 2 v else [])" and "i + length f \<le> len"
  shows "parse_feat1 (a @ f @ r) len (ps, i)
       = (if h then ps \<lparr> ap_feat1 := v \<rparr> else ps, Some (i + length f))"
  using assms by (auto simp: parse_feat1_def mem_read_def)

lemma parse_feat2_image:
  assumes "length a = i" and "ap_flags ps AND ADV_FEAT2_MASK \<noteq> 0 \<longleftrightarrow> h"
    and "f = (if h then le_bytes 2 v else [])" and "i + length f \<le> len"
  shows "parse_feat2 (a @ f @ r) len (ps, i)
       = (if h then ps \<lparr> ap_feat2 := v \<rparr> else ps, Some (i + length f))"
  using assms by (auto simp: parse_feat2_def mem_read_def)

lemma parse_name_image:
  assumes "length a = i" and "ap_flags ps AND ADV_NAME_MASK \<noteq> 0 \<longleftrightarrow> nm \<noteq> []"
    and "length nm < length (ap_name ps)" and "len = i + length nm"
  shows "parse_name (a @ nm @ r) len (ps, i)
       = (if nm \<noteq> [] then ps \<lparr> ap_name := mem_write 0 (nm @ [0]) (ap_name ps) \<rparr> else ps, Some i)"
proof -
  have "mem_read i (length nm) (a @ nm @ r) = nm" using assms(1) by (auto simp: mem_read_def)
  then show ?thesis
    using assms(2-4) by (auto simp: parse_name_def mem_write_snoc)
qed

lemma flag_bit:
  "(x :: byte) AND ADV_LATLON_MASK \<noteq> 0 \<longleftrightarrow> bit x 4" "x AND ADV_FEAT1_MASK \<noteq> 0 \<longleftrightarrow> bit x 5"
  "x AND ADV_FEAT2_MASK \<noteq> 0 \<longleftrightarrow> bit x 6" "x AND ADV_NAME_MASK \<noteq> 0 \<longleftrightarrow> bit x 7"
  using and_exp_eq_0_iff_not_bit [of x 4] and_exp_eq_0_iff_not_bit [of x 5]
    and_exp_eq_0_iff_not_bit [of x 6] and_exp_eq_0_iff_not_bit [of x 7] by simp_all

lemma adv_flags_bits:
  assumes "unat (ab_type b) < 16"
  shows "bit (adv_flags b) 4 = ab_has_loc b" "bit (adv_flags b) 5 = (ab_feat1 b \<noteq> 0)"
    "bit (adv_flags b) 6 = (ab_feat2 b \<noteq> 0)" "bit (adv_flags b) 7 = (ab_cname b \<noteq> [])"
    "adv_flags b AND 0x0F = ab_type b"
proof -
  have t: "take_bit 4 (ab_type b) = ab_type b"
    using assms by (simp add: word_unat_eq_iff unsigned_take_bit_eq take_bit_nat_eq_self)
  then have nb: "\<not> bit (ab_type b) n" if "4 \<le> n" for n
    using that by (metis bit_take_bit_iff not_le)
  show "bit (adv_flags b) 4 = ab_has_loc b" "bit (adv_flags b) 5 = (ab_feat1 b \<noteq> 0)"
    "bit (adv_flags b) 6 = (ab_feat2 b \<noteq> 0)" "bit (adv_flags b) 7 = (ab_cname b \<noteq> [])"
    by (simp_all add: adv_flags_def bit_or_iff nb)
  have m: "(0x0F :: byte) = mask 4" by (simp add: mask_eq_exp_minus_1)
  show "adv_flags b AND 0x0F = ab_type b"
    unfolding m take_bit_eq_mask [symmetric]
    by (simp add: adv_flags_def t)
qed

text \<open>What the parser yields for the image of \<open>b\<close>; \<open>nm\<close> is its name array before.\<close>

lemma parse_image:
  assumes "unat (ab_type b) < 16" and "length (ap_name ps) = 32"
    and "unat len = length (adv_image b)"
  defines "nm \<equiv> mem_write 0 [0] (ap_name ps)"
  shows "meshcore_advert_data_parser_init ps (adv_image b @ rest) len =
    ps \<lparr> ap_flags := adv_flags b, ap_valid := True,
         ap_lat := (if ab_has_loc b then ab_lat b else 0),
         ap_lon := (if ab_has_loc b then ab_lon b else 0),
         ap_feat1 := ab_feat1 b, ap_feat2 := ab_feat2 b,
         ap_name := (if adv_name b \<noteq> [] then mem_write 0 (adv_name b @ [0]) nm else nm) \<rparr>"
proof -
  note bits = adv_flags_bits [OF assms(1)]
  let ?loc = "if ab_has_loc b then le_bytes 4 (ab_lat b) @ le_bytes 4 (ab_lon b) else []"
  let ?f1 = "if ab_feat1 b \<noteq> 0 then le_bytes 2 (ab_feat1 b) else []"
  let ?f2 = "if ab_feat2 b \<noteq> 0 then le_bytes 2 (ab_feat2 b) else []"
  let ?d = "adv_image b @ rest"
  let ?ps = "ps \<lparr> ap_name := nm, ap_lat := 0, ap_lon := 0,
      ap_valid := False, ap_feat1 := 0, ap_feat2 := 0, ap_flags := adv_flags b \<rparr>"
  let ?ps1 = "if ab_has_loc b then ?ps \<lparr> ap_lat := ab_lat b, ap_lon := ab_lon b \<rparr> else ?ps"
  let ?ps2 = "if ab_feat1 b \<noteq> 0 then ?ps1 \<lparr> ap_feat1 := ab_feat1 b \<rparr> else ?ps1"
  let ?ps3 = "if ab_feat2 b \<noteq> 0 then ?ps2 \<lparr> ap_feat2 := ab_feat2 b \<rparr> else ?ps2"
  have d: "?d = [adv_flags b] @ ?loc @ ?f1 @ ?f2 @ adv_name b @ rest"
    by (simp add: adv_image_def adv_fields_def)
  have len: "unat len = 1 + length ?loc + length ?f1 + length ?f2 + length (adv_name b)"
    using assms(3) by (simp add: adv_image_def adv_fields_def)
  have l0: "len \<noteq> 0" using len by auto
  have nmb: "length nm = 32" using assms(2) by (simp add: nm_def)
  have nl: "length (adv_name b) < 32" "adv_name b \<noteq> [] \<longleftrightarrow> ab_cname b \<noteq> []"
    using length_adv_fields [of b] by (auto simp: adv_name_def)
  have s1: "parse_latlon ?d (unat len) (?ps, 1) = (?ps1, Some (1 + length ?loc))"
    unfolding d by (rule parse_latlon_image) (use len bits in \<open>simp_all add: flag_bit\<close>)
  have s2: "parse_feat1 ?d (unat len) (?ps1, 1 + length ?loc)
      = (?ps2, Some (1 + length ?loc + length ?f1))"
    using parse_feat1_image [of "[adv_flags b] @ ?loc" "1 + length ?loc" ?ps1 "ab_feat1 b \<noteq> 0" ?f1
        "ab_feat1 b" "unat len" "?f2 @ adv_name b @ rest"] len bits
    unfolding d by (simp add: flag_bit)
  have s3: "parse_feat2 ?d (unat len) (?ps2, 1 + length ?loc + length ?f1)
      = (?ps3, Some (1 + length ?loc + length ?f1 + length ?f2))"
    using parse_feat2_image [of "[adv_flags b] @ ?loc @ ?f1" "1 + length ?loc + length ?f1" ?ps2
        "ab_feat2 b \<noteq> 0" ?f2 "ab_feat2 b" "unat len" "adv_name b @ rest"] len bits
    unfolding d by (simp add: flag_bit)
  have s4: "parse_name ?d (unat len) (?ps3, 1 + length ?loc + length ?f1 + length ?f2)
      = (if adv_name b \<noteq> [] then ?ps3 \<lparr> ap_name := mem_write 0 (adv_name b @ [0]) nm \<rparr> else ?ps3,
         Some (1 + length ?loc + length ?f1 + length ?f2))"
    using parse_name_image [of "[adv_flags b] @ ?loc @ ?f1 @ ?f2"
        "1 + length ?loc + length ?f1 + length ?f2" ?ps3 "adv_name b" "unat len" rest]
      len bits nl nmb
    unfolding d by (simp add: flag_bit)
  have h: "byte_at ?d 0 = adv_flags b" by (simp add: adv_image_def byte_at_def)
  have "meshcore_advert_data_parser_init ps ?d len
      = (case and_then (and_then (and_then (parse_latlon ?d (unat len) (?ps, 1))
               (parse_feat1 ?d (unat len))) (parse_feat2 ?d (unat len))) (parse_name ?d (unat len)) of
          (ps, None) \<Rightarrow> ps
        | (ps, Some i) \<Rightarrow> ps \<lparr> ap_valid := True \<rparr>)"
    using l0 by (simp add: meshcore_advert_data_parser_init_def Let_def h nm_def)
  then show ?thesis
    unfolding s1 and_then_def prod.case option.case s2 s3 s4 by auto
qed

section \<open>Bounds of the parser\<close>

lemma parse_steps_name:
  "ap_name (fst (parse_latlon d n p)) = ap_name (fst p)"
  "ap_name (fst (parse_feat1 d n p)) = ap_name (fst p)"
  "ap_name (fst (parse_feat2 d n p)) = ap_name (fst p)"
  by (auto simp: parse_latlon_def parse_feat1_def parse_feat2_def split: prod.split)

lemma and_then_name:
  assumes "\<And>p. ap_name (fst (f p)) = ap_name (fst p)"
  shows "ap_name (fst (and_then r f)) = ap_name (fst r)"
  using assms by (auto simp: and_then_def split: prod.split option.split)

lemma parse_name_cases:
  assumes "parse_name d n (ps, i) = (ps', r)" and "n \<le> length d"
  shows "length (ap_name ps') = length (ap_name ps) \<and>
    (0 \<in> set (ap_name ps) \<longrightarrow> 0 \<in> set (ap_name ps')) \<and> (r = None \<longrightarrow> ap_name ps' = ap_name ps)"
  using assms
  by (auto simp: parse_name_def Let_def mem_write_def split: if_splits)

lemma parse_take:
  "parse_latlon (take n d) n = parse_latlon d n" "parse_feat1 (take n d) n = parse_feat1 d n"
  "parse_feat2 (take n d) n = parse_feat2 d n" "parse_name (take n d) n = parse_name d n"
proof -
  have t: "mem_read i m (take n d) = mem_read i m d" if "i + m \<le> n" for i m
    using that by (simp add: mem_read_def drop_take min_def)
  show "parse_latlon (take n d) n = parse_latlon d n" "parse_feat1 (take n d) n = parse_feat1 d n"
    "parse_feat2 (take n d) n = parse_feat2 d n" "parse_name (take n d) n = parse_name d n"
    by (auto simp: parse_latlon_def parse_feat1_def parse_feat2_def parse_name_def Let_def t
        fun_eq_iff split: prod.split)
qed

lemma c_string_append_zero: "0 \<notin> set nm \<Longrightarrow> c_string (nm @ 0 # r) = nm"
  by (induction nm) (auto simp: c_string_def)

lemma c_string_write: "0 \<notin> set nm \<Longrightarrow> c_string (mem_write 0 (nm @ [0]) d) = nm"
  by (simp add: mem_write_def c_string_append_zero)

section \<open>Properties\<close>

text \<open>
  C36. Advert data round trip: for a node type below 16, encoding writes at most 32 bytes,
  and parsing them yields a valid advert with the same type, location, feature words and
  name; the name is cut to what fits in 32 bytes together with the other fields.
\<close>

theorem advert_data_round_trip:
  assumes "unat (ab_type b) < 16" and "length d = 32" and "length (ap_name ps) = 32"
    and "meshcore_advert_data_builder_encode_to b d = (n, d')"
    and "q = meshcore_advert_data_parser_init ps d' n"
  shows "1 \<le> unat n \<and> unat n \<le> 32 \<and> length d' = 32 \<and> ap_valid q \<and>
    meshcore_advert_data_parser_get_type q = ab_type b \<and>
    meshcore_advert_data_parser_has_lat_lon q = ab_has_loc b \<and>
    (ap_lat q, ap_lon q) = (if ab_has_loc b then (ab_lat b, ab_lon b) else (0, 0)) \<and>
    ap_feat1 q = ab_feat1 b \<and> ap_feat2 q = ab_feat2 b \<and>
    meshcore_advert_data_parser_get_name q = take (31 - length (adv_fields b)) (ab_cname b)"
proof -
  have e: "n = of_nat (length (adv_image b))" "d' = mem_write 0 (adv_image b) d"
    using assms(4) by (simp_all add: encode_image)
  have n: "unat n = length (adv_image b)"
    using length_adv_image [of b] by (simp add: e unsigned_of_nat take_bit_nat_eq_self)
  have d': "d' = adv_image b @ drop (length (adv_image b)) d"
    by (simp add: e mem_write_def)
  note q = parse_image [OF assms(1,3) n, of "drop (length (adv_image b)) d", folded d', folded assms(5)]
  have nz: "0 \<notin> set (adv_name b)"
    by (auto simp: adv_name_def ab_cname_def c_string_def dest: in_set_takeD set_takeWhileD
        split: option.splits)
  have "c_string (ap_name q) = adv_name b"
    using nz c_string_write [of "adv_name b"]
    by (cases "adv_name b") (simp_all add: q c_string_def mem_write_def)
  moreover have "length d' = 32" using assms(2) length_adv_image [of b] by (simp add: e)
  ultimately show ?thesis
    using n length_adv_image [of b] adv_flags_bits [OF assms(1)]
    by (auto simp: q meshcore_advert_data_parser_get_type_def flag_bit adv_name_def
        meshcore_advert_data_parser_has_lat_lon_def meshcore_advert_data_parser_get_name_def)
qed

definition example_advert :: advert_data_builder where
  "example_advert = meshcore_advert_data_builder_set_feat2
     (meshcore_advert_data_builder_init_with_name_lat_lon 2 (Some [0x41, 0x42, 0]) 1 (-2)) 7"

definition blank_parser :: advert_data_parser where
  "blank_parser = \<lparr> ap_flags = 0, ap_valid = False, ap_name = zeros 32, ap_lat = 0, ap_lon = 0,
     ap_feat1 = 0, ap_feat2 = 0 \<rparr>"

theorem advert_data_round_trip_witness:
  "\<exists>n d q. meshcore_advert_data_builder_encode_to example_advert (zeros 32) = (n, d) \<and>
     q = meshcore_advert_data_parser_init blank_parser d n \<and> ap_valid q \<and>
     meshcore_advert_data_parser_get_name q = [0x41, 0x42]"
proof -
  have t: "unat (ab_type example_advert) < 16" by code_simp
  obtain n d where e: "meshcore_advert_data_builder_encode_to example_advert (zeros 32) = (n, d)"
    by force
  have "take (31 - length (adv_fields example_advert)) (ab_cname example_advert) = [0x41, 0x42]"
    by code_simp
  then show ?thesis
    using advert_data_round_trip [OF t _ _ e refl, of blank_parser] e by (auto simp: blank_parser_def)
qed

text \<open>
  C39. The advert parser is safe on every input, accepted or refused: it keeps the 32-byte
  name array within its bounds, its result depends on nothing beyond the announced length,
  and afterwards the name array holds a terminated string, the empty one when the advert is
  refused.
\<close>

theorem advert_parser_safe:
  assumes "length (ap_name ps) = 32" and "unat len \<le> length d"
    and "q = meshcore_advert_data_parser_init ps d len"
  shows "length (ap_name q) = 32 \<and>
    q = meshcore_advert_data_parser_init ps (take (unat len) d) len \<and>
    0 \<in> set (ap_name q) \<and> (\<not> ap_valid q \<longrightarrow> c_string (ap_name q) = [])"
proof -
  let ?n = "unat len"
  let ?nm = "mem_write 0 [0] (ap_name ps)"
  have nm: "length ?nm = 32" "0 \<in> set ?nm" "c_string ?nm = []"
    using assms(1) by (simp_all add: mem_write_def c_string_def)
  have tk: "byte_at (take ?n d) 0 = byte_at d 0" if "len \<noteq> 0"
    using that by (simp add: byte_at_def unat_gt_0)
  have ind: "q = meshcore_advert_data_parser_init ps (take ?n d) len"
    unfolding assms(3) meshcore_advert_data_parser_init_def Let_def parse_take using tk by simp
  have z: "0 \<in> set (mem_write k [0] x)" for k and x :: bytes by (simp add: mem_write_def)
  let ?ps = "ps \<lparr> ap_name := ?nm, ap_lat := 0, ap_lon := 0, ap_flags := 0, ap_valid := False,
      ap_feat1 := 0, ap_feat2 := 0 \<rparr>"
  obtain ps3 r where r: "and_then (and_then (parse_latlon d ?n (?ps \<lparr> ap_flags := byte_at d 0 \<rparr>, 1))
      (parse_feat1 d ?n)) (parse_feat2 d ?n) = (ps3, r)" by force
  from arg_cong [OF r, of "ap_name \<circ> fst"] have n3: "ap_name ps3 = ?nm"
    by (simp add: and_then_name parse_steps_name)
  obtain ps4 t where t: "parse_name d ?n (ps3, the r) = (ps4, t)" by force
  have q: "q = (if len = 0 then ?ps else if r = None then ps3
      else if t = None then ps4 else ps4 \<lparr> ap_valid := True \<rparr>)"
    unfolding assms(3) meshcore_advert_data_parser_init_def using r t
    by (auto simp: Let_def and_then_def [of "(ps3, r)"] split: option.split)
  have "length (ap_name q) = 32 \<and> 0 \<in> set (ap_name q) \<and>
      (\<not> ap_valid q \<longrightarrow> c_string (ap_name q) = [])"
    using parse_name_cases [OF t assms(2)] nm unfolding q by (simp add: n3)
  with ind show ?thesis by blast
qed

theorem advert_parser_safe_witness:
  "let q = meshcore_advert_data_parser_init blank_parser [0xF1, 1, 2] 3
   in length (ap_name q) = 32 \<and> 0 \<in> set (ap_name q)"
  using advert_parser_safe [of blank_parser 3 "[0xF1, 1, 2]"]
  by (simp add: blank_parser_def Let_def)

end
