(* ===== verification/Txt_Data.thy ===== *)
theory Txt_Data
  imports Advert_Data
begin

text \<open>
  \<open>src/support/meshcore_txt_data.c\<close>: bounded string copies, blank test, hexadecimal
  numbers, and the decimal rendering of a float with three places.
\<close>

section \<open>Copies\<close>

text \<open>\<open>while (buf_sz > 1 && *src != 0) *dest++ = *src++\<close>\<close>

primrec txt_copy_loop :: "bytes \<Rightarrow> nat \<Rightarrow> nat \<Rightarrow> bytes \<Rightarrow> bytes \<times> nat \<times> nat" where
  "txt_copy_loop [] off buf_sz dest = (dest, off, buf_sz)"
| "txt_copy_loop (ch # src) off buf_sz dest =
     (if buf_sz > 1 \<and> ch \<noteq> 0
      then txt_copy_loop src (off + 1) (buf_sz - 1) (mem_write off [ch] dest)
      else (dest, off, buf_sz))"

definition meshcore_txt_strncpy :: "bytes \<Rightarrow> bytes \<Rightarrow> nat \<Rightarrow> bytes" where
  "meshcore_txt_strncpy dest src buf_sz =
     (if buf_sz = 0 then dest
      else let (dest, off, n) = txt_copy_loop src 0 buf_sz dest in mem_write off [0] dest)"

primrec txt_zero_loop :: "nat \<Rightarrow> nat \<Rightarrow> bytes \<Rightarrow> bytes" where
  "txt_zero_loop 0 off dest = dest"
| "txt_zero_loop (Suc n) off dest = txt_zero_loop n (off + 1) (mem_write off [0] dest)"

definition meshcore_txt_strzcpy :: "bytes \<Rightarrow> bytes \<Rightarrow> nat \<Rightarrow> bytes" where
  "meshcore_txt_strzcpy dest src buf_sz =
     (let (dest, off, n) = txt_copy_loop src 0 buf_sz dest in txt_zero_loop n off dest)"

fun meshcore_txt_is_blank :: "bytes \<Rightarrow> bool" where
  "meshcore_txt_is_blank [] = True"
| "meshcore_txt_is_blank (ch # str) =
     (if ch = 0 then True else if ch \<noteq> 0x20 then False else meshcore_txt_is_blank str)"

text \<open>The numeric value of a hexadecimal digit.\<close>

definition txt_hex_digit :: "byte \<Rightarrow> u32 option" where
  "txt_hex_digit ch =
     (if 0x30 \<le> ch \<and> ch \<le> 0x39 then Some (ucast ch - 0x30)
      else if 0x41 \<le> ch \<and> ch \<le> 0x46 then Some (ucast ch - 0x41 + 10)
      else if 0x61 \<le> ch \<and> ch \<le> 0x66 then Some (ucast ch - 0x61 + 10)
      else None)"

primrec txt_from_hex_loop :: "bytes \<Rightarrow> u32 \<Rightarrow> u32" where
  "txt_from_hex_loop [] n = n"
| "txt_from_hex_loop (ch # src) n =
     (case txt_hex_digit ch of
        None \<Rightarrow> n
      | Some d \<Rightarrow> txt_from_hex_loop src (push_bit 4 n OR d))"

definition meshcore_txt_from_hex :: "bytes \<Rightarrow> u32" where
  "meshcore_txt_from_hex src = txt_from_hex_loop src 0"

section \<open>Decimal rendering\<close>

text \<open>What \<open>snprintf\<close> prints for \<open>%d\<close> and \<open>%03d\<close>.\<close>

fun decimal_digits :: "nat \<Rightarrow> string" where
  "decimal_digits n =
     (if n < 10 then [char_of (48 + n)] else decimal_digits (n div 10) @ [char_of (48 + n mod 10)])"

declare decimal_digits.simps [simp del]

definition print_d :: "int \<Rightarrow> string" where
  "print_d i = (if i < 0 then CHR ''-'' # decimal_digits (nat (- i)) else decimal_digits (nat i))"

definition print_03d :: "nat \<Rightarrow> string" where
  "print_03d n = (let ds = decimal_digits n in replicate (3 - length ds) CHR ''0'' @ ds)"

text \<open>\<open>/\<close> and \<open>%\<close> truncate toward zero.\<close>

definition c_div :: "int \<Rightarrow> int \<Rightarrow> int" where
  "c_div a b = sgn a * sgn b * (\<bar>a\<bar> div \<bar>b\<bar>)"

definition c_mod :: "int \<Rightarrow> int \<Rightarrow> int" where
  "c_mod a b = a - c_div a b * b"

definition ftoa3_scaled :: "rat \<Rightarrow> int" where
  "ftoa3_scaled v = trunc (f32 (f32 (v * 1000) + (if 0 \<le> v then 1 / 2 else - 1 / 2)))"

text \<open>The trailing zeros, then a trailing point, are cut off.\<close>

definition strip_zeros :: "string \<Rightarrow> string" where
  "strip_zeros s =
     (let t = rev (dropWhile (\<lambda>ch. ch = CHR ''0'') (rev s)) in
      if t \<noteq> [] \<and> last t = CHR ''.'' then butlast t else t)"

definition meshcore_txt_ftoa3 :: "rat \<Rightarrow> nat \<Rightarrow> string" where
  "meshcore_txt_ftoa3 v dest_len =
     (if dest_len = 0 then []
      else
        let scaled = ftoa3_scaled v;
            whole = c_div scaled 1000;
            decimals = c_mod scaled 1000;
            decimals = (if decimals < 0 then - decimals else decimals);
            dest = take (dest_len - 1) (print_d whole @ ''.'' @ print_03d (nat decimals))
        in strip_zeros dest)"

section \<open>Facts\<close>

lemma drop_mem_write: "length src \<le> n \<Longrightarrow> drop n (mem_write 0 src dst) = drop n dst"
  by (simp add: mem_write_def)

lemma txt_copy_loop_spec:
  assumes "length a = off" and "off + buf_sz \<le> length dest"
  defines "t \<equiv> \<lambda>s. take (buf_sz - 1) (c_string s)"
  shows "txt_copy_loop src off buf_sz (mem_write 0 a dest)
       = (mem_write 0 (a @ t src) dest, off + length (t src), buf_sz - length (t src))"
  using assms(1,2) unfolding t_def
proof (induction src arbitrary: a off buf_sz)
  case (Cons ch src)
  show ?case
  proof (cases "buf_sz > 1 \<and> ch \<noteq> 0")
    case True
    have "buf_sz - 1 = Suc (buf_sz - 1 - 1)" using True by arith
    then show ?thesis
      using True Cons.prems Cons.IH [of "a @ [ch]" "off + 1" "buf_sz - 1"]
      by (simp add: mem_write_snoc c_string_def)
  next
    case False
    then have t: "take (buf_sz - 1) (c_string (ch # src)) = []" by (auto simp: c_string_def)
    have "txt_copy_loop (ch # src) off buf_sz d = (d, off, buf_sz)" for d
      using False by auto
    then show ?thesis unfolding t by simp
  qed
qed (simp add: c_string_def)

lemma txt_zero_loop_spec:
  "length a = off \<Longrightarrow> txt_zero_loop n off (mem_write 0 a dest) = mem_write 0 (a @ zeros n) dest"
proof (induction n arbitrary: a off)
  case (Suc n)
  then show ?case
    using Suc.IH [of "a @ [0]" "off + 1"] by (simp add: mem_write_snoc zeros_def)
qed (simp add: zeros_def)

lemma fl_minus: "fl p (- x) = - fl p x"
  by (auto simp: fl_def Let_def sgn_if split: prod.split)

lemma trunc_minus: "trunc (- x) = - trunc x"
  by (auto simp: trunc_def ceiling_minus floor_minus)

lemma ftoa3_scaled_minus: "0 < v \<Longrightarrow> ftoa3_scaled (- v) = - ftoa3_scaled v"
proof -
  assume v: "0 < v"
  have "f32 (f32 (- (v * 1000)) + - (1 / 2)) = - f32 (f32 (v * 1000) + 1 / 2)"
    by (subst fl_minus [symmetric]) (simp add: fl_minus)
  then show ?thesis using v by (simp add: ftoa3_scaled_def trunc_minus)
qed

section \<open>Properties\<close>

text \<open>
  The bounded copies stay inside the destination and always terminate it: for a buffer of
  \<open>buf_sz\<close> bytes, \<open>strncpy\<close> and \<open>strzcpy\<close> write the longest prefix of the source that leaves
  room for a NUL, \<open>strzcpy\<close> clears the rest, and the bytes after the buffer stay as they were.
\<close>

theorem txt_copies_bounded:
  assumes "0 < buf_sz" and "buf_sz \<le> length dest"
  shows "let t = take (buf_sz - 1) (c_string src) in
    c_string (meshcore_txt_strncpy dest src buf_sz) = t \<and>
    take buf_sz (meshcore_txt_strzcpy dest src buf_sz) = t @ zeros (buf_sz - length t) \<and>
    length (meshcore_txt_strncpy dest src buf_sz) = length dest \<and>
    length (meshcore_txt_strzcpy dest src buf_sz) = length dest \<and>
    drop buf_sz (meshcore_txt_strncpy dest src buf_sz) = drop buf_sz dest \<and>
    drop buf_sz (meshcore_txt_strzcpy dest src buf_sz) = drop buf_sz dest"
proof -
  let ?t = "take (buf_sz - 1) (c_string src)"
  have len: "length ?t < buf_sz" using assms(1) by simp
  have cp: "txt_copy_loop src 0 buf_sz dest = (mem_write 0 ?t dest, length ?t, buf_sz - length ?t)"
    using txt_copy_loop_spec [of "[]" 0 buf_sz dest src] assms(2) by simp
  have n: "meshcore_txt_strncpy dest src buf_sz = mem_write 0 (?t @ [0]) dest"
    using assms(1) cp by (simp add: meshcore_txt_strncpy_def mem_write_snoc)
  have z: "meshcore_txt_strzcpy dest src buf_sz = mem_write 0 (?t @ zeros (buf_sz - length ?t)) dest"
    using cp txt_zero_loop_spec [of ?t "length ?t" "buf_sz - length ?t" dest]
    by (simp add: meshcore_txt_strzcpy_def)
  have nz: "0 \<notin> set ?t" by (auto simp: c_string_def dest: in_set_takeD set_takeWhileD)
  have "drop buf_sz (mem_write 0 (?t @ [0]) dest) = drop buf_sz dest"
    using len by (intro drop_mem_write) simp
  then show ?thesis
    using len assms n z c_string_write [OF nz] by (simp add: Let_def mem_write_def)
qed

theorem txt_copies_bounded_witness:
  "c_string (meshcore_txt_strncpy (zeros 4) [0x61, 0x62, 0x63, 0x64, 0x65] 3) = [0x61, 0x62]"
  using txt_copies_bounded [of 3 "zeros 4" "[0x61, 0x62, 0x63, 0x64, 0x65]"]
  by (simp add: c_string_def Let_def)

text \<open>
  \<open>meshcore_txt_ftoa3\<close> prints a value between -1 and 0 without its sign: whenever the scaled
  magnitude is below 1000, the text for \<open>-v\<close> is the text for \<open>v\<close>.
\<close>

theorem ftoa3_drops_sign:
  assumes "0 < v" and "ftoa3_scaled v < 1000"
  shows "meshcore_txt_ftoa3 (- v) n = meshcore_txt_ftoa3 v n"
proof -
  have "0 \<le> f32 (f32 (v * 1000) + 1 / 2)"
    using assms(1) fl_nonneg [of "v * 1000" 24] by (intro fl_nonneg) simp
  then have "0 \<le> ftoa3_scaled v" using assms(1) by (simp add: ftoa3_scaled_def trunc_nonneg)
  then show ?thesis
    using assms by (simp add: meshcore_txt_ftoa3_def ftoa3_scaled_minus c_div_def c_mod_def Let_def)
qed

theorem ftoa3_drops_sign_witness:
  "meshcore_txt_ftoa3 (- (1 / 2)) 16 = ''0.5'' \<and> meshcore_txt_ftoa3 (1 / 2) 16 = ''0.5''"
proof -
  have p: "ftoa3_scaled (1 / 2) < 1000" "meshcore_txt_ftoa3 (1 / 2) 16 = ''0.5''" by code_simp+
  then show ?thesis using ftoa3_drops_sign [of "1 / 2" 16] by simp
qed

end
