(* ===== verification/Cayenne_Lpp.thy ===== *)
theory Cayenne_Lpp
  imports Float_Model Utils
begin

text \<open>
  \<open>src/support/telemetry/meshcore_cayenne_lpp_compat.c\<close>: the telemetry writer and the
  parser that extracts a location from a telemetry payload.
\<close>

section \<open>Field sizes\<close>

definition cayenne_lpp_fixed_value_size :: "byte \<Rightarrow> nat" where
  "cayenne_lpp_fixed_value_size type =
     (if type \<in> {0, 1, 102, 104, 120, 142} then 1
      else if type \<in> {2, 3, 101, 103, 115, 116, 117, 121, 125, 128, 132} then 2
      else if type = 135 then 3
      else if type \<in> {100, 118, 130, 131, 133} then 4
      else if type \<in> {113, 134} then 6
      else if type = 136 then 9
      else 0)"

abbreviation (input) "LPP_GPS \<equiv> 136 :: byte"
abbreviation (input) "LPP_POLYLINE \<equiv> 240 :: byte"

text \<open>\<open>None\<close>: the value does not fit in what remains, or the type is unknown.\<close>

definition cayenne_lpp_value_size :: "byte \<Rightarrow> bytes \<Rightarrow> nat \<Rightarrow> nat option" where
  "cayenne_lpp_value_size type val remaining =
     (if type = LPP_POLYLINE then
        if remaining = 0 then None
        else let n = unat (byte_at val 0) in if n \<noteq> 0 \<and> n \<le> remaining then Some n else None
      else let n = cayenne_lpp_fixed_value_size type in
        if n \<noteq> 0 \<and> n \<le> remaining then Some n else None)"

definition cayenne_lpp_parse_s24_be :: "bytes \<Rightarrow> u32" where
  "cayenne_lpp_parse_s24_be b =
     (let v = (push_bit 16 (ucast (byte_at b 0)) OR push_bit 8 (ucast (byte_at b 1)))
                OR ucast (byte_at b 2) :: u32 in
      if v AND 0x00800000 \<noteq> 0 then v OR 0xFF000000 else v)"

section \<open>Writer\<close>

record lpp_writer =
  lw_buf :: "bytes option"
  lw_cap :: nat
  lw_len :: nat

definition cayenne_lpp_init :: "bytes option \<Rightarrow> nat \<Rightarrow> lpp_writer" where
  "cayenne_lpp_init b cap = \<lparr> lw_buf = b, lw_cap = cap, lw_len = 0 \<rparr>"

definition cayenne_lpp_size :: "lpp_writer \<Rightarrow> nat" where
  "cayenne_lpp_size w = lw_len w"

text \<open>\<open>for (i = 1; i <= size; i++) buf[len + size - i] = raw & 0xFF; raw >>= 8\<close>\<close>

primrec lpp_put_loop :: "nat \<Rightarrow> nat \<Rightarrow> 64 word \<Rightarrow> bytes \<Rightarrow> bytes" where
  "lpp_put_loop len 0 raw d = d"
| "lpp_put_loop len (Suc n) raw d =
     lpp_put_loop len n (drop_bit 8 raw) (mem_write (len + n) [ucast (raw AND 0xFF)] d)"

definition cayenne_lpp_add_field ::
  "lpp_writer \<Rightarrow> byte \<Rightarrow> byte \<Rightarrow> rat \<Rightarrow> byte \<Rightarrow> u32 \<Rightarrow> bool \<Rightarrow> (errno + unit) \<times> lpp_writer" where
  "cayenne_lpp_add_field w type channel v sz multiplier is_signed =
     (case lw_buf w of
        None \<Rightarrow> (Inl EINVAL, w)
      | Some d \<Rightarrow>
          if sz = 0 then (Inl EINVAL, w)
          else if lw_len w + unat sz + 2 > lw_cap w then (Inl ENOSPC, w)
          else
            let negative = v < 0;
                v = (if negative then - v else v);
                raw = of_int (trunc (f32 (v * f32 (of_nat (unat multiplier))))) :: 64 word;
                raw = (if is_signed \<and> negative then
                         let m = push_bit (unat sz * 8) 1 - 1 in (m - (raw AND m) + 1) AND m
                       else raw);
                d = mem_write (lw_len w) [channel] d;
                d = mem_write (lw_len w + 1) [type] d;
                d = lpp_put_loop (lw_len w + 2) (unat sz) raw d
            in (Inr (), w \<lparr> lw_buf := Some d, lw_len := lw_len w + 2 + unat sz \<rparr>))"

definition cayenne_lpp_add_analog_input :: "lpp_writer \<Rightarrow> byte \<Rightarrow> rat \<Rightarrow> (errno + unit) \<times> lpp_writer" where
  "cayenne_lpp_add_analog_input w ch v = cayenne_lpp_add_field w 2 ch v 2 100 True"

definition cayenne_lpp_add_barometric_pressure ::
  "lpp_writer \<Rightarrow> byte \<Rightarrow> rat \<Rightarrow> (errno + unit) \<times> lpp_writer" where
  "cayenne_lpp_add_barometric_pressure w ch v = cayenne_lpp_add_field w 115 ch v 2 10 False"

definition cayenne_lpp_add_distance :: "lpp_writer \<Rightarrow> byte \<Rightarrow> rat \<Rightarrow> (errno + unit) \<times> lpp_writer" where
  "cayenne_lpp_add_distance w ch v = cayenne_lpp_add_field w 130 ch v 4 1000 False"

definition cayenne_lpp_add_relative_humidity ::
  "lpp_writer \<Rightarrow> byte \<Rightarrow> rat \<Rightarrow> (errno + unit) \<times> lpp_writer" where
  "cayenne_lpp_add_relative_humidity w ch v = cayenne_lpp_add_field w 104 ch v 1 2 False"

definition cayenne_lpp_add_temperature :: "lpp_writer \<Rightarrow> byte \<Rightarrow> rat \<Rightarrow> (errno + unit) \<times> lpp_writer" where
  "cayenne_lpp_add_temperature w ch v = cayenne_lpp_add_field w 103 ch v 2 10 True"

definition cayenne_lpp_add_voltage :: "lpp_writer \<Rightarrow> byte \<Rightarrow> rat \<Rightarrow> (errno + unit) \<times> lpp_writer" where
  "cayenne_lpp_add_voltage w ch v = cayenne_lpp_add_field w 116 ch v 2 100 False"

definition cayenne_lpp_add_current :: "lpp_writer \<Rightarrow> byte \<Rightarrow> rat \<Rightarrow> (errno + unit) \<times> lpp_writer" where
  "cayenne_lpp_add_current w ch v = cayenne_lpp_add_field w 117 ch v 2 1000 False"

definition cayenne_lpp_add_power :: "lpp_writer \<Rightarrow> byte \<Rightarrow> rat \<Rightarrow> (errno + unit) \<times> lpp_writer" where
  "cayenne_lpp_add_power w ch v = cayenne_lpp_add_field w 128 ch v 2 1 False"

definition cayenne_lpp_add_altitude :: "lpp_writer \<Rightarrow> byte \<Rightarrow> rat \<Rightarrow> (errno + unit) \<times> lpp_writer" where
  "cayenne_lpp_add_altitude w ch v = cayenne_lpp_add_field w 121 ch v 2 1 True"

text \<open>\<open>(x >> 16) & 0xFF, (x >> 8) & 0xFF, x & 0xFF\<close>\<close>

definition be24 :: "u32 \<Rightarrow> bytes" where
  "be24 x = [ucast (drop_bit 16 x AND 0xFF), ucast (drop_bit 8 x AND 0xFF), ucast (x AND 0xFF)]"

definition cayenne_lpp_add_gps ::
  "lpp_writer \<Rightarrow> byte \<Rightarrow> rat \<Rightarrow> rat \<Rightarrow> rat \<Rightarrow> (errno + unit) \<times> lpp_writer" where
  "cayenne_lpp_add_gps w channel latitude longitude altitude =
     (case lw_buf w of
        None \<Rightarrow> (Inl EINVAL, w)
      | Some d \<Rightarrow>
          if lw_len w + 9 + 2 > lw_cap w then (Inl ENOSPC, w)
          else
            let lat_u = of_int (trunc (f32 (latitude * 10000))) :: u32;
                lon_u = of_int (trunc (f32 (longitude * 10000)));
                alt_u = of_int (trunc (f32 (altitude * 100)))
            in (Inr (), w \<lparr> lw_buf := Some (mem_write (lw_len w)
                        ([channel, LPP_GPS] @ be24 lat_u @ be24 lon_u @ be24 alt_u) d),
                      lw_len := lw_len w + 11 \<rparr>))"

section \<open>Location parser\<close>

record lpp_location =
  ll_has_latitude :: bool
  ll_latitude_e6 :: u32
  ll_has_longitude :: bool
  ll_longitude_e6 :: u32

text \<open>\<open>payload\<close> is the \<open>payload_len\<close>-byte payload.\<close>

function parse_location_loop :: "bytes \<Rightarrow> nat \<Rightarrow> lpp_location \<Rightarrow> lpp_location" where
  "parse_location_loop payload off loc =
     (if off + 2 \<le> length payload then
        let type = byte_at payload (off + 1); off = off + 2; val = drop off payload in
        case cayenne_lpp_value_size type val (length payload - off) of
          None \<Rightarrow> loc
        | Some value_size \<Rightarrow>
            let loc = (if type = LPP_GPS then
                loc \<lparr> ll_has_latitude := True,
                      ll_latitude_e6 := cayenne_lpp_parse_s24_be val * 100,
                      ll_has_longitude := True,
                      ll_longitude_e6 := cayenne_lpp_parse_s24_be (drop 3 val) * 100 \<rparr>
              else loc)
            in parse_location_loop payload (off + value_size) loc
      else loc)"
  by pat_completeness auto
termination
  by (relation "measure (\<lambda>(payload, off, loc). length payload - off)") auto

declare parse_location_loop.simps [simp del]

definition cayenne_lpp_parse_location :: "bytes \<Rightarrow> lpp_location" where
  "cayenne_lpp_parse_location payload =
     (let loc = \<lparr> ll_has_latitude = False, ll_latitude_e6 = 0,
                  ll_has_longitude = False, ll_longitude_e6 = 0 \<rparr> in
      if payload = [] then loc else parse_location_loop payload 0 loc)"

section \<open>Facts\<close>

text \<open>A writer whose length and capacity are within its buffer.\<close>

definition lpp_wf :: "lpp_writer \<Rightarrow> bool" where
  "lpp_wf w \<longleftrightarrow> lw_len w \<le> lw_cap w \<and>
     (case lw_buf w of None \<Rightarrow> True | Some d \<Rightarrow> lw_cap w \<le> length d)"

definition lpp_bytes :: "lpp_writer \<Rightarrow> bytes" where
  "lpp_bytes w = (case lw_buf w of None \<Rightarrow> [] | Some d \<Rightarrow> take (lw_len w) d)"

text \<open>The big-endian bytes of the low \<open>8 * n\<close> bits.\<close>

primrec be_bytes :: "nat \<Rightarrow> 64 word \<Rightarrow> bytes" where
  "be_bytes 0 raw = []"
| "be_bytes (Suc n) raw = be_bytes n (drop_bit 8 raw) @ [ucast raw]"

lemma length_be_bytes [simp]: "length (be_bytes n raw) = n"
  by (induction n arbitrary: raw) auto

lemma ucast_and_ff: "(ucast (x AND 0xFF :: 'a::len word) :: byte) = ucast x" if "8 \<le> LENGTH('a)"
proof -
  have m: "(0xFF :: 'a word) = mask 8" by (simp add: mask_eq_exp_minus_1)
  show ?thesis unfolding m
    by (rule bit_word_eqI) (use that in \<open>auto simp: bit_unsigned_iff bit_and_iff bit_mask_iff\<close>)
qed

lemma lpp_put_loop_spec:
  "off + n \<le> length d \<Longrightarrow> lpp_put_loop off n raw d = mem_write off (be_bytes n raw) d"
proof (induction n arbitrary: raw d)
  case (Suc n)
  let ?b = "[ucast raw] :: bytes"
  have "mem_write off (be_bytes n (drop_bit 8 raw)) (mem_write (off + n) ?b d)
      = mem_write off (be_bytes n (drop_bit 8 raw) @ ?b) d"
    using Suc.prems by (simp add: mem_write_def min_absorb1 ac_simps)
  then show ?case using Suc by (simp add: ucast_and_ff)
qed simp

lemma bit_of_int_24:
  assumes "- (2 ^ 23) \<le> n" and "n < 2 ^ 23" and "k < 32"
  shows "bit (of_int n :: u32) k = bit n (min k 23)"
proof -
  have "signed_take_bit 23 n = n" using assms by (intro signed_take_bit_int_eq_self)
  then have "bit n k = bit (signed_take_bit 23 n) k" by simp
  also have "\<dots> = bit n (min k 23)" by (simp add: bit_signed_take_bit_iff min.commute)
  finally show ?thesis using assms(3) by (simp add: bit_of_int_iff)
qed

lemma bit_ff000000: "k < 32 \<Longrightarrow> bit (0xFF000000 :: u32) k \<longleftrightarrow> 24 \<le> k"
proof -
  have e: "(0xFF000000 :: u32) = push_bit 24 (mask 8)"
    by (simp add: mask_eq_exp_minus_1 push_bit_eq_mult)
  show "k < 32 \<Longrightarrow> ?thesis" unfolding e by (auto simp: bit_push_bit_iff bit_mask_iff)
qed

lemma parse_be24:
  assumes "- (2 ^ 23) \<le> n" and "n < 2 ^ 23"
  shows "cayenne_lpp_parse_s24_be (be24 (of_int n) @ r) = of_int n"
proof -
  let ?x = "of_int n :: u32"
  have b: "byte_at (be24 ?x @ r) 0 = ucast (drop_bit 16 ?x)" "byte_at (be24 ?x @ r) 1 = ucast (drop_bit 8 ?x)"
    "byte_at (be24 ?x @ r) 2 = ucast ?x"
    by (simp_all add: be24_def byte_at_def ucast_and_ff)
  let ?v = "(push_bit 16 (ucast (ucast (drop_bit 16 ?x) :: byte)) OR
      push_bit 8 (ucast (ucast (drop_bit 8 ?x) :: byte))) OR ucast (ucast ?x :: byte) :: u32"
  have v: "bit ?v k \<longleftrightarrow> k < 24 \<and> bit ?x k" for k
    by (cases "k < 8"; cases "k < 16"; cases "k < 24")
       (auto simp: bit_or_iff bit_push_bit_iff bit_unsigned_iff bit_drop_bit_eq)
  have top: "?v AND 0x00800000 \<noteq> 0 \<longleftrightarrow> bit ?x 23"
    using and_exp_eq_0_iff_not_bit [of ?v 23] v [of 23] by simp
  have bx: "bit ?x k = bit ?x 23" if "23 \<le> k" "k < 32" for k
    using bit_of_int_24 [OF assms] that by simp
  have "(if ?v AND 0x00800000 \<noteq> 0 then ?v OR 0xFF000000 else ?v) = ?x"
  proof (rule bit_word_eqI)
    fix k assume "k < LENGTH(32)"
    then have k: "k < 32" by simp
    show "bit (if ?v AND 0x00800000 \<noteq> 0 then ?v OR 0xFF000000 else ?v) k = bit ?x k"
      unfolding top using v [of k] bx [of k] bit_ff000000 [OF k] k
      by (cases "k < 24") (auto simp: bit_or_iff)
  qed
  then show ?thesis unfolding cayenne_lpp_parse_s24_be_def b Let_def .
qed

lemma scaled_e6:
  assumes "- (2 ^ 23) \<le> n" and "n < 2 ^ 23"
  shows "sint (of_int n * 100 :: u32) = n * 100"
proof -
  have "(of_int n * 100 :: u32) = of_int (n * 100)" by simp
  moreover have "sint (of_int (n * 100) :: u32) = n * 100"
    using assms by (simp only: signed_of_int) (simp add: signed_take_bit_int_eq_self)
  ultimately show ?thesis by simp
qed

section \<open>Properties\<close>

text \<open>
  Adding a telemetry field never writes outside the buffer and never leaves a partial
  field: it fails with EINVAL for a size of zero and with ENOSPC when the field does not fit, and
  then changes nothing; otherwise it appends channel, type and the value in big-endian order.
\<close>

theorem lpp_add_field_bounds:
  assumes "lpp_wf w" and "lw_buf w = Some d"
    and "cayenne_lpp_add_field w type channel v sz multiplier is_signed = (r, w')"
  shows "lpp_wf w' \<and> lw_cap w' = lw_cap w \<and>
    (if sz = 0 then r = Inl EINVAL \<and> w' = w
     else if lw_cap w < lw_len w + unat sz + 2 then r = Inl ENOSPC \<and> w' = w
     else r = Inr () \<and> lw_len w' = lw_len w + 2 + unat sz \<and>
       (\<exists>raw d'. lw_buf w' = Some d' \<and> length d' = length d \<and>
          drop (lw_len w') d' = drop (lw_len w') d \<and>
          lpp_bytes w' = lpp_bytes w @ [channel, type] @ be_bytes (unat sz) raw))"
proof (cases "sz = 0 \<or> lw_cap w < lw_len w + unat sz + 2")
  case True
  then show ?thesis using assms by (auto simp: cayenne_lpp_add_field_def)
next
  case False
  let ?n = "lw_len w"
  have room: "?n + 2 + unat sz \<le> length d" "lw_cap w \<le> length d"
    using False assms(1,2) by (auto simp: lpp_wf_def)
  define raw where "raw =
    (let negative = v < 0; v = (if negative then - v else v);
         raw = of_int (trunc (f32 (v * f32 (of_nat (unat multiplier))))) :: 64 word
     in if is_signed \<and> negative then
          let m = push_bit (unat sz * 8) 1 - 1 in (m - (raw AND m) + 1) AND m
        else raw)"
  let ?f = "[channel, type] @ be_bytes (unat sz) raw"
  have "mem_write (?n + 2) (be_bytes (unat sz) raw) (mem_write (?n + 1) [type] (mem_write ?n [channel] d))
      = mem_write ?n ?f d"
    using room mem_write_mem_write_append [of ?n d "[channel]" "[type]"]
      mem_write_mem_write_append [of ?n d "[channel, type]" "be_bytes (unat sz) raw"] by simp
  then have w': "r = Inr ()" "w' = w \<lparr> lw_buf := Some (mem_write ?n ?f d), lw_len := ?n + 2 + unat sz \<rparr>"
    using False assms room
    by (auto simp: cayenne_lpp_add_field_def raw_def Let_def lpp_put_loop_spec)
  have "take (?n + length ?f) (mem_write ?n ?f d) = take ?n d @ ?f"
    using room by (intro take_mem_write_through) simp
  moreover have "drop (?n + 2 + unat sz) (mem_write ?n ?f d) = drop (?n + 2 + unat sz) d"
    using room by (simp add: mem_write_def min_absorb1 min_absorb2)
  moreover have "length (mem_write ?n ?f d) = length d" using room by simp
  ultimately show ?thesis
    using False room assms(2) w' by (auto simp: lpp_wf_def lpp_bytes_def)
qed

theorem lpp_add_field_bounds_witness:
  "\<exists>w'. cayenne_lpp_add_field (cayenne_lpp_init (Some (zeros 4)) 4) 103 1 25 2 10 True = (Inr (), w') \<and>
     lpp_wf w' \<and> lw_len w' = 4"
proof -
  obtain r w' where e:
    "cayenne_lpp_add_field (cayenne_lpp_init (Some (zeros 4)) 4) 103 1 25 2 10 True = (r, w')" by force
  have "lpp_wf (cayenne_lpp_init (Some (zeros 4)) 4)" by (simp add: lpp_wf_def cayenne_lpp_init_def)
  from lpp_add_field_bounds [OF this _ e] e show ?thesis by (auto simp: cayenne_lpp_init_def)
qed

text \<open>
  C40. A position written as a GPS field is the position the parser reports: for coordinates
  whose ten-thousandths fit in 24 signed bits the parser returns the written integers
  times 100 exactly, without overflow of the 32-bit fields.
\<close>

theorem lpp_gps_round_trip:
  assumes "11 \<le> length d"
    and "lat = trunc (f32 (latitude * 10000))" and "- (2 ^ 23) \<le> lat" and "lat < 2 ^ 23"
    and "lon = trunc (f32 (longitude * 10000))" and "- (2 ^ 23) \<le> lon" and "lon < 2 ^ 23"
  shows "\<exists>w. cayenne_lpp_add_gps (cayenne_lpp_init (Some d) (length d)) ch latitude longitude altitude
        = (Inr (), w) \<and> lpp_wf w \<and> length (lpp_bytes w) = 11 \<and>
      (let loc = cayenne_lpp_parse_location (lpp_bytes w) in
       ll_has_latitude loc \<and> ll_has_longitude loc \<and>
       sint (ll_latitude_e6 loc) = lat * 100 \<and> sint (ll_longitude_e6 loc) = lon * 100)"
proof -
  define alt where "alt = (of_int (trunc (f32 (altitude * 100))) :: u32)"
  let ?img = "[ch, LPP_GPS] @ be24 (of_int lat) @ be24 (of_int lon) @ be24 alt"
  let ?w = "\<lparr> lw_buf = Some (mem_write 0 ?img d), lw_cap = length d, lw_len = 11 \<rparr>"
  have l3: "length (be24 x) = 3" for x by (simp add: be24_def)
  have r: "cayenne_lpp_add_gps (cayenne_lpp_init (Some d) (length d)) ch latitude longitude altitude
      = (Inr (), ?w)"
    using assms(1) by (simp add: cayenne_lpp_add_gps_def cayenne_lpp_init_def Let_def alt_def assms(2,5))
  have bytes: "lpp_bytes ?w = ?img" by (simp add: lpp_bytes_def mem_write_def l3)
  have gps: "cayenne_lpp_parse_s24_be (be24 (of_int lat) @ be24 (of_int lon) @ be24 alt) = of_int lat"
    "cayenne_lpp_parse_s24_be (be24 (of_int lon) @ be24 alt) = of_int lon"
    using parse_be24 assms by blast+
  have "cayenne_lpp_parse_location ?img =
      \<lparr> ll_has_latitude = True, ll_latitude_e6 = of_int lat * 100,
        ll_has_longitude = True, ll_longitude_e6 = of_int lon * 100 \<rparr>"
    by (simp add: cayenne_lpp_parse_location_def parse_location_loop.simps [of _ 0]
        parse_location_loop.simps [of _ 11] byte_at_def l3 cayenne_lpp_value_size_def
        cayenne_lpp_fixed_value_size_def gps)
  then show ?thesis
    using r bytes assms(1) scaled_e6 [OF assms(3,4)] scaled_e6 [OF assms(6,7)] l3
    by (auto simp: lpp_wf_def mem_write_def)
qed

theorem lpp_gps_round_trip_witness:
  "\<exists>w. cayenne_lpp_add_gps (cayenne_lpp_init (Some (zeros 20)) 20) 1 (1 / 2) (-2) 0 = (Inr (), w) \<and>
     sint (ll_longitude_e6 (cayenne_lpp_parse_location (lpp_bytes w))) = - 2000000"
proof -
  have "trunc (f32 (1 / 2 * 10000)) = 5000" "trunc (f32 (- 2 * 10000)) = - 20000" by code_simp+
  then show ?thesis
    using lpp_gps_round_trip [of "zeros 20" 5000 "1 / 2" "- 20000" "- 2" 1 0]
    by (auto simp: Let_def)
qed

end
