(* ===== verification/Identity.thy ===== *)
theory Identity
  imports Utils
begin

text \<open>
  \<open>src/core/meshcore_identity.c\<close>: public and local identities, hash prefixes, signing, key
  agreement and the stored form of a key pair.

  The curve and SHA-512 primitives of the vendored Monocypher library are the fields of the
  record \<open>curve\<close>; \<open>ec_sha512_pieces\<close> is the incremental hash: \<open>crypto_sha512_init\<close>, one
  \<open>crypto_sha512_update\<close> for each piece and \<open>crypto_sha512_final\<close>.  Each fills a buffer of the
  fixed length its C signature gives.  The theory \<open>Ed25519\<close> gives the values of these fields for
  the vendored code.
\<close>

section \<open>Primitives\<close>

record curve =
  ec_sha512 :: "bytes \<Rightarrow> nat \<Rightarrow> byte"
  ec_sha512_pieces :: "bytes list \<Rightarrow> nat \<Rightarrow> byte"
  ec_eddsa_trim_scalar :: "bytes \<Rightarrow> nat \<Rightarrow> byte"
  ec_eddsa_scalarbase :: "bytes \<Rightarrow> nat \<Rightarrow> byte"
  ec_eddsa_reduce :: "bytes \<Rightarrow> nat \<Rightarrow> byte"
  ec_eddsa_mul_add :: "bytes \<Rightarrow> bytes \<Rightarrow> bytes \<Rightarrow> nat \<Rightarrow> byte"
  ec_eddsa_to_x25519 :: "bytes \<Rightarrow> nat \<Rightarrow> byte"
  ec_x25519 :: "bytes \<Rightarrow> bytes \<Rightarrow> nat \<Rightarrow> byte"
  ec_ed25519_check :: "bytes \<Rightarrow> bytes \<Rightarrow> bytes \<Rightarrow> int"

section \<open>Identities\<close>

abbreviation (input) "PUBLIC_KEY_SIZE \<equiv> 32 :: nat"
abbreviation (input) "PRIVATE_KEY_SIZE \<equiv> 64 :: nat"

record identity =
  id_pub_key :: bytes

record local_identity =
  li_identity :: identity
  li_prv_key :: bytes

definition identity_wf :: "identity \<Rightarrow> bool" where
  "identity_wf i \<longleftrightarrow> length (id_pub_key i) = 32"

definition local_identity_wf :: "local_identity \<Rightarrow> bool" where
  "local_identity_wf l \<longleftrightarrow> identity_wf (li_identity l) \<and> length (li_prv_key l) = 64"

definition meshcore_identity_trimmed_scalar_to_pub :: "curve \<Rightarrow> bytes \<Rightarrow> bytes" where
  "meshcore_identity_trimmed_scalar_to_pub ec scalar = buf 32 (ec_eddsa_scalarbase ec (mem_read 0 32 scalar))"

text \<open>The incremental hash of up to four pieces; an absent piece is empty, and is skipped.\<close>

definition meshcore_identity_hash_reduce4 ::
  "curve \<Rightarrow> bytes \<Rightarrow> bytes \<Rightarrow> bytes \<Rightarrow> bytes \<Rightarrow> bytes" where
  "meshcore_identity_hash_reduce4 ec a b c d =
     (let hash = buf 64 (ec_sha512_pieces ec (filter (\<lambda>m. m \<noteq> []) [a, b, c, d])) in buf 32 (ec_eddsa_reduce ec hash))"

definition meshcore_identity_sign_expanded_private_key ::
  "curve \<Rightarrow> bytes \<Rightarrow> bytes \<Rightarrow> bytes \<Rightarrow> bytes" where
  "meshcore_identity_sign_expanded_private_key ec public_key private_key message =
     (let r = meshcore_identity_hash_reduce4 ec (mem_read 32 32 private_key) message [] [];
          r_point = buf 32 (ec_eddsa_scalarbase ec r);
          h = meshcore_identity_hash_reduce4 ec r_point public_key message []
      in r_point @ buf 32 (ec_eddsa_mul_add ec h (mem_read 0 32 private_key) r))"

definition meshcore_identity_calculate_shared_secret :: "curve \<Rightarrow> bytes \<Rightarrow> bytes \<Rightarrow> bytes" where
  "meshcore_identity_calculate_shared_secret ec prv_key other_pub_key =
     (let x25519_pub = buf 32 (ec_eddsa_to_x25519 ec other_pub_key)
      in buf 32 (ec_x25519 ec (mem_read 0 32 prv_key) x25519_pub))"

definition meshcore_identity_init :: identity where
  "meshcore_identity_init = \<lparr> id_pub_key = zeros 32 \<rparr>"

definition meshcore_identity_init_from_pub_hex :: "identity \<Rightarrow> string \<Rightarrow> bool \<times> identity" where
  "meshcore_identity_init_from_pub_hex i pub_hex =
     (let (ok, k) = meshcore_utils_from_hex (id_pub_key i) 32 pub_hex
      in (ok, i \<lparr> id_pub_key := k \<rparr>))"

definition meshcore_identity_init_from_pub_key :: "identity \<Rightarrow> bytes \<Rightarrow> identity" where
  "meshcore_identity_init_from_pub_key i pub_key =
     i \<lparr> id_pub_key := mem_write 0 (mem_read 0 32 pub_key) (id_pub_key i) \<rparr>"

text \<open>\<open>meshcore_identity_copy_hash_by_len(identity, &dest[off], len)\<close>\<close>

definition meshcore_identity_copy_hash_by_len ::
  "identity \<Rightarrow> nat \<Rightarrow> bytes \<Rightarrow> byte \<Rightarrow> nat \<times> bytes" where
  "meshcore_identity_copy_hash_by_len i off dest len =
     (if unat len > 32 then (0, dest)
      else (unat len, mem_write off (mem_read 0 (unat len) (id_pub_key i)) dest))"

definition meshcore_identity_copy_hash_to :: "identity \<Rightarrow> nat \<Rightarrow> bytes \<Rightarrow> nat \<times> bytes" where
  "meshcore_identity_copy_hash_to i off dest = meshcore_identity_copy_hash_by_len i off dest 1"

text \<open>\<open>hash\<close> is the memory from the pointer on.\<close>

definition meshcore_identity_is_hash_match_by_len :: "identity \<Rightarrow> bytes \<Rightarrow> byte \<Rightarrow> bool" where
  "meshcore_identity_is_hash_match_by_len i hash len \<longleftrightarrow>
     \<not> unat len > 32 \<and> mem_read 0 (unat len) hash = mem_read 0 (unat len) (id_pub_key i)"

definition meshcore_identity_is_hash_match :: "identity \<Rightarrow> bytes \<Rightarrow> bool" where
  "meshcore_identity_is_hash_match i hash = meshcore_identity_is_hash_match_by_len i hash 1"

definition meshcore_identity_matches_by_pub_key :: "identity \<Rightarrow> bytes \<Rightarrow> bool" where
  "meshcore_identity_matches_by_pub_key i other_pub_key \<longleftrightarrow>
     mem_read 0 32 (id_pub_key i) = mem_read 0 32 other_pub_key"

definition meshcore_identity_matches :: "identity \<Rightarrow> identity \<Rightarrow> bool" where
  "meshcore_identity_matches i other = meshcore_identity_matches_by_pub_key i (id_pub_key other)"

definition meshcore_identity_verify :: "curve \<Rightarrow> identity \<Rightarrow> bytes \<Rightarrow> bytes \<Rightarrow> int \<Rightarrow> bool" where
  "meshcore_identity_verify ec i sig message msg_len \<longleftrightarrow>
     \<not> msg_len < 0 \<and>
     ec_ed25519_check ec (mem_read 0 64 sig) (id_pub_key i) (mem_read 0 (nat msg_len) message) = 0"

section \<open>Local identities\<close>

definition meshcore_local_identity_init :: local_identity where
  "meshcore_local_identity_init =
     \<lparr> li_identity = meshcore_identity_init, li_prv_key = zeros 64 \<rparr>"

definition meshcore_local_identity_init_from_hex ::
  "local_identity \<Rightarrow> string \<Rightarrow> string \<Rightarrow> bool \<times> local_identity" where
  "meshcore_local_identity_init_from_hex l prv_hex pub_hex =
     (let (ok, k) = meshcore_utils_from_hex (li_prv_key l) 64 prv_hex;
          l = l \<lparr> li_prv_key := k \<rparr> in
      if ok then
        let (ok, i) = meshcore_identity_init_from_pub_hex (li_identity l) pub_hex
        in (ok, l \<lparr> li_identity := i \<rparr>)
      else (False, l))"

definition meshcore_local_identity_init_from_bytes ::
  "local_identity \<Rightarrow> bytes \<Rightarrow> bytes \<Rightarrow> local_identity" where
  "meshcore_local_identity_init_from_bytes l prv_key_bytes pub_key_bytes =
     l \<lparr> li_prv_key := mem_write 0 (mem_read 0 64 prv_key_bytes) (li_prv_key l),
         li_identity := meshcore_identity_init_from_pub_key (li_identity l) pub_key_bytes \<rparr>"

text \<open>\<open>seed\<close> are the 32 random bytes the call draws.\<close>

definition meshcore_local_identity_generate :: "curve \<Rightarrow> bytes \<Rightarrow> local_identity \<Rightarrow> local_identity" where
  "meshcore_local_identity_generate ec seed l =
     (let prv = buf 64 (ec_sha512 ec seed);
          prv = mem_write 0 (buf 32 (ec_eddsa_trim_scalar ec (mem_read 0 32 prv))) prv
      in l \<lparr> li_prv_key := prv,
             li_identity := (li_identity l)
               \<lparr> id_pub_key := meshcore_identity_trimmed_scalar_to_pub ec prv \<rparr> \<rparr>)"

definition meshcore_local_identity_sign :: "curve \<Rightarrow> local_identity \<Rightarrow> bytes \<Rightarrow> int \<Rightarrow> bytes option" where
  "meshcore_local_identity_sign ec l message msg_len =
     (if msg_len < 0 then None
      else Some (meshcore_identity_sign_expanded_private_key ec (id_pub_key (li_identity l))
                   (li_prv_key l) (mem_read 0 (nat msg_len) message)))"

definition meshcore_local_identity_calc_shared_secret :: "curve \<Rightarrow> local_identity \<Rightarrow> bytes \<Rightarrow> bytes" where
  "meshcore_local_identity_calc_shared_secret ec l other_pub_key =
     meshcore_identity_calculate_shared_secret ec (li_prv_key l) other_pub_key"

definition test_client_prv :: bytes where
  "test_client_prv =
    [0x70, 0x65, 0xe1, 0x8f, 0xd9, 0xfa, 0xbb, 0x70, 0xc1, 0xed, 0x90, 0xdc, 0xa1, 0x99, 0x07, 0xde,
     0x69, 0x8c, 0x88, 0xb7, 0x09, 0xea, 0x14, 0x6e, 0xaf, 0xd9, 0x3d, 0x9b, 0x83, 0x0c, 0x7b, 0x60,
     0xc4, 0x68, 0x11, 0x93, 0xc7, 0x9b, 0xbc, 0x39, 0x94, 0x5b, 0xa8, 0x06, 0x41, 0x04, 0xbb, 0x61,
     0x8f, 0x8f, 0xd7, 0xa8, 0x4a, 0x0a, 0xf6, 0xf5, 0x70, 0x33, 0xd6, 0xe8, 0xdd, 0xcd, 0x64, 0x71]"

definition test_client_pub :: bytes where
  "test_client_pub =
    [0x1e, 0xc7, 0x71, 0x75, 0xb0, 0x91, 0x8e, 0xd2, 0x06, 0xf9, 0xae, 0x04, 0xec, 0x13, 0x6d, 0x6d,
     0x5d, 0x43, 0x15, 0xbb, 0x26, 0x30, 0x54, 0x27, 0xf6, 0x45, 0xb4, 0x92, 0xe9, 0x35, 0x0c, 0x10]"

definition meshcore_local_identity_validate_private_key :: "curve \<Rightarrow> bytes \<Rightarrow> bool" where
  "meshcore_local_identity_validate_private_key ec prv_key =
     (let pub = meshcore_identity_trimmed_scalar_to_pub ec prv_key in
      if byte_at pub 0 = 0x00 \<or> byte_at pub 0 = 0xFF then False
      else
        let ss1 = meshcore_identity_calculate_shared_secret ec prv_key test_client_pub;
            ss2 = meshcore_identity_calculate_shared_secret ec test_client_prv pub in
        if ss1 \<noteq> ss2 then False else list_ex (\<lambda>b. b \<noteq> 0) ss1)"

definition meshcore_local_identity_write_to :: "local_identity \<Rightarrow> bytes \<Rightarrow> nat \<Rightarrow> nat \<times> bytes" where
  "meshcore_local_identity_write_to l dest max_len =
     (if max_len < 64 then (0, dest)
      else
        let dest = mem_write 0 (li_prv_key l) dest in
        if max_len < 64 + 32 then (64, dest)
        else (96, mem_write 64 (id_pub_key (li_identity l)) dest))"

definition meshcore_local_identity_read_from ::
  "curve \<Rightarrow> local_identity \<Rightarrow> bytes \<Rightarrow> nat \<Rightarrow> local_identity" where
  "meshcore_local_identity_read_from ec l src len =
     (if len = 64 + 32 then
        l \<lparr> li_prv_key := mem_write 0 (mem_read 0 64 src) (li_prv_key l),
            li_identity := (li_identity l)
              \<lparr> id_pub_key := mem_write 0 (mem_read 64 32 src) (id_pub_key (li_identity l)) \<rparr> \<rparr>
      else if len = 64 then
        let prv = mem_write 0 (mem_read 0 64 src) (li_prv_key l)
        in l \<lparr> li_prv_key := prv,
               li_identity := (li_identity l)
                 \<lparr> id_pub_key := meshcore_identity_trimmed_scalar_to_pub ec prv \<rparr> \<rparr>
      else l)"

section \<open>Facts\<close>

lemma length_trimmed_scalar_to_pub [simp]:
  "length (meshcore_identity_trimmed_scalar_to_pub ec s) = 32"
  by (simp add: meshcore_identity_trimmed_scalar_to_pub_def)

lemma length_shared_secret [simp]: "length (meshcore_identity_calculate_shared_secret ec k p) = 32"
  by (simp add: meshcore_identity_calculate_shared_secret_def Let_def)

lemma length_signature [simp]:
  "length (meshcore_identity_sign_expanded_private_key ec pk sk m) = 64"
  by (simp add: meshcore_identity_sign_expanded_private_key_def Let_def)

lemma mem_write_all: "length src = length dst \<Longrightarrow> mem_write 0 src dst = src"
  by (simp add: mem_write_def)

section \<open>Properties\<close>

text \<open>
  A stored key pair is recovered: writing a local identity to a buffer of at least 96 bytes
  and reading 96 bytes back restores both keys, whatever identity is overwritten; from a
  buffer of 64 to 95 bytes only the private key is stored, and reading it back restores
  the identity exactly if its public key is the one that belongs to the private key.
\<close>

theorem local_identity_round_trip:
  assumes "local_identity_wf l" and "local_identity_wf l'" and "64 \<le> max_len" and "max_len \<le> length dest"
    and "meshcore_local_identity_write_to l dest max_len = (n, d)"
  shows "length d = length dest \<and> n = (if 96 \<le> max_len then 96 else 64) \<and>
    (meshcore_local_identity_read_from ec l' d n = l \<longleftrightarrow>
       96 \<le> max_len \<or>
       id_pub_key (li_identity l) = meshcore_identity_trimmed_scalar_to_pub ec (li_prv_key l))"
proof -
  have L: "length (li_prv_key l) = 64" "length (id_pub_key (li_identity l)) = 32"
    "length (li_prv_key l') = 64" "length (id_pub_key (li_identity l')) = 32"
    using assms(1,2) by (simp_all add: local_identity_wf_def identity_wf_def)
  show ?thesis
  proof (cases "96 \<le> max_len")
    case True
    then have d: "n = 96" "d = mem_write 64 (id_pub_key (li_identity l)) (mem_write 0 (li_prv_key l) dest)"
      using assms by (auto simp: meshcore_local_identity_write_to_def)
    have "mem_read 0 64 d = li_prv_key l"
      using L True assms(4) unfolding d(2) by (subst mem_read_mem_write_before) simp_all
    moreover have "mem_read 64 32 d = id_pub_key (li_identity l)"
      using L True assms(4) unfolding d(2) by simp
    ultimately have "meshcore_local_identity_read_from ec l' d 96 = l"
      using L by (simp add: meshcore_local_identity_read_from_def mem_write_all)
    then show ?thesis using True d L assms(4) by simp
  next
    case False
    then have d: "n = 64" "d = mem_write 0 (li_prv_key l) dest"
      using assms by (auto simp: meshcore_local_identity_write_to_def)
    have "mem_read 0 64 d = li_prv_key l" using L assms(3,4) unfolding d(2) by simp
    then have "meshcore_local_identity_read_from ec l' d 64 =
        \<lparr> li_identity = \<lparr> id_pub_key = meshcore_identity_trimmed_scalar_to_pub ec (li_prv_key l) \<rparr>,
          li_prv_key = li_prv_key l \<rparr>"
      using L by (simp add: meshcore_local_identity_read_from_def mem_write_all Let_def)
    moreover have "\<lparr> li_identity = \<lparr> id_pub_key = k \<rparr>, li_prv_key = li_prv_key l \<rparr> = l \<longleftrightarrow>
        id_pub_key (li_identity l) = k" for k
      by (cases l; cases "li_identity l") auto
    ultimately have "meshcore_local_identity_read_from ec l' d n = l \<longleftrightarrow>
        id_pub_key (li_identity l) = meshcore_identity_trimmed_scalar_to_pub ec (li_prv_key l)"
      unfolding d(1) by (simp only:)
    moreover have "length d = length dest" using L assms(3,4) by (simp add: d(2))
    ultimately show ?thesis using False d(1) by simp
  qed
qed

definition zero_curve :: curve where
  "zero_curve = \<lparr> ec_sha512 = \<lambda>m i. of_nat (length m + i),
     ec_sha512_pieces = \<lambda>ms i. of_nat (length (concat ms) + i), ec_eddsa_trim_scalar = byte_at,
     ec_eddsa_scalarbase = byte_at, ec_eddsa_reduce = byte_at,
     ec_eddsa_mul_add = \<lambda>a b c. byte_at a, ec_eddsa_to_x25519 = byte_at,
     ec_x25519 = \<lambda>a b. byte_at b, ec_ed25519_check = \<lambda>s k m. 0 \<rparr>"

theorem local_identity_round_trip_witness:
  "meshcore_local_identity_read_from zero_curve meshcore_local_identity_init
     (snd (meshcore_local_identity_write_to
        (meshcore_local_identity_generate zero_curve (zeros 32) meshcore_local_identity_init)
        (zeros 100) 96)) 96
   = meshcore_local_identity_generate zero_curve (zeros 32) meshcore_local_identity_init"
proof -
  let ?l = "meshcore_local_identity_generate zero_curve (zeros 32) meshcore_local_identity_init"
  have wf: "local_identity_wf ?l" "local_identity_wf meshcore_local_identity_init"
    by (simp_all add: local_identity_wf_def identity_wf_def meshcore_local_identity_generate_def
        meshcore_local_identity_init_def meshcore_identity_init_def Let_def)
  obtain n d where w: "meshcore_local_identity_write_to ?l (zeros 100) 96 = (n, d)" by force
  show ?thesis
    using local_identity_round_trip [OF wf _ _ w, of zero_curve] w by auto
qed

end
