(* ===== verification/Platform.thy ===== *)
theory Platform
  imports Packet Identity Float_Model
begin

text \<open>
  The host interface: the shared structs of \<open>include/meshcore/types.h\<close>, the hooks of
  \<open>include/meshcore/platform.h\<close> and the views that \<open>platform/meshcore_platform_bridge.c\<close>
  builds for them.

  The hooks are code of the host.  They are the fields of a record \<open>host\<close>, functions
  on an arbitrary world \<open>'w\<close>; every theorem of the development holds for every such
  record.  The library is single threaded and not reentrant (\<open>runtime.h\<close>), so a hook changes
  the world and nothing else.  Hooks that only notify the host share one field, \<open>h_event\<close>.
\<close>

section \<open>Shared types\<close>

datatype node_role = ROLE_NONE | ROLE_CHAT | ROLE_REPEATER | ROLE_ROOM | ROLE_SENSOR

datatype loop_detect_mode = LOOP_DETECT_OFF | LOOP_DETECT_MINIMAL | LOOP_DETECT_MODERATE
  | LOOP_DETECT_STRICT

datatype message_type = MESSAGE_TYPE_RECEIVE_NODE | MESSAGE_TYPE_RECEIVE_CHANNEL

datatype message_route = ROUTE_UNSPECIFIED | ROUTE_FLOOD | ROUTE_DIRECT

record node_identity =
  ni_name :: bytes
  ni_role :: node_role
  ni_public_key :: bytes
  ni_private_key :: bytes

record node_runtime_policy =
  rp_path_hash_size :: byte
  rp_loop_detect :: loop_detect_mode
  rp_client_repeat :: bool
  rp_disable_fwd :: bool
  rp_flood_max :: byte
  rp_multi_acks :: byte
  rp_tx_delay_factor :: rat
  rp_direct_tx_delay_factor :: rat

record node_advert_profile =
  ap_has_position :: bool
  ap_latitude :: u32
  ap_longitude :: u32
  ap_advert_interval :: u32
  ap_flood_advert_interval :: u32

record peer_identity =
  pi_name :: bytes
  pi_role :: node_role
  pi_flags :: byte
  pi_public_key :: bytes

record peer_path =
  pp_out_path_len :: byte
  pp_is_neighbor :: bool
  pp_out_path :: bytes
  pp_path_hash_size :: byte

record channel_view =
  cv_hash :: bytes
  cv_secret :: bytes

record group_channel =
  gc_hash :: bytes
  gc_secret :: bytes

record telemetry_payload =
  tp_has_latitude :: bool
  tp_latitude :: u32
  tp_has_longitude :: bool
  tp_longitude :: u32
  tp_payload_len :: byte
  tp_payload :: bytes

record packet_view =
  pv_route :: message_route
  pv_payload_type :: byte
  pv_payload_ver :: byte
  pv_path_len :: byte
  pv_path_hash_size :: byte
  pv_path_hash_count :: byte
  pv_path_byte_len :: byte
  pv_path :: bytes
  pv_payload_len :: u16
  pv_payload :: bytes
  pv_raw_len :: u16
  pv_raw :: "bytes option"
  pv_has_rx_snr :: bool
  pv_rx_snr_q4 :: byte
  pv_has_transport_snr :: bool
  pv_has_transport_codes :: bool

section \<open>Events\<close>

record message =
  ms_type :: message_type
  ms_route :: message_route
  ms_target_len :: byte
  ms_target :: bytes
  ms_sender_name :: bytes
  ms_payload_len :: u16
  ms_payload :: bytes
  ms_sender_timestamp :: "64 word"
  ms_has_rx_snr :: bool
  ms_rx_snr :: rat

record channel_data_event =
  cd_channel_hash :: bytes
  cd_path_len :: byte
  cd_path :: bytes
  cd_data_type :: u16
  cd_payload_len :: byte
  cd_payload :: bytes
  cd_has_rx_snr :: bool
  cd_rx_snr_q4 :: byte

text \<open>The raw-data and the control-data event have the same fields.\<close>

record data_event =
  de_path_len :: byte
  de_path :: bytes
  de_payload_len :: byte
  de_payload :: bytes
  de_has_rx_snr :: bool
  de_rx_snr_q4 :: byte

record binary_request_event =
  br_route :: message_route
  br_key_prefix :: bytes
  br_tag :: u32
  br_public_key :: bytes
  br_path_len :: byte
  br_path :: bytes
  br_payload_len :: byte
  br_payload :: bytes
  br_has_rx_snr :: bool
  br_rx_snr_q4 :: byte

record node_discover_event =
  nd_role :: node_role
  nd_tag :: u32
  nd_public_key_len :: byte
  nd_public_key :: bytes
  nd_path_len :: byte
  nd_path :: bytes
  nd_uplink_snr :: byte
  nd_downlink_snr :: byte

record advert_event =
  ae_name :: bytes
  ae_role :: node_role
  ae_public_key :: bytes
  ae_is_new :: bool
  ae_advert_timestamp :: u32
  ae_has_position :: bool
  ae_latitude :: u32
  ae_longitude :: u32
  ae_has_out_path :: bool
  ae_out_path_len :: byte
  ae_path_hash_size :: byte
  ae_out_path :: bytes
  ae_raw_advert_len :: byte
  ae_raw_advert :: bytes

record peer_path_event =
  pe_tag :: u32
  pe_key_prefix :: bytes
  pe_timestamp :: u32
  pe_last_seen_snr :: byte
  pe_out_path_len :: byte
  pe_path_hash_size :: byte
  pe_out_path :: bytes
  pe_out_path_snr_count :: byte
  pe_out_path_snr :: bytes
  pe_return_path_snr_count :: byte
  pe_return_path_snr :: bytes

section \<open>Hooks\<close>

text \<open>The notification hooks with their arguments.\<close>

datatype host_event =
    RadioBegin
  | RadioNoiseFloorCalibrate int
  | RadioAgcReset
  | DispatcherLogRxRaw rat rat bytes nat
  | DispatcherLogRx packet_view nat rat
  | DispatcherLogTx packet_view nat
  | DispatcherLogTxFail packet_view nat
  | MeshOnPeerDataRecv packet_view byte peer_identity bytes bytes nat
  | MeshOnTraceRecv packet_view u32 u32 byte bytes bytes byte
  | MeshOnAdvertRecv packet_view bytes u32 bytes nat
  | MeshOnAnonDataRecv packet_view bytes bytes bytes nat
  | MeshOnPathRecv packet_view bytes bytes byte byte bytes byte
  | MeshOnControlDataRecv packet_view
  | MeshOnRawDataRecv packet_view
  | MeshOnGroupDataRecv packet_view byte channel_view bytes nat
  | MeshOnAckRecv packet_view u32
  | RuntimeRequestError byte int
  | EventMessage message
  | EventMessageAck bytes byte
  | EventAdvert advert_event
  | EventPeerPathPublish peer_path_event bool
  | EventPeerPath peer_path_event
  | EventTracePath byte u32 bytes byte bytes byte bool byte u32
  | EventTelemetry bytes u32 u32 bytes nat
  | EventBinaryRequest binary_request_event
  | EventBinaryResponse bytes u32 u32 bytes nat
  | EventNodeDiscover node_discover_event
  | EventChannelData channel_data_event
  | EventRawData data_event
  | EventControlData data_event
  | PeerSeenUpdate bytes bool byte
  | TimerArm u32
  | TimerCancel

text \<open>
  A hook that fills a struct returns the pair of its return code and the struct.
  \<open>h_peer_slots\<close> is the number of peer slots of the host, a bound for the iteration of
  \<open>h_next_peer_shared_secret\<close>.
\<close>

record 'w host =
  h_crypto :: crypto
  h_ec :: curve
  h_event :: "host_event \<Rightarrow> ('w, int) state"
  h_millis :: "('w, u32) state"
  h_rtc :: "('w, u32) state"
  h_rng_random :: "nat \<Rightarrow> ('w, nat \<Rightarrow> byte) state"
  h_radio_packet_send :: "bytes \<Rightarrow> ('w, int) state"
  h_radio_airtime :: "nat \<Rightarrow> ('w, u32) state"
  h_radio_packet_score :: "byte \<Rightarrow> nat \<Rightarrow> ('w, rat) state"
  h_radio_in_rx_mode :: "('w, bool) state"
  h_radio_receiving :: "('w, bool) state"
  h_airtime_budget_factor :: "('w, rat) state"
  h_rx_delay_calc :: "rat \<Rightarrow> u32 \<Rightarrow> ('w, int) state"
  h_cad_fail_max_duration :: "('w, u32) state"
  h_interference_threshold :: "('w, int) state"
  h_agc_reset_interval :: "('w, int) state"
  h_duty_cycle_window_ms :: "('w, u32) state"
  h_cad_fail_retry_delay :: "('w, u32) state"
  h_filter_recv_flood_packet :: "packet_view \<Rightarrow> ('w, bool) state"
  h_allow_packet_forward :: "packet_view \<Rightarrow> ('w, bool) state"
  h_retransmit_delay :: "packet_view \<Rightarrow> ('w, u32) state"
  h_direct_retransmit_delay :: "packet_view \<Rightarrow> ('w, u32) state"
  h_extra_ack_transmit_count :: "('w, byte) state"
  h_peer_slots :: nat
  h_next_peer_shared_secret :: "byte \<Rightarrow> nat \<Rightarrow> ('w, int \<times> nat \<times> bytes \<times> peer_identity) state"
  h_channel_search :: "byte \<Rightarrow> nat \<Rightarrow> ('w, int \<times> (nat \<Rightarrow> channel_view)) state"
  h_on_peer_path_recv ::
    "packet_view \<Rightarrow> peer_identity \<Rightarrow> bytes \<Rightarrow> bytes \<Rightarrow> byte \<Rightarrow> byte \<Rightarrow> bytes \<Rightarrow> byte \<Rightarrow> ('w, bool) state"
  h_node_identity :: "('w, int \<times> node_identity) state"
  h_node_config_last_modify :: "('w, int \<times> u32) state"
  h_node_runtime_policy :: "('w, int \<times> node_runtime_policy) state"
  h_node_advert_profile :: "('w, int \<times> node_advert_profile) state"
  h_peer_path_by_key :: "bytes \<Rightarrow> ('w, int \<times> peer_path) state"
  h_channel_secret_match_exists :: "byte \<Rightarrow> bytes \<Rightarrow> nat \<Rightarrow> ('w, int) state"
  h_channel_secret_hash :: "bytes \<Rightarrow> nat \<Rightarrow> ('w, int \<times> byte) state"
  h_telemetry_node :: "bytes \<Rightarrow> byte \<Rightarrow> ('w, int \<times> telemetry_payload) state"

section \<open>Views\<close>

definition meshcore_platform_bridge_route_from_packet :: "packet \<Rightarrow> message_route" where
  "meshcore_platform_bridge_route_from_packet p =
     (if meshcore_packet_is_route_flood p then ROUTE_FLOOD
      else if meshcore_packet_is_route_direct p then ROUTE_DIRECT
      else ROUTE_UNSPECIFIED)"

text \<open>\<open>raw\<close> is the caller's buffer with its capacity, or \<open>None\<close> for a NULL pointer.\<close>

definition meshcore_platform_bridge_packet_view_init ::
  "packet \<Rightarrow> (bytes \<times> nat) option \<Rightarrow> packet_view" where
  "meshcore_platform_bridge_packet_view_init p raw =
     (let raw_len = meshcore_packet_get_raw_length p;
          view = \<lparr> pv_route = meshcore_platform_bridge_route_from_packet p,
                   pv_payload_type = meshcore_packet_get_payload_type p,
                   pv_payload_ver = meshcore_packet_get_payload_ver p,
                   pv_path_len = ucast (pk_path_len p),
                   pv_path_hash_size = meshcore_packet_get_path_hash_size p,
                   pv_path_hash_count = meshcore_packet_get_path_hash_count p,
                   pv_path_byte_len = meshcore_packet_get_path_byte_len p,
                   pv_path = pk_path p,
                   pv_payload_len = pk_payload_len p,
                   pv_payload = pk_payload p,
                   pv_raw_len = of_nat raw_len,
                   pv_raw = None,
                   pv_has_rx_snr = True,
                   pv_rx_snr_q4 = pk_snr_q4 p,
                   pv_has_transport_snr = meshcore_packet_has_snr_flag p,
                   pv_has_transport_codes = meshcore_packet_has_transport_codes p \<rparr> in
      case raw of
        None \<Rightarrow> view
      | Some (dest, capacity) \<Rightarrow>
          if raw_len > capacity then view
          else
            let (written_len, dest) = meshcore_packet_write_to p dest in
            if written_len > 0 then view \<lparr> pv_raw := Some dest, pv_raw_len := ucast written_len \<rparr>
            else view)"

abbreviation packet_view_of :: "packet \<Rightarrow> packet_view" where
  "packet_view_of p \<equiv> meshcore_platform_bridge_packet_view_init p None"

definition meshcore_platform_bridge_identity_view_init :: "identity \<Rightarrow> bytes" where
  "meshcore_platform_bridge_identity_view_init i = mem_write 0 (mem_read 0 32 (id_pub_key i)) (zeros 32)"

definition meshcore_platform_bridge_channel_view_init :: "group_channel \<Rightarrow> channel_view" where
  "meshcore_platform_bridge_channel_view_init c =
     \<lparr> cv_hash = mem_write 0 (mem_read 0 1 (gc_hash c)) (zeros 1),
       cv_secret = mem_write 0 (mem_read 0 32 (gc_secret c)) (zeros 32) \<rparr>"

definition meshcore_platform_bridge_group_channel_init :: "channel_view \<Rightarrow> group_channel" where
  "meshcore_platform_bridge_group_channel_init v =
     \<lparr> gc_hash = mem_write 0 (mem_read 0 1 (cv_hash v)) (zeros 1),
       gc_secret = mem_write 0 (mem_read 0 32 (cv_secret v)) (zeros 32) \<rparr>"

section \<open>An example host\<close>

text \<open>
  A host with one peer and one channel whose hooks do nothing and answer with constants;
  the witnesses run the model on it.
\<close>

definition example_identity :: node_identity where
  "example_identity = \<lparr> ni_name = [110, 0], ni_role = ROLE_CHAT, ni_public_key = replicate 32 7,
     ni_private_key = replicate 64 9 \<rparr>"

definition example_policy :: node_runtime_policy where
  "example_policy = \<lparr> rp_path_hash_size = 1, rp_loop_detect = LOOP_DETECT_STRICT, rp_client_repeat = False,
     rp_disable_fwd = False, rp_flood_max = 8, rp_multi_acks = 0, rp_tx_delay_factor = 1,
     rp_direct_tx_delay_factor = 1 \<rparr>"

definition example_peer :: peer_identity where
  "example_peer = \<lparr> pi_name = [112, 0], pi_role = ROLE_CHAT, pi_flags = 0, pi_public_key = replicate 32 5 \<rparr>"

definition example_host :: "unit host" where
  "example_host = \<lparr>
     h_crypto = xor_crypto,
     h_ec = zero_curve,
     h_event = \<lambda>_. State_Monad.return 0,
     h_millis = State_Monad.return 1000,
     h_rtc = State_Monad.return 77,
     h_rng_random = \<lambda>_. State_Monad.return (\<lambda>_. 1),
     h_radio_packet_send = \<lambda>_. State_Monad.return 0,
     h_radio_airtime = \<lambda>_. State_Monad.return 100,
     h_radio_packet_score = \<lambda>_ _. State_Monad.return 1,
     h_radio_in_rx_mode = State_Monad.return True,
     h_radio_receiving = State_Monad.return False,
     h_airtime_budget_factor = State_Monad.return 1,
     h_rx_delay_calc = \<lambda>_ _. State_Monad.return 0,
     h_cad_fail_max_duration = State_Monad.return 4000,
     h_interference_threshold = State_Monad.return 0,
     h_agc_reset_interval = State_Monad.return 0,
     h_duty_cycle_window_ms = State_Monad.return 3600000,
     h_cad_fail_retry_delay = State_Monad.return 200,
     h_filter_recv_flood_packet = \<lambda>_. State_Monad.return False,
     h_allow_packet_forward = \<lambda>_. State_Monad.return True,
     h_retransmit_delay = \<lambda>_. State_Monad.return 0,
     h_direct_retransmit_delay = \<lambda>_. State_Monad.return 0,
     h_extra_ack_transmit_count = State_Monad.return 0,
     h_peer_slots = 1,
     h_next_peer_shared_secret = \<lambda>_ start_slot.
       State_Monad.return (if start_slot = 0 then 0 else - 2, 0, zeros 32, example_peer),
     h_channel_search = \<lambda>_ _. State_Monad.return (0, \<lambda>_. \<lparr> cv_hash = zeros 1, cv_secret = zeros 32 \<rparr>),
     h_on_peer_path_recv = \<lambda>_ _ _ _ _ _ _ _. State_Monad.return False,
     h_node_identity = State_Monad.return (0, example_identity),
     h_node_config_last_modify = State_Monad.return (0, 5),
     h_node_runtime_policy = State_Monad.return (0, example_policy),
     h_node_advert_profile = State_Monad.return (0, \<lparr> ap_has_position = False, ap_latitude = 0, ap_longitude = 0,
       ap_advert_interval = 0, ap_flood_advert_interval = 0 \<rparr>),
     h_peer_path_by_key = \<lambda>_. State_Monad.return (- 2, \<lparr> pp_out_path_len = 0, pp_is_neighbor = False,
       pp_out_path = zeros 64, pp_path_hash_size = 1 \<rparr>),
     h_channel_secret_match_exists = \<lambda>_ _ _. State_Monad.return 1,
     h_channel_secret_hash = \<lambda>_ _. State_Monad.return (0, 3),
     h_telemetry_node = \<lambda>_ _. State_Monad.return (- 2, \<lparr> tp_has_latitude = False, tp_latitude = 0,
       tp_has_longitude = False, tp_longitude = 0, tp_payload_len = 0, tp_payload = zeros 163 \<rparr>) \<rparr>"

end
