(* ===== verification/Core_State.thy ===== *)
theory Core_State
  imports Platform Packet_Manager Tables
begin

text \<open>
  The state of a node and the small components on it: the clocks
  (\<open>core/meshcore_clock.c\<close>), the random numbers (\<open>core/meshcore_rng.c\<close>), the radio
  (\<open>core/meshcore_radio.c\<close>) and the calls into the host
  (\<open>platform/meshcore_platform_bridge.c\<close>).

  The state is the static data of the C program: the packet manager, the duplicate tables,
  the dispatcher, the local identity and the runtime's own data \<open>'r\<close>, together with the
  world of the host.  \<open>unsigned long\<close> has 32 bits, as on the microcontrollers
  the library is written for.

  The second half states who owns which packet buffer.  \<open>owns R out H P s\<close> says
  that the buffers in \<open>H\<close> are in the hands of the running code and have the contents
  \<open>P\<close>, that every other buffer is in a queue or is the one being transmitted, and that
  every queued packet can be put on the wire.
\<close>

section \<open>State\<close>

record dispatcher =
  dp_outbound :: "packet_ref option"
  dp_outbound_expiry :: u32
  dp_outbound_start :: u32
  dp_total_air_time :: u32
  dp_rx_air_time :: u32
  dp_next_tx_time :: u32
  dp_cad_busy_start :: u32
  dp_radio_nonrx_start :: u32
  dp_next_floor_calib_time :: u32
  dp_next_agc_reset_time :: u32
  dp_prev_isrecv_mode :: bool
  dp_n_sent_flood :: u32
  dp_n_sent_direct :: u32
  dp_n_recv_flood :: u32
  dp_n_recv_direct :: u32
  dp_tx_budget_ms :: u32
  dp_last_budget_update :: u32
  dp_duty_cycle_window_ms :: u32
  dp_err_flags :: u16

text \<open>A dispatcher after \<open>memset\<close>.\<close>

definition dispatcher_zero :: dispatcher where
  "dispatcher_zero = \<lparr> dp_outbound = None, dp_outbound_expiry = 0, dp_outbound_start = 0,
     dp_total_air_time = 0, dp_rx_air_time = 0, dp_next_tx_time = 0, dp_cad_busy_start = 0,
     dp_radio_nonrx_start = 0, dp_next_floor_calib_time = 0, dp_next_agc_reset_time = 0,
     dp_prev_isrecv_mode = False, dp_n_sent_flood = 0, dp_n_sent_direct = 0, dp_n_recv_flood = 0,
     dp_n_recv_direct = 0, dp_tx_budget_ms = 0, dp_last_budget_update = 0,
     dp_duty_cycle_window_ms = 0, dp_err_flags = 0 \<rparr>"

record ('w, 'r) core =
  co_world :: 'w
  co_millis_override :: "u32 option"
  co_mgr :: queue_manager
  co_tables :: tables
  co_disp :: dispatcher
  co_self :: local_identity
  co_rt :: 'r

type_synonym ('w, 'r, 'a) op = "(('w, 'r) core, 'a) state"

abbreviation ret :: "'a \<Rightarrow> ('s, 'a) state" where
  "ret \<equiv> State_Monad.return"

text \<open>A call of a host hook.\<close>

definition call :: "('w, 'a) state \<Rightarrow> ('w, 'r, 'a) op" where
  "call m = State (\<lambda>s. let (a, w) = run_state m (co_world s) in (a, s \<lparr> co_world := w \<rparr>))"

definition notify :: "'w host \<Rightarrow> host_event \<Rightarrow> ('w, 'r, unit) op" where
  "notify h e = do { _ \<leftarrow> call (h_event h e); ret () }"

text \<open>Reading and writing a packet through its pointer, and the dispatcher's fields.\<close>

definition pk_get :: "packet_ref \<Rightarrow> ('w, 'r, packet) op" where
  "pk_get r = gets (\<lambda>s. mgr_packet (co_mgr s) r)"

definition pk_put :: "packet_ref \<Rightarrow> packet \<Rightarrow> ('w, 'r, unit) op" where
  "pk_put r p = modify (\<lambda>s. s \<lparr> co_mgr := mgr_set_packet r p (co_mgr s) \<rparr>)"

definition disp_get :: "('w, 'r, dispatcher) op" where
  "disp_get = gets co_disp"

definition disp_modify :: "(dispatcher \<Rightarrow> dispatcher) \<Rightarrow> ('w, 'r, unit) op" where
  "disp_modify f = modify (\<lambda>s. s \<lparr> co_disp := f (co_disp s) \<rparr>)"

text \<open>The operations of the packet manager on the node's manager.\<close>

definition mgr_alloc_new :: "('w, 'r, packet_ref option) op" where
  "mgr_alloc_new = State (\<lambda>s. let (r, m) = meshcore_packet_queue_manager_alloc_new (co_mgr s)
     in (r, s \<lparr> co_mgr := m \<rparr>))"

definition mgr_free :: "packet_ref \<Rightarrow> ('w, 'r, unit) op" where
  "mgr_free r = modify (\<lambda>s. s \<lparr> co_mgr := meshcore_packet_queue_manager_free (co_mgr s) r \<rparr>)"

definition mgr_queue_outbound :: "packet_ref \<Rightarrow> byte \<Rightarrow> u32 \<Rightarrow> ('w, 'r, unit) op" where
  "mgr_queue_outbound r priority scheduled_for = modify (\<lambda>s. s \<lparr> co_mgr :=
     meshcore_packet_queue_manager_queue_outbound (co_mgr s) r priority scheduled_for \<rparr>)"

definition mgr_queue_inbound :: "packet_ref \<Rightarrow> u32 \<Rightarrow> ('w, 'r, unit) op" where
  "mgr_queue_inbound r scheduled_for = modify (\<lambda>s. s \<lparr> co_mgr :=
     meshcore_packet_queue_manager_queue_inbound (co_mgr s) r scheduled_for \<rparr>)"

definition mgr_get_next_inbound :: "u32 \<Rightarrow> ('w, 'r, packet_ref option) op" where
  "mgr_get_next_inbound now =
     State (\<lambda>s. let (r, m) = meshcore_packet_queue_manager_get_next_inbound (co_mgr s) now
     in (r, s \<lparr> co_mgr := m \<rparr>))"

text \<open>\<open>dispatcher->outbound = meshcore_packet_queue_manager_get_next_outbound(...)\<close>\<close>

definition mgr_take_outbound :: "u32 \<Rightarrow> ('w, 'r, packet_ref option) op" where
  "mgr_take_outbound now =
     State (\<lambda>s. let (r, m) = meshcore_packet_queue_manager_get_next_outbound (co_mgr s) now
     in (r, s \<lparr> co_mgr := m, co_disp := (co_disp s) \<lparr> dp_outbound := r \<rparr> \<rparr>))"

section \<open>Calls into the host\<close>

definition meshcore_platform_bridge_radio_packet_send ::
  "'w host \<Rightarrow> bytes \<Rightarrow> nat \<Rightarrow> ('w, 'r, int) op" where
  "meshcore_platform_bridge_radio_packet_send h data len =
     call (h_radio_packet_send h (mem_read 0 len data))"

definition meshcore_platform_bridge_radio_airtime ::
  "'w host \<Rightarrow> nat \<Rightarrow> ('w, 'r, u32) op" where
  "meshcore_platform_bridge_radio_airtime h len =
     call (h_radio_airtime h len)"

definition meshcore_platform_bridge_radio_packet_score ::
  "'w host \<Rightarrow> byte \<Rightarrow> nat \<Rightarrow> ('w, 'r, rat) op" where
  "meshcore_platform_bridge_radio_packet_score h snr_q4 len =
     call (h_radio_packet_score h snr_q4 len)"

definition meshcore_platform_bridge_radio_in_rx_mode_get ::
  "'w host \<Rightarrow> ('w, 'r, bool) op" where
  "meshcore_platform_bridge_radio_in_rx_mode_get h =
     call (h_radio_in_rx_mode h)"

definition meshcore_platform_bridge_radio_receiving_get ::
  "'w host \<Rightarrow> ('w, 'r, bool) op" where
  "meshcore_platform_bridge_radio_receiving_get h =
     call (h_radio_receiving h)"

definition meshcore_platform_bridge_millis_get ::
  "'w host \<Rightarrow> ('w, 'r, u32) op" where
  "meshcore_platform_bridge_millis_get h =
     call (h_millis h)"

definition meshcore_platform_bridge_rtc_get_current_time ::
  "'w host \<Rightarrow> ('w, 'r, u32) op" where
  "meshcore_platform_bridge_rtc_get_current_time h =
     call (h_rtc h)"

definition meshcore_platform_bridge_telemetry_node_get ::
  "'w host \<Rightarrow> bytes \<Rightarrow> byte \<Rightarrow> ('w, 'r, int \<times> telemetry_payload) op" where
  "meshcore_platform_bridge_telemetry_node_get h requester permission_mask =
     call (h_telemetry_node h requester permission_mask)"

definition meshcore_platform_bridge_node_identity_get ::
  "'w host \<Rightarrow> ('w, 'r, int \<times> node_identity) op" where
  "meshcore_platform_bridge_node_identity_get h =
     call (h_node_identity h)"

definition meshcore_platform_bridge_node_config_last_modify_get ::
  "'w host \<Rightarrow> ('w, 'r, int \<times> u32) op" where
  "meshcore_platform_bridge_node_config_last_modify_get h =
     call (h_node_config_last_modify h)"

definition meshcore_platform_bridge_node_runtime_policy_get ::
  "'w host \<Rightarrow> ('w, 'r, int \<times> node_runtime_policy) op" where
  "meshcore_platform_bridge_node_runtime_policy_get h =
     call (h_node_runtime_policy h)"

definition meshcore_platform_bridge_node_advert_profile_get ::
  "'w host \<Rightarrow> ('w, 'r, int \<times> node_advert_profile) op" where
  "meshcore_platform_bridge_node_advert_profile_get h =
     call (h_node_advert_profile h)"

definition meshcore_platform_bridge_peer_path_get_by_key ::
  "'w host \<Rightarrow> bytes \<Rightarrow> ('w, 'r, int \<times> peer_path) op" where
  "meshcore_platform_bridge_peer_path_get_by_key h public_key =
     call (h_peer_path_by_key h public_key)"

definition meshcore_platform_bridge_channel_secret_match_exists ::
  "'w host \<Rightarrow> byte \<Rightarrow> bytes \<Rightarrow> nat \<Rightarrow> ('w, 'r, int) op" where
  "meshcore_platform_bridge_channel_secret_match_exists h channel_hash secret secret_len =
     call (h_channel_secret_match_exists h channel_hash secret secret_len)"

definition meshcore_platform_bridge_channel_secret_hash ::
  "'w host \<Rightarrow> bytes \<Rightarrow> nat \<Rightarrow> ('w, 'r, int \<times> byte) op" where
  "meshcore_platform_bridge_channel_secret_hash h secret secret_len =
     call (h_channel_secret_hash h secret secret_len)"

definition meshcore_platform_bridge_mesh_extra_ack_transmit_count_get ::
  "'w host \<Rightarrow> ('w, 'r, byte) op" where
  "meshcore_platform_bridge_mesh_extra_ack_transmit_count_get h =
     call (h_extra_ack_transmit_count h)"

definition meshcore_platform_bridge_mesh_retransmit_delay_get ::
  "'w host \<Rightarrow> packet \<Rightarrow> ('w, 'r, u32) op" where
  "meshcore_platform_bridge_mesh_retransmit_delay_get h p =
     call (h_retransmit_delay h (packet_view_of p))"

definition meshcore_platform_bridge_dispatcher_airtime_budget_factor_get ::
  "'w host \<Rightarrow> ('w, 'r, rat) op" where
  "meshcore_platform_bridge_dispatcher_airtime_budget_factor_get h =
     call (h_airtime_budget_factor h)"

definition meshcore_platform_bridge_dispatcher_rx_delay_calc ::
  "'w host \<Rightarrow> rat \<Rightarrow> u32 \<Rightarrow> ('w, 'r, int) op" where
  "meshcore_platform_bridge_dispatcher_rx_delay_calc h score air_time =
     call (h_rx_delay_calc h score air_time)"

definition meshcore_platform_bridge_dispatcher_cad_fail_max_duration_get ::
  "'w host \<Rightarrow> ('w, 'r, u32) op" where
  "meshcore_platform_bridge_dispatcher_cad_fail_max_duration_get h =
     call (h_cad_fail_max_duration h)"

definition meshcore_platform_bridge_dispatcher_interference_threshold_get ::
  "'w host \<Rightarrow> ('w, 'r, int) op" where
  "meshcore_platform_bridge_dispatcher_interference_threshold_get h =
     call (h_interference_threshold h)"

definition meshcore_platform_bridge_dispatcher_agc_reset_interval_get ::
  "'w host \<Rightarrow> ('w, 'r, int) op" where
  "meshcore_platform_bridge_dispatcher_agc_reset_interval_get h =
     call (h_agc_reset_interval h)"

definition meshcore_platform_bridge_dispatcher_duty_cycle_window_ms_get ::
  "'w host \<Rightarrow> ('w, 'r, u32) op" where
  "meshcore_platform_bridge_dispatcher_duty_cycle_window_ms_get h =
     call (h_duty_cycle_window_ms h)"

definition meshcore_platform_bridge_mesh_cad_fail_retry_delay_get ::
  "'w host \<Rightarrow> ('w, 'r, u32) op" where
  "meshcore_platform_bridge_mesh_cad_fail_retry_delay_get h =
     call (h_cad_fail_retry_delay h)"

definition meshcore_platform_bridge_mesh_filter_recv_flood_packet ::
  "'w host \<Rightarrow> packet \<Rightarrow> ('w, 'r, bool) op" where
  "meshcore_platform_bridge_mesh_filter_recv_flood_packet h p =
     call (h_filter_recv_flood_packet h (packet_view_of p))"

definition meshcore_platform_bridge_mesh_allow_packet_forward ::
  "'w host \<Rightarrow> packet \<Rightarrow> ('w, 'r, bool) op" where
  "meshcore_platform_bridge_mesh_allow_packet_forward h p =
     call (h_allow_packet_forward h (packet_view_of p))"

definition meshcore_platform_bridge_mesh_direct_retransmit_delay_get ::
  "'w host \<Rightarrow> packet \<Rightarrow> ('w, 'r, u32) op" where
  "meshcore_platform_bridge_mesh_direct_retransmit_delay_get h p =
     call (h_direct_retransmit_delay h (packet_view_of p))"

definition meshcore_platform_bridge_mesh_next_peer_shared_secret_by_hash ::
  "'w host \<Rightarrow> byte \<Rightarrow> nat \<Rightarrow> ('w, 'r, int \<times> nat \<times> bytes \<times> peer_identity) op" where
  "meshcore_platform_bridge_mesh_next_peer_shared_secret_by_hash h hash start_slot =
     call (h_next_peer_shared_secret h hash start_slot)"

definition meshcore_platform_bridge_mesh_on_peer_path_recv ::
  "'w host \<Rightarrow> packet \<Rightarrow> peer_identity \<Rightarrow> bytes \<Rightarrow> bytes \<Rightarrow> byte \<Rightarrow> byte \<Rightarrow> bytes \<Rightarrow> byte \<Rightarrow>
     ('w, 'r, bool) op" where
  "meshcore_platform_bridge_mesh_on_peer_path_recv h p sender secret path path_len extra_type extra extra_len =
     call (h_on_peer_path_recv h (packet_view_of p) sender secret path path_len extra_type extra extra_len)"

definition meshcore_platform_bridge_rng_random ::
  "'w host \<Rightarrow> nat \<Rightarrow> ('w, 'r, bytes) op" where
  "meshcore_platform_bridge_rng_random h n = do { f \<leftarrow> call (h_rng_random h n); ret (buf n f) }"

text \<open>\<open>advert_handler\<close> is the one event hook whose return code is used.\<close>

definition meshcore_platform_bridge_advert_handler ::
  "'w host \<Rightarrow> advert_event \<Rightarrow> ('w, 'r, int) op" where
  "meshcore_platform_bridge_advert_handler h advert =
     call (h_event h (EventAdvert advert))"

definition meshcore_platform_bridge_radio_begin ::
  "'w host \<Rightarrow> ('w, 'r, unit) op" where
  "meshcore_platform_bridge_radio_begin h =
     notify h RadioBegin"

definition meshcore_platform_bridge_radio_noise_floor_calibrate ::
  "'w host \<Rightarrow> int \<Rightarrow> ('w, 'r, unit) op" where
  "meshcore_platform_bridge_radio_noise_floor_calibrate h threshold =
     notify h (RadioNoiseFloorCalibrate threshold)"

definition meshcore_platform_bridge_radio_agc_reset ::
  "'w host \<Rightarrow> ('w, 'r, unit) op" where
  "meshcore_platform_bridge_radio_agc_reset h =
     notify h RadioAgcReset"

definition meshcore_platform_bridge_peer_seen_update ::
  "'w host \<Rightarrow> bytes \<Rightarrow> bool \<Rightarrow> byte \<Rightarrow> ('w, 'r, unit) op" where
  "meshcore_platform_bridge_peer_seen_update h public_key has_snr snr_q4 =
     notify h (PeerSeenUpdate public_key has_snr snr_q4)"

definition meshcore_platform_bridge_request_error ::
  "'w host \<Rightarrow> byte \<Rightarrow> int \<Rightarrow> ('w, 'r, unit) op" where
  "meshcore_platform_bridge_request_error h request_type err_code =
     notify h (RuntimeRequestError request_type err_code)"

definition meshcore_platform_bridge_message_handler ::
  "'w host \<Rightarrow> message \<Rightarrow> ('w, 'r, unit) op" where
  "meshcore_platform_bridge_message_handler h message =
     notify h (EventMessage message)"

definition meshcore_platform_bridge_message_ack_handler ::
  "'w host \<Rightarrow> bytes \<Rightarrow> byte \<Rightarrow> ('w, 'r, unit) op" where
  "meshcore_platform_bridge_message_ack_handler h target attempt =
     notify h (EventMessageAck target attempt)"

definition meshcore_platform_bridge_peer_path_publish ::
  "'w host \<Rightarrow> peer_path_event \<Rightarrow> bool \<Rightarrow> ('w, 'r, unit) op" where
  "meshcore_platform_bridge_peer_path_publish h peer_path is_discover =
     notify h (EventPeerPathPublish peer_path is_discover)"

definition meshcore_platform_bridge_peer_path_handler ::
  "'w host \<Rightarrow> peer_path_event \<Rightarrow> ('w, 'r, unit) op" where
  "meshcore_platform_bridge_peer_path_handler h peer_path =
     notify h (EventPeerPath peer_path)"

definition meshcore_platform_bridge_trace_path_handler ::
  "'w host \<Rightarrow> byte \<Rightarrow> u32 \<Rightarrow> bytes \<Rightarrow> byte \<Rightarrow> bytes \<Rightarrow> byte \<Rightarrow> bool \<Rightarrow> byte \<Rightarrow> u32 \<Rightarrow>
     ('w, 'r, unit) op" where
  "meshcore_platform_bridge_trace_path_handler h st tag out_path_snr out_count return_path_snr return_count has_response_snr response_snr timestamp =
     notify h (EventTracePath st tag out_path_snr out_count return_path_snr return_count
       has_response_snr response_snr timestamp)"

definition meshcore_platform_bridge_telemetry_handler ::
  "'w host \<Rightarrow> bytes \<Rightarrow> u32 \<Rightarrow> u32 \<Rightarrow> bytes \<Rightarrow> nat \<Rightarrow> ('w, 'r, unit) op" where
  "meshcore_platform_bridge_telemetry_handler h key_prefix timestamp tag payload payload_len =
     notify h (EventTelemetry key_prefix timestamp tag payload payload_len)"

definition meshcore_platform_bridge_binary_request_handler ::
  "'w host \<Rightarrow> binary_request_event \<Rightarrow> ('w, 'r, unit) op" where
  "meshcore_platform_bridge_binary_request_handler h event =
     notify h (EventBinaryRequest event)"

definition meshcore_platform_bridge_binary_response_handler ::
  "'w host \<Rightarrow> bytes \<Rightarrow> u32 \<Rightarrow> u32 \<Rightarrow> bytes \<Rightarrow> nat \<Rightarrow> ('w, 'r, unit) op" where
  "meshcore_platform_bridge_binary_response_handler h key_prefix timestamp tag payload payload_len =
     notify h (EventBinaryResponse key_prefix timestamp tag payload payload_len)"

definition meshcore_platform_bridge_node_discover_handler ::
  "'w host \<Rightarrow> node_discover_event \<Rightarrow> ('w, 'r, unit) op" where
  "meshcore_platform_bridge_node_discover_handler h event =
     notify h (EventNodeDiscover event)"

definition meshcore_platform_bridge_channel_data_handler ::
  "'w host \<Rightarrow> channel_data_event \<Rightarrow> ('w, 'r, unit) op" where
  "meshcore_platform_bridge_channel_data_handler h event =
     notify h (EventChannelData event)"

definition meshcore_platform_bridge_raw_data_handler ::
  "'w host \<Rightarrow> data_event \<Rightarrow> ('w, 'r, unit) op" where
  "meshcore_platform_bridge_raw_data_handler h event =
     notify h (EventRawData event)"

definition meshcore_platform_bridge_control_data_handler ::
  "'w host \<Rightarrow> data_event \<Rightarrow> ('w, 'r, unit) op" where
  "meshcore_platform_bridge_control_data_handler h event =
     notify h (EventControlData event)"

definition meshcore_platform_bridge_dispatcher_log_rx_raw ::
  "'w host \<Rightarrow> rat \<Rightarrow> rat \<Rightarrow> bytes \<Rightarrow> nat \<Rightarrow> ('w, 'r, unit) op" where
  "meshcore_platform_bridge_dispatcher_log_rx_raw h snr rssi raw len =
     notify h (DispatcherLogRxRaw snr rssi raw len)"

definition meshcore_platform_bridge_dispatcher_log_rx ::
  "'w host \<Rightarrow> packet \<Rightarrow> nat \<Rightarrow> rat \<Rightarrow> ('w, 'r, unit) op" where
  "meshcore_platform_bridge_dispatcher_log_rx h p len score =
     notify h (DispatcherLogRx (packet_view_of p) len score)"

definition meshcore_platform_bridge_dispatcher_log_tx ::
  "'w host \<Rightarrow> packet \<Rightarrow> nat \<Rightarrow> ('w, 'r, unit) op" where
  "meshcore_platform_bridge_dispatcher_log_tx h p len =
     notify h (DispatcherLogTx (packet_view_of p) len)"

definition meshcore_platform_bridge_dispatcher_log_tx_fail ::
  "'w host \<Rightarrow> packet \<Rightarrow> nat \<Rightarrow> ('w, 'r, unit) op" where
  "meshcore_platform_bridge_dispatcher_log_tx_fail h p len =
     notify h (DispatcherLogTxFail (packet_view_of p) len)"

definition meshcore_platform_bridge_mesh_on_peer_data_recv ::
  "'w host \<Rightarrow> packet \<Rightarrow> byte \<Rightarrow> peer_identity \<Rightarrow> bytes \<Rightarrow> bytes \<Rightarrow> nat \<Rightarrow> ('w, 'r, unit) op" where
  "meshcore_platform_bridge_mesh_on_peer_data_recv h p ty sender secret data len =
     notify h (MeshOnPeerDataRecv (packet_view_of p) ty sender secret data len)"

definition meshcore_platform_bridge_mesh_on_trace_recv ::
  "'w host \<Rightarrow> packet \<Rightarrow> u32 \<Rightarrow> u32 \<Rightarrow> byte \<Rightarrow> bytes \<Rightarrow> bytes \<Rightarrow> byte \<Rightarrow> ('w, 'r, unit) op" where
  "meshcore_platform_bridge_mesh_on_trace_recv h p tag auth_code flags path_snrs path_hashes path_len =
     notify h (MeshOnTraceRecv (packet_view_of p) tag auth_code flags path_snrs path_hashes path_len)"

definition meshcore_platform_bridge_mesh_on_advert_recv ::
  "'w host \<Rightarrow> packet \<Rightarrow> identity \<Rightarrow> u32 \<Rightarrow> bytes \<Rightarrow> nat \<Rightarrow> ('w, 'r, unit) op" where
  "meshcore_platform_bridge_mesh_on_advert_recv h p i timestamp app_data app_data_len =
     notify h (MeshOnAdvertRecv
       (meshcore_platform_bridge_packet_view_init p (Some (zeros 255, 255)))
       (meshcore_platform_bridge_identity_view_init i) timestamp app_data app_data_len)"

definition meshcore_platform_bridge_mesh_on_anon_data_recv ::
  "'w host \<Rightarrow> packet \<Rightarrow> bytes \<Rightarrow> identity \<Rightarrow> bytes \<Rightarrow> nat \<Rightarrow> ('w, 'r, unit) op" where
  "meshcore_platform_bridge_mesh_on_anon_data_recv h p secret sender data len =
     notify h (MeshOnAnonDataRecv (packet_view_of p) secret
       (meshcore_platform_bridge_identity_view_init sender) data len)"

definition meshcore_platform_bridge_mesh_on_path_recv ::
  "'w host \<Rightarrow> packet \<Rightarrow> identity \<Rightarrow> bytes \<Rightarrow> byte \<Rightarrow> byte \<Rightarrow> bytes \<Rightarrow> byte \<Rightarrow> ('w, 'r, unit) op" where
  "meshcore_platform_bridge_mesh_on_path_recv h p sender path path_len extra_type extra extra_len =
     notify h (MeshOnPathRecv (packet_view_of p)
       (meshcore_platform_bridge_identity_view_init sender) path path_len extra_type extra extra_len)"

definition meshcore_platform_bridge_mesh_on_control_data_recv ::
  "'w host \<Rightarrow> packet \<Rightarrow> ('w, 'r, unit) op" where
  "meshcore_platform_bridge_mesh_on_control_data_recv h p =
     notify h (MeshOnControlDataRecv (packet_view_of p))"

definition meshcore_platform_bridge_mesh_on_raw_data_recv ::
  "'w host \<Rightarrow> packet \<Rightarrow> ('w, 'r, unit) op" where
  "meshcore_platform_bridge_mesh_on_raw_data_recv h p =
     notify h (MeshOnRawDataRecv (packet_view_of p))"

definition meshcore_platform_bridge_mesh_on_group_data_recv ::
  "'w host \<Rightarrow> packet \<Rightarrow> byte \<Rightarrow> group_channel \<Rightarrow> bytes \<Rightarrow> nat \<Rightarrow> ('w, 'r, unit) op" where
  "meshcore_platform_bridge_mesh_on_group_data_recv h p ty channel data len =
     notify h (MeshOnGroupDataRecv (packet_view_of p) ty
       (meshcore_platform_bridge_channel_view_init channel) data len)"

definition meshcore_platform_bridge_mesh_on_ack_recv ::
  "'w host \<Rightarrow> packet \<Rightarrow> u32 \<Rightarrow> ('w, 'r, unit) op" where
  "meshcore_platform_bridge_mesh_on_ack_recv h p ack_crc =
     notify h (MeshOnAckRecv (packet_view_of p) ack_crc)"

text \<open>
  \<open>max_matches\<close> is the capacity of the \<open>channels\<close> array; the matches are the entries of the
  array that the caller may read.
\<close>

definition meshcore_platform_bridge_mesh_search_channels_by_hash ::
  "'w host \<Rightarrow> byte \<Rightarrow> nat \<Rightarrow> ('w, 'r, group_channel list) op" where
  "meshcore_platform_bridge_mesh_search_channels_by_hash h hash max_matches =
     (let limit = (if max_matches > 4 then 4 else max_matches) in
      do {
        (rc, views) \<leftarrow> call (h_channel_search h hash limit);
        if max_matches = 0 \<or> rc \<le> 0 then ret []
        else
          let rc = (if rc > int limit then limit else nat rc)
          in ret (map (\<lambda>i. meshcore_platform_bridge_group_channel_init (views i)) [0..<rc])
      })"

lemmas bridge_defs =
  meshcore_platform_bridge_radio_packet_send_def
  meshcore_platform_bridge_radio_airtime_def
  meshcore_platform_bridge_radio_packet_score_def
  meshcore_platform_bridge_radio_in_rx_mode_get_def
  meshcore_platform_bridge_radio_receiving_get_def
  meshcore_platform_bridge_millis_get_def
  meshcore_platform_bridge_rtc_get_current_time_def
  meshcore_platform_bridge_telemetry_node_get_def
  meshcore_platform_bridge_node_identity_get_def
  meshcore_platform_bridge_node_config_last_modify_get_def
  meshcore_platform_bridge_node_runtime_policy_get_def
  meshcore_platform_bridge_node_advert_profile_get_def
  meshcore_platform_bridge_peer_path_get_by_key_def
  meshcore_platform_bridge_channel_secret_match_exists_def
  meshcore_platform_bridge_channel_secret_hash_def
  meshcore_platform_bridge_mesh_extra_ack_transmit_count_get_def
  meshcore_platform_bridge_mesh_retransmit_delay_get_def
  meshcore_platform_bridge_dispatcher_airtime_budget_factor_get_def
  meshcore_platform_bridge_dispatcher_rx_delay_calc_def
  meshcore_platform_bridge_dispatcher_cad_fail_max_duration_get_def
  meshcore_platform_bridge_dispatcher_interference_threshold_get_def
  meshcore_platform_bridge_dispatcher_agc_reset_interval_get_def
  meshcore_platform_bridge_dispatcher_duty_cycle_window_ms_get_def
  meshcore_platform_bridge_mesh_cad_fail_retry_delay_get_def
  meshcore_platform_bridge_mesh_filter_recv_flood_packet_def
  meshcore_platform_bridge_mesh_allow_packet_forward_def
  meshcore_platform_bridge_mesh_direct_retransmit_delay_get_def
  meshcore_platform_bridge_mesh_next_peer_shared_secret_by_hash_def
  meshcore_platform_bridge_mesh_on_peer_path_recv_def
  meshcore_platform_bridge_advert_handler_def
  meshcore_platform_bridge_radio_begin_def
  meshcore_platform_bridge_radio_noise_floor_calibrate_def
  meshcore_platform_bridge_radio_agc_reset_def
  meshcore_platform_bridge_peer_seen_update_def
  meshcore_platform_bridge_request_error_def
  meshcore_platform_bridge_message_handler_def
  meshcore_platform_bridge_message_ack_handler_def
  meshcore_platform_bridge_peer_path_publish_def
  meshcore_platform_bridge_peer_path_handler_def
  meshcore_platform_bridge_trace_path_handler_def
  meshcore_platform_bridge_telemetry_handler_def
  meshcore_platform_bridge_binary_request_handler_def
  meshcore_platform_bridge_binary_response_handler_def
  meshcore_platform_bridge_node_discover_handler_def
  meshcore_platform_bridge_channel_data_handler_def
  meshcore_platform_bridge_raw_data_handler_def
  meshcore_platform_bridge_control_data_handler_def
  meshcore_platform_bridge_dispatcher_log_rx_raw_def
  meshcore_platform_bridge_dispatcher_log_rx_def
  meshcore_platform_bridge_dispatcher_log_tx_def
  meshcore_platform_bridge_dispatcher_log_tx_fail_def
  meshcore_platform_bridge_mesh_on_peer_data_recv_def
  meshcore_platform_bridge_mesh_on_trace_recv_def
  meshcore_platform_bridge_mesh_on_advert_recv_def
  meshcore_platform_bridge_mesh_on_anon_data_recv_def
  meshcore_platform_bridge_mesh_on_path_recv_def
  meshcore_platform_bridge_mesh_on_control_data_recv_def
  meshcore_platform_bridge_mesh_on_raw_data_recv_def
  meshcore_platform_bridge_mesh_on_group_data_recv_def
  meshcore_platform_bridge_mesh_on_ack_recv_def

section \<open>Clocks\<close>

definition meshcore_clock_millis_get :: "'w host \<Rightarrow> ('w, 'r, u32) op" where
  "meshcore_clock_millis_get h = do {
     override \<leftarrow> gets co_millis_override;
     case override of
       Some value \<Rightarrow> ret value
     | None \<Rightarrow> meshcore_platform_bridge_millis_get h
   }"

definition meshcore_clock_millis_override_set :: "u32 \<Rightarrow> ('w, 'r, unit) op" where
  "meshcore_clock_millis_override_set value = modify (\<lambda>s. s \<lparr> co_millis_override := Some value \<rparr>)"

definition meshcore_clock_millis_override_clear :: "('w, 'r, unit) op" where
  "meshcore_clock_millis_override_clear = modify (\<lambda>s. s \<lparr> co_millis_override := None \<rparr>)"

definition meshcore_clock_millis_override_is_enabled :: "('w, 'r, bool) op" where
  "meshcore_clock_millis_override_is_enabled = gets (\<lambda>s. co_millis_override s \<noteq> None)"

definition meshcore_clock_millis_override_value_get :: "('w, 'r, u32) op" where
  "meshcore_clock_millis_override_value_get =
     gets (\<lambda>s. case co_millis_override s of Some value \<Rightarrow> value | None \<Rightarrow> 0)"

definition meshcore_clock_rtc_get_current_time :: "'w host \<Rightarrow> ('w, 'r, u32) op" where
  "meshcore_clock_rtc_get_current_time h = meshcore_platform_bridge_rtc_get_current_time h"

text \<open>The state of the unique clock is the last time it gave out.\<close>

definition meshcore_rtc_clock_state_init :: u32 where
  "meshcore_rtc_clock_state_init = 0"

definition meshcore_clock_rtc_get_current_time_unique ::
  "'w host \<Rightarrow> u32 \<Rightarrow> ('w, 'r, u32 \<times> u32) op" where
  "meshcore_clock_rtc_get_current_time_unique h last_unique = do {
     now \<leftarrow> meshcore_clock_rtc_get_current_time h;
     if now \<le> last_unique then ret (last_unique + 1, last_unique + 1)
     else ret (now, now)
   }"

section \<open>Random numbers\<close>

definition meshcore_rng_random :: "'w host \<Rightarrow> nat \<Rightarrow> ('w, 'r, bytes) op" where
  "meshcore_rng_random h n =
     (if n = 0 then ret [] else meshcore_platform_bridge_rng_random h n)"

definition meshcore_rng_next_int :: "'w host \<Rightarrow> u32 \<Rightarrow> u32 \<Rightarrow> ('w, 'r, u32) op" where
  "meshcore_rng_next_int h min_val max_val =
     (if max_val \<le> min_val then ret min_val
      else do {
        bs \<leftarrow> meshcore_rng_random h 4;
        ret (le_word bs mod (max_val - min_val) + min_val)
      })"

section \<open>Radio\<close>

definition meshcore_radio_begin :: "'w host \<Rightarrow> ('w, 'r, unit) op" where
  "meshcore_radio_begin h = meshcore_platform_bridge_radio_begin h"

definition meshcore_radio_get_est_airtime :: "'w host \<Rightarrow> nat \<Rightarrow> ('w, 'r, u32) op" where
  "meshcore_radio_get_est_airtime h len_bytes = meshcore_platform_bridge_radio_airtime h len_bytes"

definition meshcore_radio_packet_score :: "'w host \<Rightarrow> rat \<Rightarrow> nat \<Rightarrow> ('w, 'r, rat) op" where
  "meshcore_radio_packet_score h snr packet_len =
     meshcore_platform_bridge_radio_packet_score h (of_int (trunc (f32 (snr * 4)))) packet_len"

definition meshcore_radio_start_send_raw :: "'w host \<Rightarrow> bytes \<Rightarrow> nat \<Rightarrow> ('w, 'r, bool) op" where
  "meshcore_radio_start_send_raw h data len =
     (if len = 0 then ret False
      else do { rc \<leftarrow> meshcore_platform_bridge_radio_packet_send h data len; ret (rc \<noteq> 0) })"

definition meshcore_radio_is_in_recv_mode :: "'w host \<Rightarrow> ('w, 'r, bool) op" where
  "meshcore_radio_is_in_recv_mode h = meshcore_platform_bridge_radio_in_rx_mode_get h"

definition meshcore_radio_is_receiving :: "'w host \<Rightarrow> ('w, 'r, bool) op" where
  "meshcore_radio_is_receiving h = meshcore_platform_bridge_radio_receiving_get h"

definition meshcore_radio_trigger_noise_floor_calibrate :: "'w host \<Rightarrow> int \<Rightarrow> ('w, 'r, unit) op" where
  "meshcore_radio_trigger_noise_floor_calibrate h threshold =
     meshcore_platform_bridge_radio_noise_floor_calibrate h threshold"

definition meshcore_radio_reset_agc :: "'w host \<Rightarrow> ('w, 'r, unit) op" where
  "meshcore_radio_reset_agc h = meshcore_platform_bridge_radio_agc_reset h"

section \<open>Ownership\<close>

definition out_refs :: "('w, 'r) core \<Rightarrow> packet_ref multiset" where
  "out_refs s = held_after (dp_outbound (co_disp s)) {#}"

definition queued_refs :: "('w, 'r) core \<Rightarrow> packet_ref multiset" where
  "queued_refs s = array_queue.refs (qm_send_queue (co_mgr s)) +
     array_queue.refs (qm_rx_queue (co_mgr s)) + out_refs s"

definition owns :: "('r \<Rightarrow> bool) \<Rightarrow> packet_ref option \<Rightarrow> packet_ref multiset \<Rightarrow> (packet_ref \<Rightarrow> packet) \<Rightarrow>
    ('w, 'r) core \<Rightarrow> bool" where
  "owns R out H P s \<longleftrightarrow>
     dp_outbound (co_disp s) = out \<and> pool_inv (co_mgr s) (H + out_refs s) \<and>
     (\<forall>r \<in># H. mgr_packet (co_mgr s) r = P r) \<and>
     (\<forall>r \<in># queued_refs s. sendable (mgr_packet (co_mgr s) r)) \<and>
     tables_wf (co_tables s) \<and> local_identity_wf (co_self s) \<and> R (co_rt s)"

text \<open>\<open>calm R m\<close>: \<open>m\<close> leaves the caller's packets to the caller, with their contents.\<close>

definition calm :: "('r \<Rightarrow> bool) \<Rightarrow> ('w, 'r, 'a) op \<Rightarrow> bool" where
  "calm R m \<longleftrightarrow> (\<forall>out H P. triple (owns R out H P) m (\<lambda>_. owns R out H P))"

text \<open>\<open>makes R m\<close>: \<open>m\<close> hands a packet to the caller or returns NULL.\<close>

definition makes :: "('r \<Rightarrow> bool) \<Rightarrow> (packet \<Rightarrow> bool) \<Rightarrow> ('w, 'r, packet_ref option) op \<Rightarrow> bool" where
  "makes R \<Phi> m \<longleftrightarrow> (\<forall>out H P. triple (owns R out H P) m (\<lambda>res s.
     case res of None \<Rightarrow> owns R out H P s
     | Some r \<Rightarrow> \<exists>p. packet_wf p \<and> \<Phi> p \<and> owns R out (add_mset r H) (P(r := p)) s))"

text \<open>\<open>takes R r m\<close>: \<open>m\<close> takes the packet \<open>r\<close> from the caller.\<close>

definition takes :: "('r \<Rightarrow> bool) \<Rightarrow> packet_ref \<Rightarrow> (packet \<Rightarrow> bool) \<Rightarrow> ('w, 'r, 'a) op \<Rightarrow> bool" where
  "takes R r \<Phi> m \<longleftrightarrow> (\<forall>out H P. packet_wf (P r) \<longrightarrow> \<Phi> (P r) \<longrightarrow>
     triple (owns R out (add_mset r H) P) m (\<lambda>_. owns R out H P))"

named_theorems calm_rules \<open>operations that leave the caller's packets alone\<close>

lemma calmI: "(\<And>out H P. triple (owns R out H P) m (\<lambda>_. owns R out H P)) \<Longrightarrow> calm R m"
  by (simp add: calm_def)

lemma calmD: "calm R m \<Longrightarrow> triple (owns R out H P) m (\<lambda>_. owns R out H P)"
  by (simp add: calm_def)

lemma calm_return [calm_rules]: "calm R (ret x)"
  by (simp add: calm_def triple_def)

lemma calm_bind [calm_rules]: "calm R m \<Longrightarrow> (\<And>x. calm R (f x)) \<Longrightarrow> calm R (State_Monad.bind m f)"
  unfolding calm_def by (blast intro: triple_bind)

lemma calm_gets [calm_rules]: "calm R (gets f)"
  by (simp add: calm_def triple_def)

lemma calm_if [calm_rules]: "calm R m \<Longrightarrow> calm R m' \<Longrightarrow> calm R (if b then m else m')"
  by simp

lemma calm_if_conditions:
  "(b \<Longrightarrow> calm R m) \<Longrightarrow> (\<not> b \<Longrightarrow> calm R m') \<Longrightarrow> calm R (if b then m else m')"
  by simp

lemma calm_when_do [calm_rules]: "calm R m \<Longrightarrow> calm R (when_do b m)"
  by (simp add: when_do_def calm_return)

lemma calm_Let [calm_rules]: "(\<And>x. calm R (f x)) \<Longrightarrow> calm R (let x = a in f x)"
  by simp

lemma calm_case_prod [calm_rules]: "(\<And>x y. calm R (f x y)) \<Longrightarrow> calm R (case p of (x, y) \<Rightarrow> f x y)"
  by (cases p) simp

lemma calm_case_option [calm_rules]:
  "calm R m \<Longrightarrow> (\<And>x. calm R (f x)) \<Longrightarrow> calm R (case v of None \<Rightarrow> m | Some x \<Rightarrow> f x)"
  by (cases v) simp_all

lemma calm_case_sum [calm_rules]:
  "(\<And>x. calm R (f x)) \<Longrightarrow> (\<And>x. calm R (g x)) \<Longrightarrow> calm R (case v of Inl x \<Rightarrow> f x | Inr x \<Rightarrow> g x)"
  by (cases v) simp_all

lemma calm_case_list [calm_rules]:
  "calm R m \<Longrightarrow> (\<And>x xs. calm R (f x xs)) \<Longrightarrow> calm R (case v of [] \<Rightarrow> m | x # xs \<Rightarrow> f x xs)"
  by (cases v) simp_all

lemma owns_cong:
  assumes "co_mgr s' = co_mgr s" and "dp_outbound (co_disp s') = dp_outbound (co_disp s)"
    and "co_tables s' = co_tables s" and "co_self s' = co_self s" and "co_rt s' = co_rt s"
  shows "owns R out H P s' = owns R out H P s"
  using assms by (simp add: owns_def queued_refs_def out_refs_def)

lemma calm_modify_frame:
  assumes "\<And>s. co_mgr (f s) = co_mgr s" and "\<And>s. dp_outbound (co_disp (f s)) = dp_outbound (co_disp s)"
    and "\<And>s. co_tables (f s) = co_tables s" and "\<And>s. co_self (f s) = co_self s"
    and "\<And>s. co_rt (f s) = co_rt s"
  shows "calm R (modify f)"
  using owns_cong [of "f s" s for s] assms by (simp add: calm_def triple_def)

lemma calm_call [calm_rules]:
  fixes R :: "'r \<Rightarrow> bool" and m :: "('w, 'a) state"
  shows "calm R (call m :: ('w, 'r, 'a) op)"
proof (rule calmI, rule tripleI)
  fix out H P and s :: "('w, 'r) core"
  assume o: "owns R out H P s"
  obtain a w where "run_state m (co_world s) = (a, w)" by fastforce
  moreover have "owns R out H P (s \<lparr> co_world := w \<rparr>)"
    using o owns_cong [of "s \<lparr> co_world := w \<rparr>" s] by simp
  ultimately show "owns R out H P (snd (run_state (call m :: ('w, 'r, 'a) op) s))"
    by (simp add: call_def)
qed

lemma calm_notify [calm_rules]: "calm R (notify h e)"
  unfolding notify_def by (intro calm_rules)

lemma calm_disp_modify [calm_rules]:
  "(\<And>d. dp_outbound (f d) = dp_outbound d) \<Longrightarrow> calm R (disp_modify f)"
  unfolding disp_modify_def by (rule calm_modify_frame) simp_all

lemma calm_disp_get [calm_rules]: "calm R disp_get"
  by (simp add: disp_get_def calm_gets)

lemma calm_clock [calm_rules]: "calm R (meshcore_clock_millis_get h)"
  unfolding meshcore_clock_millis_get_def meshcore_platform_bridge_millis_get_def
  by (intro calm_rules)

lemma calm_bridge [calm_rules]:
  "calm R (meshcore_platform_bridge_radio_packet_send h x1 x2)"
  "calm R (meshcore_platform_bridge_radio_airtime h x3)"
  "calm R (meshcore_platform_bridge_radio_packet_score h x4 x5)"
  "calm R (meshcore_platform_bridge_radio_in_rx_mode_get h)"
  "calm R (meshcore_platform_bridge_radio_receiving_get h)"
  "calm R (meshcore_platform_bridge_millis_get h)"
  "calm R (meshcore_platform_bridge_rtc_get_current_time h)"
  "calm R (meshcore_platform_bridge_telemetry_node_get h x6 x7)"
  "calm R (meshcore_platform_bridge_node_identity_get h)"
  "calm R (meshcore_platform_bridge_node_config_last_modify_get h)"
  "calm R (meshcore_platform_bridge_node_runtime_policy_get h)"
  "calm R (meshcore_platform_bridge_node_advert_profile_get h)"
  "calm R (meshcore_platform_bridge_peer_path_get_by_key h x8)"
  "calm R (meshcore_platform_bridge_channel_secret_match_exists h x9 x10 x11)"
  "calm R (meshcore_platform_bridge_channel_secret_hash h x12 x13)"
  "calm R (meshcore_platform_bridge_mesh_extra_ack_transmit_count_get h)"
  "calm R (meshcore_platform_bridge_mesh_retransmit_delay_get h x14)"
  "calm R (meshcore_platform_bridge_dispatcher_airtime_budget_factor_get h)"
  "calm R (meshcore_platform_bridge_dispatcher_rx_delay_calc h x15 x16)"
  "calm R (meshcore_platform_bridge_dispatcher_cad_fail_max_duration_get h)"
  "calm R (meshcore_platform_bridge_dispatcher_interference_threshold_get h)"
  "calm R (meshcore_platform_bridge_dispatcher_agc_reset_interval_get h)"
  "calm R (meshcore_platform_bridge_dispatcher_duty_cycle_window_ms_get h)"
  "calm R (meshcore_platform_bridge_mesh_cad_fail_retry_delay_get h)"
  "calm R (meshcore_platform_bridge_mesh_filter_recv_flood_packet h x17)"
  "calm R (meshcore_platform_bridge_mesh_allow_packet_forward h x18)"
  "calm R (meshcore_platform_bridge_mesh_direct_retransmit_delay_get h x19)"
  "calm R (meshcore_platform_bridge_mesh_next_peer_shared_secret_by_hash h x20 x21)"
  "calm R (meshcore_platform_bridge_mesh_on_peer_path_recv h x22 x23 x24 x25 x26 x27 x28 x29)"
  "calm R (meshcore_platform_bridge_advert_handler h x30)"
  "calm R (meshcore_platform_bridge_radio_begin h)"
  "calm R (meshcore_platform_bridge_radio_noise_floor_calibrate h x31)"
  "calm R (meshcore_platform_bridge_radio_agc_reset h)"
  "calm R (meshcore_platform_bridge_peer_seen_update h x32 x33 x34)"
  "calm R (meshcore_platform_bridge_request_error h x35 x36)"
  "calm R (meshcore_platform_bridge_message_handler h x37)"
  "calm R (meshcore_platform_bridge_message_ack_handler h x38 x39)"
  "calm R (meshcore_platform_bridge_peer_path_publish h x40 x41)"
  "calm R (meshcore_platform_bridge_peer_path_handler h x42)"
  "calm R (meshcore_platform_bridge_trace_path_handler h x43 x44 x45 x46 x47 x48 x49 x50 x51)"
  "calm R (meshcore_platform_bridge_telemetry_handler h x52 x53 x54 x55 x56)"
  "calm R (meshcore_platform_bridge_binary_request_handler h x57)"
  "calm R (meshcore_platform_bridge_binary_response_handler h x58 x59 x60 x61 x62)"
  "calm R (meshcore_platform_bridge_node_discover_handler h x63)"
  "calm R (meshcore_platform_bridge_channel_data_handler h x64)"
  "calm R (meshcore_platform_bridge_raw_data_handler h x65)"
  "calm R (meshcore_platform_bridge_control_data_handler h x66)"
  "calm R (meshcore_platform_bridge_dispatcher_log_rx_raw h x67 x68 x69 x70)"
  "calm R (meshcore_platform_bridge_dispatcher_log_rx h x71 x72 x73)"
  "calm R (meshcore_platform_bridge_dispatcher_log_tx h x74 x75)"
  "calm R (meshcore_platform_bridge_dispatcher_log_tx_fail h x76 x77)"
  "calm R (meshcore_platform_bridge_mesh_on_peer_data_recv h x78 x79 x80 x81 x82 x83)"
  "calm R (meshcore_platform_bridge_mesh_on_trace_recv h x84 x85 x86 x87 x88 x89 x90)"
  "calm R (meshcore_platform_bridge_mesh_on_advert_recv h x91 x92 x93 x94 x95)"
  "calm R (meshcore_platform_bridge_mesh_on_anon_data_recv h x96 x97 x98 x99 x100)"
  "calm R (meshcore_platform_bridge_mesh_on_path_recv h x101 x102 x103 x104 x105 x106 x107)"
  "calm R (meshcore_platform_bridge_mesh_on_control_data_recv h x108)"
  "calm R (meshcore_platform_bridge_mesh_on_raw_data_recv h x109)"
  "calm R (meshcore_platform_bridge_mesh_on_group_data_recv h x110 x111 x112 x113 x114)"
  "calm R (meshcore_platform_bridge_mesh_on_ack_recv h x115 x116)"
  unfolding bridge_defs by (rule calm_call calm_notify)+

lemma calm_bridge_search [calm_rules]:
  "calm R (meshcore_platform_bridge_mesh_search_channels_by_hash h hash max_matches)"
  unfolding meshcore_platform_bridge_mesh_search_channels_by_hash_def by (intro calm_rules)

lemma calm_bridge_rng [calm_rules]: "calm R (meshcore_platform_bridge_rng_random h n)"
  unfolding meshcore_platform_bridge_rng_random_def by (intro calm_rules)

lemma calm_devices [calm_rules]:
  "calm R (meshcore_clock_rtc_get_current_time h)"
  "calm R (meshcore_clock_rtc_get_current_time_unique h x1)"
  "calm R (meshcore_rng_random h x2)"
  "calm R (meshcore_rng_next_int h x3 x4)"
  "calm R (meshcore_radio_begin h)"
  "calm R (meshcore_radio_get_est_airtime h x5)"
  "calm R (meshcore_radio_packet_score h x6 x7)"
  "calm R (meshcore_radio_start_send_raw h x8 x9)"
  "calm R (meshcore_radio_is_in_recv_mode h)"
  "calm R (meshcore_radio_is_receiving h)"
  "calm R (meshcore_radio_trigger_noise_floor_calibrate h x10)"
  "calm R (meshcore_radio_reset_agc h)"
  unfolding meshcore_clock_rtc_get_current_time_def
    meshcore_clock_rtc_get_current_time_unique_def
    meshcore_rng_random_def
    meshcore_rng_next_int_def
    meshcore_radio_begin_def
    meshcore_radio_get_est_airtime_def
    meshcore_radio_packet_score_def
    meshcore_radio_start_send_raw_def
    meshcore_radio_is_in_recv_mode_def
    meshcore_radio_is_receiving_def
    meshcore_radio_trigger_noise_floor_calibrate_def
    meshcore_radio_reset_agc_def
  by (intro calm_rules)+

lemma calm_override [calm_rules]:
  "calm R (meshcore_clock_millis_override_set v)" "calm R meshcore_clock_millis_override_clear"
  unfolding meshcore_clock_millis_override_set_def meshcore_clock_millis_override_clear_def
  by (rule calm_modify_frame; simp)+

subsection \<open>The packet manager\<close>

lemma owns_pool: "owns R out H P s \<Longrightarrow> pool_inv (co_mgr s) (H + out_refs s)"
  by (simp add: owns_def)

lemma owns_wf: "owns R out H P s \<Longrightarrow> r \<in># H \<Longrightarrow> packet_wf (P r)"
  using mgr_packet_wf [of "co_mgr s" "H + out_refs s" r] by (auto simp: owns_def)

lemma held_not_queued:
  assumes "owns R out (add_mset r H) P s"
  shows "r \<notin># H" "r \<notin># queued_refs s"
proof -
  have "count (mgr_refs (co_mgr s) + (add_mset r H + out_refs s)) r
      = count (mset [0..<nat (qm_pool_size (co_mgr s))]) r"
    using owns_pool [OF assms] by (simp only: pool_inv_def)
  also have "\<dots> \<le> 1" by (metis distinct_count_atmost_1 distinct_upt le_numeral_extra(4) zero_le_one)
  finally show "r \<notin># H" "r \<notin># queued_refs s"
    by (auto simp: queued_refs_def mgr_refs_def not_in_iff)
qed

lemma triple_pk_get:
  "triple (owns R out (add_mset r H) P) (pk_get r)
     (\<lambda>p s. p = P r \<and> packet_wf p \<and> owns R out (add_mset r H) P s)"
  using owns_wf [of R out "add_mset r H" P _ r] by (auto simp: triple_def pk_get_def owns_def)

lemma mgr_set_packet_refs [simp]:
  "qm_send_queue (mgr_set_packet r p m) = qm_send_queue m"
  "qm_rx_queue (mgr_set_packet r p m) = qm_rx_queue m"
  by (simp_all add: mgr_set_packet_def)

lemma triple_pk_put:
  assumes "packet_wf p"
  shows "triple (owns R out (add_mset r H) P) (pk_put r p) (\<lambda>_. owns R out (add_mset r H) (P(r := p)))"
proof (rule tripleI)
  fix s
  assume o: "owns R out (add_mset r H) P s"
  let ?s = "s \<lparr> co_mgr := mgr_set_packet r p (co_mgr s) \<rparr>"
  have range: "r < length (qm_packet_buf (co_mgr s))"
    using pool_inv_range(2) [OF owns_pool [OF o]] by simp
  have "queued_refs ?s = queued_refs s" "out_refs ?s = out_refs s"
    by (simp_all add: queued_refs_def out_refs_def)
  moreover have "mgr_packet (co_mgr ?s) x = (if x = r then p else mgr_packet (co_mgr s) x)" for x
    using range by (cases "x = r") auto
  ultimately have "owns R out (add_mset r H) (P(r := p)) ?s"
    using o held_not_queued [OF o] mgr_set_packet_inv [OF owns_pool [OF o] assms, of r]
    unfolding owns_def by auto
  then show "owns R out (add_mset r H) (P(r := p)) (snd (run_state (pk_put r p) s))"
    by (simp add: pk_put_def)
qed

text \<open>An operation of the manager that only moves packets around.\<close>

lemma owns_mgr:
  assumes "owns R out H P s"
    and "pool_inv m (H' + held_after out' {#})"
    and "qm_packet_buf m = qm_packet_buf (co_mgr s)"
    and "set_mset (array_queue.refs (qm_send_queue m) + array_queue.refs (qm_rx_queue m) +
           held_after out' {#}) \<subseteq> {r. sendable (mgr_packet (co_mgr s) r)}"
    and "\<And>r. r \<in># H' \<Longrightarrow> mgr_packet (co_mgr s) r = P' r"
    and "s' = s \<lparr> co_mgr := m, co_disp := (co_disp s) \<lparr> dp_outbound := out' \<rparr> \<rparr>"
  shows "owns R out' H' P' s'"
proof -
  have "mgr_packet m r = mgr_packet (co_mgr s) r" for r
    using assms(3) by (simp add: mgr_packet_def)
  then show ?thesis
    using assms by (auto simp: owns_def out_refs_def queued_refs_def)
qed

lemma owns_mgr_same:
  assumes "owns R out H P s"
    and "pool_inv m (H' + out_refs s)"
    and "qm_packet_buf m = qm_packet_buf (co_mgr s)"
    and "set_mset (array_queue.refs (qm_send_queue m) + array_queue.refs (qm_rx_queue m) + out_refs s)
           \<subseteq> {r. sendable (mgr_packet (co_mgr s) r)}"
    and "\<And>r. r \<in># H' \<Longrightarrow> mgr_packet (co_mgr s) r = P' r"
  shows "owns R out H' P' (s \<lparr> co_mgr := m \<rparr>)"
proof -
  have "dp_outbound (co_disp s) = out" using assms(1) by (simp add: owns_def)
  then show ?thesis
    using assms(2-5) by (intro owns_mgr [OF assms(1), where m = m]) (auto simp: out_refs_def)
qed

lemma queue_outbound_refs:
  assumes "pool_inv m (add_mset r held)"
  shows "array_queue.refs (qm_send_queue (meshcore_packet_queue_manager_queue_outbound m r pri t))
        = add_mset r (array_queue.refs (qm_send_queue m))"
    "qm_rx_queue (meshcore_packet_queue_manager_queue_outbound m r pri t) = qm_rx_queue m"
proof -
  from pool_inv_room [OF assms, of "qm_send_queue m"] obtain u where
    "meshcore_packet_queue_add (qm_send_queue m) r pri t = (True, u)"
    "array_queue.refs u = add_mset r (array_queue.refs (qm_send_queue m))"
    by (auto elim: array_queue.refs_add [of "qm_send_queue m" r pri t])
  then show "array_queue.refs (qm_send_queue (meshcore_packet_queue_manager_queue_outbound m r pri t))
        = add_mset r (array_queue.refs (qm_send_queue m))"
    "qm_rx_queue (meshcore_packet_queue_manager_queue_outbound m r pri t) = qm_rx_queue m"
    using assms
    by (simp_all add: meshcore_packet_queue_manager_queue_outbound_def pool_inv_def mgr_ok_def)
qed

lemma queue_inbound_refs:
  assumes "pool_inv m (add_mset r held)"
  shows "array_queue.refs (qm_rx_queue (meshcore_packet_queue_manager_queue_inbound m r t))
        = add_mset r (array_queue.refs (qm_rx_queue m))"
    "qm_send_queue (meshcore_packet_queue_manager_queue_inbound m r t) = qm_send_queue m"
proof -
  from pool_inv_room [OF assms, of "qm_rx_queue m"] obtain u where
    "meshcore_packet_queue_add (qm_rx_queue m) r 0 t = (True, u)"
    "array_queue.refs u = add_mset r (array_queue.refs (qm_rx_queue m))"
    by (auto elim: array_queue.refs_add [of "qm_rx_queue m" r 0 t])
  then show "array_queue.refs (qm_rx_queue (meshcore_packet_queue_manager_queue_inbound m r t))
        = add_mset r (array_queue.refs (qm_rx_queue m))"
    "qm_send_queue (meshcore_packet_queue_manager_queue_inbound m r t) = qm_send_queue m"
    using assms
    by (simp_all add: meshcore_packet_queue_manager_queue_inbound_def pool_inv_def mgr_ok_def)
qed

lemma get_next_outbound_refs:
  assumes "pool_inv m held" and "meshcore_packet_queue_manager_get_next_outbound m now = (r, m')"
  shows "array_queue.refs (qm_send_queue m) = held_after r (array_queue.refs (qm_send_queue m'))"
    "qm_rx_queue m' = qm_rx_queue m" "qm_packet_buf m' = qm_packet_buf m"
proof -
  obtain u where u: "meshcore_packet_queue_get (qm_send_queue m) now = (r, u)"
      "m' = m \<lparr> qm_send_queue := u \<rparr>"
    using assms
    by (auto simp: meshcore_packet_queue_manager_get_next_outbound_def pool_inv_def mgr_ok_def
        split: prod.splits)
  have "q_wf (qm_send_queue m)" using assms(1) by (simp add: pool_inv_def mgr_ok_def)
  from array_queue.refs_get [OF this u(1)]
  show "array_queue.refs (qm_send_queue m) = held_after r (array_queue.refs (qm_send_queue m'))"
    "qm_rx_queue m' = qm_rx_queue m" "qm_packet_buf m' = qm_packet_buf m"
    using u(2) by (cases r; simp)+
qed

lemma get_next_inbound_refs:
  assumes "pool_inv m held" and "meshcore_packet_queue_manager_get_next_inbound m now = (r, m')"
  shows "array_queue.refs (qm_rx_queue m) = held_after r (array_queue.refs (qm_rx_queue m'))"
    "qm_send_queue m' = qm_send_queue m" "qm_packet_buf m' = qm_packet_buf m"
proof -
  obtain u where u: "meshcore_packet_queue_get (qm_rx_queue m) now = (r, u)"
      "m' = m \<lparr> qm_rx_queue := u \<rparr>"
    using assms
    by (auto simp: meshcore_packet_queue_manager_get_next_inbound_def pool_inv_def mgr_ok_def
        split: prod.splits)
  have "q_wf (qm_rx_queue m)" using assms(1) by (simp add: pool_inv_def mgr_ok_def)
  from array_queue.refs_get [OF this u(1)]
  show "array_queue.refs (qm_rx_queue m) = held_after r (array_queue.refs (qm_rx_queue m'))"
    "qm_send_queue m' = qm_send_queue m" "qm_packet_buf m' = qm_packet_buf m"
    using u(2) by (cases r; simp)+
qed

lemma manager_free_frame [simp]:
  "qm_send_queue (meshcore_packet_queue_manager_free m r) = qm_send_queue m"
  "qm_rx_queue (meshcore_packet_queue_manager_free m r) = qm_rx_queue m"
  "qm_packet_buf (meshcore_packet_queue_manager_free m r) = qm_packet_buf m"
  by (simp_all add: meshcore_packet_queue_manager_free_def)

lemma alloc_new_frame:
  "meshcore_packet_queue_manager_alloc_new m = (r, m') \<Longrightarrow>
   qm_send_queue m' = qm_send_queue m \<and> qm_rx_queue m' = qm_rx_queue m \<and> qm_packet_buf m' = qm_packet_buf m"
  by (auto simp: meshcore_packet_queue_manager_alloc_new_def split: if_splits prod.splits)

lemma queue_packet_buf [simp]:
  "qm_packet_buf (meshcore_packet_queue_manager_queue_outbound m r pri t) = qm_packet_buf m"
  "qm_packet_buf (meshcore_packet_queue_manager_queue_inbound m r t) = qm_packet_buf m"
  by (simp_all add: meshcore_packet_queue_manager_queue_outbound_def
      meshcore_packet_queue_manager_queue_inbound_def split: prod.splits bool.splits)

lemma owns_sendable:
  "owns R out H P s \<Longrightarrow> r \<in># queued_refs s \<Longrightarrow> sendable (mgr_packet (co_mgr s) r)"
  by (simp add: owns_def)

lemma owns_held: "owns R out H P s \<Longrightarrow> r \<in># H \<Longrightarrow> mgr_packet (co_mgr s) r = P r"
  by (simp add: owns_def)

lemma triple_mgr_free: "triple (owns R out (add_mset r H) P) (mgr_free r) (\<lambda>_. owns R out H P)"
proof (rule tripleI)
  fix s
  assume o: "owns R out (add_mset r H) P s"
  have "owns R out H P (s \<lparr> co_mgr := meshcore_packet_queue_manager_free (co_mgr s) r \<rparr>)"
    using manager_free_inv [of "co_mgr s" r "H + out_refs s"] owns_pool [OF o] owns_sendable [OF o]
      owns_held [OF o]
    by (intro owns_mgr_same [OF o])
       (auto simp: out_refs_def queued_refs_def)
  then show "owns R out H P (snd (run_state (mgr_free r) s))" by (simp add: mgr_free_def)
qed

lemma triple_mgr_queue_outbound:
  assumes "sendable (P r)"
  shows "triple (owns R out (add_mset r H) P) (mgr_queue_outbound r pri t) (\<lambda>_. owns R out H P)"
proof (rule tripleI)
  fix s
  assume o: "owns R out (add_mset r H) P s"
  have pool: "pool_inv (co_mgr s) (add_mset r (H + out_refs s))" using owns_pool [OF o] by simp
  have "owns R out H P (s \<lparr> co_mgr := meshcore_packet_queue_manager_queue_outbound (co_mgr s) r pri t \<rparr>)"
    using queue_outbound_inv [OF pool, of pri t] queue_outbound_refs [OF pool, of pri t]
      owns_sendable [OF o] owns_held [OF o] assms
    by (intro owns_mgr_same [OF o])
       (auto simp: out_refs_def queued_refs_def)
  then show "owns R out H P (snd (run_state (mgr_queue_outbound r pri t) s))"
    by (simp add: mgr_queue_outbound_def)
qed

lemma triple_mgr_queue_inbound:
  assumes "sendable (P r)"
  shows "triple (owns R out (add_mset r H) P) (mgr_queue_inbound r t) (\<lambda>_. owns R out H P)"
proof (rule tripleI)
  fix s
  assume o: "owns R out (add_mset r H) P s"
  have pool: "pool_inv (co_mgr s) (add_mset r (H + out_refs s))" using owns_pool [OF o] by simp
  have "owns R out H P (s \<lparr> co_mgr := meshcore_packet_queue_manager_queue_inbound (co_mgr s) r t \<rparr>)"
    using queue_inbound_inv [OF pool, of t] queue_inbound_refs [OF pool, of t]
      owns_sendable [OF o] owns_held [OF o] assms
    by (intro owns_mgr_same [OF o])
       (auto simp: out_refs_def queued_refs_def)
  then show "owns R out H P (snd (run_state (mgr_queue_inbound r t) s))"
    by (simp add: mgr_queue_inbound_def)
qed

lemma held_after_add: "held_after r (H + H') = H + held_after r H'"
  by (cases r) simp_all

lemma makes_alloc_new: "makes R (\<lambda>_. True) mgr_alloc_new"
  unfolding makes_def
proof (intro allI tripleI)
  fix out H P s
  assume o: "owns R out H P s"
  obtain r m where a: "meshcore_packet_queue_manager_alloc_new (co_mgr s) = (r, m)" by fastforce
  let ?s = "s \<lparr> co_mgr := m \<rparr>"
  let ?P = "\<lambda>x. if r = Some x then mgr_packet m x else P x"
  have inv: "pool_inv m (held_after r H + out_refs s)"
    using alloc_new_inv [OF owns_pool [OF o] a] by (cases r) simp_all
  have "mgr_packet (co_mgr s) x = ?P x" if "x \<in># held_after r H" for x
    using that alloc_new_frame [OF a] owns_held [OF o] by (cases r) (auto simp: mgr_packet_def)
  then have "owns R out (held_after r H) ?P ?s"
    using inv alloc_new_frame [OF a] owns_sendable [OF o]
    by (intro owns_mgr_same [OF o])
       (auto simp: out_refs_def queued_refs_def)
  moreover have "?P = P(x := mgr_packet m x)" if "r = Some x" for x using that by auto
  moreover have "packet_wf (mgr_packet m x)" if "r = Some x" for x
    using that mgr_packet_wf [OF inv, of x] by simp
  moreover have "run_state mgr_alloc_new s = (r, ?s)" by (simp add: mgr_alloc_new_def a)
  ultimately show "case fst (run_state mgr_alloc_new s) of None \<Rightarrow> owns R out H P (snd (run_state mgr_alloc_new s))
      | Some r \<Rightarrow> \<exists>p. packet_wf p \<and> True \<and>
          owns R out (add_mset r H) (P(r := p)) (snd (run_state mgr_alloc_new s))"
    by (cases r) auto
qed

lemma makes_get_next_inbound: "makes R sendable (mgr_get_next_inbound now)"
  unfolding makes_def
proof (intro allI tripleI)
  fix out H P s
  assume o: "owns R out H P s"
  obtain r m where a: "meshcore_packet_queue_manager_get_next_inbound (co_mgr s) now = (r, m)"
    by fastforce
  let ?s = "s \<lparr> co_mgr := m \<rparr>"
  let ?P = "\<lambda>x. if r = Some x then mgr_packet m x else P x"
  note refs = get_next_inbound_refs [OF owns_pool [OF o] a]
  have inv: "pool_inv m (held_after r H + out_refs s)"
    using get_next_inbound_inv [OF owns_pool [OF o] a] by (cases r) simp_all
  have "mgr_packet (co_mgr s) x = ?P x" if "x \<in># held_after r H" for x
    using that refs owns_held [OF o] by (cases r) (auto simp: mgr_packet_def)
  then have "owns R out (held_after r H) ?P ?s"
    using inv refs owns_sendable [OF o]
    by (intro owns_mgr_same [OF o])
       (cases r; auto simp: out_refs_def queued_refs_def)+
  moreover have "?P = P(x := mgr_packet m x)" if "r = Some x" for x using that by auto
  moreover have "sendable (mgr_packet m x)" if "r = Some x" for x
    using that owns_sendable [OF o, of x] refs by (auto simp: queued_refs_def mgr_packet_def)
  moreover have "run_state (mgr_get_next_inbound now) s = (r, ?s)"
    by (simp add: mgr_get_next_inbound_def a)
  ultimately show "case fst (run_state (mgr_get_next_inbound now) s) of
        None \<Rightarrow> owns R out H P (snd (run_state (mgr_get_next_inbound now) s))
      | Some r \<Rightarrow> \<exists>p. packet_wf p \<and> sendable p \<and>
          owns R out (add_mset r H) (P(r := p)) (snd (run_state (mgr_get_next_inbound now) s))"
    by (cases r) (auto simp: sendable_def)
qed

text \<open>The packet that is being transmitted stays with the dispatcher.\<close>

lemma triple_take_outbound:
  "triple (owns R None H P) (mgr_take_outbound now) (\<lambda>r. owns R r H P)"
proof (rule tripleI)
  fix s
  assume o: "owns R None H P s"
  then have none: "dp_outbound (co_disp s) = None" by (simp add: owns_def)
  obtain r m where a: "meshcore_packet_queue_manager_get_next_outbound (co_mgr s) now = (r, m)"
    by fastforce
  note refs = get_next_outbound_refs [OF owns_pool [OF o] a]
  have "pool_inv m (H + held_after r {#})"
    using get_next_outbound_inv [OF owns_pool [OF o] a] none by (cases r) (simp_all add: out_refs_def)
  then have "owns R r H P (s \<lparr> co_mgr := m, co_disp := (co_disp s) \<lparr> dp_outbound := r \<rparr> \<rparr>)"
    using refs owns_sendable [OF o] owns_held [OF o] none
    by (intro owns_mgr [OF o, where m = m]) (cases r; auto simp: out_refs_def queued_refs_def)+
  then show "owns R (fst (run_state (mgr_take_outbound now) s)) H P (snd (run_state (mgr_take_outbound now) s))"
    by (simp add: mgr_take_outbound_def a)
qed

lemma triple_drop_outbound:
  "triple (owns R (Some r) H P)
     (do { mgr_free r; disp_modify (dp_outbound_update (\<lambda>_. None)) }) (\<lambda>_. owns R None H P)"
proof (rule tripleI)
  fix s
  assume o: "owns R (Some r) H P s"
  then have some: "dp_outbound (co_disp s) = Some r" by (simp add: owns_def)
  have "pool_inv (meshcore_packet_queue_manager_free (co_mgr s) r) (H + held_after None {#})"
    using manager_free_inv [of "co_mgr s" r H] owns_pool [OF o] some by (simp add: out_refs_def)
  then have "owns R None H P (s \<lparr> co_mgr := meshcore_packet_queue_manager_free (co_mgr s) r,
      co_disp := (co_disp s) \<lparr> dp_outbound := None \<rparr> \<rparr>)"
    using owns_sendable [OF o] owns_held [OF o]
    by (intro owns_mgr [OF o, where m = "meshcore_packet_queue_manager_free (co_mgr s) r"])
       (auto simp: queued_refs_def)
  then show "owns R None H P (snd (run_state (do {
      mgr_free r; disp_modify (dp_outbound_update (\<lambda>_. None)) }) s))"
    by (simp add: mgr_free_def disp_modify_def)
qed

text \<open>The packet being transmitted can be read, and is one that can be put on the wire.\<close>

lemma triple_get_outbound:
  "triple (owns R (Some r) H P) (pk_get r) (\<lambda>p s. sendable p \<and> owns R (Some r) H P s)"
  by (auto simp: triple_def pk_get_def owns_def queued_refs_def out_refs_def)

subsection \<open>Composing operations\<close>

text \<open>
  \<open>serves R r \<Phi> \<Psi> m\<close>: the caller keeps the packet \<open>r\<close>, whose contents \<open>m\<close> may change;
  \<open>fills R r \<Phi> \<Psi> m\<close>: \<open>m\<close> returns the packet \<open>r\<close> with contents \<open>\<Psi>\<close>, or releases it and returns NULL.
\<close>

definition serves :: "('r \<Rightarrow> bool) \<Rightarrow> packet_ref \<Rightarrow> (packet \<Rightarrow> bool) \<Rightarrow> ('a \<Rightarrow> packet \<Rightarrow> bool) \<Rightarrow>
    ('w, 'r, 'a) op \<Rightarrow> bool" where
  "serves R r \<Phi> \<Psi> m \<longleftrightarrow> (\<forall>out H P. packet_wf (P r) \<longrightarrow> \<Phi> (P r) \<longrightarrow>
     triple (owns R out (add_mset r H) P) m
       (\<lambda>a s. \<exists>p. packet_wf p \<and> \<Psi> a p \<and> owns R out (add_mset r H) (P(r := p)) s))"

definition fills :: "('r \<Rightarrow> bool) \<Rightarrow> packet_ref \<Rightarrow> (packet \<Rightarrow> bool) \<Rightarrow> (packet \<Rightarrow> bool) \<Rightarrow>
    ('w, 'r, packet_ref option) op \<Rightarrow> bool" where
  "fills R r \<Phi> \<Psi> m \<longleftrightarrow> (\<forall>out H P. packet_wf (P r) \<longrightarrow> \<Phi> (P r) \<longrightarrow>
     triple (owns R out (add_mset r H) P) m (\<lambda>res s.
       case res of None \<Rightarrow> owns R out H P s
       | Some r' \<Rightarrow> r' = r \<and> (\<exists>p. packet_wf p \<and> \<Psi> p \<and> owns R out (add_mset r H) (P(r := p)) s)))"

lemma triple_fresh:
  "(r \<notin># H \<Longrightarrow> triple (owns R out (add_mset r H) P) m Q) \<Longrightarrow> triple (owns R out (add_mset r H) P) m Q"
  using held_not_queued(1) by (fastforce simp: triple_def)

lemma owns_upd_other [simp]: "r \<notin># H \<Longrightarrow> owns R out H (P(r := p)) = owns R out H P"
  by (auto simp: owns_def fun_eq_iff)

lemma triple_ex:
  "(\<And>x. triple (A x) m Q) \<Longrightarrow> triple (\<lambda>s. \<exists>x. A x s) m Q"
  by (auto simp: triple_def)

lemma triple_pure: "(b \<Longrightarrow> triple A m Q) \<Longrightarrow> triple (\<lambda>s. b \<and> A s) m Q"
  by (auto simp: triple_def)

lemma takesI:
  "(\<And>out H P. packet_wf (P r) \<Longrightarrow> \<Phi> (P r) \<Longrightarrow> r \<notin># H \<Longrightarrow>
     triple (owns R out (add_mset r H) P) m (\<lambda>_. owns R out H P)) \<Longrightarrow> takes R r \<Phi> m"
  unfolding takes_def by (blast intro: triple_fresh)

lemma takes_mono: "takes R r \<Phi> m \<Longrightarrow> (\<And>p. packet_wf p \<Longrightarrow> \<Psi> p \<Longrightarrow> \<Phi> p) \<Longrightarrow> takes R r \<Psi> m"
  by (simp add: takes_def)

lemma takes_calm_bind:
  "calm R m \<Longrightarrow> (\<And>x. takes R r \<Phi> (k x)) \<Longrightarrow> takes R r \<Phi> (State_Monad.bind m k)"
  unfolding takes_def calm_def by (blast intro: triple_bind)

lemma takes_then:
  "takes R r \<Phi> m \<Longrightarrow> (\<And>x. calm R (k x)) \<Longrightarrow> takes R r \<Phi> (State_Monad.bind m k)"
  unfolding takes_def calm_def by (blast intro: triple_bind)

lemma takes_get:
  assumes "\<And>p. packet_wf p \<Longrightarrow> \<Phi> p \<Longrightarrow> takes R r (\<lambda>q. q = p) (k p)"
  shows "takes R r \<Phi> (State_Monad.bind (pk_get r) k)"
  unfolding takes_def
proof (intro allI impI)
  fix out H P
  assume "packet_wf (P r)" "\<Phi> (P r)"
  with assms show "triple (owns R out (add_mset r H) P) (State_Monad.bind (pk_get r) k) (\<lambda>_. owns R out H P)"
    by (intro triple_bind [OF triple_pk_get] triple_pure) (simp add: takes_def)
qed

lemma takes_put:
  assumes "packet_wf p" and "\<And>x. takes R r (\<lambda>q. q = p) (k x)"
  shows "takes R r \<Phi> (State_Monad.bind (pk_put r p) k)"
proof (rule takesI)
  fix out H and P :: "packet_ref \<Rightarrow> packet"
  assume "r \<notin># H"
  moreover have "triple (owns R out (add_mset r H) (P(r := p))) (k x) (\<lambda>_. owns R out H (P(r := p)))" for x
    using assms by (simp add: takes_def)
  ultimately show "triple (owns R out (add_mset r H) P) (State_Monad.bind (pk_put r p) k) (\<lambda>_. owns R out H P)"
    by (intro triple_bind [OF triple_pk_put [OF assms(1)]]) simp
qed

lemma takes_free: "takes R r \<Phi> (mgr_free r)"
  by (simp add: takes_def triple_mgr_free)

lemma takes_queue_outbound:
  "(\<And>p. packet_wf p \<Longrightarrow> \<Phi> p \<Longrightarrow> sendable p) \<Longrightarrow> takes R r \<Phi> (mgr_queue_outbound r pri t)"
  by (simp add: takes_def triple_mgr_queue_outbound)

lemma takes_queue_inbound:
  "(\<And>p. packet_wf p \<Longrightarrow> \<Phi> p \<Longrightarrow> sendable p) \<Longrightarrow> takes R r \<Phi> (mgr_queue_inbound r t)"
  by (simp add: takes_def triple_mgr_queue_inbound)

lemma takes_if:
  "(b \<Longrightarrow> takes R r \<Phi> m) \<Longrightarrow> (\<not> b \<Longrightarrow> takes R r \<Phi> m') \<Longrightarrow> takes R r \<Phi> (if b then m else m')"
  by simp

lemma takes_Let: "(\<And>x. x = a \<Longrightarrow> takes R r \<Phi> (f x)) \<Longrightarrow> takes R r \<Phi> (let x = a in f x)"
  by simp

lemma makes_None: "makes R \<Phi> (ret None)"
  by (simp add: makes_def triple_def)

lemma makes_if:
  "(b \<Longrightarrow> makes R \<Phi> m) \<Longrightarrow> (\<not> b \<Longrightarrow> makes R \<Phi> m') \<Longrightarrow> makes R \<Phi> (if b then m else m')"
  by simp

lemma makes_Let: "(\<And>x. x = a \<Longrightarrow> makes R \<Phi> (f x)) \<Longrightarrow> makes R \<Phi> (let x = a in f x)"
  by simp

lemma makes_calm_bind:
  "calm R m \<Longrightarrow> (\<And>x. makes R \<Phi> (k x)) \<Longrightarrow> makes R \<Phi> (State_Monad.bind m k)"
  unfolding makes_def calm_def by (blast intro: triple_bind)

lemma makes_mono: "makes R \<Phi> m \<Longrightarrow> (\<And>p. packet_wf p \<Longrightarrow> \<Phi> p \<Longrightarrow> \<Psi> p) \<Longrightarrow> makes R \<Psi> m"
  unfolding makes_def triple_def by (fastforce split: option.splits)

lemma makes_bind_fills:
  assumes "makes R \<Phi> m" and "makes R \<Psi> (k None)" and "\<And>r. fills R r \<Phi> \<Psi> (k (Some r))"
  shows "makes R \<Psi> (State_Monad.bind m k)"
  unfolding makes_def
proof (intro allI)
  fix out H P
  let ?Q = "\<lambda>res s. case res of None \<Rightarrow> owns R out H P s
     | Some r \<Rightarrow> \<exists>p. packet_wf p \<and> \<Psi> p \<and> owns R out (add_mset r H) (P(r := p)) s"
  have some: "triple (\<lambda>s. \<exists>p. packet_wf p \<and> \<Phi> p \<and> owns R out (add_mset r H) (P(r := p)) s) (k (Some r)) ?Q"
    for r
  proof (rule triple_ex, rule triple_pure, rule triple_pure, rule triple_fresh)
    fix p assume "packet_wf p" "\<Phi> p" "r \<notin># H"
    with assms(3) [of r, unfolded fills_def, rule_format, of "P(r := p)" out H]
    show "triple (owns R out (add_mset r H) (P(r := p))) (k (Some r)) ?Q"
      by (auto elim!: triple_post split: option.splits)
  qed
  show "triple (owns R out H P) (State_Monad.bind m k) ?Q"
  proof (rule triple_bind)
    show "triple (owns R out H P) m (\<lambda>res s. case res of None \<Rightarrow> owns R out H P s
       | Some r \<Rightarrow> \<exists>p. packet_wf p \<and> \<Phi> p \<and> owns R out (add_mset r H) (P(r := p)) s)"
      using assms(1) by (simp add: makes_def)
    show "triple (\<lambda>s. case res of None \<Rightarrow> owns R out H P s
       | Some r \<Rightarrow> \<exists>p. packet_wf p \<and> \<Phi> p \<and> owns R out (add_mset r H) (P(r := p)) s) (k res) ?Q"
      for res
      using assms(2) some by (cases res) (simp_all add: makes_def)
  qed
qed

lemma calm_bind_makes:
  assumes "makes R \<Phi> m" and "calm R (k None)" and "\<And>r. takes R r \<Phi> (k (Some r))"
  shows "calm R (State_Monad.bind m k)"
proof (rule calmI, rule triple_bind)
  fix out H P
  show "triple (owns R out H P) m (\<lambda>res s. case res of None \<Rightarrow> owns R out H P s
     | Some r \<Rightarrow> \<exists>p. packet_wf p \<and> \<Phi> p \<and> owns R out (add_mset r H) (P(r := p)) s)"
    using assms(1) by (simp add: makes_def)
  have "triple (owns R out (add_mset r H) (P(r := p))) (k (Some r)) (\<lambda>_. owns R out H P)"
    if "packet_wf p" "\<Phi> p" for r p
  proof (rule triple_fresh)
    assume "r \<notin># H"
    then show "triple (owns R out (add_mset r H) (P(r := p))) (k (Some r)) (\<lambda>_. owns R out H P)"
      using assms(3) [of r, unfolded takes_def, rule_format, of "P(r := p)" out H] that by simp
  qed
  then show "triple (\<lambda>s. case res of None \<Rightarrow> owns R out H P s
     | Some r \<Rightarrow> \<exists>p. packet_wf p \<and> \<Phi> p \<and> owns R out (add_mset r H) (P(r := p)) s) (k res)
     (\<lambda>_. owns R out H P)" for res
    using assms(2) by (cases res) (auto simp: calm_def intro!: triple_ex triple_pure)
qed

text \<open>The two ways to continue after an allocation: hand the packet on, or do something with it.\<close>

lemma calm_bind_makes_case:
  assumes "makes R \<Phi> m" and "calm R a" and "\<And>r. takes R r \<Phi> (f r)"
  shows "calm R (State_Monad.bind m (\<lambda>res. case res of None \<Rightarrow> a | Some r \<Rightarrow> f r))"
  using assms by (intro calm_bind_makes [where k = "\<lambda>res. case res of None \<Rightarrow> a | Some r \<Rightarrow> f r"]) auto

lemma makes_bind_case:
  assumes "makes R \<Phi> m" and "makes R \<Psi> a" and "\<And>r. fills R r \<Phi> \<Psi> (f r)"
  shows "makes R \<Psi> (State_Monad.bind m (\<lambda>res. case res of None \<Rightarrow> a | Some r \<Rightarrow> f r))"
  using assms by (intro makes_bind_fills [where k = "\<lambda>res. case res of None \<Rightarrow> a | Some r \<Rightarrow> f r"]) auto

lemma fills_calm_bind:
  "calm R m \<Longrightarrow> (\<And>x. fills R r \<Phi> \<Psi> (k x)) \<Longrightarrow> fills R r \<Phi> \<Psi> (State_Monad.bind m k)"
  unfolding fills_def calm_def by (blast intro: triple_bind)

lemma fills_get:
  assumes "\<And>p. packet_wf p \<Longrightarrow> \<Phi> p \<Longrightarrow> fills R r (\<lambda>q. q = p) \<Psi> (k p)"
  shows "fills R r \<Phi> \<Psi> (State_Monad.bind (pk_get r) k)"
  unfolding fills_def
proof (intro allI impI)
  fix out H P
  assume "packet_wf (P r)" "\<Phi> (P r)"
  with assms show "triple (owns R out (add_mset r H) P) (State_Monad.bind (pk_get r) k) (\<lambda>res s.
      case res of None \<Rightarrow> owns R out H P s
      | Some r' \<Rightarrow> r' = r \<and> (\<exists>p. packet_wf p \<and> \<Psi> p \<and> owns R out (add_mset r H) (P(r := p)) s))"
    by (intro triple_bind [OF triple_pk_get] triple_pure) (simp add: fills_def)
qed

lemma fills_put:
  assumes "packet_wf p" and "\<And>x. fills R r (\<lambda>q. q = p) \<Psi> (k x)"
  shows "fills R r \<Phi> \<Psi> (State_Monad.bind (pk_put r p) k)"
  unfolding fills_def
proof (intro allI impI, rule triple_fresh)
  fix out H and P :: "packet_ref \<Rightarrow> packet"
  assume fresh: "r \<notin># H"
  have "triple (owns R out (add_mset r H) (P(r := p))) (k x) (\<lambda>res s.
      case res of None \<Rightarrow> owns R out H (P(r := p)) s
      | Some r' \<Rightarrow> r' = r \<and>
          (\<exists>q. packet_wf q \<and> \<Psi> q \<and> owns R out (add_mset r H) ((P(r := p))(r := q)) s))" for x
    using assms by (simp only: fills_def fun_upd_same)
  then show "triple (owns R out (add_mset r H) P) (State_Monad.bind (pk_put r p) k) (\<lambda>res s.
      case res of None \<Rightarrow> owns R out H P s
      | Some r' \<Rightarrow> r' = r \<and> (\<exists>p. packet_wf p \<and> \<Psi> p \<and> owns R out (add_mset r H) (P(r := p)) s))"
    using fresh
    by (intro triple_bind [OF triple_pk_put [OF assms(1)]])
       (auto elim!: triple_post split: option.splits)
qed

lemma fills_release:
  "takes R r \<Phi> m \<Longrightarrow> fills R r \<Phi> \<Psi> (State_Monad.bind m (\<lambda>_. ret None))"
  unfolding fills_def takes_def
proof (intro allI impI)
  fix out H P
  assume "\<forall>out H P. packet_wf (P r) \<longrightarrow> \<Phi> (P r) \<longrightarrow> triple (owns R out (add_mset r H) P) m (\<lambda>_. owns R out H P)"
    and "packet_wf (P r)" "\<Phi> (P r)"
  then have "triple (owns R out (add_mset r H) P) m (\<lambda>_. owns R out H P)" by blast
  then show "triple (owns R out (add_mset r H) P) (State_Monad.bind m (\<lambda>_. ret None)) (\<lambda>res s.
      case res of None \<Rightarrow> owns R out H P s
      | Some r' \<Rightarrow> r' = r \<and> (\<exists>p. packet_wf p \<and> \<Psi> p \<and> owns R out (add_mset r H) (P(r := p)) s))"
    by (rule triple_bind) (simp add: triple_def)
qed

lemma fills_ret:
  "(\<And>p. packet_wf p \<Longrightarrow> \<Phi> p \<Longrightarrow> \<Psi> p) \<Longrightarrow> fills R r \<Phi> \<Psi> (ret (Some r))"
  unfolding fills_def triple_def by (auto intro: exI [of _ "P r" for P])

lemma fills_if:
  "(b \<Longrightarrow> fills R r \<Phi> \<Psi> m) \<Longrightarrow> (\<not> b \<Longrightarrow> fills R r \<Phi> \<Psi> m') \<Longrightarrow> fills R r \<Phi> \<Psi> (if b then m else m')"
  by simp

lemma fills_Let: "(\<And>x. x = a \<Longrightarrow> fills R r \<Phi> \<Psi> (f x)) \<Longrightarrow> fills R r \<Phi> \<Psi> (let x = a in f x)"
  by simp

lemma serves_calm_bind:
  "calm R m \<Longrightarrow> (\<And>x. serves R r \<Phi> \<Psi> (k x)) \<Longrightarrow> serves R r \<Phi> \<Psi> (State_Monad.bind m k)"
  unfolding serves_def calm_def by (blast intro: triple_bind)

lemma serves_ret:
  "(\<And>p. packet_wf p \<Longrightarrow> \<Phi> p \<Longrightarrow> \<Psi> a p) \<Longrightarrow> serves R r \<Phi> \<Psi> (ret a)"
  unfolding serves_def triple_def by (auto intro: exI [of _ "P r" for P])

lemma serves_if:
  "(b \<Longrightarrow> serves R r \<Phi> \<Psi> m) \<Longrightarrow> (\<not> b \<Longrightarrow> serves R r \<Phi> \<Psi> m') \<Longrightarrow>
   serves R r \<Phi> \<Psi> (if b then m else m')"
  by simp

lemma serves_Let: "(\<And>x. x = a \<Longrightarrow> serves R r \<Phi> \<Psi> (f x)) \<Longrightarrow> serves R r \<Phi> \<Psi> (let x = a in f x)"
  by simp

lemma serves_mono:
  "serves R r \<Phi> \<Psi> m \<Longrightarrow> (\<And>p. packet_wf p \<Longrightarrow> \<Phi>' p \<Longrightarrow> \<Phi> p) \<Longrightarrow>
   (\<And>a p. packet_wf p \<Longrightarrow> \<Psi> a p \<Longrightarrow> \<Psi>' a p) \<Longrightarrow> serves R r \<Phi>' \<Psi>' m"
  unfolding serves_def triple_def by meson

lemma serves_get:
  assumes "\<And>p. packet_wf p \<Longrightarrow> \<Phi> p \<Longrightarrow> serves R r (\<lambda>q. q = p) \<Psi> (k p)"
  shows "serves R r \<Phi> \<Psi> (State_Monad.bind (pk_get r) k)"
  unfolding serves_def
proof (intro allI impI)
  fix out H P
  assume "packet_wf (P r)" "\<Phi> (P r)"
  with assms show "triple (owns R out (add_mset r H) P) (State_Monad.bind (pk_get r) k)
      (\<lambda>a s. \<exists>p. packet_wf p \<and> \<Psi> a p \<and> owns R out (add_mset r H) (P(r := p)) s)"
    by (intro triple_bind [OF triple_pk_get] triple_pure) (simp add: serves_def)
qed

lemma serves_bind:
  assumes "serves R r \<Phi> \<Xi> m" and "\<And>x. serves R r (\<Xi> x) \<Psi> (k x)"
  shows "serves R r \<Phi> \<Psi> (State_Monad.bind m k)"
  unfolding serves_def
proof (intro allI impI, rule triple_bind)
  fix out H and P :: "packet_ref \<Rightarrow> packet"
  assume "packet_wf (P r)" "\<Phi> (P r)"
  then show "triple (owns R out (add_mset r H) P) m
      (\<lambda>a s. \<exists>p. packet_wf p \<and> \<Xi> a p \<and> owns R out (add_mset r H) (P(r := p)) s)"
    using assms(1) by (simp add: serves_def)
  show "triple (\<lambda>s. \<exists>p. packet_wf p \<and> \<Xi> x p \<and> owns R out (add_mset r H) (P(r := p)) s) (k x)
      (\<lambda>a s. \<exists>p. packet_wf p \<and> \<Psi> a p \<and> owns R out (add_mset r H) (P(r := p)) s)" for x
  proof (rule triple_ex, rule triple_pure, rule triple_pure)
    fix p assume "packet_wf p" "\<Xi> x p"
    then show "triple (owns R out (add_mset r H) (P(r := p))) (k x)
      (\<lambda>a s. \<exists>p. packet_wf p \<and> \<Psi> a p \<and> owns R out (add_mset r H) (P(r := p)) s)"
      using assms(2) [of x, unfolded serves_def, rule_format, of "P(r := p)" out H] by simp
  qed
qed

lemma serves_put:
  "packet_wf p \<Longrightarrow> serves R r \<Phi> (\<lambda>_ q. q = p) (pk_put r p)"
  unfolding serves_def using triple_pk_put [of p R _ r] by (auto elim!: triple_post)

section \<open>Properties\<close>

lemma mod_word_less: "(b :: 'a::len word) \<noteq> 0 \<Longrightarrow> a mod b < b"
  by (simp add: word_less_nat_alt unat_mod unat_gt_0)

lemma word_range_shift:
  assumes "(lo :: u32) < hi" and "d < hi - lo"
  shows "lo \<le> d + lo" "d + lo < hi"
proof -
  have "unat (hi - lo) = unat hi - unat lo" using assms(1) by (simp add: unat_sub)
  then have lt: "unat d + unat lo < unat hi" using assms by (simp add: word_less_nat_alt)
  have "unat (d + lo) = unat d + unat lo"
    using lt unsigned_less [of hi, where ?'a = nat] by (simp add: unat_word_ariths)
  then show "lo \<le> d + lo" "d + lo < hi"
    using lt by (simp_all add: word_le_nat_alt word_less_nat_alt)
qed

text \<open>
  The bounded random number lies in the half-open range \<open>[min, max)\<close> whatever bytes the
  host delivers, and an empty range gives \<open>min\<close> without drawing any.
\<close>

theorem rng_next_int_range:
  "case run_state (meshcore_rng_next_int h lo hi :: ('w, 'r, u32) op) s of
     (x, s') \<Rightarrow> if lo < hi then lo \<le> x \<and> x < hi else x = lo \<and> s' = s"
proof (cases "lo < hi")
  case True
  then have "hi - lo \<noteq> 0" by auto
  then have "le_word bs mod (hi - lo) < hi - lo" for bs by (rule mod_word_less)
  note word_range_shift [OF True this]
  then show ?thesis
    using True
    by (auto simp: meshcore_rng_next_int_def not_le meshcore_rng_random_def split: prod.splits)
next
  case False
  then show ?thesis by (simp add: meshcore_rng_next_int_def not_less)
qed

text \<open>
  The unique clock never hands out a time twice: each time is later than the last one, up to
  the end of the 32-bit range, where it starts again at 0; it is the host's time
  unless that was already used.
\<close>

theorem rtc_unique_increasing:
  "case run_state (meshcore_clock_rtc_get_current_time_unique h last_unique :: ('w, 'r, u32 \<times> u32) op) s of
     ((t, last_unique'), s') \<Rightarrow>
       last_unique' = t \<and>
       (if last_unique = - 1 then t = 0 else last_unique < t) \<and>
       (let now = fst (run_state (h_rtc h) (co_world s)) in
        t = (if last_unique < now then now else last_unique + 1))"
proof -
  have succ: "last_unique < last_unique + 1" if "last_unique \<noteq> - 1"
  proof -
    have "unat last_unique \<noteq> unat (- 1 :: u32)" using that by (metis word_unat_eq_iff)
    then have "unat last_unique + 1 < 2 ^ 32"
      using unsigned_less [of last_unique, where ?'a = nat] by (simp add: unsigned_minus_1_eq_mask mask_eq_exp_minus_1)
    then show ?thesis by (simp add: word_less_nat_alt unat_word_ariths)
  qed
  have top: "now \<le> (- 1 :: u32)" for now by simp
  show ?thesis
    using succ top
    by (auto simp: meshcore_clock_rtc_get_current_time_unique_def meshcore_clock_rtc_get_current_time_def
        meshcore_platform_bridge_rtc_get_current_time_def call_def Let_def not_le not_less
        split: prod.splits)
qed

end
