(* ===== verification/Dispatcher.thy ===== *)
theory Dispatcher
  imports Core_State
begin

text \<open>
  The dispatcher (\<open>core/meshcore_dispatcher.c\<close>): parsing of received frames, the delayed
  handling of floods, the transmission of queued packets within the duty-cycle budget, and
  the next time at which it wants to be called.

  The dispatcher hands every received packet to \<open>meshcore_mesh_on_recv_packet\<close>, which in turn
  queues packets here; that function is the parameter \<open>on_recv\<close>.  What the
  dispatcher relies on is the locale \<open>recv_handler\<close>.
\<close>

section \<open>Time\<close>

definition meshcore_dispatcher_millis_has_now_passed :: "'w host \<Rightarrow> u32 \<Rightarrow> ('w, 'r, bool) op" where
  "meshcore_dispatcher_millis_has_now_passed h timestamp = do {
     now \<leftarrow> meshcore_clock_millis_get h;
     ret (after now timestamp)
   }"

definition meshcore_dispatcher_future_millis :: "'w host \<Rightarrow> int \<Rightarrow> ('w, 'r, u32) op" where
  "meshcore_dispatcher_future_millis h millis_from_now = do {
     now \<leftarrow> meshcore_clock_millis_get h;
     ret (now + of_int millis_from_now)
   }"

text \<open>
  \<open>has_deadline\<close> and \<open>deadline\<close> are one option; the result also says whether the deadline
  is already reached.
\<close>

definition meshcore_dispatcher_deadline_accumulate ::
  "u32 \<Rightarrow> u32 \<Rightarrow> u32 option \<Rightarrow> bool \<times> u32 option" where
  "meshcore_dispatcher_deadline_accumulate now candidate deadline =
     (if sint (candidate - now) \<le> 0 then (True, Some now)
      else
        (False,
         case deadline of
           None \<Rightarrow> Some candidate
         | Some best \<Rightarrow> if sint (candidate - best) < 0 then Some candidate else Some best))"

section \<open>Transmit budget\<close>

text \<open>\<open>1.0f / (1.0f + factor)\<close>\<close>

definition duty_cycle_of :: "rat \<Rightarrow> rat" where
  "duty_cycle_of factor = f32 (1 / f32 (1 + factor))"

text \<open>\<open>(unsigned long)((float)t * duty_cycle)\<close>\<close>

definition scale_time :: "u32 \<Rightarrow> rat \<Rightarrow> u32" where
  "scale_time t duty_cycle = of_int (trunc (f32 (f32 (of_nat (unat t)) * duty_cycle)))"

text \<open>\<open>(int)((float)needed / duty_cycle)\<close>\<close>

definition wait_time :: "u32 \<Rightarrow> rat \<Rightarrow> int" where
  "wait_time needed duty_cycle = trunc (f32 (f32 (of_nat (unat needed)) / duty_cycle))"

definition meshcore_dispatcher_update_tx_budget :: "'w host \<Rightarrow> ('w, 'r, unit) op" where
  "meshcore_dispatcher_update_tx_budget h = do {
     now \<leftarrow> meshcore_clock_millis_get h;
     d \<leftarrow> disp_get;
     let elapsed = now - dp_last_budget_update d;
     factor \<leftarrow> meshcore_platform_bridge_dispatcher_airtime_budget_factor_get h;
     let duty_cycle = duty_cycle_of factor;
     window \<leftarrow> meshcore_platform_bridge_dispatcher_duty_cycle_window_ms_get h;
     let max_budget = scale_time window duty_cycle;
     let refill = scale_time elapsed duty_cycle;
     when_do (refill > 0)
       (disp_modify (\<lambda>d.
          let budget = dp_tx_budget_ms d + refill
          in d \<lparr> dp_tx_budget_ms := (if budget > max_budget then max_budget else budget),
                 dp_last_budget_update := now \<rparr>))
   }"

section \<open>Parsing\<close>

definition try_parse_path :: "packet \<Rightarrow> bytes \<Rightarrow> nat \<Rightarrow> nat \<Rightarrow> bool \<times> packet" where
  "try_parse_path p raw len i =
     (if i \<ge> len then (False, p)
      else
        let p = p \<lparr> pk_path_len := ucast (byte_at raw i) \<rparr>;
            i = i + 1;
            path_mode = drop_bit 6 (ucast (pk_path_len p) :: byte) in
        if path_mode = 3 then (False, p)
        else
          let path_byte_len = meshcore_packet_get_path_byte_len p in
          if unat path_byte_len > 64 \<or> i + unat path_byte_len > len then (False, p)
          else
            let p = p \<lparr> pk_path := mem_write 0 (mem_read i (unat path_byte_len) raw) (pk_path p) \<rparr>;
                i = i + unat path_byte_len;
                p = p \<lparr> pk_payload_len := of_nat (len - i) \<rparr> in
            if unat (pk_payload_len p) > 184 then (False, p)
            else
              (True, p \<lparr> pk_payload :=
                 mem_write 0 (mem_read i (unat (pk_payload_len p)) raw) (pk_payload p) \<rparr>))"

definition meshcore_dispatcher_try_parse_packet :: "packet \<Rightarrow> bytes \<Rightarrow> nat \<Rightarrow> bool \<times> packet" where
  "meshcore_dispatcher_try_parse_packet p raw len =
     (if len = 0 then (False, p)
      else
        let i = 0;
            p = p \<lparr> pk_header := byte_at raw i \<rparr>;
            i = i + 1 in
        if meshcore_packet_get_payload_ver p > PAYLOAD_VER_1 then (False, p)
        else if meshcore_packet_has_transport_codes p then
          if i + 4 > len then (False, p)
          else
            let p = p \<lparr> pk_transport_codes :=
                  (le_word (mem_read i 2 raw), le_word (mem_read (i + 2) 2 raw)) \<rparr>
            in try_parse_path p raw len (i + 2 + 2)
        else try_parse_path (p \<lparr> pk_transport_codes := (0, 0) \<rparr>) raw len i)"

section \<open>Packets\<close>

definition err_event_full :: "dispatcher \<Rightarrow> dispatcher" where
  "err_event_full d = d \<lparr> dp_err_flags := dp_err_flags d OR 1 \<rparr>"

definition meshcore_dispatcher_obtain_new_packet :: "('w, 'r, packet_ref option) op" where
  "meshcore_dispatcher_obtain_new_packet = do {
     packet \<leftarrow> mgr_alloc_new;
     case packet of
       None \<Rightarrow> do { disp_modify err_event_full; ret None }
     | Some r \<Rightarrow> do {
         p \<leftarrow> pk_get r;
         pk_put r (p \<lparr> pk_payload_len := 0, pk_path_len := 0, pk_snr_q4 := 0 \<rparr>);
         ret (Some r)
       }
   }"

definition meshcore_dispatcher_release_packet :: "packet_ref \<Rightarrow> ('w, 'r, unit) op" where
  "meshcore_dispatcher_release_packet r = mgr_free r"

definition meshcore_dispatcher_send_packet ::
  "'w host \<Rightarrow> packet_ref \<Rightarrow> byte \<Rightarrow> u32 \<Rightarrow> ('w, 'r, unit) op" where
  "meshcore_dispatcher_send_packet h r priority delay_millis = do {
     p \<leftarrow> pk_get r;
     if \<not> meshcore_packet_is_valid_path_len (ucast (pk_path_len p)) \<or> unat (pk_payload_len p) > 184
     then mgr_free r
     else do {
       t \<leftarrow> meshcore_dispatcher_future_millis h (sint delay_millis);
       mgr_queue_outbound r priority t
     }
   }"

section \<open>Receiving\<close>

abbreviation (input) "ACTION_RELEASE \<equiv> 0 :: u32"
abbreviation (input) "ACTION_MANUAL_HOLD \<equiv> 1 :: u32"

definition meshcore_dispatcher_process_recv_packet ::
  "'w host \<Rightarrow> (packet_ref \<Rightarrow> ('w, 'r, u32) op) \<Rightarrow> packet_ref \<Rightarrow> ('w, 'r, unit) op" where
  "meshcore_dispatcher_process_recv_packet h on_recv r = do {
     action \<leftarrow> on_recv r;
     if action = ACTION_RELEASE then mgr_free r
     else if action = ACTION_MANUAL_HOLD then ret ()
     else do {
       let priority = ucast (drop_bit 24 action - 1);
       let delay = action AND 0x00FFFFFF;
       t \<leftarrow> meshcore_dispatcher_future_millis h (uint delay);
       mgr_queue_outbound r priority t
     }
   }"

definition meshcore_dispatcher_receive_raw ::
  "'w host \<Rightarrow> (packet_ref \<Rightarrow> ('w, 'r, u32) op) \<Rightarrow> bytes \<Rightarrow> nat \<Rightarrow> int \<Rightarrow> byte \<Rightarrow> ('w, 'r, errno + unit) op" where
  "meshcore_dispatcher_receive_raw h on_recv raw len rssi_dbm snr_q4 =
     (if len = 0 \<or> len > 255 then ret (Inl EINVAL)
      else do {
        let snr = of_int (sint snr_q4) / 4;
        meshcore_platform_bridge_dispatcher_log_rx_raw h snr (of_int rssi_dbm) raw len;
        packet \<leftarrow> mgr_alloc_new;
        case packet of
          None \<Rightarrow> do { disp_modify err_event_full; ret (Inl ENOBUFS) }
        | Some r \<Rightarrow> do {
            p \<leftarrow> pk_get r;
            let (ok, p) = meshcore_dispatcher_try_parse_packet p raw len;
            pk_put r p;
            if \<not> ok then do { mgr_free r; ret (Inl EINVAL) }
            else do {
              let p = p \<lparr> pk_snr_q4 := snr_q4 \<rparr>;
              pk_put r p;
              score \<leftarrow> meshcore_radio_packet_score h snr len;
              air_time \<leftarrow> meshcore_radio_get_est_airtime h len;
              disp_modify (\<lambda>d. d \<lparr> dp_rx_air_time := dp_rx_air_time d + air_time \<rparr>);
              meshcore_platform_bridge_dispatcher_log_rx h p (meshcore_packet_get_raw_length p) score;
              if meshcore_packet_is_route_flood p then do {
                disp_modify (\<lambda>d. d \<lparr> dp_n_recv_flood := dp_n_recv_flood d + 1 \<rparr>);
                delay \<leftarrow> meshcore_platform_bridge_dispatcher_rx_delay_calc h score air_time;
                if delay < 50 then do {
                  meshcore_dispatcher_process_recv_packet h on_recv r;
                  ret (Inr ())
                }
                else do {
                  let delay = (if delay > 32000 then 32000 else delay);
                  t \<leftarrow> meshcore_dispatcher_future_millis h delay;
                  mgr_queue_inbound r t;
                  ret (Inr ())
                }
              }
              else do {
                disp_modify (\<lambda>d. d \<lparr> dp_n_recv_direct := dp_n_recv_direct d + 1 \<rparr>);
                meshcore_dispatcher_process_recv_packet h on_recv r;
                ret (Inr ())
              }
            }
          }
      })"

section \<open>Sending\<close>

text \<open>\<open>release_packet(outbound); outbound = NULL;\<close>\<close>

definition drop_outbound :: "packet_ref \<Rightarrow> ('w, 'r, unit) op" where
  "drop_outbound r = do {
     meshcore_dispatcher_release_packet r;
     disp_modify (dp_outbound_update (\<lambda>_. None))
   }"

text \<open>The accounting of a completed transmission.\<close>

definition charge_air_time :: "'w host \<Rightarrow> ('w, 'r, unit) op" where
  "charge_air_time h = do {
     now \<leftarrow> meshcore_clock_millis_get h;
     d \<leftarrow> disp_get;
     let air_time = now - dp_outbound_start d;
     disp_modify (\<lambda>d. d \<lparr> dp_total_air_time := dp_total_air_time d + air_time \<rparr>);
     meshcore_dispatcher_update_tx_budget h;
     disp_modify (\<lambda>d. d \<lparr> dp_tx_budget_ms :=
       (if air_time > dp_tx_budget_ms d then 0 else dp_tx_budget_ms d - air_time) \<rparr>);
     d \<leftarrow> disp_get;
     if dp_tx_budget_ms d < 100 then do {
       factor \<leftarrow> meshcore_platform_bridge_dispatcher_airtime_budget_factor_get h;
       let needed = 100 - dp_tx_budget_ms d;
       t \<leftarrow> meshcore_dispatcher_future_millis h (wait_time needed (duty_cycle_of factor));
       disp_modify (\<lambda>d. d \<lparr> dp_next_tx_time := t \<rparr>)
     }
     else do {
       t \<leftarrow> meshcore_clock_millis_get h;
       disp_modify (\<lambda>d. d \<lparr> dp_next_tx_time := t \<rparr>)
     }
   }"

definition meshcore_dispatcher_tx_done :: "'w host \<Rightarrow> bool \<Rightarrow> ('w, 'r, bool) op" where
  "meshcore_dispatcher_tx_done h success = do {
     d \<leftarrow> disp_get;
     case dp_outbound d of
       None \<Rightarrow> ret False
     | Some r \<Rightarrow> do {
         agc_reset_interval \<leftarrow> meshcore_platform_bridge_dispatcher_agc_reset_interval_get h;
         p \<leftarrow> pk_get r;
         (if success then do {
           charge_air_time h;
           meshcore_platform_bridge_dispatcher_log_tx h p (meshcore_packet_get_raw_length p);
           if meshcore_packet_is_route_flood p
           then disp_modify (\<lambda>d. d \<lparr> dp_n_sent_flood := dp_n_sent_flood d + 1 \<rparr>)
           else disp_modify (\<lambda>d. d \<lparr> dp_n_sent_direct := dp_n_sent_direct d + 1 \<rparr>)
         }
         else meshcore_platform_bridge_dispatcher_log_tx_fail h p (meshcore_packet_get_raw_length p));
         drop_outbound r;
         when_do (agc_reset_interval > 0) (do {
           t \<leftarrow> meshcore_dispatcher_future_millis h agc_reset_interval;
           disp_modify (\<lambda>d. d \<lparr> dp_next_agc_reset_time := t \<rparr>)
         });
         ret True
       }
   }"

text \<open>The transmission of the next due packet, once the channel is free.\<close>

definition transmit_next :: "'w host \<Rightarrow> u32 \<Rightarrow> ('w, 'r, unit) op" where
  "transmit_next h now = do {
     outbound \<leftarrow> mgr_take_outbound now;
     case outbound of
       None \<Rightarrow> ret ()
     | Some r \<Rightarrow> do {
         p \<leftarrow> pk_get r;
         let (len, raw) = meshcore_packet_write_to p (zeros 255);
         if len = 0 then drop_outbound r
         else do {
           est \<leftarrow> meshcore_radio_get_est_airtime h (unat len);
           let max_airtime = est * 3 div 2;
           disp_modify (\<lambda>d. d \<lparr> dp_outbound_start := now \<rparr>);
           ok \<leftarrow> meshcore_radio_start_send_raw h raw (unat len);
           if \<not> ok then do {
             meshcore_platform_bridge_dispatcher_log_tx_fail h p (meshcore_packet_get_raw_length p);
             drop_outbound r
           }
           else do {
             t \<leftarrow> meshcore_dispatcher_future_millis h (sint max_airtime);
             disp_modify (\<lambda>d. d \<lparr> dp_outbound_expiry := t \<rparr>)
           }
         }
       }
   }"

text \<open>
  The channel-activity check: \<open>True\<close> to go on, \<open>False\<close> after putting the transmission off.
\<close>

definition channel_clear :: "'w host \<Rightarrow> u32 \<Rightarrow> ('w, 'r, bool) op" where
  "channel_clear h now = do {
     receiving \<leftarrow> meshcore_radio_is_receiving h;
     if \<not> receiving then ret True
     else do {
       disp_modify (\<lambda>d. if dp_cad_busy_start d = 0 then d \<lparr> dp_cad_busy_start := now \<rparr> else d);
       max_duration \<leftarrow> meshcore_platform_bridge_dispatcher_cad_fail_max_duration_get h;
       d \<leftarrow> disp_get;
       if now - dp_cad_busy_start d > max_duration then do {
         disp_modify (\<lambda>d. d \<lparr> dp_err_flags := dp_err_flags d OR 2 \<rparr>);
         ret True
       }
       else do {
         retry \<leftarrow> meshcore_platform_bridge_mesh_cad_fail_retry_delay_get h;
         t \<leftarrow> meshcore_dispatcher_future_millis h (sint retry);
         disp_modify (\<lambda>d. d \<lparr> dp_next_tx_time := t \<rparr>);
         ret False
       }
     }
   }"

definition meshcore_dispatcher_check_send :: "'w host \<Rightarrow> ('w, 'r, unit) op" where
  "meshcore_dispatcher_check_send h = do {
     now \<leftarrow> meshcore_clock_millis_get h;
     due \<leftarrow> gets (\<lambda>s. meshcore_packet_queue_manager_get_outbound_count (co_mgr s) now);
     if due = 0 then ret ()
     else do {
       meshcore_dispatcher_update_tx_budget h;
       est_airtime \<leftarrow> meshcore_radio_get_est_airtime h 255;
       d \<leftarrow> disp_get;
       if dp_tx_budget_ms d < est_airtime div 2 then do {
         factor \<leftarrow> meshcore_platform_bridge_dispatcher_airtime_budget_factor_get h;
         let needed = est_airtime div 2 - dp_tx_budget_ms d;
         t \<leftarrow> meshcore_dispatcher_future_millis h (wait_time needed (duty_cycle_of factor));
         disp_modify (\<lambda>d. d \<lparr> dp_next_tx_time := t \<rparr>)
       }
       else do {
         passed \<leftarrow> meshcore_dispatcher_millis_has_now_passed h (dp_next_tx_time d);
         if \<not> passed then ret ()
         else do {
           clear \<leftarrow> channel_clear h now;
           if \<not> clear then ret ()
           else do {
             disp_modify (\<lambda>d. d \<lparr> dp_cad_busy_start := 0 \<rparr>);
             transmit_next h now
           }
         }
       }
     }
   }"

section \<open>Life cycle\<close>

definition meshcore_dispatcher_init :: "'w host \<Rightarrow> ('w, 'r, unit) op" where
  "meshcore_dispatcher_init h = do {
     disp_modify (\<lambda>_. dispatcher_zero);
     now \<leftarrow> meshcore_clock_millis_get h;
     disp_modify (\<lambda>d. d \<lparr> dp_next_tx_time := now, dp_prev_isrecv_mode := True,
       dp_duty_cycle_window_ms := 3600000 \<rparr>)
   }"

definition meshcore_dispatcher_begin :: "'w host \<Rightarrow> ('w, 'r, unit) op" where
  "meshcore_dispatcher_begin h = do {
     now \<leftarrow> meshcore_clock_millis_get h;
     disp_modify (\<lambda>d. d \<lparr> dp_n_sent_flood := 0, dp_n_sent_direct := 0, dp_n_recv_flood := 0,
       dp_n_recv_direct := 0, dp_err_flags := 0, dp_radio_nonrx_start := now \<rparr>);
     window \<leftarrow> meshcore_platform_bridge_dispatcher_duty_cycle_window_ms_get h;
     disp_modify (\<lambda>d. d \<lparr> dp_duty_cycle_window_ms := window \<rparr>);
     factor \<leftarrow> meshcore_platform_bridge_dispatcher_airtime_budget_factor_get h;
     disp_modify (\<lambda>d. d \<lparr>
       dp_tx_budget_ms := scale_time (dp_duty_cycle_window_ms d) (duty_cycle_of factor),
       dp_last_budget_update := now, dp_next_tx_time := now \<rparr>);
     meshcore_radio_begin h;
     mode \<leftarrow> meshcore_radio_is_in_recv_mode h;
     disp_modify (\<lambda>d. d \<lparr> dp_prev_isrecv_mode := mode \<rparr>)
   }"

text \<open>The part of the loop before the outbound packet is looked at.\<close>

definition loop_housekeeping :: "'w host \<Rightarrow> ('w, 'r, int) op" where
  "loop_housekeeping h = do {
     d \<leftarrow> disp_get;
     calib \<leftarrow> meshcore_dispatcher_millis_has_now_passed h (dp_next_floor_calib_time d);
     when_do calib (do {
       threshold \<leftarrow> meshcore_platform_bridge_dispatcher_interference_threshold_get h;
       meshcore_radio_trigger_noise_floor_calibrate h threshold;
       t \<leftarrow> meshcore_dispatcher_future_millis h 2000;
       disp_modify (\<lambda>d. d \<lparr> dp_next_floor_calib_time := t \<rparr>)
     });
     agc_reset_interval \<leftarrow> meshcore_platform_bridge_dispatcher_agc_reset_interval_get h;
     is_recv \<leftarrow> meshcore_radio_is_in_recv_mode h;
     d \<leftarrow> disp_get;
     when_do (is_recv \<noteq> dp_prev_isrecv_mode d) (do {
       disp_modify (\<lambda>d. d \<lparr> dp_prev_isrecv_mode := is_recv \<rparr>);
       when_do (\<not> is_recv) (do {
         now \<leftarrow> meshcore_clock_millis_get h;
         disp_modify (\<lambda>d. d \<lparr> dp_radio_nonrx_start := now \<rparr>)
       })
     });
     now \<leftarrow> meshcore_clock_millis_get h;
     disp_modify (\<lambda>d.
       if \<not> is_recv \<and> now - dp_radio_nonrx_start d > 8000
       then d \<lparr> dp_err_flags := dp_err_flags d OR 4 \<rparr> else d);
     ret agc_reset_interval
   }"

text \<open>\<open>False\<close> when the loop returns because a transmission is still in progress.\<close>

definition outbound_settled :: "'w host \<Rightarrow> ('w, 'r, bool) op" where
  "outbound_settled h = do {
     d \<leftarrow> disp_get;
     case dp_outbound d of
       None \<Rightarrow> ret True
     | Some _ \<Rightarrow> do {
         expired \<leftarrow> meshcore_dispatcher_millis_has_now_passed h (dp_outbound_expiry d);
         if expired then do { _ \<leftarrow> meshcore_dispatcher_tx_done h False; ret True }
         else ret False
       }
   }"

definition meshcore_dispatcher_loop ::
  "'w host \<Rightarrow> (packet_ref \<Rightarrow> ('w, 'r, u32) op) \<Rightarrow> ('w, 'r, unit) op" where
  "meshcore_dispatcher_loop h on_recv = do {
     agc_reset_interval \<leftarrow> loop_housekeeping h;
     settled \<leftarrow> outbound_settled h;
     if \<not> settled then ret ()
     else do {
       d \<leftarrow> disp_get;
       agc \<leftarrow> (if agc_reset_interval > 0
              then meshcore_dispatcher_millis_has_now_passed h (dp_next_agc_reset_time d)
              else ret False);
       when_do agc (do {
         meshcore_radio_reset_agc h;
         t \<leftarrow> meshcore_dispatcher_future_millis h agc_reset_interval;
         disp_modify (\<lambda>d. d \<lparr> dp_next_agc_reset_time := t \<rparr>)
       });
       now \<leftarrow> meshcore_clock_millis_get h;
       packet \<leftarrow> mgr_get_next_inbound now;
       (case packet of
          None \<Rightarrow> ret ()
        | Some r \<Rightarrow> meshcore_dispatcher_process_recv_packet h on_recv r);
       meshcore_dispatcher_check_send h
     }
   }"

section \<open>Deadlines\<close>

text \<open>
  The candidates of \<open>meshcore_dispatcher_next_deadline_get\<close> in the order of the code; the
  last one needs the receive mode of the radio, which the code asks for only when no
  earlier candidate is due.
\<close>

definition queue_candidates :: "u32 \<Rightarrow> ('w, 'r) core \<Rightarrow> u32 option list" where
  "queue_candidates now s =
     (let d = co_disp s; m = co_mgr s in
      [ map_option (\<lambda>_. dp_outbound_expiry d) (dp_outbound d),
        meshcore_packet_queue_manager_next_outbound_scheduled_get m now,
        meshcore_packet_queue_manager_next_inbound_scheduled_get m now,
        (if meshcore_packet_queue_manager_get_outbound_total m > 0 then Some (dp_next_tx_time d) else None),
        Some (dp_next_floor_calib_time d),
        (if dp_next_agc_reset_time d \<noteq> 0 then Some (dp_next_agc_reset_time d) else None) ])"

text \<open>\<open>Inl\<close> a deadline that is due, \<open>Inr\<close> the best one so far.\<close>

fun accumulate_all :: "u32 \<Rightarrow> u32 option list \<Rightarrow> u32 option \<Rightarrow> u32 option + u32 option" where
  "accumulate_all now [] deadline = Inr deadline"
| "accumulate_all now (None # cs) deadline = accumulate_all now cs deadline"
| "accumulate_all now (Some c # cs) deadline =
     (let (reached, deadline) = meshcore_dispatcher_deadline_accumulate now c deadline
      in if reached then Inl deadline else accumulate_all now cs deadline)"

definition meshcore_dispatcher_next_deadline_get :: "'w host \<Rightarrow> u32 \<Rightarrow> ('w, 'r, u32 option) op" where
  "meshcore_dispatcher_next_deadline_get h now = do {
     cs \<leftarrow> gets (queue_candidates now);
     case accumulate_all now cs None of
       Inl due \<Rightarrow> ret due
     | Inr deadline \<Rightarrow> do {
         is_recv \<leftarrow> meshcore_radio_is_in_recv_mode h;
         if is_recv then ret deadline
         else do {
           d \<leftarrow> disp_get;
           ret (snd (meshcore_dispatcher_deadline_accumulate now (dp_radio_nonrx_start d + 8000) deadline))
         }
       }
   }"

section \<open>Statistics\<close>

definition meshcore_dispatcher_get_total_air_time :: "dispatcher \<Rightarrow> u32" where
  "meshcore_dispatcher_get_total_air_time d = dp_total_air_time d"

definition meshcore_dispatcher_get_receive_air_time :: "dispatcher \<Rightarrow> u32" where
  "meshcore_dispatcher_get_receive_air_time d = dp_rx_air_time d"

definition meshcore_dispatcher_get_remaining_tx_budget :: "dispatcher \<Rightarrow> u32" where
  "meshcore_dispatcher_get_remaining_tx_budget d = dp_tx_budget_ms d"

definition meshcore_dispatcher_get_num_sent_flood :: "dispatcher \<Rightarrow> u32" where
  "meshcore_dispatcher_get_num_sent_flood d = dp_n_sent_flood d"

definition meshcore_dispatcher_get_num_sent_direct :: "dispatcher \<Rightarrow> u32" where
  "meshcore_dispatcher_get_num_sent_direct d = dp_n_sent_direct d"

definition meshcore_dispatcher_get_num_recv_flood :: "dispatcher \<Rightarrow> u32" where
  "meshcore_dispatcher_get_num_recv_flood d = dp_n_recv_flood d"

definition meshcore_dispatcher_get_num_recv_direct :: "dispatcher \<Rightarrow> u32" where
  "meshcore_dispatcher_get_num_recv_direct d = dp_n_recv_direct d"

definition meshcore_dispatcher_get_err_flags :: "dispatcher \<Rightarrow> u16" where
  "meshcore_dispatcher_get_err_flags d = dp_err_flags d"

definition meshcore_dispatcher_reset_stats :: "dispatcher \<Rightarrow> dispatcher" where
  "meshcore_dispatcher_reset_stats d = d \<lparr> dp_n_sent_flood := 0, dp_n_sent_direct := 0,
     dp_n_recv_flood := 0, dp_n_recv_direct := 0, dp_err_flags := 0 \<rparr>"

section \<open>Facts about parsing\<close>

lemma path_mode_3: "drop_bit 6 (ucast (ucast f :: u16) :: byte) = 3 \<longleftrightarrow> hash_size (f :: byte) = 4"
proof -
  have e: "(ucast (ucast f :: u16) :: byte) = f"
    by (simp add: unsigned_ucast_eq take_bit_word_eq_self)
  show ?thesis unfolding e by (simp add: hash_size_def word_unat_eq_iff)
qed

lemma unat_frame_rest: "len \<le> 255 \<Longrightarrow> unat (of_nat (len - i) :: u16) = len - i"
  by (simp add: unsigned_of_nat take_bit_nat_eq_self)

lemma try_parse_path_eq:
  assumes "len \<le> 255"
  shows "try_parse_path p raw len off =
     (if off \<ge> len then (False, p)
      else
        let f = byte_at raw off; p = p \<lparr> pk_path_len := ucast f \<rparr>; off' = off + 1 + path_bytes f in
        if \<not> meshcore_packet_is_valid_path_len f \<or> off' > len then (False, p)
        else
          let p = p \<lparr> pk_path := mem_write 0 (mem_read (off + 1) (path_bytes f) raw) (pk_path p),
                      pk_payload_len := of_nat (len - off') \<rparr> in
          if len - off' > 184 then (False, p)
          else (True, p \<lparr> pk_payload := mem_write 0 (mem_read off' (len - off') raw) (pk_payload p) \<rparr>))"
  using unat_frame_rest [OF assms, of "off + 1 + path_bytes (byte_at raw off)"]
  by (auto simp: try_parse_path_def Let_def path_mode_3 valid_path_len_iff not_le)

lemma try_parse_eq:
  "meshcore_dispatcher_try_parse_packet p raw len =
     (if len = 0 then (False, p)
      else let q = p \<lparr> pk_header := byte_at raw 0 \<rparr> in
        if meshcore_packet_get_payload_ver q \<noteq> 0 then (False, q)
        else if meshcore_packet_has_transport_codes q then
          if len < 5 then (False, q)
          else try_parse_path (q \<lparr> pk_transport_codes :=
                 (le_word (mem_read 1 2 raw), le_word (mem_read 3 2 raw)) \<rparr>) raw len 5
        else try_parse_path (q \<lparr> pk_transport_codes := (0, 0) \<rparr>) raw len 1)"
  by (simp add: meshcore_dispatcher_try_parse_packet_def Let_def word_neq_0_conv numeral_eq_Suc)

lemma try_parse_path_wf:
  assumes "packet_wf p" and "len \<le> 255" and "try_parse_path p raw len off = (ok, q)"
  shows "packet_wf q" "ok \<Longrightarrow> sendable q"
proof -
  let ?f = "byte_at raw off"
  let ?o = "off + 1 + path_bytes ?f"
  have pb: "path_bytes ?f \<le> 64" if "meshcore_packet_is_valid_path_len ?f"
    using that by (simp add: valid_path_len_iff)
  have lens: "length (mem_read (off + 1) (path_bytes ?f) raw) \<le> path_bytes ?f"
    "length (mem_read ?o (len - ?o) raw) \<le> len - ?o" by (rule length_mem_read_le)+
  show wf: "packet_wf q"
    using assms(1,3) pb lens
    unfolding try_parse_path_eq [OF assms(2)]
    by (auto simp: packet_wf_def Let_def mem_write_in_bounds_iff split: if_splits)
  show "sendable q" if ok
    using wf assms(3) that unat_frame_rest [OF assms(2), of ?o]
    unfolding try_parse_path_eq [OF assms(2)]
    by (auto simp: sendable_def Let_def split: if_splits)
qed

lemma try_parse_wf:
  assumes "packet_wf p" and "len \<le> 255" and "meshcore_dispatcher_try_parse_packet p raw len = (ok, q)"
  shows "packet_wf q" "ok \<Longrightarrow> sendable q"
proof -
  have "packet_wf (p \<lparr> pk_header := b \<rparr>)" "packet_wf (p \<lparr> pk_header := b, pk_transport_codes := t \<rparr>)"
    for b t using assms(1) by (simp_all add: packet_wf_def)
  then consider "\<not> ok" "packet_wf q"
    | p' off where "packet_wf p'" "try_parse_path p' raw len off = (ok, q)"
    using assms(1,3) unfolding try_parse_eq Let_def by (auto split: if_splits) blast+
  then show "packet_wf q" "ok \<Longrightarrow> sendable q"
    by (cases; use try_parse_path_wf [OF _ assms(2)] in blast)+
qed

text \<open>A frame with a payload is accepted as the packet codec accepts it.\<close>

lemma try_parse_path_read_at:
  assumes "len \<le> 255"
  shows "try_parse_path p raw len off = (True, q) \<and> 0 < unat (pk_payload_len q) \<longleftrightarrow>
    read_at p raw len off = (True, q)"
  using unat_frame_rest [OF assms, of "off + 1 + path_bytes (byte_at raw off)"]
  unfolding try_parse_path_eq [OF assms] read_at_def Let_def
  by (auto split: if_splits)

section \<open>Ownership in the dispatcher\<close>

lemma calm_time [calm_rules]:
  "calm R (meshcore_dispatcher_millis_has_now_passed h t)" "calm R (meshcore_dispatcher_future_millis h d)"
  unfolding meshcore_dispatcher_millis_has_now_passed_def meshcore_dispatcher_future_millis_def
  by (intro calm_rules)+

lemma calm_update_tx_budget [calm_rules]: "calm R (meshcore_dispatcher_update_tx_budget h)"
  unfolding meshcore_dispatcher_update_tx_budget_def
  by (intro calm_rules) (simp add: Let_def)

lemma calm_charge_air_time [calm_rules]: "calm R (charge_air_time h)"
  unfolding charge_air_time_def by (intro calm_rules) simp_all

lemma calm_channel_clear [calm_rules]: "calm R (channel_clear h now)"
  unfolding channel_clear_def by (intro calm_rules) simp_all

lemma calm_loop_housekeeping [calm_rules]: "calm R (loop_housekeeping h)"
  unfolding loop_housekeeping_def by (intro calm_rules) simp_all

lemma calm_begin [calm_rules]: "calm R (meshcore_dispatcher_begin h)"
  unfolding meshcore_dispatcher_begin_def by (intro calm_rules) simp_all

lemma calm_next_deadline [calm_rules]: "calm R (meshcore_dispatcher_next_deadline_get h now)"
  unfolding meshcore_dispatcher_next_deadline_get_def by (intro calm_rules)

lemma makes_obtain: "makes R (\<lambda>p. pk_payload_len p = 0 \<and> pk_path_len p = 0) meshcore_dispatcher_obtain_new_packet"
  unfolding meshcore_dispatcher_obtain_new_packet_def
  by (intro makes_bind_case [OF makes_alloc_new] makes_calm_bind makes_None fills_get fills_put fills_ret
      calm_rules)
     (simp_all add: err_event_full_def packet_wf_def)

lemma takes_release: "takes R r \<Phi> (meshcore_dispatcher_release_packet r)"
  by (simp add: meshcore_dispatcher_release_packet_def takes_free)

lemma takes_send_packet: "takes R r \<Phi> (meshcore_dispatcher_send_packet h r pri delay)"
  unfolding meshcore_dispatcher_send_packet_def
  by (intro takes_get takes_if takes_free takes_calm_bind takes_queue_outbound calm_rules)
     (auto simp: sendable_def meshcore_packet_path_len_field_def)

lemma calm_then:
  "calm R m \<Longrightarrow> (\<And>x. triple (owns R out H P) (k x) Q) \<Longrightarrow>
   triple (owns R out H P) (State_Monad.bind m k) Q"
  by (rule triple_bind [OF calmD])

lemma triple_disp_get: "triple (owns R out H P) disp_get (\<lambda>d s. dp_outbound d = out \<and> owns R out H P s)"
  by (simp add: triple_def disp_get_def owns_def)

lemma triple_drop: "triple (owns R (Some r) H P) (drop_outbound r) (\<lambda>_. owns R None H P)"
  unfolding drop_outbound_def meshcore_dispatcher_release_packet_def by (rule triple_drop_outbound)

lemma triple_tx_done:
  "triple (owns R out H P) (meshcore_dispatcher_tx_done h ok)
     (\<lambda>res s. res = (out \<noteq> None) \<and> owns R None H P s)"
  unfolding meshcore_dispatcher_tx_done_def
proof (rule triple_bind [OF triple_disp_get], rule triple_pure, goal_cases)
  case (1 d)
  show ?case
  proof (cases out)
    case None
    then show ?thesis using 1 by (simp add: triple_def)
  next
    case (Some r)
    have sent: "calm R (if ok then do {
           charge_air_time h;
           meshcore_platform_bridge_dispatcher_log_tx h p (meshcore_packet_get_raw_length p);
           if meshcore_packet_is_route_flood p
           then disp_modify (\<lambda>d. d \<lparr> dp_n_sent_flood := dp_n_sent_flood d + 1 \<rparr>)
           else disp_modify (\<lambda>d. d \<lparr> dp_n_sent_direct := dp_n_sent_direct d + 1 \<rparr>)
         }
         else meshcore_platform_bridge_dispatcher_log_tx_fail h p (meshcore_packet_get_raw_length p))" for p
      by (intro calm_rules) simp_all
    have agc: "calm R (when_do (n > 0) (do {
           t \<leftarrow> meshcore_dispatcher_future_millis h n;
           disp_modify (\<lambda>d. d \<lparr> dp_next_agc_reset_time := t \<rparr>)
         }))" for n
      by (intro calm_rules) simp_all
    have fin: "triple (owns R None H P) (State_Monad.bind (when_do (n > 0) (do {
           t \<leftarrow> meshcore_dispatcher_future_millis h n;
           disp_modify (\<lambda>d. d \<lparr> dp_next_agc_reset_time := t \<rparr>)
         })) (\<lambda>_. ret True)) (\<lambda>res s. res = (Some r \<noteq> None) \<and> owns R None H P s)" for n
      by (rule calm_then [OF agc]) (simp add: triple_def)
    show ?thesis
      unfolding Some 1 option.case
      by (rule calm_then, rule calm_bridge, rule triple_bind [OF triple_get_outbound], rule triple_pure,
          rule calm_then [OF sent], rule triple_bind [OF triple_drop], rule fin)
  qed
qed

lemma triple_transmit_next:
  "triple (owns R None H P) (transmit_next h now) (\<lambda>_ s. \<exists>out. owns R out H P s)"
  unfolding transmit_next_def
proof (rule triple_bind [OF triple_take_outbound], goal_cases)
  case (1 out)
  have drop: "triple (owns R (Some r) H P) (drop_outbound r) (\<lambda>_ s. \<exists>out. owns R out H P s)" for r
    by (rule triple_post [OF triple_drop]) blast
  have expiry: "triple (owns R (Some r) H P) (do {
      t \<leftarrow> meshcore_dispatcher_future_millis h x;
      disp_modify (\<lambda>d. d \<lparr> dp_outbound_expiry := t \<rparr>) }) (\<lambda>_ s. \<exists>out. owns R out H P s)" for r x
  proof -
    have "calm R (do { t \<leftarrow> meshcore_dispatcher_future_millis h x;
      disp_modify (\<lambda>d. d \<lparr> dp_outbound_expiry := t \<rparr>) })"
      by (intro calm_rules) simp_all
    then show ?thesis by (rule triple_post [OF calmD]) blast
  qed
  have start: "calm R (disp_modify (\<lambda>d. d \<lparr> dp_outbound_start := now \<rparr>))"
    by (intro calm_rules) simp_all
  show ?case
  proof (cases out)
    case None
    then show ?thesis by (auto simp: triple_def)
  next
    case (Some r)
    show ?thesis
      unfolding Some option.case Let_def case_prod_unfold
      by (intro triple_bind [OF triple_get_outbound] triple_pure triple_if drop expiry
          calm_then [OF start] calm_then calm_bridge calm_devices)
  qed
qed

lemma triple_check_send:
  "triple (owns R None H P) (meshcore_dispatcher_check_send h) (\<lambda>_ s. \<exists>out. owns R out H P s)"
proof -
  have idle: "triple (owns R None H P) (ret ()) (\<lambda>_ s. \<exists>out. owns R out H P s)"
    by (auto simp: triple_def)
  have wait: "calm R (do {
         factor \<leftarrow> meshcore_platform_bridge_dispatcher_airtime_budget_factor_get h;
         let needed = est div 2 - b;
         t \<leftarrow> meshcore_dispatcher_future_millis h (wait_time needed (duty_cycle_of factor));
         disp_modify (\<lambda>d. d \<lparr> dp_next_tx_time := t \<rparr>)
       })" for est b
    by (intro calm_rules) simp_all
  have start: "calm R (disp_modify (\<lambda>d. d \<lparr> dp_cad_busy_start := 0 \<rparr>))"
    by (intro calm_rules) simp_all
  show ?thesis
    unfolding meshcore_dispatcher_check_send_def
    by (intro calm_then [OF start] calm_then triple_if idle triple_transmit_next
        triple_post [OF calmD [OF wait]] calm_clock calm_gets calm_update_tx_budget calm_devices
        calm_disp_get calm_time calm_channel_clear exI)
qed

lemma triple_outbound_settled:
  "triple (owns R out H P) (outbound_settled h)
     (\<lambda>settled s. if settled then owns R None H P s else owns R out H P s)"
  unfolding outbound_settled_def
proof (rule triple_bind [OF triple_disp_get], rule triple_pure, goal_cases)
  case (1 d)
  have tx: "triple (owns R out H P) (do { _ \<leftarrow> meshcore_dispatcher_tx_done h False; ret True })
      (\<lambda>settled s. if settled then owns R None H P s else owns R out H P s)"
    by (rule triple_bind [OF triple_tx_done]) (simp add: triple_def)
  show ?case
  proof (cases out)
    case None
    then show ?thesis using 1 by (simp add: triple_def)
  next
    case (Some r)
    have stay: "triple (owns R out H P) (ret False)
      (\<lambda>settled s. if settled then owns R None H P s else owns R out H P s)"
      by (simp add: triple_def)
    show ?thesis
      unfolding 1 Some option.case
      by (rule calm_then, rule calm_time, rule triple_if)
         (rule tx [unfolded Some], rule stay [unfolded Some])
  qed
qed

section \<open>The contract with the mesh layer\<close>

text \<open>
  The handler of received packets may read and change the packet, queue others and call the
  host; it gives the packet back, never asks for it to be kept, and asks for a retransmission
  only of a packet that can be put on the wire.
\<close>

locale recv_handler =
  fixes R :: "'r \<Rightarrow> bool"
    and on_recv :: "packet_ref \<Rightarrow> ('w, 'r, u32) op"
  assumes on_recv: "serves R r sendable (\<lambda>a p. a \<noteq> 1 \<and> (a \<noteq> 0 \<longrightarrow> sendable p)) (on_recv r)"
begin

lemma takes_process_recv: "takes R r sendable (meshcore_dispatcher_process_recv_packet h on_recv r)"
proof (rule takesI)
  fix out H P
  assume P: "packet_wf (P r)" "sendable (P r)" "r \<notin># H"
  let ?k = "\<lambda>action. if action = 0 then mgr_free r else if action = 1 then ret ()
     else do {
       let priority = ucast (drop_bit 24 action - 1);
       let delay = action AND 0x00FFFFFF;
       t \<leftarrow> meshcore_dispatcher_future_millis h (uint delay);
       mgr_queue_outbound r priority t
     }"
  have act: "triple (owns R out (add_mset r H) (P(r := p))) (?k a) (\<lambda>_. owns R out H P)"
    if "packet_wf p" "a \<noteq> 1" "a \<noteq> 0 \<longrightarrow> sendable p" for a p
  proof -
    have "takes R r (\<lambda>q. a \<noteq> 0 \<longrightarrow> sendable q) (?k a)"
      using that(2)
      by (intro takes_if takes_free takes_Let takes_calm_bind takes_queue_outbound calm_time) auto
    from this [unfolded takes_def, rule_format, of "P(r := p)" out H] show ?thesis
      using that P(3) by simp
  qed
  have "triple (\<lambda>s. \<exists>p. packet_wf p \<and> (a \<noteq> 1 \<and> (a \<noteq> 0 \<longrightarrow> sendable p)) \<and>
      owns R out (add_mset r H) (P(r := p)) s) (?k a) (\<lambda>_. owns R out H P)" for a
    by (rule triple_ex, (rule triple_pure)+) (rule act, auto)
  moreover have "triple (owns R out (add_mset r H) P) (on_recv r) (\<lambda>a s. \<exists>p. packet_wf p \<and>
      (a \<noteq> 1 \<and> (a \<noteq> 0 \<longrightarrow> sendable p)) \<and> owns R out (add_mset r H) (P(r := p)) s)"
    using on_recv P by (simp add: serves_def)
  ultimately show "triple (owns R out (add_mset r H) P)
      (meshcore_dispatcher_process_recv_packet h on_recv r) (\<lambda>_. owns R out H P)"
    unfolding meshcore_dispatcher_process_recv_packet_def by (rule triple_bind [rotated])
qed

lemma takes_receive_parsed:
  assumes "sendable p" and "packet_wf p"
  shows "takes R r (\<lambda>q. q = p) (if meshcore_packet_is_route_flood p then do {
       disp_modify (\<lambda>d. d \<lparr> dp_n_recv_flood := dp_n_recv_flood d + 1 \<rparr>);
       delay \<leftarrow> meshcore_platform_bridge_dispatcher_rx_delay_calc h score air_time;
       if delay < 50 then do {
         meshcore_dispatcher_process_recv_packet h on_recv r;
         ret (Inr ())
       }
       else do {
         let delay = (if delay > 32000 then 32000 else delay);
         t \<leftarrow> meshcore_dispatcher_future_millis h delay;
         mgr_queue_inbound r t;
         ret (Inr ())
       }
     }
     else do {
       disp_modify (\<lambda>d. d \<lparr> dp_n_recv_direct := dp_n_recv_direct d + 1 \<rparr>);
       meshcore_dispatcher_process_recv_packet h on_recv r;
       ret (Inr ())
     })"
proof -
  have process: "takes R r (\<lambda>q. q = p) (State_Monad.bind
      (meshcore_dispatcher_process_recv_packet h on_recv r) (\<lambda>_. ret (Inr ())))"
    by (rule takes_then [OF takes_mono [OF takes_process_recv] calm_return]) (simp add: assms)
  have queue: "takes R r (\<lambda>q. q = p) (State_Monad.bind (mgr_queue_inbound r t) (\<lambda>_. ret (Inr ())))" for t
    by (rule takes_then [OF takes_queue_inbound calm_return]) (simp add: assms)
  show ?thesis
    by (intro takes_if takes_Let process queue takes_calm_bind calm_disp_modify calm_bridge calm_time) simp_all
qed

lemma calm_receive_raw: "calm R (meshcore_dispatcher_receive_raw h on_recv raw len rssi snr)"
proof (cases "len = 0 \<or> len > 255")
  case True
  then show ?thesis by (simp add: meshcore_dispatcher_receive_raw_def calm_return)
next
  case False
  then have len: "len \<le> 255" by simp
  have parsed: "takes R r (\<lambda>q. q = p) (do {
      let (ok, p) = meshcore_dispatcher_try_parse_packet p raw len;
      pk_put r p;
      if \<not> ok then do { mgr_free r; ret (Inl EINVAL) }
      else do {
        let p = p \<lparr> pk_snr_q4 := snr \<rparr>;
        pk_put r p;
        score \<leftarrow> meshcore_radio_packet_score h x len;
        air_time \<leftarrow> meshcore_radio_get_est_airtime h len;
        disp_modify (\<lambda>d. d \<lparr> dp_rx_air_time := dp_rx_air_time d + air_time \<rparr>);
        meshcore_platform_bridge_dispatcher_log_rx h p (meshcore_packet_get_raw_length p) score;
        if meshcore_packet_is_route_flood p then do {
          disp_modify (\<lambda>d. d \<lparr> dp_n_recv_flood := dp_n_recv_flood d + 1 \<rparr>);
          delay \<leftarrow> meshcore_platform_bridge_dispatcher_rx_delay_calc h score air_time;
          if delay < 50 then do {
            meshcore_dispatcher_process_recv_packet h on_recv r;
            ret (Inr ())
          }
          else do {
            let delay = (if delay > 32000 then 32000 else delay);
            t \<leftarrow> meshcore_dispatcher_future_millis h delay;
            mgr_queue_inbound r t;
            ret (Inr ())
          }
        }
        else do {
          disp_modify (\<lambda>d. d \<lparr> dp_n_recv_direct := dp_n_recv_direct d + 1 \<rparr>);
          meshcore_dispatcher_process_recv_packet h on_recv r;
          ret (Inr ())
        }
      }
    })" if "packet_wf p" for r p x
  proof -
    obtain ok q where q: "meshcore_dispatcher_try_parse_packet p raw len = (ok, q)" by fastforce
    note wf = try_parse_wf [OF that len q]
    have free: "takes R r (\<lambda>p. p = q) (State_Monad.bind (mgr_free r) (\<lambda>_. ret (Inl EINVAL)))"
      by (rule takes_then [OF takes_free calm_return])
    have wf': "packet_wf (q \<lparr> pk_snr_q4 := snr \<rparr>)" "ok \<Longrightarrow> sendable (q \<lparr> pk_snr_q4 := snr \<rparr>)"
      using wf by (simp_all add: packet_wf_def sendable_def meshcore_packet_path_len_field_def)
    show ?thesis
      unfolding q Let_def prod.case
      by (rule takes_put [OF wf(1)], rule takes_if, rule free, rule takes_put [OF wf'(1)],
          rule takes_calm_bind [OF calm_devices(7)], rule takes_calm_bind [OF calm_devices(6)],
          rule takes_calm_bind, rule calm_disp_modify, simp, rule takes_calm_bind, rule calm_bridge,
          rule takes_receive_parsed [unfolded Let_def]) (simp_all add: wf')
  qed
  have none: "calm R (do { disp_modify err_event_full; ret (Inl ENOBUFS) })"
    by (intro calm_rules) (simp add: err_event_full_def)
  show ?thesis
    unfolding meshcore_dispatcher_receive_raw_def if_not_P [OF False]
    by (rule calm_Let, rule calm_bind, rule calm_bridge, rule calm_bind_makes_case [OF makes_alloc_new none],
        rule takes_get, rule parsed)
qed

lemma triple_loop:
  "triple (owns R out H P) (meshcore_dispatcher_loop h on_recv) (\<lambda>_ s. \<exists>out. owns R out H P s)"
proof -
  let ?Q = "\<lambda>_ s. \<exists>out. owns R out H P s"
  have agc: "calm R (when_do agc (do {
         meshcore_radio_reset_agc h;
         t \<leftarrow> meshcore_dispatcher_future_millis h n;
         disp_modify (\<lambda>d. d \<lparr> dp_next_agc_reset_time := t \<rparr>)
       }))" for agc n
    by (intro calm_rules) simp_all
  have due: "calm R (if n > 0 then meshcore_dispatcher_millis_has_now_passed h t else ret False)" for n :: int and t
    by (intro calm_rules)
  have inbound: "calm R (State_Monad.bind (mgr_get_next_inbound now) (\<lambda>packet. case packet of None \<Rightarrow> ret ()
        | Some r \<Rightarrow> meshcore_dispatcher_process_recv_packet h on_recv r))" for now
    by (rule calm_bind_makes_case [OF makes_get_next_inbound calm_return takes_process_recv])
  have rest: "triple (owns R None H P) (State_Monad.bind (mgr_get_next_inbound now) (\<lambda>packet.
      State_Monad.bind (case packet of None \<Rightarrow> ret ()
        | Some r \<Rightarrow> meshcore_dispatcher_process_recv_packet h on_recv r) (\<lambda>_. meshcore_dispatcher_check_send h))) ?Q" for now
    unfolding State_Monad.bind_assoc [symmetric] by (rule calm_then [OF inbound], rule triple_check_send)
  have stop: "triple (owns R out H P) (ret ()) ?Q" by (auto simp: triple_def)
  have go: "triple (\<lambda>s. if settled then owns R None H P s else owns R out H P s)
      (if \<not> settled then ret () else m) ?Q"
    if "triple (owns R None H P) m ?Q" for settled m
    using that by (cases settled) (simp_all add: stop)
  show ?thesis
    unfolding meshcore_dispatcher_loop_def
    by (rule calm_then [OF calm_loop_housekeeping], rule triple_bind [OF triple_outbound_settled], rule go,
        rule calm_then [OF calm_disp_get], rule calm_then [OF due], rule calm_then [OF agc],
        rule calm_then [OF calm_clock], rule rest)
qed

end

section \<open>Properties\<close>

definition example_radio :: "(unit, unit) core" where
  "example_radio = \<lparr> co_world = (), co_millis_override = Some 1000, co_mgr = manager_zero,
     co_tables = meshcore_tables_init, co_disp = dispatcher_zero \<lparr> dp_last_budget_update := 1000 \<rparr>,
     co_self = meshcore_local_identity_init, co_rt = () \<rparr>"

text \<open>
  C19. The dispatcher's parser and the packet decoder accept the same frames of up to 255 bytes and read the same
  packet from them, but for two differences: the dispatcher rejects packets of a later payload version, and it accepts a
  frame that ends after the path, which the decoder rejects for its empty payload.
\<close>

theorem try_parse_agrees:
  assumes "len \<le> 255"
  shows "meshcore_dispatcher_try_parse_packet p raw len = (True, q) \<and> 0 < unat (pk_payload_len q) \<longleftrightarrow>
    meshcore_packet_read_from p raw (of_nat len) = (True, q) \<and> meshcore_packet_get_payload_ver q = 0"
proof -
  have n: "unat (of_nat len :: byte) = len" "(of_nat len :: byte) = 0 \<longleftrightarrow> len = 0"
    using assms by (simp_all add: unat_of_nat word_unat_eq_iff)
  define p1 where "p1 = p \<lparr> pk_header := byte_at raw 0 \<rparr>"
  have ver: "meshcore_packet_get_payload_ver q = meshcore_packet_get_payload_ver p1"
    if "read_at (p1 \<lparr> pk_transport_codes := c \<rparr>) raw len off = (True, q)" for c off
    using that by (auto simp: read_at_def Let_def meshcore_packet_get_payload_ver_def split: if_splits)
  show ?thesis
    unfolding try_parse_eq read_from_eq n Let_def p1_def [symmetric]
    by (cases "len = 0"; cases "meshcore_packet_has_transport_codes p1"; cases "len < 5";
        cases "meshcore_packet_get_payload_ver p1 = 0")
      (auto simp: try_parse_path_read_at [OF assms] dest: ver)
qed

theorem try_parse_agrees_witness:
  "\<exists>q. meshcore_dispatcher_try_parse_packet meshcore_packet_init [0x01, 0, 9] 3 = (True, q) \<and>
     meshcore_packet_read_from meshcore_packet_init [0x01, 0, 9] 3 = (True, q)"
proof -
  let ?q = "snd (meshcore_dispatcher_try_parse_packet meshcore_packet_init [0x01, 0, 9] 3)"
  have "fst (meshcore_dispatcher_try_parse_packet meshcore_packet_init [0x01, 0, 9] 3)" "0 < unat (pk_payload_len ?q)"
    by code_simp+
  then have parsed: "meshcore_dispatcher_try_parse_packet meshcore_packet_init [0x01, 0, 9] 3 = (True, ?q)"
    "0 < unat (pk_payload_len ?q)" by (simp_all add: prod_eq_iff)
  with try_parse_agrees [of 3 meshcore_packet_init "[0x01, 0, 9]" ?q] show ?thesis by (intro exI [of _ ?q]) simp
qed

text \<open>Operations that leave the packets alone: the queues, the pool and the packet being sent.\<close>

definition leaves_packets :: "('w, 'r, 'a) op \<Rightarrow> bool" where
  "leaves_packets m \<longleftrightarrow> (\<forall>s. co_mgr (snd (run_state m s)) = co_mgr s \<and>
     dp_outbound (co_disp (snd (run_state m s))) = dp_outbound (co_disp s))"

lemma leaves_packets_rules:
  "leaves_packets m \<Longrightarrow> (\<And>x. leaves_packets (k x)) \<Longrightarrow> leaves_packets (State_Monad.bind m k)"
  "leaves_packets (ret a)" "leaves_packets (call c)" "leaves_packets (gets f)" "leaves_packets disp_get"
  "leaves_packets m \<Longrightarrow> leaves_packets m' \<Longrightarrow> leaves_packets (if b then m else m')"
  "leaves_packets u \<Longrightarrow> leaves_packets (when_do b u)"
  "(\<And>y. leaves_packets (c' y)) \<Longrightarrow> leaves_packets (Let b' c')"
  "(\<And>d. dp_outbound (g d) = dp_outbound d) \<Longrightarrow> leaves_packets (disp_modify g)"
  by (simp_all add: leaves_packets_def split_beta call_def disp_get_def disp_modify_def when_do_def Let_def)

lemma leaves_packets_clock: "leaves_packets (meshcore_clock_millis_get h)"
  unfolding meshcore_clock_millis_get_def meshcore_platform_bridge_millis_get_def
  by (auto simp: leaves_packets_def call_def split: option.split prod.split)

lemma leaves_packets_host:
  "leaves_packets (meshcore_platform_bridge_dispatcher_airtime_budget_factor_get h)"
  "leaves_packets (meshcore_platform_bridge_dispatcher_duty_cycle_window_ms_get h)"
  "leaves_packets (meshcore_radio_get_est_airtime h n)"
  "leaves_packets (meshcore_dispatcher_future_millis h d)"
  unfolding meshcore_platform_bridge_dispatcher_airtime_budget_factor_get_def
    meshcore_platform_bridge_dispatcher_duty_cycle_window_ms_get_def meshcore_radio_get_est_airtime_def
    meshcore_platform_bridge_radio_airtime_def meshcore_dispatcher_future_millis_def
  by (intro leaves_packets_rules leaves_packets_clock)+

lemma leaves_packets_budget: "leaves_packets (meshcore_dispatcher_update_tx_budget h)"
  unfolding meshcore_dispatcher_update_tx_budget_def
  by (intro leaves_packets_rules leaves_packets_clock leaves_packets_host) (simp add: Let_def)

lemma leaves_packetsD:
  "leaves_packets m \<Longrightarrow> run_state m s = (x, s') \<Longrightarrow>
   co_mgr s' = co_mgr s \<and> dp_outbound (co_disp s') = dp_outbound (co_disp s)"
  by (metis leaves_packets_def snd_conv)

text \<open>
  C29. No packet is sent beyond the transmit budget: when, after the budget has been brought up to date, it is less
  than half the air time of a full packet, the check for something to send takes no packet from the
  queues, starts no transmission and frees no buffer.
\<close>

theorem over_budget_sends_nothing:
  assumes "co_millis_override s = Some now"
    and "run_state (do { meshcore_dispatcher_update_tx_budget h; meshcore_radio_get_est_airtime h 255 }) s = (est, s1)"
    and "dp_tx_budget_ms (co_disp s1) < est div 2"
    and "run_state (meshcore_dispatcher_check_send h) s = (u, s')"
  shows "co_mgr s' = co_mgr s \<and> dp_outbound (co_disp s') = dp_outbound (co_disp s)"
proof -
  let ?wait = "do {
      factor \<leftarrow> meshcore_platform_bridge_dispatcher_airtime_budget_factor_get h;
      let needed = est div 2 - dp_tx_budget_ms (co_disp s1);
      t \<leftarrow> meshcore_dispatcher_future_millis h (wait_time needed (duty_cycle_of factor));
      disp_modify (\<lambda>d. d \<lparr> dp_next_tx_time := t \<rparr>) }"
  have s1: "co_mgr s1 = co_mgr s \<and> dp_outbound (co_disp s1) = dp_outbound (co_disp s)"
    by (rule leaves_packetsD [OF _ assms(2)])
      (intro leaves_packets_rules leaves_packets_budget leaves_packets_host)
  have wait: "leaves_packets ?wait"
    by (intro leaves_packets_rules leaves_packets_host) simp
  obtain s0 v where budget: "run_state (meshcore_dispatcher_update_tx_budget h) s = (v, s0)"
    and est: "run_state (meshcore_radio_get_est_airtime h 255) s0 = (est, s1)"
    using assms(2) by (auto split: prod.splits)
  have "s' = s \<or> run_state ?wait s1 = (u, s')"
    using assms(4,1,3) budget est unfolding meshcore_dispatcher_check_send_def
    by (auto simp: meshcore_clock_millis_get_def disp_get_def split: if_splits)
  then show ?thesis
  proof
    assume "run_state ?wait s1 = (u, s')"
    from leaves_packetsD [OF wait this] show ?thesis by (simp add: s1)
  qed simp
qed

theorem over_budget_sends_nothing_witness:
  "co_mgr (snd (run_state (meshcore_dispatcher_check_send (example_host \<lparr> h_radio_airtime := \<lambda>_. State_Monad.return 9000 \<rparr>))
     example_radio)) = co_mgr example_radio"
proof -
  let ?h = "example_host \<lparr> h_radio_airtime := \<lambda>_. State_Monad.return 9000 \<rparr>"
  let ?run = "run_state (do { meshcore_dispatcher_update_tx_budget ?h; meshcore_radio_get_est_airtime ?h 255 }) example_radio"
  have "scale_time 0 x = 0" for x by (simp add: scale_time_def trunc_def)
  then have "?run = (9000, example_radio)"
    by (simp add: meshcore_dispatcher_update_tx_budget_def meshcore_clock_millis_get_def example_radio_def
        dispatcher_zero_def disp_get_def example_host_def call_def when_do_def Let_def meshcore_radio_get_est_airtime_def
        meshcore_platform_bridge_dispatcher_airtime_budget_factor_get_def meshcore_platform_bridge_radio_airtime_def
        meshcore_platform_bridge_dispatcher_duty_cycle_window_ms_get_def)
  then have "co_millis_override example_radio = Some 1000" "dp_tx_budget_ms (co_disp (snd ?run)) < fst ?run div 2"
    by (simp_all add: example_radio_def dispatcher_zero_def)
  from over_budget_sends_nothing [OF this(1) prod.collapse [symmetric] this(2) prod.collapse [symmetric]]
  show ?thesis by blast
qed

end
