(* ===== verification/Mesh_Send.thy ===== *)
theory Mesh_Send
  imports Dispatcher
begin

text \<open>
  The outgoing half of the mesh layer (\<open>core/meshcore_mesh.c\<close>): the functions that build the
  packets of each payload type and the functions that route and queue them.

  A packet under construction is written through its pointer.  \<open>data\<close>, \<open>path\<close> and \<open>extra\<close> are
  the memory from the pointer on; they are never NULL here, except that an empty \<open>extra\<close>
  is passed as the empty list.

  The lemmas show that every builder returns a packet that fits its buffers and can be put on
  the wire, or leaves the pool as it was, and that every send function takes the packet from
  its caller whatever its arguments are.
\<close>

section \<open>Helpers\<close>

abbreviation (input) "MAX_COMBINED_PATH \<equiv> 166 :: nat"

text \<open>\<open>type << PH_TYPE_SHIFT\<close>\<close>

definition type_header :: "byte \<Rightarrow> byte" where
  "type_header ty = push_bit 2 ty"

text \<open>\<open>header &= ~PH_ROUTE_MASK; header |= route\<close>\<close>

definition set_route :: "byte \<Rightarrow> packet \<Rightarrow> packet" where
  "set_route route p = p \<lparr> pk_header := (pk_header p AND NOT 3) OR route \<rparr>"

definition meshcore_mesh_rng_random :: "'w host \<Rightarrow> nat \<Rightarrow> ('w, 'r, bytes) op" where
  "meshcore_mesh_rng_random h n = (if n = 0 then ret [] else meshcore_rng_random h n)"

definition meshcore_mesh_rtc_get_current_time :: "'w host \<Rightarrow> ('w, 'r, u32) op" where
  "meshcore_mesh_rtc_get_current_time h = meshcore_clock_rtc_get_current_time h"

definition meshcore_mesh_tables_has_seen :: "'w host \<Rightarrow> packet \<Rightarrow> ('w, 'r, bool) op" where
  "meshcore_mesh_tables_has_seen h p =
     State (\<lambda>s. let (seen, t) = meshcore_tables_has_seen (h_crypto h) p (co_tables s)
       in (seen, s \<lparr> co_tables := t \<rparr>))"

definition meshcore_mesh_obtain_new_packet :: "('w, 'r, packet_ref option) op" where
  "meshcore_mesh_obtain_new_packet = meshcore_dispatcher_obtain_new_packet"

definition meshcore_mesh_transport_flood_hash_size :: "byte \<Rightarrow> u16 \<times> u16 \<Rightarrow> byte" where
  "meshcore_mesh_transport_flood_hash_size path_hash_size transport_codes =
     (if fst transport_codes = SNR_TRANSPORT_CODE0 \<and> snd transport_codes = SNR_TRANSPORT_CODE1 \<and>
         path_hash_size < 3
      then path_hash_size + 1 else path_hash_size)"

definition meshcore_mesh_release_consumed_packet :: "packet_ref \<Rightarrow> ('w, 'r, unit) op" where
  "meshcore_mesh_release_consumed_packet r = meshcore_dispatcher_release_packet r"

definition self_identity :: "('w, 'r, identity) op" where
  "self_identity = gets (\<lambda>s. li_identity (co_self s))"

text \<open>
  The common end of the builders of encrypted packets: encrypt behind \<open>off\<close> bytes of header,
  release the packet on an error, set the payload length otherwise.
\<close>

definition finish_encrypted ::
  "'w host \<Rightarrow> packet_ref \<Rightarrow> packet \<Rightarrow> nat \<Rightarrow> bytes \<Rightarrow> bytes \<Rightarrow> nat \<Rightarrow> ('w, 'r, packet_ref option) op" where
  "finish_encrypted h r p off secret data len =
     (case meshcore_utils_encrypt_then_mac (h_crypto h) secret (pk_payload p) off data (int len) of
        (Inl _, payload) \<Rightarrow> do {
          pk_put r (p \<lparr> pk_payload := payload \<rparr>);
          meshcore_mesh_release_consumed_packet r;
          ret None
        }
      | (Inr enc_len, payload) \<Rightarrow> do {
          pk_put r (p \<lparr> pk_payload := payload, pk_payload_len := of_nat (off + enc_len) \<rparr>);
          ret (Some r)
        })"

section \<open>Building packets\<close>

definition meshcore_mesh_create_advert ::
  "'w host \<Rightarrow> local_identity \<Rightarrow> bytes \<Rightarrow> nat \<Rightarrow> ('w, 'r, packet_ref option) op" where
  "meshcore_mesh_create_advert h identity app_data app_data_len =
     (if app_data_len > 32 then ret None
      else do {
        packet \<leftarrow> meshcore_mesh_obtain_new_packet;
        case packet of
          None \<Rightarrow> ret None
        | Some r \<Rightarrow> do {
            p \<leftarrow> pk_get r;
            let pub_key = mem_read 0 32 (id_pub_key (li_identity identity));
            let p = p \<lparr> pk_header := type_header PAYLOAD_TYPE_ADVERT,
                        pk_payload := mem_write 0 pub_key (pk_payload p) \<rparr>;
            emitted_timestamp \<leftarrow> meshcore_mesh_rtc_get_current_time h;
            let p = p \<lparr> pk_payload := mem_write 32 (le_bytes 4 emitted_timestamp) (pk_payload p) \<rparr>;
            let app = mem_read 0 app_data_len app_data;
            let p = p \<lparr> pk_payload := mem_write 100 app (pk_payload p),
                        pk_payload_len := of_nat (100 + app_data_len) \<rparr>;
            let message = pub_key @ le_bytes 4 emitted_timestamp @ app;
            let payload = (case meshcore_local_identity_sign (h_ec h) identity message
                                  (int (36 + app_data_len)) of
                             None \<Rightarrow> pk_payload p
                           | Some sig \<Rightarrow> mem_write 36 sig (pk_payload p));
            pk_put r (p \<lparr> pk_payload := payload \<rparr>);
            ret (Some r)
          }
      })"

definition meshcore_mesh_datagram_plaintext_fits :: "nat \<Rightarrow> bool" where
  "meshcore_mesh_datagram_plaintext_fits len \<longleftrightarrow> len \<le> 184 - 2 - 16 + 1"

definition meshcore_mesh_create_datagram ::
  "'w host \<Rightarrow> byte \<Rightarrow> identity \<Rightarrow> bytes \<Rightarrow> bytes \<Rightarrow> nat \<Rightarrow> ('w, 'r, packet_ref option) op" where
  "meshcore_mesh_create_datagram h ty dest secret data len =
     (if \<not> (ty = PAYLOAD_TYPE_TXT_MSG \<or> ty = PAYLOAD_TYPE_REQ \<or> ty = PAYLOAD_TYPE_RESPONSE) then ret None
      else if \<not> meshcore_mesh_datagram_plaintext_fits len then ret None
      else do {
        packet \<leftarrow> meshcore_mesh_obtain_new_packet;
        case packet of
          None \<Rightarrow> ret None
        | Some r \<Rightarrow> do {
            self \<leftarrow> self_identity;
            p \<leftarrow> pk_get r;
            let (n1, payload) = meshcore_identity_copy_hash_to dest 0 (pk_payload p);
            let (n2, payload) = meshcore_identity_copy_hash_to self n1 payload;
            finish_encrypted h r (p \<lparr> pk_header := type_header ty, pk_payload := payload \<rparr>)
              (n1 + n2) secret data len
          }
      })"

definition meshcore_mesh_create_anon_datagram ::
  "'w host \<Rightarrow> byte \<Rightarrow> local_identity \<Rightarrow> identity \<Rightarrow> bytes \<Rightarrow> bytes \<Rightarrow> nat \<Rightarrow>
     ('w, 'r, packet_ref option) op" where
  "meshcore_mesh_create_anon_datagram h ty sender dest secret data data_len =
     (if ty \<noteq> PAYLOAD_TYPE_ANON_REQ then ret None
      else if data_len > 184 - 1 - 32 - 16 + 1 then ret None
      else do {
        packet \<leftarrow> meshcore_mesh_obtain_new_packet;
        case packet of
          None \<Rightarrow> ret None
        | Some r \<Rightarrow> do {
            p \<leftarrow> pk_get r;
            let (n, payload) = meshcore_identity_copy_hash_to dest 0 (pk_payload p);
            let payload = mem_write n (mem_read 0 32 (id_pub_key (li_identity sender))) payload;
            finish_encrypted h r (p \<lparr> pk_header := type_header ty, pk_payload := payload \<rparr>)
              (n + 32) secret data data_len
          }
      })"

definition meshcore_mesh_create_group_datagram ::
  "'w host \<Rightarrow> byte \<Rightarrow> group_channel \<Rightarrow> bytes \<Rightarrow> nat \<Rightarrow> ('w, 'r, packet_ref option) op" where
  "meshcore_mesh_create_group_datagram h ty channel data data_len =
     (if \<not> (ty = PAYLOAD_TYPE_GRP_TXT \<or> ty = PAYLOAD_TYPE_GRP_DATA) then ret None
      else if data_len > 184 - 1 - 16 + 1 then ret None
      else do {
        packet \<leftarrow> meshcore_mesh_obtain_new_packet;
        case packet of
          None \<Rightarrow> ret None
        | Some r \<Rightarrow> do {
            p \<leftarrow> pk_get r;
            let payload = mem_write 0 (mem_read 0 1 (gc_hash channel)) (pk_payload p);
            finish_encrypted h r (p \<lparr> pk_header := type_header ty, pk_payload := payload \<rparr>)
              1 (gc_secret channel) data data_len
          }
      })"

definition meshcore_mesh_path_return_extra_fits :: "byte \<Rightarrow> nat \<Rightarrow> bool" where
  "meshcore_mesh_path_return_extra_fits path_len extra_len \<longleftrightarrow>
     (let path_hash_size = drop_bit 6 path_len + 1; path_hash_count = path_len AND 63;
          path_bytes = unat path_hash_size * unat path_hash_count in
      if path_bytes > MAX_COMBINED_PATH - 5 then False
      else extra_len \<le> MAX_COMBINED_PATH - 5 - path_bytes)"

definition meshcore_mesh_create_ack_data ::
  "bytes \<Rightarrow> nat \<Rightarrow> ('w, 'r, packet_ref option) op" where
  "meshcore_mesh_create_ack_data ack ack_len = do {
     packet \<leftarrow> meshcore_mesh_obtain_new_packet;
     case packet of
       None \<Rightarrow> ret None
     | Some r \<Rightarrow>
         if ack_len > 184 then do { meshcore_mesh_release_consumed_packet r; ret None }
         else do {
           p \<leftarrow> pk_get r;
           pk_put r (p \<lparr> pk_header := type_header PAYLOAD_TYPE_ACK,
                         pk_payload := mem_write 0 (mem_read 0 ack_len ack) (pk_payload p),
                         pk_payload_len := of_nat ack_len \<rparr>);
           ret (Some r)
         }
   }"

definition meshcore_mesh_create_ack :: "u32 \<Rightarrow> ('w, 'r, packet_ref option) op" where
  "meshcore_mesh_create_ack ack_crc = meshcore_mesh_create_ack_data (le_bytes 4 ack_crc) 4"

definition meshcore_mesh_create_multi_ack_data ::
  "bytes \<Rightarrow> nat \<Rightarrow> byte \<Rightarrow> ('w, 'r, packet_ref option) op" where
  "meshcore_mesh_create_multi_ack_data ack ack_len remaining = do {
     packet \<leftarrow> meshcore_mesh_obtain_new_packet;
     case packet of
       None \<Rightarrow> ret None
     | Some r \<Rightarrow>
         if ack_len > 184 - 1 then do { meshcore_mesh_release_consumed_packet r; ret None }
         else do {
           p \<leftarrow> pk_get r;
           let payload = mem_write 0 [push_bit 4 remaining OR PAYLOAD_TYPE_ACK] (pk_payload p);
           pk_put r (p \<lparr> pk_header := type_header PAYLOAD_TYPE_MULTIPART,
                         pk_payload := mem_write 1 (mem_read 0 ack_len ack) payload,
                         pk_payload_len := of_nat (1 + ack_len) \<rparr>);
           ret (Some r)
         }
   }"

definition meshcore_mesh_create_multi_ack :: "u32 \<Rightarrow> byte \<Rightarrow> ('w, 'r, packet_ref option) op" where
  "meshcore_mesh_create_multi_ack ack_crc remaining =
     meshcore_mesh_create_multi_ack_data (le_bytes 4 ack_crc) 4 remaining"

text \<open>The plaintext of a path return: the path, then the extra data or four random bytes.\<close>

definition path_return_data ::
  "'w host \<Rightarrow> bytes \<Rightarrow> byte \<Rightarrow> byte \<Rightarrow> bytes \<Rightarrow> nat \<Rightarrow> ('w, 'r, bytes) op" where
  "path_return_data h path path_len extra_type extra extra_len =
     (let path_bytes = unat (drop_bit 6 path_len + 1) * unat (path_len AND 63);
          data = path_len # mem_read 0 path_bytes path in
      if extra_len > 0 then ret (data @ extra_type # mem_read 0 extra_len extra)
      else do {
        bs \<leftarrow> meshcore_mesh_rng_random h 4;
        ret (data @ 0xFF # bs)
      })"

definition meshcore_mesh_create_path_return_by_dest_hash ::
  "'w host \<Rightarrow> bytes \<Rightarrow> bytes \<Rightarrow> bytes \<Rightarrow> byte \<Rightarrow> byte \<Rightarrow> bytes \<Rightarrow> nat \<Rightarrow>
     ('w, 'r, packet_ref option) op" where
  "meshcore_mesh_create_path_return_by_dest_hash h dest_hash secret path path_len extra_type extra extra_len =
     (let path_bytes = unat (drop_bit 6 path_len + 1) * unat (path_len AND 63) in
      if \<not> meshcore_mesh_path_return_extra_fits path_len extra_len then ret None
      else do {
        packet \<leftarrow> meshcore_mesh_obtain_new_packet;
        case packet of
          None \<Rightarrow> ret None
        | Some r \<Rightarrow> do {
            self \<leftarrow> self_identity;
            data \<leftarrow> path_return_data h path path_len extra_type extra extra_len;
            p \<leftarrow> pk_get r;
            let payload = mem_write 0 (mem_read 0 1 dest_hash) (pk_payload p);
            let (n, payload) = meshcore_identity_copy_hash_to self 1 payload;
            finish_encrypted h r (p \<lparr> pk_header := type_header PAYLOAD_TYPE_PATH, pk_payload := payload \<rparr>)
              (1 + n) secret data
              (1 + path_bytes + 1 + (if extra_len > 0 then extra_len else 4))
          }
      })"

definition meshcore_mesh_create_path_return_by_identity ::
  "'w host \<Rightarrow> identity \<Rightarrow> bytes \<Rightarrow> bytes \<Rightarrow> byte \<Rightarrow> byte \<Rightarrow> bytes \<Rightarrow> nat \<Rightarrow>
     ('w, 'r, packet_ref option) op" where
  "meshcore_mesh_create_path_return_by_identity h dest secret path path_len extra_type extra extra_len =
     (let dest_hash = snd (meshcore_identity_copy_hash_to dest 0 (zeros 1)) in
      meshcore_mesh_create_path_return_by_dest_hash h dest_hash secret path path_len extra_type extra extra_len)"

text \<open>The two builders that copy the payload as it is.\<close>

definition create_plain :: "byte \<Rightarrow> bytes \<Rightarrow> nat \<Rightarrow> ('w, 'r, packet_ref option) op" where
  "create_plain ty data len =
     (if len > 184 then ret None
      else do {
        packet \<leftarrow> meshcore_mesh_obtain_new_packet;
        case packet of
          None \<Rightarrow> ret None
        | Some r \<Rightarrow> do {
            p \<leftarrow> pk_get r;
            pk_put r (p \<lparr> pk_header := type_header ty,
                          pk_payload := mem_write 0 (mem_read 0 len data) (pk_payload p),
                          pk_payload_len := of_nat len \<rparr>);
            ret (Some r)
          }
      })"

definition meshcore_mesh_create_raw_data :: "bytes \<Rightarrow> nat \<Rightarrow> ('w, 'r, packet_ref option) op" where
  "meshcore_mesh_create_raw_data data len = create_plain PAYLOAD_TYPE_RAW_CUSTOM data len"

definition meshcore_mesh_create_trace :: "u32 \<Rightarrow> u32 \<Rightarrow> byte \<Rightarrow> ('w, 'r, packet_ref option) op" where
  "meshcore_mesh_create_trace tag auth_code flags = do {
     packet \<leftarrow> meshcore_mesh_obtain_new_packet;
     case packet of
       None \<Rightarrow> ret None
     | Some r \<Rightarrow> do {
         p \<leftarrow> pk_get r;
         let payload = mem_write 0 (le_bytes 4 tag) (pk_payload p);
         let payload = mem_write 4 (le_bytes 4 auth_code) payload;
         let payload = mem_write 8 [flags] payload;
         pk_put r (p \<lparr> pk_header := type_header PAYLOAD_TYPE_TRACE, pk_payload := payload,
                       pk_payload_len := 9 \<rparr>);
         ret (Some r)
       }
   }"

definition meshcore_mesh_create_control_data :: "bytes \<Rightarrow> nat \<Rightarrow> ('w, 'r, packet_ref option) op" where
  "meshcore_mesh_create_control_data data len = create_plain PAYLOAD_TYPE_CONTROL data len"

section \<open>Sending packets\<close>

text \<open>Paths before adverts before everything else that is flooded.\<close>

definition flood_priority :: "byte \<Rightarrow> byte" where
  "flood_priority ty =
     (if ty = PAYLOAD_TYPE_PATH then 2 else if ty = PAYLOAD_TYPE_ADVERT then 3 else 1)"

definition meshcore_mesh_send_flood ::
  "'w host \<Rightarrow> packet_ref \<Rightarrow> u32 \<Rightarrow> byte \<Rightarrow> ('w, 'r, unit) op" where
  "meshcore_mesh_send_flood h r delay_millis path_hash_size = do {
     p \<leftarrow> pk_get r;
     let ty = meshcore_packet_get_payload_type p;
     if ty = PAYLOAD_TYPE_TRACE \<or> path_hash_size = 0 \<or> path_hash_size > 3
     then meshcore_mesh_release_consumed_packet r
     else do {
       let p = meshcore_packet_set_path_hash_size_and_count (set_route ROUTE_TYPE_FLOOD p) path_hash_size 0;
       pk_put r p;
       _ \<leftarrow> meshcore_mesh_tables_has_seen h p;
       meshcore_dispatcher_send_packet h r (flood_priority ty) delay_millis
     }
   }"

definition meshcore_mesh_send_flood_by_transport_codes ::
  "'w host \<Rightarrow> packet_ref \<Rightarrow> u16 \<times> u16 \<Rightarrow> u32 \<Rightarrow> byte \<Rightarrow> ('w, 'r, unit) op" where
  "meshcore_mesh_send_flood_by_transport_codes h r transport_codes delay_millis path_hash_size = do {
     p \<leftarrow> pk_get r;
     let ty = meshcore_packet_get_payload_type p;
     if ty = PAYLOAD_TYPE_TRACE \<or> path_hash_size = 0 \<or> path_hash_size > 3
     then meshcore_mesh_release_consumed_packet r
     else do {
       let p = (set_route ROUTE_TYPE_TRANSPORT_FLOOD p) \<lparr> pk_transport_codes := transport_codes \<rparr>;
       let hash_size = meshcore_mesh_transport_flood_hash_size path_hash_size transport_codes;
       let p = meshcore_packet_set_path_hash_size_and_count p hash_size 0;
       pk_put r p;
       _ \<leftarrow> meshcore_mesh_tables_has_seen h p;
       meshcore_dispatcher_send_packet h r (flood_priority ty) delay_millis
     }
   }"

definition meshcore_mesh_send_direct ::
  "'w host \<Rightarrow> packet_ref \<Rightarrow> bytes \<Rightarrow> byte \<Rightarrow> u32 \<Rightarrow> ('w, 'r, unit) op" where
  "meshcore_mesh_send_direct h r path path_len delay_millis = do {
     p \<leftarrow> pk_get r;
     let p = set_route ROUTE_TYPE_DIRECT p;
     let ty = meshcore_packet_get_payload_type p;
     if ty = PAYLOAD_TYPE_TRACE \<and> unat (pk_payload_len p) + unat path_len > 184 then do {
       pk_put r p;
       meshcore_mesh_release_consumed_packet r
     }
     else do {
       let (p, pri) =
         (if ty = PAYLOAD_TYPE_TRACE then
            (p \<lparr> pk_payload := mem_write (unat (pk_payload_len p)) (mem_read 0 (unat path_len) path) (pk_payload p),
                 pk_payload_len := pk_payload_len p + ucast path_len,
                 pk_path_len := 0 \<rparr>, 5)
          else
            (let (n, dest) = meshcore_packet_copy_path (pk_path p) path path_len in
             (p \<lparr> pk_path_len := ucast n, pk_path := dest \<rparr>,
              if ty = PAYLOAD_TYPE_PATH then 1 else 0)));
       pk_put r p;
       _ \<leftarrow> meshcore_mesh_tables_has_seen h p;
       meshcore_dispatcher_send_packet h r pri delay_millis
     }
   }"

definition meshcore_mesh_send_zero_hop ::
  "'w host \<Rightarrow> packet_ref \<Rightarrow> u32 \<Rightarrow> ('w, 'r, unit) op" where
  "meshcore_mesh_send_zero_hop h r delay_millis = do {
     p \<leftarrow> pk_get r;
     let p = (set_route ROUTE_TYPE_DIRECT p) \<lparr> pk_path_len := 0 \<rparr>;
     pk_put r p;
     _ \<leftarrow> meshcore_mesh_tables_has_seen h p;
     meshcore_dispatcher_send_packet h r 0 delay_millis
   }"

definition meshcore_mesh_send_zero_hop_by_transport_codes ::
  "'w host \<Rightarrow> packet_ref \<Rightarrow> u16 \<times> u16 \<Rightarrow> u32 \<Rightarrow> ('w, 'r, unit) op" where
  "meshcore_mesh_send_zero_hop_by_transport_codes h r transport_codes delay_millis = do {
     p \<leftarrow> pk_get r;
     let p = (set_route ROUTE_TYPE_TRANSPORT_DIRECT p)
       \<lparr> pk_transport_codes := transport_codes, pk_path_len := 0 \<rparr>;
     pk_put r p;
     _ \<leftarrow> meshcore_mesh_tables_has_seen h p;
     meshcore_dispatcher_send_packet h r 0 delay_millis
   }"

section \<open>Facts about encrypted payloads\<close>

lemma length_mem_write_read [simp]:
  "off + n \<le> length dst \<Longrightarrow> length (mem_write off (mem_read a n src) dst) = length dst"
  using length_mem_read_le [of a n src] by (intro length_mem_write) simp

lemma encrypt_loop_length:
  "dp + ceil16 n \<le> length dest \<Longrightarrow> encrypt_loop c secret dp sp n src dest = (res, d) \<Longrightarrow>
   length d = length dest \<and> (\<forall>m. res = Inr m \<longrightarrow> m = dp + ceil16 n)"
proof (induction n arbitrary: dp sp dest rule: less_induct)
  case (less n)
  consider (step) "16 \<le> n" | (tail) "0 < n" "n < 16" | (zero) "n = 0" by linarith
  then show ?case
  proof cases
    case step
    show ?thesis
    proof (cases "crypto_aes128_encrypt_block c (aes_key secret) (mem_read sp 16 src)")
      case None
      then show ?thesis using less.prems step by (auto simp: encrypt_loop.simps [of _ _ _ _ n])
    next
      case (Some f)
      let ?dest = "mem_write dp (buf 16 f) dest"
      have fit: "dp + 16 + ceil16 (n - 16) \<le> length ?dest" "length ?dest = length dest"
        using step less.prems(1) by (simp_all add: ceil16_step)
      have "encrypt_loop c secret (dp + 16) (sp + 16) (n - 16) src ?dest = (res, d)"
        using less.prems(2) step Some by (simp add: encrypt_loop.simps [of _ _ _ _ n])
      from less.IH [OF _ fit(1) this] step fit(2) show ?thesis by (auto simp: ceil16_step)
    qed
  next
    case tail
    then show ?thesis
      using less.prems
      by (auto simp: encrypt_loop.simps [of _ _ _ _ n] ceil16_tail split: option.splits)
  next
    case zero
    then show ?thesis using less.prems by (auto simp: encrypt_loop.simps)
  qed
qed

lemma encrypt_then_mac_length:
  assumes "off + 2 + ceil16 n \<le> length dest"
    and "meshcore_utils_encrypt_then_mac c secret dest off src (int n) = (res, d)"
  shows "length d = length dest" "res = Inr m \<Longrightarrow> m = 2 + ceil16 n"
proof -
  obtain res' d' where e: "encrypt_loop c secret (off + 2) 0 n src dest = (res', d')" by fastforce
  note loop = encrypt_loop_length [OF assms(1) e]
  show "length d = length dest" "res = Inr m \<Longrightarrow> m = 2 + ceil16 n"
    using assms loop e
    by (auto simp: meshcore_utils_encrypt_then_mac_def meshcore_utils_encrypt_def
        split: sum.splits option.splits if_splits)
qed

lemma unat_u16: "n \<le> 184 \<Longrightarrow> unat (of_nat n :: u16) = n"
  by (simp add: unsigned_of_nat take_bit_nat_eq_self)

section \<open>What the builders return\<close>

text \<open>A fresh packet of type \<open>ty\<close> that can be put on the wire.\<close>

definition built :: "byte \<Rightarrow> packet \<Rightarrow> bool" where
  "built ty p \<longleftrightarrow> sendable p \<and> pk_path_len p = 0 \<and> meshcore_packet_get_payload_type p = ty"

lemma builtI:
  assumes "packet_wf p" and "pk_path_len p = 0" and "unat (pk_payload_len p) \<le> 184"
    and "pk_header p = type_header ty" and "unat ty < 16"
  shows "built ty p"
proof -
  have "\<forall>k<16. drop_bit 2 (push_bit 2 (of_nat k :: byte)) AND 15 = of_nat k"
    by code_simp
  from this [rule_format, OF assms(5)] have "drop_bit 2 (push_bit 2 ty) AND 15 = ty" by simp
  then show ?thesis
    using assms
    by (simp add: built_def sendable_def meshcore_packet_get_payload_type_def type_header_def
        meshcore_packet_path_len_field_def meshcore_packet_is_valid_path_len_def)
qed

text \<open>The operations of the mesh layer that touch no packet.\<close>

lemma calm_self_identity [calm_rules]: "calm R self_identity"
  unfolding self_identity_def by (rule calm_gets)

lemma calm_has_seen [calm_rules]:
  fixes R :: "'r \<Rightarrow> bool" and h :: "'w host"
  shows "calm R (meshcore_mesh_tables_has_seen h p)"
proof (rule calmI, rule tripleI)
  fix out H P and s :: "('w, 'r) core"
  assume o: "owns R out H P s"
  then have "tables_wf (snd (meshcore_tables_has_seen (h_crypto h) p (co_tables s)))"
    by (simp add: owns_def has_seen_eq Let_def tables_record_slots)
  with o show "owns R out H P (snd (run_state (meshcore_mesh_tables_has_seen h p) s))"
    by (auto simp: meshcore_mesh_tables_has_seen_def owns_def queued_refs_def out_refs_def split: prod.splits)
qed

lemma calm_mesh_helpers [calm_rules]:
  "calm R (meshcore_mesh_rng_random h n)" "calm R (meshcore_mesh_rtc_get_current_time h)"
  "calm R (path_return_data h path path_len extra_type extra extra_len)"
  unfolding meshcore_mesh_rng_random_def meshcore_mesh_rtc_get_current_time_def path_return_data_def
  by (intro calm_rules)+

lemma makes_obtain_mesh:
  "makes R (\<lambda>p. pk_payload_len p = 0 \<and> pk_path_len p = 0) meshcore_mesh_obtain_new_packet"
  unfolding meshcore_mesh_obtain_new_packet_def by (rule makes_obtain)

lemma takes_release_mesh: "takes R r \<Phi> (meshcore_mesh_release_consumed_packet r)"
  unfolding meshcore_mesh_release_consumed_packet_def by (rule takes_release)

lemma fills_finish_encrypted:
  assumes "packet_wf p" and "pk_path_len p = 0" and "pk_header p = type_header ty" and "unat ty < 16"
    and "n = off + 2 + ceil16 len" and "n \<le> 184"
  shows "fills R r \<Phi> (\<lambda>q. built ty q \<and> pk_payload_len q = of_nat n)
    (finish_encrypted h r p off secret data len)"
proof -
  obtain res d where e: "meshcore_utils_encrypt_then_mac (h_crypto h) secret (pk_payload p) off data (int len) = (res, d)"
    by fastforce
  have fit: "off + 2 + ceil16 len \<le> length (pk_payload p)"
    using assms(1,5,6) by (simp add: packet_wf_def)
  note e_len = encrypt_then_mac_length [OF fit e]
  have wf: "packet_wf (p \<lparr> pk_payload := d \<rparr>)" "packet_wf (p \<lparr> pk_payload := d, pk_payload_len := n \<rparr>)" for n
    using assms(1) e_len(1) by (simp_all add: packet_wf_def)
  show ?thesis
  proof (cases res)
    case (Inl a)
    show ?thesis
      unfolding finish_encrypted_def e Inl prod.case sum.case
      by (rule fills_put [OF wf(1)], rule fills_release, rule takes_release_mesh)
  next
    case (Inr m)
    have "unat (of_nat n :: u16) \<le> 184"
      using assms(6) by (simp only: unat_u16)
    then have "built ty (p \<lparr> pk_payload := d, pk_payload_len := of_nat n \<rparr>)"
      using assms wf(2) by (intro builtI) simp_all
    then show ?thesis
      unfolding finish_encrypted_def e Inr prod.case sum.case e_len(2) [OF Inr]
      by (intro fills_put [OF wf(2)] fills_ret) (simp add: add.assoc assms(5))
  qed
qed

text \<open>A builder allocates a packet and fills it; without a free packet it returns NULL.\<close>

lemma makes_build:
  assumes "\<And>r p. packet_wf p \<Longrightarrow> pk_payload_len p = 0 \<Longrightarrow> pk_path_len p = 0 \<Longrightarrow>
      fills R r (\<lambda>q. q = p) \<Psi> (f r p)"
  shows "makes R \<Psi> (do {
     packet \<leftarrow> meshcore_mesh_obtain_new_packet;
     case packet of None \<Rightarrow> ret None | Some r \<Rightarrow> State_Monad.bind (pk_get r) (f r) })"
  using assms by (intro makes_bind_case [OF makes_obtain_mesh] makes_None fills_get) blast

lemma wf_payload: "packet_wf p \<Longrightarrow> length d = 184 \<Longrightarrow> packet_wf (p \<lparr> pk_header := b, pk_payload := d \<rparr>)"
  by (simp add: packet_wf_def)

lemma copy_hash_to_eq:
  "meshcore_identity_copy_hash_to i off dest = (1, mem_write off (mem_read 0 1 (id_pub_key i)) dest)"
  by (simp add: meshcore_identity_copy_hash_to_def meshcore_identity_copy_hash_by_len_def)

lemma ceil16_mono: "m \<le> n \<Longrightarrow> ceil16 m \<le> ceil16 n"
  by (simp add: ceil16_def div_le_mono)

lemma makes_create_datagram:
  "makes R (\<lambda>q. built ty q \<and> pk_payload_len q = of_nat (4 + ceil16 len))
     (meshcore_mesh_create_datagram h ty dest secret data len)"
proof -
  have fill: "fills R r (\<lambda>q. q = p) (\<lambda>q. built ty q \<and> pk_payload_len q = of_nat (4 + ceil16 len)) (do {
       let (n1, payload) = meshcore_identity_copy_hash_to dest 0 (pk_payload p);
       let (n2, payload) = meshcore_identity_copy_hash_to self n1 payload;
       finish_encrypted h r (p \<lparr> pk_header := type_header ty, pk_payload := payload \<rparr>)
         (n1 + n2) secret data len })"
    if "ty = 2 \<or> ty = 0 \<or> ty = 1" "len \<le> 167" "packet_wf p" "pk_path_len p = 0" for r p self
  proof -
    have "ceil16 len \<le> 176" using ceil16_mono [OF that(2)] by (simp add: ceil16_def)
    moreover have "unat ty < 16" using that(1) by auto
    ultimately show ?thesis
      using that unfolding copy_hash_to_eq Let_def prod.case
      by (intro fills_finish_encrypted) (simp_all add: packet_wf_def)
  qed
  show ?thesis
    unfolding meshcore_mesh_create_datagram_def meshcore_mesh_datagram_plaintext_fits_def
    by (intro makes_if makes_None makes_bind_case [OF makes_obtain_mesh] fills_calm_bind calm_self_identity
        fills_get fill) simp_all
qed

lemma makes_create_anon_datagram:
  "makes R (\<lambda>q. built ty q \<and> pk_payload_len q = of_nat (35 + ceil16 len))
     (meshcore_mesh_create_anon_datagram h ty sender dest secret data len)"
proof -
  have fill: "fills R r (\<lambda>q. q = p) (\<lambda>q. built ty q \<and> pk_payload_len q = of_nat (35 + ceil16 len)) (do {
       let (n, payload) = meshcore_identity_copy_hash_to dest 0 (pk_payload p);
       let payload = mem_write n (mem_read 0 32 (id_pub_key (li_identity sender))) payload;
       finish_encrypted h r (p \<lparr> pk_header := type_header ty, pk_payload := payload \<rparr>)
         (n + 32) secret data len })"
    if "ty = 7" "len \<le> 136" "packet_wf p" "pk_path_len p = 0" for r p
  proof -
    have "ceil16 len \<le> 144" using ceil16_mono [OF that(2)] by (simp add: ceil16_def)
    then show ?thesis
      using that unfolding copy_hash_to_eq Let_def prod.case
      by (intro fills_finish_encrypted) (simp_all add: packet_wf_def)
  qed
  show ?thesis
    unfolding meshcore_mesh_create_anon_datagram_def
    by (intro makes_if makes_None makes_build fill) simp_all
qed

lemma makes_create_group_datagram:
  "makes R (\<lambda>q. built ty q \<and> pk_payload_len q = of_nat (3 + ceil16 len))
     (meshcore_mesh_create_group_datagram h ty channel data len)"
proof -
  have fill: "fills R r (\<lambda>q. q = p) (\<lambda>q. built ty q \<and> pk_payload_len q = of_nat (3 + ceil16 len)) (do {
       let payload = mem_write 0 (mem_read 0 1 (gc_hash channel)) (pk_payload p);
       finish_encrypted h r (p \<lparr> pk_header := type_header ty, pk_payload := payload \<rparr>)
         1 (gc_secret channel) data len })"
    if "ty = 5 \<or> ty = 6" "len \<le> 168" "packet_wf p" "pk_path_len p = 0" for r p
  proof -
    have "ceil16 len \<le> 176" using ceil16_mono [OF that(2)] by (simp add: ceil16_def)
    moreover have "unat ty < 16" using that(1) by auto
    ultimately show ?thesis
      using that unfolding Let_def
      by (intro fills_finish_encrypted) (simp_all add: packet_wf_def)
  qed
  show ?thesis
    unfolding meshcore_mesh_create_group_datagram_def
    by (intro makes_if makes_None makes_build fill) simp_all
qed

text \<open>The path and the extra data of a path return share the room of the payload.\<close>

lemma path_return_fits_iff:
  "meshcore_mesh_path_return_extra_fits path_len extra_len \<longleftrightarrow> path_bytes path_len + extra_len \<le> 161"
  by (auto simp: meshcore_mesh_path_return_extra_fits_def Let_def path_bytes_def hash_count_def
      unat_hash_size mult.commute)

definition path_return_len :: "byte \<Rightarrow> nat \<Rightarrow> nat" where
  "path_return_len path_len extra_len = 2 + path_bytes path_len + (if extra_len > 0 then extra_len else 4)"

lemma makes_create_path_return:
  "makes R (\<lambda>q. built PAYLOAD_TYPE_PATH q \<and>
       pk_payload_len q = of_nat (4 + ceil16 (path_return_len path_len extra_len)))
     (meshcore_mesh_create_path_return_by_dest_hash h dest_hash secret path path_len extra_type extra extra_len)"
proof -
  let ?len = "1 + unat (drop_bit 6 path_len + 1) * unat (path_len AND 63) + 1 +
    (if extra_len > 0 then extra_len else 4)"
  have len: "?len = path_return_len path_len extra_len"
    by (simp add: path_return_len_def path_bytes_def hash_count_def unat_hash_size mult.commute)
  have fill: "fills R r (\<lambda>q. q = p) (\<lambda>q. built PAYLOAD_TYPE_PATH q \<and>
       pk_payload_len q = of_nat (4 + ceil16 (path_return_len path_len extra_len))) (do {
       let payload = mem_write 0 (mem_read 0 1 dest_hash) (pk_payload p);
       let (n, payload) = meshcore_identity_copy_hash_to self 1 payload;
       finish_encrypted h r (p \<lparr> pk_header := type_header PAYLOAD_TYPE_PATH, pk_payload := payload \<rparr>)
         (1 + n) secret data ?len })"
    if "meshcore_mesh_path_return_extra_fits path_len extra_len" "packet_wf p" "pk_path_len p = 0"
    for r p self data
  proof -
    have "path_return_len path_len extra_len \<le> 167"
      using that(1) by (auto simp: path_return_fits_iff path_return_len_def)
    then have "ceil16 (path_return_len path_len extra_len) \<le> 176"
      using ceil16_mono by (fastforce simp: ceil16_def)
    then show ?thesis
      using that unfolding copy_hash_to_eq Let_def prod.case len
      by (intro fills_finish_encrypted) (simp_all add: packet_wf_def)
  qed
  show ?thesis
    unfolding meshcore_mesh_create_path_return_by_dest_hash_def Let_def [of "unat _ * unat _"]
    by (intro makes_if makes_None makes_bind_case [OF makes_obtain_mesh] fills_calm_bind
        calm_self_identity calm_mesh_helpers fills_get fill) simp_all
qed

lemma fills_plain:
  assumes "packet_wf p" and "pk_path_len p = 0" and "length d = 184" and "len \<le> 184" and "unat ty < 16"
  shows "fills R r \<Phi> (\<lambda>q. built ty q \<and> pk_payload_len q = of_nat len) (do {
     pk_put r (p \<lparr> pk_header := type_header ty, pk_payload := d, pk_payload_len := of_nat len \<rparr>);
     ret (Some r) })"
  using assms
  by (intro fills_put fills_ret) (auto intro!: builtI simp: packet_wf_def unat_u16)

lemma makes_create_plain:
  "unat ty < 16 \<Longrightarrow> makes R (\<lambda>q. built ty q \<and> pk_payload_len q = of_nat len) (create_plain ty data len)"
  unfolding create_plain_def
  by (intro makes_if makes_None makes_build fills_plain) (simp_all add: packet_wf_def)

lemma makes_create_ack_data:
  "makes R (\<lambda>q. built PAYLOAD_TYPE_ACK q \<and> pk_payload_len q = of_nat len)
     (meshcore_mesh_create_ack_data ack len)"
  unfolding meshcore_mesh_create_ack_data_def
  by (intro makes_bind_case [OF makes_obtain_mesh] makes_None fills_if fills_release takes_release_mesh
      fills_get fills_plain) (simp_all add: packet_wf_def)

lemma makes_create_multi_ack_data:
  "makes R (\<lambda>q. built PAYLOAD_TYPE_MULTIPART q \<and> pk_payload_len q = of_nat (1 + len))
     (meshcore_mesh_create_multi_ack_data ack len remaining)"
  unfolding meshcore_mesh_create_multi_ack_data_def
  by (intro makes_bind_case [OF makes_obtain_mesh] makes_None fills_if fills_release takes_release_mesh
      fills_get fills_Let fills_plain) (simp_all add: packet_wf_def)

lemma makes_create_trace:
  "makes R (\<lambda>q. built PAYLOAD_TYPE_TRACE q \<and> pk_payload_len q = of_nat 9)
     (meshcore_mesh_create_trace tag auth_code flags)"
proof -
  have nine: "(9 :: u16) = of_nat 9" by simp
  show ?thesis
    unfolding meshcore_mesh_create_trace_def nine
    by (intro makes_build fills_Let fills_plain) (simp_all add: packet_wf_def)
qed

lemma makes_create_advert:
  "makes R (\<lambda>q. built PAYLOAD_TYPE_ADVERT q \<and> pk_payload_len q = of_nat (100 + len))
     (meshcore_mesh_create_advert h identity app len)"
proof -
  have sig: "meshcore_local_identity_sign (h_ec h) identity m (int n) = Some sig \<Longrightarrow> length sig = 64" for m n sig
    by (auto simp: meshcore_local_identity_sign_def meshcore_identity_sign_expanded_private_key_def Let_def)
  have sign: "length (case meshcore_local_identity_sign (h_ec h) identity m (int n) of
       None \<Rightarrow> d | Some sig \<Rightarrow> mem_write 36 sig d) = 184" if "length d = 184" for d m n
    using that sig by (auto split: option.splits)
  show ?thesis
    unfolding meshcore_mesh_create_advert_def Let_def
    by (intro makes_if makes_None makes_build fills_calm_bind calm_mesh_helpers fills_put fills_ret)
       (auto intro!: builtI sign simp: packet_wf_def unat_u16 simp del: of_nat_add)
qed

section \<open>What the send functions do\<close>

lemma takes_queue_seen:
  "packet_wf p \<Longrightarrow> takes R r \<Phi> (do {
     pk_put r p;
     _ \<leftarrow> meshcore_mesh_tables_has_seen h p;
     meshcore_dispatcher_send_packet h r pri delay })"
  by (intro takes_put takes_calm_bind calm_has_seen takes_send_packet)

lemma set_route_wf [simp]: "packet_wf (set_route b p) = packet_wf p"
  "pk_path_len (set_route b p) = pk_path_len p" "pk_payload_len (set_route b p) = pk_payload_len p"
  "pk_path (set_route b p) = pk_path p" "pk_payload (set_route b p) = pk_payload p"
  by (simp_all add: set_route_def packet_wf_def)

lemma set_path_hash_size_wf [simp]:
  "packet_wf (meshcore_packet_set_path_hash_size_and_count p n m) = packet_wf p"
  "packet_wf (meshcore_packet_set_path_hash_count p m) = packet_wf p"
  by (simp_all add: meshcore_packet_set_path_hash_size_and_count_def
      meshcore_packet_set_path_hash_count_def packet_wf_def)

lemma packet_wf_upd [simp]:
  "packet_wf (p \<lparr> pk_transport_codes := c \<rparr>) = packet_wf p" "packet_wf (p \<lparr> pk_path_len := n \<rparr>) = packet_wf p"
  "packet_wf (p \<lparr> pk_header := b \<rparr>) = packet_wf p" "packet_wf (p \<lparr> pk_payload_len := n \<rparr>) = packet_wf p"
  by (simp_all add: packet_wf_def)

lemma takes_send_flood: "takes R r \<Phi> (meshcore_mesh_send_flood h r delay n)"
  unfolding meshcore_mesh_send_flood_def
  by (intro takes_get takes_Let takes_if takes_release_mesh takes_queue_seen) simp

lemma takes_send_flood_codes: "takes R r \<Phi> (meshcore_mesh_send_flood_by_transport_codes h r codes delay n)"
  unfolding meshcore_mesh_send_flood_by_transport_codes_def
  by (intro takes_get takes_Let takes_if takes_release_mesh takes_queue_seen) simp

lemma takes_send_zero_hop: "takes R r \<Phi> (meshcore_mesh_send_zero_hop h r delay)"
  unfolding meshcore_mesh_send_zero_hop_def
  by (intro takes_get takes_Let takes_queue_seen) (simp add: packet_wf_def)

lemma takes_send_zero_hop_codes:
  "takes R r \<Phi> (meshcore_mesh_send_zero_hop_by_transport_codes h r codes delay)"
  unfolding meshcore_mesh_send_zero_hop_by_transport_codes_def
  by (intro takes_get takes_Let takes_queue_seen) (simp add: packet_wf_def)

lemma length_copy_path:
  "length dest = 64 \<Longrightarrow> length (snd (meshcore_packet_copy_path dest src path_len)) = 64"
  by (auto simp: meshcore_packet_copy_path_def meshcore_packet_write_path_def Let_def)

lemma takes_send_direct: "takes R r \<Phi> (meshcore_mesh_send_direct h r path path_len delay)"
proof -
  have drop: "takes R r (\<lambda>q. q = p) (do {
      pk_put r (set_route ROUTE_TYPE_DIRECT p); meshcore_mesh_release_consumed_packet r })"
    if "packet_wf p" for p
    using that by (intro takes_put takes_release_mesh) simp
  show ?thesis
    unfolding meshcore_mesh_send_direct_def case_prod_unfold Let_def
    by (intro takes_get takes_if drop takes_queue_seen) (auto simp: packet_wf_def length_copy_path)
qed

section \<open>Properties\<close>

lemma obtain_run:
  assumes "pool_inv (co_mgr s) held" and "run_state meshcore_mesh_obtain_new_packet s = (Some r, s1)"
  shows "packet_wf (mgr_packet (co_mgr s1) r) \<and> r < length (qm_packet_buf (co_mgr s1)) \<and> co_self s1 = co_self s"
proof -
  obtain m where alloc: "meshcore_packet_queue_manager_alloc_new (co_mgr s) = (Some r, m)"
    and s1: "s1 = s \<lparr> co_mgr := mgr_set_packet r
      ((mgr_packet m r) \<lparr> pk_payload_len := 0, pk_path_len := 0, pk_snr_q4 := 0 \<rparr>) m \<rparr>"
    using assms(2)
    by (auto simp: meshcore_mesh_obtain_new_packet_def meshcore_dispatcher_obtain_new_packet_def mgr_alloc_new_def
        pk_get_def pk_put_def disp_modify_def split: prod.splits option.splits)
  have inv: "pool_inv m (add_mset r held)" using alloc_new_inv [OF assms(1) alloc] by simp
  then have "packet_wf (mgr_packet m r)" "r < length (qm_packet_buf m)"
    by (auto intro: mgr_packet_wf pool_inv_range(2))
  then show ?thesis
    by (auto simp: s1 packet_wf_def) (simp_all add: mgr_set_packet_def)
qed

text \<open>What the common end of the builders leaves in the packet.\<close>

lemma finish_encrypted_opens:
  assumes "aes_inverse (h_crypto h) (aes_key secret)" and "hmac_total (h_crypto h) (mem_read 0 32 secret)"
    and "data \<noteq> []" and "length (pk_payload p) = 184" and "off + 2 + ceil16 (length data) \<le> 184"
    and "r < length (qm_packet_buf (co_mgr s))"
    and "run_state (finish_encrypted h r p off secret data (length data)) s = (Some r', s')"
    and "q = mgr_packet (co_mgr s') r'"
  shows "take off (pk_payload q) = take off (pk_payload p) \<and>
    meshcore_utils_mac_then_decrypt (h_crypto h) secret (zeros 184) (pk_payload q) off
      (int (unat (pk_payload_len q)) - int off) = (ceil16 (length data), mem_write 0 (pad16 data) (zeros 184))"
proof -
  let ?n = "length data"
  have pos: "0 < ?n" "0 < ceil16 ?n" using assms(3) ceil16_ge [of ?n] by (cases data; force)+
  obtain ct f where ct: "length ct = ceil16 ?n" "crypto_hmac_sha256 (h_crypto h) 2 (mem_read 0 32 secret) ct = Some f"
    "ecb_decrypt (h_crypto h) (aes_key secret) ct = Some (pad16 data)"
    "meshcore_utils_encrypt_then_mac (h_crypto h) secret (pk_payload p) off data (int ?n) =
       (Inr (2 + ceil16 ?n), mem_write off (buf 2 f @ ct) (pk_payload p))"
    using encrypt_then_mac_spec [OF assms(1,2) pos(1), of data off "pk_payload p"] assms(4,5) by auto
  let ?d = "mem_write off (buf 2 f @ ct) (pk_payload p)"
  have q: "pk_payload q = ?d" "pk_payload_len q = of_nat (off + (2 + ceil16 ?n))"
    using assms(6,7) ct(4) by (auto simp: finish_encrypted_def pk_put_def assms(8))
  have "off + (2 + ceil16 ?n) \<le> 184" using assms(5) by simp
  then have "unat (pk_payload_len q) = off + (2 + ceil16 ?n)" unfolding q(2) by (rule unat_u16)
  then have len: "int (unat (pk_payload_len q)) - int off = int (2 + length ct)" by (simp add: ct(1))
  have "mem_read off (2 + length ct) ?d = buf 2 f @ ct"
    using assms(4,5) by (simp add: mem_read_def mem_write_def buf_def)
  then have "meshcore_utils_mac_then_decrypt (h_crypto h) secret (zeros 184) ?d off (int (2 + length ct)) =
      (length ct, mem_write 0 (pad16 data) (zeros 184))"
    using ct pos assms(4,5) by (intro mac_then_decrypt_spec) auto
  moreover have "take off ?d = take off (pk_payload p)" using assms(4,5) by (simp add: mem_write_def)
  ultimately show ?thesis by (simp only: q(1) len ct(1))
qed

text \<open>
  C7. What a node sends to a peer, the peer can open.  The packet that \<open>meshcore_mesh_create_datagram\<close> builds starts
  with the hashes of the receiver and of the sender, and the receiver's decryption under the shared
  secret - the call that the search for the sender makes for each peer - returns the data, padded
  with zeros to the cipher block.  (Without data there is nothing to open: such a packet is built, but
  its receiver takes it for one it cannot decrypt.)
\<close>

theorem datagram_opens:
  assumes "pool_inv (co_mgr s) held" and "identity_wf dest" and "local_identity_wf (co_self s)"
    and "aes_inverse (h_crypto h) (aes_key secret)" and "hmac_total (h_crypto h) (mem_read 0 32 secret)"
    and "data \<noteq> []"
    and "run_state (meshcore_mesh_create_datagram h ty dest secret data (length data)) s = (Some r, s')"
    and "q = mgr_packet (co_mgr s') r"
  shows "mem_read 0 2 (pk_payload q) = [hd (id_pub_key dest), hd (id_pub_key (li_identity (co_self s)))] \<and>
    meshcore_utils_mac_then_decrypt (h_crypto h) secret (zeros 184) (pk_payload q) 2 (int (unat (pk_payload_len q)) - 2) =
      (ceil16 (length data), mem_write 0 (pad16 data) (zeros 184))"
proof -
  let ?self = "li_identity (co_self s)" and ?n = "length data"
  have fits: "?n \<le> 167" using assms(7)
    by (auto simp: meshcore_mesh_create_datagram_def meshcore_mesh_datagram_plaintext_fits_def split: if_splits)
  then have c: "ceil16 ?n \<le> 176" using ceil16_mono [OF fits] by (simp add: ceil16_def)
  obtain x s1 where ob: "run_state meshcore_mesh_obtain_new_packet s = (x, s1)" by fastforce
  moreover have "x \<noteq> None"
    using assms(7) ob by (cases x) (auto simp: meshcore_mesh_create_datagram_def split: if_splits)
  ultimately obtain r0 where ob: "run_state meshcore_mesh_obtain_new_packet s = (Some r0, s1)" by auto
  note got = obtain_run [OF assms(1) ob]
  let ?p = "mgr_packet (co_mgr s1) r0"
  let ?hd = "mem_write 1 (mem_read 0 1 (id_pub_key ?self)) (mem_write 0 (mem_read 0 1 (id_pub_key dest)) (pk_payload ?p))"
  let ?q = "?p \<lparr> pk_header := type_header ty, pk_payload := ?hd \<rparr>"
  have fin: "run_state (finish_encrypted h r0 ?q 2 secret data ?n) s1 = (Some r, s')"
    using assms(7) ob got
    by (auto simp: meshcore_mesh_create_datagram_def self_identity_def pk_get_def copy_hash_to_eq numeral_2_eq_2
        split: if_splits)
  have "length (id_pub_key dest) = 32" "length (id_pub_key ?self) = 32"
    using assms(2,3) by (simp_all add: identity_wf_def local_identity_wf_def)
  then have one: "mem_read 0 1 (id_pub_key dest) = [hd (id_pub_key dest)]"
    "mem_read 0 1 (id_pub_key ?self) = [hd (id_pub_key ?self)]"
    by (cases "id_pub_key dest"; cases "id_pub_key (li_identity (co_self s))"; simp add: mem_read_def)+
  have hd: "length ?hd = 184" "take 2 ?hd = [hd (id_pub_key dest), hd (id_pub_key ?self)]"
    unfolding one using got by (simp_all add: mem_write_def packet_wf_def)
  have "length (pk_payload ?q) = 184" "2 + 2 + ceil16 ?n \<le> 184" "r0 < length (qm_packet_buf (co_mgr s1))"
    using hd(1) c got by simp_all
  from finish_encrypted_opens [OF assms(4-6) this fin assms(8)] hd(2)
  show ?thesis by (simp add: mem_read_def)
qed

definition example_sender :: "(unit, unit) core" where
  "example_sender = \<lparr> co_world = (), co_millis_override = None,
     co_mgr = meshcore_packet_queue_manager_prepare manager_zero 10,
     co_tables = meshcore_tables_init, co_disp = dispatcher_zero, co_self = meshcore_local_identity_init,
     co_rt = () \<rparr>"

theorem datagram_opens_witness:
  "\<exists>s'. run_state (meshcore_mesh_create_datagram example_host 2 meshcore_identity_init (zeros 32) [1, 2, 3] 3) example_sender =
       (Some 0, s') \<and>
     meshcore_utils_mac_then_decrypt xor_crypto (zeros 32) (zeros 184) (pk_payload (mgr_packet (co_mgr s') 0)) 2
       (int (unat (pk_payload_len (mgr_packet (co_mgr s') 0))) - 2) = (16, mem_write 0 (pad16 [1, 2, 3]) (zeros 184))"
proof -
  let ?run = "run_state (meshcore_mesh_create_datagram example_host 2 meshcore_identity_init (zeros 32) [1, 2, 3] 3) example_sender"
  have wf: "identity_wf meshcore_identity_init" "local_identity_wf (co_self example_sender)" "fst ?run = Some 0"
    "length [1, 2, 3 :: byte] = 3" "ceil16 3 = 16"
    by code_simp+
  have pool: "pool_inv (co_mgr example_sender) {#}"
    using prepare_inv(1) [of 10 manager_zero] by (simp add: example_sender_def MAX_POOL_SIZE_def)
  have c: "h_crypto example_host = xor_crypto" by (simp add: example_host_def)
  have "?run = (Some 0, snd ?run)" using wf(3) by (simp add: prod_eq_iff)
  with datagram_opens [OF pool wf(1,2), of example_host "zeros 32" "[1, 2, 3]" 2 0 "snd ?run", OF _ _ _ _ refl]
  show ?thesis unfolding wf(4,5) c using xor_crypto_laws by (intro exI [of _ "snd ?run"]) simp
qed

end
