(* ===== verification/Mesh_Receive.thy ===== *)
theory Mesh_Receive
  imports Mesh_Send
begin

text \<open>
  The incoming half of the mesh layer (\<open>core/meshcore_mesh.c\<close>): what a node does with a received
  packet - deliver it, forward it along a direct route, add itself to the path of a flood,
  or drop it.

  The runtime registers its handlers with \<open>meshcore_mesh_set_runtime_ops\<close>; they are the
  parameter \<open>ops\<close>, with \<open>None\<close> for a NULL pointer, in which case the host is
  called.  The handlers get the packet by value: none of them writes to it.  What the
  mesh layer relies on is the locale \<open>mesh_handlers\<close>; under it the receive
  function meets the contract \<open>recv_handler\<close> of the dispatcher.
\<close>

section \<open>Runtime handlers\<close>

record ('w, 'r) mesh_ops =
  op_allow_packet_forward :: "(packet \<Rightarrow> ('w, 'r, bool) op) option"
  op_get_retransmit_delay :: "(packet \<Rightarrow> ('w, 'r, u32) op) option"
  op_get_direct_retransmit_delay :: "(packet \<Rightarrow> ('w, 'r, u32) op) option"
  op_on_peer_data_recv :: "(packet \<Rightarrow> byte \<Rightarrow> peer_identity \<Rightarrow> bytes \<Rightarrow> bytes \<Rightarrow> nat \<Rightarrow> ('w, 'r, unit) op) option"
  op_on_trace_recv :: "(packet \<Rightarrow> u32 \<Rightarrow> u32 \<Rightarrow> byte \<Rightarrow> bytes \<Rightarrow> bytes \<Rightarrow> byte \<Rightarrow> ('w, 'r, unit) op) option"
  op_on_peer_path_recv :: "(packet \<Rightarrow> peer_identity \<Rightarrow> bytes \<Rightarrow> bytes \<Rightarrow> byte \<Rightarrow> byte \<Rightarrow> bytes \<Rightarrow> byte \<Rightarrow>
    ('w, 'r, bool) op) option"
  op_on_advert_recv :: "(packet \<Rightarrow> identity \<Rightarrow> u32 \<Rightarrow> bytes \<Rightarrow> nat \<Rightarrow> ('w, 'r, unit) op) option"
  op_on_control_data_recv :: "(packet \<Rightarrow> ('w, 'r, unit) op) option"
  op_on_raw_data_recv :: "(packet \<Rightarrow> ('w, 'r, unit) op) option"
  op_on_group_data_recv :: "(packet \<Rightarrow> byte \<Rightarrow> group_channel \<Rightarrow> bytes \<Rightarrow> nat \<Rightarrow> ('w, 'r, unit) op) option"
  op_on_ack_recv :: "(packet \<Rightarrow> u32 \<Rightarrow> ('w, 'r, unit) op) option"

text \<open>No handlers registered.\<close>

definition no_ops :: "('w, 'r) mesh_ops" where
  "no_ops = \<lparr> op_allow_packet_forward = None, op_get_retransmit_delay = None,
     op_get_direct_retransmit_delay = None, op_on_peer_data_recv = None, op_on_trace_recv = None,
     op_on_peer_path_recv = None, op_on_advert_recv = None, op_on_control_data_recv = None,
     op_on_raw_data_recv = None, op_on_group_data_recv = None, op_on_ack_recv = None \<rparr>"

definition meshcore_mesh_runtime_get_cad_fail_retry_delay :: "'w host \<Rightarrow> ('w, 'r, u32) op" where
  "meshcore_mesh_runtime_get_cad_fail_retry_delay h = meshcore_platform_bridge_mesh_cad_fail_retry_delay_get h"

definition meshcore_mesh_runtime_filter_recv_flood_packet :: "'w host \<Rightarrow> packet \<Rightarrow> ('w, 'r, bool) op" where
  "meshcore_mesh_runtime_filter_recv_flood_packet h p =
     meshcore_platform_bridge_mesh_filter_recv_flood_packet h p"

definition meshcore_mesh_runtime_allow_packet_forward ::
  "'w host \<Rightarrow> ('w, 'r) mesh_ops \<Rightarrow> packet \<Rightarrow> ('w, 'r, bool) op" where
  "meshcore_mesh_runtime_allow_packet_forward h ops p =
     (case op_allow_packet_forward ops of
        Some f \<Rightarrow> f p
      | None \<Rightarrow> meshcore_platform_bridge_mesh_allow_packet_forward h p)"

definition meshcore_mesh_runtime_get_retransmit_delay ::
  "'w host \<Rightarrow> ('w, 'r) mesh_ops \<Rightarrow> packet \<Rightarrow> ('w, 'r, u32) op" where
  "meshcore_mesh_runtime_get_retransmit_delay h ops p =
     (case op_get_retransmit_delay ops of
        Some f \<Rightarrow> f p
      | None \<Rightarrow> meshcore_platform_bridge_mesh_retransmit_delay_get h p)"

definition meshcore_mesh_runtime_get_direct_retransmit_delay ::
  "'w host \<Rightarrow> ('w, 'r) mesh_ops \<Rightarrow> packet \<Rightarrow> ('w, 'r, u32) op" where
  "meshcore_mesh_runtime_get_direct_retransmit_delay h ops p =
     (case op_get_direct_retransmit_delay ops of
        Some f \<Rightarrow> f p
      | None \<Rightarrow> meshcore_platform_bridge_mesh_direct_retransmit_delay_get h p)"

definition meshcore_mesh_runtime_get_extra_ack_transmit_count :: "'w host \<Rightarrow> ('w, 'r, byte) op" where
  "meshcore_mesh_runtime_get_extra_ack_transmit_count h =
     meshcore_platform_bridge_mesh_extra_ack_transmit_count_get h"

definition meshcore_mesh_runtime_next_peer_shared_secret_by_hash ::
  "'w host \<Rightarrow> byte \<Rightarrow> nat \<Rightarrow> ('w, 'r, int \<times> nat \<times> bytes \<times> peer_identity) op" where
  "meshcore_mesh_runtime_next_peer_shared_secret_by_hash h hash start_slot =
     meshcore_platform_bridge_mesh_next_peer_shared_secret_by_hash h hash start_slot"

definition meshcore_mesh_runtime_on_peer_data_recv ::
  "'w host \<Rightarrow> ('w, 'r) mesh_ops \<Rightarrow> packet \<Rightarrow> byte \<Rightarrow> peer_identity \<Rightarrow> bytes \<Rightarrow> bytes \<Rightarrow> nat \<Rightarrow>
     ('w, 'r, unit) op" where
  "meshcore_mesh_runtime_on_peer_data_recv h ops p ty sender secret data len =
     (case op_on_peer_data_recv ops of
        Some f \<Rightarrow> f p ty sender secret data len
      | None \<Rightarrow> meshcore_platform_bridge_mesh_on_peer_data_recv h p ty sender secret data len)"

definition meshcore_mesh_runtime_on_trace_recv ::
  "'w host \<Rightarrow> ('w, 'r) mesh_ops \<Rightarrow> packet \<Rightarrow> u32 \<Rightarrow> u32 \<Rightarrow> byte \<Rightarrow> bytes \<Rightarrow> bytes \<Rightarrow> byte \<Rightarrow>
     ('w, 'r, unit) op" where
  "meshcore_mesh_runtime_on_trace_recv h ops p tag auth_code flags path_snrs path_hashes path_len =
     (case op_on_trace_recv ops of
        Some f \<Rightarrow> f p tag auth_code flags path_snrs path_hashes path_len
      | None \<Rightarrow> meshcore_platform_bridge_mesh_on_trace_recv h p tag auth_code flags path_snrs path_hashes path_len)"

definition meshcore_mesh_runtime_on_peer_path_recv ::
  "'w host \<Rightarrow> ('w, 'r) mesh_ops \<Rightarrow> packet \<Rightarrow> peer_identity \<Rightarrow> bytes \<Rightarrow> bytes \<Rightarrow> byte \<Rightarrow> byte \<Rightarrow> bytes \<Rightarrow> byte \<Rightarrow>
     ('w, 'r, bool) op" where
  "meshcore_mesh_runtime_on_peer_path_recv h ops p sender secret path path_len extra_type extra extra_len =
     (case op_on_peer_path_recv ops of
        Some f \<Rightarrow> f p sender secret path path_len extra_type extra extra_len
      | None \<Rightarrow>
          meshcore_platform_bridge_mesh_on_peer_path_recv h p sender secret path path_len extra_type extra extra_len)"

definition meshcore_mesh_runtime_on_advert_recv ::
  "'w host \<Rightarrow> ('w, 'r) mesh_ops \<Rightarrow> packet \<Rightarrow> identity \<Rightarrow> u32 \<Rightarrow> bytes \<Rightarrow> nat \<Rightarrow> ('w, 'r, unit) op" where
  "meshcore_mesh_runtime_on_advert_recv h ops p identity timestamp app_data app_data_len =
     (case op_on_advert_recv ops of
        Some f \<Rightarrow> f p identity timestamp app_data app_data_len
      | None \<Rightarrow> meshcore_platform_bridge_mesh_on_advert_recv h p identity timestamp app_data app_data_len)"

definition meshcore_mesh_runtime_on_anon_data_recv ::
  "'w host \<Rightarrow> packet \<Rightarrow> bytes \<Rightarrow> identity \<Rightarrow> bytes \<Rightarrow> nat \<Rightarrow> ('w, 'r, unit) op" where
  "meshcore_mesh_runtime_on_anon_data_recv h p secret sender data len =
     meshcore_platform_bridge_mesh_on_anon_data_recv h p secret sender data len"

definition meshcore_mesh_runtime_on_path_recv ::
  "'w host \<Rightarrow> packet \<Rightarrow> identity \<Rightarrow> bytes \<Rightarrow> byte \<Rightarrow> byte \<Rightarrow> bytes \<Rightarrow> byte \<Rightarrow> ('w, 'r, unit) op" where
  "meshcore_mesh_runtime_on_path_recv h p sender path path_len extra_type extra extra_len =
     meshcore_platform_bridge_mesh_on_path_recv h p sender path path_len extra_type extra extra_len"

definition meshcore_mesh_runtime_on_control_data_recv ::
  "'w host \<Rightarrow> ('w, 'r) mesh_ops \<Rightarrow> packet \<Rightarrow> ('w, 'r, unit) op" where
  "meshcore_mesh_runtime_on_control_data_recv h ops p =
     (case op_on_control_data_recv ops of
        Some f \<Rightarrow> f p
      | None \<Rightarrow> meshcore_platform_bridge_mesh_on_control_data_recv h p)"

definition meshcore_mesh_runtime_on_raw_data_recv ::
  "'w host \<Rightarrow> ('w, 'r) mesh_ops \<Rightarrow> packet \<Rightarrow> ('w, 'r, unit) op" where
  "meshcore_mesh_runtime_on_raw_data_recv h ops p =
     (case op_on_raw_data_recv ops of
        Some f \<Rightarrow> f p
      | None \<Rightarrow> meshcore_platform_bridge_mesh_on_raw_data_recv h p)"

definition meshcore_mesh_runtime_search_channels_by_hash ::
  "'w host \<Rightarrow> byte \<Rightarrow> nat \<Rightarrow> ('w, 'r, group_channel list) op" where
  "meshcore_mesh_runtime_search_channels_by_hash h hash max_matches =
     meshcore_platform_bridge_mesh_search_channels_by_hash h hash max_matches"

definition meshcore_mesh_runtime_on_group_data_recv ::
  "'w host \<Rightarrow> ('w, 'r) mesh_ops \<Rightarrow> packet \<Rightarrow> byte \<Rightarrow> group_channel \<Rightarrow> bytes \<Rightarrow> nat \<Rightarrow> ('w, 'r, unit) op" where
  "meshcore_mesh_runtime_on_group_data_recv h ops p ty channel data len =
     (case op_on_group_data_recv ops of
        Some f \<Rightarrow> f p ty channel data len
      | None \<Rightarrow> meshcore_platform_bridge_mesh_on_group_data_recv h p ty channel data len)"

definition meshcore_mesh_runtime_on_ack_recv ::
  "'w host \<Rightarrow> ('w, 'r) mesh_ops \<Rightarrow> packet \<Rightarrow> u32 \<Rightarrow> ('w, 'r, unit) op" where
  "meshcore_mesh_runtime_on_ack_recv h ops p ack_crc =
     (case op_on_ack_recv ops of
        Some f \<Rightarrow> f p ack_crc
      | None \<Rightarrow> meshcore_platform_bridge_mesh_on_ack_recv h p ack_crc)"

section \<open>Forwarding\<close>

text \<open>\<open>MESHCORE_ACTION_RETRANSMIT_DELAYED\<close>\<close>

definition retransmit_delayed :: "byte \<Rightarrow> u32 \<Rightarrow> u32" where
  "retransmit_delayed pri delay = push_bit 24 (1 + ucast pri) OR delay"

definition meshcore_mesh_remove_self_from_path :: "packet \<Rightarrow> packet" where
  "meshcore_mesh_remove_self_from_path p =
     (let hash_count = meshcore_packet_get_path_hash_count p in
      if hash_count = 0 then p
      else
        let p = meshcore_packet_set_path_hash_count p (hash_count - 1);
            sz = unat (meshcore_packet_get_path_hash_size p);
            hash_count = unat (meshcore_packet_get_path_hash_count p) in
        p \<lparr> pk_path := foldl (\<lambda>path k. mem_write k (mem_read (k + sz) sz path) path)
               (pk_path p) (map (\<lambda>i. i * sz) [0..<hash_count]) \<rparr>)"

text \<open>\<open>a1->path_len = copy_path(...)\<close>, the direct route and the queueing of an acknowledgement.\<close>

definition send_along :: "'w host \<Rightarrow> packet \<Rightarrow> packet_ref \<Rightarrow> u32 \<Rightarrow> ('w, 'r, unit) op" where
  "send_along h p r delay_millis = do {
     a \<leftarrow> pk_get r;
     let (n, path) = meshcore_packet_copy_path (pk_path a) (pk_path p) (ucast (pk_path_len p));
     pk_put r (set_route ROUTE_TYPE_DIRECT (a \<lparr> pk_path_len := ucast n, pk_path := path \<rparr>));
     meshcore_dispatcher_send_packet h r 0 delay_millis
   }"

primrec extra_acks_loop ::
  "'w host \<Rightarrow> ('w, 'r) mesh_ops \<Rightarrow> packet \<Rightarrow> nat \<Rightarrow> u32 \<Rightarrow> ('w, 'r, u32) op" where
  "extra_acks_loop h ops p 0 delay_millis = ret delay_millis"
| "extra_acks_loop h ops p (Suc extra) delay_millis = do {
     d \<leftarrow> meshcore_mesh_runtime_get_direct_retransmit_delay h ops p;
     let delay_millis = delay_millis + (d + 300);
     a1 \<leftarrow> meshcore_mesh_create_multi_ack_data (pk_payload p) (unat (pk_payload_len p)) (of_nat (Suc extra));
     (case a1 of None \<Rightarrow> ret () | Some r \<Rightarrow> send_along h p r delay_millis);
     extra_acks_loop h ops p extra delay_millis
   }"

definition meshcore_mesh_route_direct_recv_acks ::
  "'w host \<Rightarrow> ('w, 'r) mesh_ops \<Rightarrow> packet \<Rightarrow> u32 \<Rightarrow> ('w, 'r, unit) op" where
  "meshcore_mesh_route_direct_recv_acks h ops p delay_millis =
     (if meshcore_packet_is_marked_do_not_retransmit p then ret ()
      else do {
        extra \<leftarrow> meshcore_mesh_runtime_get_extra_ack_transmit_count h;
        delay_millis \<leftarrow> extra_acks_loop h ops p (unat extra) delay_millis;
        a2 \<leftarrow> meshcore_mesh_create_ack_data (pk_payload p) (unat (pk_payload_len p));
        (case a2 of None \<Rightarrow> ret () | Some r \<Rightarrow> send_along h p r delay_millis)
      })"

text \<open>The acknowledgement inside a multipart packet, as a packet of its own.\<close>

definition multipart_ack :: "packet \<Rightarrow> packet" where
  "multipart_ack p =
     (let tmp = meshcore_packet_init;
          (n, path) = meshcore_packet_copy_path (pk_path tmp) (pk_path p) (ucast (pk_path_len p));
          payload_len = pk_payload_len p - 1 in
      tmp \<lparr> pk_header := pk_header p, pk_path_len := ucast n, pk_path := path,
            pk_payload_len := payload_len,
            pk_payload := mem_write 0 (mem_read 1 (unat payload_len) (pk_payload p)) (pk_payload tmp) \<rparr>)"

definition meshcore_mesh_forward_multipart_direct ::
  "'w host \<Rightarrow> ('w, 'r) mesh_ops \<Rightarrow> packet \<Rightarrow> ('w, 'r, u32) op" where
  "meshcore_mesh_forward_multipart_direct h ops p =
     (if pk_payload_len p = 0 then ret ACTION_RELEASE
      else
        let remaining = drop_bit 4 (byte_at (pk_payload p) 0);
            ty = byte_at (pk_payload p) 0 AND 15 in
        do {
          when_do (ty = PAYLOAD_TYPE_ACK \<and> 5 \<le> unat (pk_payload_len p)) (do {
            let tmp = multipart_ack p;
            seen \<leftarrow> meshcore_mesh_tables_has_seen h tmp;
            when_do (\<not> seen)
              (meshcore_mesh_route_direct_recv_acks h ops (meshcore_mesh_remove_self_from_path tmp)
                ((ucast remaining + 1) * 300))
          });
          ret ACTION_RELEASE
        })"

definition meshcore_mesh_route_recv_packet ::
  "'w host \<Rightarrow> ('w, 'r) mesh_ops \<Rightarrow> packet_ref \<Rightarrow> ('w, 'r, u32) op" where
  "meshcore_mesh_route_recv_packet h ops r = do {
     p \<leftarrow> pk_get r;
     let hash_count = meshcore_packet_get_path_hash_count p;
     let hash_size = meshcore_packet_get_path_hash_size p;
     allowed \<leftarrow> (if meshcore_packet_is_route_flood p \<and>
          \<not> meshcore_packet_is_marked_do_not_retransmit p \<and>
          (unat hash_count + 1) * unat hash_size \<le> 64
        then meshcore_mesh_runtime_allow_packet_forward h ops p else ret False);
     if allowed then do {
       self \<leftarrow> self_identity;
       let path = snd (meshcore_identity_copy_hash_by_len self (unat hash_count * unat hash_size)
             (pk_path p) hash_size);
       let p = meshcore_packet_set_path_hash_count (p \<lparr> pk_path := path \<rparr>) (hash_count + 1);
       pk_put r p;
       delay \<leftarrow> meshcore_mesh_runtime_get_retransmit_delay h ops p;
       ret (retransmit_delayed (meshcore_packet_get_path_hash_count p) delay)
     }
     else ret ACTION_RELEASE
   }"

section \<open>Receiving\<close>

text \<open>
  \<open>meshcore_mesh_on_recv_packet\<close> case by case.  A case that is left with \<open>break\<close> returns the
  action that releases the packet.
\<close>

text \<open>\<open>!meshcore_mesh_tables_has_seen(mesh, packet)\<close>\<close>

definition unseen :: "'w host \<Rightarrow> packet \<Rightarrow> ('w, 'r, bool) op" where
  "unseen h p = do { seen \<leftarrow> meshcore_mesh_tables_has_seen h p; ret (\<not> seen) }"

definition recv_trace :: "'w host \<Rightarrow> ('w, 'r) mesh_ops \<Rightarrow> packet_ref \<Rightarrow> packet \<Rightarrow> ('w, 'r, u32) op" where
  "recv_trace h ops r p =
     (if pk_path_len p < 64 \<and> 9 \<le> unat (pk_payload_len p) then
        let trace_tag = le_word (mem_read 0 4 (pk_payload p));
            auth_code = le_word (mem_read 4 4 (pk_payload p));
            flags = byte_at (pk_payload p) 8;
            path_sz = unat (flags AND 3);
            len = ucast (pk_payload_len p - 9) :: byte;
            offset = push_bit path_sz (pk_path_len p) in
        if offset \<ge> ucast len then do {
          meshcore_mesh_runtime_on_trace_recv h ops p trace_tag auth_code flags (pk_path p)
            (drop 9 (pk_payload p)) len;
          ret ACTION_RELEASE
        }
        else do {
          self \<leftarrow> self_identity;
          allowed \<leftarrow> (if meshcore_identity_is_hash_match_by_len self
                (drop (9 + unat offset) (pk_payload p)) (push_bit path_sz 1)
             then meshcore_mesh_runtime_allow_packet_forward h ops p else ret False);
          fresh \<leftarrow> (if allowed then unseen h p else ret False);
          if fresh then do {
            let snr = of_int (trunc (f32 (meshcore_packet_get_snr p * 4)));
            let p = p \<lparr> pk_path := mem_write (unat (pk_path_len p)) [snr] (pk_path p),
                        pk_path_len := pk_path_len p + 1 \<rparr>;
            pk_put r p;
            delay \<leftarrow> meshcore_mesh_runtime_get_direct_retransmit_delay h ops p;
            ret (retransmit_delayed 5 delay)
          }
          else ret ACTION_RELEASE
        }
      else ret ACTION_RELEASE)"

definition recv_direct_forward ::
  "'w host \<Rightarrow> ('w, 'r) mesh_ops \<Rightarrow> packet_ref \<Rightarrow> packet \<Rightarrow> ('w, 'r, u32) op" where
  "recv_direct_forward h ops r p = do {
     let payload_type = meshcore_packet_get_payload_type p;
     when_do (payload_type = PAYLOAD_TYPE_ACK \<and> 4 \<le> unat (pk_payload_len p))
       (meshcore_mesh_runtime_on_ack_recv h ops p (le_word (mem_read 0 4 (pk_payload p))));
     self \<leftarrow> self_identity;
     allowed \<leftarrow> (if meshcore_identity_is_hash_match_by_len self (pk_path p)
             (meshcore_packet_get_path_hash_size p)
        then meshcore_mesh_runtime_allow_packet_forward h ops p else ret False);
     if \<not> allowed then ret ACTION_RELEASE
     else if payload_type = PAYLOAD_TYPE_MULTIPART then meshcore_mesh_forward_multipart_direct h ops p
     else if payload_type = PAYLOAD_TYPE_ACK then do {
       fresh \<leftarrow> unseen h p;
       when_do fresh (do {
         let p = meshcore_mesh_remove_self_from_path p;
         pk_put r p;
         meshcore_mesh_route_direct_recv_acks h ops p 0
       });
       ret ACTION_RELEASE
     }
     else do {
       fresh \<leftarrow> unseen h p;
       if fresh then do {
         let p = meshcore_mesh_remove_self_from_path p;
         pk_put r p;
         delay \<leftarrow> meshcore_mesh_runtime_get_direct_retransmit_delay h ops p;
         ret (retransmit_delayed 0 delay)
       }
       else ret ACTION_RELEASE
     }
   }"

definition recv_ack :: "'w host \<Rightarrow> ('w, 'r) mesh_ops \<Rightarrow> packet_ref \<Rightarrow> packet \<Rightarrow> ('w, 'r, u32) op" where
  "recv_ack h ops r p =
     (if unat (pk_payload_len p) < 4 then ret ACTION_RELEASE
      else do {
        let ack_crc = le_word (mem_read 0 4 (pk_payload p));
        fresh \<leftarrow> unseen h p;
        if fresh then do {
          meshcore_mesh_runtime_on_ack_recv h ops p ack_crc;
          meshcore_mesh_route_recv_packet h ops r
        }
        else ret ACTION_RELEASE
      })"

text \<open>A decrypted path return of \<open>len\<close> bytes that passed the length checks.\<close>

definition recv_peer_path ::
  "'w host \<Rightarrow> ('w, 'r) mesh_ops \<Rightarrow> packet \<Rightarrow> byte \<Rightarrow> bytes \<Rightarrow> peer_identity \<Rightarrow> bytes \<Rightarrow> nat \<Rightarrow>
     ('w, 'r, unit) op" where
  "recv_peer_path h ops p src_hash secret sender data len =
     (let path_len = byte_at data 0;
          hash_size = drop_bit 6 path_len + 1;
          hash_count = path_len AND 63;
          k = 1 + unat hash_size * unat hash_count;
          path = mem_read 1 (unat hash_size * unat hash_count) data;
          extra_type = byte_at data k AND 15;
          extra = mem_read (k + 1) (len - (k + 1)) data;
          extra_len = of_nat (len - (k + 1)) in
      do {
        send_path \<leftarrow> meshcore_mesh_runtime_on_peer_path_recv h ops p sender secret path path_len
            extra_type extra extra_len;
        when_do (send_path \<and> meshcore_packet_is_route_flood p) (do {
          rpath \<leftarrow> meshcore_mesh_create_path_return_by_dest_hash h [src_hash] secret (pk_path p)
              (ucast (pk_path_len p)) 0 [] 0;
          (case rpath of None \<Rightarrow> ret () | Some r \<Rightarrow> meshcore_mesh_send_direct h r path path_len 500)
        })
      })"

text \<open>
  The loop over the peers whose hash matches.  \<open>Some found\<close> is the value of \<open>found\<close> behind the
  loop; \<open>None\<close> says that \<open>fuel\<close> rounds were not enough.
\<close>

primrec peer_loop ::
  "'w host \<Rightarrow> ('w, 'r) mesh_ops \<Rightarrow> packet \<Rightarrow> byte \<Rightarrow> nat \<Rightarrow> nat \<Rightarrow> ('w, 'r, bool option) op" where
  "peer_loop h ops p src_hash 0 cursor = ret None"
| "peer_loop h ops p src_hash (Suc fuel) cursor = do {
     (rc, sender_slot, secret, sender) \<leftarrow>
       meshcore_mesh_runtime_next_peer_shared_secret_by_hash h src_hash cursor;
     if rc \<noteq> 0 then ret (Some False)
     else do {
       let cursor = sender_slot + 1;
       let (len, data) = meshcore_utils_mac_then_decrypt (h_crypto h) secret (zeros 184) (pk_payload p) 2
             (int (unat (pk_payload_len p)) - 2);
       if len = 0 then peer_loop h ops p src_hash fuel cursor
       else if meshcore_packet_get_payload_type p = PAYLOAD_TYPE_PATH then
         if len < 2 \<or>
           1 + unat (drop_bit 6 (byte_at data 0) + 1) * unat (byte_at data 0 AND 63) + 1 > len
         then peer_loop h ops p src_hash fuel cursor
         else do { recv_peer_path h ops p src_hash secret sender data len; ret (Some True) }
       else do {
         meshcore_mesh_runtime_on_peer_data_recv h ops p (meshcore_packet_get_payload_type p) sender
           secret (mem_read 0 len data) len;
         ret (Some True)
       }
     }
   }"

definition recv_peer :: "'w host \<Rightarrow> ('w, 'r) mesh_ops \<Rightarrow> packet_ref \<Rightarrow> packet \<Rightarrow> ('w, 'r, u32) op" where
  "recv_peer h ops r p =
     (if unat (pk_payload_len p) < 2 then ret ACTION_RELEASE
      else
        let dest_hash = byte_at (pk_payload p) 0; src_hash = byte_at (pk_payload p) 1 in
        if 2 + 2 \<ge> unat (pk_payload_len p) then ret ACTION_RELEASE
        else do {
          fresh \<leftarrow> unseen h p;
          if fresh then do {
            self \<leftarrow> self_identity;
            when_do (meshcore_identity_is_hash_match self [dest_hash]) (do {
              found \<leftarrow> peer_loop h ops p src_hash (Suc (h_peer_slots h)) 0;
              when_do (found = Some True) (pk_put r (meshcore_packet_mark_do_not_retransmit p))
            });
            meshcore_mesh_route_recv_packet h ops r
          }
          else ret ACTION_RELEASE
        })"

definition recv_anon :: "'w host \<Rightarrow> ('w, 'r) mesh_ops \<Rightarrow> packet_ref \<Rightarrow> packet \<Rightarrow> ('w, 'r, u32) op" where
  "recv_anon h ops r p =
     (if unat (pk_payload_len p) < 1 + 32 then ret ACTION_RELEASE
      else
        let dest_hash = byte_at (pk_payload p) 0; sender_pub_key = drop 1 (pk_payload p) in
        if 33 + 2 \<ge> unat (pk_payload_len p) then ret ACTION_RELEASE
        else do {
          fresh \<leftarrow> unseen h p;
          if fresh then do {
            self \<leftarrow> gets co_self;
            when_do (meshcore_identity_is_hash_match (li_identity self) [dest_hash]) (do {
              let sender = meshcore_identity_init_from_pub_key meshcore_identity_init sender_pub_key;
              let secret = meshcore_local_identity_calc_shared_secret (h_ec h) self (id_pub_key sender);
              let (len, data) = meshcore_utils_mac_then_decrypt (h_crypto h) secret (zeros 184)
                    (pk_payload p) 33 (int (unat (pk_payload_len p)) - 33);
              when_do (len > 0) (do {
                meshcore_mesh_runtime_on_anon_data_recv h p secret sender (mem_read 0 len data) len;
                pk_put r (meshcore_packet_mark_do_not_retransmit p)
              })
            });
            meshcore_mesh_route_recv_packet h ops r
          }
          else ret ACTION_RELEASE
        })"

fun group_loop ::
  "'w host \<Rightarrow> ('w, 'r) mesh_ops \<Rightarrow> packet \<Rightarrow> group_channel list \<Rightarrow> ('w, 'r, unit) op" where
  "group_loop h ops p [] = ret ()"
| "group_loop h ops p (channel # channels) =
     (let (len, data) = meshcore_utils_mac_then_decrypt (h_crypto h) (gc_secret channel) (zeros 184)
            (pk_payload p) 1 (int (unat (pk_payload_len p)) - 1) in
      if len > 0 then
        meshcore_mesh_runtime_on_group_data_recv h ops p (meshcore_packet_get_payload_type p) channel
          (mem_read 0 len data) len
      else group_loop h ops p channels)"

definition recv_group :: "'w host \<Rightarrow> ('w, 'r) mesh_ops \<Rightarrow> packet_ref \<Rightarrow> packet \<Rightarrow> ('w, 'r, u32) op" where
  "recv_group h ops r p =
     (if unat (pk_payload_len p) < 1 then ret ACTION_RELEASE
      else
        let channel_hash = byte_at (pk_payload p) 0 in
        if 1 + 2 \<ge> unat (pk_payload_len p) then ret ACTION_RELEASE
        else do {
          fresh \<leftarrow> unseen h p;
          if fresh then do {
            channels \<leftarrow> meshcore_mesh_runtime_search_channels_by_hash h channel_hash 4;
            group_loop h ops p channels;
            meshcore_mesh_route_recv_packet h ops r
          }
          else ret ACTION_RELEASE
        })"

definition recv_advert :: "'w host \<Rightarrow> ('w, 'r) mesh_ops \<Rightarrow> packet_ref \<Rightarrow> packet \<Rightarrow> ('w, 'r, u32) op" where
  "recv_advert h ops r p =
     (if unat (pk_payload_len p) < 32 + 4 + 64 then ret ACTION_RELEASE
      else do {
        let identity = meshcore_identity_init_from_pub_key meshcore_identity_init (pk_payload p);
        let timestamp = (le_word (mem_read 32 4 (pk_payload p)) :: u32);
        let signature = drop 36 (pk_payload p);
        self \<leftarrow> self_identity;
        if meshcore_identity_matches_by_pub_key self (id_pub_key identity) then ret ACTION_RELEASE
        else do {
          fresh \<leftarrow> unseen h p;
          if fresh then do {
            let app_data = drop 100 (pk_payload p);
            let app_data_len = unat (pk_payload_len p) - 100;
            let app_data_len = (if app_data_len > 32 then 32 else app_data_len);
            let message = mem_read 0 32 (id_pub_key identity) @ le_bytes 4 timestamp @
                  mem_read 0 app_data_len app_data;
            if meshcore_identity_verify (h_ec h) identity signature message (int (36 + app_data_len))
            then do {
              meshcore_mesh_runtime_on_advert_recv h ops p identity timestamp app_data app_data_len;
              meshcore_mesh_route_recv_packet h ops r
            }
            else ret ACTION_RELEASE
          }
          else ret ACTION_RELEASE
        }
      })"

definition recv_raw_custom :: "'w host \<Rightarrow> ('w, 'r) mesh_ops \<Rightarrow> packet \<Rightarrow> ('w, 'r, u32) op" where
  "recv_raw_custom h ops p = do {
     fresh \<leftarrow> (if meshcore_packet_is_route_direct p then unseen h p else ret False);
     when_do fresh (meshcore_mesh_runtime_on_raw_data_recv h ops p);
     ret ACTION_RELEASE
   }"

definition recv_multipart :: "'w host \<Rightarrow> ('w, 'r) mesh_ops \<Rightarrow> packet \<Rightarrow> ('w, 'r, u32) op" where
  "recv_multipart h ops p = do {
     when_do (unat (pk_payload_len p) > 2 \<and>
          byte_at (pk_payload p) 0 AND 15 = PAYLOAD_TYPE_ACK \<and> unat (pk_payload_len p) \<ge> 5) (do {
       let tmp = multipart_ack p;
       fresh \<leftarrow> unseen h tmp;
       when_do (fresh \<and> 4 \<le> unat (pk_payload_len tmp))
         (meshcore_mesh_runtime_on_ack_recv h ops tmp (le_word (mem_read 0 4 (pk_payload tmp))))
     });
     ret ACTION_RELEASE
   }"

text \<open>The \<open>switch\<close> over the payload type.\<close>

definition recv_payload :: "'w host \<Rightarrow> ('w, 'r) mesh_ops \<Rightarrow> packet_ref \<Rightarrow> packet \<Rightarrow> ('w, 'r, u32) op" where
  "recv_payload h ops r p =
     (let payload_type = meshcore_packet_get_payload_type p in
      if payload_type = PAYLOAD_TYPE_ACK then recv_ack h ops r p
      else if payload_type = PAYLOAD_TYPE_PATH \<or> payload_type = PAYLOAD_TYPE_REQ \<or>
              payload_type = PAYLOAD_TYPE_RESPONSE \<or> payload_type = PAYLOAD_TYPE_TXT_MSG
      then recv_peer h ops r p
      else if payload_type = PAYLOAD_TYPE_ANON_REQ then recv_anon h ops r p
      else if payload_type = PAYLOAD_TYPE_GRP_DATA \<or> payload_type = PAYLOAD_TYPE_GRP_TXT
      then recv_group h ops r p
      else if payload_type = PAYLOAD_TYPE_ADVERT then recv_advert h ops r p
      else if payload_type = PAYLOAD_TYPE_RAW_CUSTOM then recv_raw_custom h ops p
      else if payload_type = PAYLOAD_TYPE_MULTIPART then recv_multipart h ops p
      else ret ACTION_RELEASE)"

definition meshcore_mesh_on_recv_packet ::
  "'w host \<Rightarrow> ('w, 'r) mesh_ops \<Rightarrow> packet_ref \<Rightarrow> ('w, 'r, u32) op" where
  "meshcore_mesh_on_recv_packet h ops r = do {
     p \<leftarrow> pk_get r;
     let payload_type = meshcore_packet_get_payload_type p;
     if meshcore_packet_is_route_direct p \<and> payload_type = PAYLOAD_TYPE_TRACE then recv_trace h ops r p
     else if meshcore_packet_is_route_direct p \<and> payload_type = PAYLOAD_TYPE_CONTROL \<and>
             unat (pk_payload_len p) > 0 \<and> byte_at (pk_payload p) 0 AND 0x80 \<noteq> 0
     then do {
       when_do (meshcore_packet_get_path_hash_count p = 0)
         (meshcore_mesh_runtime_on_control_data_recv h ops p);
       ret ACTION_RELEASE
     }
     else if meshcore_packet_is_route_direct p \<and> meshcore_packet_get_path_hash_count p > 0
     then recv_direct_forward h ops r p
     else do {
       filtered \<leftarrow> (if meshcore_packet_is_route_flood p
          then meshcore_mesh_runtime_filter_recv_flood_packet h p else ret False);
       if filtered then ret ACTION_RELEASE
       else recv_payload h ops r p
     }
   }"

section \<open>Life cycle\<close>

definition meshcore_mesh_init :: "'w host \<Rightarrow> ('w, 'r, unit) op" where
  "meshcore_mesh_init h = do {
     modify (\<lambda>s. s \<lparr> co_self := meshcore_local_identity_init \<rparr>);
     meshcore_dispatcher_init h
   }"

definition meshcore_mesh_begin :: "'w host \<Rightarrow> ('w, 'r, unit) op" where
  "meshcore_mesh_begin h = meshcore_dispatcher_begin h"

definition meshcore_mesh_loop :: "'w host \<Rightarrow> ('w, 'r) mesh_ops \<Rightarrow> ('w, 'r, unit) op" where
  "meshcore_mesh_loop h ops = meshcore_dispatcher_loop h (meshcore_mesh_on_recv_packet h ops)"

section \<open>Facts about forwarding\<close>

lemmas set_hash_count_field = hash_size_set_count hash_count_set_count

lemma set_count_frame [simp]:
  "pk_path (meshcore_packet_set_path_hash_count p n) = pk_path p"
  "pk_payload (meshcore_packet_set_path_hash_count p n) = pk_payload p"
  "pk_payload_len (meshcore_packet_set_path_hash_count p n) = pk_payload_len p"
  "pk_header (meshcore_packet_set_path_hash_count p n) = pk_header p"
  by (simp_all add: meshcore_packet_set_path_hash_count_def)

lemma unat_hash_fields:
  "unat (meshcore_packet_get_path_hash_count p) = hash_count (meshcore_packet_path_len_field p)"
  "unat (meshcore_packet_get_path_hash_size p) = hash_size (meshcore_packet_path_len_field p)"
  by (simp_all add: meshcore_packet_get_path_hash_count_def meshcore_packet_get_path_hash_size_def
      hash_count_def unat_hash_size)

lemma set_hash_count_sendable:
  assumes "sendable p" and "(unat n mod 64) * hash_size (meshcore_packet_path_len_field p) \<le> 64"
  shows "sendable (meshcore_packet_set_path_hash_count p n)"
  using assms
  by (simp add: sendable_def valid_path_len_iff path_bytes_def set_hash_count_field)

text \<open>The loop that closes the gap moves the remaining hops one place to the front.\<close>

lemma shift_loop:
  assumes "n * sz + sz \<le> length path"
  shows "foldl (\<lambda>path k. mem_write k (mem_read (k + sz) sz path) path) path (map (\<lambda>i. i * sz) [0..<n])
     = mem_write 0 (mem_read sz (n * sz) path) path"
  using assms
proof (induction n)
  case 0
  then show ?case by simp
next
  case (Suc n)
  let ?m = "mem_write 0 (mem_read sz (n * sz) path) path"
  have len: "length (mem_read sz (n * sz) path) = n * sz" using Suc.prems by simp
  have "mem_read (n * sz + sz) sz ?m = mem_read (n * sz + sz) sz path"
    using Suc.prems len by (intro mem_read_mem_write_after) simp_all
  then have "foldl (\<lambda>path k. mem_write k (mem_read (k + sz) sz path) path) path (map (\<lambda>i. i * sz) [0..<Suc n])
      = mem_write (n * sz) (mem_read (n * sz + sz) sz path) ?m"
    using Suc by simp
  also have "\<dots> = mem_write 0 (mem_read sz (n * sz) path @ mem_read (n * sz + sz) sz path) path"
    using mem_write_mem_write_append [of 0 path "mem_read sz (n * sz) path"] len by simp
  also have "mem_read sz (n * sz) path @ mem_read (n * sz + sz) sz path = mem_read sz (Suc n * sz) path"
    using mem_read_split [of sz "n * sz" sz path] by (simp add: add.commute)
  finally show ?case .
qed

lemma remove_self_eq:
  assumes "sendable p" and "hash_count (meshcore_packet_path_len_field p) > 0"
  shows "meshcore_mesh_remove_self_from_path p =
    (meshcore_packet_set_path_hash_count p (meshcore_packet_get_path_hash_count p - 1))
      \<lparr> pk_path := mem_write 0 (mem_read (hash_size (meshcore_packet_path_len_field p))
          (path_bytes (meshcore_packet_path_len_field p) - hash_size (meshcore_packet_path_len_field p))
          (pk_path p)) (pk_path p) \<rparr>"
proof -
  let ?f = "meshcore_packet_path_len_field p"
  let ?q = "meshcore_packet_set_path_hash_count p (meshcore_packet_get_path_hash_count p - 1)"
  have nz: "meshcore_packet_get_path_hash_count p \<noteq> 0"
    using assms(2) unat_hash_fields(1) [of p] by auto
  then have pred: "unat (meshcore_packet_get_path_hash_count p - 1) = hash_count ?f - 1"
    by (simp add: unat_hash_fields unat_minus_one)
  then have cnt: "hash_count (meshcore_packet_path_len_field ?q) = hash_count ?f - 1"
    using hash_count_le [of ?f] by (simp add: set_hash_count_field)
  have fit: "(hash_count ?f - 1) * hash_size ?f + hash_size ?f \<le> length (pk_path p)"
    using assms sendableD(3) [OF assms(1)]
    by (simp add: sendableD path_bytes_def diff_mult_distrib)
  show ?thesis
    using nz shift_loop [OF fit]
    by (simp add: meshcore_mesh_remove_self_from_path_def Let_def unat_hash_fields cnt
        hash_size_set_count path_bytes_def diff_mult_distrib)
qed

lemma remove_self_sendable:
  assumes "sendable p"
  shows "sendable (meshcore_mesh_remove_self_from_path p)"
proof (cases "hash_count (meshcore_packet_path_len_field p) > 0")
  case True
  let ?f = "meshcore_packet_path_len_field p"
  let ?q = "meshcore_packet_set_path_hash_count p (meshcore_packet_get_path_hash_count p - 1)"
  have nz: "meshcore_packet_get_path_hash_count p \<noteq> 0"
    using True unat_hash_fields(1) [of p] by auto
  then have "unat (meshcore_packet_get_path_hash_count p - 1) = hash_count ?f - 1"
    by (simp add: unat_hash_fields unat_minus_one)
  then have "sendable ?q"
    using hash_count_le [of ?f] sendableD(3) [OF assms]
    by (intro set_hash_count_sendable [OF assms]) (simp add: path_bytes_def diff_mult_distrib)
  then show ?thesis
    using length_mem_read_le [of "hash_size ?f" "path_bytes ?f - hash_size ?f" "pk_path p"]
      sendableD(1,3) [OF assms]
    unfolding remove_self_eq [OF assms True]
    by (simp add: sendable_def packet_wf_def meshcore_packet_path_len_field_def)
next
  case False
  then have "meshcore_packet_get_path_hash_count p = 0"
    using unat_hash_fields(1) [of p] by (simp add: word_unat_eq_iff)
  then show ?thesis using assms by (simp add: meshcore_mesh_remove_self_from_path_def)
qed

lemma retransmit_delayed_action:
  assumes "unat pri < 255"
  shows "retransmit_delayed pri delay \<noteq> ACTION_RELEASE" "retransmit_delayed pri delay \<noteq> ACTION_MANUAL_HOLD"
proof -
  let ?y = "1 + ucast pri :: u32"
  have y: "unat ?y = 1 + unat pri"
    using assms by (simp add: unat_word_ariths unsigned_ucast_eq take_bit_nat_eq_self)
  have shift: "drop_bit 24 (push_bit 24 w) = w" if "unat w < 256" for w :: u32
    using that by (simp add: word_unat_eq_iff drop_bit_eq_div push_bit_eq_mult unat_div unat_word_ariths(2))
  have "drop_bit 24 (push_bit 24 ?y) = ?y" by (rule shift) (use y assms in simp)
  then have "drop_bit 24 (retransmit_delayed pri delay) = ?y OR drop_bit 24 delay"
    by (simp add: retransmit_delayed_def)
  moreover have "?y \<noteq> 0" using y by (metis add_is_0 unat_0 zero_neq_one)
  ultimately have "drop_bit 24 (retransmit_delayed pri delay) \<noteq> 0" by (simp add: or_eq_0_iff)
  then show "retransmit_delayed pri delay \<noteq> ACTION_RELEASE" "retransmit_delayed pri delay \<noteq> ACTION_MANUAL_HOLD"
    by (auto simp: drop_bit_eq_div)
qed

text \<open>A packet grown by one byte of path in a trace.\<close>

lemma trace_step_sendable:
  assumes "sendable p" and "pk_path_len p < 64"
  shows "sendable (p \<lparr> pk_path := mem_write (unat (pk_path_len p)) [b] (pk_path p),
      pk_path_len := pk_path_len p + 1 \<rparr>)"
proof -
  have lt: "unat (pk_path_len p) < 64" using assms(2) by (simp add: word_less_nat_alt)
  have "\<forall>k<64. meshcore_packet_is_valid_path_len (of_nat (k + 1))" by code_simp
  moreover have "(of_nat (unat (pk_path_len p) + 1) :: byte) = ucast (pk_path_len p + 1)"
    using lt by (simp add: word_unat_eq_iff unat_word_ariths unsigned_of_nat unsigned_ucast_eq take_bit_nat_eq_self)
  ultimately have "meshcore_packet_is_valid_path_len (ucast (pk_path_len p + 1))" using lt by metis
  then show ?thesis
    using assms lt by (simp add: sendable_def packet_wf_def meshcore_packet_path_len_field_def)
qed

lemma mark_sendable: "sendable p \<Longrightarrow> sendable (meshcore_packet_mark_do_not_retransmit p)"
  by (simp add: sendable_def meshcore_packet_mark_do_not_retransmit_def meshcore_packet_path_len_field_def)

lemma sendable_wf: "sendable p \<Longrightarrow> packet_wf p"
  by (simp add: sendable_def)

section \<open>The contract of the receive function\<close>

lemma calm_make_then:
  assumes "makes R \<Phi> m" and "\<And>r. takes R r \<Phi> (f r)" and "calm R k"
  shows "calm R (State_Monad.bind m (\<lambda>x. State_Monad.bind (case x of None \<Rightarrow> ret () | Some r \<Rightarrow> f r) (\<lambda>_. k)))"
  unfolding State_Monad.bind_assoc [symmetric]
  by (rule calm_bind [OF calm_bind_makes_case [OF assms(1) calm_return assms(2)] assms(3)])

lemma serves_put_bind:
  "packet_wf p \<Longrightarrow> (\<And>x. serves R r (\<lambda>q. q = p) \<Psi> (k x)) \<Longrightarrow>
   serves R r \<Phi> \<Psi> (State_Monad.bind (pk_put r p) k)"
  by (rule serves_bind [OF serves_put])

lemma serves_calm:
  assumes "calm R m" and "\<And>a p. packet_wf p \<Longrightarrow> \<Phi> p \<Longrightarrow> \<Psi> a p"
  shows "serves R r \<Phi> \<Psi> m"
  unfolding serves_def
  by (intro allI impI, rule triple_post [OF calmD [OF assms(1)]])
     (use assms(2) in \<open>metis fun_upd_triv\<close>)

lemma serves_when_do:
  "serves R r \<Phi> (\<lambda>_. \<Psi>) m \<Longrightarrow> (\<And>p. packet_wf p \<Longrightarrow> \<Phi> p \<Longrightarrow> \<Psi> p) \<Longrightarrow> serves R r \<Phi> (\<lambda>_. \<Psi>) (when_do b m)"
  by (simp add: when_do_def serves_ret)

text \<open>What the dispatcher is promised: release, or retransmit a packet that fits.\<close>

abbreviation action_ok :: "u32 \<Rightarrow> packet \<Rightarrow> bool" where
  "action_ok a p \<equiv> a \<noteq> 1 \<and> (a \<noteq> 0 \<longrightarrow> sendable p)"

lemma serves_release: "serves R r \<Phi> action_ok (ret ACTION_RELEASE)"
  by (rule serves_ret) simp

lemma takes_send_along:
  assumes "length (pk_path p) = 64"
  shows "takes R r \<Phi> (send_along h p r delay)"
  unfolding send_along_def case_prod_unfold
  by (intro takes_get takes_Let takes_put takes_send_packet) (simp add: packet_wf_def length_copy_path)

lemma multipart_ack_wf:
  assumes "sendable p" and "pk_payload_len p \<noteq> 0"
  shows "sendable (multipart_ack p)"
proof -
  have "unat (pk_payload_len p - 1) = unat (pk_payload_len p) - 1"
    using assms(2) by (simp add: unat_minus_one)
  moreover have "(ucast (ucast (ucast (pk_path_len p) :: byte) :: u16) :: byte) = ucast (pk_path_len p)"
    by (rule bit_word_eqI) (simp add: bit_unsigned_iff)
  ultimately show ?thesis
    using assms(1) length_copy_path [of "zeros 64" "pk_path p" "ucast (pk_path_len p)"]
      length_mem_read_le [of 1 "unat (pk_payload_len p) - 1" "pk_payload p"]
    by (simp add: multipart_ack_def Let_def case_prod_unfold sendable_def packet_wf_def
        meshcore_packet_init_def meshcore_packet_path_len_field_def)
       (auto simp: meshcore_packet_copy_path_def)
qed

text \<open>The registered handlers leave the packets of the mesh layer alone.\<close>

locale mesh_handlers =
  fixes R :: "'r \<Rightarrow> bool" and h :: "'w host" and ops :: "('w, 'r) mesh_ops"
  assumes allow: "op_allow_packet_forward ops = Some f1 \<Longrightarrow> calm R (f1 p)"
    and delay: "op_get_retransmit_delay ops = Some f2 \<Longrightarrow> calm R (f2 p)"
    and direct_delay: "op_get_direct_retransmit_delay ops = Some f3 \<Longrightarrow> calm R (f3 p)"
    and peer_data: "op_on_peer_data_recv ops = Some f4 \<Longrightarrow> calm R (f4 p ty sender secret data len)"
    and trace: "op_on_trace_recv ops = Some f5 \<Longrightarrow> calm R (f5 p tag auth flags snrs hashes path_len)"
    and peer_path: "op_on_peer_path_recv ops = Some f6 \<Longrightarrow>
      calm R (f6 p sender secret path path_len extra_type extra extra_len)"
    and advert: "op_on_advert_recv ops = Some f7 \<Longrightarrow> calm R (f7 p identity timestamp app len)"
    and control: "op_on_control_data_recv ops = Some f8 \<Longrightarrow> calm R (f8 p)"
    and raw: "op_on_raw_data_recv ops = Some f9 \<Longrightarrow> calm R (f9 p)"
    and group: "op_on_group_data_recv ops = Some f10 \<Longrightarrow> calm R (f10 p ty channel data len)"
    and ack: "op_on_ack_recv ops = Some f11 \<Longrightarrow> calm R (f11 p crc)"
begin

lemma calm_handlers [calm_rules]:
  "calm R (meshcore_mesh_runtime_allow_packet_forward h ops p)"
  "calm R (meshcore_mesh_runtime_get_retransmit_delay h ops p)"
  "calm R (meshcore_mesh_runtime_get_direct_retransmit_delay h ops p)"
  "calm R (meshcore_mesh_runtime_on_peer_data_recv h ops p ty sender secret data len)"
  "calm R (meshcore_mesh_runtime_on_trace_recv h ops p tag auth flags snrs hashes plen)"
  "calm R (meshcore_mesh_runtime_on_peer_path_recv h ops p sender secret path plen extra_type extra extra_len)"
  "calm R (meshcore_mesh_runtime_on_advert_recv h ops p identity timestamp app alen)"
  "calm R (meshcore_mesh_runtime_on_control_data_recv h ops p)"
  "calm R (meshcore_mesh_runtime_on_raw_data_recv h ops p)"
  "calm R (meshcore_mesh_runtime_on_group_data_recv h ops p ty channel data len)"
  "calm R (meshcore_mesh_runtime_on_ack_recv h ops p crc)"
  unfolding meshcore_mesh_runtime_allow_packet_forward_def meshcore_mesh_runtime_get_retransmit_delay_def
    meshcore_mesh_runtime_get_direct_retransmit_delay_def meshcore_mesh_runtime_on_peer_data_recv_def
    meshcore_mesh_runtime_on_trace_recv_def meshcore_mesh_runtime_on_peer_path_recv_def
    meshcore_mesh_runtime_on_advert_recv_def meshcore_mesh_runtime_on_control_data_recv_def
    meshcore_mesh_runtime_on_raw_data_recv_def meshcore_mesh_runtime_on_group_data_recv_def
    meshcore_mesh_runtime_on_ack_recv_def
  by (auto split: option.split
      intro: calm_bridge allow delay direct_delay peer_data trace peer_path advert control raw group ack)

lemma calm_host_handlers [calm_rules]:
  "calm R (meshcore_mesh_runtime_get_extra_ack_transmit_count h)"
  "calm R (meshcore_mesh_runtime_next_peer_shared_secret_by_hash h hash slot)"
  "calm R (meshcore_mesh_runtime_on_anon_data_recv h p secret identity data len)"
  "calm R (meshcore_mesh_runtime_filter_recv_flood_packet h p)"
  "calm R (meshcore_mesh_runtime_search_channels_by_hash h hash n)"
  unfolding meshcore_mesh_runtime_get_extra_ack_transmit_count_def
    meshcore_mesh_runtime_next_peer_shared_secret_by_hash_def
    meshcore_mesh_runtime_on_anon_data_recv_def meshcore_mesh_runtime_filter_recv_flood_packet_def
    meshcore_mesh_runtime_search_channels_by_hash_def
  by (intro calm_bridge calm_bridge_search)+

lemma calm_unseen [calm_rules]: "calm R (unseen h p)"
  unfolding unseen_def by (intro calm_rules)

lemma calm_extra_acks:
  "length (pk_path p) = 64 \<Longrightarrow> calm R (extra_acks_loop h ops p n d)"
proof (induction n arbitrary: d)
  case 0
  then show ?case by (simp add: calm_return)
next
  case (Suc n)
  show ?case
    unfolding extra_acks_loop.simps
    by (rule calm_bind [OF calm_handlers(3)], rule calm_Let,
        rule calm_make_then [OF makes_create_multi_ack_data takes_send_along [OF Suc.prems] Suc.IH [OF Suc.prems]])
qed

lemma calm_route_acks:
  assumes "length (pk_path p) = 64"
  shows "calm R (meshcore_mesh_route_direct_recv_acks h ops p d)"
  unfolding meshcore_mesh_route_direct_recv_acks_def
  by (intro calm_if calm_return calm_bind calm_host_handlers calm_extra_acks [OF assms]
      calm_bind_makes_case [OF makes_create_ack_data calm_return takes_send_along [OF assms]])

lemma serves_route_recv: "serves R r sendable action_ok (meshcore_mesh_route_recv_packet h ops r)"
proof -
  have step: "serves R r (\<lambda>q. q = p) action_ok (do {
       self \<leftarrow> self_identity;
       let path = snd (meshcore_identity_copy_hash_by_len self
             (unat (meshcore_packet_get_path_hash_count p) * unat (meshcore_packet_get_path_hash_size p))
             (pk_path p) (meshcore_packet_get_path_hash_size p));
       let p = meshcore_packet_set_path_hash_count (p \<lparr> pk_path := path \<rparr>)
             (meshcore_packet_get_path_hash_count p + 1);
       pk_put r p;
       delay \<leftarrow> meshcore_mesh_runtime_get_retransmit_delay h ops p;
       ret (retransmit_delayed (meshcore_packet_get_path_hash_count p) delay)
     })"
    if p: "sendable p"
      and room: "(unat (meshcore_packet_get_path_hash_count p) + 1) * unat (meshcore_packet_get_path_hash_size p) \<le> 64"
    for p
  proof -
    let ?f = "meshcore_packet_path_len_field p"
    have succ: "unat (meshcore_packet_get_path_hash_count p + 1) = hash_count ?f + 1"
      using hash_count_le [of ?f] by (simp add: unat_word_ariths unat_hash_fields)
    have grown: "sendable (meshcore_packet_set_path_hash_count (p \<lparr> pk_path := path \<rparr>)
        (meshcore_packet_get_path_hash_count p + 1))" if "length path = 64" for path
    proof (rule set_hash_count_sendable)
      show "sendable (p \<lparr> pk_path := path \<rparr>)"
        using p that by (simp add: sendable_def packet_wf_def meshcore_packet_path_len_field_def)
      have "(hash_count ?f + 1) mod 64 * hash_size ?f \<le> (hash_count ?f + 1) * hash_size ?f"
        by (intro mult_le_mono1) simp
      then show "unat (meshcore_packet_get_path_hash_count p + 1) mod 64 *
          hash_size (meshcore_packet_path_len_field (p \<lparr> pk_path := path \<rparr>)) \<le> 64"
        using room unfolding succ by (simp add: unat_hash_fields meshcore_packet_path_len_field_def)
    qed
    have len: "length (snd (meshcore_identity_copy_hash_by_len self
        (unat (meshcore_packet_get_path_hash_count p) * unat (meshcore_packet_get_path_hash_size p))
        (pk_path p) (meshcore_packet_get_path_hash_size p))) = 64" for self
      using room sendableD(1) [OF p]
      by (simp add: meshcore_identity_copy_hash_by_len_def add.commute)
    have pri: "unat (meshcore_packet_get_path_hash_count q) < 255" for q
      using hash_count_le [of "meshcore_packet_path_len_field q"] by (simp add: unat_hash_fields)
    show ?thesis
      unfolding Let_def
      by (rule serves_calm_bind [OF calm_self_identity], rule serves_put_bind,
          rule sendable_wf [OF grown [OF len]], rule serves_calm_bind [OF calm_handlers(2)], rule serves_ret)
         (use retransmit_delayed_action [OF pri] grown [OF len] in simp)
  qed
  show ?thesis
    unfolding meshcore_mesh_route_recv_packet_def Let_def
  proof (rule serves_get, goal_cases)
    case (1 p)
    show ?case
    proof (cases "meshcore_packet_is_route_flood p \<and> \<not> meshcore_packet_is_marked_do_not_retransmit p \<and>
          (unat (meshcore_packet_get_path_hash_count p) + 1) * unat (meshcore_packet_get_path_hash_size p) \<le> 64")
      case True
      show ?thesis
        unfolding if_P [OF True]
        by (rule serves_calm_bind [OF calm_handlers(1)], rule serves_if,
            rule step [OF 1(2), unfolded Let_def], use True in simp, rule serves_release)
    next
      case False
      show ?thesis unfolding if_not_P [OF False] by (simp add: serves_release)
    qed
  qed
qed

lemma serves_trace: "sendable p \<Longrightarrow> serves R r (\<lambda>q. q = p) action_ok (recv_trace h ops r p)"
proof -
  assume p: "sendable p"
  have allowed: "calm R (if b then meshcore_mesh_runtime_allow_packet_forward h ops p else ret False)" for b
    by (intro calm_if calm_handlers calm_return)
  have fresh: "calm R (if b then unseen h p else ret False)" for b
    by (intro calm_if calm_unseen calm_return)
  have forward: "serves R r (\<lambda>q. q = p) action_ok (do {
       pk_put r (p \<lparr> pk_path := mem_write (unat (pk_path_len p)) [b] (pk_path p),
                     pk_path_len := pk_path_len p + 1 \<rparr>);
       delay \<leftarrow> meshcore_mesh_runtime_get_direct_retransmit_delay h ops (p
                 \<lparr> pk_path := mem_write (unat (pk_path_len p)) [b] (pk_path p),
                   pk_path_len := pk_path_len p + 1 \<rparr>);
       ret (retransmit_delayed 5 delay) })" if "pk_path_len p < 64" for b
    using trace_step_sendable [OF p that] retransmit_delayed_action [of 5]
    by (intro serves_put_bind [OF sendable_wf [OF trace_step_sendable [OF p that]]] serves_calm_bind
        calm_handlers serves_ret) simp
  have deliver: "serves R r (\<lambda>q. q = p) action_ok (do {
       meshcore_mesh_runtime_on_trace_recv h ops p t a f x y l; ret ACTION_RELEASE })" for t a f x y l
    by (rule serves_calm_bind [OF calm_handlers(5) serves_release])
  show ?thesis
    unfolding recv_trace_def Let_def
    by (rule serves_if, rule serves_if, rule deliver, rule serves_calm_bind [OF calm_self_identity],
        rule serves_calm_bind [OF allowed], rule serves_calm_bind [OF fresh], rule serves_if, rule forward,
        simp, rule serves_release, rule serves_release)
qed

lemma serves_direct_forward:
  assumes p: "sendable p"
  shows "serves R r (\<lambda>q. q = p) action_ok (recv_direct_forward h ops r p)"
proof -
  note removed = remove_self_sendable [OF p]
  have allowed: "calm R (if b then meshcore_mesh_runtime_allow_packet_forward h ops p else ret False)" for b
    by (intro calm_if calm_handlers calm_return)
  have multipart: "serves R r (\<lambda>q. q = p) action_ok (meshcore_mesh_forward_multipart_direct h ops p)"
  proof -
    have acks: "calm R (when_do b (do {
         seen \<leftarrow> meshcore_mesh_tables_has_seen h (multipart_ack p);
         when_do (\<not> seen) (meshcore_mesh_route_direct_recv_acks h ops
           (meshcore_mesh_remove_self_from_path (multipart_ack p)) d) }))"
      if "pk_payload_len p \<noteq> 0" for b d
      by (rule calm_when_do, rule calm_bind [OF calm_has_seen], rule calm_when_do, rule calm_route_acks,
          rule sendableD(1) [OF remove_self_sendable [OF multipart_ack_wf [OF p that]]])
    show ?thesis
      unfolding meshcore_mesh_forward_multipart_direct_def Let_def
      by (rule serves_if, rule serves_release, rule serves_calm_bind [OF acks serves_release])
  qed
  have acks: "serves R r (\<lambda>q. q = p) (\<lambda>_ _. True) (when_do fresh (do {
         pk_put r (meshcore_mesh_remove_self_from_path p);
         meshcore_mesh_route_direct_recv_acks h ops (meshcore_mesh_remove_self_from_path p) 0 }))" for fresh
  proof (rule serves_when_do, rule serves_put_bind [OF sendable_wf [OF removed]])
    show "serves R r (\<lambda>q. q = meshcore_mesh_remove_self_from_path p) (\<lambda>_ _. True)
        (meshcore_mesh_route_direct_recv_acks h ops (meshcore_mesh_remove_self_from_path p) 0)" for x :: unit
      by (rule serves_calm [OF calm_route_acks [OF sendableD(1) [OF removed]]]) simp
  qed simp
  have forward: "serves R r (\<lambda>q. q = p) action_ok (do {
         pk_put r (meshcore_mesh_remove_self_from_path p);
         delay \<leftarrow> meshcore_mesh_runtime_get_direct_retransmit_delay h ops (meshcore_mesh_remove_self_from_path p);
         ret (retransmit_delayed 0 delay) })"
    using removed retransmit_delayed_action [of 0]
    by (intro serves_put_bind [OF sendable_wf [OF removed]] serves_calm_bind calm_handlers serves_ret) simp
  have ackw: "calm R (when_do b (meshcore_mesh_runtime_on_ack_recv h ops p crc))" for b crc
    by (intro calm_when_do calm_handlers)
  show ?thesis
    unfolding recv_direct_forward_def Let_def
    by (rule serves_calm_bind [OF ackw], rule serves_calm_bind [OF calm_self_identity],
        rule serves_calm_bind [OF allowed], rule serves_if, rule serves_release, rule serves_if,
        rule multipart, rule serves_if, rule serves_calm_bind [OF calm_unseen],
        rule serves_bind [OF acks serves_release], rule serves_calm_bind [OF calm_unseen],
        rule serves_if, rule forward, rule serves_release)
qed

text \<open>The loops over peers and channels.\<close>

lemma calm_peer_path: "calm R (recv_peer_path h ops p src secret sender data len)"
  unfolding recv_peer_path_def Let_def
  by (intro calm_bind calm_handlers calm_when_do
      calm_bind_makes_case [OF makes_create_path_return calm_return takes_send_direct])

lemma calm_peer_loop: "calm R (peer_loop h ops p src fuel cursor)"
proof (induction fuel arbitrary: cursor)
  case 0
  then show ?case by (simp add: calm_return)
next
  case (Suc fuel)
  show ?case
    unfolding peer_loop.simps
    by (intro calm_bind calm_host_handlers calm_case_prod calm_if calm_return calm_Let calm_peer_path
        calm_handlers Suc.IH)
qed

lemma calm_group_loop: "calm R (group_loop h ops p channels)"
proof (induction channels)
  case Nil
  then show ?case by (simp add: calm_return)
next
  case (Cons channel channels)
  then show ?case
    unfolding group_loop.simps by (intro calm_Let calm_case_prod calm_if calm_handlers Cons.IH)
qed

text \<open>Delivery to a peer, anonymously or to a channel, then the flood goes on.\<close>

lemma serves_mark: "sendable p \<Longrightarrow> serves R r (\<lambda>q. q = p) (\<lambda>_. sendable)
    (pk_put r (meshcore_packet_mark_do_not_retransmit p))"
  by (rule serves_mono [OF serves_put]) (auto simp: mark_sendable sendable_wf)

lemma serves_ack: "sendable p \<Longrightarrow> serves R r (\<lambda>q. q = p) action_ok (recv_ack h ops r p)"
  unfolding recv_ack_def Let_def
  by (intro serves_if serves_release serves_calm_bind calm_unseen calm_handlers
      serves_mono [OF serves_route_recv]) simp_all

lemma serves_peer: "sendable p \<Longrightarrow> serves R r (\<lambda>q. q = p) action_ok (recv_peer h ops r p)"
proof -
  assume p: "sendable p"
  have deliver: "serves R r (\<lambda>q. q = p) (\<lambda>_. sendable) (when_do b (do {
       found \<leftarrow> peer_loop h ops p src fuel cursor;
       when_do (found = Some True) (pk_put r (meshcore_packet_mark_do_not_retransmit p)) }))"
    for b src fuel cursor
    using p by (intro serves_when_do serves_calm_bind calm_peer_loop serves_mark) simp_all
  show ?thesis
    unfolding recv_peer_def Let_def
    by (rule serves_if, rule serves_release, rule serves_if, rule serves_release,
        rule serves_calm_bind [OF calm_unseen], rule serves_if, rule serves_calm_bind [OF calm_self_identity],
        rule serves_bind [OF deliver serves_route_recv], rule serves_release)
qed

lemma serves_anon: "sendable p \<Longrightarrow> serves R r (\<lambda>q. q = p) action_ok (recv_anon h ops r p)"
proof -
  assume p: "sendable p"
  have deliver: "serves R r (\<lambda>q. q = p) (\<lambda>_. sendable) (when_do b (case x of (len, data) \<Rightarrow>
       when_do (len > 0) (do {
         meshcore_mesh_runtime_on_anon_data_recv h p secret sender (mem_read 0 len data) len;
         pk_put r (meshcore_packet_mark_do_not_retransmit p) })))" for b x secret sender
    using p unfolding case_prod_unfold
    by (intro serves_when_do serves_calm_bind calm_host_handlers serves_mark) simp_all
  show ?thesis
    unfolding recv_anon_def Let_def
    by (rule serves_if, rule serves_release, rule serves_if, rule serves_release,
        rule serves_calm_bind [OF calm_unseen], rule serves_if, rule serves_calm_bind [OF calm_gets],
        rule serves_bind [OF deliver serves_route_recv], rule serves_release)
qed

lemma serves_group: "sendable p \<Longrightarrow> serves R r (\<lambda>q. q = p) action_ok (recv_group h ops r p)"
  unfolding recv_group_def Let_def
  by (intro serves_if serves_release serves_calm_bind calm_unseen calm_host_handlers calm_group_loop
      serves_mono [OF serves_route_recv]) simp_all

lemma serves_advert: "sendable p \<Longrightarrow> serves R r (\<lambda>q. q = p) action_ok (recv_advert h ops r p)"
  unfolding recv_advert_def Let_def
  by (intro serves_if serves_release serves_calm_bind calm_unseen calm_self_identity calm_handlers
      serves_mono [OF serves_route_recv]) simp_all

lemma serves_raw_custom: "serves R r (\<lambda>q. q = p) action_ok (recv_raw_custom h ops p)"
  unfolding recv_raw_custom_def
  by (intro serves_calm_bind serves_release calm_if calm_unseen calm_return calm_when_do calm_handlers)

lemma serves_multipart: "serves R r (\<lambda>q. q = p) action_ok (recv_multipart h ops p)"
  unfolding recv_multipart_def Let_def
  by (intro serves_calm_bind serves_release calm_bind calm_unseen calm_when_do calm_handlers)

lemma serves_payload: "sendable p \<Longrightarrow> serves R r (\<lambda>q. q = p) action_ok (recv_payload h ops r p)"
  unfolding recv_payload_def Let_def
  by (intro serves_if serves_ack serves_peer serves_anon serves_group serves_advert serves_raw_custom
      serves_multipart serves_release)

lemma serves_on_recv: "serves R r sendable action_ok (meshcore_mesh_on_recv_packet h ops r)"
proof -
  have control: "calm R (when_do b (meshcore_mesh_runtime_on_control_data_recv h ops p))" for b p
    by (intro calm_when_do calm_handlers)
  have filtered: "calm R (if b then meshcore_mesh_runtime_filter_recv_flood_packet h p else ret False)" for b p
    by (intro calm_if calm_host_handlers calm_return)
  show ?thesis
    unfolding meshcore_mesh_on_recv_packet_def Let_def
    by (rule serves_get, rule serves_if, erule serves_trace, rule serves_if,
        rule serves_calm_bind [OF control serves_release], rule serves_if, erule serves_direct_forward,
        rule serves_calm_bind [OF filtered], rule serves_if, rule serves_release, erule serves_payload)
qed

end

sublocale mesh_handlers \<subseteq> mesh_receiver: recv_handler R "meshcore_mesh_on_recv_packet h ops"
  by unfold_locales (rule serves_on_recv)

text \<open>A node without registered handlers: everything goes to the host.\<close>

interpretation host_only: mesh_handlers R h no_ops
  for R :: "'r \<Rightarrow> bool" and h :: "'w host"
  by unfold_locales (simp_all add: no_ops_def)

section \<open>Properties\<close>

definition example_core :: "(unit, unit) core" where
  "example_core = example_sender \<lparr> co_mgr := mgr_set_packet 0 example_packet (co_mgr example_sender) \<rparr>"

definition example_flood :: "(unit, unit) core" where
  "example_flood = example_core \<lparr> co_mgr := mgr_set_packet 0 (example_packet \<lparr> pk_header := 1 \<rparr>) (co_mgr example_core) \<rparr>"

text \<open>The hops that a packet has recorded.\<close>

definition recorded_path :: "packet \<Rightarrow> bytes" where
  "recorded_path p = mem_read 0 (path_bytes (meshcore_packet_path_len_field p)) (pk_path p)"

text \<open>
  A node on a direct route takes itself off the path: the first hop is dropped, the others move up, and
  hash size, header and payload stay as they are.
\<close>

theorem remove_self_drops_first_hop:
  assumes "sendable p" and "hash_count (meshcore_packet_path_len_field p) = Suc n"
    and "q = meshcore_mesh_remove_self_from_path p"
  shows "recorded_path q = drop (hash_size (meshcore_packet_path_len_field p)) (recorded_path p) \<and>
    hash_count (meshcore_packet_path_len_field q) = n \<and>
    hash_size (meshcore_packet_path_len_field q) = hash_size (meshcore_packet_path_len_field p) \<and>
    pk_header q = pk_header p \<and> pk_payload q = pk_payload p \<and> pk_payload_len q = pk_payload_len p"
proof -
  let ?f = "meshcore_packet_path_len_field p"
  have nz: "meshcore_packet_get_path_hash_count p \<noteq> 0"
    using assms(2) unat_hash_fields(1) [of p] by auto
  then have "unat (meshcore_packet_get_path_hash_count p - 1) = n"
    using assms(2) by (simp add: unat_hash_fields unat_minus_one)
  moreover have "meshcore_packet_path_len_field q = meshcore_packet_path_len_field
      (meshcore_packet_set_path_hash_count p (meshcore_packet_get_path_hash_count p - 1))"
    using remove_self_eq [OF assms(1)] assms(2) by (simp add: assms(3) meshcore_packet_path_len_field_def)
  ultimately have cnt: "hash_count (meshcore_packet_path_len_field q) = n"
    and sz: "hash_size (meshcore_packet_path_len_field q) = hash_size ?f"
    using assms(2) hash_count_le [of ?f] by (simp_all add: set_hash_count_field)
  have fit: "path_bytes ?f = n * hash_size ?f + hash_size ?f" "path_bytes ?f \<le> 64" "length (pk_path p) = 64"
    using sendableD [OF assms(1)] by (simp_all add: path_bytes_def assms(2))
  have bytes: "path_bytes (meshcore_packet_path_len_field q) = n * hash_size ?f" by (simp add: path_bytes_def cnt sz)
  have path: "pk_path q = mem_write 0 (mem_read (hash_size ?f) (n * hash_size ?f) (pk_path p)) (pk_path p)"
    using remove_self_eq [OF assms(1)] assms(2) fit(1) by (simp add: assms(3))
  have "recorded_path q = drop (hash_size ?f) (recorded_path p)"
    unfolding recorded_path_def bytes path fit(1)
    using fit by (simp add: mem_read_def mem_write_def drop_take)
  then show ?thesis
    using cnt sz remove_self_eq [OF assms(1)] assms(2) by (simp add: assms(3))
qed

theorem remove_self_drops_first_hop_witness:
  "recorded_path (meshcore_mesh_remove_self_from_path example_packet) = [3, 4]"
proof -
  have "recorded_path example_packet = [1, 2, 3, 4]" "hash_size (meshcore_packet_path_len_field example_packet) = 2"
    "hash_count (meshcore_packet_path_len_field example_packet) = Suc 1" by code_simp+
  then show ?thesis
    using remove_self_drops_first_hop [OF example_packet_sendable(1) _ refl, of 1] by simp
qed

text \<open>
  C12. An advert whose signature does not verify has no effect beyond the table of packets seen: no handler
  of the node or of the host is called, nothing is queued, and the packet is released.
\<close>

theorem forged_advert_ignored:
  assumes "identity = meshcore_identity_init_from_pub_key meshcore_identity_init (pk_payload p)"
    and "n = min 32 (unat (pk_payload_len p) - 100)"
    and "\<not> meshcore_identity_verify (h_ec h) identity (drop 36 (pk_payload p))
      (mem_read 0 32 (id_pub_key identity) @ le_bytes 4 (le_word (mem_read 32 4 (pk_payload p)) :: u32) @
        mem_read 0 n (drop 100 (pk_payload p))) (int (36 + n))"
    and "run_state (recv_advert h ops r p) s = (action, s')"
  shows "action = ACTION_RELEASE \<and> s' = s \<lparr> co_tables := co_tables s' \<rparr>"
proof -
  have n: "(if unat (pk_payload_len p) - 100 > 32 then 32 else unat (pk_payload_len p) - 100) = n"
    by (simp add: assms(2))
  show ?thesis
    using assms(4) assms(3)
    unfolding recv_advert_def Let_def n assms(1) [symmetric]
    by (auto simp: self_identity_def unseen_def meshcore_mesh_tables_has_seen_def gets_def Let_def
        split: if_splits prod.splits)
qed

theorem forged_advert_ignored_witness:
  "fst (run_state (recv_advert (example_host \<lparr> h_ec := zero_curve \<lparr> ec_ed25519_check := \<lambda>_ _ _. - 1 \<rparr> \<rparr>)
     (no_ops :: (unit, unit) mesh_ops) 0 (meshcore_packet_init \<lparr> pk_payload_len := 110 \<rparr>)) example_core) = ACTION_RELEASE"
proof -
  let ?h = "example_host \<lparr> h_ec := zero_curve \<lparr> ec_ed25519_check := \<lambda>_ _ _. - 1 \<rparr> \<rparr>"
  have "\<not> meshcore_identity_verify (h_ec ?h) i sig m n" for i sig m n
    by (simp add: meshcore_identity_verify_def zero_curve_def)
  from forged_advert_ignored [OF refl refl this prod.collapse [symmetric]] show ?thesis by blast
qed

lemma peer_loop_step:
  assumes "run_state (h_next_peer_shared_secret h src cursor) (co_world s) = ((rc, slot, secret, sender), w)"
  shows "(\<exists>found s'. \<forall>fuel. run_state (peer_loop h ops p src (Suc fuel) cursor) s = (Some found, s')) \<or>
    rc = 0 \<and> (\<forall>fuel. run_state (peer_loop h ops p src (Suc fuel) cursor) s =
       run_state (peer_loop h ops p src fuel (slot + 1)) (s \<lparr> co_world := w \<rparr>))"
  using assms
  by (auto simp: meshcore_mesh_runtime_next_peer_shared_secret_by_hash_def
      meshcore_platform_bridge_mesh_next_peer_shared_secret_by_hash_def call_def Let_def split_beta)

lemma peer_loop_ends:
  assumes "\<forall>hash start w slot secret peer w'.
      run_state (h_next_peer_shared_secret h hash start) w = ((0, slot, secret, peer), w') \<longrightarrow>
      start \<le> slot \<and> slot < h_peer_slots h"
    and "cursor \<le> h_peer_slots h" and "h_peer_slots h < cursor + fuel"
  shows "\<exists>found s'. \<forall>k. run_state (peer_loop h ops p src (fuel + k) cursor) s = (Some found, s')"
  using assms(2,3)
proof (induction fuel arbitrary: cursor s)
  case 0
  then show ?case by simp
next
  case (Suc fuel)
  obtain rc slot secret sender w where
    run: "run_state (h_next_peer_shared_secret h src cursor) (co_world s) = ((rc, slot, secret, sender), w)"
    by (metis prod.exhaust)
  from peer_loop_step [OF run, of ops p] show ?case
  proof
    assume "\<exists>found s'. \<forall>fuel. run_state (peer_loop h ops p src (Suc fuel) cursor) s = (Some found, s')"
    then show ?case by (auto simp del: peer_loop.simps)
  next
    assume again: "rc = 0 \<and> (\<forall>fuel. run_state (peer_loop h ops p src (Suc fuel) cursor) s =
       run_state (peer_loop h ops p src fuel (slot + 1)) (s \<lparr> co_world := w \<rparr>))"
    then have "cursor \<le> slot" "slot < h_peer_slots h" using run assms(1) by blast+
    then have "slot + 1 \<le> h_peer_slots h" "h_peer_slots h < (slot + 1) + fuel" using Suc.prems by simp_all
    from Suc.IH [OF this] again show ?case by (simp del: peer_loop.simps)
  qed
qed

text \<open>
  C22. The search for the peer that encrypted a packet ends.  When the host returns slots of its table at or
  after the slot it is asked to start from, one round per slot and a last one are
  enough for the loop to come to a result, and more rounds do not change it.
\<close>

theorem peer_search_ends:
  assumes "\<forall>hash start w slot secret peer w'.
      run_state (h_next_peer_shared_secret h hash start) w = ((0, slot, secret, peer), w') \<longrightarrow>
      start \<le> slot \<and> slot < h_peer_slots h"
  shows "\<exists>found s'. run_state (peer_loop h ops p src (Suc (h_peer_slots h)) 0) s = (Some found, s') \<and>
    (\<forall>k. run_state (peer_loop h ops p src (Suc (h_peer_slots h) + k) 0) s = (Some found, s'))"
proof -
  obtain found s' where "run_state (peer_loop h ops p src (Suc (h_peer_slots h) + k) 0) s = (Some found, s')" for k
    using peer_loop_ends [OF assms, of 0 "Suc (h_peer_slots h)" ops p src s] by auto
  note ends = this
  from ends [of 0] ends show ?thesis by auto
qed

theorem peer_search_ends_witness:
  "\<exists>found s'. run_state (peer_loop example_host (no_ops :: (unit, unit) mesh_ops) example_packet 5 2 0) example_core =
     (Some found, s')"
proof -
  have "\<forall>hash start w slot secret peer w'.
      run_state (h_next_peer_shared_secret example_host hash start) w = ((0, slot, secret, peer), w') \<longrightarrow>
      start \<le> slot \<and> slot < h_peer_slots example_host"
    by (simp add: example_host_def)
  from peer_search_ends [OF this, of no_ops example_packet 5 example_core]
  show ?thesis by (auto simp: example_host_def numeral_2_eq_2)
qed

text \<open>
  C16. A flood packet that is forwarded records the node: when the forwarding policy allows it, the path of
  the packet is the path it came with followed by the node's own hash, in the hash size of the packet, and
  header and payload stay as they are.  The hop count goes up by one modulo 64, so that after
  63 hops of one byte it starts again at zero.
\<close>

theorem flood_forward_appends_hash:
  assumes "p = mgr_packet (co_mgr s) r" and "r < length (qm_packet_buf (co_mgr s))" and "sendable p"
    and "meshcore_packet_is_route_flood p" and "\<not> meshcore_packet_is_marked_do_not_retransmit p"
    and "(hash_count (meshcore_packet_path_len_field p) + 1) * hash_size (meshcore_packet_path_len_field p) \<le> 64"
    and "run_state (meshcore_mesh_runtime_allow_packet_forward h ops p) s = (True, s1)" and "co_mgr s1 = co_mgr s"
    and "local_identity_wf (co_self s1)"
    and "\<forall>q t. co_mgr (snd (run_state (meshcore_mesh_runtime_get_retransmit_delay h ops q) t)) = co_mgr t"
    and "run_state (meshcore_mesh_route_recv_packet h ops r) s = (action, s')"
    and "q = mgr_packet (co_mgr s') r"
  shows "mem_read 0 (path_bytes (meshcore_packet_path_len_field p) + hash_size (meshcore_packet_path_len_field p)) (pk_path q) =
      recorded_path p @ mem_read 0 (hash_size (meshcore_packet_path_len_field p)) (id_pub_key (li_identity (co_self s1))) \<and>
    hash_size (meshcore_packet_path_len_field q) = hash_size (meshcore_packet_path_len_field p) \<and>
    hash_count (meshcore_packet_path_len_field q) = (hash_count (meshcore_packet_path_len_field p) + 1) mod 64 \<and>
    pk_header q = pk_header p \<and> pk_payload q = pk_payload p \<and> pk_payload_len q = pk_payload_len p"
proof -
  let ?f = "meshcore_packet_path_len_field p"
  let ?own = "mem_read 0 (hash_size ?f) (id_pub_key (li_identity (co_self s1)))"
  let ?path = "mem_write (path_bytes ?f) ?own (pk_path p)"
  let ?q = "meshcore_packet_set_path_hash_count (p \<lparr> pk_path := ?path \<rparr>) (meshcore_packet_get_path_hash_count p + 1)"
  have sz: "hash_size ?f \<le> 4" using hash_size_bounds [of ?f] by simp
  have own: "length ?own = hash_size ?f"
    using assms(9) sz by (simp add: local_identity_wf_def identity_wf_def)
  have copy: "snd (meshcore_identity_copy_hash_by_len (li_identity (co_self s1)) (hash_count ?f * hash_size ?f)
      (pk_path p) (meshcore_packet_get_path_hash_size p)) = ?path"
    using sz by (simp add: meshcore_identity_copy_hash_by_len_def unat_hash_fields path_bytes_def)
  have guard: "(unat (meshcore_packet_get_path_hash_count p) + 1) * unat (meshcore_packet_get_path_hash_size p) \<le> 64"
    using assms(6) by (simp add: unat_hash_fields)
  have field: "meshcore_packet_path_len_field (p \<lparr> pk_path := xs \<rparr>) = ?f" for xs
    by (simp add: meshcore_packet_path_len_field_def)
  have "co_mgr s' = mgr_set_packet r ?q (co_mgr s)"
    using assms(11) assms(10) assms(4,5,7,8) guard copy unfolding meshcore_mesh_route_recv_packet_def
    by (auto simp: pk_get_def pk_put_def gets_def modify_def self_identity_def assms(1) [symmetric] Let_def
        unat_hash_fields split_beta)
  then have q: "q = ?q" using assms(2) by (simp add: assms(12))
  have count: "unat (meshcore_packet_get_path_hash_count p + 1) = hash_count ?f + 1"
    using hash_count_le [of ?f] by (simp add: unat_word_ariths unat_hash_fields)
  have fit: "path_bytes ?f + hash_size ?f \<le> 64" "length (pk_path p) = 64"
    using assms(6) sendableD [OF assms(3)] by (simp_all add: path_bytes_def)
  then have "mem_read 0 (path_bytes ?f + hash_size ?f) ?path = recorded_path p @ ?own"
    using own by (simp add: mem_read_def mem_write_def recorded_path_def)
  then show ?thesis
    by (simp add: q set_hash_count_field field count)
qed

theorem flood_forward_appends_hash_witness:
  "\<exists>action s'. run_state (meshcore_mesh_route_recv_packet example_host no_ops 0) example_flood = (action, s') \<and>
     mem_read 0 6 (pk_path (mgr_packet (co_mgr s') 0)) = [1, 2, 3, 4, 0, 0]"
proof -
  let ?p = "mgr_packet (co_mgr example_flood) 0"
  have facts: "0 < length (qm_packet_buf (co_mgr example_flood))" "sendable ?p" "meshcore_packet_is_route_flood ?p"
    "\<not> meshcore_packet_is_marked_do_not_retransmit ?p" "recorded_path ?p = [1, 2, 3, 4]"
    "hash_count (meshcore_packet_path_len_field ?p) = 2" "hash_size (meshcore_packet_path_len_field ?p) = 2"
    "path_bytes (meshcore_packet_path_len_field ?p) = 4"
    "local_identity_wf (co_self example_flood)"
    "mem_read 0 2 (id_pub_key (li_identity (co_self example_flood))) = [0, 0]"
    by code_simp+
  have allow: "run_state (meshcore_mesh_runtime_allow_packet_forward example_host no_ops ?p) example_flood = (True, example_flood)"
    by (simp add: meshcore_mesh_runtime_allow_packet_forward_def no_ops_def example_host_def
        meshcore_platform_bridge_mesh_allow_packet_forward_def call_def)
  have delay: "\<forall>q t. co_mgr (snd (run_state (meshcore_mesh_runtime_get_retransmit_delay example_host
      (no_ops :: (unit, unit) mesh_ops) q) t)) = co_mgr t"
    by (simp add: meshcore_mesh_runtime_get_retransmit_delay_def no_ops_def example_host_def
        meshcore_platform_bridge_mesh_retransmit_delay_get_def call_def split_beta)
  obtain action s' where run: "run_state (meshcore_mesh_route_recv_packet example_host no_ops 0) example_flood = (action, s')"
    by fastforce
  from flood_forward_appends_hash [OF refl facts(1-4) _ allow refl facts(9) delay run refl] facts run
  show ?thesis by simp
qed

end
