(* ===== verification/Runtime_State.thy ===== *)
theory Runtime_State
  imports Mesh_Receive Advert_Data
begin

text \<open>
  The state of the runtime (\<open>runtime/meshcore_runtime_internal.h\<close>), its helpers from
  \<open>runtime/meshcore.c\<close> and its forwarding policy (\<open>runtime/meshcore_runtime_policy.c\<close>).

  The packet manager, the tables and the mesh of \<open>struct meshcore_runtime\<close> are the components of
  the core state; the record \<open>runtime\<close> holds the other fields.  An invalid entry of a
  table of outstanding requests is one after \<open>memset\<close>.
\<close>

section \<open>State\<close>

record expected_ack =
  ea_valid :: bool
  ea_msg_sent_ms :: u32
  ea_expires_at_ms :: u32
  ea_ack_crc :: u32
  ea_target :: bytes
  ea_attempt :: byte

text \<open>An outstanding trace; the other requests also remember whom they were sent to.\<close>

record pending_trace =
  pn_valid :: bool
  pn_tag :: u32
  pn_expires_at_ms :: u32

record pending_peer = pending_trace +
  pn_key_prefix :: bytes

record pending_telemetry = pending_peer +
  pn_permission_mask :: byte

record runtime =
  rt_initialized :: bool
  rt_last_now_ms :: u32
  rt_rtc_clock_state :: u32
  rt_expected_acks :: "expected_ack list"
  rt_expected_ack_next :: nat
  rt_pending_discovery :: pending_peer
  rt_pending_trace :: pending_trace
  rt_pending_telemetry :: pending_telemetry
  rt_pending_binary :: pending_peer

definition expected_ack_zero :: expected_ack where
  "expected_ack_zero = \<lparr> ea_valid = False, ea_msg_sent_ms = 0, ea_expires_at_ms = 0, ea_ack_crc = 0,
     ea_target = zeros 4, ea_attempt = 0 \<rparr>"

definition pending_trace_zero :: pending_trace where
  "pending_trace_zero = \<lparr> pn_valid = False, pn_tag = 0, pn_expires_at_ms = 0 \<rparr>"

definition pending_peer_zero :: pending_peer where
  "pending_peer_zero = \<lparr> pn_valid = False, pn_tag = 0, pn_expires_at_ms = 0, pn_key_prefix = zeros 4 \<rparr>"

definition pending_telemetry_zero :: pending_telemetry where
  "pending_telemetry_zero = \<lparr> pn_valid = False, pn_tag = 0, pn_expires_at_ms = 0,
     pn_key_prefix = zeros 4, pn_permission_mask = 0 \<rparr>"

definition runtime_zero :: runtime where
  "runtime_zero = \<lparr> rt_initialized = False, rt_last_now_ms = 0, rt_rtc_clock_state = 0,
     rt_expected_acks = replicate 8 expected_ack_zero, rt_expected_ack_next = 0,
     rt_pending_discovery = pending_peer_zero, rt_pending_trace = pending_trace_zero,
     rt_pending_telemetry = pending_telemetry_zero, rt_pending_binary = pending_peer_zero \<rparr>"

text \<open>A running runtime, with the array bounds of its tables.\<close>

definition rt_ok :: "runtime \<Rightarrow> bool" where
  "rt_ok rt \<longleftrightarrow> rt_initialized rt \<and> length (rt_expected_acks rt) = 8 \<and> rt_expected_ack_next rt < 8"

type_synonym ('w, 'a) rt_op = "('w, runtime, 'a) op"

definition rt_get :: "('w, runtime) rt_op" where
  "rt_get = gets co_rt"

definition rt_modify :: "(runtime \<Rightarrow> runtime) \<Rightarrow> ('w, unit) rt_op" where
  "rt_modify f = modify (\<lambda>s. s \<lparr> co_rt := f (co_rt s) \<rparr>)"

section \<open>Helpers\<close>

definition meshcore_runtime_require_initialized :: "('w, errno + unit) rt_op" where
  "meshcore_runtime_require_initialized = do {
     rt \<leftarrow> rt_get;
     ret (if rt_initialized rt then Inr () else Inl ENODEV)
   }"

definition meshcore_runtime_time_reached :: "u32 \<Rightarrow> u32 \<Rightarrow> bool" where
  "meshcore_runtime_time_reached now_ms expires_at_ms \<longleftrightarrow> 0 \<le> sint (now_ms - expires_at_ms)"

definition meshcore_runtime_deadline_accumulate ::
  "u32 \<Rightarrow> u32 \<Rightarrow> u32 option \<Rightarrow> bool \<times> u32 option" where
  "meshcore_runtime_deadline_accumulate now_ms candidate_ms deadline_ms =
     (if sint (candidate_ms - now_ms) \<le> 0 then (True, Some now_ms)
      else
        (False,
         case deadline_ms of
           None \<Rightarrow> Some candidate_ms
         | Some best \<Rightarrow> if sint (candidate_ms - best) < 0 then Some candidate_ms else Some best))"

definition meshcore_runtime_timestamp_now_seconds :: "'w host \<Rightarrow> ('w, 'r, u32) op" where
  "meshcore_runtime_timestamp_now_seconds h = do {
     timestamp \<leftarrow> meshcore_platform_bridge_rtc_get_current_time h;
     timestamp \<leftarrow> (if timestamp = 0 then do { now \<leftarrow> meshcore_clock_millis_get h; ret (now div 1000) }
                  else ret timestamp);
     ret (if timestamp = 0 then 1 else timestamp)
   }"

text \<open>The path bytes and the hash size.\<close>

definition meshcore_runtime_path_len_decode :: "byte \<Rightarrow> (byte \<times> byte) option" where
  "meshcore_runtime_path_len_decode path_len_field =
     (let path_hash_size = drop_bit 6 path_len_field + 1;
          hop_count = path_len_field AND 0x3F in
      if path_hash_size = 4 then None
      else
        let path_bytes = ucast path_hash_size * ucast hop_count :: u16 in
        if unat path_bytes > 64 then None
        else Some (ucast path_bytes, path_hash_size))"

text \<open>The signal strengths in the path of a packet that records them.\<close>

definition meshcore_runtime_extract_return_path_snrs :: "packet \<Rightarrow> bytes option" where
  "meshcore_runtime_extract_return_path_snrs p =
     (if \<not> meshcore_packet_has_snr_flag p then None
      else
        let tuple_size = meshcore_packet_get_path_hash_size p in
        if tuple_size < 2 \<or> tuple_size = 4 then None
        else
          let hops = meshcore_packet_get_path_hash_count p in
          Some (map (\<lambda>i. byte_at (pk_path p) (i * unat tuple_size + unat tuple_size - 1)) [0..<unat hops]))"

text \<open>\<open>snrs\<close> is the filled part of the array.\<close>

definition meshcore_runtime_append_snr_with_trunc :: "bytes \<Rightarrow> nat \<Rightarrow> byte \<Rightarrow> bytes" where
  "meshcore_runtime_append_snr_with_trunc snrs max_len snr_q4 =
     (if length snrs \<ge> max_len then snrs else snrs @ [snr_q4])"

definition meshcore_runtime_role_to_advert_type :: "node_role \<Rightarrow> byte" where
  "meshcore_runtime_role_to_advert_type role =
     (case role of ROLE_CHAT \<Rightarrow> 1 | ROLE_REPEATER \<Rightarrow> 2 | ROLE_ROOM \<Rightarrow> 3 | ROLE_SENSOR \<Rightarrow> 4 | ROLE_NONE \<Rightarrow> 0)"

definition meshcore_runtime_normalize_path_hash_size :: "byte \<Rightarrow> byte" where
  "meshcore_runtime_normalize_path_hash_size path_hash_size =
     (if path_hash_size = 0 \<or> path_hash_size > 3 then 1 else path_hash_size)"

definition meshcore_runtime_local_path_hash_size_get :: "'w host \<Rightarrow> ('w, 'r, byte) op" where
  "meshcore_runtime_local_path_hash_size_get h = do {
     (rc, policy) \<leftarrow> meshcore_platform_bridge_node_runtime_policy_get h;
     ret (if rc \<noteq> 0 then 1 else meshcore_runtime_normalize_path_hash_size (rp_path_hash_size policy))
   }"

definition meshcore_runtime_path_len_encode :: "byte \<Rightarrow> byte \<Rightarrow> byte option" where
  "meshcore_runtime_path_len_encode path_hash_size path_byte_len =
     (if path_hash_size = 0 \<or> path_hash_size > 3 then None
      else if path_byte_len = 0 then Some (push_bit 6 (path_hash_size - 1))
      else if path_byte_len mod path_hash_size \<noteq> 0 then None
      else
        let hop_count = path_byte_len div path_hash_size in
        if hop_count > 63 then None
        else Some (push_bit 6 (path_hash_size - 1) OR hop_count))"

definition meshcore_runtime_sync_local_identity :: "'w host \<Rightarrow> ('w, 'r, int) op" where
  "meshcore_runtime_sync_local_identity h = do {
     (rc, identity) \<leftarrow> meshcore_platform_bridge_node_identity_get h;
     if rc \<noteq> 0 then ret rc
     else do {
       modify (\<lambda>s. s \<lparr> co_self := meshcore_local_identity_init_from_bytes (co_self s)
         (ni_private_key identity) (ni_public_key identity) \<rparr>);
       ret 0
     }
   }"

definition meshcore_runtime_local_identity_get :: "'w host \<Rightarrow> ('w, 'r, node_identity option) op" where
  "meshcore_runtime_local_identity_get h = do {
     (rc, identity) \<leftarrow> meshcore_platform_bridge_node_identity_get h;
     ret (if rc = 0 then Some identity else None)
   }"

definition meshcore_runtime_local_role_is :: "'w host \<Rightarrow> node_role \<Rightarrow> ('w, 'r, bool) op" where
  "meshcore_runtime_local_role_is h role = do {
     identity \<leftarrow> meshcore_runtime_local_identity_get h;
     ret (case identity of None \<Rightarrow> False | Some i \<Rightarrow> ni_role i = role)
   }"

text \<open>The path to a peer and its encoded length.\<close>

definition meshcore_runtime_peer_path_get :: "'w host \<Rightarrow> bytes \<Rightarrow> ('w, 'r, (peer_path \<times> byte) option) op" where
  "meshcore_runtime_peer_path_get h public_key = do {
     (rc, out) \<leftarrow> meshcore_platform_bridge_peer_path_get_by_key h public_key;
     if rc \<noteq> 0 then ret None
     else if pp_out_path_len out = 0 \<and> \<not> pp_is_neighbor out then ret None
     else
       ret (map_option (Pair out) (meshcore_runtime_path_len_encode
         (meshcore_runtime_normalize_path_hash_size (pp_path_hash_size out)) (pp_out_path_len out)))
   }"

section \<open>Forwarding policy\<close>

definition loop_detect_max_minimal :: bytes where
  "loop_detect_max_minimal = [0, 4, 2, 1]"

definition loop_detect_max_moderate :: bytes where
  "loop_detect_max_moderate = [0, 2, 1, 1]"

definition loop_detect_max_strict :: bytes where
  "loop_detect_max_strict = [0, 1, 1, 1]"

definition meshcore_runtime_policy_get :: "'w host \<Rightarrow> ('w, 'r, node_runtime_policy option) op" where
  "meshcore_runtime_policy_get h = do {
     (rc, policy) \<leftarrow> meshcore_platform_bridge_node_runtime_policy_get h;
     ret (if rc = 0 then Some policy else None)
   }"

text \<open>How many of the hops on a path carry the hash of \<open>self\<close>.\<close>

primrec self_hops :: "identity \<Rightarrow> bytes \<Rightarrow> byte \<Rightarrow> nat \<Rightarrow> nat \<Rightarrow> byte" where
  "self_hops self path hsize stride 0 = 0"
| "self_hops self path hsize stride (Suc hops) =
     (if meshcore_identity_is_hash_match_by_len self path hsize then 1 else 0) +
     self_hops self (drop stride path) hsize stride hops"

definition meshcore_runtime_packet_is_looped :: "'w host \<Rightarrow> packet \<Rightarrow> bytes \<Rightarrow> ('w, 'r, bool) op" where
  "meshcore_runtime_packet_is_looped h p max_counters = do {
     rc \<leftarrow> meshcore_runtime_sync_local_identity h;
     if rc \<noteq> 0 then ret False
     else do {
       self \<leftarrow> self_identity;
       let stride = meshcore_packet_get_path_hash_size p;
       if meshcore_packet_has_snr_flag p \<and> stride < 2 then ret False
       else do {
         let hash_size = (if meshcore_packet_has_snr_flag p then stride - 1 else stride);
         let hash_count = meshcore_packet_get_path_hash_count p;
         if hash_size = 0 \<or> hash_size > 3 \<or> stride = 0 \<or> stride > 3 then ret False
         else
           ret (self_hops self (pk_path p) hash_size (unat stride) (unat hash_count)
             \<ge> byte_at max_counters (unat hash_size))
       }
     }
   }"

definition meshcore_runtime_client_repeat_active :: "'w host \<Rightarrow> node_runtime_policy \<Rightarrow> ('w, 'r, bool) op" where
  "meshcore_runtime_client_repeat_active h policy =
     (if rp_client_repeat policy then meshcore_runtime_local_role_is h ROLE_CHAT else ret False)"

definition meshcore_runtime_protocol_allow_packet_forward :: "'w host \<Rightarrow> packet \<Rightarrow> ('w, 'r, bool) op" where
  "meshcore_runtime_protocol_allow_packet_forward h p = do {
     policy \<leftarrow> meshcore_runtime_policy_get h;
     case policy of
       None \<Rightarrow> ret False
     | Some policy \<Rightarrow> do {
         repeater \<leftarrow> meshcore_runtime_local_role_is h ROLE_REPEATER;
         if repeater then
           if rp_disable_fwd policy then ret False
           else if meshcore_packet_is_route_flood p then
             if meshcore_packet_get_path_hash_count p \<ge> rp_flood_max policy then ret False
             else if rp_loop_detect policy \<noteq> LOOP_DETECT_OFF then do {
               looped \<leftarrow> meshcore_runtime_packet_is_looped h p
                 (if rp_loop_detect policy = LOOP_DETECT_MINIMAL then loop_detect_max_minimal
                  else if rp_loop_detect policy = LOOP_DETECT_MODERATE then loop_detect_max_moderate
                  else loop_detect_max_strict);
               ret (\<not> looped)
             }
             else ret True
           else ret True
         else meshcore_runtime_client_repeat_active h policy
       }
   }"

definition meshcore_runtime_packet_airtime :: "'w host \<Rightarrow> packet \<Rightarrow> ('w, 'r, u32) op" where
  "meshcore_runtime_packet_airtime h p =
     (let raw_len = meshcore_packet_get_raw_length p in
      if raw_len = 0 then ret 0 else meshcore_platform_bridge_radio_airtime h raw_len)"

definition meshcore_runtime_randomized_delay :: "'w host \<Rightarrow> u32 \<Rightarrow> rat \<Rightarrow> ('w, 'r, u32) op" where
  "meshcore_runtime_randomized_delay h airtime factor =
     (let t = of_int (trunc (f32 (f32 (of_nat (unat airtime)) * factor))) in
      meshcore_rng_next_int h 0 (5 * t + 1))"

definition meshcore_runtime_protocol_get_retransmit_delay :: "'w host \<Rightarrow> packet \<Rightarrow> ('w, 'r, u32) op" where
  "meshcore_runtime_protocol_get_retransmit_delay h p = do {
     policy \<leftarrow> meshcore_runtime_policy_get h;
     case policy of
       None \<Rightarrow> ret 0
     | Some policy \<Rightarrow> do {
         airtime \<leftarrow> meshcore_runtime_packet_airtime h p;
         repeater \<leftarrow> meshcore_runtime_local_role_is h ROLE_REPEATER;
         if repeater then meshcore_runtime_randomized_delay h airtime (rp_tx_delay_factor policy)
         else do {
           active \<leftarrow> meshcore_runtime_client_repeat_active h policy;
           if active then meshcore_runtime_randomized_delay h airtime (1 / 2)
           else do {
             let t = airtime * 52 div 50 div 2;
             n \<leftarrow> meshcore_rng_next_int h 0 5;
             ret (n * t)
           }
         }
       }
   }"

definition meshcore_runtime_protocol_get_direct_retransmit_delay ::
  "'w host \<Rightarrow> packet \<Rightarrow> ('w, 'r, u32) op" where
  "meshcore_runtime_protocol_get_direct_retransmit_delay h p = do {
     policy \<leftarrow> meshcore_runtime_policy_get h;
     case policy of
       None \<Rightarrow> ret 0
     | Some policy \<Rightarrow> do {
         airtime \<leftarrow> meshcore_runtime_packet_airtime h p;
         repeater \<leftarrow> meshcore_runtime_local_role_is h ROLE_REPEATER;
         if repeater then meshcore_runtime_randomized_delay h airtime (rp_direct_tx_delay_factor policy)
         else do {
           active \<leftarrow> meshcore_runtime_client_repeat_active h policy;
           if active then meshcore_runtime_randomized_delay h airtime (f32 (1 / 5)) else ret 0
         }
       }
   }"

section \<open>Ownership\<close>

lemma calm_rt_get [calm_rules]: "calm R rt_get"
  unfolding rt_get_def by (rule calm_gets)

lemma calm_rt_modify [calm_rules]: "(\<And>rt. R rt \<Longrightarrow> R (f rt)) \<Longrightarrow> calm R (rt_modify f)"
  by (auto simp: calm_def triple_def rt_modify_def owns_def queued_refs_def out_refs_def)

lemma init_from_bytes_wf:
  "local_identity_wf l \<Longrightarrow> local_identity_wf (meshcore_local_identity_init_from_bytes l prv pub)"
  by (simp add: local_identity_wf_def identity_wf_def meshcore_local_identity_init_from_bytes_def
      meshcore_identity_init_from_pub_key_def)

lemma calm_set_self:
  "(\<And>l. local_identity_wf l \<Longrightarrow> local_identity_wf (f l)) \<Longrightarrow>
   calm R (modify (\<lambda>s. s \<lparr> co_self := f (co_self s) \<rparr>))"
  by (auto simp: calm_def triple_def owns_def queued_refs_def out_refs_def)

lemma calm_runtime_helpers [calm_rules]:
  "calm R (meshcore_runtime_timestamp_now_seconds h)"
  "calm R (meshcore_runtime_local_path_hash_size_get h)"
  "calm R (meshcore_runtime_sync_local_identity h)"
  "calm R (meshcore_runtime_local_identity_get h)"
  "calm R (meshcore_runtime_peer_path_get h key)"
  "calm R (meshcore_runtime_policy_get h)"
  unfolding meshcore_runtime_timestamp_now_seconds_def meshcore_runtime_local_path_hash_size_get_def
    meshcore_runtime_sync_local_identity_def meshcore_runtime_local_identity_get_def
    meshcore_runtime_peer_path_get_def meshcore_runtime_policy_get_def
  by (intro calm_rules calm_set_self init_from_bytes_wf, assumption?)+

lemma calm_local_role [calm_rules]: "calm R (meshcore_runtime_local_role_is h role)"
  unfolding meshcore_runtime_local_role_is_def by (intro calm_rules)

lemma calm_require_initialized [calm_rules]: "calm R meshcore_runtime_require_initialized"
  unfolding meshcore_runtime_require_initialized_def by (intro calm_rules)

lemma calm_policy [calm_rules]:
  "calm R (meshcore_runtime_packet_is_looped h p limits)"
  "calm R (meshcore_runtime_client_repeat_active h policy)"
  "calm R (meshcore_runtime_packet_airtime h p)"
  "calm R (meshcore_runtime_randomized_delay h airtime factor)"
  unfolding meshcore_runtime_packet_is_looped_def meshcore_runtime_client_repeat_active_def
    meshcore_runtime_packet_airtime_def meshcore_runtime_randomized_delay_def
  by (intro calm_rules)+

lemma calm_protocol_policy [calm_rules]:
  "calm R (meshcore_runtime_protocol_allow_packet_forward h p)"
  "calm R (meshcore_runtime_protocol_get_retransmit_delay h p)"
  "calm R (meshcore_runtime_protocol_get_direct_retransmit_delay h p)"
  unfolding meshcore_runtime_protocol_allow_packet_forward_def
    meshcore_runtime_protocol_get_retransmit_delay_def
    meshcore_runtime_protocol_get_direct_retransmit_delay_def
  by (intro calm_rules)+

section \<open>Properties\<close>

lemma path_len_decode_eq:
  "meshcore_runtime_path_len_decode f =
     (if hash_size f = 4 \<or> path_bytes f > 64 then None
      else Some (of_nat (path_bytes f), of_nat (hash_size f)))"
proof -
  have sz: "drop_bit 6 f + 1 = (of_nat (hash_size f) :: byte)"
    unfolding unat_hash_size [symmetric] by simp
  have cnt: "f AND 0x3F = (of_nat (hash_count f) :: byte)"
    by (simp add: hash_count_def)
  have b: "hash_size f \<le> 4" "hash_count f \<le> 63" "path_bytes f \<le> 252"
    using hash_size_bounds hash_count_le path_bytes_le by auto
  let ?n = "ucast (of_nat (hash_size f) :: byte) * ucast (of_nat (hash_count f) :: byte) :: u16"
  have n: "unat ?n = path_bytes f"
    using b by (simp add: unat_word_ariths unat_of_nat path_bytes_def unsigned_ucast_eq mult.commute take_bit_eq_mod)
  then have "(of_nat (unat ?n) :: byte) = of_nat (path_bytes f)" by (rule arg_cong)
  then have "(ucast ?n :: byte) = of_nat (path_bytes f)" by simp
  moreover have "(of_nat (hash_size f) :: byte) = 4 \<longleftrightarrow> hash_size f = 4"
    using b by (simp add: word_unat_eq_iff unat_of_nat)
  ultimately show ?thesis
    by (simp add: meshcore_runtime_path_len_decode_def Let_def sz cnt n)
qed

text \<open>The length byte that \<open>meshcore_runtime_path_len_encode\<close> builds.\<close>

lemma path_len_field:
  assumes "sz \<in> {1, 2, 3 :: byte}" and "c \<le> (63 :: byte)"
  shows "hash_size (push_bit 6 (sz - 1) OR c) = unat sz" "hash_count (push_bit 6 (sz - 1) OR c) = unat c"
proof -
  have c: "c AND 63 = c"
    using assms(2) by (simp add: and_63 take_bit_eq_mod word_le_nat_alt word_unat_eq_iff unat_mod)
  have sz: "sz \<in> {1, 2, 3, 4}" using assms(1) by blast
  have "unat c < 64" using assms(2) by (simp add: word_le_nat_alt)
  then show "hash_size (push_bit 6 (sz - 1) OR c) = unat sz" "hash_count (push_bit 6 (sz - 1) OR c) = unat c"
    using hash_size_count_set [OF sz refl, of meshcore_packet_init c]
    unfolding path_len_set_size_count [OF sz] c by simp_all
qed

lemma path_len_split: "f = push_bit 6 (drop_bit 6 f) OR ((f :: byte) AND 63)"
  unfolding and_63
  by (rule bit_word_eqI) (auto simp: bit_or_iff bit_push_bit_iff bit_drop_bit_eq bit_take_bit_iff not_less)

lemma path_len_size: "sz = of_nat (hash_size f) \<Longrightarrow> sz - 1 = drop_bit 6 (f :: byte)"
  by (simp add: hash_size_def)

lemma byte_le_3: "sz \<noteq> 0 \<Longrightarrow> sz \<le> 3 \<Longrightarrow> sz \<in> {1, 2, 3 :: byte}"
  by (auto simp: word_unat_eq_iff word_le_nat_alt)

text \<open>
  The one-byte path length and the pair of byte length and hash size determine each other: what the
  decoder reads, the encoder writes back, and the encoder's result is read back
  exactly when the path fits in the 64 bytes of a packet.  (The encoder also accepts
  lengths above 64, which the decoder rejects.)
\<close>

theorem path_len_round_trip:
  "meshcore_runtime_path_len_decode f = Some (n, sz) \<longleftrightarrow>
   meshcore_runtime_path_len_encode sz n = Some f \<and> unat n \<le> 64"
proof
  assume d: "meshcore_runtime_path_len_decode f = Some (n, sz)"
  then have n: "n = of_nat (path_bytes f)" and sz: "sz = of_nat (hash_size f)"
    and le: "path_bytes f \<le> 64" and ne: "hash_size f \<noteq> 4"
    by (simp_all add: path_len_decode_eq split: if_splits)
  have b: "1 \<le> hash_size f" "hash_size f \<le> 3" "hash_count f \<le> 63"
    using hash_size_bounds [of f] hash_count_le [of f] ne by auto
  have un: "unat n = path_bytes f" "unat sz = hash_size f"
    using le b by (simp_all add: n sz unat_of_nat)
  have q: "unat (n div sz) = hash_count f" "unat (n mod sz) = 0"
    using b by (simp_all add: unat_div unat_mod un path_bytes_def)
  then have c: "n div sz = f AND 63" by (simp add: word_unat_eq_iff hash_count_def)
  have f: "f = push_bit 6 (sz - 1) OR (f AND 63)"
    unfolding path_len_size [OF sz] by (rule path_len_split)
  have "sz \<noteq> 0" "\<not> sz > 3" using un(2) b by (auto simp: word_less_nat_alt word_le_nat_alt)
  moreover have "n mod sz = 0" using q(2) by (simp add: unat_eq_0)
  moreover have "\<not> n div sz > 63" using q(1) b by (simp add: word_less_nat_alt)
  moreover have "f AND 63 = 0" if "n = 0" using c that by simp
  ultimately show "meshcore_runtime_path_len_encode sz n = Some f \<and> unat n \<le> 64"
    using f le un(1) by (auto simp: meshcore_runtime_path_len_encode_def Let_def c)
next
  assume e: "meshcore_runtime_path_len_encode sz n = Some f \<and> unat n \<le> 64"
  then have z: "sz \<noteq> 0" "sz \<le> 3"
    by (auto simp: meshcore_runtime_path_len_encode_def split: if_splits)
  then have sz: "sz \<in> {1, 2, 3}" by (rule byte_le_3)
  have "n mod sz = 0 \<and> n div sz \<le> 63 \<and> f = push_bit 6 (sz - 1) OR (n div sz)"
    using e z by (cases "n = 0") (auto simp: meshcore_runtime_path_len_encode_def Let_def not_less split: if_splits)
  then have c: "n div sz \<le> 63" "unat sz * unat (n div sz) = unat n" "f = push_bit 6 (sz - 1) OR (n div sz)"
    using mult_div_mod_eq [of "unat sz" "unat n"] by (simp_all add: unat_div unat_mod [symmetric])
  from path_len_field [OF sz c(1)] have "hash_size f = unat sz" "path_bytes f = unat n"
    using c by (simp_all add: path_bytes_def mult.commute)
  then show "meshcore_runtime_path_len_decode f = Some (n, sz)"
    using sz e by (auto simp: path_len_decode_eq)
qed
text \<open>
  What loop detection promises: the number of hops on the path that carry the node's own hash, and
  how many of them each mode tolerates for hashes of one, two and three bytes.
\<close>

definition own_hops :: "identity \<Rightarrow> packet \<Rightarrow> nat \<Rightarrow> nat \<Rightarrow> nat" where
  "own_hops self p hsize stride =
     length (filter (\<lambda>i. mem_read (i * stride) hsize (pk_path p) = mem_read 0 hsize (id_pub_key self))
       [0..<unat (meshcore_packet_get_path_hash_count p)])"

definition loop_limit :: "loop_detect_mode \<Rightarrow> nat \<Rightarrow> nat" where
  "loop_limit mode hsize =
     (case mode of
        LOOP_DETECT_OFF \<Rightarrow> 64
      | LOOP_DETECT_MINIMAL \<Rightarrow> if hsize = 1 then 4 else if hsize = 2 then 2 else 1
      | LOOP_DETECT_MODERATE \<Rightarrow> if hsize = 1 then 2 else 1
      | LOOP_DETECT_STRICT \<Rightarrow> 1)"

lemma self_hops_count:
  assumes "unat hsize \<le> 32"
  shows "self_hops self path hsize stride n =
    of_nat (length (filter (\<lambda>i. mem_read (i * stride) (unat hsize) path = mem_read 0 (unat hsize) (id_pub_key self))
      [0..<n]))"
proof (induction n arbitrary: path)
  case (Suc n)
  have up: "[0..<Suc n] = 0 # map Suc [0..<n]"
    by (simp add: map_Suc_upt upt_conv_Cons del: upt_Suc)
  have shift: "mem_read (i * stride) m (drop stride path) = mem_read (Suc i * stride) m path" for i m
    by (simp add: mem_read_def add.commute)
  show ?case
    using assms Suc.IH [of "drop stride path"]
    by (simp add: up filter_map comp_def shift meshcore_identity_is_hash_match_by_len_def del: upt_Suc mult_Suc)
qed simp

lemma own_hops_le: "own_hops self p hsize stride \<le> 63"
proof -
  have "own_hops self p hsize stride \<le> length [0..<unat (meshcore_packet_get_path_hash_count p)]"
    unfolding own_hops_def by (rule length_filter_le)
  also have "\<dots> \<le> 63"
    using hash_count_le [of "meshcore_packet_path_len_field p"] by (simp add: unat_hash_fields)
  finally show ?thesis .
qed

lemma stride_range:
  assumes "stride = meshcore_packet_get_path_hash_size p" and "stride \<le> 3"
  shows "stride \<in> {1, 2, 3}"
proof (rule byte_le_3 [OF _ assms(2)])
  have "unat stride \<noteq> 0" by (simp add: assms(1) unat_hash_fields hash_size_def)
  then show "stride \<noteq> 0" by auto
qed

lemma looped_count:
  assumes "run_state (meshcore_runtime_sync_local_identity h) s = (0, s')"
    and "stride = meshcore_packet_get_path_hash_size p" and "stride \<le> 3"
    and "hsize = (if meshcore_packet_has_snr_flag p then stride - 1 else stride)" and "hsize \<noteq> 0"
  shows "fst (run_state (meshcore_runtime_packet_is_looped h p limits) s) \<longleftrightarrow>
    unat (byte_at limits (unat hsize)) \<le> own_hops (li_identity (co_self s')) p (unat hsize) (unat stride)"
proof -
  have st: "stride \<in> {1, 2, 3}" by (rule stride_range [OF assms(2,3)])
  then have hs: "unat hsize \<le> 32" "hsize \<le> 3" "\<not> (meshcore_packet_has_snr_flag p \<and> stride < 2)"
    using assms(4,5) by (auto split: if_splits)
  have "self_hops (li_identity (co_self s')) (pk_path p) hsize (unat stride) (unat (meshcore_packet_get_path_hash_count p))
      = of_nat (own_hops (li_identity (co_self s')) p (unat hsize) (unat stride))"
    unfolding own_hops_def by (rule self_hops_count [OF hs(1)])
  then show ?thesis
    using assms st hs own_hops_le [of "li_identity (co_self s')" p "unat hsize" "unat stride"]
    by (auto simp: meshcore_runtime_packet_is_looped_def self_identity_def Let_def not_less word_le_nat_alt unat_of_nat)
qed

text \<open>
  C17. Which floods a repeater forwards.  Given that the host delivers the policy and the
  identity, a repeater forwards a flood exactly when forwarding is enabled, the path is shorter than
  the policy's limit, and its own hash occurs on the path less often than the loop-detection mode
  tolerates for the hash size in use.
\<close>

theorem repeater_forwards_iff:
  assumes "run_state (meshcore_platform_bridge_node_runtime_policy_get h) s = ((0, policy), s1)"
    and "run_state (meshcore_runtime_local_role_is h ROLE_REPEATER) s1 = (True, s2)"
    and "run_state (meshcore_runtime_sync_local_identity h) s2 = (0, s3)"
    and "meshcore_packet_is_route_flood p"
    and "stride = meshcore_packet_get_path_hash_size p" and "stride \<le> 3"
    and "hsize = (if meshcore_packet_has_snr_flag p then stride - 1 else stride)" and "hsize \<noteq> 0"
  shows "fst (run_state (meshcore_runtime_protocol_allow_packet_forward h p) s) \<longleftrightarrow>
    \<not> rp_disable_fwd policy \<and> meshcore_packet_get_path_hash_count p < rp_flood_max policy \<and>
    own_hops (li_identity (co_self s3)) p (unat hsize) (unat stride) < loop_limit (rp_loop_detect policy) (unat hsize)"
proof -
  have st: "hsize \<in> {1, 2, 3}"
    using stride_range [OF assms(5,6)] assms(7,8) by (auto split: if_splits)
  note looped = looped_count [OF assms(3,5-8)]
  show ?thesis
    using assms(1,2,4) st own_hops_le [of "li_identity (co_self s3)" p "unat hsize" "unat stride"]
    by (cases "rp_loop_detect policy")
       (auto simp: meshcore_runtime_protocol_allow_packet_forward_def meshcore_runtime_policy_get_def split_beta
         looped loop_limit_def loop_detect_max_minimal_def loop_detect_max_moderate_def loop_detect_max_strict_def not_le)
qed

text \<open>A running node with empty tables at time 1000, for the witnesses.\<close>

definition example_state :: "(unit, runtime) core" where
  "example_state = \<lparr> co_world = (), co_millis_override = Some 1000, co_mgr = manager_zero,
     co_tables = meshcore_tables_init, co_disp = dispatcher_zero, co_self = meshcore_local_identity_init,
     co_rt = runtime_zero \<lparr> rt_initialized := True \<rparr> \<rparr>"

definition example_repeater :: "unit host" where
  "example_repeater = example_host \<lparr> h_node_identity :=
     State_Monad.return (0, example_identity \<lparr> ni_role := ROLE_REPEATER \<rparr>) \<rparr>"

definition example_looped :: packet where
  "example_looped = meshcore_packet_init \<lparr> pk_header := 1, pk_path_len := 2, pk_path := [3, 7] @ zeros 62 \<rparr>"

theorem repeater_forwards_iff_witness:
  "\<not> fst (run_state (meshcore_runtime_protocol_allow_packet_forward example_repeater example_looped) example_state)"
proof -
  let ?s3 = "snd (run_state (meshcore_runtime_sync_local_identity example_repeater) example_state)"
  have 1: "run_state (meshcore_platform_bridge_node_runtime_policy_get example_repeater) example_state
      = ((0, example_policy), example_state)"
    and 2: "run_state (meshcore_runtime_local_role_is example_repeater ROLE_REPEATER) example_state = (True, example_state)"
    by (simp_all add: meshcore_platform_bridge_node_runtime_policy_get_def meshcore_runtime_local_role_is_def
        meshcore_runtime_local_identity_get_def meshcore_platform_bridge_node_identity_get_def call_def
        example_repeater_def example_host_def example_state_def)
  have 3: "run_state (meshcore_runtime_sync_local_identity example_repeater) example_state = (0, ?s3)"
    and own: "id_pub_key (li_identity (co_self ?s3)) = replicate 32 7"
    by (simp_all add: meshcore_runtime_sync_local_identity_def meshcore_platform_bridge_node_identity_get_def
        call_def example_repeater_def example_host_def example_state_def example_identity_def
        meshcore_local_identity_init_from_bytes_def meshcore_identity_init_from_pub_key_def
        meshcore_local_identity_init_def meshcore_identity_init_def mem_write_def mem_read_def zeros_def)
  have p: "meshcore_packet_is_route_flood example_looped" "meshcore_packet_get_path_hash_size example_looped = 1"
      "meshcore_packet_get_path_hash_count example_looped = 2" "\<not> meshcore_packet_has_snr_flag example_looped"
    by code_simp+
  have "own_hops (li_identity (co_self ?s3)) example_looped 1 1 = 1"
    unfolding own_hops_def own p(3) by (simp add: example_looped_def mem_read_def upt_rec)
  then show ?thesis
    using repeater_forwards_iff [OF 1 2 3 p(1) refl _ refl] p
    by (simp add: loop_limit_def example_policy_def)
qed

end
