(* ===== verification/Runtime_Pending.thy ===== *)
theory Runtime_Pending
  imports Runtime_State
begin

text \<open>
  The outstanding requests of the runtime (\<open>runtime/meshcore_runtime_pending.c\<close>): the ring of
  eight expected acknowledgements and the one outstanding path discovery, trace, telemetry and
  binary request, each with the time it expires.  The test hooks of the file are in \<open>Test_Hooks\<close>.

  A peer is known by the first four bytes of its public key.  A handler returns whether the
  message answered an outstanding request.
\<close>

section \<open>Clearing and deadlines\<close>

definition request_timeout_ms :: u32 where
  "request_timeout_ms = 10000"

definition meshcore_runtime_expected_ack_clear :: "expected_ack \<Rightarrow> expected_ack" where
  "meshcore_runtime_expected_ack_clear entry = expected_ack_zero"

definition meshcore_runtime_pending_discovery_clear :: "runtime \<Rightarrow> runtime" where
  "meshcore_runtime_pending_discovery_clear rt = rt \<lparr> rt_pending_discovery := pending_peer_zero \<rparr>"

definition meshcore_runtime_pending_trace_clear :: "runtime \<Rightarrow> runtime" where
  "meshcore_runtime_pending_trace_clear rt = rt \<lparr> rt_pending_trace := pending_trace_zero \<rparr>"

definition meshcore_runtime_pending_telemetry_clear :: "runtime \<Rightarrow> runtime" where
  "meshcore_runtime_pending_telemetry_clear rt = rt \<lparr> rt_pending_telemetry := pending_telemetry_zero \<rparr>"

definition meshcore_runtime_pending_binary_clear :: "runtime \<Rightarrow> runtime" where
  "meshcore_runtime_pending_binary_clear rt = rt \<lparr> rt_pending_binary := pending_peer_zero \<rparr>"

definition meshcore_runtime_expected_ack_cleanup :: "u32 \<Rightarrow> runtime \<Rightarrow> runtime" where
  "meshcore_runtime_expected_ack_cleanup now_ms rt = rt \<lparr> rt_expected_acks :=
     map (\<lambda>entry. if \<not> ea_valid entry then entry
                  else if meshcore_runtime_time_reached now_ms (ea_expires_at_ms entry)
                  then meshcore_runtime_expected_ack_clear entry else entry)
       (rt_expected_acks rt) \<rparr>"

definition pending_expired :: "u32 \<Rightarrow> 'a pending_trace_scheme \<Rightarrow> bool" where
  "pending_expired now_ms e \<longleftrightarrow> pn_valid e \<and> meshcore_runtime_time_reached now_ms (pn_expires_at_ms e)"

definition meshcore_runtime_correlation_cleanup :: "u32 \<Rightarrow> runtime \<Rightarrow> runtime" where
  "meshcore_runtime_correlation_cleanup now_ms rt =
     (let rt = meshcore_runtime_expected_ack_cleanup now_ms rt;
          rt = (if pending_expired now_ms (rt_pending_discovery rt)
                then meshcore_runtime_pending_discovery_clear rt else rt);
          rt = (if pending_expired now_ms (rt_pending_trace rt)
                then meshcore_runtime_pending_trace_clear rt else rt);
          rt = (if pending_expired now_ms (rt_pending_telemetry rt)
                then meshcore_runtime_pending_telemetry_clear rt else rt) in
      if pending_expired now_ms (rt_pending_binary rt) then meshcore_runtime_pending_binary_clear rt else rt)"

text \<open>
  The deadlines in the order the code visits them, and the visit: it ends at the first
  deadline that is already due.
\<close>

definition deadlines :: "runtime \<Rightarrow> u32 list" where
  "deadlines rt = map ea_expires_at_ms (filter ea_valid (rt_expected_acks rt)) @
     (if pn_valid (rt_pending_discovery rt) then [pn_expires_at_ms (rt_pending_discovery rt)] else []) @
     (if pn_valid (rt_pending_trace rt) then [pn_expires_at_ms (rt_pending_trace rt)] else []) @
     (if pn_valid (rt_pending_telemetry rt) then [pn_expires_at_ms (rt_pending_telemetry rt)] else []) @
     (if pn_valid (rt_pending_binary rt) then [pn_expires_at_ms (rt_pending_binary rt)] else [])"

primrec accumulate_deadlines :: "u32 \<Rightarrow> u32 list \<Rightarrow> u32 option \<Rightarrow> u32 option" where
  "accumulate_deadlines now_ms [] deadline_ms = deadline_ms"
| "accumulate_deadlines now_ms (c # cs) deadline_ms =
     (case meshcore_runtime_deadline_accumulate now_ms c deadline_ms of
        (due, deadline_ms) \<Rightarrow> if due then deadline_ms else accumulate_deadlines now_ms cs deadline_ms)"

definition meshcore_runtime_correlation_next_deadline_get :: "u32 \<Rightarrow> runtime \<Rightarrow> u32 option" where
  "meshcore_runtime_correlation_next_deadline_get now_ms rt = accumulate_deadlines now_ms (deadlines rt) None"

section \<open>Expected acknowledgements\<close>

text \<open>The first slot from \<open>expected_ack_next\<close> on that is free or expired, else the next one.\<close>

definition expected_ack_slot :: "u32 \<Rightarrow> runtime \<Rightarrow> nat" where
  "expected_ack_slot now_ms rt =
     (case find (\<lambda>idx. let entry = rt_expected_acks rt ! idx in
                   \<not> ea_valid entry \<or> meshcore_runtime_time_reached now_ms (ea_expires_at_ms entry))
             (map (\<lambda>i. (rt_expected_ack_next rt + i) mod 8) [0..<8]) of
        Some idx \<Rightarrow> idx
      | None \<Rightarrow> rt_expected_ack_next rt)"

definition expected_ack_store :: "u32 \<Rightarrow> u32 \<Rightarrow> bytes \<Rightarrow> byte \<Rightarrow> runtime \<Rightarrow> runtime" where
  "expected_ack_store now_ms ack_crc target attempt rt =
     (let slot_idx = expected_ack_slot now_ms rt in
      rt \<lparr> rt_expected_acks := (rt_expected_acks rt)[slot_idx :=
             \<lparr> ea_valid = True, ea_msg_sent_ms = now_ms, ea_expires_at_ms = now_ms + request_timeout_ms,
               ea_ack_crc = ack_crc, ea_target = mem_write 0 (mem_read 0 4 target) (zeros 4),
               ea_attempt = attempt \<rparr>],
           rt_expected_ack_next := (slot_idx + 1) mod 8 \<rparr>)"

definition meshcore_runtime_expected_ack_register ::
  "'w host \<Rightarrow> u32 \<Rightarrow> bytes \<Rightarrow> byte \<Rightarrow> ('w, unit) rt_op" where
  "meshcore_runtime_expected_ack_register h ack_crc target attempt = do {
     now_ms \<leftarrow> meshcore_clock_millis_get h;
     if ack_crc = 0 then ret ()
     else rt_modify (expected_ack_store now_ms ack_crc target attempt)
   }"

text \<open>The search for an acknowledgement drops the expired entries it passes.\<close>

primrec expected_ack_search :: "u32 \<Rightarrow> u32 \<Rightarrow> expected_ack list \<Rightarrow> expected_ack option \<times> expected_ack list" where
  "expected_ack_search now_ms ack_crc [] = (None, [])"
| "expected_ack_search now_ms ack_crc (entry # entries) =
     (if \<not> ea_valid entry then
        case expected_ack_search now_ms ack_crc entries of (found, entries) \<Rightarrow> (found, entry # entries)
      else if meshcore_runtime_time_reached now_ms (ea_expires_at_ms entry) then
        case expected_ack_search now_ms ack_crc entries of
          (found, entries) \<Rightarrow> (found, meshcore_runtime_expected_ack_clear entry # entries)
      else if ea_ack_crc entry \<noteq> ack_crc then
        case expected_ack_search now_ms ack_crc entries of (found, entries) \<Rightarrow> (found, entry # entries)
      else (Some entry, meshcore_runtime_expected_ack_clear entry # entries))"

definition meshcore_runtime_expected_ack_handle :: "'w host \<Rightarrow> u32 \<Rightarrow> ('w, bool) rt_op" where
  "meshcore_runtime_expected_ack_handle h ack_crc = do {
     now_ms \<leftarrow> meshcore_clock_millis_get h;
     rt \<leftarrow> rt_get;
     case expected_ack_search now_ms ack_crc (rt_expected_acks rt) of
       (found, entries) \<Rightarrow> do {
         (case found of
            None \<Rightarrow> ret ()
          | Some entry \<Rightarrow> meshcore_platform_bridge_message_ack_handler h (ea_target entry) (ea_attempt entry));
         rt_modify (\<lambda>rt. rt \<lparr> rt_expected_acks := entries \<rparr>);
         ret (found \<noteq> None)
       }
   }"

section \<open>Registering a request\<close>

definition meshcore_runtime_pending_discovery_register :: "'w host \<Rightarrow> u32 \<Rightarrow> bytes \<Rightarrow> ('w, unit) rt_op" where
  "meshcore_runtime_pending_discovery_register h tag key_prefix = do {
     rt_modify meshcore_runtime_pending_discovery_clear;
     now_ms \<leftarrow> meshcore_clock_millis_get h;
     rt_modify (\<lambda>rt. rt \<lparr> rt_pending_discovery := (rt_pending_discovery rt)
       \<lparr> pn_valid := True, pn_tag := tag, pn_expires_at_ms := now_ms + request_timeout_ms,
         pn_key_prefix := mem_read 0 4 key_prefix \<rparr> \<rparr>)
   }"

definition meshcore_runtime_pending_trace_register :: "'w host \<Rightarrow> u32 \<Rightarrow> ('w, unit) rt_op" where
  "meshcore_runtime_pending_trace_register h tag = do {
     rt_modify meshcore_runtime_pending_trace_clear;
     now_ms \<leftarrow> meshcore_clock_millis_get h;
     rt_modify (\<lambda>rt. rt \<lparr> rt_pending_trace := (rt_pending_trace rt)
       \<lparr> pn_valid := True, pn_tag := tag, pn_expires_at_ms := now_ms + request_timeout_ms \<rparr> \<rparr>)
   }"

definition meshcore_runtime_pending_telemetry_register ::
  "'w host \<Rightarrow> u32 \<Rightarrow> bytes \<Rightarrow> byte \<Rightarrow> ('w, unit) rt_op" where
  "meshcore_runtime_pending_telemetry_register h tag key_prefix permission_mask = do {
     rt_modify meshcore_runtime_pending_telemetry_clear;
     now_ms \<leftarrow> meshcore_clock_millis_get h;
     rt_modify (\<lambda>rt. rt \<lparr> rt_pending_telemetry := (rt_pending_telemetry rt)
       \<lparr> pn_valid := True, pn_tag := tag, pn_expires_at_ms := now_ms + request_timeout_ms,
         pn_key_prefix := mem_read 0 4 key_prefix, pn_permission_mask := permission_mask \<rparr> \<rparr>)
   }"

definition meshcore_runtime_pending_binary_register :: "'w host \<Rightarrow> u32 \<Rightarrow> bytes \<Rightarrow> ('w, unit) rt_op" where
  "meshcore_runtime_pending_binary_register h tag key_prefix = do {
     rt_modify meshcore_runtime_pending_binary_clear;
     now_ms \<leftarrow> meshcore_clock_millis_get h;
     rt_modify (\<lambda>rt. rt \<lparr> rt_pending_binary := (rt_pending_binary rt)
       \<lparr> pn_valid := True, pn_tag := tag, pn_expires_at_ms := now_ms + request_timeout_ms,
         pn_key_prefix := mem_read 0 4 key_prefix \<rparr> \<rparr>)
   }"

section \<open>Handling a response\<close>

text \<open>\<open>extra\<close> and \<open>payload\<close> hold the bytes that the length argument counts.\<close>

definition meshcore_runtime_pending_discovery_handle ::
  "'w host \<Rightarrow> bytes \<Rightarrow> packet \<Rightarrow> bytes \<Rightarrow> byte \<Rightarrow> byte \<Rightarrow> bytes \<Rightarrow> byte \<Rightarrow> ('w, bool) rt_op" where
  "meshcore_runtime_pending_discovery_handle h key_prefix p path path_len_field extra_type extra extra_len = do {
     rt \<leftarrow> rt_get;
     let pending = rt_pending_discovery rt;
     if \<not> pn_valid pending \<or> extra_type \<noteq> 0x01 \<or>
        mem_read 0 4 (pn_key_prefix pending) \<noteq> mem_read 0 4 key_prefix
     then ret False
     else
       (case meshcore_runtime_path_len_decode path_len_field of
          None \<Rightarrow> ret False
        | Some (out_path_len, path_hash_size) \<Rightarrow>
            if extra_len < 4 then ret False
            else if pn_tag pending \<noteq> le_word (mem_read 0 4 extra) then ret False
            else do {
              timestamp \<leftarrow> meshcore_runtime_timestamp_now_seconds h;
              meshcore_platform_bridge_peer_path_publish h
                \<lparr> pe_tag = pn_tag pending,
                  pe_key_prefix = mem_read 0 4 key_prefix,
                  pe_timestamp = timestamp,
                  pe_last_seen_snr = pk_snr_q4 p,
                  pe_out_path_len = out_path_len,
                  pe_path_hash_size = path_hash_size,
                  pe_out_path = mem_write 0 (mem_read 0 (unat out_path_len) path) (zeros 64),
                  pe_out_path_snr_count = 0, pe_out_path_snr = zeros 64,
                  pe_return_path_snr_count = 0, pe_return_path_snr = zeros 64 \<rparr> True;
              rt_modify meshcore_runtime_pending_discovery_clear;
              ret True
            })
   }"

text \<open>
  \<open>trace_snrs path_snrs forward_hops response_snr\<close>: the signal strengths on the way out and on
  the way back.
\<close>

definition trace_snrs :: "bytes \<Rightarrow> nat \<Rightarrow> byte \<Rightarrow> bytes \<times> bytes" where
  "trace_snrs path_snrs forward_hops response_snr =
     (meshcore_runtime_append_snr_with_trunc (mem_read 0 forward_hops path_snrs) 64
        (byte_at path_snrs forward_hops),
      meshcore_runtime_append_snr_with_trunc (mem_read (forward_hops + 1) forward_hops path_snrs) 64
        response_snr)"

definition meshcore_runtime_pending_trace_handle ::
  "'w host \<Rightarrow> u32 \<Rightarrow> byte \<Rightarrow> bytes \<Rightarrow> byte \<Rightarrow> byte \<Rightarrow> byte \<Rightarrow> ('w, bool) rt_op" where
  "meshcore_runtime_pending_trace_handle h tag flags path_snrs path_snr_count path_hash_bytes response_snr = do {
     rt \<leftarrow> rt_get;
     if \<not> pn_valid (rt_pending_trace rt) \<or> pn_tag (rt_pending_trace rt) \<noteq> tag then ret False
     else do {
       let hash_size = (push_bit (unat (flags AND 0x03)) 1 :: byte);
       if hash_size = 0 \<or> hash_size = 4 \<or> path_hash_bytes = 0 \<or> path_hash_bytes mod hash_size \<noteq> 0
       then do { rt_modify meshcore_runtime_pending_trace_clear; ret False }
       else do {
         let hash_count = path_hash_bytes div hash_size;
         if path_snr_count \<noteq> hash_count \<or> hash_count mod 2 = 0
         then do { rt_modify meshcore_runtime_pending_trace_clear; ret False }
         else do {
           let forward_hops = (unat hash_count - 1) div 2;
           let (out_path_snr, return_path_snr) = trace_snrs path_snrs forward_hops response_snr;
           timestamp \<leftarrow> meshcore_runtime_timestamp_now_seconds h;
           meshcore_platform_bridge_trace_path_handler h 1 tag out_path_snr (of_nat (length out_path_snr))
             return_path_snr (of_nat (length return_path_snr)) True response_snr timestamp;
           rt_modify meshcore_runtime_pending_trace_clear;
           ret True
         }
       }
     }
   }"

definition meshcore_runtime_pending_telemetry_handle ::
  "'w host \<Rightarrow> bytes \<Rightarrow> u32 \<Rightarrow> bytes \<Rightarrow> nat \<Rightarrow> ('w, bool) rt_op" where
  "meshcore_runtime_pending_telemetry_handle h key_prefix timestamp payload payload_len = do {
     rt \<leftarrow> rt_get;
     let pending = rt_pending_telemetry rt;
     if \<not> pn_valid pending \<or> payload_len < 4 then ret False
     else do {
       let tag = (le_word (mem_read 0 4 payload) :: u32);
       if pn_tag pending \<noteq> tag \<or> mem_read 0 4 (pn_key_prefix pending) \<noteq> mem_read 0 4 key_prefix
       then ret False
       else do {
         meshcore_platform_bridge_telemetry_handler h key_prefix timestamp tag
           (mem_read 4 (payload_len - 4) payload) (payload_len - 4);
         rt_modify meshcore_runtime_pending_telemetry_clear;
         ret True
       }
     }
   }"

definition meshcore_runtime_pending_binary_handle ::
  "'w host \<Rightarrow> bytes \<Rightarrow> u32 \<Rightarrow> bytes \<Rightarrow> nat \<Rightarrow> ('w, bool) rt_op" where
  "meshcore_runtime_pending_binary_handle h key_prefix timestamp payload payload_len = do {
     rt \<leftarrow> rt_get;
     let pending = rt_pending_binary rt;
     if \<not> pn_valid pending \<or> payload_len < 4 then ret False
     else do {
       let tag = (le_word (mem_read 0 4 payload) :: u32);
       if pn_tag pending \<noteq> tag \<or> mem_read 0 4 (pn_key_prefix pending) \<noteq> mem_read 0 4 key_prefix
       then ret False
       else do {
         meshcore_platform_bridge_binary_response_handler h key_prefix timestamp tag
           (mem_read 4 (payload_len - 4) payload) (payload_len - 4);
         rt_modify meshcore_runtime_pending_binary_clear;
         ret True
       }
     }
   }"

section \<open>Ownership\<close>

lemma rt_ok_clear:
  "rt_ok rt \<Longrightarrow> rt_ok (meshcore_runtime_pending_discovery_clear rt)"
  "rt_ok rt \<Longrightarrow> rt_ok (meshcore_runtime_pending_trace_clear rt)"
  "rt_ok rt \<Longrightarrow> rt_ok (meshcore_runtime_pending_telemetry_clear rt)"
  "rt_ok rt \<Longrightarrow> rt_ok (meshcore_runtime_pending_binary_clear rt)"
  "rt_ok rt \<Longrightarrow> rt_ok (meshcore_runtime_expected_ack_cleanup now rt)"
  by (simp_all add: rt_ok_def meshcore_runtime_pending_discovery_clear_def
      meshcore_runtime_pending_trace_clear_def meshcore_runtime_pending_telemetry_clear_def
      meshcore_runtime_pending_binary_clear_def meshcore_runtime_expected_ack_cleanup_def)

lemma rt_ok_cleanup: "rt_ok rt \<Longrightarrow> rt_ok (meshcore_runtime_correlation_cleanup now rt)"
  by (simp add: meshcore_runtime_correlation_cleanup_def Let_def rt_ok_clear)

lemma expected_ack_slot_less: "rt_ok rt \<Longrightarrow> expected_ack_slot now rt < 8"
  by (auto simp: expected_ack_slot_def rt_ok_def find_Some_iff split: option.splits)

lemma rt_ok_store: "rt_ok rt \<Longrightarrow> rt_ok (expected_ack_store now crc target attempt rt)"
  by (simp add: rt_ok_def expected_ack_store_def Let_def)

lemma length_expected_ack_search:
  "length (snd (expected_ack_search now crc es)) = length es"
  by (induction es) (auto split: prod.splits)

lemma calm_rt_get_bind:
  "(\<And>rt. R rt \<Longrightarrow> calm R (k rt)) \<Longrightarrow> calm R (State_Monad.bind rt_get k)"
  by (fastforce simp: calm_def triple_def rt_get_def owns_def)

lemma calm_rt_write [calm_rules]: "calm rt_ok (rt_modify (\<lambda>rt. rt \<lparr> rt_pending_discovery := f rt \<rparr>))"
  "calm rt_ok (rt_modify (\<lambda>rt. rt \<lparr> rt_pending_trace := f' rt \<rparr>))"
  "calm rt_ok (rt_modify (\<lambda>rt. rt \<lparr> rt_pending_telemetry := f'' rt \<rparr>))"
  "calm rt_ok (rt_modify (\<lambda>rt. rt \<lparr> rt_pending_binary := f rt \<rparr>))"
  "calm rt_ok (rt_modify meshcore_runtime_pending_discovery_clear)"
  "calm rt_ok (rt_modify meshcore_runtime_pending_trace_clear)"
  "calm rt_ok (rt_modify meshcore_runtime_pending_telemetry_clear)"
  "calm rt_ok (rt_modify meshcore_runtime_pending_binary_clear)"
  "calm rt_ok (rt_modify (meshcore_runtime_correlation_cleanup now))"
  "calm rt_ok (rt_modify (expected_ack_store now crc target attempt))"
  by (intro calm_rt_modify rt_ok_clear rt_ok_cleanup rt_ok_store, (assumption | simp add: rt_ok_def))+

lemma calm_ack_register [calm_rules]:
  "calm rt_ok (meshcore_runtime_expected_ack_register h crc target attempt)"
  unfolding meshcore_runtime_expected_ack_register_def by (intro calm_rules)

lemma calm_ack_handle [calm_rules]: "calm rt_ok (meshcore_runtime_expected_ack_handle h crc)"
proof -
  have "calm rt_ok (do {
      rt \<leftarrow> rt_get;
      case expected_ack_search now crc (rt_expected_acks rt) of
        (found, entries) \<Rightarrow> do {
          (case found of None \<Rightarrow> ret ()
           | Some entry \<Rightarrow> meshcore_platform_bridge_message_ack_handler h (ea_target entry) (ea_attempt entry));
          rt_modify (\<lambda>rt. rt \<lparr> rt_expected_acks := entries \<rparr>);
          ret (found \<noteq> None)
        }
    })" for now
  proof (rule calm_rt_get_bind)
    fix rt assume "rt_ok rt"
    then show "calm rt_ok (case expected_ack_search now crc (rt_expected_acks rt) of
        (found, entries) \<Rightarrow> do {
          (case found of None \<Rightarrow> ret ()
           | Some entry \<Rightarrow> meshcore_platform_bridge_message_ack_handler h (ea_target entry) (ea_attempt entry));
          rt_modify (\<lambda>rt. rt \<lparr> rt_expected_acks := entries \<rparr>);
          ret (found \<noteq> None)
        })"
      using length_expected_ack_search [of now crc "rt_expected_acks rt"]
      by (auto simp: rt_ok_def split: prod.splits intro!: calm_rules)
  qed
  then show ?thesis
    unfolding meshcore_runtime_expected_ack_handle_def by (rule calm_bind [OF calm_clock])
qed

lemma calm_pending_register [calm_rules]:
  "calm rt_ok (meshcore_runtime_pending_discovery_register h tag key)"
  "calm rt_ok (meshcore_runtime_pending_trace_register h tag)"
  "calm rt_ok (meshcore_runtime_pending_telemetry_register h tag key perms)"
  "calm rt_ok (meshcore_runtime_pending_binary_register h tag key)"
  unfolding meshcore_runtime_pending_discovery_register_def meshcore_runtime_pending_trace_register_def
    meshcore_runtime_pending_telemetry_register_def meshcore_runtime_pending_binary_register_def
  by (intro calm_rules)+

lemma calm_pending_handle [calm_rules]:
  "calm rt_ok (meshcore_runtime_pending_discovery_handle h key p path plen ety extra elen)"
  "calm rt_ok (meshcore_runtime_pending_trace_handle h tag flags snrs n bs snr)"
  "calm rt_ok (meshcore_runtime_pending_telemetry_handle h key timestamp payload len)"
  "calm rt_ok (meshcore_runtime_pending_binary_handle h key timestamp payload len)"
  unfolding meshcore_runtime_pending_discovery_handle_def meshcore_runtime_pending_trace_handle_def
    meshcore_runtime_pending_telemetry_handle_def meshcore_runtime_pending_binary_handle_def
  by (intro calm_rules)+

section \<open>Properties\<close>

lemma slot_cleanup:
  assumes "\<not> pn_valid z"
  shows "(if pn_valid (if pending_expired now e then z else e)
      then [pn_expires_at_ms (if pending_expired now e then z else e)] else []) =
    filter (\<lambda>d. \<not> meshcore_runtime_time_reached now d) (if pn_valid e then [pn_expires_at_ms e] else [])"
  using assms by (simp add: pending_expired_def)

text \<open>
  Clean-up at a time drops exactly the outstanding requests and expected acknowledgements whose
  deadline has been reached; the deadlines of the others stay as they are, in the same order.
\<close>

theorem cleanup_drops_expired:
  "deadlines (meshcore_runtime_correlation_cleanup now rt) =
   filter (\<lambda>d. \<not> meshcore_runtime_time_reached now d) (deadlines rt)"
proof -
  have acks: "map ea_expires_at_ms (filter ea_valid (rt_expected_acks (meshcore_runtime_expected_ack_cleanup now rt))) =
      filter (\<lambda>d. \<not> meshcore_runtime_time_reached now d)
        (map ea_expires_at_ms (filter ea_valid (rt_expected_acks rt)))"
  proof -
    have "map ea_expires_at_ms (filter ea_valid
        (map (\<lambda>entry. if \<not> ea_valid entry then entry
                else if meshcore_runtime_time_reached now (ea_expires_at_ms entry)
                then meshcore_runtime_expected_ack_clear entry else entry) es)) =
        filter (\<lambda>d. \<not> meshcore_runtime_time_reached now d) (map ea_expires_at_ms (filter ea_valid es))" for es
      by (induction es) (simp_all add: meshcore_runtime_expected_ack_clear_def expected_ack_zero_def)
    then show ?thesis by (simp add: meshcore_runtime_expected_ack_cleanup_def)
  qed
  note clear = meshcore_runtime_pending_discovery_clear_def meshcore_runtime_pending_trace_clear_def
    meshcore_runtime_pending_telemetry_clear_def meshcore_runtime_pending_binary_clear_def
  let ?rt = "meshcore_runtime_correlation_cleanup now rt"
  have rest: "rt_expected_acks ?rt = rt_expected_acks (meshcore_runtime_expected_ack_cleanup now rt)"
    "rt_pending_discovery ?rt = (if pending_expired now (rt_pending_discovery rt) then pending_peer_zero
       else rt_pending_discovery rt)"
    "rt_pending_trace ?rt = (if pending_expired now (rt_pending_trace rt) then pending_trace_zero
       else rt_pending_trace rt)"
    "rt_pending_telemetry ?rt = (if pending_expired now (rt_pending_telemetry rt) then pending_telemetry_zero
       else rt_pending_telemetry rt)"
    "rt_pending_binary ?rt = (if pending_expired now (rt_pending_binary rt) then pending_peer_zero
       else rt_pending_binary rt)"
    unfolding meshcore_runtime_correlation_cleanup_def Let_def
    by (simp_all add: clear if_distrib [of rt_expected_acks] if_distrib [of rt_pending_discovery]
        if_distrib [of rt_pending_trace] if_distrib [of rt_pending_telemetry] if_distrib [of rt_pending_binary]
        meshcore_runtime_expected_ack_cleanup_def)
  have zero: "\<not> pn_valid pending_peer_zero" "\<not> pn_valid pending_trace_zero" "\<not> pn_valid pending_telemetry_zero"
    by (simp_all add: pending_peer_zero_def pending_trace_zero_def pending_telemetry_zero_def)
  show ?thesis
    unfolding deadlines_def filter_append rest acks slot_cleanup [OF zero(1)] slot_cleanup [OF zero(2)]
      slot_cleanup [OF zero(3)] ..
qed

text \<open>The time left until a deadline, none when it has passed.\<close>

definition time_left :: "u32 \<Rightarrow> u32 \<Rightarrow> int" where
  "time_left now d = max 0 (sint (d - now))"

lemma fold_min_zero: "list_all (\<lambda>x. 0 \<le> x) xs \<Longrightarrow> fold min xs (0 :: int) = 0"
  by (induction xs) simp_all

lemma time_left_nonneg: "list_all (\<lambda>x. 0 \<le> x) (map (time_left now) ds)"
  by (simp add: list_all_iff time_left_def)

lemma accumulate_deadlines_fold:
  "0 < sint (b - now) \<Longrightarrow>
   accumulate_deadlines now ds (Some b) = Some (now + of_int (fold min (map (time_left now) ds) (sint (b - now))))"
proof (induction ds arbitrary: b)
  case (Cons d ds)
  show ?case
  proof (cases "sint (d - now) \<le> 0")
    case True
    then have "time_left now d = 0" by (simp add: time_left_def)
    then show ?thesis
      using True Cons.prems fold_min_zero [OF time_left_nonneg [of now ds]]
      by (simp add: meshcore_runtime_deadline_accumulate_def)
  next
    case False
    then have "sint (d - b) = sint (d - now) - sint (b - now)" "time_left now d = sint (d - now)"
      using sint_sub_small [of "d - now" "b - now"] Cons.prems by (simp_all add: time_left_def)
    then show ?thesis
      using False Cons.IH [of b] Cons.IH [of d] Cons.prems
      by (auto simp: meshcore_runtime_deadline_accumulate_def min_def)
  qed
qed simp

text \<open>
  The next deadline of the outstanding requests is the first one to come: the current time plus the
  least of the times left, which is the current time itself when one of them has passed; without
  outstanding requests there is no deadline.  Times are compared around the wrap of the
  32-bit millisecond counter.
\<close>

theorem next_deadline_first:
  "meshcore_runtime_correlation_next_deadline_get now rt =
   (if deadlines rt = [] then None else Some (now + of_int (Min (time_left now ` set (deadlines rt)))))"
proof (cases "deadlines rt")
  case Nil
  then show ?thesis by (simp add: meshcore_runtime_correlation_next_deadline_get_def)
next
  case (Cons d ds)
  have "Min (time_left now ` set (deadlines rt)) = fold min (map (time_left now) ds) (time_left now d)"
    using Min.set_eq_fold [of "time_left now d" "map (time_left now) ds"] by (simp add: Cons)
  then show ?thesis
    using accumulate_deadlines_fold [of d now ds] fold_min_zero [OF time_left_nonneg [of now ds]]
    by (auto simp: meshcore_runtime_correlation_next_deadline_get_def Cons time_left_def
        meshcore_runtime_deadline_accumulate_def)
qed

text \<open>The entries of the ring that wait for an acknowledgement, and what a search does to them.\<close>

definition waits_for :: "u32 \<Rightarrow> expected_ack \<Rightarrow> bool" where
  "waits_for crc e \<longleftrightarrow> ea_valid e \<and> ea_ack_crc e = crc"

definition waiting :: "u32 \<Rightarrow> expected_ack list \<Rightarrow> nat" where
  "waiting crc es = length (filter (waits_for crc) es)"

lemma waiting_simps [simp]:
  "waiting crc [] = 0"
  "waiting crc (e # es) = (if waits_for crc e then 1 else 0) + waiting crc es"
  by (simp_all add: waiting_def)

lemma waiting_0_iff: "waiting crc es = 0 \<longleftrightarrow> (\<forall>e\<in>set es. \<not> waits_for crc e)"
  by (auto simp: waiting_def filter_empty_conv)

lemma waiting_update: "waiting crc (es[i := e]) \<le> waiting crc es + 1"
  by (induction es arbitrary: i) (auto split: nat.split)

lemma search_waiting:
  "expected_ack_search now crc es = (found, es') \<Longrightarrow>
   waiting crc es' + (if found = None then 0 else 1) \<le> waiting crc es \<and>
   (\<forall>e. found = Some e \<longrightarrow> e \<in> set es \<and> waits_for crc e)"
  by (induction es arbitrary: es')
     (fastforce simp: waits_for_def meshcore_runtime_expected_ack_clear_def expected_ack_zero_def
        split: prod.splits if_splits)+

lemma search_finds:
  "e \<in> set es \<Longrightarrow> waits_for crc e \<Longrightarrow> \<not> meshcore_runtime_time_reached now (ea_expires_at_ms e) \<Longrightarrow>
   fst (expected_ack_search now crc es) \<noteq> None"
  by (induction es) (auto simp: waits_for_def split: prod.splits)

lemma run_ack_handle:
  assumes "co_millis_override s = Some now"
    and "expected_ack_search now crc (rt_expected_acks (co_rt s)) = (found, es)"
  shows "run_state (meshcore_runtime_expected_ack_handle h crc) s =
    (found \<noteq> None,
     s \<lparr> co_world := (case found of None \<Rightarrow> co_world s
          | Some e \<Rightarrow> snd (run_state (h_event h (EventMessageAck (ea_target e) (ea_attempt e))) (co_world s))),
         co_rt := co_rt s \<lparr> rt_expected_acks := es \<rparr> \<rparr>)"
  using assms
  by (cases found)
    (simp_all add: meshcore_runtime_expected_ack_handle_def meshcore_clock_millis_get_def rt_get_def rt_modify_def
      gets_def modify_def meshcore_platform_bridge_message_ack_handler_def notify_def call_def Let_def split_beta)

text \<open>
  The acknowledgements of one checksum that arrive at the given times, and how many of them are
  reported.
\<close>

primrec handle_acks :: "'w host \<Rightarrow> u32 \<Rightarrow> u32 list \<Rightarrow> ('w, runtime) core \<Rightarrow> nat \<times> ('w, runtime) core" where
  "handle_acks h crc [] s = (0, s)"
| "handle_acks h crc (t # ts) s =
     (case run_state (meshcore_runtime_expected_ack_handle h crc) (s \<lparr> co_millis_override := Some t \<rparr>) of
        (reported, s) \<Rightarrow> case handle_acks h crc ts s of (k, s) \<Rightarrow> ((if reported then 1 else 0) + k, s))"

lemma handle_acks_bounded:
  "handle_acks h crc ts s = (k, s') \<Longrightarrow>
   k \<le> waiting crc (rt_expected_acks (co_rt s)) \<and> (k = 0 \<longrightarrow> co_world s' = co_world s)"
proof (induction ts arbitrary: s k)
  case (Cons t ts)
  obtain found es where f: "expected_ack_search t crc (rt_expected_acks (co_rt s)) = (found, es)" by force
  let ?s = "s \<lparr> co_millis_override := Some t \<rparr>"
  obtain s1 where s1: "run_state (meshcore_runtime_expected_ack_handle h crc) ?s = (found \<noteq> None, s1)"
    "rt_expected_acks (co_rt s1) = es" "found = None \<longrightarrow> co_world s1 = co_world s"
    using run_ack_handle [of ?s t crc found es h] f by simp
  obtain j where "handle_acks h crc ts s1 = (j, s')" "k = (if found = None then 0 else 1) + j"
    using Cons.prems s1(1) by (auto split: prod.splits)
  with Cons.IH [of s1 j] s1 search_waiting [OF f] show ?case by (auto split: if_splits)
qed simp

text \<open>
  C30. A registered message is acknowledged to the host once.  When a message with a non-zero
  checksum \<open>crc\<close> is registered at time \<open>now\<close>, the first acknowledgement of that checksum, arriving
  less than 10 seconds later, is reported: the host sees one event, with the recipient's prefix
  and the attempt of an entry that waits for this checksum.  However many acknowledgements of the
  same checksum follow, at whatever times, at most as many of them are reported as entries
  waited for the checksum before this registration.  When there was none, the event is that of
  this message and nothing more is reported; a message registered twice, as two identical sends
  within a second do, may be reported twice.
\<close>

theorem ack_reported_once:
  assumes "rt_ok (co_rt s)" and "co_millis_override s = Some now" and "crc \<noteq> 0" and "4 \<le> length target"
    and "\<not> meshcore_runtime_time_reached later (now + 10000)"
    and "s1 = snd (run_state (meshcore_runtime_expected_ack_register h crc target attempt) s)"
    and "run_state (meshcore_runtime_expected_ack_handle h crc) (s1 \<lparr> co_millis_override := Some later \<rparr>) = (reported, s2)"
    and "handle_acks h crc ts s2 = (reported_again, s3)"
  shows "reported \<and>
    (\<exists>e\<in>set (rt_expected_acks (co_rt s1)). waits_for crc e \<and>
       co_world s2 = snd (run_state (h_event h (EventMessageAck (ea_target e) (ea_attempt e))) (co_world s))) \<and>
    reported_again \<le> waiting crc (rt_expected_acks (co_rt s)) \<and>
    (waiting crc (rt_expected_acks (co_rt s)) = 0 \<longrightarrow>
       co_world s2 = snd (run_state (h_event h (EventMessageAck (mem_read 0 4 target) attempt)) (co_world s)) \<and>
       reported_again = 0 \<and> co_world s3 = co_world s2)"
proof -
  let ?i = "expected_ack_slot now (co_rt s)" and ?es = "rt_expected_acks (co_rt s)"
  let ?e = "\<lparr> ea_valid = True, ea_msg_sent_ms = now, ea_expires_at_ms = now + 10000, ea_ack_crc = crc,
    ea_target = mem_read 0 4 target, ea_attempt = attempt \<rparr>"
  have i: "?i < length ?es" using expected_ack_slot_less [OF assms(1)] assms(1) by (simp add: rt_ok_def)
  have "mem_write 0 (mem_read 0 4 target) (zeros 4) = mem_read 0 4 target"
    using assms(4) by (simp add: mem_write_def mem_read_def zeros_def)
  then have s1: "rt_expected_acks (co_rt s1) = ?es[?i := ?e]" "co_world s1 = co_world s"
    using assms(2,3) by (simp_all add: assms(6) meshcore_runtime_expected_ack_register_def
        meshcore_clock_millis_get_def gets_def rt_modify_def modify_def expected_ack_store_def Let_def
        request_timeout_ms_def)
  have "?e \<in> set (?es[?i := ?e])" using i by (rule set_update_memI)
  then obtain e es where f: "expected_ack_search later crc (?es[?i := ?e]) = (Some e, es)"
    using search_finds [of ?e "?es[?i := ?e]" crc later] assms(5)
    by (cases "expected_ack_search later crc (?es[?i := ?e])") (auto simp: waits_for_def)
  note found = search_waiting [OF f]
  from run_ack_handle [of "s1 \<lparr> co_millis_override := Some later \<rparr>" later crc "Some e" es h] f s1 assms(7)
  have s2: "reported" "rt_expected_acks (co_rt s2) = es"
    "co_world s2 = snd (run_state (h_event h (EventMessageAck (ea_target e) (ea_attempt e))) (co_world s))" by auto
  have again: "reported_again \<le> waiting crc ?es" "reported_again = 0 \<longrightarrow> co_world s3 = co_world s2"
    using handle_acks_bounded [OF assms(8)] s2(2) found waiting_update [of crc ?es ?i ?e] by auto
  have "e = ?e" if "waiting crc ?es = 0"
    using that found set_update_subset_insert [of ?es ?i ?e] by (auto simp: waiting_0_iff)
  with s2 s1 found again show ?thesis by auto
qed

theorem ack_reported_once_witness:
  "\<exists>s2 s3.
     run_state (meshcore_runtime_expected_ack_handle example_host 77)
       (snd (run_state (meshcore_runtime_expected_ack_register example_host 77 [1, 2, 3, 4] 0) example_state)
         \<lparr> co_millis_override := Some 5000 \<rparr>) = (True, s2) \<and>
     handle_acks example_host 77 [6000, 7000] s2 = (0, s3) \<and> co_world s3 = co_world s2"
proof -
  let ?s1 = "snd (run_state (meshcore_runtime_expected_ack_register example_host 77 [1, 2, 3, 4] 0) example_state)"
  have ok: "rt_ok (co_rt example_state)" "co_millis_override example_state = Some 1000"
    "\<not> meshcore_runtime_time_reached 5000 (1000 + 10000)"
    "waiting 77 (rt_expected_acks (co_rt example_state)) = 0"
    by code_simp+
  obtain r s2 where r: "run_state (meshcore_runtime_expected_ack_handle example_host 77)
      (?s1 \<lparr> co_millis_override := Some 5000 \<rparr>) = (r, s2)" by fastforce
  obtain k s3 where k: "handle_acks example_host 77 [6000, 7000] s2 = (k, s3)" by fastforce
  from ack_reported_once [OF ok(1,2) _ _ ok(3) refl r k] have "r \<and> k = 0 \<and> co_world s3 = co_world s2"
    using ok(4) by simp
  with r k show ?thesis by auto
qed

end
