(* ===== verification/Runtime_Publish.thy ===== *)
theory Runtime_Publish
  imports Runtime_Pending
begin

text \<open>
  The events the runtime publishes to the host (\<open>runtime/meshcore_runtime_event_publish.c\<close>) and
  its answer to a discovery request (\<open>runtime/meshcore_runtime_control.c\<close>).

  Every event struct starts out zeroed.  The arrays of an event have the sizes of
  \<open>types.h\<close>; \<open>published_event_wf\<close> states that what is written into
  them fits and that every count of bytes or entries is at most the size of its array.
\<close>

section \<open>Helpers\<close>

definition meshcore_runtime_message_route_from_packet :: "packet \<Rightarrow> message_route" where
  "meshcore_runtime_message_route_from_packet p =
     (if meshcore_packet_is_route_flood p then ROUTE_FLOOD
      else if meshcore_packet_is_route_direct p then ROUTE_DIRECT
      else ROUTE_UNSPECIFIED)"

text \<open>\<open>snprintf(dest, size, "%s", s)\<close> and \<open>memchr(data, c, len)\<close>.\<close>

definition snprintf_s :: "bytes \<Rightarrow> nat \<Rightarrow> bytes \<Rightarrow> bytes" where
  "snprintf_s dest n s = mem_write 0 (take (n - 1) (c_string s) @ [0]) dest"

definition memchr :: "bytes \<Rightarrow> byte \<Rightarrow> nat \<Rightarrow> nat option" where
  "memchr data c len = find (\<lambda>i. byte_at data i = c) [0..<len]"

definition unknown_name :: bytes where
  "unknown_name = [117, 110, 107, 110, 111, 119, 110]"

definition packet_rx_snr :: "packet \<Rightarrow> rat" where
  "packet_rx_snr p = f32 (of_int (sint (pk_snr_q4 p)) / 4)"

text \<open>The number of path bytes and the buffer they are copied to.\<close>

definition meshcore_runtime_packet_path_copy :: "packet \<Rightarrow> bytes \<Rightarrow> nat \<Rightarrow> byte \<times> bytes" where
  "meshcore_runtime_packet_path_copy p dest dest_len =
     (if dest_len = 0 then (0, dest)
      else
        let path_bytes = of_nat (min (unat (meshcore_packet_get_path_byte_len p)) dest_len) :: byte in
        (path_bytes, mem_write 0 (mem_read 0 (unat path_bytes) (pk_path p)) dest))"

definition meshcore_runtime_role_from_advert_type :: "byte \<Rightarrow> node_role" where
  "meshcore_runtime_role_from_advert_type ty =
     (let ty = ty AND 0x0F in
      if ty = 1 then ROLE_CHAT
      else if ty = 2 then ROLE_REPEATER
      else if ty = 3 then ROLE_ROOM
      else if ty = 4 then ROLE_SENSOR
      else ROLE_NONE)"

section \<open>Messages\<close>

definition meshcore_runtime_text_message_publish ::
  "'w host \<Rightarrow> peer_identity \<Rightarrow> packet \<Rightarrow> u32 \<Rightarrow> bytes \<Rightarrow> nat \<Rightarrow> ('w, unit) rt_op" where
  "meshcore_runtime_text_message_publish h peer p sender_timestamp txt text_len =
     (if text_len = 0 then ret ()
      else
        let payload_len = min text_len 160 in
        meshcore_platform_bridge_message_handler h
          \<lparr> ms_type = MESSAGE_TYPE_RECEIVE_NODE,
            ms_route = meshcore_runtime_message_route_from_packet p,
            ms_target_len = 4,
            ms_target = mem_write 0 (mem_read 0 4 (pi_public_key peer)) (zeros 4),
            ms_sender_name = snprintf_s (zeros 32) 32 (pi_name peer),
            ms_payload_len = of_nat payload_len,
            ms_payload = mem_write 0 (mem_read 0 payload_len txt) (zeros 160),
            ms_sender_timestamp = ucast sender_timestamp,
            ms_has_rx_snr = True,
            ms_rx_snr = packet_rx_snr p \<rparr>)"

text \<open>
  A channel text is \<open>name: text\<close>.  The split gives the name buffer and where the text
  starts and ends.
\<close>

definition channel_text_split :: "bytes \<Rightarrow> nat \<Rightarrow> bytes \<times> nat \<times> nat" where
  "channel_text_split txt text_len =
     (case memchr txt 58 text_len of
        None \<Rightarrow> (snprintf_s (zeros 32) 32 unknown_name, 0, text_len)
      | Some colon \<Rightarrow>
          let sender_name =
                (if colon = 0 then snprintf_s (zeros 32) 32 unknown_name
                 else
                   let name_len = min colon 31 in
                   mem_write name_len [0] (mem_write 0 (mem_read 0 name_len txt) (zeros 32)));
              payload = colon + 1;
              payload_len = text_len - payload in
          if payload_len > 0 \<and> byte_at txt payload = 32
          then (sender_name, payload + 1, payload_len - 1)
          else (sender_name, payload, payload_len))"

definition meshcore_runtime_channel_text_publish ::
  "'w host \<Rightarrow> group_channel \<Rightarrow> packet \<Rightarrow> u32 \<Rightarrow> bytes \<Rightarrow> nat \<Rightarrow> ('w, unit) rt_op" where
  "meshcore_runtime_channel_text_publish h channel p sender_timestamp txt text_len =
     (if text_len = 0 then ret ()
      else
        let (sender_name, payload, payload_len) = channel_text_split txt text_len in
        if payload_len = 0 then ret ()
        else
          let payload_len = min payload_len 160 in
          meshcore_platform_bridge_message_handler h
            \<lparr> ms_type = MESSAGE_TYPE_RECEIVE_CHANNEL,
              ms_route = meshcore_runtime_message_route_from_packet p,
              ms_target_len = 4,
              ms_target = mem_write 0 (mem_read 0 4 (gc_secret channel)) (zeros 4),
              ms_sender_name = sender_name,
              ms_payload_len = of_nat payload_len,
              ms_payload = mem_write 0 (mem_read payload payload_len txt) (zeros 160),
              ms_sender_timestamp = ucast sender_timestamp,
              ms_has_rx_snr = True,
              ms_rx_snr = packet_rx_snr p \<rparr>)"

section \<open>Data\<close>

definition meshcore_runtime_channel_data_publish ::
  "'w host \<Rightarrow> group_channel \<Rightarrow> packet \<Rightarrow> bytes \<Rightarrow> nat \<Rightarrow> ('w, unit) rt_op" where
  "meshcore_runtime_channel_data_publish h channel p data len =
     (if len < 3 then ret ()
      else
        let data_type = ucast (byte_at data 0) OR push_bit 8 (ucast (byte_at data 1)) :: u16;
            data_len = byte_at data 2;
            available_len = len - 3 in
        if unat data_len > available_len \<or> unat data_len > 165 then ret ()
        else
          let (path_len, path) = meshcore_runtime_packet_path_copy p (zeros 64) 64 in
          meshcore_platform_bridge_channel_data_handler h
            \<lparr> cd_channel_hash = mem_write 0 (mem_read 0 1 (gc_hash channel)) (zeros 1),
              cd_path_len = path_len,
              cd_path = path,
              cd_data_type = data_type,
              cd_payload_len = data_len,
              cd_payload = mem_write 0 (mem_read 3 (unat data_len) data) (zeros 165),
              cd_has_rx_snr = True,
              cd_rx_snr_q4 = pk_snr_q4 p \<rparr>)"

text \<open>The payload of a packet as a control-data or raw-data event.\<close>

definition packet_data_event :: "packet \<Rightarrow> data_event option" where
  "packet_data_event p =
     (if pk_payload_len p = 0 \<or> unat (pk_payload_len p) > 184 then None
      else
        let (path_len, path) = meshcore_runtime_packet_path_copy p (zeros 64) 64;
            payload_len = ucast (pk_payload_len p) :: byte in
        Some \<lparr> de_path_len = path_len,
               de_path = path,
               de_payload_len = payload_len,
               de_payload = mem_write 0 (mem_read 0 (unat payload_len) (pk_payload p)) (zeros 184),
               de_has_rx_snr = True,
               de_rx_snr_q4 = pk_snr_q4 p \<rparr>)"

definition meshcore_runtime_control_data_publish :: "'w host \<Rightarrow> packet \<Rightarrow> ('w, unit) rt_op" where
  "meshcore_runtime_control_data_publish h p =
     (case packet_data_event p of
        None \<Rightarrow> ret ()
      | Some event \<Rightarrow> meshcore_platform_bridge_control_data_handler h event)"

definition meshcore_runtime_raw_data_publish :: "'w host \<Rightarrow> packet \<Rightarrow> ('w, unit) rt_op" where
  "meshcore_runtime_raw_data_publish h p =
     (case packet_data_event p of
        None \<Rightarrow> ret ()
      | Some event \<Rightarrow> meshcore_platform_bridge_raw_data_handler h event)"

definition meshcore_runtime_node_discover_publish :: "'w host \<Rightarrow> packet \<Rightarrow> ('w, unit) rt_op" where
  "meshcore_runtime_node_discover_publish h p =
     (if pk_payload_len p < 6 \<or> byte_at (pk_payload p) 0 AND 0xF0 \<noteq> 0x90 then ret ()
      else
        let role = meshcore_runtime_role_from_advert_type (byte_at (pk_payload p) 0 AND 0x0F) in
        if role = ROLE_NONE then ret ()
        else
          let key_len = unat (pk_payload_len p) - 6 in
          if key_len < 8 then ret ()
          else
            let key_len = (if key_len > 32 then 32 else key_len);
                (path_len, path) = meshcore_runtime_packet_path_copy p (zeros 64) 64 in
            meshcore_platform_bridge_node_discover_handler h
              \<lparr> nd_role = role,
                nd_tag = le_word (mem_read 2 4 (pk_payload p)),
                nd_public_key_len = of_nat key_len,
                nd_public_key = mem_write 0 (mem_read 6 key_len (pk_payload p)) (zeros 32),
                nd_path_len = path_len,
                nd_path = path,
                nd_uplink_snr = byte_at (pk_payload p) 1,
                nd_downlink_snr = pk_snr_q4 p \<rparr>)"

definition meshcore_runtime_binary_request_publish ::
  "'w host \<Rightarrow> peer_identity \<Rightarrow> packet \<Rightarrow> u32 \<Rightarrow> bytes \<Rightarrow> nat \<Rightarrow> ('w, unit) rt_op" where
  "meshcore_runtime_binary_request_publish h peer p tag payload payload_len =
     (if payload_len = 0 \<or> payload_len > 163 \<or> tag = 0 then ret ()
      else
        meshcore_platform_bridge_binary_request_handler h
          \<lparr> br_route = meshcore_runtime_message_route_from_packet p,
            br_key_prefix = mem_write 0 (mem_read 0 4 (pi_public_key peer)) (zeros 4),
            br_tag = tag,
            br_public_key = mem_write 0 (mem_read 0 32 (pi_public_key peer)) (zeros 32),
            br_path_len = ucast (pk_path_len p),
            br_path = snd (meshcore_runtime_packet_path_copy p (zeros 64) 64),
            br_payload_len = of_nat payload_len,
            br_payload = mem_write 0 (mem_read 0 payload_len payload) (zeros 163),
            br_has_rx_snr = True,
            br_rx_snr_q4 = pk_snr_q4 p \<rparr>)"

section \<open>Paths and adverts\<close>

text \<open>
  The signal strengths on the way out, as the peer reports them, and on the way back, as the
  packet recorded them.
\<close>

definition peer_path_snrs :: "packet \<Rightarrow> byte \<Rightarrow> bytes \<Rightarrow> byte \<Rightarrow> bytes \<times> bytes" where
  "peer_path_snrs p extra_type extra extra_len =
     (if extra_type = 0x0E \<and> extra_len \<ge> 1 then
        let out_count = byte_at extra 0;
            out_count = (if out_count > extra_len - 1 then extra_len - 1 else out_count);
            out_count = min out_count 64 in
        (mem_read 1 (unat out_count) extra,
         case meshcore_runtime_extract_return_path_snrs p of
           None \<Rightarrow> []
         | Some snrs \<Rightarrow> meshcore_runtime_append_snr_with_trunc snrs 64 (pk_snr_q4 p))
      else ([], []))"

definition meshcore_runtime_peer_path_publish ::
  "'w host \<Rightarrow> packet \<Rightarrow> peer_identity \<Rightarrow> bytes \<Rightarrow> byte \<Rightarrow> byte \<Rightarrow> bytes \<Rightarrow> byte \<Rightarrow> ('w, unit) rt_op" where
  "meshcore_runtime_peer_path_publish h p peer path path_len extra_type extra extra_len =
     (case meshcore_runtime_path_len_decode path_len of
        None \<Rightarrow> ret ()
      | Some (path_byte_len, path_hash_size) \<Rightarrow> do {
          chat \<leftarrow> meshcore_runtime_local_role_is h ROLE_CHAT;
          let (out_snr, return_snr) = (if chat then peer_path_snrs p extra_type extra extra_len else ([], []));
          timestamp \<leftarrow> meshcore_runtime_timestamp_now_seconds h;
          meshcore_platform_bridge_peer_path_handler h
            \<lparr> pe_tag = 0,
              pe_key_prefix = mem_write 0 (mem_read 0 4 (pi_public_key peer)) (zeros 4),
              pe_timestamp = timestamp,
              pe_last_seen_snr = pk_snr_q4 p,
              pe_out_path_len = path_byte_len,
              pe_path_hash_size = path_hash_size,
              pe_out_path = mem_write 0 (mem_read 0 (unat path_byte_len) path) (zeros 64),
              pe_out_path_snr_count = of_nat (length out_snr),
              pe_out_path_snr = mem_write 0 out_snr (zeros 64),
              pe_return_path_snr_count = of_nat (length return_snr),
              pe_return_path_snr = mem_write 0 return_snr (zeros 64) \<rparr>
        })"

definition meshcore_runtime_raw_advert_copy :: "packet \<Rightarrow> bytes \<Rightarrow> nat \<Rightarrow> byte \<times> bytes" where
  "meshcore_runtime_raw_advert_copy p dest dest_len =
     (if dest_len = 0 then (0, dest)
      else
        let normalized = p \<lparr> pk_header := (pk_header p AND NOT 0x03) OR ROUTE_TYPE_FLOOD \<rparr>;
            (raw_len, dest) = meshcore_packet_write_to normalized dest in
        if raw_len = 0 \<or> unat raw_len > dest_len then (0, dest) else (raw_len, dest))"

definition meshcore_runtime_advert_publish ::
  "'w host \<Rightarrow> packet \<Rightarrow> identity \<Rightarrow> u32 \<Rightarrow> advert_data_parser \<Rightarrow> ('w, bool) rt_op" where
  "meshcore_runtime_advert_publish h p identity timestamp parser =
     (if \<not> meshcore_advert_data_parser_is_valid parser then ret False
      else
        let role = meshcore_runtime_role_from_advert_type (meshcore_advert_data_parser_get_type parser) in
        if role = ROLE_NONE then ret False
        else do {
          let has_position = meshcore_advert_data_parser_has_lat_lon parser;
          let out_path = map_option (\<lambda>(path_byte_len, path_hash_size).
                (of_nat (min (unat path_byte_len) 64) :: byte, path_hash_size))
              (meshcore_runtime_path_len_decode (ucast (pk_path_len p)));
          let (raw_advert_len, raw_advert) = meshcore_runtime_raw_advert_copy p (zeros 255) 255;
          rc \<leftarrow> meshcore_platform_bridge_advert_handler h
            \<lparr> ae_name = (if meshcore_advert_data_parser_has_name parser
                         then snprintf_s (zeros 32) 32 (meshcore_advert_data_parser_get_name parser)
                         else zeros 32),
              ae_role = role,
              ae_public_key = mem_write 0 (mem_read 0 32 (id_pub_key identity)) (zeros 32),
              ae_is_new = True,
              ae_advert_timestamp = timestamp,
              ae_has_position = has_position,
              ae_latitude = (if has_position then of_int (meshcore_advert_data_parser_get_int_lat parser) else 0),
              ae_longitude = (if has_position then of_int (meshcore_advert_data_parser_get_int_lon parser) else 0),
              ae_has_out_path = out_path \<noteq> None,
              ae_out_path_len = (case out_path of None \<Rightarrow> 0 | Some (n, _) \<Rightarrow> n),
              ae_path_hash_size = (case out_path of None \<Rightarrow> 0 | Some (_, sz) \<Rightarrow> sz),
              ae_out_path = (case out_path of None \<Rightarrow> zeros 64
                 | Some (n, _) \<Rightarrow> mem_write 0 (mem_read 0 (unat n) (pk_path p)) (zeros 64)),
              ae_raw_advert_len = raw_advert_len,
              ae_raw_advert = raw_advert \<rparr>;
          ret (rc = 0)
        })"

section \<open>Discovery requests\<close>

text \<open>The policy handlers of \<open>s_runtime_mesh_ops\<close>; its receive handlers are in \<open>Runtime_Receive\<close>.\<close>

definition policy_ops :: "'w host \<Rightarrow> ('w, 'r) mesh_ops" where
  "policy_ops h = no_ops \<lparr>
     op_allow_packet_forward := Some (meshcore_runtime_protocol_allow_packet_forward h),
     op_get_retransmit_delay := Some (meshcore_runtime_protocol_get_retransmit_delay h),
     op_get_direct_retransmit_delay := Some (meshcore_runtime_protocol_get_direct_retransmit_delay h) \<rparr>"

text \<open>\<open>send_discover_reply h data len\<close>: the reply is created and sent to the neighbours.\<close>

definition send_discover_reply :: "'w host \<Rightarrow> bytes \<Rightarrow> nat \<Rightarrow> ('w, bool) rt_op" where
  "send_discover_reply h data len = do {
     reply \<leftarrow> meshcore_mesh_create_control_data data len;
     case reply of
       None \<Rightarrow> ret False
     | Some r \<Rightarrow> do {
         q \<leftarrow> pk_get r;
         delay \<leftarrow> meshcore_mesh_runtime_get_retransmit_delay h (policy_ops h) q;
         meshcore_mesh_send_zero_hop h r (delay * 4);
         ret True
       }
   }"

definition meshcore_runtime_handle_control_discover_request :: "'w host \<Rightarrow> packet \<Rightarrow> ('w, bool) rt_op" where
  "meshcore_runtime_handle_control_discover_request h p =
     (if pk_payload_len p < 6 \<or> byte_at (pk_payload p) 0 AND 0xF0 \<noteq> 0x80 then ret False
      else do {
        (rc, last_modify) \<leftarrow> meshcore_platform_bridge_node_config_last_modify_get h;
        if rc \<noteq> 0 then ret False
        else do {
          identity \<leftarrow> meshcore_runtime_local_identity_get h;
          case identity of
            None \<Rightarrow> ret False
          | Some identity \<Rightarrow> do {
              let advert_type = meshcore_runtime_role_to_advert_type (ni_role identity);
              if advert_type = 0 then ret False
              else do {
                let filter_bits = byte_at (pk_payload p) 1;
                let tag = (le_word (mem_read 2 4 (pk_payload p)) :: u32);
                let since = (if pk_payload_len p \<ge> 10 then le_word (mem_read 6 4 (pk_payload p)) else 0 :: u32);
                if ucast filter_bits AND push_bit (unat advert_type) (1 :: u32) = 0 \<or> last_modify < since
                then ret False
                else do {
                  let prefix_only = (byte_at (pk_payload p) 0 AND 0x01 \<noteq> 0);
                  let data = [0x90 OR advert_type, pk_snr_q4 p] @ le_bytes 4 tag @
                    mem_read 0 32 (ni_public_key identity);
                  send_discover_reply h data (if prefix_only then 6 + 8 else 6 + 32)
                }
              }
            }
        }
      })"

section \<open>Ownership\<close>

lemma calm_publish [calm_rules]:
  "calm R (meshcore_runtime_text_message_publish h peer p timestamp txt len)"
  "calm R (meshcore_runtime_channel_text_publish h channel p timestamp txt len)"
  "calm R (meshcore_runtime_channel_data_publish h channel p data len)"
  "calm R (meshcore_runtime_control_data_publish h p)"
  "calm R (meshcore_runtime_raw_data_publish h p)"
  "calm R (meshcore_runtime_node_discover_publish h p)"
  "calm R (meshcore_runtime_binary_request_publish h peer p tag payload len)"
  "calm R (meshcore_runtime_peer_path_publish h p peer path path_len ety extra elen)"
  "calm R (meshcore_runtime_advert_publish h p i timestamp parser)"
  unfolding meshcore_runtime_text_message_publish_def meshcore_runtime_channel_text_publish_def
    meshcore_runtime_channel_data_publish_def meshcore_runtime_control_data_publish_def
    meshcore_runtime_raw_data_publish_def meshcore_runtime_node_discover_publish_def
    meshcore_runtime_binary_request_publish_def meshcore_runtime_peer_path_publish_def
    meshcore_runtime_advert_publish_def
  by (intro calm_rules)+

lemma calm_policy_delay [calm_rules]:
  "calm R (meshcore_mesh_runtime_get_retransmit_delay h (policy_ops h) p)"
  unfolding meshcore_mesh_runtime_get_retransmit_delay_def policy_ops_def
  by (simp add: no_ops_def calm_rules)

lemma takes_ret:
  assumes "takes R r \<Phi> m"
  shows "takes R r \<Phi> (State_Monad.bind m (\<lambda>_. ret a))"
  unfolding takes_def
proof (intro allI impI)
  fix out H P
  assume "packet_wf (P r)" "\<Phi> (P r)"
  then have "triple (owns R out (add_mset r H) P) m (\<lambda>_. owns R out H P)"
    using assms by (simp add: takes_def)
  then show "triple (owns R out (add_mset r H) P) (State_Monad.bind m (\<lambda>_. ret a)) (\<lambda>_. owns R out H P)"
    by (rule triple_bind) (simp add: triple_def)
qed

lemma calm_discover_reply [calm_rules]: "calm R (send_discover_reply h data len)"
  unfolding send_discover_reply_def meshcore_mesh_create_control_data_def
  by (intro calm_bind_makes_case [OF makes_create_plain] calm_return takes_get takes_calm_bind
      calm_policy_delay takes_ret takes_send_zero_hop) simp

lemma calm_control_discover [calm_rules]:
  "calm R (meshcore_runtime_handle_control_discover_request h p)"
  unfolding meshcore_runtime_handle_control_discover_request_def by (intro calm_rules)

section \<open>Properties\<close>

text \<open>
  What the host may rely on in an event it receives: the arrays have the sizes of \<open>types.h\<close>, the counts
  of bytes and entries stay within them and names are terminated.
\<close>

definition text_event_wf :: "message \<Rightarrow> bool" where
  "text_event_wf m \<longleftrightarrow> length (ms_target m) = 4 \<and> ms_target_len m = 4 \<and>
     length (ms_sender_name m) = 32 \<and> 0 \<in> set (ms_sender_name m) \<and>
     length (ms_payload m) = 160 \<and> 0 < ms_payload_len m \<and> unat (ms_payload_len m) \<le> 160"

definition data_event_wf :: "data_event \<Rightarrow> bool" where
  "data_event_wf e \<longleftrightarrow> length (de_path e) = 64 \<and> unat (de_path_len e) \<le> 64 \<and>
     length (de_payload e) = 184 \<and> 0 < de_payload_len e \<and> unat (de_payload_len e) \<le> 184"

definition published_event_wf :: "host_event \<Rightarrow> bool" where
  "published_event_wf e \<longleftrightarrow>
     (case e of
        EventMessage m \<Rightarrow> text_event_wf m
      | EventRawData d \<Rightarrow> data_event_wf d
      | EventControlData d \<Rightarrow> data_event_wf d
      | EventChannelData d \<Rightarrow>
          length (cd_channel_hash d) = 1 \<and> length (cd_path d) = 64 \<and> unat (cd_path_len d) \<le> 64 \<and>
          length (cd_payload d) = 165 \<and> unat (cd_payload_len d) \<le> 165
      | EventNodeDiscover d \<Rightarrow>
          length (nd_public_key d) = 32 \<and> 8 \<le> unat (nd_public_key_len d) \<and> unat (nd_public_key_len d) \<le> 32 \<and>
          length (nd_path d) = 64 \<and> unat (nd_path_len d) \<le> 64 \<and> nd_role d \<noteq> ROLE_NONE
      | EventBinaryRequest d \<Rightarrow>
          length (br_key_prefix d) = 4 \<and> length (br_public_key d) = 32 \<and> length (br_path d) = 64 \<and>
          br_tag d \<noteq> 0 \<and> length (br_payload d) = 163 \<and> 0 < br_payload_len d \<and> unat (br_payload_len d) \<le> 163
      | EventPeerPath d \<Rightarrow>
          length (pe_key_prefix d) = 4 \<and> length (pe_out_path d) = 64 \<and> unat (pe_out_path_len d) \<le> 64 \<and>
          pe_path_hash_size d \<in> {1, 2, 3} \<and>
          length (pe_out_path_snr d) = 64 \<and> unat (pe_out_path_snr_count d) \<le> 64 \<and>
          length (pe_return_path_snr d) = 64 \<and> unat (pe_return_path_snr_count d) \<le> 64
      | EventAdvert d \<Rightarrow>
          length (ae_name d) = 32 \<and> 0 \<in> set (ae_name d) \<and> ae_role d \<noteq> ROLE_NONE \<and>
          length (ae_public_key d) = 32 \<and> length (ae_out_path d) = 64 \<and> unat (ae_out_path_len d) \<le> 64 \<and>
          length (ae_raw_advert d) = 255 \<and> unat (ae_raw_advert_len d) \<le> 254
      | _ \<Rightarrow> False)"

text \<open>
  The path-length byte of a binary request is not a number of bytes: it is the encoded length
  (hop count and bytes per hop) of the packet, whatever its value.
\<close>

definition encoded_path_len :: "packet \<Rightarrow> host_event \<Rightarrow> bool" where
  "encoded_path_len p e \<longleftrightarrow>
     (case e of EventBinaryRequest d \<Rightarrow> br_path_len d = ucast (pk_path_len p) | _ \<Rightarrow> False)"

text \<open>
  An operation that does nothing or reports one event with the property \<open>P\<close>; an operation
  that may first ask the host the questions \<open>q\<close>; and one that returns whether the host took the
  event.
\<close>

definition publishes :: "(host_event \<Rightarrow> bool) \<Rightarrow> 'w host \<Rightarrow> ('w, unit) rt_op \<Rightarrow> bool" where
  "publishes P h m \<longleftrightarrow> m = ret () \<or> (\<exists>e. P e \<and> m = notify h e)"

definition publishes_after ::
  "('w, 'x) rt_op \<Rightarrow> (host_event \<Rightarrow> bool) \<Rightarrow> 'w host \<Rightarrow> ('w, unit) rt_op \<Rightarrow> bool" where
  "publishes_after q P h m \<longleftrightarrow>
     m = ret () \<or> (\<exists>e. (\<forall>x. P (e x)) \<and> m = do { x \<leftarrow> q; notify h (e x) })"

definition publishes_accepted :: "(host_event \<Rightarrow> bool) \<Rightarrow> 'w host \<Rightarrow> ('w, bool) rt_op \<Rightarrow> bool" where
  "publishes_accepted P h m \<longleftrightarrow>
     m = ret False \<or> (\<exists>e. P e \<and> m = do { rc \<leftarrow> call (h_event h e); ret (rc = 0) })"

abbreviation publishes_wf :: "'w host \<Rightarrow> ('w, unit) rt_op \<Rightarrow> bool" where
  "publishes_wf \<equiv> publishes published_event_wf"

lemma publishesI:
  "publishes P h (ret ())" "P e \<Longrightarrow> publishes P h (notify h e)"
  "publishes_accepted P h (ret False)"
  "P e \<Longrightarrow> publishes_accepted P h (do { rc \<leftarrow> call (h_event h e); ret (rc = 0) })"
  by (auto simp: publishes_def publishes_accepted_def)

lemma length_write_read: "n \<le> k \<Longrightarrow> length (mem_write 0 (mem_read off n src) (zeros k)) = k"
  by (simp add: mem_write_def mem_read_def zeros_def)

lemma snprintf_wf: "length (snprintf_s (zeros 32) 32 s) = 32 \<and> 0 \<in> set (snprintf_s (zeros 32) 32 s)"
  by (auto simp: snprintf_s_def mem_write_def zeros_def)

lemma path_copy_wf:
  "meshcore_runtime_packet_path_copy p (zeros 64) 64 = (n, path) \<Longrightarrow> length path = 64 \<and> unat n \<le> 64"
  by (auto simp: meshcore_runtime_packet_path_copy_def Let_def unat_of_nat length_write_read)

lemma packet_data_event_wf: "packet_data_event p = Some e \<Longrightarrow> data_event_wf e"
  by (auto simp: packet_data_event_def Let_def data_event_wf_def length_write_read unsigned_ucast_eq
      word_neq_0_conv word_less_nat_alt take_bit_eq_mod dest!: path_copy_wf split: if_splits prod.splits)

lemma channel_name_wf:
  "channel_text_split txt len = (sender, off, n) \<Longrightarrow> length sender = 32 \<and> 0 \<in> set sender"
  using snprintf_wf [of unknown_name]
  by (auto simp: channel_text_split_def Let_def mem_write_def mem_read_def zeros_def
      split: option.splits if_splits)

lemma length_mem_write_within:
  "length b \<le> n \<Longrightarrow> off + n \<le> length d \<Longrightarrow> length (mem_write off b d) = length d"
  by simp

lemma write_to_bounds:
  assumes "meshcore_packet_write_to p dest = (n, d)" and "255 \<le> length dest"
  shows "length d = length dest \<and> unat n \<le> 254"
proof (cases "meshcore_packet_is_valid_path_len (meshcore_packet_path_len_field p) \<and> unat (pk_payload_len p) \<le> 184")
  case False
  then show ?thesis using assms(1) by (auto simp: meshcore_packet_write_to_def)
next
  case True
  let ?f = "meshcore_packet_path_len_field p"
  have pb: "path_bytes ?f \<le> 64" using True by (simp add: valid_path_len_iff)
  have pl: "unat (ucast (pk_payload_len p) :: byte) = unat (pk_payload_len p)"
    using True by (simp add: unsigned_ucast_eq take_bit_nat_eq_self)
  have u: "unat (k + of_nat (path_bytes ?f) :: byte) = unat k + path_bytes ?f"
    "unat (k + of_nat (path_bytes ?f) + ucast (pk_payload_len p) :: byte) =
       unat k + path_bytes ?f + unat (pk_payload_len p)" if "k \<in> {2, 6}" for k
    using that pb pl True by (auto simp: unat_word_ariths unat_of_nat)
  have n: "unat (2::byte) = 2" "unat (3::byte) = 3" "unat (5::byte) = 5" "unat (6::byte) = 6" by simp_all
  have path: "length (mem_write off (mem_read 0 (path_bytes ?f) (pk_path p)) x) = length x"
    if "off + path_bytes ?f \<le> length x" for off x
    using that by (rule length_mem_write_within [OF length_mem_read_le])
  have pay: "length (mem_write off (mem_read 0 (unat (pk_payload_len p)) (pk_payload p)) x) = length x"
    if "off + unat (pk_payload_len p) \<le> length x" for off x
    using that by (rule length_mem_write_within [OF length_mem_read_le])
  show ?thesis
    using assms True pb u [of 2] u [of 6] n
    by (auto simp: meshcore_packet_write_to_def Let_def write_path_eq path pay split: if_splits)
qed

lemma raw_advert_bounds:
  "meshcore_runtime_raw_advert_copy p (zeros 255) 255 = (n, d) \<Longrightarrow> length d = 255 \<and> unat n \<le> 254"
  by (auto simp: meshcore_runtime_raw_advert_copy_def Let_def dest!: write_to_bounds
      split: prod.splits if_splits)

lemma peer_snrs_bounds:
  "peer_path_snrs p ety extra elen = (out, back) \<Longrightarrow> length out \<le> 64 \<and> length back \<le> 64"
proof -
  have "unat (meshcore_packet_get_path_hash_count p) \<le> 63"
    using hash_count_le by (simp add: meshcore_packet_get_path_hash_count_def flip: hash_count_def)
  then show "peer_path_snrs p ety extra elen = (out, back) \<Longrightarrow> length out \<le> 64 \<and> length back \<le> 64"
    using order_trans [OF length_mem_read_le [of 1 _ extra]]
    by (auto simp: peer_path_snrs_def Let_def meshcore_runtime_append_snr_with_trunc_def min_def
        word_le_nat_alt meshcore_runtime_extract_return_path_snrs_def split: if_splits option.splits)
qed

lemma path_len_decode_bounds:
  "meshcore_runtime_path_len_decode f = Some (n, sz) \<Longrightarrow> unat n \<le> 64 \<and> sz \<in> {1, 2, 3}"
proof -
  assume a: "meshcore_runtime_path_len_decode f = Some (n, sz)"
  have "hash_size f \<in> {1, 2, 3, 4}" using hash_size_bounds [of f] by auto
  with a show ?thesis by (auto simp: path_len_decode_eq unat_of_nat split: if_splits)
qed

lemma peer_path_wf:
  "publishes_after
     (do { chat \<leftarrow> meshcore_runtime_local_role_is h ROLE_CHAT;
           now \<leftarrow> meshcore_runtime_timestamp_now_seconds h; ret (chat, now) })
     published_event_wf h (meshcore_runtime_peer_path_publish h p peer path path_len ety extra elen)"
proof (cases "meshcore_runtime_path_len_decode path_len")
  case None
  then show ?thesis by (simp add: publishes_after_def meshcore_runtime_peer_path_publish_def)
next
  case (Some d)
  obtain n sz where d: "d = (n, sz)" by force
  note b = path_len_decode_bounds [OF Some [unfolded d]]
  define snrs where "snrs chat = (if chat then peer_path_snrs p ety extra elen else ([], []))" for chat
  define e where "e = (\<lambda>(chat, now). EventPeerPath
    \<lparr> pe_tag = 0, pe_key_prefix = mem_write 0 (mem_read 0 4 (pi_public_key peer)) (zeros 4),
      pe_timestamp = now, pe_last_seen_snr = pk_snr_q4 p, pe_out_path_len = n, pe_path_hash_size = sz,
      pe_out_path = mem_write 0 (mem_read 0 (unat n) path) (zeros 64),
      pe_out_path_snr_count = of_nat (length (fst (snrs chat))),
      pe_out_path_snr = mem_write 0 (fst (snrs chat)) (zeros 64),
      pe_return_path_snr_count = of_nat (length (snd (snrs chat))),
      pe_return_path_snr = mem_write 0 (snd (snrs chat)) (zeros 64) \<rparr>)"
  have small: "unat (of_nat k :: byte) \<le> 64" if "k \<le> 64" for k
    using that by (simp add: unat_of_nat)
  have "length (fst (snrs chat)) \<le> 64 \<and> length (snd (snrs chat)) \<le> 64" for chat
    using peer_snrs_bounds [OF prod.collapse [symmetric]] by (simp add: snrs_def)
  then have "published_event_wf (e x)" for x
    using b by (auto simp: e_def published_event_wf_def length_write_read small split: prod.split)
  moreover have "meshcore_runtime_peer_path_publish h p peer path path_len ety extra elen =
      do { x \<leftarrow> do { chat \<leftarrow> meshcore_runtime_local_role_is h ROLE_CHAT;
             now \<leftarrow> meshcore_runtime_timestamp_now_seconds h; ret (chat, now) }; notify h (e x) }"
    unfolding meshcore_runtime_peer_path_publish_def Some d e_def snrs_def
    by (simp add: meshcore_platform_bridge_peer_path_handler_def Let_def split_beta)
  ultimately show ?thesis unfolding publishes_after_def by blast
qed

lemma advert_wf:
  "publishes_accepted published_event_wf h (meshcore_runtime_advert_publish h p ident timestamp parser)"
  using snprintf_wf [of "meshcore_advert_data_parser_get_name parser"]
  by (auto intro!: publishesI simp: meshcore_runtime_advert_publish_def Let_def published_event_wf_def
      meshcore_platform_bridge_advert_handler_def length_write_read unat_of_nat zeros_def [of 32]
      dest!: raw_advert_bounds split: prod.splits option.splits)

text \<open>
  C37. Each of the nine publishers of the runtime either reports nothing or reports one event whose arrays
  have their declared sizes, whose byte and entry counts are within the arrays they count and
  whose names are terminated, whatever packet, text or data it is given.  The path-length byte
  of a binary request is no such count: it is passed on encoded as it stands in the packet.  The
  peer-path publisher asks the host for its role and its clock before it reports, and the advert
  publisher returns whether the host took the event.
\<close>

theorem published_events_wf:
  "publishes_wf h (meshcore_runtime_text_message_publish h peer p timestamp txt text_len) \<and>
   publishes_wf h (meshcore_runtime_channel_text_publish h channel p timestamp txt text_len) \<and>
   publishes_wf h (meshcore_runtime_channel_data_publish h channel p data len) \<and>
   publishes_wf h (meshcore_runtime_control_data_publish h p) \<and>
   publishes_wf h (meshcore_runtime_raw_data_publish h p) \<and>
   publishes_wf h (meshcore_runtime_node_discover_publish h p) \<and>
   publishes (\<lambda>e. published_event_wf e \<and> encoded_path_len p e) h
     (meshcore_runtime_binary_request_publish h peer p tag payload payload_len) \<and>
   publishes_after
     (do { chat \<leftarrow> meshcore_runtime_local_role_is h ROLE_CHAT;
           now \<leftarrow> meshcore_runtime_timestamp_now_seconds h; ret (chat, now) })
     published_event_wf h (meshcore_runtime_peer_path_publish h p peer path path_len ety extra elen) \<and>
   publishes_accepted published_event_wf h (meshcore_runtime_advert_publish h p ident timestamp parser)"
proof (intro conjI)
  show "publishes_wf h (meshcore_runtime_text_message_publish h peer p timestamp txt text_len)"
    using snprintf_wf [of "pi_name peer"]
    by (auto intro!: publishesI simp: meshcore_runtime_text_message_publish_def Let_def published_event_wf_def
        text_event_wf_def meshcore_platform_bridge_message_handler_def length_write_read unat_of_nat
        word_less_nat_alt)
  show "publishes_wf h (meshcore_runtime_channel_text_publish h channel p timestamp txt text_len)"
    by (auto intro!: publishesI simp: meshcore_runtime_channel_text_publish_def Let_def published_event_wf_def
        text_event_wf_def meshcore_platform_bridge_message_handler_def length_write_read unat_of_nat
        word_less_nat_alt dest!: channel_name_wf split: prod.splits)
  show "publishes_wf h (meshcore_runtime_channel_data_publish h channel p data len)"
    by (auto intro!: publishesI simp: meshcore_runtime_channel_data_publish_def Let_def published_event_wf_def
        meshcore_platform_bridge_channel_data_handler_def length_write_read
        dest!: path_copy_wf split: prod.splits)
  show "publishes_wf h (meshcore_runtime_control_data_publish h p)"
    by (auto intro!: publishesI simp: meshcore_runtime_control_data_publish_def published_event_wf_def
        meshcore_platform_bridge_control_data_handler_def dest!: packet_data_event_wf split: option.splits)
  show "publishes_wf h (meshcore_runtime_raw_data_publish h p)"
    by (auto intro!: publishesI simp: meshcore_runtime_raw_data_publish_def published_event_wf_def
        meshcore_platform_bridge_raw_data_handler_def dest!: packet_data_event_wf split: option.splits)
  show "publishes_wf h (meshcore_runtime_node_discover_publish h p)"
    by (auto intro!: publishesI simp: meshcore_runtime_node_discover_publish_def Let_def published_event_wf_def
        meshcore_platform_bridge_node_discover_handler_def length_write_read unat_of_nat simp del: of_nat_diff
        dest!: path_copy_wf split: prod.splits)
  show "publishes (\<lambda>e. published_event_wf e \<and> encoded_path_len p e) h
      (meshcore_runtime_binary_request_publish h peer p tag payload payload_len)"
    using path_copy_wf [of p]
    by (auto intro!: publishesI simp: meshcore_runtime_binary_request_publish_def published_event_wf_def encoded_path_len_def
        meshcore_platform_bridge_binary_request_handler_def length_write_read unat_of_nat word_less_nat_alt
        prod_eq_iff)
  show "publishes_after
     (do { chat \<leftarrow> meshcore_runtime_local_role_is h ROLE_CHAT;
           now \<leftarrow> meshcore_runtime_timestamp_now_seconds h; ret (chat, now) })
     published_event_wf h (meshcore_runtime_peer_path_publish h p peer path path_len ety extra elen)"
    by (rule peer_path_wf)
  show "publishes_accepted published_event_wf h (meshcore_runtime_advert_publish h p ident timestamp parser)"
    by (rule advert_wf)
qed

end
