(* ===== verification/Runtime_Receive.thy ===== *)
theory Runtime_Receive
  imports Runtime_Publish
begin

text \<open>
  What the runtime does with a message the mesh layer delivers
  (\<open>runtime/meshcore_runtime_receive.c\<close>): publish it, acknowledge a text, answer a
  telemetry or path request, or match a response with an outstanding request.  Before
  \<open>meshcore_init\<close> every message goes to the host.

  The handlers are registered as \<open>s_runtime_mesh_ops\<close>; the interpretation at the end
  discharges the mesh layer's contract for them.
\<close>

section \<open>Helpers\<close>

definition meshcore_runtime_telemetry_wire_decode :: "byte \<Rightarrow> byte" where
  "meshcore_runtime_telemetry_wire_decode wire_mask = NOT wire_mask AND 0x07"

definition meshcore_runtime_local_role_answers_telemetry :: "'w host \<Rightarrow> ('w, 'r, bool) op" where
  "meshcore_runtime_local_role_answers_telemetry h = do {
     chat \<leftarrow> meshcore_runtime_local_role_is h ROLE_CHAT;
     if chat then ret True
     else do {
       repeater \<leftarrow> meshcore_runtime_local_role_is h ROLE_REPEATER;
       if repeater then ret True
       else do {
         room \<leftarrow> meshcore_runtime_local_role_is h ROLE_ROOM;
         if room then ret True else meshcore_runtime_local_role_is h ROLE_SENSOR
       }
     }
   }"

definition meshcore_runtime_peer_seen_update :: "'w host \<Rightarrow> bytes \<Rightarrow> bool \<Rightarrow> byte \<Rightarrow> ('w, 'r, unit) op" where
  "meshcore_runtime_peer_seen_update h public_key has_snr snr_q4 =
     meshcore_platform_bridge_peer_seen_update h public_key has_snr snr_q4"

text \<open>
  The hashes and the signal strengths of a path that records both: every hop is a hash followed
  by one byte.
\<close>

definition meshcore_runtime_build_forward_path_snrs ::
  "packet \<Rightarrow> nat \<Rightarrow> nat \<Rightarrow> (bytes \<times> bytes) option" where
  "meshcore_runtime_build_forward_path_snrs p hashes_cap snrs_cap =
     (if \<not> meshcore_packet_has_snr_flag p then None
      else
        let tuple_size = unat (meshcore_packet_get_path_hash_size p) in
        if tuple_size < 2 \<or> tuple_size = 4 then None
        else
          let hsize = tuple_size - 1;
              hops = unat (meshcore_packet_get_path_hash_count p);
              hash_bytes = hops * hsize in
          if hops * tuple_size > 64 \<or> hash_bytes > hashes_cap \<or> hops > snrs_cap \<or> hash_bytes > 255 then None
          else
            Some (concat (map (\<lambda>i. mem_read (i * tuple_size) hsize (pk_path p)) [0..<hops]),
                  map (\<lambda>i. byte_at (pk_path p) (i * tuple_size + hsize)) [0..<hops]))"

section \<open>Replies\<close>

text \<open>Sending a packet that may have failed to be created.\<close>

definition flood_if_created :: "'w host \<Rightarrow> packet_ref option \<Rightarrow> u32 \<Rightarrow> ('w, 'r, unit) op" where
  "flood_if_created h reply delay_ms =
     (case reply of
        None \<Rightarrow> ret ()
      | Some r \<Rightarrow> do {
          hsize \<leftarrow> meshcore_runtime_local_path_hash_size_get h;
          meshcore_mesh_send_flood h r delay_ms hsize
        })"

definition meshcore_runtime_send_ack_direct :: "'w host \<Rightarrow> peer_identity \<Rightarrow> bytes \<Rightarrow> nat \<Rightarrow> ('w, unit) rt_op" where
  "meshcore_runtime_send_ack_direct h peer ack ack_len =
     (if ack_len = 0 then ret ()
      else do {
        path \<leftarrow> meshcore_runtime_peer_path_get h (pi_public_key peer);
        case path of
          None \<Rightarrow> do {
            reply \<leftarrow> meshcore_mesh_create_ack_data ack ack_len;
            flood_if_created h reply 200
          }
        | Some (peer_path, path_len) \<Rightarrow> do {
            extra_acks \<leftarrow> meshcore_platform_bridge_mesh_extra_ack_transmit_count_get h;
            delay_ms \<leftarrow>
              (if extra_acks > 0 then do {
                 reply \<leftarrow> meshcore_mesh_create_multi_ack_data ack ack_len 1;
                 case reply of
                   None \<Rightarrow> ret 200
                 | Some r \<Rightarrow> do {
                     meshcore_mesh_send_direct h r (pp_out_path peer_path) path_len 200;
                     ret (200 + 300)
                   }
               }
               else ret 200);
            reply \<leftarrow> meshcore_mesh_create_ack_data ack ack_len;
            case reply of
              None \<Rightarrow> ret ()
            | Some r \<Rightarrow> meshcore_mesh_send_direct h r (pp_out_path peer_path) path_len delay_ms
          }
      })"

abbreviation peer_recipient :: "peer_identity \<Rightarrow> identity" where
  "peer_recipient peer \<equiv> meshcore_identity_init_from_pub_key meshcore_identity_init (pi_public_key peer)"

definition meshcore_runtime_send_ack_or_path_return ::
  "'w host \<Rightarrow> peer_identity \<Rightarrow> bytes \<Rightarrow> packet \<Rightarrow> bytes \<Rightarrow> nat \<Rightarrow> ('w, unit) rt_op" where
  "meshcore_runtime_send_ack_or_path_return h peer secret p ack ack_len =
     (if ack_len = 0 then ret ()
      else if meshcore_packet_is_route_flood p then do {
        reply \<leftarrow> meshcore_mesh_create_path_return_by_identity h (peer_recipient peer) secret (pk_path p)
          (ucast (pk_path_len p)) PAYLOAD_TYPE_ACK ack ack_len;
        flood_if_created h reply 200
      }
      else meshcore_runtime_send_ack_direct h peer ack ack_len)"

definition meshcore_runtime_handle_text_follow_up ::
  "'w host \<Rightarrow> peer_identity \<Rightarrow> bytes \<Rightarrow> packet \<Rightarrow> byte \<Rightarrow> bytes \<Rightarrow> nat \<Rightarrow> nat \<Rightarrow> ('w, unit) rt_op" where
  "meshcore_runtime_handle_text_follow_up h peer secret p flags data text_end data_len =
     (if text_end \<le> 4 then ret ()
      else if flags = 0 then do {
        let hash = meshcore_utils_sha256_two_fragments (h_crypto h) 4 data (int text_end)
          (pi_public_key peer) 32;
        let attempt = (if text_end + 1 < data_len then byte_at data (text_end + 1) else 0);
        rnd \<leftarrow> meshcore_platform_bridge_rng_random h 1;
        meshcore_runtime_send_ack_or_path_return h peer secret p (hash @ [attempt] @ rnd) 6
      }
      else if flags = 2 then do {
        self \<leftarrow> self_identity;
        let hash = meshcore_utils_sha256_two_fragments (h_crypto h) 4 data (int text_end)
          (id_pub_key self) 32;
        meshcore_runtime_send_ack_or_path_return h peer secret p (hash @ [0, 0]) 4
      }
      else ret ())"

text \<open>The path, its encoded length, the extra type and the extra bytes of a path reply, and whether it carries signal strengths.\<close>

definition discover_path_reply :: "packet \<Rightarrow> bytes \<times> byte \<times> byte \<times> bytes \<times> bool" where
  "discover_path_reply p =
     (let plain = (pk_path p, ucast (pk_path_len p), 0, [], False) in
      case meshcore_runtime_build_forward_path_snrs p 64 64 of
        None \<Rightarrow> plain
      | Some (path_hashes, path_snrs) \<Rightarrow>
          let path_snrs = meshcore_runtime_append_snr_with_trunc path_snrs 64 (pk_snr_q4 p) in
          case meshcore_runtime_path_len_encode (meshcore_packet_get_path_hash_size p - 1)
                 (of_nat (length path_hashes)) of
            None \<Rightarrow> plain
          | Some path_len \<Rightarrow> (path_hashes, path_len, 0x0E, of_nat (length path_snrs) # path_snrs, True))"

definition meshcore_runtime_handle_discover_path_request ::
  "'w host \<Rightarrow> peer_identity \<Rightarrow> bytes \<Rightarrow> packet \<Rightarrow> ('w, unit) rt_op" where
  "meshcore_runtime_handle_discover_path_request h peer secret p =
     (if \<not> meshcore_packet_is_route_flood p then ret ()
      else
        case discover_path_reply p of
          (path, path_len, extra_type, extra, snr_ok) \<Rightarrow> do {
            reply \<leftarrow> meshcore_mesh_create_path_return_by_identity h (peer_recipient peer) secret path path_len
              extra_type extra (length extra);
            if snr_ok then
              (case reply of
                 None \<Rightarrow> ret ()
               | Some r \<Rightarrow> do {
                   hsize \<leftarrow> meshcore_runtime_local_path_hash_size_get h;
                   meshcore_mesh_send_flood_by_transport_codes h r
                     (SNR_TRANSPORT_CODE0, SNR_TRANSPORT_CODE1) 300 hsize
                 })
            else flood_if_created h reply 300
          })"

definition meshcore_runtime_handle_telemetry_request ::
  "'w host \<Rightarrow> peer_identity \<Rightarrow> bytes \<Rightarrow> packet \<Rightarrow> u32 \<Rightarrow> byte \<Rightarrow> ('w, unit) rt_op" where
  "meshcore_runtime_handle_telemetry_request h peer secret p tag permission_mask = do {
     let requester = mem_write 0 (mem_read 0 4 (pi_public_key peer)) (zeros 4);
     (rc, telemetry) \<leftarrow> meshcore_platform_bridge_telemetry_node_get h requester permission_mask;
     if rc \<noteq> 0 then ret ()
     else if unat (tp_payload_len telemetry) > 163 then ret ()
     else do {
       let response = le_bytes 4 tag @ mem_read 0 (unat (tp_payload_len telemetry)) (tp_payload telemetry);
       let response_len = 4 + unat (tp_payload_len telemetry);
       if meshcore_packet_is_route_flood p then do {
         reply \<leftarrow> meshcore_mesh_create_path_return_by_identity h (peer_recipient peer) secret (pk_path p)
           (ucast (pk_path_len p)) PAYLOAD_TYPE_RESPONSE response response_len;
         flood_if_created h reply 300
       }
       else do {
         reply \<leftarrow> meshcore_mesh_create_datagram h PAYLOAD_TYPE_RESPONSE (peer_recipient peer) secret
           response response_len;
         case reply of
           None \<Rightarrow> ret ()
         | Some r \<Rightarrow> do {
             path \<leftarrow> meshcore_runtime_peer_path_get h (pi_public_key peer);
             case path of
               Some (peer_path, direct_path_len) \<Rightarrow>
                 meshcore_mesh_send_direct h r (pp_out_path peer_path) direct_path_len 300
             | None \<Rightarrow> flood_if_created h (Some r) 300
           }
       }
     }
   }"

section \<open>Handlers\<close>

text \<open>A text message of a peer.\<close>

definition recv_peer_text ::
  "'w host \<Rightarrow> packet \<Rightarrow> peer_identity \<Rightarrow> bytes \<Rightarrow> bytes \<Rightarrow> nat \<Rightarrow> u32 \<Rightarrow> ('w, unit) rt_op" where
  "recv_peer_text h p sender secret data len timestamp = do {
     let flags = drop_bit 2 (byte_at data 4);
     text_off \<leftarrow>
       (if flags = 2 then
          if len \<le> 9 then ret None
          else do {
            rc \<leftarrow> meshcore_runtime_sync_local_identity h;
            ret (if rc \<noteq> 0 then None else Some 9)
          }
        else if flags = 1 \<or> flags \<noteq> 0 then ret None
        else ret (Some 5));
     case text_off of
       None \<Rightarrow> ret ()
     | Some off \<Rightarrow> do {
         let text_len = (case memchr (drop off data) 0 (len - off) of Some n \<Rightarrow> n | None \<Rightarrow> len - off);
         when_do (text_len > 0)
           (meshcore_runtime_text_message_publish h sender p timestamp (drop off data) text_len);
         meshcore_runtime_handle_text_follow_up h sender secret p flags data (off + text_len) len
       }
   }"

text \<open>A request of a peer.\<close>

definition recv_peer_request ::
  "'w host \<Rightarrow> packet \<Rightarrow> peer_identity \<Rightarrow> bytes \<Rightarrow> bytes \<Rightarrow> nat \<Rightarrow> u32 \<Rightarrow> ('w, unit) rt_op" where
  "recv_peer_request h p sender secret data len timestamp = do {
     handled \<leftarrow>
       (if len > 5 then do {
          let req_type = byte_at data 4;
          let permission_mask = meshcore_runtime_telemetry_wire_decode (byte_at data 5);
          chat \<leftarrow> meshcore_runtime_local_role_is h ROLE_CHAT;
          if chat \<and> (req_type = 7 \<or> req_type = 3 \<and> meshcore_packet_has_snr_flag p) then do {
            meshcore_runtime_handle_discover_path_request h sender secret p;
            ret True
          }
          else if req_type = 3 then do {
            answers \<leftarrow> meshcore_runtime_local_role_answers_telemetry h;
            if answers then do {
              meshcore_runtime_handle_telemetry_request h sender secret p timestamp permission_mask;
              ret True
            }
            else ret False
          }
          else ret False
        }
        else ret False);
     when_do (\<not> handled)
       (meshcore_runtime_binary_request_publish h sender p timestamp (drop 4 data) (len - 4))
   }"

text \<open>A response: to the telemetry request, or else to the binary request.\<close>

definition recv_peer_response :: "'w host \<Rightarrow> peer_identity \<Rightarrow> bytes \<Rightarrow> nat \<Rightarrow> ('w, unit) rt_op" where
  "recv_peer_response h sender data len = do {
     response_timestamp \<leftarrow> meshcore_runtime_timestamp_now_seconds h;
     handled \<leftarrow> meshcore_runtime_pending_telemetry_handle h (pi_public_key sender) response_timestamp data len;
     when_do (\<not> handled) (do {
       _ \<leftarrow> meshcore_runtime_pending_binary_handle h (pi_public_key sender) response_timestamp data len;
       ret ()
     })
   }"

definition meshcore_runtime_on_peer_data_recv_internal ::
  "'w host \<Rightarrow> packet \<Rightarrow> byte \<Rightarrow> peer_identity \<Rightarrow> bytes \<Rightarrow> bytes \<Rightarrow> nat \<Rightarrow> ('w, unit) rt_op" where
  "meshcore_runtime_on_peer_data_recv_internal h p ty sender secret data len = do {
     let timestamp = (if len \<ge> 4 then le_word (mem_read 0 4 data) else 0);
     chat \<leftarrow> meshcore_runtime_local_role_is h ROLE_CHAT;
     (if chat \<and> ty = PAYLOAD_TYPE_TXT_MSG \<and> len > 5 then
        recv_peer_text h p sender secret data len timestamp
      else if ty = PAYLOAD_TYPE_REQ \<and> len > 4 then
        recv_peer_request h p sender secret data len timestamp
      else if ty = PAYLOAD_TYPE_RESPONSE \<and> len \<ge> 4 then
        recv_peer_response h sender data len
      else ret ());
     meshcore_runtime_peer_seen_update h (pi_public_key sender) True (pk_snr_q4 p)
   }"

text \<open>Before \<open>meshcore_init\<close> a message is passed on to the host.\<close>

definition if_initialized :: "('w, 'a) rt_op \<Rightarrow> ('w, 'a) rt_op \<Rightarrow> ('w, 'a) rt_op" where
  "if_initialized m host_op = do { rt \<leftarrow> rt_get; if \<not> rt_initialized rt then host_op else m }"

definition meshcore_runtime_on_ack_recv :: "'w host \<Rightarrow> packet \<Rightarrow> u32 \<Rightarrow> ('w, unit) rt_op" where
  "meshcore_runtime_on_ack_recv h p ack_crc =
     if_initialized (do { _ \<leftarrow> meshcore_runtime_expected_ack_handle h ack_crc; ret () })
       (meshcore_platform_bridge_mesh_on_ack_recv h p ack_crc)"

definition meshcore_runtime_on_peer_data_recv ::
  "'w host \<Rightarrow> packet \<Rightarrow> byte \<Rightarrow> peer_identity \<Rightarrow> bytes \<Rightarrow> bytes \<Rightarrow> nat \<Rightarrow> ('w, unit) rt_op" where
  "meshcore_runtime_on_peer_data_recv h p ty sender secret data len =
     if_initialized (meshcore_runtime_on_peer_data_recv_internal h p ty sender secret data len)
       (meshcore_platform_bridge_mesh_on_peer_data_recv h p ty sender secret data len)"

definition meshcore_runtime_on_peer_path_recv ::
  "'w host \<Rightarrow> packet \<Rightarrow> peer_identity \<Rightarrow> bytes \<Rightarrow> bytes \<Rightarrow> byte \<Rightarrow> byte \<Rightarrow> bytes \<Rightarrow> byte \<Rightarrow> ('w, bool) rt_op" where
  "meshcore_runtime_on_peer_path_recv h p sender secret path path_len extra_type extra extra_len =
     if_initialized (do {
       discovered \<leftarrow> meshcore_runtime_pending_discovery_handle h (pi_public_key sender) p path path_len
         extra_type extra extra_len;
       if discovered then ret True
       else do {
         chat \<leftarrow> meshcore_runtime_local_role_is h ROLE_CHAT;
         (if chat \<and> extra_type = PAYLOAD_TYPE_ACK \<and> extra_len \<ge> 4 then do {
            _ \<leftarrow> meshcore_runtime_expected_ack_handle h (le_word (mem_read 0 4 extra));
            ret ()
          }
          else do {
            chat \<leftarrow> meshcore_runtime_local_role_is h ROLE_CHAT;
            when_do (chat \<and> extra_type = PAYLOAD_TYPE_RESPONSE \<and> extra_len \<ge> 4)
              (recv_peer_response h sender extra (unat extra_len))
          });
         meshcore_runtime_peer_path_publish h p sender path path_len extra_type extra extra_len;
         meshcore_runtime_local_role_is h ROLE_CHAT
       }
     }) (meshcore_platform_bridge_mesh_on_peer_path_recv h p sender secret path path_len extra_type extra extra_len)"

definition meshcore_runtime_advert_is_share :: "packet \<Rightarrow> bool" where
  "meshcore_runtime_advert_is_share p \<longleftrightarrow>
     meshcore_packet_has_transport_codes p \<and> pk_transport_codes p = (0, 0)"

text \<open>The parser on the stack, before \<open>meshcore_advert_data_parser_init\<close> sets every field that is read.\<close>

definition advert_data_parser_zero :: advert_data_parser where
  "advert_data_parser_zero = \<lparr> ap_flags = 0, ap_valid = False, ap_name = zeros 32, ap_lat = 0, ap_lon = 0,
     ap_feat1 = 0, ap_feat2 = 0 \<rparr>"

definition meshcore_runtime_on_advert_recv ::
  "'w host \<Rightarrow> packet \<Rightarrow> identity \<Rightarrow> u32 \<Rightarrow> bytes \<Rightarrow> nat \<Rightarrow> ('w, unit) rt_op" where
  "meshcore_runtime_on_advert_recv h p identity timestamp app_data app_data_len =
     if_initialized
       (if app_data_len = 0 \<or> app_data_len > 255 then ret ()
        else do {
          let parser = meshcore_advert_data_parser_init advert_data_parser_zero app_data (of_nat app_data_len);
          if \<not> meshcore_advert_data_parser_is_valid parser then ret ()
          else do {
            chat \<leftarrow> meshcore_runtime_local_role_is h ROLE_CHAT;
            if chat then
              when_do (meshcore_advert_data_parser_has_name parser)
                (do { _ \<leftarrow> meshcore_runtime_advert_publish h p identity timestamp parser; ret () })
            else do {
              repeater \<leftarrow> meshcore_runtime_local_role_is h ROLE_REPEATER;
              when_do (repeater \<and> pk_path_len p = 0 \<and> \<not> meshcore_runtime_advert_is_share p \<and>
                  meshcore_advert_data_parser_get_type parser = 2)
                (do { _ \<leftarrow> meshcore_runtime_advert_publish h p identity timestamp parser; ret () })
            }
          }
        })
       (meshcore_platform_bridge_mesh_on_advert_recv h p identity timestamp app_data app_data_len)"

definition meshcore_runtime_on_control_data_recv :: "'w host \<Rightarrow> packet \<Rightarrow> ('w, unit) rt_op" where
  "meshcore_runtime_on_control_data_recv h p =
     if_initialized
       (if pk_payload_len p = 0 \<or> unat (pk_payload_len p) > 184 then ret ()
        else do {
          _ \<leftarrow> meshcore_runtime_handle_control_discover_request h p;
          meshcore_runtime_node_discover_publish h p;
          meshcore_runtime_control_data_publish h p
        })
       (meshcore_platform_bridge_mesh_on_control_data_recv h p)"

definition meshcore_runtime_on_raw_data_recv :: "'w host \<Rightarrow> packet \<Rightarrow> ('w, unit) rt_op" where
  "meshcore_runtime_on_raw_data_recv h p =
     if_initialized
       (if pk_payload_len p = 0 \<or> unat (pk_payload_len p) > 184 then ret ()
        else meshcore_runtime_raw_data_publish h p)
       (meshcore_platform_bridge_mesh_on_raw_data_recv h p)"

definition meshcore_runtime_on_group_data_recv ::
  "'w host \<Rightarrow> packet \<Rightarrow> byte \<Rightarrow> group_channel \<Rightarrow> bytes \<Rightarrow> nat \<Rightarrow> ('w, unit) rt_op" where
  "meshcore_runtime_on_group_data_recv h p ty channel data len =
     if_initialized (do {
       chat \<leftarrow> meshcore_runtime_local_role_is h ROLE_CHAT;
       if \<not> chat then ret ()
       else if ty = PAYLOAD_TYPE_GRP_TXT \<and> len > 5 \<and> drop_bit 2 (byte_at data 4) = 0 then do {
         let sender_timestamp = le_word (mem_read 0 4 data);
         let text_len = (case memchr (drop 5 data) 0 (len - 5) of Some n \<Rightarrow> n | None \<Rightarrow> len - 5);
         when_do (text_len > 0)
           (meshcore_runtime_channel_text_publish h channel p sender_timestamp (drop 5 data) text_len)
       }
       else when_do (ty = PAYLOAD_TYPE_GRP_DATA \<and> len \<ge> 3)
         (meshcore_runtime_channel_data_publish h channel p data len)
     }) (meshcore_platform_bridge_mesh_on_group_data_recv h p ty channel data len)"

definition meshcore_runtime_on_trace_recv ::
  "'w host \<Rightarrow> packet \<Rightarrow> u32 \<Rightarrow> u32 \<Rightarrow> byte \<Rightarrow> bytes \<Rightarrow> bytes \<Rightarrow> byte \<Rightarrow> ('w, unit) rt_op" where
  "meshcore_runtime_on_trace_recv h p tag auth_code flags path_snrs path_hashes path_len =
     if_initialized (do {
       _ \<leftarrow> meshcore_runtime_pending_trace_handle h tag flags path_snrs
         (meshcore_packet_get_path_hash_count p) path_len (pk_snr_q4 p);
       ret ()
     }) (meshcore_platform_bridge_mesh_on_trace_recv h p tag auth_code flags path_snrs path_hashes path_len)"

definition s_runtime_mesh_ops :: "'w host \<Rightarrow> ('w, runtime) mesh_ops" where
  "s_runtime_mesh_ops h = (policy_ops h) \<lparr>
     op_on_peer_data_recv := Some (meshcore_runtime_on_peer_data_recv h),
     op_on_trace_recv := Some (meshcore_runtime_on_trace_recv h),
     op_on_peer_path_recv := Some (meshcore_runtime_on_peer_path_recv h),
     op_on_advert_recv := Some (meshcore_runtime_on_advert_recv h),
     op_on_control_data_recv := Some (meshcore_runtime_on_control_data_recv h),
     op_on_raw_data_recv := Some (meshcore_runtime_on_raw_data_recv h),
     op_on_group_data_recv := Some (meshcore_runtime_on_group_data_recv h),
     op_on_ack_recv := Some (meshcore_runtime_on_ack_recv h) \<rparr>"

section \<open>Ownership\<close>

lemma calm_build_flood [calm_rules]:
  assumes "makes R \<Phi> m"
  shows "calm R (do { reply \<leftarrow> m; flood_if_created h reply delay })"
  unfolding flood_if_created_def
  by (intro calm_bind_makes_case [OF assms] calm_return takes_calm_bind calm_runtime_helpers takes_send_flood)

lemma takes_flood_if_created: "takes R r \<Phi> (flood_if_created h (Some r) delay)"
  unfolding flood_if_created_def by (simp add: takes_calm_bind calm_runtime_helpers takes_send_flood)

lemma makes_path_return_identity:
  "makes R (\<lambda>q. built PAYLOAD_TYPE_PATH q \<and>
       pk_payload_len q = of_nat (4 + ceil16 (path_return_len path_len extra_len)))
     (meshcore_mesh_create_path_return_by_identity h dest secret path path_len extra_type extra extra_len)"
  unfolding meshcore_mesh_create_path_return_by_identity_def Let_def by (rule makes_create_path_return)

lemma calm_send_ack_direct [calm_rules]: "calm R (meshcore_runtime_send_ack_direct h peer ack len)"
proof -
  have multi: "calm R (if extra_acks > 0 then do {
        reply \<leftarrow> meshcore_mesh_create_multi_ack_data ack len 1;
        case reply of None \<Rightarrow> ret 200
        | Some r \<Rightarrow> do { meshcore_mesh_send_direct h r path n 200; ret (200 + 300) } }
      else ret (200 :: u32))" for extra_acks :: byte and path n
    by (intro calm_if calm_bind_makes_case [OF makes_create_multi_ack_data] calm_return takes_ret takes_send_direct)
  have direct: "calm R (do {
        reply \<leftarrow> meshcore_mesh_create_ack_data ack len;
        case reply of None \<Rightarrow> ret () | Some r \<Rightarrow> meshcore_mesh_send_direct h r path n delay })" for path n delay
    by (intro calm_bind_makes_case [OF makes_create_ack_data] calm_return takes_send_direct)
  have known: "calm R (do {
        extra_acks \<leftarrow> meshcore_platform_bridge_mesh_extra_ack_transmit_count_get h;
        delay_ms \<leftarrow>
          (if extra_acks > 0 then do {
             reply \<leftarrow> meshcore_mesh_create_multi_ack_data ack len 1;
             case reply of None \<Rightarrow> ret 200
             | Some r \<Rightarrow> do { meshcore_mesh_send_direct h r path n 200; ret (200 + 300) } }
           else ret 200);
        reply \<leftarrow> meshcore_mesh_create_ack_data ack len;
        case reply of None \<Rightarrow> ret () | Some r \<Rightarrow> meshcore_mesh_send_direct h r path n delay_ms })" for path n
    by (rule calm_bind, rule calm_bridge, rule calm_bind, rule multi, rule direct)
  show ?thesis
    unfolding meshcore_runtime_send_ack_direct_def
    by (intro calm_if calm_return calm_bind [OF calm_runtime_helpers(5)] calm_case_option calm_case_prod known
        calm_build_flood [OF makes_create_ack_data])
qed

lemma calm_ack_or_path_return [calm_rules]:
  "calm R (meshcore_runtime_send_ack_or_path_return h peer secret p ack len)"
  unfolding meshcore_runtime_send_ack_or_path_return_def
  by (intro calm_if calm_return calm_build_flood [OF makes_path_return_identity] calm_send_ack_direct)

lemma calm_text_follow_up [calm_rules]:
  "calm R (meshcore_runtime_handle_text_follow_up h peer secret p flags data text_end len)"
  unfolding meshcore_runtime_handle_text_follow_up_def by (intro calm_rules calm_self_identity)

lemma calm_discover_path [calm_rules]:
  "calm R (meshcore_runtime_handle_discover_path_request h peer secret p)"
proof -
  have "calm R (do {
      reply \<leftarrow> meshcore_mesh_create_path_return_by_identity h dest secret path n ty extra len;
      if snr_ok then (case reply of None \<Rightarrow> ret ()
        | Some r \<Rightarrow> do {
            hsize \<leftarrow> meshcore_runtime_local_path_hash_size_get h;
            meshcore_mesh_send_flood_by_transport_codes h r (SNR_TRANSPORT_CODE0, SNR_TRANSPORT_CODE1) 300 hsize })
      else flood_if_created h reply 300 })" for dest path n ty extra len snr_ok
    by (cases snr_ok)
       (simp_all add: calm_build_flood [OF makes_path_return_identity]
          calm_bind_makes_case [OF makes_path_return_identity] calm_return takes_calm_bind calm_runtime_helpers
          takes_send_flood_codes)
  then show ?thesis
    unfolding meshcore_runtime_handle_discover_path_request_def
    by (intro calm_if calm_return calm_case_prod)
qed

lemma calm_telemetry_request [calm_rules]:
  "calm R (meshcore_runtime_handle_telemetry_request h peer secret p tag perms)"
proof -
  have datagram: "calm R (do {
      reply \<leftarrow> meshcore_mesh_create_datagram h ty dest secret response len;
      case reply of None \<Rightarrow> ret ()
      | Some r \<Rightarrow> do {
          path \<leftarrow> meshcore_runtime_peer_path_get h key;
          case path of
            Some (peer_path, n) \<Rightarrow> meshcore_mesh_send_direct h r (pp_out_path peer_path) n 300
          | None \<Rightarrow> flood_if_created h (Some r) 300 } })" for ty dest response len key
    by (intro calm_bind_makes_case [OF makes_create_datagram] calm_return takes_calm_bind calm_runtime_helpers)
       (simp add: takes_send_direct takes_flood_if_created split: option.split prod.split)
  show ?thesis
    unfolding meshcore_runtime_handle_telemetry_request_def
    by (rule calm_Let, rule calm_bind, rule calm_bridge, intro calm_case_prod calm_if calm_return calm_Let
        calm_build_flood [OF makes_path_return_identity] datagram)
qed

lemma calm_answers_telemetry [calm_rules]: "calm R (meshcore_runtime_local_role_answers_telemetry h)"
  unfolding meshcore_runtime_local_role_answers_telemetry_def by (intro calm_rules)

lemma calm_peer_seen [calm_rules]: "calm R (meshcore_runtime_peer_seen_update h key b snr)"
  unfolding meshcore_runtime_peer_seen_update_def by (intro calm_rules)

lemma calm_recv_peer [calm_rules]:
  "calm R (recv_peer_text h p sender secret data len timestamp)"
  "calm R (recv_peer_request h p sender secret data len timestamp)"
  "calm rt_ok (recv_peer_response h sender data len)"
  unfolding recv_peer_text_def recv_peer_request_def recv_peer_response_def
  by (intro calm_rules)+

lemma calm_if_initialized: "calm R m \<Longrightarrow> calm R m' \<Longrightarrow> calm R (if_initialized m m')"
  unfolding if_initialized_def by (intro calm_rules)

lemma calm_on_recv [calm_rules]:
  "calm rt_ok (meshcore_runtime_on_ack_recv h p crc)"
  "calm rt_ok (meshcore_runtime_on_peer_data_recv h p ty sender secret data len)"
  "calm rt_ok (meshcore_runtime_on_peer_path_recv h p sender secret path n ety extra elen)"
  "calm rt_ok (meshcore_runtime_on_advert_recv h p i timestamp app alen)"
  "calm rt_ok (meshcore_runtime_on_control_data_recv h p)"
  "calm rt_ok (meshcore_runtime_on_raw_data_recv h p)"
  "calm rt_ok (meshcore_runtime_on_group_data_recv h p ty channel data len)"
  "calm rt_ok (meshcore_runtime_on_trace_recv h p tag auth flags snrs hashes n)"
  unfolding meshcore_runtime_on_ack_recv_def meshcore_runtime_on_peer_data_recv_def
    meshcore_runtime_on_peer_data_recv_internal_def meshcore_runtime_on_peer_path_recv_def
    meshcore_runtime_on_advert_recv_def meshcore_runtime_on_control_data_recv_def
    meshcore_runtime_on_raw_data_recv_def meshcore_runtime_on_group_data_recv_def
    meshcore_runtime_on_trace_recv_def
  by (intro calm_if_initialized calm_rules)+

interpretation node: mesh_handlers rt_ok h "s_runtime_mesh_ops h"
  for h :: "'w host"
  by unfold_locales (auto simp: s_runtime_mesh_ops_def policy_ops_def no_ops_def intro: calm_rules)

end
