(* ===== verification/Runtime_Loop.thy ===== *)
theory Runtime_Loop
  imports Runtime_Receive
begin

text \<open>
  The life cycle of the runtime (\<open>runtime/meshcore.c\<close>): starting and stopping a
  node, and the three calls by which the host drives it - the timer fired, a frame was received, a
  transmission ended.  Each of them runs the dispatcher at the time the host gives and arms the
  host's timer for the next deadline.

  \<open>meshcore_runtime_end\<close> clears the whole of \<open>s_runtime\<close>; \<open>boot_state\<close> is
  the zeroed static data with which the program starts.  The handlers are registered
  from \<open>meshcore_runtime_begin\<close> on, and no operation runs the mesh before.
\<close>

section \<open>Deadlines and the timer\<close>

definition meshcore_runtime_next_deadline_get :: "'w host \<Rightarrow> u32 \<Rightarrow> ('w, errno + u32 option) rt_op" where
  "meshcore_runtime_next_deadline_get h now_ms = do {
     rt \<leftarrow> rt_get;
     if \<not> rt_initialized rt then ret (Inl ENODEV)
     else
       case (case meshcore_runtime_correlation_next_deadline_get now_ms rt of
               None \<Rightarrow> (False, None)
             | Some candidate \<Rightarrow> meshcore_runtime_deadline_accumulate now_ms candidate None) of
         (due, deadline) \<Rightarrow>
           if due then ret (Inr deadline)
           else do {
             candidate \<leftarrow> meshcore_dispatcher_next_deadline_get h now_ms;
             ret (Inr (case candidate of
                 None \<Rightarrow> deadline
               | Some candidate \<Rightarrow> snd (meshcore_runtime_deadline_accumulate now_ms candidate deadline)))
           }
   }"

definition meshcore_runtime_timer_sync :: "'w host \<Rightarrow> u32 \<Rightarrow> ('w, unit) rt_op" where
  "meshcore_runtime_timer_sync h now_ms = do {
     rt \<leftarrow> rt_get;
     if \<not> rt_initialized rt then ret ()
     else do {
       deadline \<leftarrow> meshcore_runtime_next_deadline_get h now_ms;
       case deadline of
         Inl e \<Rightarrow> ret ()
       | Inr (Some next_deadline_ms) \<Rightarrow> notify h (TimerArm next_deadline_ms)
       | Inr None \<Rightarrow> notify h TimerCancel
     }
   }"

section \<open>Starting and stopping\<close>

definition meshcore_runtime_state_reset :: "runtime \<Rightarrow> runtime" where
  "meshcore_runtime_state_reset rt = rt \<lparr> rt_last_now_ms := 0,
     rt_expected_acks := replicate 8 expected_ack_zero, rt_expected_ack_next := 0,
     rt_pending_discovery := pending_peer_zero, rt_pending_trace := pending_trace_zero,
     rt_pending_telemetry := pending_telemetry_zero, rt_pending_binary := pending_peer_zero,
     rt_rtc_clock_state := meshcore_rtc_clock_state_init \<rparr>"

definition meshcore_runtime_begin :: "'w host \<Rightarrow> ('w, errno + unit) rt_op" where
  "meshcore_runtime_begin h = do {
     modify (\<lambda>s. s \<lparr> co_mgr := meshcore_packet_queue_manager_prepare (co_mgr s) 10 \<rparr>);
     mgr \<leftarrow> gets co_mgr;
     if \<not> qm_initialized mgr then ret (Inl ENOMEM)
     else do {
       modify (\<lambda>s. s \<lparr> co_tables := meshcore_tables_init \<rparr>);
       meshcore_mesh_init h;
       meshcore_mesh_begin h;
       rt_modify meshcore_runtime_state_reset;
       rc \<leftarrow> meshcore_runtime_sync_local_identity h;
       if rc \<noteq> 0 then ret (Inl (HostErr rc))
       else do {
         rt_modify (\<lambda>rt. rt \<lparr> rt_initialized := True \<rparr>);
         now \<leftarrow> meshcore_clock_millis_get h;
         meshcore_runtime_timer_sync h now;
         ret (Inr ())
       }
     }
   }"

definition meshcore_runtime_end :: "('w, unit) rt_op" where
  "meshcore_runtime_end = do {
     meshcore_clock_millis_override_clear;
     modify (\<lambda>s. s \<lparr> co_mgr := meshcore_packet_queue_manager_deinit (co_mgr s) \<rparr>);
     modify (\<lambda>s. s \<lparr> co_mgr := manager_zero, co_tables := meshcore_tables_init, co_disp := dispatcher_zero,
       co_self := meshcore_local_identity_init, co_rt := runtime_zero \<rparr>)
   }"

definition meshcore_init :: "'w host \<Rightarrow> ('w, errno + unit) rt_op" where
  "meshcore_init h = do {
     rt \<leftarrow> rt_get;
     if rt_initialized rt then ret (Inl EALREADY)
     else do {
       meshcore_runtime_end;
       rc \<leftarrow> meshcore_runtime_begin h;
       case rc of
         Inl e \<Rightarrow> do { meshcore_runtime_end; ret (Inl e) }
       | Inr _ \<Rightarrow> ret (Inr ())
     }
   }"

definition meshcore_deinit :: "('w, unit) rt_op" where
  "meshcore_deinit = do {
     rt \<leftarrow> rt_get;
     if \<not> rt_initialized rt then ret () else meshcore_runtime_end
   }"

section \<open>Driving the node\<close>

definition runtime_mesh_loop :: "'w host \<Rightarrow> ('w, unit) rt_op" where
  "runtime_mesh_loop h = meshcore_mesh_loop h (s_runtime_mesh_ops h)"

text \<open>The common end of the three calls.\<close>

definition finish_at :: "'w host \<Rightarrow> u32 \<Rightarrow> ('w, unit) rt_op" where
  "finish_at h now_ms = do {
     meshcore_clock_millis_override_clear;
     rt_modify (\<lambda>rt. rt \<lparr> rt_last_now_ms := now_ms \<rparr>);
     meshcore_runtime_timer_sync h now_ms
   }"

definition meshcore_timer_fired :: "'w host \<Rightarrow> u32 \<Rightarrow> ('w, errno + unit) rt_op" where
  "meshcore_timer_fired h now_ms = do {
     rt \<leftarrow> rt_get;
     if \<not> rt_initialized rt then ret (Inl ENODEV)
     else do {
       meshcore_clock_millis_override_set now_ms;
       rt_modify (meshcore_runtime_correlation_cleanup now_ms);
       runtime_mesh_loop h;
       finish_at h now_ms;
       ret (Inr ())
     }
   }"

definition meshcore_radio_rx_inject ::
  "'w host \<Rightarrow> bytes \<Rightarrow> nat \<Rightarrow> int \<Rightarrow> byte \<Rightarrow> u32 \<Rightarrow> ('w, errno + unit) rt_op" where
  "meshcore_radio_rx_inject h data len rssi_dbm snr_q4 now_ms = do {
     rt \<leftarrow> rt_get;
     if \<not> rt_initialized rt then ret (Inl ENODEV)
     else if len = 0 \<or> len > 255 then ret (Inl EINVAL)
     else do {
       meshcore_clock_millis_override_set now_ms;
       rc \<leftarrow> meshcore_dispatcher_receive_raw h (meshcore_mesh_on_recv_packet h (s_runtime_mesh_ops h))
         data len rssi_dbm snr_q4;
       rc \<leftarrow> (case rc of
           Inr _ \<Rightarrow> do { runtime_mesh_loop h; ret rc }
         | Inl e \<Rightarrow> ret (if e = EINVAL then Inr () else rc));
       finish_at h now_ms;
       ret rc
     }
   }"

definition meshcore_radio_tx_done :: "'w host \<Rightarrow> u32 \<Rightarrow> bool \<Rightarrow> ('w, errno + unit) rt_op" where
  "meshcore_radio_tx_done h now_ms success = do {
     rt \<leftarrow> rt_get;
     if \<not> rt_initialized rt then ret (Inl ENODEV)
     else do {
       meshcore_clock_millis_override_set now_ms;
       handled \<leftarrow> meshcore_dispatcher_tx_done h success;
       runtime_mesh_loop h;
       finish_at h now_ms;
       ret (if handled then Inr () else Inl EALREADY)
     }
   }"

section \<open>The invariant of a node\<close>

definition boot_state :: "'w \<Rightarrow> ('w, runtime) core" where
  "boot_state w = \<lparr> co_world = w, co_millis_override = None, co_mgr = manager_zero,
     co_tables = meshcore_tables_init, co_disp = dispatcher_zero, co_self = meshcore_local_identity_init,
     co_rt = runtime_zero \<rparr>"

text \<open>
  A stopped node is as it was at boot.  In a running node every packet buffer is either unused, or in
  the send or receive queue, or being transmitted, and what is queued can be put on the wire.
\<close>

definition node_ok :: "('w, runtime) core \<Rightarrow> bool" where
  "node_ok s \<longleftrightarrow>
     (if rt_initialized (co_rt s) then
        pool_inv (co_mgr s) (out_refs s) \<and>
        (\<forall>r \<in># queued_refs s. sendable (mgr_packet (co_mgr s) r)) \<and>
        tables_wf (co_tables s) \<and> local_identity_wf (co_self s) \<and> rt_ok (co_rt s)
      else s = boot_state (co_world s))"

definition running :: "('w, runtime) core \<Rightarrow> bool" where
  "running s \<longleftrightarrow> (\<exists>out. owns rt_ok out {#} (\<lambda>_. meshcore_packet_init) s)"

lemma node_ok_running: "rt_initialized (co_rt s) \<Longrightarrow> node_ok s \<longleftrightarrow> running s"
  by (simp add: node_ok_def running_def owns_def out_refs_def)

lemma running_node_ok: "running s \<Longrightarrow> node_ok s"
  using node_ok_running by (auto simp: running_def owns_def rt_ok_def)

lemma boot_node_ok: "node_ok (boot_state w)"
  by (simp add: node_ok_def boot_state_def runtime_zero_def)

lemma triple_running: "calm rt_ok m \<Longrightarrow> triple running m (\<lambda>_. running)"
  unfolding running_def by (fastforce simp: calm_def triple_def)

lemma triple_running_node: "triple running m (\<lambda>_. running) \<Longrightarrow> triple running m (\<lambda>_. node_ok)"
  by (rule triple_post, assumption, rule running_node_ok)

text \<open>An operation that does nothing unless the node runs.\<close>

lemma triple_if_running:
  assumes "triple running m (\<lambda>_. node_ok)"
  shows "triple node_ok (do { rt \<leftarrow> rt_get; if \<not> rt_initialized rt then ret a else m }) (\<lambda>_. node_ok)"
  using assms by (auto simp: triple_def rt_get_def node_ok_running)

section \<open>Every operation keeps the invariant\<close>

lemma calm_runtime_next_deadline [calm_rules]: "calm R (meshcore_runtime_next_deadline_get h now)"
  unfolding meshcore_runtime_next_deadline_get_def by (intro calm_rules)

lemma calm_timer_sync [calm_rules]: "calm R (meshcore_runtime_timer_sync h now)"
  unfolding meshcore_runtime_timer_sync_def by (intro calm_rules)

lemma calm_finish [calm_rules]: "calm rt_ok (finish_at h now)"
  unfolding finish_at_def by (intro calm_rules) (simp add: rt_ok_def)

lemma triple_runtime_loop: "triple running (runtime_mesh_loop h) (\<lambda>_. running)"
  unfolding runtime_mesh_loop_def meshcore_mesh_loop_def running_def
  by (rule triple_ex, rule node.mesh_receiver.triple_loop)

lemma triple_running_bind:
  "triple running m (\<lambda>_. running) \<Longrightarrow> (\<And>x. triple running (k x) (\<lambda>_. running)) \<Longrightarrow>
   triple running (State_Monad.bind m k) (\<lambda>_. running)"
  by (rule triple_bind)

lemma triple_running_tx_done: "triple running (meshcore_dispatcher_tx_done h ok) (\<lambda>_. running)"
  unfolding running_def by (rule triple_ex, rule triple_post [OF triple_tx_done]) auto

lemma triple_case_sum:
  "(\<And>e. x = Inl e \<Longrightarrow> triple A (f e) Q) \<Longrightarrow> (\<And>a. x = Inr a \<Longrightarrow> triple A (g a) Q) \<Longrightarrow>
   triple A (case x of Inl e \<Rightarrow> f e | Inr a \<Rightarrow> g a) Q"
  by (cases x) simp_all

lemmas triple_node_rules = triple_running_bind triple_runtime_loop triple_running_tx_done
  triple_running [OF calm_return] triple_running [OF calm_finish] triple_running [OF calm_override(1)]
  triple_running [OF calm_rt_write(9)] triple_running [OF node.mesh_receiver.calm_receive_raw]

lemma node_timer_fired: "triple node_ok (meshcore_timer_fired h now) (\<lambda>_. node_ok)"
  unfolding meshcore_timer_fired_def
  by (rule triple_if_running, rule triple_running_node, intro triple_node_rules)

lemma node_tx_done: "triple node_ok (meshcore_radio_tx_done h now ok) (\<lambda>_. node_ok)"
  unfolding meshcore_radio_tx_done_def
  by (rule triple_if_running, rule triple_running_node, intro triple_node_rules)

lemma node_rx_inject: "triple node_ok (meshcore_radio_rx_inject h data len rssi snr now) (\<lambda>_. node_ok)"
proof -
  have ran: "triple running (case rc of Inr u \<Rightarrow> do { runtime_mesh_loop h; ret rc }
      | Inl e \<Rightarrow> ret (if e = EINVAL then Inr () else rc)) (\<lambda>_. running)" for rc :: "errno + unit"
    by (rule triple_case_sum) (intro triple_node_rules)+
  show ?thesis
    unfolding meshcore_radio_rx_inject_def
    by (rule triple_if_running, rule triple_running_node, intro triple_if ran triple_node_rules)
qed

lemma run_end: "run_state meshcore_runtime_end s = ((), boot_state (co_world s))"
  by (cases s) (simp add: meshcore_runtime_end_def meshcore_clock_millis_override_clear_def boot_state_def)

lemma node_end: "triple A meshcore_runtime_end (\<lambda>_. node_ok)"
  by (simp add: triple_def run_end boot_node_ok)

lemma node_deinit: "triple node_ok meshcore_deinit (\<lambda>_. node_ok)"
  unfolding meshcore_deinit_def by (rule triple_if_running, rule node_end)

text \<open>
  Starting: after \<open>meshcore_packet_queue_manager_prepare\<close> every buffer is unused; nothing until
  the end of \<open>meshcore_runtime_begin\<close> takes one.
\<close>

lemma tables_init_wf: "tables_wf meshcore_tables_init"
  by (simp add: tables_wf_def meshcore_tables_init_def)

lemma local_identity_init_wf: "local_identity_wf meshcore_local_identity_init"
  by (simp add: local_identity_wf_def identity_wf_def meshcore_local_identity_init_def meshcore_identity_init_def)

lemma owns_prepared:
  "owns (\<lambda>_. True) None {#} P (boot_state w \<lparr> co_mgr := meshcore_packet_queue_manager_prepare m 10 \<rparr>)"
proof -
  let ?m = "meshcore_packet_queue_manager_prepare m 10"
  have inv: "pool_inv ?m {#}" and n: "q_num (qm_unused ?m) = 10" and sz: "qm_pool_size ?m = 10"
    using prepare_inv [of 10 m] by (simp_all add: MAX_POOL_SIZE_def)
  have "size (mgr_refs ?m) = 10" using inv sz by (simp add: pool_inv_def)
  then have "array_queue.refs (qm_send_queue ?m) = {#}" "array_queue.refs (qm_rx_queue ?m) = {#}"
    using n by (simp_all add: mgr_refs_def flip: size_eq_0_iff_empty)
  then show ?thesis
    using inv
    by (simp add: owns_def boot_state_def dispatcher_zero_def out_refs_def held_after_def queued_refs_def
        tables_init_wf local_identity_init_wf)
qed

lemma triple_dispatcher_init:
  "triple (owns R None H P) (meshcore_dispatcher_init h) (\<lambda>_. owns R None H P)"
proof -
  have zero: "triple (owns R None H P) (disp_modify (\<lambda>_. dispatcher_zero)) (\<lambda>_. owns R None H P)"
    by (auto simp: triple_def disp_modify_def owns_def dispatcher_zero_def queued_refs_def out_refs_def)
  have rest: "calm R (do {
     now \<leftarrow> meshcore_clock_millis_get h;
     disp_modify (\<lambda>d. d \<lparr> dp_next_tx_time := now, dp_prev_isrecv_mode := True,
       dp_duty_cycle_window_ms := 3600000 \<rparr>) })"
    by (intro calm_rules) simp
  show ?thesis
    unfolding meshcore_dispatcher_init_def by (rule triple_bind [OF zero calmD [OF rest]])
qed

lemma triple_begin:
  "triple (\<lambda>s. \<exists>w. s = boot_state w) (meshcore_runtime_begin h) (\<lambda>rc s. rc = Inr () \<longrightarrow> running s)"
proof -
  let ?P = "\<lambda>_ :: packet_ref. meshcore_packet_init"
  let ?Q = "\<lambda>rc s. rc = (Inr () :: errno + unit) \<longrightarrow> running s"
  let ?bounds = "\<lambda>rt. length (rt_expected_acks rt) = 8 \<and> rt_expected_ack_next rt < 8"
  have prepare: "triple (\<lambda>s. \<exists>w. s = boot_state w)
      (modify (\<lambda>s. s \<lparr> co_mgr := meshcore_packet_queue_manager_prepare (co_mgr s) 10 \<rparr>))
      (\<lambda>_. owns (\<lambda>_. True) None {#} ?P)"
    using owns_prepared by (auto simp: triple_def)
  have mgr: "triple (owns (\<lambda>_. True) None {#} ?P) (gets co_mgr)
      (\<lambda>mgr s. qm_initialized mgr \<and> owns (\<lambda>_. True) None {#} ?P s)"
    by (auto simp: triple_def owns_def pool_inv_def mgr_ok_def)
  have tables: "triple (owns R None {#} ?P) (modify (\<lambda>s. s \<lparr> co_tables := meshcore_tables_init \<rparr>))
      (\<lambda>_. owns R None {#} ?P)" for R :: "runtime \<Rightarrow> bool"
    by (auto simp: triple_def owns_def queued_refs_def out_refs_def tables_init_wf)
  have mesh: "triple (owns R None {#} ?P) (meshcore_mesh_init h) (\<lambda>_. owns R None {#} ?P)"
    for R :: "runtime \<Rightarrow> bool"
    unfolding meshcore_mesh_init_def
    by (rule triple_bind [OF calmD [OF calm_set_self] triple_dispatcher_init]) (simp add: local_identity_init_wf)
  have reset: "triple (owns (\<lambda>_. True) None {#} ?P) (rt_modify meshcore_runtime_state_reset)
      (\<lambda>_. owns ?bounds None {#} ?P)"
    by (auto simp: triple_def rt_modify_def owns_def queued_refs_def out_refs_def
        meshcore_runtime_state_reset_def)
  have start: "triple (owns ?bounds None {#} ?P) (rt_modify (\<lambda>rt. rt \<lparr> rt_initialized := True \<rparr>))
      (\<lambda>_. owns rt_ok None {#} ?P)"
    by (auto simp: triple_def rt_modify_def owns_def queued_refs_def out_refs_def rt_ok_def)
  have "triple (owns rt_ok None {#} ?P) (do {
      now \<leftarrow> meshcore_clock_millis_get h; meshcore_runtime_timer_sync h now; ret (Inr ()) }) ?Q"
    by (rule triple_post [OF calmD], intro calm_rules) (auto simp: running_def)
  note started = triple_bind [OF start this]
  have failed: "triple A (ret (Inl e)) ?Q" for A e by (simp add: triple_def)
  show ?thesis
    unfolding meshcore_runtime_begin_def meshcore_mesh_begin_def
    by (rule triple_bind [OF prepare], rule triple_bind [OF mgr], rule triple_pure, rule triple_if, rule failed,
        rule triple_bind [OF tables], rule triple_bind [OF mesh], rule triple_bind [OF calmD [OF calm_begin]],
        rule triple_bind [OF reset], rule triple_bind [OF calmD [OF calm_runtime_helpers(3)]],
        rule triple_if, rule failed, rule started)
qed

lemma node_init: "triple node_ok (meshcore_init h) (\<lambda>_. node_ok)"
proof -
  have finish: "triple (\<lambda>s. rc = Inr () \<longrightarrow> running s) (case rc of
      Inl e \<Rightarrow> do { meshcore_runtime_end; ret (Inl e) } | Inr _ \<Rightarrow> ret (Inr ())) (\<lambda>_. node_ok)"
    for rc :: "errno + unit"
    by (cases rc) (auto simp: triple_def run_end boot_node_ok running_node_ok)
  have fresh: "triple A meshcore_runtime_end (\<lambda>_ s. \<exists>w. s = boot_state w)" for A
    by (auto simp: triple_def run_end)
  have "triple node_ok (do { meshcore_runtime_end; rc \<leftarrow> meshcore_runtime_begin h;
      case rc of Inl e \<Rightarrow> do { meshcore_runtime_end; ret (Inl e) } | Inr _ \<Rightarrow> ret (Inr ()) }) (\<lambda>_. node_ok)"
    by (rule triple_bind [OF fresh], rule triple_bind [OF triple_begin finish])
  then show ?thesis
    unfolding meshcore_init_def by (auto simp: triple_def rt_get_def)
qed

text \<open>
  C26. A transmission that the radio never reports as finished does not block the node.  When its time has
  passed, the loop gives it up: no packet is being sent any more, and its buffer is free again,
  so that the pool is complete.
\<close>

theorem lost_transmission_given_up:
  assumes "node_ok s" and "rt_initialized (co_rt s)"
    and "co_millis_override s = Some now" and "after now (dp_outbound_expiry (co_disp s))"
    and "run_state (outbound_settled h) s = (settled, s')"
  shows "settled \<and> dp_outbound (co_disp s') = None \<and> node_ok s' \<and>
    mgr_refs (co_mgr s') = mset [0..<nat (qm_pool_size (co_mgr s'))]"
proof -
  let ?P = "\<lambda>_. meshcore_packet_init"
  obtain out where own: "owns rt_ok out {#} ?P s"
    using assms(1,2) node_ok_running by (auto simp: running_def)
  have "settled \<and> owns rt_ok None {#} ?P s'"
  proof (cases "dp_outbound (co_disp s)")
    case None
    then show ?thesis using own assms(5) by (auto simp: outbound_settled_def disp_get_def owns_def)
  next
    case (Some r)
    then have "settled \<and> snd (run_state (meshcore_dispatcher_tx_done h False) s) = s'"
      using assms(3-5)
      by (auto simp: outbound_settled_def disp_get_def meshcore_dispatcher_millis_has_now_passed_def
          meshcore_clock_millis_get_def split: prod.splits)
    then show ?thesis
      using triple_tx_done [of rt_ok out "{#}" ?P h False] own by (auto simp: triple_def)
  qed
  then have "settled" "running s'" "dp_outbound (co_disp s') = None" "pool_inv (co_mgr s') {#}"
    by (auto simp: running_def owns_def out_refs_def)
  then show ?thesis
    using running_node_ok by (auto simp: pool_inv_def)
qed

definition example_sending :: "(unit, runtime) core" where
  "example_sending = (boot_state ()) \<lparr>
     co_mgr := snd (meshcore_packet_queue_manager_alloc_new (meshcore_packet_queue_manager_prepare manager_zero 10)),
     co_disp := dispatcher_zero \<lparr> dp_outbound := Some 0 \<rparr>, co_millis_override := Some 5,
     co_rt := runtime_zero \<lparr> rt_initialized := True \<rparr> \<rparr>"

lemma example_sending_ok: "node_ok example_sending"
proof -
  let ?m = "co_mgr example_sending"
  have r: "fst (meshcore_packet_queue_manager_alloc_new (meshcore_packet_queue_manager_prepare manager_zero 10)) = Some 0"
    and n: "q_num (qm_unused ?m) = 9" and sz: "qm_pool_size ?m = 10"
    and packet: "sendable (mgr_packet ?m 0)" "tables_wf (co_tables example_sending)"
      "local_identity_wf (co_self example_sending)" "rt_ok (co_rt example_sending)"
    by code_simp+
  have inv: "pool_inv ?m {#0#}"
    using alloc_new_inv [OF prepare_inv(1) [of 10 manager_zero], of "Some 0" ?m] r
    by (simp add: MAX_POOL_SIZE_def example_sending_def prod_eq_iff)
  have "size (mgr_refs ?m + {#0#}) = 10" using inv sz by (simp only: pool_inv_def size_mset) simp
  then have "array_queue.refs (qm_send_queue ?m) = {#}" "array_queue.refs (qm_rx_queue ?m) = {#}"
    using n by (simp_all add: mgr_refs_def flip: size_eq_0_iff_empty)
  moreover have "out_refs example_sending = {#0#}" by (simp add: out_refs_def example_sending_def)
  ultimately show ?thesis
    using inv packet by (simp add: node_ok_def queued_refs_def rt_ok_def)
qed

theorem lost_transmission_given_up_witness:
  "dp_outbound (co_disp example_sending) = Some 0 \<and>
   dp_outbound (co_disp (snd (run_state (outbound_settled example_host) example_sending))) = None"
proof -
  have "rt_initialized (co_rt example_sending)" "co_millis_override example_sending = Some 5"
    "after 5 (dp_outbound_expiry (co_disp example_sending))" "dp_outbound (co_disp example_sending) = Some 0"
    by code_simp+
  then show ?thesis
    using lost_transmission_given_up [OF example_sending_ok _ _ _ prod.collapse [symmetric]] by blast
qed

end
