(* ===== verification/Runtime_Request.thy ===== *)
theory Runtime_Request
  imports Runtime_Loop
begin

text \<open>
  The requests of the host (\<open>runtime/meshcore_runtime_request.c\<close>): every public function checks
  its arguments, builds a request and executes it at once, if the node runs and has a free
  packet buffer.

  \<open>datatype request\<close> is the tagged union of \<open>meshcore_runtime_internal.h\<close>; a payload is
  kept with its length.  The error codes have the values they have in newlib and glibc.  A tag the
  caller does not ask for (\<open>request_tag == NULL\<close>) is \<open>None\<close>.
\<close>

section \<open>Requests\<close>

datatype request =
    NODE_ADVERT (rq_flood: bool)
  | NODE_PEER_ADVERT (rq_raw_advert: bytes) (rq_raw_advert_len: nat)
  | MESSAGE_SEND_TO_NODE (rq_public_key: bytes) (rq_flood: bool) (rq_attempt: byte)
      (rq_payload: bytes) (rq_payload_len: nat)
  | MESSAGE_SEND_TO_CHANNEL (rq_secret: bytes) (rq_secret_len: nat) (rq_payload: bytes) (rq_payload_len: nat)
  | NODE_DISCOVER_PATH (rq_public_key: bytes) (rq_tag: u32)
  | NODE_TRACE_PATH (rq_path: bytes) (rq_path_len: byte) (rq_path_hash_size: byte) (rq_tag: u32)
  | NODE_TELEMETRY (rq_public_key: bytes) (rq_permission_mask: byte) (rq_tag: u32)
  | NODE_BINARY (rq_public_key: bytes) (rq_payload: bytes) (rq_payload_len: nat) (rq_tag: u32)
  | NODE_DISCOVER (rq_filter: byte) (rq_prefix_only: bool) (rq_since: u32) (rq_tag: u32)
  | CHANNEL_DATA (rq_secret: bytes) (rq_secret_len: nat) (rq_path: bytes) (rq_path_len: byte)
      (rq_data_type: u16) (rq_payload: bytes) (rq_payload_len: nat)
  | RAW_DATA (rq_path: bytes) (rq_path_len: byte) (rq_payload: bytes) (rq_payload_len: nat)
  | CONTROL_DATA (rq_payload: bytes) (rq_payload_len: nat)
  | NODE_BINARY_RESPONSE (rq_request: binary_request_event) (rq_payload: bytes) (rq_payload_len: nat)
  | NODE_ANON_DATA (rq_public_key: bytes) (rq_payload: bytes) (rq_payload_len: nat)

primrec request_type :: "request \<Rightarrow> byte" where
  "request_type (NODE_ADVERT flood) = 1"
| "request_type (NODE_PEER_ADVERT raw raw_len) = 2"
| "request_type (MESSAGE_SEND_TO_NODE public_key flood attempt payload payload_len) = 3"
| "request_type (MESSAGE_SEND_TO_CHANNEL secret secret_len payload payload_len) = 4"
| "request_type (NODE_DISCOVER_PATH public_key tag) = 5"
| "request_type (NODE_TRACE_PATH path path_len path_hash_size tag) = 6"
| "request_type (NODE_TELEMETRY public_key permission_mask tag) = 7"
| "request_type (NODE_BINARY public_key payload payload_len tag) = 8"
| "request_type (NODE_DISCOVER filter_bits prefix_only since tag) = 9"
| "request_type (CHANNEL_DATA secret secret_len path path_len data_type payload payload_len) = 10"
| "request_type (RAW_DATA path path_len payload payload_len) = 11"
| "request_type (CONTROL_DATA payload payload_len) = 12"
| "request_type (NODE_BINARY_RESPONSE request payload payload_len) = 13"
| "request_type (NODE_ANON_DATA public_key payload payload_len) = 14"

definition EAGAIN_CODE :: int where
  "EAGAIN_CODE = - 11"

definition EBUSY_CODE :: int where
  "EBUSY_CODE = - 16"

definition ENOBUFS_CODE :: int where
  "ENOBUFS_CODE = - 105"

definition meshcore_runtime_permission_mask_valid :: "byte \<Rightarrow> bool" where
  "meshcore_runtime_permission_mask_valid permission_mask \<longleftrightarrow> permission_mask AND NOT 0x07 = 0"

definition meshcore_runtime_telemetry_wire_encode :: "byte \<Rightarrow> byte" where
  "meshcore_runtime_telemetry_wire_encode permission_mask = NOT permission_mask"

definition meshcore_runtime_request_needs_packet :: "byte \<Rightarrow> bool" where
  "meshcore_runtime_request_needs_packet ty \<longleftrightarrow> ty \<in> set [1, 2, 3, 4, 5, 6, 7, 8, 9, 10, 11, 12, 13, 14]"

definition meshcore_runtime_request_log_transient_failure :: "'w host \<Rightarrow> byte \<Rightarrow> int \<Rightarrow> ('w, 'r, unit) op" where
  "meshcore_runtime_request_log_transient_failure h ty err_code =
     when_do (err_code = ENOBUFS_CODE \<or> err_code = EAGAIN_CODE \<or> err_code = EBUSY_CODE)
       (meshcore_platform_bridge_request_error h ty err_code)"

section \<open>Validation\<close>

definition check :: "bool \<Rightarrow> errno + unit" where
  "check ok = (if ok then Inr () else Inl EINVAL)"

definition meshcore_runtime_request_validate_node_peer_advert :: "bytes \<Rightarrow> nat \<Rightarrow> errno + unit" where
  "meshcore_runtime_request_validate_node_peer_advert raw_advert raw_advert_len =
     (if raw_advert_len = 0 \<or> raw_advert_len > 255 then Inl EINVAL
      else
        let (ok, p) = meshcore_packet_read_from meshcore_packet_init raw_advert (of_nat raw_advert_len) in
        check (ok \<and> meshcore_packet_get_payload_type p = PAYLOAD_TYPE_ADVERT))"

definition meshcore_runtime_request_validate_message_send_to_node :: "byte \<Rightarrow> nat \<Rightarrow> errno + unit" where
  "meshcore_runtime_request_validate_message_send_to_node attempt payload_len =
     (if payload_len = 0 \<or> payload_len > 160 then Inl EINVAL
      else check (\<not> (attempt > 3 \<and> payload_len > 160 - 2)))"

definition meshcore_runtime_request_validate_message_send_to_channel :: "nat \<Rightarrow> nat \<Rightarrow> errno + unit" where
  "meshcore_runtime_request_validate_message_send_to_channel secret_len payload_len =
     check (\<not> (secret_len \<noteq> 16 \<and> secret_len \<noteq> 32 \<or> payload_len = 0 \<or> payload_len > 160))"

definition meshcore_runtime_request_validate_path :: "byte \<Rightarrow> bool \<Rightarrow> errno + unit" where
  "meshcore_runtime_request_validate_path path_len allow_unknown =
     (if path_len = 0xFF then check allow_unknown
      else check (meshcore_runtime_path_len_decode path_len \<noteq> None))"

definition meshcore_runtime_request_validate_channel_data :: "nat \<Rightarrow> byte \<Rightarrow> nat \<Rightarrow> errno + unit" where
  "meshcore_runtime_request_validate_channel_data secret_len path_len payload_len =
     (if secret_len \<noteq> 16 \<and> secret_len \<noteq> 32 \<or> payload_len > 165 then Inl EINVAL
      else meshcore_runtime_request_validate_path path_len True)"

definition meshcore_runtime_request_validate_node_telemetry :: "byte \<Rightarrow> errno + unit" where
  "meshcore_runtime_request_validate_node_telemetry permission_mask =
     check (meshcore_runtime_permission_mask_valid permission_mask)"

definition meshcore_runtime_request_validate_node_trace :: "byte \<Rightarrow> byte \<Rightarrow> errno + unit" where
  "meshcore_runtime_request_validate_node_trace path_len path_hash_size =
     (if path_len = 0 \<or> path_len > 64 \<or> path_hash_size = 0 \<or> path_hash_size > 3 \<or> path_len mod path_hash_size \<noteq> 0
      then Inl EINVAL
      else
        let hop_count = path_len div path_hash_size in
        check (\<not> hop_count mod 2 = 0))"

definition meshcore_runtime_request_validate_raw_data :: "byte \<Rightarrow> nat \<Rightarrow> errno + unit" where
  "meshcore_runtime_request_validate_raw_data path_len payload_len =
     (if payload_len = 0 \<or> payload_len > 184 then Inl EINVAL
      else
        case meshcore_runtime_request_validate_path path_len False of
          Inl e \<Rightarrow> Inl e
        | Inr _ \<Rightarrow> check (path_len \<noteq> 0xFF))"

definition meshcore_runtime_request_validate_control_data :: "bytes \<Rightarrow> nat \<Rightarrow> errno + unit" where
  "meshcore_runtime_request_validate_control_data payload payload_len =
     check (\<not> (payload_len = 0 \<or> payload_len > 184 \<or> byte_at payload 0 AND 0x80 = 0))"

definition meshcore_runtime_request_validate_node_binary :: "nat \<Rightarrow> errno + unit" where
  "meshcore_runtime_request_validate_node_binary payload_len =
     check (\<not> (payload_len = 0 \<or> payload_len > 163 \<or> \<not> meshcore_mesh_datagram_plaintext_fits (4 + payload_len)))"

definition meshcore_runtime_request_validate_node_anon_data :: "nat \<Rightarrow> errno + unit" where
  "meshcore_runtime_request_validate_node_anon_data payload_len =
     check (\<not> (payload_len = 0 \<or> payload_len > 136))"

definition meshcore_runtime_request_validate_node_binary_response ::
  "binary_request_event \<Rightarrow> nat \<Rightarrow> errno + unit" where
  "meshcore_runtime_request_validate_node_binary_response request payload_len =
     (if payload_len > 163 \<or> \<not> meshcore_mesh_datagram_plaintext_fits (4 + payload_len) \<or>
         br_tag request = 0 \<or> unat (br_payload_len request) > 163 then Inl EINVAL
      else if br_route request = ROUTE_FLOOD then
        case meshcore_runtime_path_len_decode (br_path_len request) of
          None \<Rightarrow> Inl EINVAL
        | Some (path_byte_len, path_hash_size) \<Rightarrow>
            if unat path_byte_len > 64 then Inl EINVAL
            else check (meshcore_mesh_path_return_extra_fits (br_path_len request) (4 + payload_len))
      else Inr ())"

definition meshcore_runtime_request_validate_node_discover :: "byte \<Rightarrow> errno + unit" where
  "meshcore_runtime_request_validate_node_discover filter_bits = check (filter_bits \<noteq> 0)"

section \<open>Execution\<close>

text \<open>The shared secret with a peer, and the two ways a datagram to it travels.\<close>

definition peer_secret :: "'w host \<Rightarrow> bytes \<Rightarrow> ('w, 'r, bytes) op" where
  "peer_secret h public_key = do {
     self \<leftarrow> gets co_self;
     ret (meshcore_local_identity_calc_shared_secret (h_ec h) self public_key)
   }"

abbreviation recipient_of :: "bytes \<Rightarrow> identity" where
  "recipient_of public_key \<equiv> meshcore_identity_init_from_pub_key meshcore_identity_init public_key"

definition send_to_peer :: "'w host \<Rightarrow> packet_ref \<Rightarrow> bytes \<Rightarrow> u32 \<Rightarrow> ('w, 'r, unit) op" where
  "send_to_peer h r public_key delay_ms = do {
     path \<leftarrow> meshcore_runtime_peer_path_get h public_key;
     case path of
       Some (peer_path, path_len) \<Rightarrow> meshcore_mesh_send_direct h r (pp_out_path peer_path) path_len delay_ms
     | None \<Rightarrow> flood_if_created h (Some r) delay_ms
   }"

text \<open>\<open>meshcore_clock_rtc_get_current_time_unique\<close> on the runtime's clock state.\<close>

definition unique_time :: "'w host \<Rightarrow> ('w, u32) rt_op" where
  "unique_time h = do {
     rt \<leftarrow> rt_get;
     (t, last_unique) \<leftarrow> meshcore_clock_rtc_get_current_time_unique h (rt_rtc_clock_state rt);
     rt_modify (\<lambda>rt. rt \<lparr> rt_rtc_clock_state := last_unique \<rparr>);
     ret t
   }"

definition tag_or_unique :: "'w host \<Rightarrow> u32 \<Rightarrow> ('w, u32) rt_op" where
  "tag_or_unique h tag = (if tag = 0 then unique_time h else ret tag)"

text \<open>\<open>with_packet h ty reply k\<close>: \<open>k\<close> on the packet, or the report that none was free.\<close>

definition with_packet ::
  "'w host \<Rightarrow> byte \<Rightarrow> ('w, 'r, packet_ref option) op \<Rightarrow> (packet_ref \<Rightarrow> ('w, 'r, unit) op) \<Rightarrow> ('w, 'r, unit) op" where
  "with_packet h ty create k = do {
     packet \<leftarrow> create;
     case packet of
       None \<Rightarrow> meshcore_runtime_request_log_transient_failure h ty ENOBUFS_CODE
     | Some r \<Rightarrow> k r
   }"

text \<open>\<open>with_identity h ty m\<close>: the local identity is read from the host first.\<close>

definition with_identity :: "'w host \<Rightarrow> byte \<Rightarrow> ('w, 'r, unit) op \<Rightarrow> ('w, 'r, unit) op" where
  "with_identity h ty m = do {
     rc \<leftarrow> meshcore_runtime_sync_local_identity h;
     if rc \<noteq> 0 then meshcore_runtime_request_log_transient_failure h ty EAGAIN_CODE else m
   }"

definition advert_builder :: "node_identity \<Rightarrow> node_advert_profile \<Rightarrow> byte \<Rightarrow> advert_data_builder" where
  "advert_builder identity profile advert_type =
     (let builder = meshcore_advert_data_builder_init_with_name advert_type (Some (ni_name identity)) in
      if ap_has_position profile
      then builder \<lparr> ab_has_loc := True, ab_lat := ap_latitude profile, ab_lon := ap_longitude profile \<rparr>
      else builder)"

definition meshcore_runtime_request_execute_node_advert :: "'w host \<Rightarrow> bool \<Rightarrow> ('w, unit) rt_op" where
  "meshcore_runtime_request_execute_node_advert h flood =
     with_identity h 1 (do {
       (rc, node_identity) \<leftarrow> meshcore_platform_bridge_node_identity_get h;
       if rc \<noteq> 0 then meshcore_runtime_request_log_transient_failure h 1 EAGAIN_CODE
       else do {
         (rc, advert_profile) \<leftarrow> meshcore_platform_bridge_node_advert_profile_get h;
         if rc \<noteq> 0 then meshcore_runtime_request_log_transient_failure h 1 EAGAIN_CODE
         else do {
           let advert_type = meshcore_runtime_role_to_advert_type (ni_role node_identity);
           if advert_type = 0 then ret ()
           else do {
             let (app_data_len, app_data) = meshcore_advert_data_builder_encode_to
               (advert_builder node_identity advert_profile advert_type) (zeros 32);
             self \<leftarrow> gets co_self;
             with_packet h 1 (meshcore_mesh_create_advert h self app_data (unat app_data_len)) (\<lambda>r.
               if flood then flood_if_created h (Some r) 0 else meshcore_mesh_send_zero_hop h r 0)
           }
         }
       }
     })"

definition meshcore_runtime_request_execute_node_peer_advert ::
  "'w host \<Rightarrow> bytes \<Rightarrow> nat \<Rightarrow> ('w, unit) rt_op" where
  "meshcore_runtime_request_execute_node_peer_advert h raw_advert raw_advert_len =
     with_packet h 2 meshcore_dispatcher_obtain_new_packet (\<lambda>r. do {
       p \<leftarrow> pk_get r;
       let (ok, p) = meshcore_packet_read_from p raw_advert (of_nat raw_advert_len);
       pk_put r p;
       if \<not> ok \<or> meshcore_packet_get_payload_type p \<noteq> PAYLOAD_TYPE_ADVERT
       then meshcore_dispatcher_release_packet r
       else meshcore_mesh_send_zero_hop h r 0
     })"

text \<open>The plain text of a message: the time, the attempt and the text, and a further attempt's number.\<close>

definition message_plain :: "u32 \<Rightarrow> byte \<Rightarrow> bytes \<Rightarrow> bytes" where
  "message_plain timestamp attempt payload = le_bytes 4 timestamp @ [attempt AND 0x03] @ payload"

definition message_data :: "u32 \<Rightarrow> byte \<Rightarrow> bytes \<Rightarrow> bytes" where
  "message_data timestamp attempt payload =
     message_plain timestamp attempt payload @ (if attempt > 3 then [0, attempt] else [])"

definition expected_ack_of :: "crypto \<Rightarrow> bytes \<Rightarrow> bytes \<Rightarrow> u32" where
  "expected_ack_of cr plain pub_key =
     le_word (meshcore_utils_sha256_two_fragments cr 4 plain (int (length plain)) pub_key 32)"

definition meshcore_runtime_request_execute_message_send_to_node ::
  "'w host \<Rightarrow> bytes \<Rightarrow> bool \<Rightarrow> byte \<Rightarrow> bytes \<Rightarrow> nat \<Rightarrow> ('w, unit) rt_op" where
  "meshcore_runtime_request_execute_message_send_to_node h public_key flood attempt payload payload_len =
     with_identity h 3
       (if attempt > 3 \<and> payload_len > 160 - 2 then ret ()
        else do {
          timestamp \<leftarrow> meshcore_clock_rtc_get_current_time h;
          let txt = mem_read 0 payload_len payload;
          let data = message_data timestamp attempt txt;
          self \<leftarrow> self_identity;
          let expected_ack = expected_ack_of (h_crypto h) (message_plain timestamp attempt txt) (id_pub_key self);
          secret \<leftarrow> peer_secret h public_key;
          with_packet h 3 (meshcore_mesh_create_datagram h PAYLOAD_TYPE_TXT_MSG (recipient_of public_key) secret
              data (length data)) (\<lambda>r. do {
            meshcore_runtime_expected_ack_register h expected_ack public_key attempt;
            if flood then flood_if_created h (Some r) 0 else send_to_peer h r public_key 0
          })
        })"

text \<open>The channel of a secret the host knows.\<close>

definition known_channel :: "'w host \<Rightarrow> bytes \<Rightarrow> nat \<Rightarrow> ('w, 'r, group_channel option) op" where
  "known_channel h secret secret_len = do {
     (rc, channel_hash) \<leftarrow> meshcore_platform_bridge_channel_secret_hash h secret secret_len;
     if rc \<noteq> 0 then ret None
     else do {
       n \<leftarrow> meshcore_platform_bridge_channel_secret_match_exists h channel_hash secret secret_len;
       ret (if n \<le> 0 then None
            else Some \<lparr> gc_hash = mem_write 0 [channel_hash] (zeros 1),
                        gc_secret = mem_write 0 (mem_read 0 secret_len secret) (zeros 32) \<rparr>)
     }
   }"

definition channel_text_prefix :: "bytes \<Rightarrow> bytes" where
  "channel_text_prefix name = take 34 (c_string name @ [58, 32])"

definition meshcore_runtime_request_execute_message_send_to_channel ::
  "'w host \<Rightarrow> bytes \<Rightarrow> nat \<Rightarrow> bytes \<Rightarrow> nat \<Rightarrow> ('w, unit) rt_op" where
  "meshcore_runtime_request_execute_message_send_to_channel h secret secret_len payload payload_len = do {
     (rc, node_identity) \<leftarrow> meshcore_platform_bridge_node_identity_get h;
     if rc \<noteq> 0 then meshcore_runtime_request_log_transient_failure h 4 EAGAIN_CODE
     else do {
       channel \<leftarrow> known_channel h secret secret_len;
       case channel of
         None \<Rightarrow> ret ()
       | Some channel \<Rightarrow> do {
           timestamp \<leftarrow> meshcore_clock_rtc_get_current_time h;
           let prefix = channel_text_prefix (ni_name node_identity);
           let prefix_len = length prefix;
           if prefix_len \<ge> 160 \<or> payload_len + prefix_len > 160 then ret ()
           else do {
             let data = le_bytes 4 timestamp @ [0] @ prefix @ mem_read 0 payload_len payload;
             with_packet h 4 (meshcore_mesh_create_group_datagram h PAYLOAD_TYPE_GRP_TXT channel data
                 (5 + prefix_len + payload_len))
               (\<lambda>r. flood_if_created h (Some r) 0)
           }
         }
     }
   }"

definition meshcore_runtime_request_prepare_req_data :: "'w host \<Rightarrow> byte \<Rightarrow> ('w, 'r, bytes) op" where
  "meshcore_runtime_request_prepare_req_data h permission_mask = do {
     rnd \<leftarrow> meshcore_platform_bridge_rng_random h 4;
     ret ([3, meshcore_runtime_telemetry_wire_encode permission_mask] @ zeros 3 @ rnd)
   }"

definition meshcore_runtime_request_execute_node_discover_path ::
  "'w host \<Rightarrow> bytes \<Rightarrow> u32 \<Rightarrow> ('w, unit) rt_op" where
  "meshcore_runtime_request_execute_node_discover_path h public_key request_tag =
     with_identity h 5 (do {
       tag \<leftarrow> tag_or_unique h request_tag;
       req_data \<leftarrow> meshcore_runtime_request_prepare_req_data h 0x01;
       secret \<leftarrow> peer_secret h public_key;
       with_packet h 5 (meshcore_mesh_create_datagram h PAYLOAD_TYPE_REQ (recipient_of public_key) secret
           (le_bytes 4 tag @ req_data) 13) (\<lambda>r. do {
         meshcore_runtime_pending_discovery_register h tag public_key;
         flood_if_created h (Some r) 0
       })
     })"

text \<open>A trace carries hashes of one or two bytes; longer ones are cut.\<close>

definition trace_path_of :: "bytes \<Rightarrow> nat \<Rightarrow> nat \<Rightarrow> nat \<Rightarrow> bytes" where
  "trace_path_of path path_len path_hash_size trace_hash_size =
     (if path_hash_size \<noteq> trace_hash_size
      then concat (map (\<lambda>hop. mem_read (hop * path_hash_size) trace_hash_size path)
             [0..<path_len div path_hash_size])
      else mem_read 0 path_len path)"

definition meshcore_runtime_request_execute_node_trace_path ::
  "'w host \<Rightarrow> bytes \<Rightarrow> byte \<Rightarrow> byte \<Rightarrow> u32 \<Rightarrow> ('w, unit) rt_op" where
  "meshcore_runtime_request_execute_node_trace_path h path path_len path_hash_size request_tag =
     (if meshcore_runtime_request_validate_node_trace path_len path_hash_size \<noteq> Inr () then ret ()
      else do {
        let trace_hash_size = (if path_hash_size = 3 then 2 else path_hash_size);
        let flags = (if trace_hash_size = 2 then 1 else 0 :: byte);
        let trace_len = (if path_hash_size \<noteq> trace_hash_size
                         then unat path_len div unat path_hash_size * unat trace_hash_size
                         else unat path_len);
        if trace_len > 184 - 9 \<or> trace_len > 64 then ret ()
        else do {
          let trace_path = trace_path_of path (unat path_len) (unat path_hash_size) (unat trace_hash_size);
          tag \<leftarrow> tag_or_unique h request_tag;
          now \<leftarrow> meshcore_clock_millis_get h;
          with_packet h 6 (meshcore_mesh_create_trace tag (now AND 0x00FFFFFF) flags) (\<lambda>r. do {
            meshcore_runtime_pending_trace_register h tag;
            meshcore_mesh_send_direct h r trace_path (of_nat trace_len) 0
          })
        }
      })"

definition meshcore_runtime_request_execute_node_telemetry ::
  "'w host \<Rightarrow> bytes \<Rightarrow> byte \<Rightarrow> u32 \<Rightarrow> ('w, unit) rt_op" where
  "meshcore_runtime_request_execute_node_telemetry h public_key permission_mask request_tag =
     with_identity h 7 (do {
       tag \<leftarrow> tag_or_unique h request_tag;
       req_data \<leftarrow> meshcore_runtime_request_prepare_req_data h permission_mask;
       secret \<leftarrow> peer_secret h public_key;
       with_packet h 7 (meshcore_mesh_create_datagram h PAYLOAD_TYPE_REQ (recipient_of public_key) secret
           (le_bytes 4 tag @ req_data) 13) (\<lambda>r. do {
         meshcore_runtime_pending_telemetry_register h tag public_key permission_mask;
         send_to_peer h r public_key 0
       })
     })"

definition meshcore_runtime_request_execute_node_binary ::
  "'w host \<Rightarrow> bytes \<Rightarrow> bytes \<Rightarrow> nat \<Rightarrow> u32 \<Rightarrow> ('w, unit) rt_op" where
  "meshcore_runtime_request_execute_node_binary h public_key payload payload_len request_tag =
     with_identity h 8 (do {
       tag \<leftarrow> unique_time h;
       let tag = (if request_tag \<noteq> 0 then request_tag else tag);
       secret \<leftarrow> peer_secret h public_key;
       with_packet h 8 (meshcore_mesh_create_datagram h PAYLOAD_TYPE_REQ (recipient_of public_key) secret
           (le_bytes 4 tag @ mem_read 0 payload_len payload) (4 + payload_len)) (\<lambda>r. do {
         meshcore_runtime_pending_binary_register h tag public_key;
         send_to_peer h r public_key 0
       })
     })"

definition meshcore_runtime_request_execute_node_anon_data ::
  "'w host \<Rightarrow> bytes \<Rightarrow> bytes \<Rightarrow> nat \<Rightarrow> ('w, unit) rt_op" where
  "meshcore_runtime_request_execute_node_anon_data h public_key payload payload_len =
     with_identity h 14 (do {
       secret \<leftarrow> peer_secret h public_key;
       self \<leftarrow> gets co_self;
       with_packet h 14 (meshcore_mesh_create_anon_datagram h PAYLOAD_TYPE_ANON_REQ self (recipient_of public_key)
           secret payload payload_len)
         (\<lambda>r. send_to_peer h r public_key 0)
     })"

definition meshcore_runtime_request_execute_node_binary_response ::
  "'w host \<Rightarrow> binary_request_event \<Rightarrow> bytes \<Rightarrow> nat \<Rightarrow> ('w, unit) rt_op" where
  "meshcore_runtime_request_execute_node_binary_response h request payload payload_len =
     with_identity h 13 (do {
       let data = le_bytes 4 (br_tag request) @ mem_read 0 payload_len payload;
       let data_len = 4 + payload_len;
       secret \<leftarrow> peer_secret h (br_public_key request);
       if br_route request = ROUTE_FLOOD then
         with_packet h 13 (meshcore_mesh_create_path_return_by_identity h (recipient_of (br_public_key request))
             secret (br_path request) (br_path_len request) PAYLOAD_TYPE_RESPONSE data data_len)
           (\<lambda>r. flood_if_created h (Some r) 300)
       else
         with_packet h 13 (meshcore_mesh_create_datagram h PAYLOAD_TYPE_RESPONSE
             (recipient_of (br_public_key request)) secret data data_len)
           (\<lambda>r. send_to_peer h r (br_public_key request) 300)
     })"

definition meshcore_runtime_request_execute_node_discover ::
  "'w host \<Rightarrow> byte \<Rightarrow> bool \<Rightarrow> u32 \<Rightarrow> u32 \<Rightarrow> ('w, unit) rt_op" where
  "meshcore_runtime_request_execute_node_discover h filter_bits prefix_only since tag =
     with_packet h 9 (meshcore_mesh_create_control_data
         ([if prefix_only then 0x81 else 0x80, filter_bits] @ le_bytes 4 tag @ le_bytes 4 since) 10)
       (\<lambda>r. meshcore_mesh_send_zero_hop h r 0)"

definition meshcore_runtime_request_execute_channel_data ::
  "'w host \<Rightarrow> bytes \<Rightarrow> nat \<Rightarrow> bytes \<Rightarrow> byte \<Rightarrow> u16 \<Rightarrow> bytes \<Rightarrow> nat \<Rightarrow> ('w, unit) rt_op" where
  "meshcore_runtime_request_execute_channel_data h secret secret_len path path_len data_type payload payload_len = do {
     channel \<leftarrow> known_channel h secret secret_len;
     case channel of
       None \<Rightarrow> ret ()
     | Some channel \<Rightarrow>
         with_packet h 10 (meshcore_mesh_create_group_datagram h PAYLOAD_TYPE_GRP_DATA channel
             (le_bytes 2 data_type @ [of_nat payload_len] @ mem_read 0 payload_len payload) (3 + payload_len))
           (\<lambda>r. if path_len = 0xFF then flood_if_created h (Some r) 0
                 else meshcore_mesh_send_direct h r path path_len 0)
   }"

definition meshcore_runtime_request_execute_raw_data ::
  "'w host \<Rightarrow> bytes \<Rightarrow> byte \<Rightarrow> bytes \<Rightarrow> nat \<Rightarrow> ('w, unit) rt_op" where
  "meshcore_runtime_request_execute_raw_data h path path_len payload payload_len =
     with_packet h 11 (meshcore_mesh_create_raw_data payload payload_len)
       (\<lambda>r. meshcore_mesh_send_direct h r path path_len 0)"

definition meshcore_runtime_request_execute_control_data ::
  "'w host \<Rightarrow> bytes \<Rightarrow> nat \<Rightarrow> ('w, unit) rt_op" where
  "meshcore_runtime_request_execute_control_data h payload payload_len =
     with_packet h 12 (meshcore_mesh_create_control_data payload payload_len)
       (\<lambda>r. meshcore_mesh_send_zero_hop h r 0)"

definition meshcore_runtime_request_execute :: "'w host \<Rightarrow> request \<Rightarrow> ('w, unit) rt_op" where
  "meshcore_runtime_request_execute h request =
     (case request of
        NODE_ADVERT flood \<Rightarrow> meshcore_runtime_request_execute_node_advert h flood
      | NODE_PEER_ADVERT raw raw_len \<Rightarrow> meshcore_runtime_request_execute_node_peer_advert h raw raw_len
      | MESSAGE_SEND_TO_NODE key flood attempt payload len \<Rightarrow>
          meshcore_runtime_request_execute_message_send_to_node h key flood attempt payload len
      | MESSAGE_SEND_TO_CHANNEL secret secret_len payload len \<Rightarrow>
          meshcore_runtime_request_execute_message_send_to_channel h secret secret_len payload len
      | NODE_DISCOVER_PATH key tag \<Rightarrow> meshcore_runtime_request_execute_node_discover_path h key tag
      | NODE_TRACE_PATH path path_len hsize tag \<Rightarrow>
          meshcore_runtime_request_execute_node_trace_path h path path_len hsize tag
      | NODE_TELEMETRY key perms tag \<Rightarrow> meshcore_runtime_request_execute_node_telemetry h key perms tag
      | NODE_BINARY key payload len tag \<Rightarrow> meshcore_runtime_request_execute_node_binary h key payload len tag
      | NODE_ANON_DATA key payload len \<Rightarrow> meshcore_runtime_request_execute_node_anon_data h key payload len
      | NODE_DISCOVER bits prefix_only since tag \<Rightarrow>
          meshcore_runtime_request_execute_node_discover h bits prefix_only since tag
      | CHANNEL_DATA secret secret_len path path_len data_type payload len \<Rightarrow>
          meshcore_runtime_request_execute_channel_data h secret secret_len path path_len data_type payload len
      | RAW_DATA path path_len payload len \<Rightarrow> meshcore_runtime_request_execute_raw_data h path path_len payload len
      | CONTROL_DATA payload len \<Rightarrow> meshcore_runtime_request_execute_control_data h payload len
      | NODE_BINARY_RESPONSE req payload len \<Rightarrow>
          meshcore_runtime_request_execute_node_binary_response h req payload len)"

definition meshcore_runtime_request_execute_now :: "'w host \<Rightarrow> request \<Rightarrow> ('w, errno + unit) rt_op" where
  "meshcore_runtime_request_execute_now h request = do {
     rc \<leftarrow> meshcore_runtime_require_initialized;
     case rc of
       Inl e \<Rightarrow> ret (Inl e)
     | Inr _ \<Rightarrow> do {
         mgr \<leftarrow> gets co_mgr;
         if meshcore_runtime_request_needs_packet (request_type request) \<and>
            meshcore_packet_queue_manager_get_free_count mgr \<le> 0
         then ret (Inl ENOBUFS)
         else do {
           meshcore_runtime_request_execute h request;
           now \<leftarrow> meshcore_clock_millis_get h;
           meshcore_runtime_timer_sync h now;
           ret (Inr ())
         }
       }
   }"

definition meshcore_runtime_request_add :: "'w host \<Rightarrow> request \<Rightarrow> ('w, errno + unit) rt_op" where
  "meshcore_runtime_request_add h request = meshcore_runtime_request_execute_now h request"

section \<open>Public functions\<close>

text \<open>
  \<open>checked v m\<close>: the checks every public function starts with.  \<open>request_data n p len\<close> is a
  payload array of \<open>n\<close> bytes after \<open>memset\<close> and \<open>memcpy\<close>.
\<close>

definition checked :: "errno + unit \<Rightarrow> ('w, errno + 'a) rt_op \<Rightarrow> ('w, errno + 'a) rt_op" where
  "checked v m = do {
     rc \<leftarrow> meshcore_runtime_require_initialized;
     case rc of
       Inl e \<Rightarrow> ret (Inl e)
     | Inr _ \<Rightarrow> (case v of Inl e \<Rightarrow> ret (Inl e) | Inr _ \<Rightarrow> m)
   }"

definition request_data :: "nat \<Rightarrow> bytes \<Rightarrow> nat \<Rightarrow> bytes" where
  "request_data n p len = mem_write 0 (mem_read 0 len p) (zeros n)"

text \<open>The path bytes that an encoded path length counts.\<close>

definition request_path :: "bytes \<Rightarrow> byte \<Rightarrow> bytes" where
  "request_path path path_len =
     (case meshcore_runtime_path_len_decode path_len of
        None \<Rightarrow> zeros 64
      | Some (path_byte_len, path_hash_size) \<Rightarrow> request_data 64 path (unat path_byte_len))"

text \<open>A request with a tag: the caller's, or a new one, which the caller gets back on success.\<close>

definition tagged ::
  "'w host \<Rightarrow> u32 option \<Rightarrow> (u32 \<Rightarrow> request) \<Rightarrow> ('w, errno + u32 option) rt_op" where
  "tagged h request_tag req = do {
     tag \<leftarrow> tag_or_unique h (case request_tag of Some tag \<Rightarrow> tag | None \<Rightarrow> 0);
     rc \<leftarrow> meshcore_runtime_request_add h (req tag);
     ret (case rc of
         Inl e \<Rightarrow> Inl e
       | Inr _ \<Rightarrow> Inr (case request_tag of Some _ \<Rightarrow> Some tag | None \<Rightarrow> None))
   }"

definition meshcore_node_advert_request :: "'w host \<Rightarrow> bool \<Rightarrow> ('w, errno + unit) rt_op" where
  "meshcore_node_advert_request h flood = checked (Inr ()) (meshcore_runtime_request_add h (NODE_ADVERT flood))"

definition meshcore_node_peer_advert_request :: "'w host \<Rightarrow> bytes \<Rightarrow> nat \<Rightarrow> ('w, errno + unit) rt_op" where
  "meshcore_node_peer_advert_request h raw_advert raw_advert_len =
     checked (meshcore_runtime_request_validate_node_peer_advert raw_advert raw_advert_len)
       (meshcore_runtime_request_add h
         (NODE_PEER_ADVERT (request_data 255 raw_advert raw_advert_len) raw_advert_len))"

definition meshcore_message_send_to_node ::
  "'w host \<Rightarrow> bytes \<Rightarrow> bool \<Rightarrow> byte \<Rightarrow> bytes \<Rightarrow> nat \<Rightarrow> ('w, errno + unit) rt_op" where
  "meshcore_message_send_to_node h public_key flood attempt payload payload_len =
     checked (meshcore_runtime_request_validate_message_send_to_node attempt payload_len)
       (meshcore_runtime_request_add h
         (MESSAGE_SEND_TO_NODE (request_data 32 public_key 32) flood attempt
           (request_data 160 payload payload_len) payload_len))"

definition meshcore_message_send_to_channel ::
  "'w host \<Rightarrow> bytes \<Rightarrow> nat \<Rightarrow> bytes \<Rightarrow> nat \<Rightarrow> ('w, errno + unit) rt_op" where
  "meshcore_message_send_to_channel h secret secret_len payload payload_len =
     checked (meshcore_runtime_request_validate_message_send_to_channel secret_len payload_len)
       (meshcore_runtime_request_add h
         (MESSAGE_SEND_TO_CHANNEL (request_data 32 secret secret_len) secret_len
           (request_data 160 payload payload_len) payload_len))"

definition meshcore_channel_data_send ::
  "'w host \<Rightarrow> bytes \<Rightarrow> nat \<Rightarrow> bytes \<Rightarrow> byte \<Rightarrow> u16 \<Rightarrow> bytes \<Rightarrow> nat \<Rightarrow> ('w, errno + unit) rt_op" where
  "meshcore_channel_data_send h secret secret_len path path_len data_type payload payload_len =
     checked (meshcore_runtime_request_validate_channel_data secret_len path_len payload_len)
       (meshcore_runtime_request_add h
         (CHANNEL_DATA (request_data 32 secret secret_len) secret_len
           (if path_len \<noteq> 0xFF then request_path path path_len else zeros 64) path_len data_type
           (request_data 165 payload payload_len) payload_len))"

definition meshcore_node_discover_path_request ::
  "'w host \<Rightarrow> bytes \<Rightarrow> u32 option \<Rightarrow> ('w, errno + u32 option) rt_op" where
  "meshcore_node_discover_path_request h public_key request_tag =
     checked (Inr ()) (tagged h request_tag (NODE_DISCOVER_PATH (request_data 32 public_key 32)))"

definition meshcore_node_trace_request ::
  "'w host \<Rightarrow> bytes \<Rightarrow> byte \<Rightarrow> byte \<Rightarrow> u32 option \<Rightarrow> ('w, errno + u32 option) rt_op" where
  "meshcore_node_trace_request h path path_len path_hash_size request_tag =
     checked (meshcore_runtime_request_validate_node_trace path_len path_hash_size)
       (tagged h request_tag (NODE_TRACE_PATH (request_data 64 path (unat path_len)) path_len path_hash_size))"

definition meshcore_node_trace_path_request :: "bytes \<Rightarrow> u32 option \<Rightarrow> ('w, errno + u32 option) rt_op" where
  "meshcore_node_trace_path_request public_key request_tag = ret (Inl ENOTSUP)"

definition meshcore_node_telemetry_request ::
  "'w host \<Rightarrow> bytes \<Rightarrow> byte \<Rightarrow> u32 option \<Rightarrow> ('w, errno + u32 option) rt_op" where
  "meshcore_node_telemetry_request h public_key permission_mask request_tag =
     checked (meshcore_runtime_request_validate_node_telemetry permission_mask)
       (tagged h request_tag (NODE_TELEMETRY (request_data 32 public_key 32) permission_mask))"

definition meshcore_node_binary_request_with_tag ::
  "'w host \<Rightarrow> bytes \<Rightarrow> bytes \<Rightarrow> nat \<Rightarrow> u32 \<Rightarrow> ('w, errno + unit) rt_op" where
  "meshcore_node_binary_request_with_tag h public_key payload payload_len tag =
     checked (meshcore_runtime_request_validate_node_binary payload_len)
       (meshcore_runtime_request_add h
         (NODE_BINARY (request_data 32 public_key 32) (request_data 163 payload payload_len) payload_len tag))"

definition meshcore_node_binary_request ::
  "'w host \<Rightarrow> bytes \<Rightarrow> bytes \<Rightarrow> nat \<Rightarrow> ('w, errno + unit) rt_op" where
  "meshcore_node_binary_request h public_key payload payload_len =
     meshcore_node_binary_request_with_tag h public_key payload payload_len 0"

definition meshcore_node_anon_data_send ::
  "'w host \<Rightarrow> bytes \<Rightarrow> bytes \<Rightarrow> nat \<Rightarrow> ('w, errno + unit) rt_op" where
  "meshcore_node_anon_data_send h public_key payload payload_len =
     checked (meshcore_runtime_request_validate_node_anon_data payload_len)
       (meshcore_runtime_request_add h
         (NODE_ANON_DATA (request_data 32 public_key 32) (request_data 136 payload payload_len) payload_len))"

definition meshcore_node_binary_response ::
  "'w host \<Rightarrow> binary_request_event \<Rightarrow> bytes \<Rightarrow> nat \<Rightarrow> ('w, errno + unit) rt_op" where
  "meshcore_node_binary_response h request payload payload_len =
     checked (meshcore_runtime_request_validate_node_binary_response request payload_len)
       (meshcore_runtime_request_add h
         (NODE_BINARY_RESPONSE request (request_data 163 payload payload_len) payload_len))"

definition meshcore_node_discover_request ::
  "'w host \<Rightarrow> byte \<Rightarrow> bool \<Rightarrow> u32 \<Rightarrow> u32 option \<Rightarrow> ('w, errno + u32 option) rt_op" where
  "meshcore_node_discover_request h filter_bits prefix_only since request_tag =
     checked (meshcore_runtime_request_validate_node_discover filter_bits)
       (tagged h request_tag (NODE_DISCOVER filter_bits prefix_only since))"

definition meshcore_raw_data_send :: "'w host \<Rightarrow> bytes \<Rightarrow> byte \<Rightarrow> bytes \<Rightarrow> nat \<Rightarrow> ('w, errno + unit) rt_op" where
  "meshcore_raw_data_send h path path_len payload payload_len =
     checked (meshcore_runtime_request_validate_raw_data path_len payload_len)
       (meshcore_runtime_request_add h
         (RAW_DATA (request_path path path_len) path_len (request_data 184 payload payload_len) payload_len))"

definition meshcore_control_data_send :: "'w host \<Rightarrow> bytes \<Rightarrow> nat \<Rightarrow> ('w, errno + unit) rt_op" where
  "meshcore_control_data_send h payload payload_len =
     checked (meshcore_runtime_request_validate_control_data payload payload_len)
       (meshcore_runtime_request_add h (CONTROL_DATA (request_data 184 payload payload_len) payload_len))"

section \<open>Ownership\<close>

lemma calm_request_helpers [calm_rules]:
  "calm R (meshcore_runtime_request_log_transient_failure h ty e)"
  "calm R (peer_secret h key)"
  "calm R (known_channel h secret secret_len)"
  "calm R (meshcore_runtime_request_prepare_req_data h perms)"
  "calm R (meshcore_clock_rtc_get_current_time h)"
  unfolding meshcore_runtime_request_log_transient_failure_def peer_secret_def known_channel_def
    meshcore_runtime_request_prepare_req_data_def meshcore_clock_rtc_get_current_time_def
  by (intro calm_rules)+

lemma calm_unique_time [calm_rules]: "calm rt_ok (unique_time h)"
  unfolding unique_time_def meshcore_clock_rtc_get_current_time_unique_def
  by (intro calm_rules) (simp add: rt_ok_def)

lemma calm_tag [calm_rules]: "calm rt_ok (tag_or_unique h tag)"
  unfolding tag_or_unique_def by (intro calm_rules)

lemma calm_with_identity [calm_rules]: "calm R m \<Longrightarrow> calm R (with_identity h ty m)"
  unfolding with_identity_def by (intro calm_rules)

lemma calm_with_packet:
  "makes R \<Phi> create \<Longrightarrow> (\<And>r. takes R r \<Phi> (k r)) \<Longrightarrow> calm R (with_packet h ty create k)"
  unfolding with_packet_def by (rule calm_bind_makes_case, assumption, rule calm_request_helpers, blast)

lemma takes_send_to_peer: "takes R r \<Phi> (send_to_peer h r key delay)"
  unfolding send_to_peer_def
  by (intro takes_calm_bind calm_runtime_helpers)
     (simp add: takes_send_direct takes_flood_if_created split: option.split prod.split)

lemmas request_takes = takes_send_to_peer takes_flood_if_created takes_send_direct takes_send_zero_hop
  takes_calm_bind takes_if calm_ack_register calm_pending_register

lemma calm_execute_datagrams [calm_rules]:
  "calm rt_ok (meshcore_runtime_request_execute_message_send_to_node h key flood attempt payload len)"
  "calm rt_ok (meshcore_runtime_request_execute_node_discover_path h key tag)"
  "calm rt_ok (meshcore_runtime_request_execute_node_telemetry h key perms tag)"
  "calm rt_ok (meshcore_runtime_request_execute_node_binary h key payload len tag)"
  unfolding meshcore_runtime_request_execute_message_send_to_node_def
    meshcore_runtime_request_execute_node_discover_path_def meshcore_runtime_request_execute_node_telemetry_def
    meshcore_runtime_request_execute_node_binary_def
  by (intro calm_rules calm_self_identity calm_with_packet [OF makes_create_datagram] request_takes)+

lemma calm_execute_response [calm_rules]:
  "calm R (meshcore_runtime_request_execute_node_binary_response h req payload len)"
  unfolding meshcore_runtime_request_execute_node_binary_response_def
  by (intro calm_rules calm_with_packet [OF makes_path_return_identity] calm_with_packet [OF makes_create_datagram]
      request_takes)

lemma calm_execute_anon [calm_rules]:
  "calm R (meshcore_runtime_request_execute_node_anon_data h key payload len)"
  unfolding meshcore_runtime_request_execute_node_anon_data_def
  by (intro calm_rules calm_with_packet [OF makes_create_anon_datagram] request_takes)

lemma calm_execute_channel [calm_rules]:
  "calm R (meshcore_runtime_request_execute_message_send_to_channel h secret secret_len payload len)"
  "calm R (meshcore_runtime_request_execute_channel_data h secret secret_len path path_len ty payload len)"
  unfolding meshcore_runtime_request_execute_message_send_to_channel_def
    meshcore_runtime_request_execute_channel_data_def
  by (intro calm_rules calm_with_packet [OF makes_create_group_datagram] request_takes)+

lemma calm_execute_trace [calm_rules]:
  "calm rt_ok (meshcore_runtime_request_execute_node_trace_path h path path_len hsize tag)"
  unfolding meshcore_runtime_request_execute_node_trace_path_def
  by (intro calm_rules calm_with_packet [OF makes_create_trace] request_takes)

lemma calm_execute_plain [calm_rules]:
  "calm R (meshcore_runtime_request_execute_node_discover h bits prefix_only since tag)"
  "calm R (meshcore_runtime_request_execute_raw_data h path path_len payload len)"
  "calm R (meshcore_runtime_request_execute_control_data h payload len)"
  unfolding meshcore_runtime_request_execute_node_discover_def meshcore_runtime_request_execute_raw_data_def
    meshcore_runtime_request_execute_control_data_def meshcore_mesh_create_control_data_def
    meshcore_mesh_create_raw_data_def
  by (intro calm_with_packet [OF makes_create_plain] request_takes, simp)+

lemma calm_execute_advert [calm_rules]: "calm R (meshcore_runtime_request_execute_node_advert h flood)"
  unfolding meshcore_runtime_request_execute_node_advert_def
  by (intro calm_rules calm_with_packet [OF makes_create_advert] request_takes)

text \<open>The advert of a peer is read into a buffer of the pool; its array holds the bytes that are read.\<close>

lemma calm_execute_peer_advert [calm_rules]:
  assumes "raw_len \<le> length raw"
  shows "calm R (meshcore_runtime_request_execute_node_peer_advert h raw raw_len)"
proof -
  have n: "unat (of_nat raw_len :: byte) \<le> length raw"
    using assms by (simp add: unat_of_nat order_trans [OF mod_less_eq_dividend])
  have "takes R r \<Phi> (do {
      p \<leftarrow> pk_get r;
      let (ok, p) = meshcore_packet_read_from p raw (of_nat raw_len);
      pk_put r p;
      if \<not> ok \<or> meshcore_packet_get_payload_type p \<noteq> PAYLOAD_TYPE_ADVERT
      then meshcore_dispatcher_release_packet r else meshcore_mesh_send_zero_hop h r 0 })" for r \<Phi>
    by (intro takes_get takes_Let)
       (auto simp: takes_release takes_send_zero_hop read_from_wf [OF _ n] split: prod.split
         intro!: takes_put takes_if dest: read_from_wf [OF _ n])
  then show ?thesis
    unfolding meshcore_runtime_request_execute_node_peer_advert_def
    by (intro calm_with_packet [OF makes_obtain])
qed

text \<open>The arrays of a request are as long as the code reads them.\<close>

definition request_wf :: "request \<Rightarrow> bool" where
  "request_wf request = (case request of NODE_PEER_ADVERT raw raw_len \<Rightarrow> raw_len \<le> length raw | _ \<Rightarrow> True)"

lemma calm_execute: "request_wf request \<Longrightarrow> calm rt_ok (meshcore_runtime_request_execute h request)"
  by (cases request) (simp_all add: meshcore_runtime_request_execute_def request_wf_def calm_rules)

lemma node_execute_now:
  assumes "request_wf request"
  shows "triple node_ok (meshcore_runtime_request_execute_now h request) (\<lambda>_. node_ok)"
proof -
  have eq: "meshcore_runtime_request_execute_now h request = do {
      rt \<leftarrow> rt_get;
      if \<not> rt_initialized rt then ret (Inl ENODEV)
      else do {
        mgr \<leftarrow> gets co_mgr;
        if meshcore_runtime_request_needs_packet (request_type request) \<and>
           meshcore_packet_queue_manager_get_free_count mgr \<le> 0
        then ret (Inl ENOBUFS)
        else do {
          meshcore_runtime_request_execute h request;
          now \<leftarrow> meshcore_clock_millis_get h;
          meshcore_runtime_timer_sync h now;
          ret (Inr ())
        }
      } }"
    unfolding meshcore_runtime_request_execute_now_def meshcore_runtime_require_initialized_def
    by (rule state.expand) (simp add: rt_get_def fun_eq_iff split: prod.split)
  show ?thesis
    unfolding eq
    by (rule triple_if_running, rule triple_running_node, rule triple_running,
        intro calm_rules calm_execute assms)
qed

end
