(* ===== verification/Runtime_Node.thy ===== *)
theory Runtime_Node
  imports Runtime_Request
begin

text \<open>
  A whole node: the calls a host can make in any order (\<open>include/meshcore/runtime.h\<close>), the states
  they lead to, and what holds in all of them.

  \<open>node_call\<close> has one constructor per public function.  \<open>reachable h\<close> is the set of states of
  a node whose host behaves as \<open>h\<close>: it starts from the zeroed static data, every call is
  a step, and between two calls the world may change in any way.
\<close>

section \<open>The calls\<close>

datatype node_call =
    Init
  | Deinit
  | TimerFired u32
  | RxInject bytes nat int byte u32
  | TxDone u32 bool
  | AdvertRequest bool
  | PeerAdvertRequest bytes nat
  | SendToNode bytes bool byte bytes nat
  | SendToChannel bytes nat bytes nat
  | ChannelDataSend bytes nat bytes byte u16 bytes nat
  | DiscoverPathRequest bytes "u32 option"
  | TraceRequest bytes byte byte "u32 option"
  | TracePathRequest bytes "u32 option"
  | TelemetryRequest bytes byte "u32 option"
  | UntaggedBinaryRequest bytes bytes nat
  | BinaryRequest bytes bytes nat u32
  | AnonDataSend bytes bytes nat
  | BinaryResponse binary_request_event bytes nat
  | DiscoverRequest byte bool u32 "u32 option"
  | RawDataSend bytes byte bytes nat
  | ControlDataSend bytes nat

text \<open>The error code of a call, without the tag that some of them hand back.\<close>

definition drop_result :: "('w, errno + 'a) rt_op \<Rightarrow> ('w, errno + unit) rt_op" where
  "drop_result m = do { rc \<leftarrow> m; ret (case rc of Inl e \<Rightarrow> Inl e | Inr _ \<Rightarrow> Inr ()) }"

definition node_run :: "'w host \<Rightarrow> node_call \<Rightarrow> ('w, errno + unit) rt_op" where
  "node_run h c =
     (case c of
        Init \<Rightarrow> meshcore_init h
      | Deinit \<Rightarrow> do { meshcore_deinit; ret (Inr ()) }
      | TimerFired now \<Rightarrow> meshcore_timer_fired h now
      | RxInject data len rssi snr now \<Rightarrow> meshcore_radio_rx_inject h data len rssi snr now
      | TxDone now ok \<Rightarrow> meshcore_radio_tx_done h now ok
      | AdvertRequest flood \<Rightarrow> meshcore_node_advert_request h flood
      | PeerAdvertRequest raw len \<Rightarrow> meshcore_node_peer_advert_request h raw len
      | SendToNode key flood attempt payload len \<Rightarrow> meshcore_message_send_to_node h key flood attempt payload len
      | SendToChannel secret n payload len \<Rightarrow> meshcore_message_send_to_channel h secret n payload len
      | ChannelDataSend secret n path path_len ty payload len \<Rightarrow>
          meshcore_channel_data_send h secret n path path_len ty payload len
      | DiscoverPathRequest key tag \<Rightarrow> drop_result (meshcore_node_discover_path_request h key tag)
      | TraceRequest path path_len n tag \<Rightarrow> drop_result (meshcore_node_trace_request h path path_len n tag)
      | TracePathRequest key tag \<Rightarrow> drop_result (meshcore_node_trace_path_request key tag)
      | TelemetryRequest key perms tag \<Rightarrow> drop_result (meshcore_node_telemetry_request h key perms tag)
      | UntaggedBinaryRequest key payload len \<Rightarrow> meshcore_node_binary_request h key payload len
      | BinaryRequest key payload len tag \<Rightarrow> meshcore_node_binary_request_with_tag h key payload len tag
      | AnonDataSend key payload len \<Rightarrow> meshcore_node_anon_data_send h key payload len
      | BinaryResponse req payload len \<Rightarrow> meshcore_node_binary_response h req payload len
      | DiscoverRequest bits prefix_only since tag \<Rightarrow>
          drop_result (meshcore_node_discover_request h bits prefix_only since tag)
      | RawDataSend path path_len payload len \<Rightarrow> meshcore_raw_data_send h path path_len payload len
      | ControlDataSend payload len \<Rightarrow> meshcore_control_data_send h payload len)"

inductive reachable :: "'w host \<Rightarrow> ('w, runtime) core \<Rightarrow> bool" for h where
  boot: "reachable h (boot_state w)"
| call_step: "reachable h s \<Longrightarrow> reachable h (snd (run_state (node_run h c) s))"
| world_step: "reachable h s \<Longrightarrow> reachable h (s \<lparr> co_world := w \<rparr>)"

section \<open>The contract of a call\<close>

text \<open>
  Every public function keeps the invariant; that is what a client of the library relies on
  when it strings calls together.
\<close>

locale node_api =
  fixes inv :: "'s \<Rightarrow> bool" and run :: "'c \<Rightarrow> ('s, 'a) state"
  assumes keeps: "triple inv (run c) (\<lambda>_. inv)"
begin

primrec run_all :: "'c list \<Rightarrow> 's \<Rightarrow> 's" where
  "run_all [] s = s"
| "run_all (c # cs) s = run_all cs (snd (run_state (run c) s))"

lemma run_all_inv: "inv s \<Longrightarrow> inv (run_all cs s)"
  using keeps by (induction cs arbitrary: s) (simp_all add: triple_def)

end

lemma checked_running:
  assumes "v = Inr () \<Longrightarrow> triple running m (\<lambda>_. node_ok)"
  shows "triple node_ok (checked v m) (\<lambda>_. node_ok)"
  using assms
  by (cases v) (auto simp: triple_def checked_def meshcore_runtime_require_initialized_def rt_get_def
      node_ok_running split: sum.split)

lemma running_add:
  "request_wf request \<Longrightarrow> triple running (meshcore_runtime_request_add h request) (\<lambda>_. node_ok)"
  unfolding meshcore_runtime_request_add_def
  by (rule triple_pre [OF node_execute_now]) (auto intro: running_node_ok)

lemma running_tagged:
  assumes "\<And>tag. request_wf (req tag)"
  shows "triple running (tagged h request_tag req) (\<lambda>_. node_ok)"
proof -
  have "triple running (do {
      rc \<leftarrow> meshcore_runtime_request_add h (req tag);
      ret (case rc of Inl e \<Rightarrow> Inl e | Inr _ \<Rightarrow> Inr (case request_tag of Some _ \<Rightarrow> Some tag | None \<Rightarrow> None)) })
      (\<lambda>_. node_ok)" for tag
    by (rule triple_bind [OF running_add [OF assms]]) (simp add: triple_def)
  then show ?thesis
    unfolding tagged_def by (rule triple_bind [OF triple_running [OF calm_tag]])
qed

lemma node_drop_result:
  "triple node_ok m (\<lambda>_. node_ok) \<Longrightarrow> triple node_ok (drop_result m) (\<lambda>_. node_ok)"
  unfolding drop_result_def by (rule triple_bind, assumption, simp add: triple_def)

lemma peer_advert_wf:
  "meshcore_runtime_request_validate_node_peer_advert raw len = Inr () \<Longrightarrow>
   request_wf (NODE_PEER_ADVERT (request_data 255 raw len) len)"
  by (auto simp: meshcore_runtime_request_validate_node_peer_advert_def request_wf_def request_data_def
      mem_write_def split: if_splits)

lemmas public_functions = meshcore_node_advert_request_def meshcore_node_peer_advert_request_def
  meshcore_message_send_to_node_def meshcore_message_send_to_channel_def meshcore_channel_data_send_def
  meshcore_node_discover_path_request_def meshcore_node_trace_request_def meshcore_node_trace_path_request_def
  meshcore_node_telemetry_request_def meshcore_node_binary_request_def meshcore_node_binary_request_with_tag_def
  meshcore_node_anon_data_send_def meshcore_node_binary_response_def meshcore_node_discover_request_def
  meshcore_raw_data_send_def meshcore_control_data_send_def

lemma node_run_keeps: "triple node_ok (node_run h c) (\<lambda>_. node_ok)"
proof (cases c)
  case Deinit
  then show ?thesis
    unfolding node_run_def by (simp, intro triple_bind [OF node_deinit]) (simp add: triple_def)
next
  case (TracePathRequest key tag)
  then show ?thesis by (simp add: node_run_def public_functions drop_result_def triple_def)
qed (simp_all add: node_run_def public_functions node_init node_timer_fired node_rx_inject node_tx_done
      checked_running node_drop_result running_add running_tagged peer_advert_wf request_wf_def
      checked_running [OF running_add [OF peer_advert_wf]])

interpretation node_calls: node_api node_ok "node_run h"
  for h :: "'w host"
  by unfold_locales (rule node_run_keeps)

section \<open>Properties\<close>

lemma node_ok_world: "node_ok s \<Longrightarrow> node_ok (s \<lparr> co_world := w \<rparr>)"
  by (cases s) (auto simp: node_ok_def boot_state_def out_refs_def queued_refs_def)


lemma sync_identity_ok:
  "\<forall>w. fst (fst (run_state (h_node_identity h) w)) = 0 \<Longrightarrow>
   fst (run_state (meshcore_runtime_sync_local_identity h) s) = 0"
  by (simp add: meshcore_runtime_sync_local_identity_def meshcore_platform_bridge_node_identity_get_def call_def
      split_beta)

lemma begin_ok:
  assumes "\<forall>w. fst (fst (run_state (h_node_identity h) w)) = 0"
  shows "fst (run_state (meshcore_runtime_begin h) (boot_state w)) = Inr ()"
proof -
  have "qm_initialized (meshcore_packet_queue_manager_prepare m 10)" for m
    using prepare_inv(1) [of 10 m] by (simp add: pool_inv_def mgr_ok_def MAX_POOL_SIZE_def)
  then show ?thesis
    using sync_identity_ok [OF assms]
    by (simp add: meshcore_runtime_begin_def boot_state_def split_beta)
qed

lemma init_runs:
  assumes "\<forall>w. fst (fst (run_state (h_node_identity h) w)) = 0" and "\<not> rt_initialized (co_rt s)"
  shows "fst (run_state (meshcore_init h) s) = Inr ()" "running (snd (run_state (meshcore_init h) s))"
proof -
  let ?b = "run_state (meshcore_runtime_begin h) (boot_state (co_world s))"
  have ok: "fst ?b = Inr ()" by (rule begin_ok [OF assms(1)])
  have run: "run_state (meshcore_init h) s = (Inr (), snd ?b)"
    using assms(2) ok by (auto simp: meshcore_init_def rt_get_def run_end split: prod.split)
  show "fst (run_state (meshcore_init h) s) = Inr ()" by (simp add: run)
  show "running (snd (run_state (meshcore_init h) s))"
    using triple_begin [of h] ok by (auto simp: run triple_def)
qed

text \<open>
  C2. In every reachable state the node keeps its memory in order.  When it does not run, its static
  data is zeroed.  When it runs, every packet buffer of the pool is in exactly one place - unused,
  queued for sending, queued for processing, or being transmitted - no queue overflows,
  every waiting packet has the form the encoder accepts, and the tables of duplicates, keys and
  outstanding requests have their declared sizes.
\<close>

theorem reachable_node_ok:
  assumes "reachable h s"
  shows "(rt_initialized (co_rt s) \<longrightarrow>
      mgr_refs (co_mgr s) + out_refs s = mset [0..<nat (qm_pool_size (co_mgr s))] \<and>
      (\<forall>r \<in># queued_refs s. sendable (mgr_packet (co_mgr s) r)) \<and>
      tables_wf (co_tables s) \<and> local_identity_wf (co_self s) \<and>
      length (rt_expected_acks (co_rt s)) = 8 \<and> rt_expected_ack_next (co_rt s) < 8) \<and>
    (\<not> rt_initialized (co_rt s) \<longrightarrow> s = boot_state (co_world s))"
proof -
  have "node_ok s"
    using assms
  proof induction
    case (boot w)
    show ?case by (rule boot_node_ok)
  next
    case (call_step s c)
    then show ?case using node_run_keeps [of h c] by (simp add: triple_def)
  next
    case (world_step s w)
    from world_step.IH show ?case by (rule node_ok_world)
  qed
  then show ?thesis
    by (auto simp: node_ok_def pool_inv_def mgr_ok_def MAX_POOL_SIZE_def rt_ok_def)
qed


theorem reachable_node_ok_witness:
  "\<exists>s. reachable example_host s \<and> rt_initialized (co_rt s) \<and>
     mgr_refs (co_mgr s) + out_refs s = mset [0..<nat (qm_pool_size (co_mgr s))]"
proof -
  let ?s = "snd (run_state (node_run example_host Init) (boot_state ()))"
  have r: "reachable example_host ?s" by (rule call_step, rule boot)
  moreover have "rt_initialized (co_rt ?s)"
    using init_runs [of example_host "boot_state ()"]
    by (simp add: example_host_def node_run_def boot_state_def runtime_zero_def running_def owns_def rt_ok_def)
  ultimately show ?thesis using reachable_node_ok [OF r] by blast
qed

lemma init_fails_boot:
  assumes "\<not> rt_initialized (co_rt s)" and "run_state (meshcore_init h) s = (Inl e, s')"
  shows "s' = boot_state (co_world s')"
  using assms
  by (auto simp: meshcore_init_def rt_get_def run_end boot_state_def split: prod.splits sum.splits)

lemma deinit_stops: "\<not> rt_initialized (co_rt (snd (run_state meshcore_deinit s)))"
  by (simp add: meshcore_deinit_def rt_get_def run_end boot_state_def runtime_zero_def)

text \<open>
  C24. A node can always be restarted: after \<open>meshcore_deinit\<close>, from whatever state, \<open>meshcore_init\<close> succeeds
  and the node runs with its memory in order, provided the host delivers the node's identity.
\<close>

theorem restart_runs:
  assumes "\<forall>w. fst (fst (run_state (h_node_identity h) w)) = 0"
    and "run_state (do { meshcore_deinit; meshcore_init h }) s = (rc, s')"
  shows "rc = Inr () \<and> rt_initialized (co_rt s') \<and> node_ok s'"
proof -
  let ?s = "snd (run_state meshcore_deinit s)"
  have "run_state (meshcore_init h) ?s = (rc, s')" using assms(2) by (simp add: split_beta)
  moreover have "fst (run_state (meshcore_init h) ?s) = Inr ()" "running (snd (run_state (meshcore_init h) ?s))"
    by (rule init_runs [OF assms(1) deinit_stops])+
  ultimately have "rc = Inr ()" "running s'" by simp_all
  then show ?thesis using running_node_ok [of s'] by (auto simp: running_def owns_def rt_ok_def)
qed

theorem restart_runs_witness:
  "fst (run_state (do { meshcore_deinit; meshcore_init example_host }) (boot_state ())) = Inr ()"
proof -
  have ok: "\<forall>w. fst (fst (run_state (h_node_identity example_host) w)) = 0" by (simp add: example_host_def)
  show ?thesis using restart_runs [OF ok prod.collapse [symmetric]] by blast
qed

lemma stopped_refuses:
  assumes "\<not> rt_initialized (co_rt s)"
  shows "run_state (checked v m) s = (Inl ENODEV, s)"
    "run_state (meshcore_timer_fired h now) s = (Inl ENODEV, s)"
    "run_state (meshcore_radio_rx_inject h data len rssi snr now) s = (Inl ENODEV, s)"
    "run_state (meshcore_radio_tx_done h now ok) s = (Inl ENODEV, s)"
    "run_state meshcore_deinit s = ((), s)"
  using assms
  by (simp_all add: checked_def meshcore_runtime_require_initialized_def rt_get_def meshcore_timer_fired_def
      meshcore_radio_rx_inject_def meshcore_radio_tx_done_def meshcore_deinit_def)

lemma drop_result_error: "run_state m s = (Inl e, s) \<Longrightarrow> run_state (drop_result m) s = (Inl e, s)"
  by (simp add: drop_result_def)

text \<open>
  C38. A node that does not run does nothing.  Every call other than \<open>meshcore_init\<close> leaves its state and the
  host's world as they are and reports \<open>ENODEV\<close>, except \<open>meshcore_deinit\<close>, which succeeds, and
  the deprecated \<open>meshcore_node_trace_path_request\<close>, which reports \<open>ENOTSUP\<close> whether the node runs
  or not; and when \<open>meshcore_init\<close> itself fails, the static data is zeroed again.
\<close>

theorem stopped_node_refuses:
  assumes "\<not> rt_initialized (co_rt s)" and "run_state (node_run h c) s = (rc, s')"
  shows "if c = Init then rc = Inr () \<or> s' = boot_state (co_world s')
    else s' = s \<and> rc = (case c of Deinit \<Rightarrow> Inr () | TracePathRequest _ _ \<Rightarrow> Inl ENOTSUP | _ \<Rightarrow> Inl ENODEV)"
proof (cases "c = Init")
  case True
  then have init: "run_state (meshcore_init h) s = (rc, s')" using assms(2) by (simp add: node_run_def)
  show ?thesis
    using init_fails_boot [OF assms(1)] init True by (cases rc) simp_all
next
  case False
  have "run_state (node_run h c) s =
      (case c of Deinit \<Rightarrow> Inr () | TracePathRequest _ _ \<Rightarrow> Inl ENOTSUP | _ \<Rightarrow> Inl ENODEV, s)"
    using False assms(1)
    by (cases c) (simp_all add: node_run_def public_functions stopped_refuses drop_result_error)
  then show ?thesis using False assms(2) by simp
qed

theorem stopped_node_refuses_witness:
  "run_state (node_run example_host (SendToNode [] True 0 [104, 105] 2)) (boot_state ()) = (Inl ENODEV, boot_state ())"
  using stopped_node_refuses [of "boot_state ()" example_host "SendToNode [] True 0 [104, 105] 2"]
  by (cases "run_state (node_run example_host (SendToNode [] True 0 [104, 105] 2)) (boot_state ())")
    (simp add: boot_state_def runtime_zero_def)

end
