(* ===== verification/Sha512.thy ===== *)
theory Sha512
  imports Mesh_Prelude
begin

text \<open>
  The hash functions of \<open>support/crypto/monocypher-ed25519.c\<close>: incremental SHA-512, HMAC and HKDF.

  The code hashes while the message arrives: it packs bytes into sixteen big-endian words, compresses
  a block as soon as it is full, and computes the message schedule in place in the sixteen words.
  \<open>sha512\<close> is the function of FIPS 180-4 - pad the message, cut it into blocks, expand each block to
  eighty words, eighty rounds - and the theorems show that every way to feed a message to the code gives
  its value.  A pointer that moves along a message is the list of the bytes that are left.
\<close>

type_synonym u64 = "64 word"

section \<open>Utilities\<close>

text \<open>\<open>(~x + 1) & (pow_2 - 1)\<close> on \<open>size_t\<close>\<close>

definition align :: "nat \<Rightarrow> nat \<Rightarrow> nat" where
  "align x pow_2 = unat ((NOT (of_nat x) + 1 :: u32) AND (of_nat pow_2 - 1))"

definition load64_be :: "bytes \<Rightarrow> u64" where
  "load64_be s = push_bit 56 (ucast (byte_at s 0)) OR push_bit 48 (ucast (byte_at s 1))
     OR push_bit 40 (ucast (byte_at s 2)) OR push_bit 32 (ucast (byte_at s 3))
     OR push_bit 24 (ucast (byte_at s 4)) OR push_bit 16 (ucast (byte_at s 5))
     OR push_bit 8 (ucast (byte_at s 6)) OR ucast (byte_at s 7)"

definition store64_be :: "u64 \<Rightarrow> bytes" where
  "store64_be x = [ucast (drop_bit 56 x AND 0xff), ucast (drop_bit 48 x AND 0xff),
     ucast (drop_bit 40 x AND 0xff), ucast (drop_bit 32 x AND 0xff), ucast (drop_bit 24 x AND 0xff),
     ucast (drop_bit 16 x AND 0xff), ucast (drop_bit 8 x AND 0xff), ucast (x AND 0xff)]"

text \<open>\<open>load64_be_buf(dst, src, size)\<close>: the words that are stored at \<open>dst\<close>.\<close>

definition load64_be_buf :: "bytes \<Rightarrow> nat \<Rightarrow> u64 list" where
  "load64_be_buf src n = map (\<lambda>i. load64_be (drop (8 * i) src)) [0..<n]"

section \<open>SHA-512\<close>

definition rot :: "u64 \<Rightarrow> nat \<Rightarrow> u64" where
  "rot x c = drop_bit c x OR push_bit (64 - c) x"

definition ch :: "u64 \<Rightarrow> u64 \<Rightarrow> u64 \<Rightarrow> u64" where
  "ch x y z = (x AND y) XOR (NOT x AND z)"

definition maj :: "u64 \<Rightarrow> u64 \<Rightarrow> u64 \<Rightarrow> u64" where
  "maj x y z = (x AND y) XOR (x AND z) XOR (y AND z)"

definition big_sigma0 :: "u64 \<Rightarrow> u64" where
  "big_sigma0 x = rot x 28 XOR rot x 34 XOR rot x 39"

definition big_sigma1 :: "u64 \<Rightarrow> u64" where
  "big_sigma1 x = rot x 14 XOR rot x 18 XOR rot x 41"

definition lit_sigma0 :: "u64 \<Rightarrow> u64" where
  "lit_sigma0 x = rot x 1 XOR rot x 8 XOR drop_bit 7 x"

definition lit_sigma1 :: "u64 \<Rightarrow> u64" where
  "lit_sigma1 x = rot x 19 XOR rot x 61 XOR drop_bit 6 x"

text \<open>The constants, each written as its upper and its lower 32 bits.\<close>

definition K :: "u64 list" where
  "K = map (\<lambda>(high, low). push_bit 32 high OR low)
    [(0x428a2f98, 0xd728ae22), (0x71374491, 0x23ef65cd), (0xb5c0fbcf, 0xec4d3b2f), (0xe9b5dba5, 0x8189dbbc),
     (0x3956c25b, 0xf348b538), (0x59f111f1, 0xb605d019), (0x923f82a4, 0xaf194f9b), (0xab1c5ed5, 0xda6d8118),
     (0xd807aa98, 0xa3030242), (0x12835b01, 0x45706fbe), (0x243185be, 0x4ee4b28c), (0x550c7dc3, 0xd5ffb4e2),
     (0x72be5d74, 0xf27b896f), (0x80deb1fe, 0x3b1696b1), (0x9bdc06a7, 0x25c71235), (0xc19bf174, 0xcf692694),
     (0xe49b69c1, 0x9ef14ad2), (0xefbe4786, 0x384f25e3), (0x0fc19dc6, 0x8b8cd5b5), (0x240ca1cc, 0x77ac9c65),
     (0x2de92c6f, 0x592b0275), (0x4a7484aa, 0x6ea6e483), (0x5cb0a9dc, 0xbd41fbd4), (0x76f988da, 0x831153b5),
     (0x983e5152, 0xee66dfab), (0xa831c66d, 0x2db43210), (0xb00327c8, 0x98fb213f), (0xbf597fc7, 0xbeef0ee4),
     (0xc6e00bf3, 0x3da88fc2), (0xd5a79147, 0x930aa725), (0x06ca6351, 0xe003826f), (0x14292967, 0x0a0e6e70),
     (0x27b70a85, 0x46d22ffc), (0x2e1b2138, 0x5c26c926), (0x4d2c6dfc, 0x5ac42aed), (0x53380d13, 0x9d95b3df),
     (0x650a7354, 0x8baf63de), (0x766a0abb, 0x3c77b2a8), (0x81c2c92e, 0x47edaee6), (0x92722c85, 0x1482353b),
     (0xa2bfe8a1, 0x4cf10364), (0xa81a664b, 0xbc423001), (0xc24b8b70, 0xd0f89791), (0xc76c51a3, 0x0654be30),
     (0xd192e819, 0xd6ef5218), (0xd6990624, 0x5565a910), (0xf40e3585, 0x5771202a), (0x106aa070, 0x32bbd1b8),
     (0x19a4c116, 0xb8d2d0c8), (0x1e376c08, 0x5141ab53), (0x2748774c, 0xdf8eeb99), (0x34b0bcb5, 0xe19b48a8),
     (0x391c0cb3, 0xc5c95a63), (0x4ed8aa4a, 0xe3418acb), (0x5b9cca4f, 0x7763e373), (0x682e6ff3, 0xd6b2b8a3),
     (0x748f82ee, 0x5defb2fc), (0x78a5636f, 0x43172f60), (0x84c87814, 0xa1f0ab72), (0x8cc70208, 0x1a6439ec),
     (0x90befffa, 0x23631e28), (0xa4506ceb, 0xde82bde9), (0xbef9a3f7, 0xb2c67915), (0xc67178f2, 0xe372532b),
     (0xca273ece, 0xea26619c), (0xd186b8c7, 0x21c0c207), (0xeada7dd6, 0xcde0eb1e), (0xf57d4f7f, 0xee6ed178),
     (0x06f067aa, 0x72176fba), (0x0a637dc5, 0xa2c898a6), (0x113f9804, 0xbef90dae), (0x1b710b35, 0x131c471b),
     (0x28db77f5, 0x23047d84), (0x32caab7b, 0x40c72493), (0x3c9ebe0a, 0x15c9bebc), (0x431d67c4, 0x9c100d4c),
     (0x4cc5d4be, 0xcb3e42b6), (0x597f299c, 0xfc657e2a), (0x5fcb6fab, 0x3ad6faec), (0x6c44198c, 0x4a475817)]"

record sha512_ctx =
  sc_hash :: "u64 list"
  sc_input :: "u64 list"
  sc_input_size :: "u64 \<times> u64"
  sc_input_idx :: nat

text \<open>The variables \<open>a\<close> to \<open>h\<close> of the compression, and one round with \<open>in\<close> the scheduled word.\<close>

type_synonym round_state = "u64 \<times> u64 \<times> u64 \<times> u64 \<times> u64 \<times> u64 \<times> u64 \<times> u64"

definition sha512_round :: "u64 \<Rightarrow> round_state \<Rightarrow> round_state" where
  "sha512_round inp s =
     (case s of (a, b, c, d, e, f, g, h) \<Rightarrow>
        let t1 = big_sigma1 e + ch e f g + h + inp;
            t2 = big_sigma0 a + maj a b c
        in (t1 + t2, a, b, c, d + t1, e, f, g))"

text \<open>\<open>(j - n) & 15\<close> on \<open>size_t\<close>\<close>

definition sub_and_15 :: "nat \<Rightarrow> nat \<Rightarrow> nat" where
  "sub_and_15 j n = unat ((of_nat j - of_nat n :: u32) AND 15)"

text \<open>The body of the second loop for \<open>i16 + j\<close>: the word \<open>j\<close> of the schedule is replaced in place.\<close>

definition schedule_word :: "nat \<Rightarrow> u64 list \<Rightarrow> u64 list" where
  "schedule_word j input =
     (let input = input[j := input ! j + lit_sigma1 (input ! sub_and_15 j 2)];
          input = input[j := input ! j + lit_sigma0 (input ! sub_and_15 j 15)]
      in input[j := input ! j + input ! sub_and_15 j 7])"

definition expand_round :: "nat \<Rightarrow> nat \<Rightarrow> u64 list \<times> round_state \<Rightarrow> u64 list \<times> round_state" where
  "expand_round i16 j st =
     (case st of (input, s) \<Rightarrow>
        let input = schedule_word j input
        in (input, sha512_round (K ! (i16 + j) + input ! j) s))"

definition sha512_rounds :: "u64 list \<Rightarrow> round_state \<Rightarrow> u64 list \<times> round_state" where
  "sha512_rounds input s =
     (let s = foldl (\<lambda>s j. sha512_round (K ! j + input ! j) s) s [0..<16]
      in foldl (\<lambda>st i. foldl (\<lambda>st j. expand_round (16 * i) j st) st [0..<16]) (input, s) [1..<5])"

definition sha512_compress :: "sha512_ctx \<Rightarrow> sha512_ctx" where
  "sha512_compress ctx =
     (let hash = sc_hash ctx in
      case sha512_rounds (sc_input ctx)
             (hash ! 0, hash ! 1, hash ! 2, hash ! 3, hash ! 4, hash ! 5, hash ! 6, hash ! 7) of
        (input, a, b, c, d, e, f, g, h) \<Rightarrow>
          ctx \<lparr> sc_input := input,
                sc_hash := [hash ! 0 + a, hash ! 1 + b, hash ! 2 + c, hash ! 3 + d,
                            hash ! 4 + e, hash ! 5 + f, hash ! 6 + g, hash ! 7 + h] \<rparr>)"

definition sha512_set_input :: "sha512_ctx \<Rightarrow> byte \<Rightarrow> sha512_ctx" where
  "sha512_set_input ctx b =
     (let word = sc_input_idx ctx div 8; byte = sc_input_idx ctx mod 8 in
      ctx \<lparr> sc_input := (sc_input ctx)[word := sc_input ctx ! word OR push_bit (8 * (7 - byte)) (ucast b)] \<rparr>)"

definition sha512_incr :: "u64 \<times> u64 \<Rightarrow> u64 \<Rightarrow> u64 \<times> u64" where
  "sha512_incr x y =
     (let x1 = snd x + y in (if x1 < y then fst x + 1 else fst x, x1))"

definition sha512_h0 :: "u64 list" where
  "sha512_h0 = map (\<lambda>(high, low). push_bit 32 high OR low)
    [(0x6a09e667, 0xf3bcc908), (0xbb67ae85, 0x84caa73b), (0x3c6ef372, 0xfe94f82b), (0xa54ff53a, 0x5f1d36f1),
     (0x510e527f, 0xade682d1), (0x9b05688c, 0x2b3e6c1f), (0x1f83d9ab, 0xfb41bd6b), (0x5be0cd19, 0x137e2179)]"

definition crypto_sha512_init :: sha512_ctx where
  "crypto_sha512_init = \<lparr> sc_hash = sha512_h0, sc_input = replicate 16 0, sc_input_size = (0, 0),
     sc_input_idx = 0 \<rparr>"

text \<open>\<open>sha512_set_input(ctx, b); ctx->input_idx++;\<close> for the bytes of a list\<close>

definition set_input_bytes :: "bytes \<Rightarrow> sha512_ctx \<Rightarrow> sha512_ctx" where
  "set_input_bytes bs ctx =
     foldl (\<lambda>ctx b. (sha512_set_input ctx b) \<lparr> sc_input_idx := sc_input_idx ctx + 1 \<rparr>) ctx bs"

text \<open>\<open>load64_be_buf(ctx->input + pos, message, nb_words); ctx->input_idx += nb_words << 3;\<close>\<close>

definition set_input_words :: "nat \<Rightarrow> bytes \<Rightarrow> nat \<Rightarrow> sha512_ctx \<Rightarrow> sha512_ctx" where
  "set_input_words pos message nb_words ctx =
     ctx \<lparr> sc_input := mem_write pos (load64_be_buf message nb_words) (sc_input ctx),
           sc_input_idx := sc_input_idx ctx + 8 * nb_words \<rparr>"

text \<open>The compression of a full block, which counts its 1024 bits and starts an empty one.\<close>

definition finish_block :: "sha512_ctx \<Rightarrow> sha512_ctx" where
  "finish_block ctx =
     (sha512_compress (ctx \<lparr> sc_input_size := sha512_incr (sc_input_size ctx) 1024 \<rparr>))
       \<lparr> sc_input_idx := 0, sc_input := replicate 16 0 \<rparr>"

text \<open>
  The stages of \<open>crypto_sha512_update\<close>, from the message that is left and the context to the same:
  align with word boundaries; align with block boundaries; compress the block if it is full; process
  the message block by block; keep the remaining words and bytes.
\<close>

type_synonym stage = "bytes \<times> sha512_ctx"

definition update_word_align :: "stage \<Rightarrow> stage" where
  "update_word_align s =
     (case s of (message, ctx) \<Rightarrow>
        if sc_input_idx ctx mod 8 \<noteq> 0 then
          let nb_bytes = min (align (sc_input_idx ctx) 8) (length message)
          in (drop nb_bytes message, set_input_bytes (take nb_bytes message) ctx)
        else (message, ctx))"

definition update_block_align :: "stage \<Rightarrow> stage" where
  "update_block_align s =
     (case s of (message, ctx) \<Rightarrow>
        if sc_input_idx ctx mod 128 \<noteq> 0 then
          let nb_words = min (align (sc_input_idx ctx) 128) (length message) div 8
          in (drop (8 * nb_words) message, set_input_words (sc_input_idx ctx div 8) message nb_words ctx)
        else (message, ctx))"

definition update_full_block :: "stage \<Rightarrow> stage" where
  "update_full_block s =
     (case s of (message, ctx) \<Rightarrow> (message, if sc_input_idx ctx = 128 then finish_block ctx else ctx))"

text \<open>\<open>n\<close> rounds of \<open>FOR (i, 0, message_size >> 7)\<close>\<close>

primrec update_blocks :: "nat \<Rightarrow> stage \<Rightarrow> stage" where
  "update_blocks 0 s = s"
| "update_blocks (Suc n) s =
     (case s of (message, ctx) \<Rightarrow>
        update_blocks n (drop 128 message,
          finish_block (ctx \<lparr> sc_input := mem_write 0 (load64_be_buf message 16) (sc_input ctx) \<rparr>)))"

definition update_rest :: "stage \<Rightarrow> sha512_ctx" where
  "update_rest s =
     (case s of (message, ctx) \<Rightarrow>
        if message \<noteq> [] then
          let nb_words = length message div 8
          in set_input_bytes (drop (8 * nb_words) message) (set_input_words 0 message nb_words ctx)
        else ctx)"

definition crypto_sha512_update :: "sha512_ctx \<Rightarrow> bytes \<Rightarrow> sha512_ctx" where
  "crypto_sha512_update ctx message =
     (if message = [] then ctx
      else
        let s = update_full_block (update_block_align (update_word_align (message, ctx)))
        in update_rest (update_blocks (length (fst s) div 128) s))"

definition crypto_sha512_final :: "sha512_ctx \<Rightarrow> bytes" where
  "crypto_sha512_final ctx =
     (let ctx = (if sc_input_idx ctx = 0 then ctx \<lparr> sc_input := replicate 16 0 \<rparr> else ctx);
          ctx = sha512_set_input ctx 128;
          ctx = ctx \<lparr> sc_input_size := sha512_incr (sc_input_size ctx) (of_nat (sc_input_idx ctx * 8)) \<rparr>;
          ctx = (if sc_input_idx ctx > 111
                 then let ctx = sha512_compress ctx
                      in ctx \<lparr> sc_input := mem_write 0 (replicate 14 0) (sc_input ctx) \<rparr>
                 else ctx);
          ctx = ctx \<lparr> sc_input := (sc_input ctx)[14 := fst (sc_input_size ctx), 15 := snd (sc_input_size ctx)] \<rparr>;
          ctx = sha512_compress ctx
      in concat (map store64_be (sc_hash ctx)))"

definition crypto_sha512 :: "bytes \<Rightarrow> bytes" where
  "crypto_sha512 message = crypto_sha512_final (crypto_sha512_update crypto_sha512_init message)"

section \<open>The function of FIPS 180-4\<close>

text \<open>
  The building blocks \<open>ch\<close>, \<open>maj\<close>, \<open>big_sigma0\<close>, ..., one round and the constants are those of the
  standard.  The schedule is the list of the words \<open>W\<^sub>0\<close>, \<open>W\<^sub>1\<close>, ... : \<open>n\<close> words follow the block.
\<close>

definition next_word :: "u64 list \<Rightarrow> u64" where
  "next_word W = (let t = length W in
     lit_sigma1 (W ! (t - 2)) + W ! (t - 7) + lit_sigma0 (W ! (t - 15)) + W ! (t - 16))"

primrec schedule :: "u64 list \<Rightarrow> nat \<Rightarrow> u64 list" where
  "schedule M 0 = M"
| "schedule M (Suc n) = (let W = schedule M n in W @ [next_word W])"

definition hash_block :: "u64 list \<Rightarrow> u64 list \<Rightarrow> u64 list" where
  "hash_block H M =
     (let W = schedule M 64 in
      case foldl (\<lambda>s t. sha512_round (K ! t + W ! t) s)
             (H ! 0, H ! 1, H ! 2, H ! 3, H ! 4, H ! 5, H ! 6, H ! 7) [0..<80] of
        (a, b, c, d, e, f, g, h) \<Rightarrow>
          [H ! 0 + a, H ! 1 + b, H ! 2 + c, H ! 3 + d, H ! 4 + e, H ! 5 + f, H ! 6 + g, H ! 7 + h])"

text \<open>\<open>be_bytes k n\<close>: \<open>n\<close> as \<open>k\<close> bytes, the most significant first; the padded message; its blocks.\<close>

definition be_bytes :: "nat \<Rightarrow> nat \<Rightarrow> bytes" where
  "be_bytes k n = map (\<lambda>i. of_nat (n div 256 ^ (k - 1 - i))) [0..<k]"

definition sha512_pad :: "bytes \<Rightarrow> bytes" where
  "sha512_pad m = m @ 0x80 # replicate ((239 - length m mod 128) mod 128) 0 @ be_bytes 16 (8 * length m)"

definition words_of :: "bytes \<Rightarrow> u64 list" where
  "words_of bs = map (\<lambda>i. load64_be (take 8 (drop (8 * i) bs))) [0..<length bs div 8]"

fun blocks :: "bytes \<Rightarrow> u64 list list" where
  "blocks bs = (if length bs < 128 then [] else words_of (take 128 bs) # blocks (drop 128 bs))"

declare blocks.simps [simp del]

definition sha512 :: "bytes \<Rightarrow> bytes" where
  "sha512 m = concat (map store64_be (foldl hash_block sha512_h0 (blocks (sha512_pad m))))"

section \<open>The compression in place\<close>

lemma length_schedule [simp]: "length (schedule M n) = length M + n"
  by (induction n) (simp_all add: Let_def)

lemma schedule_mono: "m \<le> n \<Longrightarrow> t < length M + m \<Longrightarrow> schedule M n ! t = schedule M m ! t"
  by (induction n rule: dec_induct) (simp_all add: Let_def nth_append)


lemma sub_and_15_simps [simp]:
  assumes "j < 16"
  shows "sub_and_15 j 2 = (j + 14) mod 16" "sub_and_15 j 15 = (j + 1) mod 16"
    "sub_and_15 j 7 = (j + 9) mod 16"
proof -
  have "\<forall>j \<in> set [0..<16]. sub_and_15 j 2 = (j + 14) mod 16 \<and> sub_and_15 j 15 = (j + 1) mod 16
      \<and> sub_and_15 j 7 = (j + 9) mod 16"
    by code_simp
  then show "sub_and_15 j 2 = (j + 14) mod 16" "sub_and_15 j 15 = (j + 1) mod 16"
    "sub_and_15 j 7 = (j + 9) mod 16"
    using assms by simp_all
qed

text \<open>After \<open>n\<close> words the sixteen words of the code are the last sixteen of the schedule.\<close>

definition ring :: "u64 list \<Rightarrow> nat \<Rightarrow> u64 list \<Rightarrow> bool" where
  "ring M n input \<longleftrightarrow> length input = 16 \<and> (\<forall>t. n \<le> t \<and> t < n + 16 \<longrightarrow> input ! (t mod 16) = schedule M n ! t)"

lemma ring_0: "length M = 16 \<Longrightarrow> ring M 0 M"
  by (simp add: ring_def)

lemma ring_nth: "ring M n input \<Longrightarrow> n \<le> t \<Longrightarrow> t < n + 16 \<Longrightarrow> input ! (t mod 16) = schedule M n ! t"
  by (simp add: ring_def)

lemma schedule_word_eq:
  assumes "length input = 16" "j < 16"
  shows "schedule_word j input = input[j := lit_sigma1 (input ! ((j + 14) mod 16)) + input ! ((j + 9) mod 16)
     + lit_sigma0 (input ! ((j + 1) mod 16)) + input ! j]"
proof -
  have "(j + 14) mod 16 \<noteq> j" "(j + 1) mod 16 \<noteq> j" "(j + 9) mod 16 \<noteq> j"
    using assms(2) by (auto simp: mod_if)
  then show ?thesis
    using assms by (simp add: schedule_word_def ac_simps)
qed

lemma ring_step:
  assumes r: "ring M n input" and M: "length M = 16"
  shows "ring M (Suc n) (schedule_word (n mod 16) input)"
    "schedule_word (n mod 16) input ! (n mod 16) = schedule M (Suc n) ! (n + 16)"
proof -
  have len: "length input = 16" using r by (simp add: ring_def)
  have idx: "(n mod 16 + k) mod 16 = (n + k) mod 16" for k by presburger
  have j: "n mod 16 < 16" by simp
  have at: "input ! ((n + k) mod 16) = schedule M n ! (n + k)" if "k < 16" for k
    using ring_nth [OF r, of "n + k"] that by simp
  have w: "schedule_word (n mod 16) input = input[n mod 16 := next_word (schedule M n)]"
    using at [of 14] at [of 9] at [of 1] at [of 0]
    unfolding schedule_word_eq [OF len j] idx by (simp add: next_word_def M ac_simps)
  show "schedule_word (n mod 16) input ! (n mod 16) = schedule M (Suc n) ! (n + 16)"
    by (simp add: w len Let_def nth_append M)
  have "input[n mod 16 := next_word (schedule M n)] ! (t mod 16) = schedule M (Suc n) ! t"
    if "Suc n \<le> t" "t < Suc n + 16" for t
  proof (cases "t = n + 16")
    case True
    then show ?thesis by (simp add: len Let_def nth_append M)
  next
    case False
    then have t: "n \<le> t" "t < n + 16" using that by simp_all
    have "\<not> 16 dvd t - n" using that False t by (auto dest!: dvd_imp_le)
    then have "n mod 16 \<noteq> t mod 16" using t(1) mod_eq_dvd_iff_nat [of n t 16] by simp
    then have "input[n mod 16 := next_word (schedule M n)] ! (t mod 16) = input ! (t mod 16)" by simp
    also have "\<dots> = schedule M (Suc n) ! t"
      using ring_nth [OF r t] t by (simp add: Let_def nth_append M)
    finally show ?thesis .
  qed
  then show "ring M (Suc n) (schedule_word (n mod 16) input)"
    by (simp add: ring_def w len)
qed

lemma expand_round_at:
  assumes "ring M n input" "length M = 16" "n + 16 < 80"
  obtains input' where "ring M (Suc n) input'"
    "expand_round (n + 16 - n mod 16) (n mod 16) (input, s) =
       (input', sha512_round (K ! (n + 16) + schedule M 64 ! (n + 16)) s)"
proof -
  have "schedule M (Suc n) ! (n + 16) = schedule M 64 ! (n + 16)"
    using schedule_mono [of "Suc n" 64 "n + 16" M] assms by simp
  moreover have "n + 16 - n mod 16 + n mod 16 = n + 16" by presburger
  ultimately show thesis
    using that [of "schedule_word (n mod 16) input"] ring_step [OF assms(1,2)]
    by (simp add: expand_round_def Let_def)
qed

lemma expand_rounds:
  assumes "length M = 16" "n + 16 \<le> 80"
  obtains input' where "ring M n input'"
    "foldl (\<lambda>st t. expand_round (t - t mod 16) (t mod 16) st) (M, s) [16..<n + 16] =
      (input', foldl (\<lambda>s t. sha512_round (K ! t + schedule M 64 ! t) s) s [16..<n + 16])"
  using assms(2)
proof (induction n arbitrary: thesis)
  case 0
  then show ?case using ring_0 [OF assms(1)] by simp
next
  case (Suc n)
  obtain i where i: "ring M n i"
    "foldl (\<lambda>st t. expand_round (t - t mod 16) (t mod 16) st) (M, s) [16..<n + 16] =
      (i, foldl (\<lambda>s t. sha512_round (K ! t + schedule M 64 ! t) s) s [16..<n + 16])"
    by (rule Suc.IH) (use Suc.prems(2) in auto)
  obtain i' where "ring M (Suc n) i'"
    "expand_round (n + 16 - n mod 16) (n mod 16)
       (i, foldl (\<lambda>s t. sha512_round (K ! t + schedule M 64 ! t) s) s [16..<n + 16]) =
       (i', sha512_round (K ! (n + 16) + schedule M 64 ! (n + 16))
         (foldl (\<lambda>s t. sha512_round (K ! t + schedule M 64 ! t) s) s [16..<n + 16]))"
    by (rule expand_round_at [OF i(1) assms(1)]) (use Suc.prems(2) in auto)
  moreover have "[16..<Suc n + 16] = [16..<n + 16] @ [n + 16]"
    unfolding add_Suc by (rule upt_Suc_append) simp
  ultimately show ?case
    using i(2) by (intro Suc.prems(1) [of i']) (simp_all only: foldl_append foldl.simps mod_add_self2)
qed

lemma foldl_block:
  assumes "16 dvd b"
  shows "foldl (\<lambda>st j. expand_round b j st) st [0..<16] =
    foldl (\<lambda>st t. expand_round (t - t mod 16) (t mod 16) st) st [b..<b + 16]"
proof -
  have "[b..<b + 16] = map (\<lambda>j. b + j) [0..<16]"
    by (simp add: map_add_upt add.commute)
  moreover have "(b + j) mod 16 = j" if "j < 16" for j
    using assms that by (metis dvd_imp_mod_0 mod_add_left_eq mod_less add_0)
  ultimately show ?thesis
    by (auto simp: foldl_map intro!: foldl_cong)
qed

lemma sha512_rounds_eq:
  assumes M: "length M = 16"
  shows "\<exists>input. length input = 16 \<and>
    sha512_rounds M s = (input, foldl (\<lambda>s t. sha512_round (K ! t + schedule M 64 ! t) s) s [0..<80])"
proof -
  let ?e = "\<lambda>st t. expand_round (t - t mod 16) (t mod 16) st"
  let ?r = "\<lambda>s t. sha512_round (K ! t + schedule M 64 ! t) s"
  have first: "foldl (\<lambda>s j. sha512_round (K ! j + M ! j) s) s [0..<16] =
      foldl (\<lambda>s t. sha512_round (K ! t + schedule M 64 ! t) s) s [0..<16]" for s
    using schedule_mono [of 0 64 _ M] M by (intro foldl_cong) auto
  have upt: "[0..<80] = [0..<16] @ [16..<80]"
    "[16..<80] = [16..<16 + 16] @ [32..<32 + 16] @ [48..<48 + 16] @ [64..<64 + 16::nat]"
    using upt_add_eq_append [of 0 16 64] upt_add_eq_append [of 16 32 48]
      upt_add_eq_append [of 32 48 32] upt_add_eq_append [of 48 64 16]
    by (simp_all del: upt_Suc upt_rec_numeral)
  have one: "[1..<5] = [1, 2, 3, 4::nat]" by (simp add: upt_rec)
  have "foldl (\<lambda>st i. foldl (\<lambda>st j. expand_round (16 * i) j st) st [0..<16]) st [1..<5] =
      foldl ?e st [16..<80]" for st
    using foldl_block [of 16] foldl_block [of 32] foldl_block [of 48] foldl_block [of 64]
    unfolding upt(2) one by (simp del: upt_rec_numeral)
  moreover obtain input where "ring M 64 input" and
    "foldl ?e (M, foldl ?r s [0..<16]) [16..<64 + 16] = (input, foldl ?r (foldl ?r s [0..<16]) [16..<64 + 16])"
    using expand_rounds [OF M, of 64 "foldl ?r s [0..<16]"] by auto
  ultimately show ?thesis
    using first unfolding upt(1) sha512_rounds_def Let_def
    by (intro exI [of _ input]) (simp add: ring_def del: upt_rec_numeral)
qed

lemma sha512_compress_hash:
  assumes "length (sc_input ctx) = 16"
  obtains input where "length input = 16"
    "sha512_compress ctx = ctx \<lparr> sc_input := input, sc_hash := hash_block (sc_hash ctx) (sc_input ctx) \<rparr>"
proof -
  let ?H = "sc_hash ctx"
  let ?s = "(?H ! 0, ?H ! 1, ?H ! 2, ?H ! 3, ?H ! 4, ?H ! 5, ?H ! 6, ?H ! 7)"
  obtain input where "length input = 16" and
    "sha512_rounds (sc_input ctx) ?s =
       (input, foldl (\<lambda>s t. sha512_round (K ! t + schedule (sc_input ctx) 64 ! t) s) ?s [0..<80])"
    using sha512_rounds_eq [OF assms] by blast
  then show thesis
    using that [of input] by (simp add: sha512_compress_def hash_block_def Let_def split: prod.split)
qed

section \<open>Words and bytes\<close>

lemma ucast_and_255: "ucast (y AND 255 :: u64) = (ucast y :: byte)"
proof -
  have mask: "(255 :: u64) = mask 8" by (simp add: mask_eq_exp_minus_1)
  show ?thesis
    unfolding mask by (intro bit_word_eqI) (simp only: bit_simps, simp)
qed

lemma store64_be_eq: "store64_be x = map (\<lambda>i. ucast (drop_bit (8 * (7 - i)) x)) [0..<8]"
  by (simp add: store64_be_def ucast_and_255 upt_rec)

lemma bit_byte_ge: "8 \<le> n \<Longrightarrow> \<not> bit (b :: byte) n"
  by (auto dest: bit_imp_le_length)

lemma bit_load64_be:
  assumes "q < 8" "r < 8"
  shows "bit (load64_be s) (8 * q + r) = bit (byte_at s (7 - q)) r"
proof -
  have "q \<in> {0, 1, 2, 3, 4, 5, 6, 7}" using assms(1) by auto
  then show ?thesis
    using assms(2) by (elim insertE emptyE; hypsubst) (simp_all add: load64_be_def bit_simps bit_byte_ge)
qed

lemma load_store64_be [simp]: "load64_be (store64_be x) = x"
proof (rule bit_word_eqI)
  fix n :: nat assume "n < LENGTH(64)"
  then have "n div 8 < 8" "n mod 8 < 8" "7 - n div 8 < 8" "8 * (7 - (7 - n div 8)) = 8 * (n div 8)" by auto
  then show "bit (load64_be (store64_be x)) n = bit x n"
    using bit_load64_be [of "n div 8" "n mod 8" "store64_be x"] by (simp add: store64_be_eq bit_simps)
qed

lemma ucast_drop_bit_of_nat: "k + 8 \<le> 64 \<Longrightarrow> ucast (drop_bit k (of_nat n :: u64)) = (of_nat (n div 2 ^ k) :: byte)"
  by (intro bit_word_eqI) (simp add: bit_simps flip: drop_bit_eq_div)

lemma power_256: "(256 :: nat) ^ k = 2 ^ (8 * k)"
  by (simp add: power_mult)

lemma store64_be_bytes: "store64_be (of_nat n) = be_bytes 8 n"
  by (auto simp: store64_be_eq be_bytes_def ucast_drop_bit_of_nat power_256)

lemma be_bytes_16: "be_bytes 16 n = store64_be (of_nat (n div 2 ^ 64)) @ store64_be (of_nat n)"
proof -
  have upt: "[0..<16] = [0..<8] @ map (\<lambda>i. i + 8) [0..<8]"
    by (simp add: upt_rec)
  have "n div 2 ^ 64 div 256 ^ (7 - i) = n div 256 ^ (15 - i)" if "i < 8" for i
  proof -
    have "64 + 8 * (7 - i) = 8 * (15 - i)" using that by simp
    then have "2 ^ 64 * 256 ^ (7 - i) = (256 :: nat) ^ (15 - i)"
      by (simp only: power_256 power_add [symmetric])
    then show ?thesis by (simp only: div_mult2_eq [symmetric])
  qed
  then show ?thesis
    unfolding store64_be_bytes be_bytes_def upt by simp
qed

lemma length_load64_be_buf [simp]: "length (load64_be_buf src n) = n"
  by (simp add: load64_be_buf_def)

lemma nth_load64_be_buf [simp]: "i < n \<Longrightarrow> load64_be_buf src n ! i = load64_be (drop (8 * i) src)"
  by (simp add: load64_be_buf_def)

lemma byte_at_drop: "byte_at (drop i bs) j = byte_at bs (i + j)"
  by (auto simp: byte_at_def)

lemma byte_at_take: "byte_at (take n bs) i = (if i < n then byte_at bs i else 0)"
  by (auto simp: byte_at_def)

lemma byte_at_append: "byte_at (a @ b) i = (if i < length a then byte_at a i else byte_at b (i - length a))"
  by (auto simp: byte_at_def nth_append)

lemma load64_be_cong:
  "(\<And>k. k < 8 \<Longrightarrow> byte_at s k = byte_at s' k) \<Longrightarrow> load64_be s = load64_be s'"
  by (simp add: load64_be_def)

lemma words_of_eq: "length bs = 128 \<Longrightarrow> words_of bs = load64_be_buf bs 16"
  by (auto simp: words_of_def load64_be_buf_def byte_at_take intro!: load64_be_cong)

lemma load64_be_put:
  assumes "byte < 8" "byte_at s byte = 0" "\<And>k. k < 8 \<Longrightarrow> k \<noteq> byte \<Longrightarrow> byte_at s' k = byte_at s k" "byte_at s' byte = b"
  shows "load64_be s' = load64_be s OR push_bit (8 * (7 - byte)) (ucast b)"
proof -
  have "byte \<in> {0, 1, 2, 3, 4, 5, 6, 7}" using assms(1) by auto
  then show ?thesis
    using assms by (auto simp: load64_be_def ac_simps)
qed

section \<open>The context while a message arrives\<close>

definition size128 :: "nat \<Rightarrow> u64 \<times> u64" where
  "size128 n = (of_nat (n div 2 ^ 64), of_nat n)"

lemma carry:
  fixes n k p :: nat
  assumes "k < p"
  shows "(n + k) mod p < k \<longleftrightarrow> p \<le> n mod p + k"
    "(n + k) div p = (if p \<le> n mod p + k then n div p + 1 else n div p)"
proof -
  define q r where "q = n div p" and "r = n mod p"
  then have n: "n = r + q * p" and r: "r < p" using assms by simp_all
  have nk: "n + k = r + k + q * p" using n by simp
  have m: "(n + k) mod p = (r + k) mod p" "(n + k) div p = q + (r + k) div p"
    unfolding nk using r by (simp_all only: mod_mult_self1 div_mult_self1)
  show "(n + k) mod p < k \<longleftrightarrow> p \<le> n mod p + k"
    unfolding m r_def [symmetric] using r assms by (auto simp: mod_if)
  show "(n + k) div p = (if p \<le> n mod p + k then n div p + 1 else n div p)"
    unfolding m r_def [symmetric] q_def [symmetric] using r assms by (auto simp: div_if)
qed

lemma sha512_incr_size128:
  assumes "k < 2 ^ 64"
  shows "sha512_incr (size128 n) (of_nat k) = size128 (n + k)"
proof -
  have l: "LENGTH(64) = 64" by simp
  have lt: "(of_nat (n + k) :: u64) < of_nat k \<longleftrightarrow> 2 ^ 64 \<le> n mod 2 ^ 64 + k"
    unfolding word_less_nat_alt unat_of_nat l mod_less [OF assms] carry(1) [OF assms, symmetric] ..
  have hi: "of_nat ((n + k) div 2 ^ 64) = (if 2 ^ 64 \<le> n mod 2 ^ 64 + k then of_nat (n div 2 ^ 64) + 1 else of_nat (n div 2 ^ 64) :: u64)"
    unfolding carry(2) [OF assms] by (simp only: of_nat_add of_nat_1 split: if_split) simp
  show ?thesis
    unfolding sha512_incr_def size128_def Let_def fst_conv snd_conv of_nat_add [symmetric] lt hi ..
qed

text \<open>
  \<open>part ctx pre rest\<close>: the context has compressed the blocks of \<open>pre\<close> and holds the bytes
  \<open>rest\<close> of the block that is being filled.
\<close>

definition part :: "sha512_ctx \<Rightarrow> bytes \<Rightarrow> bytes \<Rightarrow> bool" where
  "part ctx pre rest \<longleftrightarrow> 128 dvd length pre \<and> length rest \<le> 128 \<and>
     ctx = \<lparr> sc_hash = foldl hash_block sha512_h0 (blocks pre), sc_input = load64_be_buf rest 16,
             sc_input_size = size128 (8 * length pre), sc_input_idx = length rest \<rparr>"

lemma blocks_append: "128 dvd length a \<Longrightarrow> blocks (a @ b) = blocks a @ blocks b"
proof (induction a rule: blocks.induct)
  case (1 a)
  show ?case
  proof (cases "length a < 128")
    case True
    then have "a = []" using 1(2) by (auto dest: dvd_imp_le)
    then show ?thesis by (simp add: blocks.simps [of "[]"])
  next
    case False
    then show ?thesis
      using 1 by (simp add: blocks.simps [of a] blocks.simps [of "a @ b"])
  qed
qed

lemma blocks_one: "length a = 128 \<Longrightarrow> blocks a = [load64_be_buf a 16]"
  by (simp add: blocks.simps [of a] blocks.simps [of "[]"] words_of_eq)

lemma part_init: "part crypto_sha512_init [] []"
  by (simp add: part_def crypto_sha512_init_def size128_def blocks.simps load64_be_buf_def load64_be_def byte_at_def
      map_replicate_const)

lemma part_set_input:
  assumes "part ctx pre rest" "length rest < 128"
  shows "part ((sha512_set_input ctx b) \<lparr> sc_input_idx := sc_input_idx ctx + 1 \<rparr>) pre (rest @ [b])"
    "sc_input (sha512_set_input ctx b) = load64_be_buf (rest @ [b]) 16"
proof -
  let ?n = "length rest"
  have at: "byte_at (drop (8 * i) (rest @ [b])) k = (if 8 * i + k = ?n then b else byte_at (drop (8 * i) rest) k)" for i k
    by (auto simp: byte_at_drop byte_at_def nth_append)
  have word: "load64_be (drop (8 * i) (rest @ [b])) =
      (if i = ?n div 8 then load64_be (drop (8 * i) rest) OR push_bit (8 * (7 - ?n mod 8)) (ucast b)
       else load64_be (drop (8 * i) rest))" for i
  proof (cases "i = ?n div 8")
    case True
    then have n: "8 * i + k = ?n \<longleftrightarrow> k = ?n mod 8" for k
      using mult_div_mod_eq [of 8 ?n] by linarith
    have "byte_at (drop (8 * i) rest) (?n mod 8) = 0"
      using iffD2 [OF n refl] by (simp only: byte_at_drop) (simp add: byte_at_def)
    then have "load64_be (drop (8 * i) (rest @ [b])) = load64_be (drop (8 * i) rest) OR push_bit (8 * (7 - ?n mod 8)) (ucast b)"
      by (intro load64_be_put) (simp_all add: at n del: drop_append)
    then show ?thesis using True by simp
  next
    case False
    then have "8 * i + k \<noteq> ?n" if "k < 8" for k using that by auto
    then have "load64_be (drop (8 * i) (rest @ [b])) = load64_be (drop (8 * i) rest)"
      by (intro load64_be_cong) (simp only: at if_False)
    then show ?thesis using False by simp
  qed
  have "(load64_be_buf rest 16)[?n div 8 := load64_be_buf rest 16 ! (?n div 8) OR push_bit (8 * (7 - ?n mod 8)) (ucast b)]
      = load64_be_buf (rest @ [b]) 16"
    using assms(2) by (intro nth_equalityI) (auto simp: nth_list_update word simp del: drop_append)
  then show "sc_input (sha512_set_input ctx b) = load64_be_buf (rest @ [b]) 16"
    "part ((sha512_set_input ctx b) \<lparr> sc_input_idx := sc_input_idx ctx + 1 \<rparr>) pre (rest @ [b])"
    using assms by (auto simp: part_def sha512_set_input_def Let_def)
qed

lemma part_set_bytes:
  "part ctx pre rest \<Longrightarrow> length rest + length bs \<le> 128 \<Longrightarrow> part (set_input_bytes bs ctx) pre (rest @ bs)"
proof (induction bs arbitrary: ctx rest)
  case Nil
  then show ?case by (simp add: set_input_bytes_def)
next
  case (Cons b bs)
  then show ?case
    using part_set_input(1) [of ctx pre rest b] Cons.IH [of _ "rest @ [b]"] by (simp add: set_input_bytes_def)
qed

lemma part_set_words:
  assumes p: "part ctx pre rest" and a: "8 dvd length rest" and n: "length rest + 8 * n \<le> 128" "8 * n \<le> length m"
  shows "part (set_input_words (length rest div 8) m n ctx) pre (rest @ take (8 * n) m)"
proof -
  obtain a where a: "length rest = 8 * a" using a by blast
  then have k: "length rest div 8 = a" "a + n \<le> 16" using n(1) by auto
  have at: "byte_at (drop (8 * i) (rest @ take (8 * n) m)) j =
      (if i < a then byte_at (drop (8 * i) rest) j else if i < a + n then byte_at (drop (8 * (i - a)) m) j
       else byte_at (drop (8 * i) rest) j)" if "j < 8" for i j
  proof -
    consider "i < a" | d where "i = a + d" "d < n" | d where "i = a + n + d"
      by (metis le_iff_add nat_le_linear linorder_not_less nat_add_left_cancel_less)
    then show ?thesis
    proof cases
      case 1
      then have "8 * i + j < length rest" using a that by linarith
      then show ?thesis using 1 by (simp add: byte_at_drop byte_at_append del: drop_append)
    next
      case 2
      then have "8 * i + j - length rest = 8 * d + j" "8 * d + j < 8 * n" using a that by simp_all
      then show ?thesis using 2 a by (simp add: byte_at_drop byte_at_append byte_at_take del: drop_append)
    next
      case 3
      then show ?thesis using a by (simp add: byte_at_drop byte_at_append byte_at_take del: drop_append)
    qed
  qed
  have "mem_write a (load64_be_buf m n) (load64_be_buf rest 16) = load64_be_buf (rest @ take (8 * n) m) 16"
  proof (rule nth_equalityI)
    show "length (mem_write a (load64_be_buf m n) (load64_be_buf rest 16)) =
        length (load64_be_buf (rest @ take (8 * n) m) 16)"
      using k(2) by simp
    fix i assume "i < length (mem_write a (load64_be_buf m n) (load64_be_buf rest 16))"
    then have i: "i < 16" using k(2) by simp
    have "load64_be (drop (8 * i) (rest @ take (8 * n) m)) =
        (if i < a then load64_be (drop (8 * i) rest) else if i < a + n then load64_be (drop (8 * (i - a)) m)
         else load64_be (drop (8 * i) rest))"
      using at [of _ i] by (auto intro!: load64_be_cong simp del: drop_append)
    then show "mem_write a (load64_be_buf m n) (load64_be_buf rest 16) ! i =
        load64_be_buf (rest @ take (8 * n) m) 16 ! i"
      using i k(2) by (auto simp: mem_write_def nth_append simp del: drop_append)
  qed
  then show ?thesis
    using p n by (auto simp: part_def set_input_words_def k(1))
qed

lemma part_finish_block:
  assumes "part ctx pre rest" "length rest = 128"
  shows "part (finish_block ctx) (pre @ rest) []"
proof -
  let ?ctx = "ctx \<lparr> sc_input_size := sha512_incr (sc_input_size ctx) 1024 \<rparr>"
  have "length (sc_input ?ctx) = 16" using assms by (simp add: part_def)
  then obtain input where "sha512_compress ?ctx =
      ?ctx \<lparr> sc_input := input, sc_hash := hash_block (sc_hash ?ctx) (sc_input ?ctx) \<rparr>"
    by (rule sha512_compress_hash)
  moreover have "sha512_incr (size128 (8 * length pre)) 1024 = size128 (8 * length (pre @ rest))"
    using sha512_incr_size128 [of 1024 "8 * length pre"] assms(2) by (simp add: algebra_simps)
  moreover have "load64_be_buf [] 16 = replicate 16 0"
    by (simp add: load64_be_buf_def load64_be_def byte_at_def map_replicate_const)
  ultimately show ?thesis
    using assms by (simp add: part_def finish_block_def blocks_append blocks_one)
qed

section \<open>Any list of updates\<close>

lemma align_8: "x \<le> 128 \<Longrightarrow> align x 8 = (8 - x mod 8) mod 8"
proof -
  have "\<forall>x \<in> set [0..<129]. align x 8 = (8 - x mod 8) mod 8" by code_simp
  then show "x \<le> 128 \<Longrightarrow> align x 8 = (8 - x mod 8) mod 8" by simp
qed

lemma align_128: "x \<le> 128 \<Longrightarrow> align x 128 = (128 - x) mod 128"
proof -
  have "\<forall>x \<in> set [0..<129]. align x 128 = (128 - x) mod 128" by code_simp
  then show "x \<le> 128 \<Longrightarrow> align x 128 = (128 - x) mod 128" by simp
qed

lemma finish_block_eq:
  assumes "length (sc_input ctx) = 16"
  shows "finish_block ctx = \<lparr> sc_hash = hash_block (sc_hash ctx) (sc_input ctx), sc_input = replicate 16 0,
     sc_input_size = sha512_incr (sc_input_size ctx) 1024, sc_input_idx = 0 \<rparr>"
proof -
  let ?ctx = "ctx \<lparr> sc_input_size := sha512_incr (sc_input_size ctx) 1024 \<rparr>"
  obtain input where "sha512_compress ?ctx =
      ?ctx \<lparr> sc_input := input, sc_hash := hash_block (sc_hash ?ctx) (sc_input ?ctx) \<rparr>"
    using sha512_compress_hash [of ?ctx] assms by auto
  then show ?thesis by (simp add: finish_block_def)
qed

lemma part_idx: "part ctx pre rest \<Longrightarrow> sc_input_idx ctx = length rest"
  by (simp add: part_def)

text \<open>\<open>fed S s pre rest\<close>: what is compressed, what is held and what is left of the message make up \<open>S\<close>.\<close>

definition fed :: "bytes \<Rightarrow> stage \<Rightarrow> bytes \<Rightarrow> bytes \<Rightarrow> bool" where
  "fed S s pre rest \<longleftrightarrow> part (snd s) pre rest \<and> pre @ rest @ fst s = S"

definition short :: "bytes \<Rightarrow> bytes \<Rightarrow> bool" where
  "short rest m \<longleftrightarrow> length rest + length m < 128 \<and> length m < 8"

lemma fed_word_align:
  assumes "fed S s pre rest" "length rest < 128"
  obtains rest' where "fed S (update_word_align s) pre rest'"
    "8 dvd length rest' \<or> fst (update_word_align s) = []"
proof (cases "8 dvd length rest")
  case True
  then have "update_word_align s = s"
    using assms by (cases s) (auto simp: fed_def update_word_align_def dest!: part_idx)
  then show ?thesis using assms True that by auto
next
  case False
  obtain m ctx where s: "s = (m, ctx)" by (cases s)
  let ?n = "min (8 - length rest mod 8) (length m)"
  have p: "part ctx pre rest" using assms by (simp add: fed_def s)
  have n: "(8 - length rest mod 8) mod 8 = 8 - length rest mod 8" "length rest + (8 - length rest mod 8) \<le> 128"
    "8 dvd length rest + (8 - length rest mod 8)"
  proof -
    define a r where "a = length rest div 8" and "r = length rest mod 8"
    have "length rest = 8 * a + r" "r < 8" by (simp_all add: a_def r_def)
    moreover have "0 < r" using False by (simp add: r_def dvd_eq_mod_eq_0)
    ultimately have l: "length rest + (8 - r) = 8 * (a + 1)" "a < 16" "(8 - r) mod 8 = 8 - r"
      using assms(2) by simp_all
    show "(8 - length rest mod 8) mod 8 = 8 - length rest mod 8" "length rest + (8 - length rest mod 8) \<le> 128"
      "8 dvd length rest + (8 - length rest mod 8)"
      unfolding r_def [symmetric] l(1) using l(2,3) by simp_all
  qed
  have eq: "update_word_align (m, ctx) = (drop ?n m, set_input_bytes (take ?n m) ctx)"
    using False assms(2) n(1) by (simp add: Let_def update_word_align_def part_idx [OF p] align_8 dvd_eq_mod_eq_0)
  have "part (set_input_bytes (take ?n m) ctx) pre (rest @ take ?n m)"
    using n(2) by (intro part_set_bytes [OF p]) auto
  then show ?thesis
    using assms n(3) by (intro that [of "rest @ take ?n m"]) (auto simp: fed_def s eq)
qed

lemma fed_block_align:
  assumes f: "fed S s pre rest" and r: "8 dvd length rest \<or> fst s = []"
  obtains rest' where "fed S (update_block_align s) pre rest'"
    "rest' = [] \<or> length rest' = 128 \<or> short rest' (fst (update_block_align s))"
proof -
  obtain m ctx where s: "s = (m, ctx)" by (cases s)
  have p: "part ctx pre rest" using f by (simp add: fed_def s)
  then have le: "length rest \<le> 128" by (simp add: part_def)
  consider "rest = [] \<or> length rest = 128" | "m = []" "length rest < 128"
    | a where "length rest = 8 * a" "0 < a" "a < 16"
    using r le by (fastforce simp: s elim!: dvdE)
  then show thesis
  proof cases
    case 1
    then have "update_block_align s = s" by (auto simp: s update_block_align_def part_idx [OF p])
    then show ?thesis using 1 f that by auto
  next
    case 2
    have "set_input_words k [] 0 ctx = ctx" for k by (simp add: set_input_words_def load64_be_buf_def)
    then have "update_block_align s = s" using 2 by (simp add: s update_block_align_def)
    then show ?thesis using 2 f that by (auto simp: s short_def)
  next
    case 3
    define n where "n = min (16 - a) (length m div 8)"
    have n: "min (align (length rest) 128) (length m) div 8 = n"
      using 3 by (auto simp: n_def align_128 min_def)
    have le: "length rest + 8 * n \<le> 128" "8 * n \<le> length m" using 3 by (auto simp: n_def)
    have eq: "update_block_align (m, ctx) = (drop (8 * n) m, set_input_words (length rest div 8) m n ctx)"
      using 3 by (simp add: update_block_align_def part_idx [OF p] Let_def n [symmetric])
    have "part (set_input_words (length rest div 8) m n ctx) pre (rest @ take (8 * n) m)"
      using 3 by (intro part_set_words [OF p _ le]) simp
    moreover have "length (rest @ take (8 * n) m) = 128 \<or> short (rest @ take (8 * n) m) (drop (8 * n) m)"
      using 3 by (cases "16 - a \<le> length m div 8") (auto simp: n_def short_def)
    ultimately show ?thesis
      using f by (intro that [of "rest @ take (8 * n) m"]) (auto simp: fed_def s eq)
  qed
qed

lemma fed_full_block:
  assumes "fed S s pre rest" "rest = [] \<or> length rest = 128 \<or> short rest (fst s)"
  obtains pre' rest' where "fed S (update_full_block s) pre' rest'"
    "rest' = [] \<or> short rest' (fst (update_full_block s))"
proof (cases "length rest = 128")
  case True
  then show ?thesis
    using assms part_finish_block [of "snd s" pre rest] by (intro that [of "pre @ rest" "[]"])
      (auto simp: fed_def update_full_block_def part_idx split: prod.split)
next
  case False
  then have "update_full_block s = s"
    using assms by (auto simp: fed_def update_full_block_def part_idx split: prod.split)
  then show ?thesis using False assms that by auto
qed

lemma fed_blocks:
  assumes "fed S s pre []" "128 * n \<le> length (fst s)"
  shows "\<exists>pre'. fed S (update_blocks n s) pre' [] \<and> length (fst (update_blocks n s)) = length (fst s) - 128 * n"
  using assms
proof (induction n arbitrary: s pre)
  case 0
  then show ?case by auto
next
  case (Suc n)
  obtain m ctx where s: "s = (m, ctx)" by (cases s)
  let ?ctx = "ctx \<lparr> sc_input := mem_write 0 (load64_be_buf m 16) (sc_input ctx) \<rparr>"
  have p: "part ctx pre []" using Suc.prems(1) by (simp add: fed_def s)
  have "load64_be_buf m 16 = load64_be_buf (take 128 m) 16"
    by (auto simp: load64_be_buf_def byte_at_drop byte_at_take intro!: load64_be_cong)
  then have "part (?ctx \<lparr> sc_input_idx := 128 \<rparr>) pre (take 128 m)"
    using p Suc.prems(2) by (simp add: part_def mem_write_def s)
  then have "part (finish_block (?ctx \<lparr> sc_input_idx := 128 \<rparr>)) (pre @ take 128 m) []"
    using Suc.prems(2) by (intro part_finish_block) (simp_all add: s)
  moreover have "finish_block (?ctx \<lparr> sc_input_idx := 128 \<rparr>) = finish_block ?ctx"
    using p by (simp add: part_def finish_block_eq)
  ultimately show ?case
    using Suc.IH [of "(drop 128 m, finish_block ?ctx)" "pre @ take 128 m"] Suc.prems by (auto simp: s fed_def)
qed

lemma part_update_rest:
  assumes f: "fed S s pre rest" and r: "rest = [] \<and> length (fst s) < 128 \<or> short rest (fst s)"
  shows "part (update_rest s) pre (rest @ fst s)"
proof -
  obtain m ctx where s: "s = (m, ctx)" by (cases s)
  let ?n = "length m div 8"
  have p: "part ctx pre rest" using f by (simp add: fed_def s)
  consider "m = []" | "m \<noteq> []" "rest = []" "length m < 128" | "m \<noteq> []" "length rest + length m < 128" "length m < 8"
    using r by (cases "m = []") (auto simp: s short_def)
  then show ?thesis
  proof cases
    case 1
    then show ?thesis using p by (simp add: s update_rest_def)
  next
    case 2
    then have "part (set_input_words 0 m ?n ctx) pre (take (8 * ?n) m)"
      using part_set_words [OF p, of ?n m] by auto
    then show ?thesis
      using part_set_bytes [of _ pre "take (8 * ?n) m" "drop (8 * ?n) m"] 2
      by (simp add: s update_rest_def Let_def)
  next
    case 3
    moreover have "set_input_words 0 m 0 ctx = ctx" by (simp add: set_input_words_def load64_be_buf_def)
    ultimately show ?thesis
      using part_set_bytes [OF p, of m] by (simp add: s update_rest_def Let_def)
  qed
qed

lemma part_update:
  assumes p: "part ctx pre rest" and r: "length rest < 128"
  obtains pre' rest' where "part (crypto_sha512_update ctx m) pre' rest'" "length rest' < 128"
    "pre' @ rest' = pre @ rest @ m"
proof (cases "m = []")
  case True
  then show ?thesis using that assms by (auto simp: crypto_sha512_update_def)
next
  case False
  let ?S = "pre @ rest @ m"
  have "fed ?S (m, ctx) pre rest" using p by (simp add: fed_def)
  then obtain rest1 where "fed ?S (update_word_align (m, ctx)) pre rest1"
    "8 dvd length rest1 \<or> fst (update_word_align (m, ctx)) = []"
    using r by (rule fed_word_align)
  then obtain rest2 where "fed ?S (update_block_align (update_word_align (m, ctx))) pre rest2"
    "rest2 = [] \<or> length rest2 = 128 \<or> short rest2 (fst (update_block_align (update_word_align (m, ctx))))"
    by (rule fed_block_align)
  then obtain pre3 rest3 where 3: "fed ?S (update_full_block (update_block_align (update_word_align (m, ctx)))) pre3 rest3"
    "rest3 = [] \<or> short rest3 (fst (update_full_block (update_block_align (update_word_align (m, ctx)))))"
    by (rule fed_full_block)
  define s where "s = update_full_block (update_block_align (update_word_align (m, ctx)))"
  define s' where "s' = update_blocks (length (fst s) div 128) s"
  obtain pre4 where 4: "fed ?S s' pre4 rest3" "rest3 = [] \<and> length (fst s') < 128 \<or> short rest3 (fst s')"
  proof (cases "rest3 = []")
    case True
    then have "\<exists>pre'. fed ?S s' pre' [] \<and> length (fst s') = length (fst s) - 128 * (length (fst s) div 128)"
      using fed_blocks [of ?S s pre3 "length (fst s) div 128"] 3(1) by (simp add: s_def s'_def)
    then show ?thesis using that True by (auto simp: minus_mult_div_eq_mod)
  next
    case False
    then have "s' = s" "short rest3 (fst s)" using 3(2) by (auto simp: s'_def s_def short_def)
    then show ?thesis using that [of pre3] 3(1) by (simp add: s_def)
  qed
  have "crypto_sha512_update ctx m = update_rest s'"
    using False by (simp add: crypto_sha512_update_def s_def s'_def Let_def)
  moreover have "length (rest3 @ fst s') < 128" using 4(2) by (auto simp: short_def)
  ultimately show ?thesis
    using that [of pre4 "rest3 @ fst s'"] part_update_rest [OF 4] 4(1) by (simp add: fed_def)
qed

section \<open>The hash\<close>

lemma length_store64_be [simp]: "length (store64_be x) = 8"
  by (simp add: store64_be_eq)

lemma load64_be_buf_append_words:
  assumes "length a = 112"
  shows "load64_be_buf (a @ store64_be x @ store64_be y) 16 = (load64_be_buf a 16)[14 := x, 15 := y]"
proof (rule nth_equalityI)
  fix i assume "i < length (load64_be_buf (a @ store64_be x @ store64_be y) 16)"
  then consider "i < 14" | "i = 14" | "i = 15" by fastforce
  then show "load64_be_buf (a @ store64_be x @ store64_be y) 16 ! i = (load64_be_buf a 16)[14 := x, 15 := y] ! i"
  proof cases
    case 1
    then have "load64_be (drop (8 * i) (a @ store64_be x @ store64_be y)) = load64_be (drop (8 * i) a)"
      by (intro load64_be_cong) (simp add: byte_at_drop byte_at_append assms del: drop_append)
    then show ?thesis using 1 by simp
  next
    case 2
    have "load64_be (store64_be x @ store64_be y) = load64_be (store64_be x)"
      by (intro load64_be_cong) (simp add: byte_at_append store64_be_eq)
    then show ?thesis using 2 by (simp add: assms)
  next
    case 3
    then show ?thesis by (simp add: assms)
  qed
qed simp

lemma load64_be_buf_zeros: "load64_be_buf (a @ replicate n 0) k = load64_be_buf a k"
  by (auto simp: load64_be_buf_def byte_at_drop byte_at_append intro!: load64_be_cong simp del: drop_append)
    (auto simp: byte_at_def)

lemma load64_be_buf_Nil: "load64_be_buf [] n = replicate n 0"
  by (simp add: load64_be_buf_def load64_be_def byte_at_def map_replicate_const)

definition last_block :: "u64 list \<Rightarrow> u64 list \<Rightarrow> nat \<Rightarrow> bytes" where
  "last_block H M n = concat (map store64_be (hash_block H (M[14 := of_nat (n div 2 ^ 64), 15 := of_nat n])))"

lemma final_eq:
  assumes p: "part ctx pre rest" and r: "length rest < 128"
  shows "crypto_sha512_final ctx =
    (let H = foldl hash_block sha512_h0 (blocks pre); M = load64_be_buf (rest @ [128]) 16; n = 8 * length (pre @ rest)
     in if length rest > 111 then last_block (hash_block H M) (replicate 16 0) n else last_block H M n)"
proof -
  let ?M = "load64_be_buf (rest @ [128]) 16" and ?H = "foldl hash_block sha512_h0 (blocks pre)"
  let ?n = "8 * length (pre @ rest)"
  have in_: "sc_input (sha512_set_input ctx 128) = ?M"
    by (rule part_set_input(2) [OF p r])
  have compress: "sc_hash (sha512_compress c) = hash_block (sc_hash c) (sc_input c)"
    "length (sc_input (sha512_compress c)) = 16" "sc_input_size (sha512_compress c) = sc_input_size c"
    if "length (sc_input c) = 16" for c
    by (rule sha512_compress_hash [OF that], simp)+
  have "(if sc_input_idx ctx = 0 then ctx \<lparr> sc_input := replicate 16 0 \<rparr> else ctx) = ctx"
    using p by (auto simp: part_def load64_be_buf_Nil)
  moreover have "sha512_set_input ctx 128 = ctx \<lparr> sc_input := ?M \<rparr>"
    using in_ by (simp add: sha512_set_input_def Let_def)
  moreover have "sha512_incr (sc_input_size ctx) (of_nat (sc_input_idx ctx * 8)) = size128 ?n"
    using sha512_incr_size128 [of "length rest * 8" "8 * length pre"] p r by (simp add: part_def algebra_simps)
  ultimately have final: "crypto_sha512_final ctx =
      (let ctx = ctx \<lparr> sc_input := ?M, sc_input_size := size128 ?n \<rparr>;
           ctx = (if length rest > 111 then let ctx = sha512_compress ctx
                  in ctx \<lparr> sc_input := mem_write 0 (replicate 14 0) (sc_input ctx) \<rparr> else ctx);
           ctx = ctx \<lparr> sc_input := (sc_input ctx)[14 := fst (size128 ?n), 15 := snd (size128 ?n)] \<rparr>
       in concat (map store64_be (sc_hash (sha512_compress ctx))))"
    using p unfolding crypto_sha512_final_def by (simp add: part_def Let_def compress cong: if_cong)
  have upd: "(mem_write 0 (replicate 14 0) I)[14 := x, 15 := y] = (replicate 16 0)[14 := x, 15 := y :: u64]"
    if "length I = 16" for I x y
    using that by (intro nth_equalityI) (auto simp: nth_list_update mem_write_def nth_append)
  show ?thesis
    using p unfolding final
    by (simp add: part_def Let_def compress upd last_block_def size128_def)
qed

text \<open>The last block, with the length in its last two words, closes the padded message.\<close>

lemma last_block_pad:
  assumes "128 dvd length a" "length b = 112"
  shows "last_block (foldl hash_block sha512_h0 (blocks a)) (load64_be_buf b 16) n =
    concat (map store64_be (foldl hash_block sha512_h0 (blocks (a @ b @ be_bytes 16 n))))"
proof -
  have "blocks (b @ be_bytes 16 n) = [(load64_be_buf b 16)[14 := of_nat (n div 2 ^ 64), 15 := of_nat n]]"
    using assms(2) load64_be_buf_append_words [OF assms(2)]
    by (subst blocks_one) (simp_all only: be_bytes_16, simp_all add: store64_be_eq)
  then show ?thesis
    by (simp add: last_block_def blocks_append [OF assms(1)])
qed

lemma final_part:
  assumes p: "part ctx pre rest" and r: "length rest < 128"
  shows "crypto_sha512_final ctx = sha512 (pre @ rest)"
proof -
  let ?n = "8 * length (pre @ rest)"
  have pre: "128 dvd length pre" using p by (simp add: part_def)
  then have m: "length (pre @ rest) mod 128 = length rest" using r by (auto elim!: dvdE)
  show ?thesis
  proof (cases "length rest > 111")
    case False
    let ?b = "rest @ 128 # replicate (111 - length rest) 0"
    have "(239 - length rest) mod 128 = 111 - length rest" using False by (simp add: mod_if)
    then have "sha512_pad (pre @ rest) = pre @ ?b @ be_bytes 16 ?n"
      by (simp only: sha512_pad_def m) simp
    moreover have "load64_be_buf (rest @ [128]) 16 = load64_be_buf ?b 16"
      using load64_be_buf_zeros [of "rest @ [128]"] by simp
    ultimately show ?thesis
      using False last_block_pad [OF pre, of ?b ?n] by (simp add: final_eq [OF p r] sha512_def)
  next
    case True
    let ?a = "rest @ 128 # replicate (127 - length rest) 0" and ?b = "replicate 112 0 :: bytes"
    have "(239 - length rest) mod 128 = (127 - length rest) + 112" using True r by (simp add: mod_if)
    then have "sha512_pad (pre @ rest) = (pre @ ?a) @ ?b @ be_bytes 16 ?n"
      by (simp only: sha512_pad_def m replicate_add) simp
    moreover have "load64_be_buf (rest @ [128]) 16 = load64_be_buf ?a 16"
      using load64_be_buf_zeros [of "rest @ [128]"] by simp
    moreover have "length ?a = 128" using r by simp
    moreover from this have "blocks (pre @ ?a) = blocks pre @ [load64_be_buf ?a 16]"
      by (simp only: blocks_append [OF pre] blocks_one)
    moreover have "load64_be_buf ?b 16 = replicate 16 0"
      using load64_be_buf_zeros [of "[]"] by (simp add: load64_be_buf_Nil)
    moreover have "128 dvd length (pre @ ?a)" using pre \<open>length ?a = 128\<close> by simp
    ultimately show ?thesis
      using True last_block_pad [of "pre @ ?a" ?b ?n] by (simp add: final_eq [OF p r] sha512_def)
  qed
qed

lemma part_updates:
  "part ctx pre rest \<Longrightarrow> length rest < 128 \<Longrightarrow>
   \<exists>pre' rest'. part (foldl crypto_sha512_update ctx ms) pre' rest' \<and> length rest' < 128 \<and>
     pre' @ rest' = pre @ rest @ concat ms"
proof (induction ms arbitrary: ctx pre rest)
  case Nil
  then show ?case by auto
next
  case (Cons m ms)
  obtain pre' rest' where "part (crypto_sha512_update ctx m) pre' rest'" "length rest' < 128"
    "pre' @ rest' = pre @ rest @ m"
    using Cons.prems by (rule part_update)
  then show ?case
    using Cons.IH [of "crypto_sha512_update ctx m" pre' rest'] by (metis append.assoc concat.simps(2) foldl_Cons)
qed

theorem sha512_updates_correct:
  "crypto_sha512_final (foldl crypto_sha512_update crypto_sha512_init ms) = sha512 (concat ms)"
  using part_updates [OF part_init, of ms] final_part by fastforce

lemma crypto_sha512_eq: "crypto_sha512 m = sha512 m"
proof -
  obtain pre' rest' where "part (crypto_sha512_update crypto_sha512_init m) pre' rest'" "length rest' < 128"
    "pre' @ rest' = m"
    using part_updates [OF part_init, of "[m]"] by auto
  then show ?thesis using final_part by (auto simp: crypto_sha512_def)
qed

section \<open>HMAC and HKDF\<close>

record sha512_hmac_ctx =
  hc_key :: bytes
  hc_ctx :: sha512_ctx

text \<open>\<open>crypto_sha512_hmac_init\<close> writes the whole context: its result does not depend on the one it is given.\<close>

definition crypto_sha512_hmac_init :: "bytes \<Rightarrow> sha512_hmac_ctx" where
  "crypto_sha512_hmac_init key =
     (let key = (if length key > 128 then crypto_sha512 key else key);
          padded = map (\<lambda>b. b XOR 0x36) key @ replicate (128 - length key) 0x36
      in \<lparr> hc_key = padded, hc_ctx = crypto_sha512_update crypto_sha512_init padded \<rparr>)"

definition crypto_sha512_hmac_update :: "sha512_hmac_ctx \<Rightarrow> bytes \<Rightarrow> sha512_hmac_ctx" where
  "crypto_sha512_hmac_update ctx message =
     ctx \<lparr> hc_ctx := crypto_sha512_update (hc_ctx ctx) message \<rparr>"

definition crypto_sha512_hmac_final :: "sha512_hmac_ctx \<Rightarrow> bytes" where
  "crypto_sha512_hmac_final ctx =
     (let hmac = crypto_sha512_final (hc_ctx ctx);
          key = map (\<lambda>b. b XOR (0x36 XOR 0x5c)) (hc_key ctx);
          c = crypto_sha512_update crypto_sha512_init key;
          c = crypto_sha512_update c hmac
      in crypto_sha512_final c)"

definition crypto_sha512_hmac :: "bytes \<Rightarrow> bytes \<Rightarrow> bytes" where
  "crypto_sha512_hmac key message =
     crypto_sha512_hmac_final (crypto_sha512_hmac_update (crypto_sha512_hmac_init key) message)"

text \<open>
  \<open>while (okm_size > 0)\<close> with \<open>blk\<close> the previous block (nothing the first time, where
  \<open>not_first\<close> is 0) and \<open>ctr\<close> the counter: the bytes that are written at \<open>okm\<close>.
\<close>

function hkdf_loop :: "bytes \<Rightarrow> bytes \<Rightarrow> bytes option \<Rightarrow> byte \<Rightarrow> nat \<Rightarrow> bytes" where
  "hkdf_loop prk info blk ctr okm_size =
     (if okm_size > 0 then
        let out_size = min okm_size 64;
            ctx = crypto_sha512_hmac_init prk;
            ctx = (case blk of None \<Rightarrow> ctx | Some blk \<Rightarrow> crypto_sha512_hmac_update ctx blk);
            ctx = crypto_sha512_hmac_update ctx info;
            ctx = crypto_sha512_hmac_update ctx [ctr];
            blk = crypto_sha512_hmac_final ctx
        in take out_size blk @ hkdf_loop prk info (Some blk) (ctr + 1) (okm_size - out_size)
      else [])"
  by auto
termination by (relation "measure (\<lambda>(prk, info, blk, ctr, okm_size). okm_size)") auto

declare hkdf_loop.simps [simp del]

definition crypto_sha512_hkdf_expand :: "nat \<Rightarrow> bytes \<Rightarrow> bytes \<Rightarrow> bytes" where
  "crypto_sha512_hkdf_expand okm_size prk info = hkdf_loop prk info None 1 okm_size"

definition crypto_sha512_hkdf :: "nat \<Rightarrow> bytes \<Rightarrow> bytes \<Rightarrow> bytes \<Rightarrow> bytes" where
  "crypto_sha512_hkdf okm_size ikm salt info =
     (let prk = crypto_sha512_hmac salt ikm in crypto_sha512_hkdf_expand okm_size prk info)"

text \<open>RFC 2104 with the block length 128, and RFC 5869 with the hash length 64.\<close>

definition hmac_key :: "bytes \<Rightarrow> bytes" where
  "hmac_key key = (let k = (if length key > 128 then sha512 key else key) in k @ replicate (128 - length k) 0)"

definition hmac_sha512 :: "bytes \<Rightarrow> bytes \<Rightarrow> bytes" where
  "hmac_sha512 key m =
     (let ipad = map (\<lambda>b. b XOR 0x36) (hmac_key key); opad = map (\<lambda>b. b XOR 0x5c) (hmac_key key)
      in sha512 (opad @ sha512 (ipad @ m)))"

primrec hkdf_block :: "bytes \<Rightarrow> bytes \<Rightarrow> nat \<Rightarrow> bytes" where
  "hkdf_block prk info 0 = []"
| "hkdf_block prk info (Suc n) = hmac_sha512 prk (hkdf_block prk info n @ info @ [of_nat (Suc n)])"

definition hkdf_sha512 :: "nat \<Rightarrow> bytes \<Rightarrow> bytes \<Rightarrow> bytes \<Rightarrow> bytes" where
  "hkdf_sha512 L ikm salt info =
     (let prk = hmac_sha512 salt ikm
      in take L (concat (map (\<lambda>i. hkdf_block prk info (Suc i)) [0..<(L + 63) div 64])))"

lemma length_sha512: "length (sha512 m) = 64"
proof -
  have "length (concat (map store64_be H)) = 8 * length H" for H by (induction H) simp_all
  moreover have "length (foldl hash_block H bs) = 8" if "length H = 8" for H bs
    using that by (induction bs arbitrary: H) (simp_all add: hash_block_def Let_def split: prod.split)
  moreover have "length sha512_h0 = 8" by (simp add: sha512_h0_def)
  ultimately show ?thesis by (simp add: sha512_def)
qed

lemma hmac_updates:
  "crypto_sha512_hmac_final (foldl crypto_sha512_hmac_update (crypto_sha512_hmac_init key) ms) =
   hmac_sha512 key (concat ms)"
proof -
  let ?k = "if length key > 128 then sha512 key else key"
  let ?ipad = "map (\<lambda>b. b XOR 0x36) (hmac_key key)"
  have init: "crypto_sha512_hmac_init key = \<lparr> hc_key = ?ipad, hc_ctx = crypto_sha512_update crypto_sha512_init ?ipad \<rparr>"
    by (simp add: crypto_sha512_hmac_init_def crypto_sha512_eq hmac_key_def Let_def map_replicate_const)
  have upd: "foldl crypto_sha512_hmac_update c ms =
      \<lparr> hc_key = hc_key c, hc_ctx = foldl crypto_sha512_update (hc_ctx c) ms \<rparr>" for c
    by (induction ms arbitrary: c) (simp_all add: crypto_sha512_hmac_update_def)
  have opad: "map (\<lambda>b. b XOR (0x36 XOR 0x5c)) ?ipad = map (\<lambda>b. b XOR 0x5c) (hmac_key key)"
  proof -
    have "(b XOR 0x36) XOR (0x36 XOR 0x5c) = b XOR 0x5c" for b :: byte
      by (metis xor.assoc xor.left_neutral xor_self_eq xor.right_neutral)
    then show ?thesis unfolding map_map by (intro map_cong refl) (simp only: o_apply)
  qed
  show ?thesis
    using sha512_updates_correct [of "?ipad # ms"]
      sha512_updates_correct [of "[map (\<lambda>b. b XOR 0x5c) (hmac_key key), sha512 (?ipad @ concat ms)]"]
    unfolding crypto_sha512_hmac_final_def upd init hmac_sha512_def Let_def
    by (simp only: foldl.simps sha512_hmac_ctx.simps opad concat.simps append_Nil2)
qed

lemma crypto_sha512_hmac_eq: "crypto_sha512_hmac key m = hmac_sha512 key m"
  using hmac_updates [of key "[m]"] by (simp add: crypto_sha512_hmac_def)

lemma hkdf_loop_eq:
  "hkdf_loop prk info (if n = 0 then None else Some (hkdf_block prk info n)) (of_nat (Suc n)) L =
   take L (concat (map (\<lambda>i. hkdf_block prk info (Suc (n + i))) [0..<(L + 63) div 64]))"
proof (induction L arbitrary: n rule: less_induct)
  case (less L)
  show ?case
  proof (cases "L = 0")
    case True
    then show ?thesis by (simp add: hkdf_loop.simps)
  next
    case False
    let ?blk = "if n = 0 then None else Some (hkdf_block prk info n)"
    have blk: "crypto_sha512_hmac_final (crypto_sha512_hmac_update (crypto_sha512_hmac_update
        (case ?blk of None \<Rightarrow> crypto_sha512_hmac_init prk
         | Some blk \<Rightarrow> crypto_sha512_hmac_update (crypto_sha512_hmac_init prk) blk) info) [of_nat (Suc n)]) =
        hkdf_block prk info (Suc n)"
      using hmac_updates [of prk "[info, [of_nat (Suc n)]]"]
        hmac_updates [of prk "[hkdf_block prk info n, info, [of_nat (Suc n)]]"] by (cases n) simp_all
    have len: "length (hkdf_block prk info (Suc n)) = 64"
      by (simp add: hmac_sha512_def Let_def length_sha512)
    have blocks: "(L + 63) div 64 = Suc ((L - min L 64 + 63) div 64)" using False by (cases "L \<le> 64"; simp add: min_def; presburger)
    have "hkdf_loop prk info ?blk (of_nat (Suc n)) L = take (min L 64) (hkdf_block prk info (Suc n)) @
        hkdf_loop prk info (Some (hkdf_block prk info (Suc n))) (of_nat (Suc n) + 1) (L - min L 64)"
      using False blk by (subst hkdf_loop.simps) (simp add: Let_def)
    also have "\<dots> = take L (concat (map (\<lambda>i. hkdf_block prk info (Suc (n + i))) [0..<(L + 63) div 64]))"
    proof -
      have "hkdf_loop prk info (Some (hkdf_block prk info (Suc n))) (of_nat (Suc n) + 1) (L - min L 64) =
          take (L - min L 64) (concat (map (\<lambda>i. hkdf_block prk info (Suc (Suc n + i))) [0..<(L - min L 64 + 63) div 64]))"
        using less.IH [of "L - min L 64" "Suc n"] False by (simp del: hkdf_block.simps add: add.commute)
      moreover have "take L (a @ b) = take (min L 64) a @ take (L - min L 64) b" if "length a = 64" for a b :: bytes
        using that by (cases "L \<le> 64") (simp_all add: min_def)
      ultimately show ?thesis
        using len unfolding blocks upt_conv_Cons [OF zero_less_Suc] map_Suc_upt [symmetric]
        by (simp del: hkdf_block.simps add: o_def)
    qed
    finally show ?thesis .
  qed
qed

lemma crypto_sha512_hkdf_eq: "crypto_sha512_hkdf L ikm salt info = hkdf_sha512 L ikm salt info"
  using hkdf_loop_eq [of "hmac_sha512 salt ikm" info 0 L]
  by (simp add: crypto_sha512_hkdf_def crypto_sha512_hkdf_expand_def hkdf_sha512_def crypto_sha512_hmac_eq Let_def)

section \<open>The interface of an incremental hash\<close>

text \<open>
  What the callers of a hash that is fed in pieces rely on: only the concatenation of the pieces counts.
\<close>

locale incremental_hash =
  fixes init :: 'c
    and update :: "'c \<Rightarrow> bytes \<Rightarrow> 'c"
    and final :: "'c \<Rightarrow> bytes"
    and digest :: "bytes \<Rightarrow> bytes"
  assumes final_updates: "final (foldl update init ms) = digest (concat ms)"
begin

lemma one_piece: "final (update init m) = digest m"
  using final_updates [of "[m]"] by simp

lemma four_pieces: "final (update (update (update (update init a) b) c) d) = digest (a @ b @ c @ d)"
  using final_updates [of "[a, b, c, d]"] by simp

lemma only_concatenation_counts: "concat ms = concat ns \<Longrightarrow> final (foldl update init ms) = final (foldl update init ns)"
  by (simp only: final_updates)

end

interpretation sha: incremental_hash crypto_sha512_init crypto_sha512_update crypto_sha512_final sha512
  by unfold_locales (rule sha512_updates_correct)

interpretation hmac: incremental_hash "crypto_sha512_hmac_init key" crypto_sha512_hmac_update
    crypto_sha512_hmac_final "hmac_sha512 key" for key
  by unfold_locales (rule hmac_updates)

section \<open>Properties\<close>

text \<open>
  C8. However a message is cut into the pieces of successive updates, empty ones included, the digest is
  SHA-512 of the whole message.
\<close>

theorem sha512_incremental:
  "crypto_sha512_final (foldl crypto_sha512_update crypto_sha512_init ms) = sha512 (concat ms)"
  by (rule sha512_updates_correct)

text \<open>
  The keyed hash over any pieces is HMAC-SHA-512 of their concatenation, keys longer than a block
  included, and the key derivation returns the first bytes of the HKDF blocks.
\<close>

theorem hmac_hkdf_standard:
  "crypto_sha512_hmac_final (foldl crypto_sha512_hmac_update (crypto_sha512_hmac_init key) ms) =
     hmac_sha512 key (concat ms) \<and>
   crypto_sha512_hkdf okm_size ikm salt info = hkdf_sha512 okm_size ikm salt info"
  by (intro conjI hmac_updates crypto_sha512_hkdf_eq)

end
