(* ===== verification/Mono_Base.thy ===== *)
theory Mono_Base
  imports Mesh_Prelude
begin

text \<open>
  The utilities at the head of \<open>support/crypto/monocypher.c\<close>: little-endian loads and stores, rotations
  and the comparison in constant time; and the number that a list of little-endian digits stands for,
  in which the arithmetic of the file is specified.  A pointer into a buffer is the list of the bytes
  from there on.
\<close>

type_synonym u64 = "64 word"

section \<open>Loads, stores and rotations\<close>

definition gap :: "nat \<Rightarrow> nat \<Rightarrow> nat" where
  "gap x pow_2 = unat ((NOT (of_nat x) + 1 :: u32) AND (of_nat pow_2 - 1))"

definition load24_le :: "bytes \<Rightarrow> u32" where
  "load24_le s = push_bit 0 (ucast (byte_at s 0)) OR push_bit 8 (ucast (byte_at s 1))
     OR push_bit 16 (ucast (byte_at s 2))"

definition load32_le :: "bytes \<Rightarrow> u32" where
  "load32_le s = push_bit 0 (ucast (byte_at s 0)) OR push_bit 8 (ucast (byte_at s 1))
     OR push_bit 16 (ucast (byte_at s 2)) OR push_bit 24 (ucast (byte_at s 3))"

definition load64_le :: "bytes \<Rightarrow> u64" where
  "load64_le s = ucast (load32_le s) OR push_bit 32 (ucast (load32_le (drop 4 s)))"

definition store32_le :: "u32 \<Rightarrow> bytes" where
  "store32_le x = [ucast (x AND 0xff), ucast (drop_bit 8 x AND 0xff), ucast (drop_bit 16 x AND 0xff),
     ucast (drop_bit 24 x AND 0xff)]"

definition store64_le :: "u64 \<Rightarrow> bytes" where
  "store64_le x = store32_le (ucast x) @ store32_le (ucast (drop_bit 32 x))"

definition load32_le_buf :: "bytes \<Rightarrow> nat \<Rightarrow> u32 list" where
  "load32_le_buf src n = map (\<lambda>i. load32_le (drop (4 * i) src)) [0..<n]"

definition load64_le_buf :: "bytes \<Rightarrow> nat \<Rightarrow> u64 list" where
  "load64_le_buf src n = map (\<lambda>i. load64_le (drop (8 * i) src)) [0..<n]"

definition store32_le_buf :: "u32 list \<Rightarrow> bytes" where
  "store32_le_buf src = concat (map store32_le src)"

definition store64_le_buf :: "u64 list \<Rightarrow> bytes" where
  "store64_le_buf src = concat (map store64_le src)"

definition rotr64 :: "u64 \<Rightarrow> nat \<Rightarrow> u64" where
  "rotr64 x n = drop_bit n x XOR push_bit (64 - n) x"

definition rotl32 :: "u32 \<Rightarrow> nat \<Rightarrow> u32" where
  "rotl32 x n = push_bit n x XOR drop_bit (32 - n) x"

section \<open>Comparison in constant time\<close>

text \<open>The result is converted to \<open>int\<close>: all ones is -1.\<close>

definition neq0 :: "u64 \<Rightarrow> int" where
  "neq0 diff =
     (let half = drop_bit 32 diff OR ucast (ucast diff :: u32)
      in sint (ucast ((1 AND drop_bit 32 (half - 1)) - 1) :: u32))"

definition x16 :: "bytes \<Rightarrow> bytes \<Rightarrow> u64" where
  "x16 a b = (load64_le a XOR load64_le b) OR (load64_le (drop 8 a) XOR load64_le (drop 8 b))"

definition x32 :: "bytes \<Rightarrow> bytes \<Rightarrow> u64" where
  "x32 a b = x16 a b OR x16 (drop 16 a) (drop 16 b)"

definition x64 :: "bytes \<Rightarrow> bytes \<Rightarrow> u64" where
  "x64 a b = x32 a b OR x32 (drop 32 a) (drop 32 b)"

definition crypto_verify16 :: "bytes \<Rightarrow> bytes \<Rightarrow> int" where
  "crypto_verify16 a b = neq0 (x16 a b)"

definition crypto_verify32 :: "bytes \<Rightarrow> bytes \<Rightarrow> int" where
  "crypto_verify32 a b = neq0 (x32 a b)"

definition crypto_verify64 :: "bytes \<Rightarrow> bytes \<Rightarrow> int" where
  "crypto_verify64 a b = neq0 (x64 a b)"

section \<open>The number of a list of digits\<close>

text \<open>\<open>num ws\<close>: little-endian digits in base \<open>2 ^ LENGTH('a)\<close>, bytes as well as words.\<close>

primrec num :: "'a::len word list \<Rightarrow> nat" where
  "num [] = 0"
| "num (w # ws) = unat w + 2 ^ LENGTH('a) * num ws"

lemma num_append: "num (xs @ ys :: 'a::len word list) = num xs + 2 ^ (LENGTH('a) * length xs) * num ys"
  by (induction xs) (simp_all add: power_add algebra_simps)

lemma num_less: "num (xs :: 'a::len word list) < 2 ^ (LENGTH('a) * length xs)"
proof (induction xs)
  case (Cons x xs)
  have "unat x < 2 ^ LENGTH('a)" by (rule unsigned_less)
  moreover have "2 ^ LENGTH('a) * (num xs + 1) \<le> 2 ^ LENGTH('a) * 2 ^ (LENGTH('a) * length xs)"
    using Cons by (intro mult_le_mono) auto
  ultimately have "unat x + 2 ^ LENGTH('a) * num xs < 2 ^ LENGTH('a) * 2 ^ (LENGTH('a) * length xs)"
    by (simp only: distrib_left mult_1_right)
  then show ?case by (simp add: power_add algebra_simps)
qed simp

lemma num_zeros [simp]: "num (replicate n 0) = 0"
  by (induction n) simp_all

lemma num_inj: "length xs = length ys \<Longrightarrow> num xs = num ys \<Longrightarrow> xs = (ys :: 'a::len word list)"
proof (induction xs ys rule: list_induct2)
  case (Cons x xs y ys)
  have e: "unat x + 2 ^ LENGTH('a) * num xs = unat y + 2 ^ LENGTH('a) * num ys" using Cons.prems by simp
  have "unat x = (unat x + 2 ^ LENGTH('a) * num xs) mod 2 ^ LENGTH('a)"
    "unat y = (unat y + 2 ^ LENGTH('a) * num ys) mod 2 ^ LENGTH('a)"
    using unsigned_less [of x, where ?'a = nat] unsigned_less [of y, where ?'a = nat]
    by (simp_all only: mod_mult_self2 mod_less)
  then have "unat x = unat y" unfolding e by simp
  then show ?case using e Cons.IH by (auto intro: unsigned_word_eqI [where ?'a = nat])
qed simp

lemma num_take: "num (take n xs :: 'a::len word list) = num xs mod 2 ^ (LENGTH('a) * n)"
proof (cases "n \<le> length xs")
  case True
  have "num xs = num (take n xs) + 2 ^ (LENGTH('a) * n) * num (drop n xs)"
    using num_append [of "take n xs" "drop n xs"] True by (simp add: min_def)
  moreover have "num (take n xs) < 2 ^ (LENGTH('a) * n)" using num_less [of "take n xs"] True by (simp only: length_take min_absorb2)
  ultimately show ?thesis by simp
next
  case False
  then have "num xs < 2 ^ (LENGTH('a) * n)"
    by (intro less_le_trans [OF num_less]) simp
  then show ?thesis using False by simp
qed

lemma num_drop: "num (drop n xs :: 'a::len word list) = num xs div 2 ^ (LENGTH('a) * n)"
proof (cases "n \<le> length xs")
  case True
  have "num xs = num (take n xs) + 2 ^ (LENGTH('a) * n) * num (drop n xs)"
    using num_append [of "take n xs" "drop n xs"] True by (simp add: min_def)
  moreover have "num (take n xs) < 2 ^ (LENGTH('a) * n)" using num_less [of "take n xs"] True by (simp only: length_take min_absorb2)
  ultimately show ?thesis by simp
next
  case False
  then have "num xs < 2 ^ (LENGTH('a) * n)"
    by (intro less_le_trans [OF num_less]) simp
  then show ?thesis using False by simp
qed

lemma upt_bytes:
  "[0..<3] = [0, 1, 2::nat]" "[0..<4] = [0, 1, 2, 3::nat]" "[0..<8] = [0, 1, 2, 3, 4, 5, 6, 7::nat]"
  by (simp_all add: upt_rec)

lemma or_push_bit_nat: "x < 2 ^ k \<Longrightarrow> x OR push_bit k y = x + 2 ^ k * (y :: nat)"
proof -
  assume "x < 2 ^ k"
  then have "take_bit k x = x" by (simp add: take_bit_nat_eq_self)
  then have "\<not> bit x n" if "k \<le> n" for n
    using that by (metis bit_take_bit_iff not_le)
  then have "x AND push_bit k y = 0"
    by (intro bit_eqI) (auto simp: bit_simps)
  then show ?thesis
    using disjunctive_add_eq_or [of x "push_bit k y"] by (simp add: push_bit_eq_mult mult.commute)
qed

lemma byte_nat_less: "unat (b :: byte) < 2 ^ 8"
  using unsigned_less [of b, where ?'a = nat] by simp

lemma unat_load32_le: "unat (load32_le s) = num (map (byte_at s) [0..<4])"
proof -
  let ?b = "\<lambda>i. unat (byte_at s i)"
  have b: "take_bit 32 (?b i) = ?b i" "take_bit 24 (?b i) = ?b i" "take_bit 16 (?b i) = ?b i" "take_bit 8 (?b i) = ?b i" for i
    using byte_nat_less [of "byte_at s i"] by (simp_all add: take_bit_nat_eq_self)
  have "unat (load32_le s) = ?b 0 OR push_bit 8 (?b 1 OR push_bit 8 (?b 2 OR push_bit 8 (?b 3)))"
    by (simp add: load32_le_def unsigned_or_eq unsigned_push_bit_eq unsigned_ucast_eq take_bit_push_bit push_bit_or b)
  also have "\<dots> = num (map (byte_at s) [0..<4])"
    by (simp only: or_push_bit_nat [OF byte_nat_less]) (simp add: upt_bytes)
  finally show ?thesis .
qed

lemma unat_load24_le: "unat (load24_le s) = num (map (byte_at s) [0..<3])"
proof -
  let ?b = "\<lambda>i. unat (byte_at s i)"
  have b: "take_bit 32 (?b i) = ?b i" "take_bit 24 (?b i) = ?b i" "take_bit 16 (?b i) = ?b i" "take_bit 8 (?b i) = ?b i" for i
    using byte_nat_less [of "byte_at s i"] by (simp_all add: take_bit_nat_eq_self)
  have "unat (load24_le s) = ?b 0 OR push_bit 8 (?b 1 OR push_bit 8 (?b 2))"
    by (simp add: load24_le_def unsigned_or_eq unsigned_push_bit_eq unsigned_ucast_eq take_bit_push_bit push_bit_or b)
  also have "\<dots> = num (map (byte_at s) [0..<3])"
    by (simp only: or_push_bit_nat [OF byte_nat_less]) (simp add: upt_bytes)
  finally show ?thesis .
qed

lemma unat_load64_le: "unat (load64_le s) = num (map (byte_at s) [0..<8])"
proof -
  let ?l = "unat (load32_le s)" and ?h = "unat (load32_le (drop 4 s))"
  have lt: "unat (x :: u32) < 2 ^ 32" for x
    using unsigned_less [of x, where ?'a = nat] by simp
  have b: "take_bit 64 ?l = ?l" "take_bit 32 ?h = ?h"
    using lt [of "load32_le s"] lt [of "load32_le (drop 4 s)"] by (simp_all add: take_bit_nat_eq_self)
  have "byte_at (drop 4 s) i = byte_at s (i + 4)" for i by (auto simp: byte_at_def add.commute)
  then have d: "map (byte_at (drop 4 s)) [0..<4] = map (byte_at s) [4..<8]"
    by (simp add: upt_rec)
  have "unat (load64_le s) = ?l OR push_bit 32 ?h"
    using b by (simp add: load64_le_def unsigned_or_eq unsigned_push_bit_eq unsigned_ucast_eq take_bit_push_bit)
  also have "\<dots> = num (map (byte_at s) [0..<8])"
    unfolding or_push_bit_nat [OF lt] unfolding unat_load32_le d by (simp add: upt_bytes)
  finally show ?thesis .
qed

lemma ucast_and_byte: "unat (ucast (x AND 0xff) :: byte) = unat x mod 256"
  for x :: u32
proof -
  have mask: "(0xff :: u32) = mask 8" by (simp add: mask_eq_exp_minus_1)
  have "ucast (x AND 0xff) = (ucast x :: byte)"
    unfolding mask by (intro bit_word_eqI) (simp only: bit_simps, simp)
  then show ?thesis by (simp add: unsigned_ucast_eq take_bit_eq_mod)
qed

lemma num_store32_le: "num (store32_le x) = unat x"
proof -
  define n where "n = unat x"
  have n: "n < 2 ^ 32" using unsigned_less [of x, where ?'a = nat] by (simp add: n_def)
  have d: "unat (drop_bit k x) = n div 2 ^ k" for k
    by (simp only: n_def unat_drop_bit_eq) (simp add: drop_bit_eq_div)
  have "num (store32_le x) = n mod 256 + 256 * (n div 256 mod 256 + 256 * (n div 65536 mod 256 + 256 * (n div 16777216 mod 256)))"
    using d [of 8] d [of 16] d [of 24] by (simp add: store32_le_def ucast_and_byte n_def del: drop_bit_eq_div)
  also have "n div 16777216 mod 256 = n div 16777216" using n by simp
  also have "n div 16777216 = n div 65536 div 256" by (simp add: div_mult2_eq [symmetric])
  also have "n div 65536 mod 256 + 256 * (n div 65536 div 256) = n div 65536" by simp
  also have "n div 65536 = n div 256 div 256" by (simp add: div_mult2_eq [symmetric])
  also have "n div 256 mod 256 + 256 * (n div 256 div 256) = n div 256" by simp
  finally show ?thesis by (simp add: n_def)
qed

lemma length_store32_le [simp]: "length (store32_le x) = 4"
  by (simp add: store32_le_def)

lemma length_store32_le_buf [simp]: "length (store32_le_buf ws) = 4 * length ws"
  by (induction ws) (simp_all add: store32_le_buf_def)

lemma length_store64_le_buf [simp]: "length (store64_le_buf ws) = 8 * length ws"
  by (induction ws) (simp_all add: store64_le_buf_def store64_le_def)

lemma length_load32_le_buf [simp]: "length (load32_le_buf bs n) = n"
  by (simp add: load32_le_buf_def)

lemma length_load64_le_buf [simp]: "length (load64_le_buf bs n) = n"
  by (simp add: load64_le_buf_def)

lemma num_store32_le_buf: "num (store32_le_buf ws) = num ws"
  by (induction ws) (simp_all add: store32_le_buf_def num_append num_store32_le)

lemma num_byte_at: "num (map (byte_at bs) [0..<n]) = num (take n bs)"
proof (cases "n \<le> length bs")
  case True
  then have "map (byte_at bs) [0..<n] = take n bs" by (intro nth_equalityI) auto
  then show ?thesis by simp
next
  case False
  then have "map (byte_at bs) [0..<n] = bs @ replicate (n - length bs) 0"
    by (intro nth_equalityI) (auto simp: byte_at_def nth_append)
  then show ?thesis using False by (simp add: num_append)
qed

lemma num_load32_le_buf: "num (load32_le_buf bs n) = num (take (4 * n) bs)"
proof (induction n)
  case (Suc n)
  have "num (load32_le_buf bs (Suc n)) = num (load32_le_buf bs n @ [load32_le (drop (4 * n) bs)])"
    by (simp add: load32_le_buf_def)
  also have "\<dots> = num (take (4 * n) bs) + 2 ^ (32 * n) * num (take 4 (drop (4 * n) bs))"
    by (simp add: num_append Suc unat_load32_le num_byte_at)
  also have "\<dots> = num (take (4 * n) bs @ take 4 (drop (4 * n) bs))"
  proof (cases "4 * n \<le> length bs")
    case True
    then have "length (take (4 * n) bs) = 4 * n" by simp
    then show ?thesis by (simp only: num_append) simp
  qed (simp add: num_append)
  also have "take (4 * n) bs @ take 4 (drop (4 * n) bs) = take (4 * Suc n) bs"
    using take_add [of "4 * n" 4 bs] by (simp add: add.commute)
  finally show ?case .
qed (simp add: load32_le_buf_def)

section \<open>The comparison\<close>

lemma load64_le_inj:
  assumes "load64_le a = load64_le b" "length a \<ge> 8" "length b \<ge> 8"
  shows "take 8 a = take 8 b"
proof -
  have "num (take 8 a) = num (take 8 b)"
    using assms(1) unat_load64_le [of a] unat_load64_le [of b] by (simp add: num_byte_at)
  then show ?thesis using assms(2,3) by (intro num_inj) simp_all
qed

lemma load64_le_take: "load64_le s = load64_le (take 8 s)"
proof -
  have "unat (load64_le s) = unat (load64_le (take 8 s))"
    by (simp add: unat_load64_le num_byte_at)
  then show ?thesis by (rule unsigned_word_eqI)
qed

lemma or_eq_0_iff_word: "x OR y = 0 \<longleftrightarrow> x = 0 \<and> y = (0 :: 'a::len word)"
  by (auto simp: bit_eq_iff bit_simps)

lemma xor_eq_0_iff_word: "x XOR y = 0 \<longleftrightarrow> x = (y :: 'a::len word)"
  by (auto simp: bit_eq_iff bit_simps)

lemma neq0_eq: "neq0 d = (if d = 0 then 0 else -1)"
proof -
  define half where "half = drop_bit 32 d OR ucast (ucast d :: u32)"
  have bit: "bit half n \<longleftrightarrow> bit d (n + 32) \<or> n < 32 \<and> bit d n" for n
    by (auto simp: half_def bit_simps add.commute dest: bit_imp_le_length)
  have zero: "half = 0 \<longleftrightarrow> d = 0"
  proof
    assume "half = 0"
    then have no: "\<not> bit half n" for n by simp
    have "\<not> bit d n" for n
      using no [of n] no [of "n - 32"] by (cases "n < 32") (auto simp: bit)
    then show "d = 0" by (simp add: bit_eq_iff)
  qed (simp add: half_def)
  have "take_bit 32 half = half"
    by (rule bit_word_eqI) (auto simp: bit_take_bit_iff bit dest: bit_imp_le_length)
  then have less: "unat half < 2 ^ 32"
    by (metis take_bit_nat_less_exp unsigned_take_bit_eq)
  show ?thesis
  proof (cases "half = 0")
    case True
    have "neq0 0 = 0" by code_simp
    then show ?thesis using zero True by simp
  next
    case False
    then have "unat (half - 1) < 2 ^ 32"
      using less by (simp add: unat_sub word_le_nat_alt unat_gt_0 Suc_le_eq)
    then have "unat (drop_bit 32 (half - 1)) = 0"
      by (simp only: unat_drop_bit_eq) (simp add: drop_bit_eq_div)
    then have "drop_bit 32 (half - 1) = 0" by (simp only: unsigned_eq_0_iff)
    moreover have "sint (ucast (-1 :: u64) :: u32) = -1" by code_simp
    ultimately show ?thesis using zero False by (simp add: neq0_def half_def [symmetric] Let_def)
  qed
qed

lemma x16_eq: "length a \<ge> 16 \<Longrightarrow> length b \<ge> 16 \<Longrightarrow> x16 a b = 0 \<longleftrightarrow> take 16 a = take 16 b"
proof -
  assume l: "length a \<ge> 16" "length b \<ge> 16"
  have split: "take 16 s = take 8 s @ take 8 (drop 8 s)" for s :: bytes
    using take_add [of 8 8 s] by simp
  show ?thesis
    unfolding x16_def or_eq_0_iff_word xor_eq_0_iff_word split
    using l load64_le_inj [of a b] load64_le_inj [of "drop 8 a" "drop 8 b"]
      load64_le_take [of a] load64_le_take [of b] load64_le_take [of "drop 8 a"] load64_le_take [of "drop 8 b"]
    by auto
qed

lemma crypto_verify32_eq:
  assumes "length a = 32" "length b = 32"
  shows "crypto_verify32 a b = (if a = b then 0 else -1)"
proof -
  have "a = b \<longleftrightarrow> take 16 a = take 16 b \<and> take 16 (drop 16 a) = take 16 (drop 16 b)"
    using assms by (metis append_take_drop_id length_drop take_all diff_le_self le_refl numeral_Bit0 add_diff_cancel_left')
  then show ?thesis
    using assms x16_eq [of a b] x16_eq [of "drop 16 a" "drop 16 b"]
    by (simp add: crypto_verify32_def neq0_eq x32_def or_eq_0_iff_word)
qed

end
