(* ===== verification/Scalar_L.thy ===== *)
theory Scalar_L
  imports Mono_Base
begin

text \<open>
  The scalars of Ed25519 (\<open>support/crypto/monocypher.c\<close>): clamping, the bits of a scalar, and the
  arithmetic modulo the order \<open>L\<close> of the base point - products of 32-bit words with 64-bit carries,
  the Barrett reduction that multiplies with an approximation of the inverse of \<open>L\<close>, and the final
  conditional subtraction, which has no branch on a secret.  The theorems say which numbers come out.
\<close>

section \<open>Clamping and bits\<close>

definition crypto_eddsa_trim_scalar :: "bytes \<Rightarrow> bytes" where
  "crypto_eddsa_trim_scalar inp =
     (let out = take 32 inp;
          out = out[0 := out ! 0 AND 248];
          out = out[31 := out ! 31 AND 127]
      in out[31 := out ! 31 OR 64])"

definition scalar_bit :: "bytes \<Rightarrow> int \<Rightarrow> int" where
  "scalar_bit s i =
     (if i < 0 then 0 else uint (drop_bit (nat i mod 8) (byte_at s (nat i div 8)) AND 1))"

section \<open>Arithmetic modulo L\<close>

definition L :: "u32 list" where
  "L = [0x5cf5d3ed, 0x5812631a, 0xa2f79cd6, 0x14def9de, 0, 0, 0, 0x10000000]"

text \<open>
  \<open>carry += p[i+j] + (u64)a[i] * b[j];  p[i+j] = (u32)carry;  carry >>= 32;\<close> for the words \<open>b\<close> of one
  factor and the words \<open>p\<close> of the accumulator: the words that are stored and the carry that is left.
\<close>

fun mul_row :: "u64 \<Rightarrow> u32 \<Rightarrow> u32 list \<Rightarrow> u32 list \<Rightarrow> u32 list \<times> u64" where
  "mul_row carry a (b # bs) (p # ps) =
     (let carry = carry + (ucast p + ucast a * ucast b);
          (row, carry') = mul_row (drop_bit 32 carry) a bs ps
      in (ucast carry # row, carry'))"
| "mul_row carry a _ _ = ([], carry)"

text \<open>One round of the outer loops: \<open>p += a * b\<close> at the word \<open>i\<close>, the carry in the word behind.\<close>

definition add_product :: "u32 list \<Rightarrow> nat \<Rightarrow> u32 \<Rightarrow> u32 list \<Rightarrow> u32 list" where
  "add_product b i a p =
     (let (row, carry) = mul_row 0 a b (mem_read i (length b) p) in mem_write i (row @ [ucast carry]) p)"

definition multiply :: "u32 list \<Rightarrow> u32 list \<Rightarrow> u32 list \<Rightarrow> u32 list" where
  "multiply p a b = foldl (\<lambda>p i. add_product b i (a ! i) p) p [0..<8]"

text \<open>\<open>carry += (u64)x[i] + y[i];  r[i] = (u32)carry;  carry >>= 32;\<close>\<close>

fun add_carry :: "u64 \<Rightarrow> u32 list \<Rightarrow> u32 list \<Rightarrow> u32 list \<times> u64" where
  "add_carry carry (x # xs) (y # ys) =
     (let carry = carry + (ucast x + ucast y);
          (r, carry') = add_carry (drop_bit 32 carry) xs ys
      in (ucast carry # r, carry'))"
| "add_carry carry _ _ = ([], carry)"

definition is_above_l :: "u32 list \<Rightarrow> u64" where
  "is_above_l x = snd (add_carry 1 x (map (\<lambda>l. NOT l AND 0xffffffff) L))"

definition remove_l :: "u32 list \<Rightarrow> u32 list" where
  "remove_l x =
     (let carry = is_above_l x; mask = NOT (ucast carry) + 1
      in fst (add_carry carry x (map (\<lambda>l. NOT l AND mask) L)))"

definition barrett_r :: "u32 list" where
  "barrett_r = [0x0a2c131b, 0xed9ce5a3, 0x086329a7, 0x2106215d,
     0xffffffeb, 0xffffffff, 0xffffffff, 0xffffffff, 0xf]"

text \<open>The second product, of which only the first eight words are computed: \<open>FOR (j, 0, 8-i)\<close>.\<close>

definition add_product_low :: "nat \<Rightarrow> u32 list \<Rightarrow> u32 list" where
  "add_product_low i xr =
     mem_write i (fst (mul_row 0 (xr ! (i + 16)) (take (8 - i) L) (mem_read i (8 - i) xr))) xr"

definition mod_l :: "u32 list \<Rightarrow> bytes" where
  "mod_l x =
     (let xr = foldl (\<lambda>xr i. add_product x i (barrett_r ! i) xr) (replicate 25 0) [0..<9];
          xr = mem_write 0 (replicate 8 0) xr;
          xr = foldl (\<lambda>xr i. add_product_low i xr) xr [0..<8];
          xr = mem_write 0 (fst (add_carry 1 (take 8 x) (map (\<lambda>y. NOT y AND 0xffffffff) (take 8 xr)))) xr
      in store32_le_buf (remove_l (take 8 xr)))"

definition crypto_eddsa_reduce :: "bytes \<Rightarrow> bytes" where
  "crypto_eddsa_reduce expanded = mod_l (load32_le_buf expanded 16)"

definition crypto_eddsa_mul_add :: "bytes \<Rightarrow> bytes \<Rightarrow> bytes \<Rightarrow> bytes" where
  "crypto_eddsa_mul_add a b c =
     (let A = load32_le_buf a 8; B = load32_le_buf b 8;
          p = load32_le_buf c 8 @ replicate 8 0
      in mod_l (multiply p A B))"

section \<open>Rows\<close>

lemma unat_u32 [simp]: "unat (x :: u32) < 2 ^ 32" "unat (x :: u32) \<le> 2 ^ 32 - 1"
  using unsigned_less [of x, where ?'a = nat] by simp_all

text \<open>What a 64-bit carry leaves in the word and passes on.\<close>

lemma unat_of_nat_u64: "n < 2 ^ 64 \<Longrightarrow> unat (of_nat n :: u64) = n"
  by (simp add: unat_of_nat)

lemma carry_step:
  assumes "n < 2 ^ 64"
  shows "unat (ucast (of_nat n :: u64) :: u32) = n mod 2 ^ 32" "unat (drop_bit 32 (of_nat n :: u64)) = n div 2 ^ 32"
proof -
  have u: "unat (of_nat n :: u64) = n" by (rule unat_of_nat_u64 [OF assms])
  show "unat (ucast (of_nat n :: u64) :: u32) = n mod 2 ^ 32"
    by (simp only: unsigned_ucast_eq u) (simp add: take_bit_eq_mod)
  show "unat (drop_bit 32 (of_nat n :: u64)) = n div 2 ^ 32"
    by (simp only: unat_drop_bit_eq u) (simp add: drop_bit_eq_div)
qed

lemma num_u32_Cons: "num ((w :: u32) # ws) = unat w + 2 ^ 32 * num ws"
  by simp

lemma power_32_Suc: "(2 :: nat) ^ (32 * length (x # xs)) = 2 ^ 32 * 2 ^ (32 * length xs)"
  by (simp add: power_add)

lemma mul_row_num:
  assumes "length b = length p" "unat carry < 2 ^ 32" "mul_row carry a b p = (row, carry')"
  shows "length row = length b \<and> unat carry' < 2 ^ 32 \<and>
    num row + 2 ^ (32 * length b) * unat carry' = unat carry + num p + unat a * num b"
  using assms
proof (induction b p arbitrary: carry row carry' rule: list_induct2)
  case Nil
  then show ?case by simp
next
  case (Cons b bs p ps)
  define s where "s = unat carry + (unat p + unat a * unat b)"
  have "unat a * unat b \<le> (2 ^ 32 - 1) * (2 ^ 32 - 1)" by (intro mult_le_mono unat_u32)
  then have s: "s < 2 ^ 64"
    using Cons.prems(1) unat_u32(2) [of p] by (simp add: s_def)
  have w: "carry + (ucast p + ucast a * ucast b) = of_nat s"
    by (simp add: s_def)
  obtain row2 where row2: "mul_row (drop_bit 32 (of_nat s)) a bs ps = (row2, carry')" "row = ucast (of_nat s :: u64) # row2"
    using Cons.prems(2) by (auto simp: w Let_def split: prod.splits)
  have "s div 2 ^ 32 < 2 ^ 32" using s by (simp add: div_less_iff_less_mult)
  then have IH: "length row2 = length bs" "unat carry' < 2 ^ 32"
    "num row2 + 2 ^ (32 * length bs) * unat carry' = s div 2 ^ 32 + num ps + unat a * num bs"
    using Cons.IH [OF _ row2(1)] by (simp_all only: carry_step [OF s])
  have "num row + 2 ^ (32 * length (b # bs)) * unat carry' =
      s mod 2 ^ 32 + 2 ^ 32 * (num row2 + 2 ^ (32 * length bs) * unat carry')"
    unfolding row2(2) num_u32_Cons carry_step [OF s] power_32_Suc by (simp only: distrib_left mult.assoc add.assoc)
  also have "\<dots> = s mod 2 ^ 32 + 2 ^ 32 * (s div 2 ^ 32) + 2 ^ 32 * (num ps + unat a * num bs)"
    unfolding IH(3) by (simp only: distrib_left add.assoc)
  also have "\<dots> = unat carry + num (p # ps) + unat a * num (b # bs)"
    unfolding mod_mult_div_eq num_u32_Cons s_def by (simp add: algebra_simps)
  finally show ?case using IH row2 by simp
qed

lemma add_carry_num:
  assumes "length x = length y" "unat carry < 2 ^ 32" "add_carry carry x y = (r, carry')"
  shows "length r = length x \<and> num r + 2 ^ (32 * length x) * unat carry' = unat carry + num x + num y"
  using assms
proof (induction x y arbitrary: carry r carry' rule: list_induct2)
  case Nil
  then show ?case by simp
next
  case (Cons x xs y ys)
  define s where "s = unat carry + (unat x + unat y)"
  have s: "s < 2 ^ 64"
    using Cons.prems(1) unat_u32(2) [of x] unat_u32(2) [of y] by (simp add: s_def)
  have w: "carry + (ucast x + ucast y) = of_nat s"
    by (simp add: s_def)
  obtain r2 where r2: "add_carry (drop_bit 32 (of_nat s)) xs ys = (r2, carry')" "r = ucast (of_nat s :: u64) # r2"
    using Cons.prems(2) by (auto simp: w Let_def split: prod.splits)
  have "s div 2 ^ 32 < 2 ^ 32" using s by (simp add: div_less_iff_less_mult)
  then have IH: "length r2 = length xs"
    "num r2 + 2 ^ (32 * length xs) * unat carry' = s div 2 ^ 32 + num xs + num ys"
    using Cons.IH [OF _ r2(1)] by (simp_all only: carry_step [OF s])
  have "num r + 2 ^ (32 * length (x # xs)) * unat carry' =
      s mod 2 ^ 32 + 2 ^ 32 * (num r2 + 2 ^ (32 * length xs) * unat carry')"
    unfolding r2(2) num_u32_Cons carry_step [OF s] power_32_Suc by (simp only: distrib_left mult.assoc add.assoc)
  also have "\<dots> = s mod 2 ^ 32 + 2 ^ 32 * (s div 2 ^ 32) + 2 ^ 32 * (num xs + num ys)"
    unfolding IH(2) by (simp only: distrib_left add.assoc)
  also have "\<dots> = unat carry + num (x # xs) + num (y # ys)"
    unfolding mod_mult_div_eq num_u32_Cons s_def by (simp add: algebra_simps)
  finally show ?case using IH r2 by simp
qed

text \<open>A row is added at the word \<open>i\<close> of an accumulator whose words from \<open>i + length b\<close> on are still zero.\<close>

lemma add_product_num:
  assumes p: "length p = m" "drop (i + length b) p = replicate (m - (i + length b)) 0" and i: "i + length b < m"
  shows "length (add_product b i a p) = m"
    "drop (i + 1 + length b) (add_product b i a p) = replicate (m - (i + 1 + length b)) 0"
    "num (add_product b i a p) = num p + 2 ^ (32 * i) * (unat a * num b)"
proof -
  let ?n = "length b" and ?q = "mem_read i (length b) p"
  obtain row carry where row: "mul_row 0 a b ?q = (row, carry)" by fastforce
  have lq: "length ?q = ?n" using p i by simp
  have r: "length row = ?n" "unat carry < 2 ^ 32" "num row + 2 ^ (32 * ?n) * unat carry = num ?q + unat a * num b"
    using mul_row_num [OF _ _ row] lq by simp_all
  have eq: "add_product b i a p = take i p @ row @ [ucast carry] @ drop (i + 1 + ?n) p"
    using r(1) by (simp add: add_product_def row mem_write_def ac_simps)
  have tail: "drop (i + 1 + ?n) p = replicate (m - (i + 1 + ?n)) 0"
    using arg_cong [OF p(2), of "drop 1"] by (simp add: ac_simps)
  show "length (add_product b i a p) = m" using eq r(1) p(1) i by simp
  show "drop (i + 1 + ?n) (add_product b i a p) = replicate (m - (i + 1 + ?n)) 0"
    using eq r(1) p(1) i tail by (simp add: min_def)
  have c: "unat (ucast carry :: u32) = unat carry"
    using r(2) by (simp add: unsigned_ucast_eq take_bit_nat_eq_self)
  have "num p = num (take i p) + 2 ^ (32 * i) * (num ?q + 2 ^ (32 * ?n) * num (drop (i + ?n) p))"
  proof -
    have "p = take i p @ ?q @ drop (i + ?n) p"
      by (metis append_take_drop_id drop_drop mem_read_def add.commute)
    then have "num p = num (take i p @ ?q @ drop (i + ?n) p)" by simp
    then show ?thesis using lq p(1) i by (simp add: num_append min_def)
  qed
  moreover have "num (add_product b i a p) = num (take i p) + 2 ^ (32 * i) * (num row + 2 ^ (32 * ?n) * unat carry)"
    unfolding eq tail using r(1) p(1) i by (simp add: num_append min_def c)
  ultimately show "num (add_product b i a p) = num p + 2 ^ (32 * i) * (unat a * num b)"
    using p(2) by (simp add: r(3) distrib_left)
qed

text \<open>The outer loop over the words of \<open>a\<close>\<close>

lemma add_products_num:
  assumes "length p = length b + length a" "drop (length b) p = replicate (length a) 0" "n \<le> length a"
  shows "length (foldl (\<lambda>p i. add_product b i (a ! i) p) p [0..<n]) = length p \<and>
    drop (n + length b) (foldl (\<lambda>p i. add_product b i (a ! i) p) p [0..<n]) = replicate (length a - n) 0 \<and>
    num (foldl (\<lambda>p i. add_product b i (a ! i) p) p [0..<n]) = num p + num (take n a) * num b"
  using assms(3)
proof (induction n)
  case 0
  then show ?case using assms by simp
next
  case (Suc n)
  let ?p = "foldl (\<lambda>p i. add_product b i (a ! i) p) p [0..<n]"
  have "num (take (Suc n) a) = num (take n a) + 2 ^ (32 * n) * unat (a ! n)"
    using Suc.prems by (simp add: take_Suc_conv_app_nth num_append)
  moreover have IH: "length ?p = length p" "drop (n + length b) ?p = replicate (length a - n) 0"
    "num ?p = num p + num (take n a) * num b"
    using Suc by simp_all
  moreover have "length ?p = length b + length a" "n + length b < length b + length a"
    using IH(1) assms(1) Suc.prems by simp_all
  moreover note add_product_num [of ?p "length b + length a" n b "a ! n"]
  ultimately show ?case
    using assms(1) by (simp add: algebra_simps)
qed

lemma multiply_num:
  assumes "length a = 8" "length b = 8" "length p = 8"
  shows "length (multiply (p @ replicate 8 0) a b) = 16"
    "num (multiply (p @ replicate 8 0) a b) = num a * num b + num p"
  using add_products_num [of "p @ replicate 8 0" b a 8] assms
  by (simp_all add: multiply_def num_append)

section \<open>The order and the subtraction\<close>

definition ell :: nat where
  "ell = 2 ^ 252 + 27742317777372353535851937790883648493"

lemma num_L: "num L = ell"
  by (simp add: L_def ell_def)

lemma length_L [simp]: "length L = 8"
  by (simp add: L_def)

lemma ell_bounds: "0 < ell" "2 * ell < 2 ^ 256" "ell < 2 ^ 253"
  by (simp_all add: ell_def)

lemma and_ones [simp]: "x AND 0xffffffff = (x :: u32)"
proof -
  have "(0xffffffff :: u32) = -1" by simp
  then show ?thesis by (simp only: and.right_neutral)
qed

lemma unat_not_u32: "unat (NOT x :: u32) = 2 ^ 32 - 1 - unat x"
proof -
  have "NOT x = -1 - x" by (simp add: not_eq_complement)
  moreover have "x \<le> -1" by simp
  moreover have "unat (-1 :: u32) = 2 ^ 32 - 1"
    unfolding unsigned_minus_1_eq_mask by (simp add: mask_eq_exp_minus_1)
  ultimately show ?thesis by (simp only: unat_sub)
qed

lemma num_not: "num (map NOT xs :: u32 list) + num xs + 1 = 2 ^ (32 * length xs)"
proof (induction xs)
  case (Cons x xs)
  have "num (map NOT (x # xs)) + num (x # xs) + 1 = 2 ^ 32 - 1 - unat x + unat x + 1 + 2 ^ 32 * (num (map NOT xs) + num xs)"
    unfolding list.map num_u32_Cons unat_not_u32 by simp
  also have "2 ^ 32 - 1 - unat x + unat x + 1 = 2 ^ 32" using unat_u32(2) [of x] by simp
  also have "2 ^ 32 + 2 ^ 32 * (num (map NOT xs) + num xs) = 2 ^ 32 * (num (map NOT xs) + num xs + 1)"
    by simp
  finally show ?case by (simp only: Cons power_32_Suc)
qed simp

text \<open>Subtraction as the addition of the complement and a carry of 1\<close>

lemma sub_num:
  assumes "length x = 8" "length y = 8"
  shows "num (fst (add_carry 1 x (map NOT y))) = (num x + (2 ^ 256 - num y)) mod 2 ^ 256"
    "unat (snd (add_carry 1 x (map NOT y))) = (num x + (2 ^ 256 - num y)) div 2 ^ 256"
    "length (fst (add_carry 1 x (map NOT y))) = 8"
proof -
  obtain r c where rc: "add_carry 1 x (map NOT y) = (r, c)" by fastforce
  have y: "num (map NOT y) + num y + 1 = 2 ^ 256"
    using num_not [of y] assms(2) by simp
  have r: "length r = 8" "num r + 2 ^ 256 * unat c = 1 + num x + num (map NOT y)"
    using add_carry_num [OF _ _ rc] assms by simp_all
  have less: "num r < 2 ^ 256" using num_less [of r] r(1) by simp
  have sum: "num x + (2 ^ 256 - num y) = num r + unat c * 2 ^ 256"
  proof -
    have "2 ^ 256 - num y = num (map NOT y) + 1" using y by simp
    then show ?thesis using r(2) by (simp only: ac_simps)
  qed
  show "num (fst (add_carry 1 x (map NOT y))) = (num x + (2 ^ 256 - num y)) mod 2 ^ 256"
    "unat (snd (add_carry 1 x (map NOT y))) = (num x + (2 ^ 256 - num y)) div 2 ^ 256"
    unfolding sum rc fst_conv snd_conv mod_mult_self1 using less by simp_all
  show "length (fst (add_carry 1 x (map NOT y))) = 8" using r(1) by (simp add: rc)
qed

lemma num_8: "length (x :: u32 list) = 8 \<Longrightarrow> num x < 2 ^ 256"
  using num_less [of x] by simp

lemma is_above_l_iff:
  assumes "length x = 8"
  shows "is_above_l x = (if ell \<le> num x then 1 else 0)"
proof -
  have u: "unat (is_above_l x) = (num x + (2 ^ 256 - ell)) div 2 ^ 256"
    using sub_num(2) [OF assms length_L] by (simp add: is_above_l_def num_L)
  have lt: "num x < 2 ^ 256" by (rule num_8 [OF assms])
  have "unat (is_above_l x) = unat (if ell \<le> num x then 1 else 0 :: u64)"
  proof (cases "ell \<le> num x")
    case True
    then have "num x + (2 ^ 256 - ell) = num x - ell + 1 * 2 ^ 256" using ell_bounds by simp
    then show ?thesis unfolding u using True lt by (simp only: div_mult_self1) simp
  next
    case False
    then show ?thesis unfolding u using ell_bounds by (intro trans [OF div_less]) simp_all
  qed
  then show ?thesis by (rule unsigned_word_eqI)
qed

lemma remove_l_num:
  assumes "length x = 8"
  shows "num (remove_l x) = (if ell \<le> num x then num x - ell else num x)" "length (remove_l x) = 8"
proof -
  have lt: "num x < 2 ^ 256" by (rule num_8 [OF assms])
  have "num (remove_l x) = (if ell \<le> num x then num x - ell else num x) \<and> length (remove_l x) = 8"
  proof (cases "ell \<le> num x")
    case True
    have "NOT 1 + 1 = (-1 :: u32)" by simp
    then have eq: "remove_l x = fst (add_carry 1 x (map NOT L))"
      using True by (simp add: remove_l_def is_above_l_iff [OF assms] cong: map_cong)
    have "num x + (2 ^ 256 - ell) = num x - ell + 2 ^ 256" using True ell_bounds by simp
    then show ?thesis
      using True lt sub_num(1,3) [OF assms length_L] unfolding eq num_L by (simp only: mod_add_self2) simp
  next
    case False
    obtain r c where rc: "add_carry 0 x (map (\<lambda>l. 0) L) = (r, c)" by fastforce
    have eq: "remove_l x = r"
      using False rc by (simp add: remove_l_def is_above_l_iff [OF assms])
    have r: "length r = 8" "num r + 2 ^ 256 * unat c = num x"
      using add_carry_num [OF _ _ rc] assms by (simp_all add: map_replicate_const)
    then have "unat c = 0" using lt by (cases "unat c") simp_all
    then show ?thesis using r False by (simp add: eq)
  qed
  then show "num (remove_l x) = (if ell \<le> num x then num x - ell else num x)" "length (remove_l x) = 8"
    by simp_all
qed

section \<open>The Barrett reduction\<close>

lemma length_barrett_r [simp]: "length barrett_r = 9"
  by (simp add: barrett_r_def)

lemma num_barrett_r: "num barrett_r = 2 ^ 512 div ell"
  by (simp add: barrett_r_def ell_def)

text \<open>The estimate \<open>x * r div 2^512\<close> of the quotient is at most one too small.\<close>

lemma barrett_bounds:
  fixes x :: nat
  assumes "x < 2 ^ 512"
  defines "q \<equiv> x * (2 ^ 512 div ell) div 2 ^ 512"
  shows "q * ell \<le> x" "x < q * ell + 2 * ell"
proof -
  define P r where "P = (2 :: nat) ^ 512" and "r = P div ell"
  have P: "0 < P" "x < P" using assms by (simp_all add: P_def)
  have r: "r * ell \<le> P" "P < (r + 1) * ell"
    using ell_bounds(1) by (simp_all add: r_def dividend_less_times_div mult.commute [of _ ell] div_times_less_eq_dividend)
  have q: "q * P \<le> x * r" "x * r < (q + 1) * P"
    unfolding q_def P_def [symmetric] r_def [symmetric]
    using P(1) by (simp_all add: dividend_less_times_div mult.commute [of _ P])
  have "q * ell * P \<le> x * (r * ell)"
    using mult_le_mono1 [OF q(1), of ell] by (simp add: ac_simps)
  also have "\<dots> \<le> x * P" using r(1) by (rule mult_le_mono2)
  finally show "q * ell \<le> x" using P(1) by simp
  have "x * P \<le> x * ((r + 1) * ell)" using r(2) by (intro mult_le_mono2) simp
  also have "\<dots> = x * r * ell + x * ell" by (simp add: algebra_simps)
  also have "\<dots> < (q + 1) * P * ell + P * ell"
    using q(2) P(2) ell_bounds(1) by (intro add_strict_mono mult_strict_right_mono) simp_all
  also have "\<dots> = (q * ell + 2 * ell) * P" by (simp add: algebra_simps)
  finally show "x < q * ell + 2 * ell" using P(1) by simp
qed

text \<open>One round of the product that is computed modulo \<open>2^256\<close>\<close>

lemma add_product_low_num:
  assumes xr: "length xr = 25" and i: "i < 8"
  shows "length (add_product_low i xr) = 25" "drop 8 (add_product_low i xr) = drop 8 xr"
    "num (take 8 (add_product_low i xr)) =
      (num (take 8 xr) + 2 ^ (32 * i) * unat (xr ! (i + 16)) * ell) mod 2 ^ 256"
proof -
  let ?a = "xr ! (i + 16)" and ?m = "mem_read i (8 - i) xr"
  obtain row c where row: "mul_row 0 ?a (take (8 - i) L) ?m = (row, c)" by fastforce
  have lm: "length ?m = 8 - i" using xr i by simp
  have r: "length row = 8 - i" "num row + 2 ^ (32 * (8 - i)) * unat c = num ?m + unat ?a * num (take (8 - i) L)"
    using mul_row_num [OF _ _ row] lm i by simp_all
  have eq: "add_product_low i xr = take i xr @ row @ drop 8 xr"
    using r(1) i by (simp add: add_product_low_def row mem_write_def)
  show "length (add_product_low i xr) = 25" "drop 8 (add_product_low i xr) = drop 8 xr"
    using eq r(1) i xr by (simp_all add: min_def)
  have t8: "take 8 (add_product_low i xr) = take i xr @ row" using eq r(1) i xr by (simp add: min_def)
  have "take 8 xr = take i xr @ ?m" using take_add [of i "8 - i" xr] i by (simp add: mem_read_def)
  then have x8: "num (take 8 xr) = num (take i xr) + 2 ^ (32 * i) * num ?m"
    using xr i by (simp add: num_append min_def)
  have pw: "2 ^ (32 * i) * 2 ^ (32 * (8 - i)) = (2 :: nat) ^ 256"
  proof -
    have "32 * i + 32 * (8 - i) = 256" using i by simp
    then show ?thesis by (simp only: power_add [symmetric])
  qed
  define l where "l = num (take (8 - i) L)"
  define k where "k = ell div 2 ^ (32 * (8 - i))"
  have l: "ell = l + 2 ^ (32 * (8 - i)) * k"
    using num_take [of "8 - i" L] by (simp add: l_def k_def num_L)
  have "num (take 8 xr) + 2 ^ (32 * i) * unat ?a * ell =
      num (take i xr) + 2 ^ (32 * i) * (num ?m + unat ?a * l) + 2 ^ (32 * i) * 2 ^ (32 * (8 - i)) * (unat ?a * k)"
    unfolding x8 l by (simp only: distrib_left ac_simps)
  also have "\<dots> = num (take i xr) + 2 ^ (32 * i) * num row + 2 ^ 256 * (unat c + unat ?a * k)"
    unfolding l_def r(2) [symmetric] distrib_left pw [symmetric] by (simp only: ac_simps)
  finally have "(num (take 8 xr) + 2 ^ (32 * i) * unat ?a * ell) mod 2 ^ 256 =
      (num (take i xr) + 2 ^ (32 * i) * num row) mod 2 ^ 256"
    by (simp only: mod_mult_self2)
  moreover have "num (take i xr @ row) = num (take i xr) + 2 ^ (32 * i) * num row"
    using xr i by (simp add: num_append min_def)
  moreover have "num (take i xr @ row) < 2 ^ 256"
    using num_8 [of "take i xr @ row"] r(1) xr i by simp
  ultimately show "num (take 8 (add_product_low i xr)) =
      (num (take 8 xr) + 2 ^ (32 * i) * unat ?a * ell) mod 2 ^ 256"
    by (simp only: t8 mod_less)
qed

lemma add_products_low_num:
  assumes "length xr = 25" "num (take 8 xr) = 0" "n \<le> 8"
  defines "q \<equiv> take 8 (drop 16 xr)"
  shows "length (foldl (\<lambda>xr i. add_product_low i xr) xr [0..<n]) = 25 \<and>
    drop 8 (foldl (\<lambda>xr i. add_product_low i xr) xr [0..<n]) = drop 8 xr \<and>
    num (take 8 (foldl (\<lambda>xr i. add_product_low i xr) xr [0..<n])) = num (take n q) * ell mod 2 ^ 256"
  using assms(3)
proof (induction n)
  case 0
  then show ?case using assms by simp
next
  case (Suc n)
  let ?x = "foldl (\<lambda>xr i. add_product_low i xr) xr [0..<n]"
  have IH: "length ?x = 25" "drop 8 ?x = drop 8 xr" "num (take 8 ?x) = num (take n q) * ell mod 2 ^ 256"
    using Suc by simp_all
  have "?x ! (n + 16) = drop 8 ?x ! (n + 8)" using IH(1) Suc.prems by (simp add: add.commute)
  also have "\<dots> = q ! n" unfolding IH(2) using assms(1) Suc.prems by (simp add: q_def add.commute)
  finally have at: "?x ! (n + 16) = q ! n" .
  have "length q = 8" using assms(1) by (simp add: q_def)
  then have "num (take (Suc n) q) = num (take n q) + 2 ^ (32 * n) * unat (q ! n)"
    using Suc.prems by (simp add: take_Suc_conv_app_nth num_append)
  then have "(num (take n q) * ell mod 2 ^ 256 + 2 ^ (32 * n) * unat (q ! n) * ell) mod 2 ^ 256 =
      num (take (Suc n) q) * ell mod 2 ^ 256"
    by (simp only: mod_add_left_eq distrib_right)
  then show ?case
    using add_product_low_num [OF IH(1), of n] Suc.prems IH by (simp add: at)
qed

lemma mod_sub_nat:
  fixes a b m :: nat
  assumes "b \<le> a" "a - b < m"
  shows "(a mod m + (m - b mod m)) mod m = a - b"
proof -
  have "b mod m < m" using assms(2) by simp
  then have "b + (m - b mod m) = m * (b div m + 1)"
    using mult_div_mod_eq [of m b] unfolding distrib_left mult_1_right by linarith
  then have "a + (m - b mod m) = (a - b) + m * (b div m + 1)" using assms(1) by linarith
  then have "(a + (m - b mod m)) mod m = a - b" using assms(2) by (simp only: mod_mult_self2 mod_less)
  then show ?thesis by (simp only: mod_add_left_eq)
qed

lemma mod_l_num:
  assumes x: "length x = 16"
  shows "num (mod_l x) = num x mod ell" "length (mod_l x) = 32"
proof -
  let ?p = "foldl (\<lambda>xr i. add_product x i (barrett_r ! i) xr) (replicate 25 0) [0..<9]"
  have p: "length ?p = 25" "num ?p = num barrett_r * num x"
    using add_products_num [of "replicate 25 0" x barrett_r 9] x by simp_all
  define X where "X = num x"
  have X: "X < 2 ^ 512" using num_less [of x] x by (simp add: X_def)
  define q where "q = X * (2 ^ 512 div ell) div 2 ^ 512"
  have q: "num (drop 16 ?p) = q"
    unfolding num_drop p(2) q_def X_def num_barrett_r by (simp add: mult.commute)
  let ?z = "mem_write 0 (replicate 8 0) ?p"
  have z: "length ?z = 25" "num (take 8 ?z) = 0" "drop 16 ?z = drop 16 ?p"
    using p(1) by (simp_all add: mem_write_def)
  let ?y = "foldl (\<lambda>xr i. add_product_low i xr) ?z [0..<8]"
  have y: "length ?y = 25" "num (take 8 ?y) = q * ell mod 2 ^ 256"
  proof -
    have "num (take 8 (drop 16 ?p)) = q mod 2 ^ 256"
      by (simp add: num_take q)
    then show "length ?y = 25" "num (take 8 ?y) = q * ell mod 2 ^ 256"
      using add_products_low_num [OF z(1,2), of 8] by (simp_all add: z(3) mod_mult_left_eq)
  qed
  let ?d = "fst (add_carry 1 (take 8 x) (map NOT (take 8 ?y)))"
  have d: "num ?d = X - q * ell" "length ?d = 8"
  proof -
    have n: "num ?d = (X mod 2 ^ 256 + (2 ^ 256 - q * ell mod 2 ^ 256)) mod 2 ^ 256" "length ?d = 8"
    proof -
      have "num (take 8 x) = X mod 2 ^ 256" by (simp add: num_take X_def)
      moreover have l: "length (take 8 x) = 8" "length (take 8 ?y) = 8" using x y(1) by simp_all
      ultimately show "num ?d = (X mod 2 ^ 256 + (2 ^ 256 - q * ell mod 2 ^ 256)) mod 2 ^ 256" "length ?d = 8"
        using sub_num(1,3) [OF l] by (simp_all only: y(2))
    qed
    have b: "q * ell \<le> X" "X - q * ell < 2 ^ 256"
      using barrett_bounds [OF X, folded q_def] ell_bounds(2) by linarith+
    have "(X mod 2 ^ 256 + (2 ^ 256 - q * ell mod 2 ^ 256)) mod 2 ^ 256 = X - q * ell"
      by (rule mod_sub_nat [OF b])
    then show "num ?d = X - q * ell" "length ?d = 8" using n by simp_all
  qed
  have "mod_l x = store32_le_buf (remove_l ?d)"
    using x d(2) y(1) by (simp add: mod_l_def mem_write_def)
  then have "num (mod_l x) = (if ell \<le> X - q * ell then X - q * ell - ell else X - q * ell)" "length (mod_l x) = 32"
    using remove_l_num [OF d(2)] by (simp_all add: num_store32_le_buf d(1))
  moreover have "(if ell \<le> X - q * ell then X - q * ell - ell else X - q * ell) = X mod ell"
  proof -
    define c where "c = X - q * ell"
    have c: "X = c + q * ell" "c < 2 * ell"
      using barrett_bounds [OF X, folded q_def] by (simp_all add: c_def)
    then have "X mod ell = c mod ell" by simp
    also have "\<dots> = (if ell \<le> c then c - ell else c)" using c(2) by (simp add: mod_if)
    finally show ?thesis by (simp add: c_def)
  qed
  ultimately show "num (mod_l x) = num x mod ell" "length (mod_l x) = 32"
    by (simp_all add: X_def)
qed

section \<open>Reduction and multiplication\<close>

lemma crypto_eddsa_reduce_num: "num (crypto_eddsa_reduce h) = num (take 64 h) mod ell"
  using mod_l_num(1) [of "load32_le_buf h 16"] by (simp add: crypto_eddsa_reduce_def num_load32_le_buf)

lemma length_crypto_eddsa_reduce: "length (crypto_eddsa_reduce h) = 32"
  by (simp add: crypto_eddsa_reduce_def mod_l_num(2))

lemma crypto_eddsa_mul_add_num:
  "num (crypto_eddsa_mul_add a b c) = (num (take 32 a) * num (take 32 b) + num (take 32 c)) mod ell"
  "length (crypto_eddsa_mul_add a b c) = 32"
proof -
  let ?m = "multiply (load32_le_buf c 8 @ replicate 8 0) (load32_le_buf a 8) (load32_le_buf b 8)"
  have "length ?m = 16" "num ?m = num (take 32 a) * num (take 32 b) + num (take 32 c)"
    using multiply_num [of "load32_le_buf a 8" "load32_le_buf b 8" "load32_le_buf c 8"]
    by (simp_all add: num_load32_le_buf)
  then show "num (crypto_eddsa_mul_add a b c) = (num (take 32 a) * num (take 32 b) + num (take 32 c)) mod ell"
    "length (crypto_eddsa_mul_add a b c) = 32"
    using mod_l_num [of ?m] by (simp_all add: crypto_eddsa_mul_add_def)
qed

section \<open>Properties\<close>

text \<open>
  C27. The reduction of a hash is its number modulo the group order, and the scalar of a signature is the
  product plus the sum modulo the group order, for all inputs.
\<close>

theorem scalars_modulo_order:
  "num (crypto_eddsa_reduce h) = num (take 64 h) mod ell \<and>
   num (crypto_eddsa_mul_add a b c) = (num (take 32 a) * num (take 32 b) + num (take 32 c)) mod ell"
  by (simp only: crypto_eddsa_reduce_num crypto_eddsa_mul_add_num(1))

end
