(* ===== verification/Field_25519.thy ===== *)
theory Field_25519
  imports Mono_Base
begin

text \<open>
  The arithmetic modulo \<open>2^255 - 19\<close> of \<open>support/crypto/monocypher.c\<close>.  A field element is an array
  \<open>fe\<close> of ten signed 32-bit limbs for the powers 0, 26, 51, 77, 102, 128, 153, 179, 204 and 230 of two.
  Products are accumulated in 64 bits and carried back.  Signed words are words read by \<open>sint\<close>; a
  cast to a wider signed type is \<open>scast\<close>, a right shift \<open>signed_drop_bit\<close>, and the C type \<open>int\<close> of
  flags is \<open>int\<close>.  The arithmetic is only meant for limbs within bounds that the comments state: the
  theorems show that within them no operation overflows and the value is the one of the field.
\<close>

type_synonym i32 = "32 word"
type_synonym i64 = "64 word"
type_synonym fe = "i32 list"

section \<open>Constants and linear operations\<close>

definition fe_one :: fe where
  "fe_one = [1, 0, 0, 0, 0, 0, 0, 0, 0, 0]"

definition sqrtm1 :: fe where
  "sqrtm1 = [-32595792, -7943725, 9377950, 3500415, 12389472, -272473, -25146209, -2005654, 326686, 11406482]"

definition fe_0 :: fe where
  "fe_0 = replicate 10 0"

definition fe_1 :: fe where
  "fe_1 = 1 # replicate 9 0"

definition fe_neg :: "fe \<Rightarrow> fe" where
  "fe_neg f = map uminus f"

definition fe_add :: "fe \<Rightarrow> fe \<Rightarrow> fe" where
  "fe_add f g = map2 (+) f g"

definition fe_sub :: "fe \<Rightarrow> fe \<Rightarrow> fe" where
  "fe_sub f g = map2 (-) f g"

definition fe_cswap :: "fe \<Rightarrow> fe \<Rightarrow> int \<Rightarrow> fe \<times> fe" where
  "fe_cswap f g b =
     (let mask = of_int (- b);
          x = map2 (\<lambda>a b. (a XOR b) AND mask) f g
      in (map2 (XOR) f x, map2 (XOR) g x))"

definition fe_ccopy :: "fe \<Rightarrow> fe \<Rightarrow> int \<Rightarrow> fe" where
  "fe_ccopy f g b =
     (let mask = of_int (- b);
          x = map2 (\<lambda>a b. (a XOR b) AND mask) f g
      in map2 (XOR) f x)"

section \<open>Carries\<close>

text \<open>\<open>c = (t + ((i64)1 << (n-1))) >> n\<close>, and what is left of \<open>t\<close>: \<open>t - c * ((i64)1 << n)\<close>.\<close>

definition carry :: "nat \<Rightarrow> i64 \<Rightarrow> i64" where
  "carry n t = signed_drop_bit n (t + push_bit (n - 1) 1)"

definition carried :: "nat \<Rightarrow> i64 \<Rightarrow> i64" where
  "carried n t = t - carry n t * push_bit n 1"

text \<open>\<open>FE_CARRY\<close>\<close>

definition fe_carry :: "i64 \<Rightarrow> i64 \<Rightarrow> i64 \<Rightarrow> i64 \<Rightarrow> i64 \<Rightarrow> i64 \<Rightarrow> i64 \<Rightarrow> i64 \<Rightarrow> i64 \<Rightarrow> i64 \<Rightarrow> fe" where
  "fe_carry t0 t1 t2 t3 t4 t5 t6 t7 t8 t9 =
     (let c = carry 26 t0; t0 = carried 26 t0; t1 = t1 + c;
          c = carry 26 t4; t4 = carried 26 t4; t5 = t5 + c;
          c = carry 25 t1; t1 = carried 25 t1; t2 = t2 + c;
          c = carry 25 t5; t5 = carried 25 t5; t6 = t6 + c;
          c = carry 26 t2; t2 = carried 26 t2; t3 = t3 + c;
          c = carry 26 t6; t6 = carried 26 t6; t7 = t7 + c;
          c = carry 25 t3; t3 = carried 25 t3; t4 = t4 + c;
          c = carry 25 t7; t7 = carried 25 t7; t8 = t8 + c;
          c = carry 26 t4; t4 = carried 26 t4; t5 = t5 + c;
          c = carry 26 t8; t8 = carried 26 t8; t9 = t9 + c;
          c = carry 25 t9; t9 = carried 25 t9; t0 = t0 + c * 19;
          c = carry 26 t0; t0 = carried 26 t0; t1 = t1 + c
      in map ucast [t0, t1, t2, t3, t4, t5, t6, t7, t8, t9])"

section \<open>Bytes\<close>

definition fe_frombytes_mask :: "bytes \<Rightarrow> nat \<Rightarrow> fe" where
  "fe_frombytes_mask s nb_mask =
     (let mask = drop_bit nb_mask 0xffffff;
          t0 = ucast (load32_le s);
          t1 = ucast (push_bit 6 (load24_le (drop 4 s)));
          t2 = ucast (push_bit 5 (load24_le (drop 7 s)));
          t3 = ucast (push_bit 3 (load24_le (drop 10 s)));
          t4 = ucast (push_bit 2 (load24_le (drop 13 s)));
          t5 = ucast (load32_le (drop 16 s));
          t6 = ucast (push_bit 7 (load24_le (drop 20 s)));
          t7 = ucast (push_bit 5 (load24_le (drop 23 s)));
          t8 = ucast (push_bit 4 (load24_le (drop 26 s)));
          t9 = ucast (push_bit 2 (load24_le (drop 29 s) AND mask))
      in fe_carry t0 t1 t2 t3 t4 t5 t6 t7 t8 t9)"

definition fe_frombytes :: "bytes \<Rightarrow> fe" where
  "fe_frombytes s = fe_frombytes_mask s 1"

text \<open>The two loops of \<open>fe_tobytes\<close>: the sign of the value, and the limbs in their tight range.\<close>

definition tobytes_sign :: "fe \<Rightarrow> i32" where
  "tobytes_sign t =
     (let q = signed_drop_bit 25 (19 * (t ! 9) + push_bit 24 1)
      in foldl (\<lambda>q i. signed_drop_bit 25 (signed_drop_bit 26 (q + t ! (2 * i)) + t ! (2 * i + 1))) q [0..<5])"

definition tobytes_limb :: "nat \<Rightarrow> nat \<Rightarrow> fe \<times> i32 \<Rightarrow> fe \<times> i32" where
  "tobytes_limb n k s =
     (case s of (t, q) \<Rightarrow>
        let t = t[k := t ! k + q]; q = signed_drop_bit n (t ! k)
        in (t[k := t ! k - q * push_bit n 1], q))"

definition tobytes_limbs :: "fe \<Rightarrow> i32 \<Rightarrow> fe" where
  "tobytes_limbs t q = fst (foldl (\<lambda>s i. tobytes_limb 25 (2 * i + 1) (tobytes_limb 26 (2 * i) s)) (t, q) [0..<5])"

definition fe_tobytes :: "fe \<Rightarrow> bytes" where
  "fe_tobytes h =
     (let t = tobytes_limbs h (tobytes_sign h * 19) in
      store32_le (drop_bit 0 (t ! 0) OR push_bit 26 (t ! 1))
      @ store32_le (drop_bit 6 (t ! 1) OR push_bit 19 (t ! 2))
      @ store32_le (drop_bit 13 (t ! 2) OR push_bit 13 (t ! 3))
      @ store32_le (drop_bit 19 (t ! 3) OR push_bit 6 (t ! 4))
      @ store32_le (drop_bit 0 (t ! 5) OR push_bit 25 (t ! 6))
      @ store32_le (drop_bit 7 (t ! 6) OR push_bit 19 (t ! 7))
      @ store32_le (drop_bit 13 (t ! 7) OR push_bit 12 (t ! 8))
      @ store32_le (drop_bit 20 (t ! 8) OR push_bit 6 (t ! 9)))"

section \<open>Products\<close>

definition fe_mul_small :: "fe \<Rightarrow> i32 \<Rightarrow> fe" where
  "fe_mul_small f g =
     (let m = (\<lambda>i. scast (f ! i) * scast g)
      in fe_carry (m 0) (m 1) (m 2) (m 3) (m 4) (m 5) (m 6) (m 7) (m 8) (m 9))"

text \<open>\<open>a*(i64)b\<close>\<close>

definition wide :: "i32 \<Rightarrow> i32 \<Rightarrow> i64" where
  "wide a b = scast a * scast b"

definition fe_mul :: "fe \<Rightarrow> fe \<Rightarrow> fe" where
  "fe_mul f g =
     (let f0 = f ! 0; f1 = f ! 1; f2 = f ! 2; f3 = f ! 3; f4 = f ! 4; f5 = f ! 5; f6 = f ! 6;
          f7 = f ! 7; f8 = f ! 8; f9 = f ! 9; g0 = g ! 0; g1 = g ! 1; g2 = g ! 2; g3 = g ! 3;
          g4 = g ! 4; g5 = g ! 5; g6 = g ! 6; g7 = g ! 7; g8 = g ! 8; g9 = g ! 9; F1 = f1 * 2;
          F3 = f3 * 2; F5 = f5 * 2; F7 = f7 * 2; F9 = f9 * 2; G1 = g1 * 19; G2 = g2 * 19;
          G3 = g3 * 19; G4 = g4 * 19; G5 = g5 * 19; G6 = g6 * 19; G7 = g7 * 19; G8 = g8 * 19;
          G9 = g9 * 19;
          t0 = wide f0 g0 + wide F1 G9 + wide f2 G8 + wide F3 G7 + wide f4 G6
            + wide F5 G5 + wide f6 G4 + wide F7 G3 + wide f8 G2 + wide F9 G1;
          t1 = wide f0 g1 + wide f1 g0 + wide f2 G9 + wide f3 G8 + wide f4 G7
            + wide f5 G6 + wide f6 G5 + wide f7 G4 + wide f8 G3 + wide f9 G2;
          t2 = wide f0 g2 + wide F1 g1 + wide f2 g0 + wide F3 G9 + wide f4 G8
            + wide F5 G7 + wide f6 G6 + wide F7 G5 + wide f8 G4 + wide F9 G3;
          t3 = wide f0 g3 + wide f1 g2 + wide f2 g1 + wide f3 g0 + wide f4 G9
            + wide f5 G8 + wide f6 G7 + wide f7 G6 + wide f8 G5 + wide f9 G4;
          t4 = wide f0 g4 + wide F1 g3 + wide f2 g2 + wide F3 g1 + wide f4 g0
            + wide F5 G9 + wide f6 G8 + wide F7 G7 + wide f8 G6 + wide F9 G5;
          t5 = wide f0 g5 + wide f1 g4 + wide f2 g3 + wide f3 g2 + wide f4 g1
            + wide f5 g0 + wide f6 G9 + wide f7 G8 + wide f8 G7 + wide f9 G6;
          t6 = wide f0 g6 + wide F1 g5 + wide f2 g4 + wide F3 g3 + wide f4 g2
            + wide F5 g1 + wide f6 g0 + wide F7 G9 + wide f8 G8 + wide F9 G7;
          t7 = wide f0 g7 + wide f1 g6 + wide f2 g5 + wide f3 g4 + wide f4 g3
            + wide f5 g2 + wide f6 g1 + wide f7 g0 + wide f8 G9 + wide f9 G8;
          t8 = wide f0 g8 + wide F1 g7 + wide f2 g6 + wide F3 g5 + wide f4 g4
            + wide F5 g3 + wide f6 g2 + wide F7 g1 + wide f8 g0 + wide F9 G9;
          t9 = wide f0 g9 + wide f1 g8 + wide f2 g7 + wide f3 g6 + wide f4 g5
            + wide f5 g4 + wide f6 g3 + wide f7 g2 + wide f8 g1 + wide f9 g0
      in fe_carry t0 t1 t2 t3 t4 t5 t6 t7 t8 t9)"

definition fe_sq :: "fe \<Rightarrow> fe" where
  "fe_sq f =
     (let f0 = f ! 0; f1 = f ! 1; f2 = f ! 2; f3 = f ! 3; f4 = f ! 4; f5 = f ! 5; f6 = f ! 6;
          f7 = f ! 7; f8 = f ! 8; f9 = f ! 9; f0_2 = f0 * 2; f1_2 = f1 * 2; f2_2 = f2 * 2;
          f3_2 = f3 * 2; f4_2 = f4 * 2; f5_2 = f5 * 2; f6_2 = f6 * 2; f7_2 = f7 * 2;
          f5_38 = f5 * 38; f6_19 = f6 * 19; f7_38 = f7 * 38; f8_19 = f8 * 19; f9_38 = f9 * 38;
          t0 = wide f0 f0 + wide f1_2 f9_38 + wide f2_2 f8_19 + wide f3_2 f7_38 + wide f4_2 f6_19
            + wide f5 f5_38;
          t1 = wide f0_2 f1 + wide f2 f9_38 + wide f3_2 f8_19 + wide f4 f7_38 + wide f5_2 f6_19;
          t2 = wide f0_2 f2 + wide f1_2 f1 + wide f3_2 f9_38 + wide f4_2 f8_19 + wide f5_2 f7_38
            + wide f6 f6_19;
          t3 = wide f0_2 f3 + wide f1_2 f2 + wide f4 f9_38 + wide f5_2 f8_19 + wide f6 f7_38;
          t4 = wide f0_2 f4 + wide f1_2 f3_2 + wide f2 f2 + wide f5_2 f9_38 + wide f6_2 f8_19
            + wide f7 f7_38;
          t5 = wide f0_2 f5 + wide f1_2 f4 + wide f2_2 f3 + wide f6 f9_38 + wide f7_2 f8_19;
          t6 = wide f0_2 f6 + wide f1_2 f5_2 + wide f2_2 f4 + wide f3_2 f3 + wide f7_2 f9_38
            + wide f8 f8_19;
          t7 = wide f0_2 f7 + wide f1_2 f6 + wide f2_2 f5 + wide f3_2 f4 + wide f8 f9_38;
          t8 = wide f0_2 f8 + wide f1_2 f7_2 + wide f2_2 f6 + wide f3_2 f5_2 + wide f4 f4
            + wide f9 f9_38;
          t9 = wide f0_2 f9 + wide f1_2 f8 + wide f2_2 f7 + wide f3_2 f6 + wide f4 f5_2
      in fe_carry t0 t1 t2 t3 t4 t5 t6 t7 t8 t9)"

section \<open>Comparisons and powers\<close>

definition fe_isodd :: "fe \<Rightarrow> int" where
  "fe_isodd f = uint (byte_at (fe_tobytes f) 0 AND 1)"

definition fe_isequal :: "fe \<Rightarrow> fe \<Rightarrow> int" where
  "fe_isequal f g = 1 + crypto_verify32 (fe_tobytes f) (fe_tobytes g)"

text \<open>\<open>fe_sq(h, f);  FOR (i, 1, n) { fe_sq(h, h); }\<close>\<close>

definition fe_sqs :: "nat \<Rightarrow> fe \<Rightarrow> fe" where
  "fe_sqs n f = (fe_sq ^^ (n - 1)) (fe_sq f)"

text \<open>\<open>t0 = x^((p-5)/8)\<close> of \<open>invsqrt\<close>\<close>

definition pow_p58 :: "fe \<Rightarrow> fe" where
  "pow_p58 x =
     (let t0 = fe_sq x;
          t1 = fe_sq t0; t1 = fe_sq t1; t1 = fe_mul x t1;
          t0 = fe_mul t0 t1;
          t0 = fe_sq t0; t0 = fe_mul t1 t0;
          t1 = fe_sqs 5 t0; t0 = fe_mul t1 t0;
          t1 = fe_sqs 10 t0; t1 = fe_mul t1 t0;
          t2 = fe_sqs 20 t1; t1 = fe_mul t2 t1;
          t1 = fe_sqs 10 t1; t0 = fe_mul t1 t0;
          t1 = fe_sqs 50 t0; t1 = fe_mul t1 t0;
          t2 = fe_sqs 100 t1; t1 = fe_mul t2 t1;
          t1 = fe_sqs 50 t1; t0 = fe_mul t1 t0;
          t0 = fe_sqs 2 t0
      in fe_mul t0 x)"

text \<open>The value returned and \<open>isr\<close>\<close>

definition invsqrt :: "fe \<Rightarrow> int \<times> fe" where
  "invsqrt x =
     (let t0 = pow_p58 x;
          quartic = fe_mul (fe_sq t0) x;
          z0 = fe_isequal x fe_0;
          p1 = fe_isequal quartic fe_1;
          m1 = fe_isequal quartic (fe_neg fe_1);
          ms = fe_isequal quartic (fe_neg sqrtm1);
          isr = fe_ccopy (fe_mul t0 sqrtm1) t0 (1 - (m1 OR ms))
      in (p1 OR m1 OR z0, isr))"

definition fe_invert :: "fe \<Rightarrow> fe" where
  "fe_invert x =
     (let tmp = fe_sq x;
          tmp = snd (invsqrt tmp);
          tmp = fe_sq tmp
      in fe_mul tmp x)"

end
