(* ===== verification/Field_Value.thy ===== *)
theory Field_Value
  imports Field_25519
begin

text \<open>
  What the field operations compute: every signed operation stays within its word, the limbs of every
  result are within the bounds of the comments, and the value is the one of the field.
\<close>

section \<open>Signed words and bounds\<close>

text \<open>\<open>rep w v B\<close>: the signed word \<open>w\<close> is the integer \<open>v\<close>, which is at most \<open>B\<close> in absolute value.\<close>

definition rep :: "'a::len word \<Rightarrow> int \<Rightarrow> int \<Rightarrow> bool" where
  "rep w v B \<longleftrightarrow> sint w = v \<and> \<bar>v\<bar> \<le> B"

lemma rep_of_int:
  assumes "\<bar>v\<bar> \<le> B" "B < 2 ^ (LENGTH('a::len) - 1)"
  shows "rep (of_int v :: 'a word) v B"
proof -
  have "sint (of_int v :: 'a word) = signed_take_bit (LENGTH('a) - 1) v" by (simp add: signed_of_int)
  also have "\<dots> = v" using assms by (intro signed_take_bit_int_eq_self) linarith+
  finally show ?thesis using assms by (simp add: rep_def)
qed

lemma rep_word: "rep w v B \<Longrightarrow> w = of_int v"
  by (auto simp: rep_def)

lemma rep_add:
  fixes x y :: "'a::len word"
  assumes "rep x a A" "rep y b B" "A + B < 2 ^ (LENGTH('a) - 1)"
  shows "rep (x + y) (a + b) (A + B)"
proof -
  have "\<bar>a + b\<bar> \<le> A + B" using assms(1,2) by (auto simp: rep_def)
  then have "rep (of_int (a + b) :: 'a word) (a + b) (A + B)" using assms(3) by (rule rep_of_int)
  then show ?thesis using rep_word [OF assms(1)] rep_word [OF assms(2)] by simp
qed

lemma rep_diff:
  fixes x y :: "'a::len word"
  assumes "rep x a A" "rep y b B" "A + B < 2 ^ (LENGTH('a) - 1)"
  shows "rep (x - y) (a - b) (A + B)"
proof -
  have "\<bar>a - b\<bar> \<le> A + B" using assms(1,2) by (auto simp: rep_def)
  then have "rep (of_int (a - b) :: 'a word) (a - b) (A + B)" using assms(3) by (rule rep_of_int)
  then show ?thesis using rep_word [OF assms(1)] rep_word [OF assms(2)] by simp
qed

lemma rep_neg:
  fixes x :: "'a::len word"
  assumes "rep x a A" "A < 2 ^ (LENGTH('a) - 1)"
  shows "rep (- x) (- a) A"
  using rep_of_int [of "- a" A, where ?'a = 'a] assms rep_word [OF assms(1)]
  by (simp add: rep_def)

lemma rep_mult_num:
  fixes x :: "'a::len word"
  assumes "rep x a A" "A * numeral k < 2 ^ (LENGTH('a) - 1)"
  shows "rep (x * numeral k) (a * numeral k) (A * numeral k)"
  using rep_of_int [of "a * numeral k" "A * numeral k", where ?'a = 'a] assms rep_word [OF assms(1)]
  by (simp add: rep_def abs_mult)

lemma rep_num_mult:
  fixes x :: "'a::len word"
  assumes "rep x a A" "numeral k * A < 2 ^ (LENGTH('a) - 1)"
  shows "rep (numeral k * x) (numeral k * a) (numeral k * A)"
  using rep_mult_num [OF assms(1), of k] assms(2) by (simp add: mult.commute)

lemma rep_wide:
  assumes "rep x a A" "rep y b B" "A * B < 2 ^ 63"
  shows "rep (wide x y) (a * b) (A * B)"
proof -
  have "wide x y = of_int (a * b)"
    using assms(1,2) by (auto simp: wide_def rep_def)
  moreover have "\<bar>a * b\<bar> \<le> A * B"
    using assms(1,2) by (auto simp: rep_def abs_mult intro!: mult_mono)
  ultimately show ?thesis using assms(3) rep_of_int [of "a * b" "A * B", where ?'a = 64] by simp
qed

lemma rep_mono: "rep x a A \<Longrightarrow> A \<le> B \<Longrightarrow> rep x a B"
  by (auto simp: rep_def)

lemma rep_trunc:
  assumes "rep (x :: i64) a A" "A < 2 ^ 31"
  shows "rep (ucast x :: i32) a A"
proof -
  have "(ucast x :: i32) = of_int a"
    unfolding rep_word [OF assms(1)] by (intro bit_word_eqI) (simp add: bit_simps)
  then show ?thesis using assms rep_of_int [of a A, where ?'a = 32] by (simp add: rep_def)
qed

lemma rep_unsigned:
  assumes "unat (x :: u32) = n" "int n \<le> B" "B < 2 ^ 63"
  shows "rep (ucast x :: i64) (int n) B"
proof -
  have "(ucast x :: i64) = of_int (int n)" using assms(1) by (metis of_int_of_nat_eq of_nat_unat)
  then show ?thesis using assms rep_of_int [of "int n" B, where ?'a = 64] by simp
qed

text \<open>The quotient of a carry is rounded to the nearest, the remainder lies around zero.\<close>

lemma rep_carry:
  assumes "rep t T A" "0 < n" "n < 32" "A < 2 ^ 63 - 2 ^ 31"
  obtains C where "rep (carry n t) C (A div 2 ^ n + 1)" "rep (carried n t) (T - C * 2 ^ n) (2 ^ (n - 1))"
proof -
  define C where "C = (T + 2 ^ (n - 1)) div 2 ^ n"
  have T: "\<bar>T\<bar> \<le> A" using assms(1) by (simp add: rep_def)
  have pn: "(2 :: int) ^ n = 2 * 2 ^ (n - 1)" using assms(2) by (cases n) simp_all
  have p31: "(2 :: int) ^ (n - 1) \<le> 2 ^ 31" using assms(3) by (intro power_increasing) simp_all
  have p: "rep (push_bit (n - 1) 1 :: i64) (2 ^ (n - 1)) (2 ^ (n - 1))"
    using rep_of_int [of "2 ^ (n - 1)" "2 ^ (n - 1)", where ?'a = 64] p31 by (simp add: push_bit_eq_mult)
  have s: "rep (t + push_bit (n - 1) 1) (T + 2 ^ (n - 1)) (A + 2 ^ (n - 1))"
    using assms(4) p31 by (intro rep_add [OF assms(1) p]) simp
  have "sint (carry n t) = C"
    using s by (simp add: carry_def rep_def C_def sint_signed_drop_bit_eq drop_bit_eq_div)
  moreover have r: "0 \<le> T + 2 ^ (n - 1) - C * 2 ^ n" "T + 2 ^ (n - 1) - C * 2 ^ n < 2 ^ n"
    by (simp_all add: C_def minus_div_mult_eq_mod)
  moreover have "\<bar>C\<bar> \<le> A div 2 ^ n + 1"
  proof -
    have bound: "x \<le> A div 2 ^ n + 1" if "x * 2 ^ n \<le> A + 2 ^ n" for x
      using zdiv_mono1 [OF that, of "2 ^ n"] by simp
    have "C * 2 ^ n \<le> A + 2 ^ n" "- C * 2 ^ n \<le> A + 2 ^ n" using r T pn by simp_all
    then show ?thesis using bound [of C] bound [of "- C"] by linarith
  qed
  ultimately have c: "rep (carry n t) C (A div 2 ^ n + 1)" by (simp add: rep_def)
  have "carried n t = of_int (T - C * 2 ^ n)"
    using rep_word [OF assms(1)] rep_word [OF c] by (simp add: carried_def push_bit_eq_mult)
  moreover have "\<bar>T - C * 2 ^ n\<bar> \<le> 2 ^ (n - 1)" using r pn by linarith
  moreover have "(2 :: int) ^ (n - 1) < 2 ^ 63" using p31 by simp
  ultimately have "rep (carried n t) (T - C * 2 ^ n) (2 ^ (n - 1))"
    using rep_of_int [of "T - C * 2 ^ n" "2 ^ (n - 1)", where ?'a = 64] by simp
  then show thesis using that c by blast
qed

lemma carry_into:
  assumes "rep t T A" "rep t' T' B" "0 < n" "n < 32" "A < 2 ^ 63 - 2 ^ 31" "B + (A div 2 ^ n + 1) \<le> E" "E < 2 ^ 63"
  obtains C where "rep (t' + carry n t) (T' + C) E" "rep (carried n t) (T - C * 2 ^ n) (2 ^ (n - 1))"
proof -
  obtain C where C: "rep (carry n t) C (A div 2 ^ n + 1)" "rep (carried n t) (T - C * 2 ^ n) (2 ^ (n - 1))"
    using assms(1,3-5) by (rule rep_carry)
  have "rep (t' + carry n t) (T' + C) (B + (A div 2 ^ n + 1))"
    using assms(6,7) by (intro rep_add [OF assms(2) C(1)]) simp
  then show thesis using that C(2) assms(6) rep_mono by blast
qed

section \<open>Values and bounds of field elements\<close>

definition prime_p :: int where
  "prime_p = 2 ^ 255 - 19"

definition fe_val :: "fe \<Rightarrow> int" where
  "fe_val f = sum_list (map2 (\<lambda>x e. sint x * 2 ^ e) f [0, 26, 51, 77, 102, 128, 153, 179, 204, 230])"

text \<open>\<open>limbs A B f\<close>: ten limbs, those of 26 bits at most \<open>A\<close> and those of 25 bits at most \<open>B\<close>.\<close>

definition limbs :: "int \<Rightarrow> int \<Rightarrow> fe \<Rightarrow> bool" where
  "limbs A B f \<longleftrightarrow> list_all2 (\<lambda>x b. \<bar>sint x\<bar> \<le> b) f [A, B, A, B, A, B, A, B, A, B]"

text \<open>After a carry: \<open>1.1 * 2^25\<close> and \<open>1.1 * 2^24\<close>.  The inputs of a product: \<open>1.65 * 2^26\<close> and \<open>1.65 * 2^25\<close>.\<close>

abbreviation tight :: "fe \<Rightarrow> bool" where
  "tight \<equiv> limbs 36909875 18454937"

abbreviation loose :: "fe \<Rightarrow> bool" where
  "loose \<equiv> limbs 110729625 55364812"

lemma limbs_mono: "limbs A B f \<Longrightarrow> A \<le> A' \<Longrightarrow> B \<le> B' \<Longrightarrow> limbs A' B' f"
  by (auto simp: limbs_def list_all2_Cons2)

lemma limbs_cases:
  assumes "limbs A B f"
  obtains f0 f1 f2 f3 f4 f5 f6 f7 f8 f9 where "f = [f0, f1, f2, f3, f4, f5, f6, f7, f8, f9]"
    "rep f0 (sint f0) A" "rep f1 (sint f1) B" "rep f2 (sint f2) A" "rep f3 (sint f3) B" "rep f4 (sint f4) A"
    "rep f5 (sint f5) B" "rep f6 (sint f6) A" "rep f7 (sint f7) B" "rep f8 (sint f8) A" "rep f9 (sint f9) B"
  using assms by (auto simp: limbs_def list_all2_Cons2 rep_def)

lemma fe_carry_value:
  assumes "rep t0 T0 (2 ^ 62)" "rep t1 T1 (2 ^ 62)" "rep t2 T2 (2 ^ 62)" "rep t3 T3 (2 ^ 62)" "rep t4 T4 (2 ^ 62)"
    "rep t5 T5 (2 ^ 62)" "rep t6 T6 (2 ^ 62)" "rep t7 T7 (2 ^ 62)" "rep t8 T8 (2 ^ 62)" "rep t9 T9 (2 ^ 62)"
  shows "tight (fe_carry t0 t1 t2 t3 t4 t5 t6 t7 t8 t9)"
    "fe_val (fe_carry t0 t1 t2 t3 t4 t5 t6 t7 t8 t9) mod prime_p =
      (T0 + T1 * 2 ^ 26 + T2 * 2 ^ 51 + T3 * 2 ^ 77 + T4 * 2 ^ 102 + T5 * 2 ^ 128 + T6 * 2 ^ 153 + T7 * 2 ^ 179
        + T8 * 2 ^ 204 + T9 * 2 ^ 230) mod prime_p"
proof -
  define a1 a0 where "a1 = t1 + carry 26 t0" and "a0 = carried 26 t0"
  obtain C0 where s0: "rep a1 (T1 + C0) (2 ^ 62 + 2 ^ 39)" "rep a0 (T0 - C0 * 2 ^ 26) (2 ^ 25)"
    using carry_into [OF assms(1) assms(2), of 26 "2 ^ 62 + 2 ^ 39"] unfolding a1_def a0_def by auto
  define a5 a4 where "a5 = t5 + carry 26 t4" and "a4 = carried 26 t4"
  obtain C1 where s1: "rep a5 (T5 + C1) (2 ^ 62 + 2 ^ 39)" "rep a4 (T4 - C1 * 2 ^ 26) (2 ^ 25)"
    using carry_into [OF assms(5) assms(6), of 26 "2 ^ 62 + 2 ^ 39"] unfolding a5_def a4_def by auto
  define a2 b1 where "a2 = t2 + carry 25 a1" and "b1 = carried 25 a1"
  obtain C2 where s2: "rep a2 (T2 + C2) (2 ^ 62 + 2 ^ 39)" "rep b1 (T1 + C0 - C2 * 2 ^ 25) (2 ^ 24)"
    using carry_into [OF s0(1) assms(3), of 25 "2 ^ 62 + 2 ^ 39"] unfolding a2_def b1_def by auto
  define a6 b5 where "a6 = t6 + carry 25 a5" and "b5 = carried 25 a5"
  obtain C3 where s3: "rep a6 (T6 + C3) (2 ^ 62 + 2 ^ 39)" "rep b5 (T5 + C1 - C3 * 2 ^ 25) (2 ^ 24)"
    using carry_into [OF s1(1) assms(7), of 25 "2 ^ 62 + 2 ^ 39"] unfolding a6_def b5_def by auto
  define a3 b2 where "a3 = t3 + carry 26 a2" and "b2 = carried 26 a2"
  obtain C4 where s4: "rep a3 (T3 + C4) (2 ^ 62 + 2 ^ 39)" "rep b2 (T2 + C2 - C4 * 2 ^ 26) (2 ^ 25)"
    using carry_into [OF s2(1) assms(4), of 26 "2 ^ 62 + 2 ^ 39"] unfolding a3_def b2_def by auto
  define a7 b6 where "a7 = t7 + carry 26 a6" and "b6 = carried 26 a6"
  obtain C5 where s5: "rep a7 (T7 + C5) (2 ^ 62 + 2 ^ 39)" "rep b6 (T6 + C3 - C5 * 2 ^ 26) (2 ^ 25)"
    using carry_into [OF s3(1) assms(8), of 26 "2 ^ 62 + 2 ^ 39"] unfolding a7_def b6_def by auto
  define b4 b3 where "b4 = a4 + carry 25 a3" and "b3 = carried 25 a3"
  obtain C6 where s6: "rep b4 (T4 - C1 * 2 ^ 26 + C6) (2 ^ 39)" "rep b3 (T3 + C4 - C6 * 2 ^ 25) (2 ^ 24)"
    using carry_into [OF s4(1) s1(2), of 25 "2 ^ 39"] unfolding b4_def b3_def by auto
  define a8 b7 where "a8 = t8 + carry 25 a7" and "b7 = carried 25 a7"
  obtain C7 where s7: "rep a8 (T8 + C7) (2 ^ 62 + 2 ^ 39)" "rep b7 (T7 + C5 - C7 * 2 ^ 25) (2 ^ 24)"
    using carry_into [OF s5(1) assms(9), of 25 "2 ^ 62 + 2 ^ 39"] unfolding a8_def b7_def by auto
  define c5 c4 where "c5 = b5 + carry 26 b4" and "c4 = carried 26 b4"
  obtain C8 where s8: "rep c5 (T5 + C1 - C3 * 2 ^ 25 + C8) (18454937)" "rep c4 (T4 - C1 * 2 ^ 26 + C6 - C8 * 2 ^ 26) (2 ^ 25)"
    using carry_into [OF s6(1) s3(2), of 26 "18454937"] unfolding c5_def c4_def by auto
  define a9 b8 where "a9 = t9 + carry 26 a8" and "b8 = carried 26 a8"
  obtain C9 where s9: "rep a9 (T9 + C9) (2 ^ 62 + 2 ^ 39)" "rep b8 (T8 + C7 - C9 * 2 ^ 26) (2 ^ 25)"
    using carry_into [OF s7(1) assms(10), of 26 "2 ^ 62 + 2 ^ 39"] unfolding a9_def b8_def by auto
  obtain C10 where s10: "rep (carry 25 a9) C10 ((2 ^ 62 + 2 ^ 39) div 2 ^ 25 + 1)" "rep (carried 25 a9) (T9 + C9 - C10 * 2 ^ 25) (2 ^ 24)"
    by (rule rep_carry [OF s9(1), of 25]) simp_all
  define x9 x0 where "x9 = carried 25 a9" and "x0 = a0 + carry 25 a9 * 19"
  have x9: "rep x9 (T9 + C9 - C10 * 2 ^ 25) (2 ^ 24)" using s10(2) by (simp add: x9_def)
  have x0: "rep x0 (T0 - C0 * 2 ^ 26 + C10 * 19) (2 ^ 43)"
    unfolding x0_def by (rule rep_mono [OF rep_add [OF s0(2) rep_mult_num [OF s10(1)]]]) simp_all
  define c1 b0 where "c1 = b1 + carry 26 x0" and "b0 = carried 26 x0"
  obtain C11 where s11: "rep c1 (T1 + C0 - C2 * 2 ^ 25 + C11) (18454937)" "rep b0 (T0 - C0 * 2 ^ 26 + C10 * 19 - C11 * 2 ^ 26) (2 ^ 25)"
    using carry_into [OF x0 s2(2), of 26 "18454937"] unfolding c1_def b0_def by auto
  have eq: "fe_carry t0 t1 t2 t3 t4 t5 t6 t7 t8 t9 = [ucast b0, ucast c1, ucast b2, ucast b3, ucast c4, ucast c5, ucast b6, ucast b7, ucast b8, ucast x9]"
    unfolding fe_carry_def Let_def a1_def a0_def a5_def a4_def a2_def b1_def a6_def b5_def a3_def b2_def a7_def b6_def b4_def b3_def a8_def b7_def c5_def c4_def a9_def b8_def c1_def b0_def x9_def x0_def by simp
  note f0 = rep_trunc [OF s11(2), unfolded rep_def]
  note f1 = rep_trunc [OF s11(1), unfolded rep_def]
  note f2 = rep_trunc [OF s4(2), unfolded rep_def]
  note f3 = rep_trunc [OF s6(2), unfolded rep_def]
  note f4 = rep_trunc [OF s8(2), unfolded rep_def]
  note f5 = rep_trunc [OF s8(1), unfolded rep_def]
  note f6 = rep_trunc [OF s5(2), unfolded rep_def]
  note f7 = rep_trunc [OF s7(2), unfolded rep_def]
  note f8 = rep_trunc [OF s9(2), unfolded rep_def]
  note f9 = rep_trunc [OF x9, unfolded rep_def]
  have "tight (fe_carry t0 t1 t2 t3 t4 t5 t6 t7 t8 t9)"
    unfolding eq limbs_def using f0 f1 f2 f3 f4 f5 f6 f7 f8 f9 by simp
  moreover have "fe_val (fe_carry t0 t1 t2 t3 t4 t5 t6 t7 t8 t9) =
      (T0 + T1 * 2 ^ 26 + T2 * 2 ^ 51 + T3 * 2 ^ 77 + T4 * 2 ^ 102 + T5 * 2 ^ 128 + T6 * 2 ^ 153 + T7 * 2 ^ 179
        + T8 * 2 ^ 204 + T9 * 2 ^ 230) - C10 * prime_p"
    unfolding eq fe_val_def prime_p_def using f0 f1 f2 f3 f4 f5 f6 f7 f8 f9 by simp
  ultimately show "tight (fe_carry t0 t1 t2 t3 t4 t5 t6 t7 t8 t9)"
    "fe_val (fe_carry t0 t1 t2 t3 t4 t5 t6 t7 t8 t9) mod prime_p =
      (T0 + T1 * 2 ^ 26 + T2 * 2 ^ 51 + T3 * 2 ^ 77 + T4 * 2 ^ 102 + T5 * 2 ^ 128 + T6 * 2 ^ 153 + T7 * 2 ^ 179
        + T8 * 2 ^ 204 + T9 * 2 ^ 230) mod prime_p"
    by (simp_all add: mod_diff_eq [symmetric] del: mod_diff_eq)
qed

section \<open>Products\<close>

text \<open>The exponents of the limbs; two odd limbs meet one bit higher.\<close>

definition ex :: "nat \<Rightarrow> nat" where
  "ex i = [0, 26, 51, 77, 102, 128, 153, 179, 204, 230] ! i"

definition coeff :: "(nat \<Rightarrow> int) \<Rightarrow> nat \<Rightarrow> nat \<Rightarrow> int" where
  "coeff b i k =
     (let two = (\<lambda>j. if odd i \<and> odd j then 2 else 1) in
      if i \<le> k then two (k - i) * b (k - i) else 19 * two (10 + k - i) * b (10 + k - i))"

definition excess :: "(nat \<Rightarrow> int) \<Rightarrow> nat \<Rightarrow> int" where
  "excess b i = (\<Sum>k<i. (if odd i \<and> odd (10 + k - i) then 2 else 1) * b (10 + k - i) * 2 ^ ex k)"

definition conv :: "(nat \<Rightarrow> int) \<Rightarrow> (nat \<Rightarrow> int) \<Rightarrow> nat \<Rightarrow> int" where
  "conv a b k = (\<Sum>i<10. a i * coeff b i k)"

lemma sum_10:
  fixes f :: "nat \<Rightarrow> int"
  shows "(\<Sum>i<10. f i) = f 0 + f 1 + f 2 + f 3 + f 4 + f 5 + f 6 + f 7 + f 8 + (f 9 :: int)"
  by (simp add: eval_nat_numeral)

lemma sum_below:
  fixes f :: "nat \<Rightarrow> int"
  shows "(\<Sum>k<0. f k) = 0" "(\<Sum>k<1. f k) = f 0" "(\<Sum>k<2. f k) = f 0 + (f 1 :: int)"
  "(\<Sum>k<3. f k) = f 0 + f 1 + (f 2 :: int)" "(\<Sum>k<4. f k) = f 0 + f 1 + f 2 + (f 3 :: int)"
  "(\<Sum>k<5. f k) = f 0 + f 1 + f 2 + f 3 + (f 4 :: int)"
  "(\<Sum>k<6. f k) = f 0 + f 1 + f 2 + f 3 + f 4 + (f 5 :: int)"
  "(\<Sum>k<7. f k) = f 0 + f 1 + f 2 + f 3 + f 4 + f 5 + (f 6 :: int)"
  "(\<Sum>k<8. f k) = f 0 + f 1 + f 2 + f 3 + f 4 + f 5 + f 6 + (f 7 :: int)"
  "(\<Sum>k<9. f k) = f 0 + f 1 + f 2 + f 3 + f 4 + f 5 + f 6 + f 7 + (f 8 :: int)"
  by (simp_all add: eval_nat_numeral)

lemma ex_simps [simp]:
  "ex 0 = 0" "ex 1 = 26" "ex (Suc 0) = 26" "ex 2 = 51" "ex 3 = 77" "ex 4 = 102" "ex 5 = 128" "ex 6 = 153" "ex 7 = 179"
  "ex 8 = 204" "ex 9 = 230"
  by (simp_all add: ex_def)

lemma row_identity:
  assumes "i < 10"
  shows "2 ^ ex i * (\<Sum>j<10. b j * 2 ^ ex j) = (\<Sum>k<10. coeff b i k * 2 ^ ex k) + prime_p * excess b i"
proof -
  have "i \<in> {0, 1, 2, 3, 4, 5, 6, 7, 8, 9}" using assms by auto
  then show ?thesis
    by (elim insertE emptyE; hypsubst)
      (simp_all add: sum_10 sum_below coeff_def excess_def prime_p_def algebra_simps numeral_2_eq_2 [symmetric]
        numeral_3_eq_3 [symmetric])
qed

lemma mul_identity:
  "(\<Sum>i<10. a i * 2 ^ ex i) * (\<Sum>j<10. b j * 2 ^ ex j) =
   (\<Sum>k<10. conv a b k * 2 ^ ex k) + prime_p * (\<Sum>i<10. a i * excess b i)"
proof -
  have "(\<Sum>i<10. a i * 2 ^ ex i) * (\<Sum>j<10. b j * 2 ^ ex j) =
      (\<Sum>i<10. a i * (2 ^ ex i * (\<Sum>j<10. b j * 2 ^ ex j)))"
    by (simp only: sum_distrib_right mult.assoc)
  also have "\<dots> = (\<Sum>i<10. a i * ((\<Sum>k<10. coeff b i k * 2 ^ ex k) + prime_p * excess b i))"
    by (intro sum.cong refl) (simp only: row_identity lessThan_iff)
  also have "\<dots> = (\<Sum>i<10. \<Sum>k<10. a i * coeff b i k * 2 ^ ex k) + prime_p * (\<Sum>i<10. a i * excess b i)"
    by (simp only: distrib_left sum.distrib sum_distrib_left ac_simps)
  also have "(\<Sum>i<10. \<Sum>k<10. a i * coeff b i k * 2 ^ ex k) = (\<Sum>k<10. conv a b k * 2 ^ ex k)"
    unfolding conv_def sum_distrib_right by (rule sum.swap)
  finally show ?thesis .
qed

lemma fe_val_eq:
  "fe_val [f0, f1, f2, f3, f4, f5, f6, f7, f8, f9] =
   (\<Sum>i<10. sint ([f0, f1, f2, f3, f4, f5, f6, f7, f8, f9] ! i) * 2 ^ ex i)"
  by (simp add: fe_val_def sum_10)

lemma fe_conv_value:
  assumes "rep t0 T0 B0" "rep t1 T1 B1" "rep t2 T2 B2" "rep t3 T3 B3" "rep t4 T4 B4"
    "rep t5 T5 B5" "rep t6 T6 B6" "rep t7 T7 B7" "rep t8 T8 B8" "rep t9 T9 B9"
    "B0 \<le> 2 ^ 62" "B1 \<le> 2 ^ 62" "B2 \<le> 2 ^ 62" "B3 \<le> 2 ^ 62" "B4 \<le> 2 ^ 62"
    "B5 \<le> 2 ^ 62" "B6 \<le> 2 ^ 62" "B7 \<le> 2 ^ 62" "B8 \<le> 2 ^ 62" "B9 \<le> 2 ^ 62"
    "T0 = conv a b 0" "T1 = conv a b 1" "T2 = conv a b 2" "T3 = conv a b 3" "T4 = conv a b 4"
    "T5 = conv a b 5" "T6 = conv a b 6" "T7 = conv a b 7" "T8 = conv a b 8" "T9 = conv a b 9"
  shows "tight (fe_carry t0 t1 t2 t3 t4 t5 t6 t7 t8 t9) \<and>
    fe_val (fe_carry t0 t1 t2 t3 t4 t5 t6 t7 t8 t9) mod prime_p =
      (\<Sum>i<10. a i * 2 ^ ex i) * (\<Sum>j<10. b j * 2 ^ ex j) mod prime_p"
proof -
  note carry = fe_carry_value [OF rep_mono [OF assms(1,11)] rep_mono [OF assms(2,12)] rep_mono [OF assms(3,13)]
      rep_mono [OF assms(4,14)] rep_mono [OF assms(5,15)] rep_mono [OF assms(6,16)] rep_mono [OF assms(7,17)]
      rep_mono [OF assms(8,18)] rep_mono [OF assms(9,19)] rep_mono [OF assms(10,20)]]
  have "(\<Sum>k<10. conv a b k * 2 ^ ex k) = T0 + T1 * 2 ^ 26 + T2 * 2 ^ 51 + T3 * 2 ^ 77 + T4 * 2 ^ 102 + T5 * 2 ^ 128
      + T6 * 2 ^ 153 + T7 * 2 ^ 179 + T8 * 2 ^ 204 + T9 * 2 ^ 230"
    by (simp only: sum_10 assms(21-30) ex_simps power_0 mult_1_right)
  then show ?thesis
    using carry(1) unfolding mul_identity mod_mult_self2 carry(2) by simp
qed

lemma nth_fe:
  "[f0, f1, f2, f3, f4, f5, f6, f7, f8, f9] ! 0 = f0" "[f0, f1, f2, f3, f4, f5, f6, f7, f8, f9] ! 1 = f1"
  "[f0, f1, f2, f3, f4, f5, f6, f7, f8, f9] ! 2 = f2" "[f0, f1, f2, f3, f4, f5, f6, f7, f8, f9] ! 3 = f3"
  "[f0, f1, f2, f3, f4, f5, f6, f7, f8, f9] ! 4 = f4" "[f0, f1, f2, f3, f4, f5, f6, f7, f8, f9] ! 5 = f5"
  "[f0, f1, f2, f3, f4, f5, f6, f7, f8, f9] ! 6 = f6" "[f0, f1, f2, f3, f4, f5, f6, f7, f8, f9] ! 7 = f7"
  "[f0, f1, f2, f3, f4, f5, f6, f7, f8, f9] ! 8 = f8" "[f0, f1, f2, f3, f4, f5, f6, f7, f8, f9] ! 9 = f9"
  by simp_all

lemma fe_mul_value:
  assumes "loose f" "loose g"
  shows "tight (fe_mul f g) \<and> fe_val (fe_mul f g) mod prime_p = fe_val f * fe_val g mod prime_p"
  using assms(1)
proof (cases rule: limbs_cases)
  case F: (1 f0 f1 f2 f3 f4 f5 f6 f7 f8 f9)
  from assms(2) show ?thesis
  proof (cases rule: limbs_cases)
    case G: (1 g0 g1 g2 g3 g4 g5 g6 g7 g8 g9)
    show ?thesis
      unfolding F(1) G(1) fe_val_eq fe_mul_def Let_def nth_fe
      by (rule fe_conv_value, (rule rep_add rep_wide rep_mult_num F(2-) G(2-) | (simp; fail))+,
        (simp only: conv_def sum_10 coeff_def; simp add: algebra_simps)+)
  qed
qed

lemma fe_sq_value:
  assumes "loose f"
  shows "tight (fe_sq f) \<and> fe_val (fe_sq f) mod prime_p = fe_val f * fe_val f mod prime_p"
  using assms
proof (cases rule: limbs_cases)
  case F: (1 f0 f1 f2 f3 f4 f5 f6 f7 f8 f9)
  show ?thesis
    unfolding F(1) fe_val_eq fe_sq_def Let_def nth_fe
    by (rule fe_conv_value, (rule rep_add rep_wide rep_mult_num F(2-) | (simp; fail))+,
      (simp only: conv_def sum_10 coeff_def; simp add: algebra_simps)+)
qed

section \<open>Linear operations\<close>

lemma fe_add_value:
  assumes "limbs A B f" "limbs A' B' g" "A + A' < 2 ^ 31" "B + B' < 2 ^ 31"
  shows "limbs (A + A') (B + B') (fe_add f g) \<and> fe_val (fe_add f g) = fe_val f + fe_val g"
  using assms(1)
proof (cases rule: limbs_cases)
  case F: (1 f0 f1 f2 f3 f4 f5 f6 f7 f8 f9)
  from assms(2) show ?thesis
  proof (cases rule: limbs_cases)
    case G: (1 g0 g1 g2 g3 g4 g5 g6 g7 g8 g9)
    note r = rep_add [OF F(2) G(2)] rep_add [OF F(3) G(3)] rep_add [OF F(4) G(4)] rep_add [OF F(5) G(5)]
      rep_add [OF F(6) G(6)] rep_add [OF F(7) G(7)] rep_add [OF F(8) G(8)] rep_add [OF F(9) G(9)]
      rep_add [OF F(10) G(10)] rep_add [OF F(11) G(11)]
    have "fe_add f g = [f0 + g0, f1 + g1, f2 + g2, f3 + g3, f4 + g4, f5 + g5, f6 + g6, f7 + g7, f8 + g8, f9 + g9]"
      by (simp add: F(1) G(1) fe_add_def)
    moreover note v = r [unfolded rep_def, THEN conjunct1] and b = r [unfolded rep_def, THEN conjunct2]
    ultimately show ?thesis
      using assms(3,4) by (simp add: F(1) G(1) limbs_def fe_val_def v b)
  qed
qed

lemma fe_sub_value:
  assumes "limbs A B f" "limbs A' B' g" "A + A' < 2 ^ 31" "B + B' < 2 ^ 31"
  shows "limbs (A + A') (B + B') (fe_sub f g) \<and> fe_val (fe_sub f g) = fe_val f - fe_val g"
  using assms(1)
proof (cases rule: limbs_cases)
  case F: (1 f0 f1 f2 f3 f4 f5 f6 f7 f8 f9)
  from assms(2) show ?thesis
  proof (cases rule: limbs_cases)
    case G: (1 g0 g1 g2 g3 g4 g5 g6 g7 g8 g9)
    note r = rep_diff [OF F(2) G(2)] rep_diff [OF F(3) G(3)] rep_diff [OF F(4) G(4)] rep_diff [OF F(5) G(5)]
      rep_diff [OF F(6) G(6)] rep_diff [OF F(7) G(7)] rep_diff [OF F(8) G(8)] rep_diff [OF F(9) G(9)]
      rep_diff [OF F(10) G(10)] rep_diff [OF F(11) G(11)]
    have "fe_sub f g = [f0 - g0, f1 - g1, f2 - g2, f3 - g3, f4 - g4, f5 - g5, f6 - g6, f7 - g7, f8 - g8, f9 - g9]"
      by (simp add: F(1) G(1) fe_sub_def)
    moreover note v = r [unfolded rep_def, THEN conjunct1] and b = r [unfolded rep_def, THEN conjunct2]
    ultimately show ?thesis
      using assms(3,4) by (simp add: F(1) G(1) limbs_def fe_val_def v b)
  qed
qed

lemma fe_neg_value:
  assumes "limbs A B f" "A < 2 ^ 31" "B < 2 ^ 31"
  shows "limbs A B (fe_neg f) \<and> fe_val (fe_neg f) = - fe_val f"
  using assms(1)
proof (cases rule: limbs_cases)
  case F: (1 f0 f1 f2 f3 f4 f5 f6 f7 f8 f9)
  note r = rep_neg [OF F(2)] rep_neg [OF F(3)] rep_neg [OF F(4)] rep_neg [OF F(5)] rep_neg [OF F(6)]
    rep_neg [OF F(7)] rep_neg [OF F(8)] rep_neg [OF F(9)] rep_neg [OF F(10)] rep_neg [OF F(11)]
  have "fe_neg f = [- f0, - f1, - f2, - f3, - f4, - f5, - f6, - f7, - f8, - f9]"
    by (simp add: F(1) fe_neg_def)
  then show ?thesis
    using r assms(2,3) by (simp add: F(1) limbs_def fe_val_def rep_def algebra_simps)
qed

lemma limbs_length: "limbs A B f \<Longrightarrow> length f = 10"
  by (auto simp: limbs_def dest: list_all2_lengthD)

lemma fe_0_value: "tight fe_0" "fe_val fe_0 = 0"
  by (simp_all add: limbs_def fe_0_def fe_val_def eval_nat_numeral)

lemma fe_1_value: "tight fe_1" "fe_val fe_1 = 1"
  by (simp_all add: limbs_def fe_1_def fe_val_def eval_nat_numeral)

lemma fe_one_value: "tight fe_one" "fe_val fe_one = 1"
  by (simp_all add: limbs_def fe_one_def fe_val_def)

lemma map2_xor_0: "length f = length g \<Longrightarrow> map2 (XOR) f (map2 (\<lambda>a b. (a XOR b) AND 0) f g) = (f :: i32 list)"
  by (induction f g rule: list_induct2) simp_all

lemma map2_xor_1:
  "length f = length g \<Longrightarrow> map2 (XOR) f (map2 (\<lambda>a b. (a XOR b) AND -1) f g) = (g :: i32 list)"
  by (induction f g rule: list_induct2) (simp_all flip: xor.assoc)

lemma fe_ccopy_eq:
  "length f = length g \<Longrightarrow> b = 0 \<or> b = 1 \<Longrightarrow> fe_ccopy f g b = (if b = 1 then g else f)"
  using map2_xor_0 [of f g] map2_xor_1 [of f g] by (auto simp: fe_ccopy_def Let_def)

lemma map2_xor_other_0: "length f = length g \<Longrightarrow> map2 (XOR) g (map2 (\<lambda>a b. (a XOR b) AND 0) f g) = (g :: i32 list)"
  by (induction f g rule: list_induct2) simp_all

lemma map2_xor_other_1:
  "length f = length g \<Longrightarrow> map2 (XOR) g (map2 (\<lambda>a b. (a XOR b) AND -1) f g) = (f :: i32 list)"
  by (induction f g rule: list_induct2) (simp_all add: xor.left_commute)

lemma fe_cswap_eq:
  "length f = length g \<Longrightarrow> b = 0 \<or> b = 1 \<Longrightarrow> fe_cswap f g b = (if b = 1 then (g, f) else (f, g))"
  using map2_xor_0 [of f g] map2_xor_1 [of f g] map2_xor_other_0 [of f g] map2_xor_other_1 [of f g] by (auto simp: fe_cswap_def Let_def)

lemma fe_mul_small_value:
  assumes "loose f" "rep g G (2 ^ 31 - 1)"
  shows "tight (fe_mul_small f g) \<and> fe_val (fe_mul_small f g) mod prime_p = fe_val f * G mod prime_p"
  using assms(1)
proof (cases rule: limbs_cases)
  case F: (1 f0 f1 f2 f3 f4 f5 f6 f7 f8 f9)
  have m: "fe_mul_small f g = fe_carry (wide f0 g) (wide f1 g) (wide f2 g) (wide f3 g) (wide f4 g) (wide f5 g)
      (wide f6 g) (wide f7 g) (wide f8 g) (wide f9 g)"
    by (simp add: F(1) fe_mul_small_def wide_def Let_def)
  have r: "rep (wide x g) (sint x * G) (2 ^ 62)" if "rep x (sint x) A" "A * (2 ^ 31 - 1) \<le> 2 ^ 62" for x A
    using rep_mono [OF rep_wide [OF that(1) assms(2)]] that(2) by simp
  have "tight (fe_mul_small f g)"
    unfolding m
    by (rule fe_carry_value(1), (rule r, rule F(2-), simp)+)
  moreover have "fe_val (fe_mul_small f g) mod prime_p = fe_val f * G mod prime_p"
    unfolding m
    by (subst fe_carry_value(2), (rule r, rule F(2-), simp)+, simp add: F(1) fe_val_def algebra_simps)
  ultimately show ?thesis by blast
qed

section \<open>From bytes\<close>

lemma num_split:
  "num (take (m + n) s :: bytes) = num (take m s) + 2 ^ (8 * m) * num (take n (drop m s))"
proof (cases "m \<le> length s")
  case True
  then show ?thesis by (simp add: take_add num_append)
qed (simp add: take_add num_append)

text \<open>The number of the \<open>n\<close> bytes from \<open>k\<close> on\<close>

definition nums :: "bytes \<Rightarrow> nat \<Rightarrow> nat \<Rightarrow> nat" where
  "nums s k n = num (take n (drop k s))"

lemma nums_less: "nums s k n < 2 ^ (8 * n)"
proof -
  have "num (take n (drop k s)) < 2 ^ (8 * length (take n (drop k s)))"
    using num_less [of "take n (drop k s)"] by simp
  also have "\<dots> \<le> 2 ^ (8 * n)" by (intro power_increasing) simp_all
  finally show ?thesis by (simp add: nums_def)
qed

lemma nums_split: "nums s k (m + n) = nums s k m + 2 ^ (8 * m) * nums s (k + m) n"
  using num_split [of m n "drop k s"] by (simp add: nums_def add.commute)

lemma unat_load_nums:
  "unat (load24_le (drop k s)) = nums s k 3" "unat (load32_le (drop k s)) = nums s k 4"
  by (simp_all add: unat_load24_le unat_load32_le num_byte_at nums_def)

lemma rep_shifted:
  assumes "unat x = n" "n < 2 ^ m" "m + k \<le> 32"
  shows "rep (ucast (push_bit k x :: u32) :: i64) (int (n * 2 ^ k)) (2 ^ 62)"
proof -
  have "n * 2 ^ k < 2 ^ m * 2 ^ k" using assms(2) by simp
  also have "\<dots> \<le> 2 ^ 32" unfolding power_add [symmetric] using assms(3) by (intro power_increasing) simp_all
  finally have lt: "n * 2 ^ k < 2 ^ 32" .
  have "unat (push_bit k x) = n * 2 ^ k"
    using lt by (simp only: unsigned_push_bit_eq assms(1)) (simp add: take_bit_nat_eq_self push_bit_eq_mult)
  moreover have "int (n * 2 ^ k) \<le> 2 ^ 62"
  proof -
    have "int (n * 2 ^ k) < int (2 ^ 32)" using lt by (simp only: of_nat_less_iff)
    also have "\<dots> \<le> 2 ^ 62" by simp
    finally show ?thesis by simp
  qed
  ultimately show ?thesis by (intro rep_unsigned) simp_all
qed

lemma fe_frombytes_value:
  "tight (fe_frombytes s) \<and> fe_val (fe_frombytes s) mod prime_p = int (num (take 32 s) mod 2 ^ 255) mod prime_p"
proof -
  define M where "M = nums s 0 4 + 2 ^ 32 * nums s 4 3 + 2 ^ 56 * nums s 7 3 + 2 ^ 80 * nums s 10 3 + 2 ^ 104 * nums s 13 3
    + 2 ^ 128 * nums s 16 4 + 2 ^ 160 * nums s 20 3 + 2 ^ 184 * nums s 23 3 + 2 ^ 208 * nums s 26 3"
  have "nums s 0 29 = M"
    using nums_split [of s 0 4 25] nums_split [of s 4 3 22] nums_split [of s 7 3 19] nums_split [of s 10 3 16]
      nums_split [of s 13 3 13] nums_split [of s 16 4 9] nums_split [of s 20 3 6] nums_split [of s 23 3 3]
    by (simp add: M_def)
  then have M: "M < 2 ^ 232" and N: "num (take 32 s) = M + 2 ^ 232 * nums s 29 3"
    using nums_less [of s 0 29] nums_split [of s 0 29 3] by (simp_all add: nums_def)
  define r q where "r = nums s 29 3 mod 2 ^ 23" and "q = nums s 29 3 div 2 ^ 23"
  have rq: "nums s 29 3 = r + 2 ^ 23 * q" "r < 2 ^ 23" by (simp_all add: r_def q_def)
  have mod: "num (take 32 s) mod 2 ^ 255 = M + 2 ^ 232 * r"
  proof -
    have "M + 2 ^ 232 * r < 2 ^ 255" using M rq(2) by simp
    moreover have "num (take 32 s) = M + 2 ^ 232 * r + 2 ^ 255 * q" unfolding N rq(1) by simp
    ultimately show ?thesis by (simp only: mod_mult_self2 mod_less)
  qed
  have b: "nums s k 3 < 2 ^ 24" "nums s k 4 < 2 ^ 32" for k
    using nums_less [of s k 3] nums_less [of s k 4] by simp_all
  have r3: "rep (ucast (push_bit n (load24_le (drop k s))) :: i64) (int (nums s k 3 * 2 ^ n)) (2 ^ 62)" if "n \<le> 8" for k n
    using that by (intro rep_shifted [OF unat_load_nums(1) b(1)]) simp
  have r4: "rep (ucast (load32_le (drop k s)) :: i64) (int (nums s k 4)) (2 ^ 62)" for k
    using rep_shifted [OF unat_load_nums(2) b(2), where k = 0] by simp
  have "unat (load24_le (drop 29 s) AND drop_bit 1 0xffffff) = r"
  proof -
    have "drop_bit 1 0xffffff = (mask 23 :: u32)" by (simp add: mask_eq_exp_minus_1)
    then have "load24_le (drop 29 s) AND drop_bit 1 0xffffff = take_bit 23 (load24_le (drop 29 s))"
      by (simp only: take_bit_eq_mask)
    then show ?thesis
      by (simp only: unsigned_take_bit_eq unat_load_nums(1)) (simp add: r_def take_bit_eq_mod)
  qed
  then have r9: "rep (ucast (push_bit 2 (load24_le (drop 29 s) AND drop_bit 1 0xffffff)) :: i64) (int (r * 2 ^ 2)) (2 ^ 62)"
    using rq(2) by (rule rep_shifted) simp
  have eq: "fe_frombytes s = fe_carry (ucast (load32_le s)) (ucast (push_bit 6 (load24_le (drop 4 s))))
     (ucast (push_bit 5 (load24_le (drop 7 s)))) (ucast (push_bit 3 (load24_le (drop 10 s))))
     (ucast (push_bit 2 (load24_le (drop 13 s)))) (ucast (load32_le (drop 16 s)))
     (ucast (push_bit 7 (load24_le (drop 20 s)))) (ucast (push_bit 5 (load24_le (drop 23 s))))
     (ucast (push_bit 4 (load24_le (drop 26 s)))) (ucast (push_bit 2 (load24_le (drop 29 s) AND drop_bit 1 0xffffff)))"
    by (simp only: fe_frombytes_def fe_frombytes_mask_def Let_def)
  show ?thesis
    unfolding eq mod
    using fe_carry_value [OF r4 [of 0] r3 [of 6 4] r3 [of 5 7] r3 [of 3 10] r3 [of 2 13] r4 [of 16]
      r3 [of 7 20] r3 [of 5 23] r3 [of 4 26] r9] by (simp add: M_def algebra_simps)
qed

section \<open>To bytes\<close>

lemma rep_sdrop:
  fixes w :: i32
  assumes "rep w v B"
  shows "rep (signed_drop_bit n w) (v div 2 ^ n) B"
proof -
  have "\<bar>v div 2 ^ n\<bar> \<le> \<bar>v\<bar>"
  proof (cases "0 \<le> v")
    case True
    then have "v * 1 \<le> v * 2 ^ n" by (intro mult_left_mono) simp_all
    then have "v div 2 ^ n \<le> v" using zdiv_mono1 [of v "v * 2 ^ n" "2 ^ n"] by simp
    moreover have "0 \<le> v div 2 ^ n" using True by (simp add: pos_imp_zdiv_nonneg_iff)
    ultimately show ?thesis by linarith
  next
    case False
    then have "v * 2 ^ n \<le> v * 1" by (intro mult_left_mono_neg) simp_all
    then have "v \<le> v div 2 ^ n" using zdiv_mono1 [of "v * 2 ^ n" v "2 ^ n"] by simp
    moreover have "v div 2 ^ n < 0" using False by (intro div_neg_pos_less0) simp_all
    ultimately show ?thesis by linarith
  qed
  then show ?thesis using assms by (simp add: rep_def sint_signed_drop_bit_eq drop_bit_eq_div)
qed

lemma div_step: "0 < m \<Longrightarrow> 0 < n \<Longrightarrow> ((x :: int) div m + y) div n = (x + m * y) div (m * n)"
proof -
  assume "0 < m" "0 < n"
  then have "x div m + y = (x + m * y) div m" by simp
  then show ?thesis using \<open>0 < n\<close> by (simp only: zdiv_zmult2_eq order_less_imp_le)
qed

text \<open>The sign that the first loop finds: the guess \<open>q\<close> never carries a value over an edge.\<close>

lemma sign_of_value:
  fixes a0 a1 a2 a3 a4 a5 a6 a7 a8 a9 :: int
  defines "V \<equiv> a0 + a1 * 2 ^ 26 + a2 * 2 ^ 51 + a3 * 2 ^ 77 + a4 * 2 ^ 102 + a5 * 2 ^ 128 + a6 * 2 ^ 153 + a7 * 2 ^ 179 + a8 * 2 ^ 204 + a9 * 2 ^ 230"
  assumes "\<bar>a0\<bar> \<le> 36909875" "\<bar>a2\<bar> \<le> 36909875" "\<bar>a4\<bar> \<le> 36909875" "\<bar>a6\<bar> \<le> 36909875" "\<bar>a8\<bar> \<le> 36909875"
    "\<bar>a1\<bar> \<le> 18454937" "\<bar>a3\<bar> \<le> 18454937" "\<bar>a5\<bar> \<le> 18454937" "\<bar>a7\<bar> \<le> 18454937" "\<bar>a9\<bar> \<le> 18454937"
  defines "q \<equiv> (19 * a9 + 2 ^ 24) div 2 ^ 25"
  shows "(q + V) div 2 ^ 255 = (if V < 0 then -1 else 0)" "\<bar>V\<bar> < prime_p" "\<bar>q\<bar> \<le> 15"
proof -
  have q: "\<bar>q\<bar> \<le> 15" "0 \<le> a9 \<Longrightarrow> 0 \<le> q" "a9 \<le> 0 \<Longrightarrow> q \<le> 0"
    using assms(11) unfolding q_def by simp_all
  note u = assms(2-11) [unfolded abs_le_iff, THEN conjunct1] and l = assms(2-11) [unfolded abs_le_iff, THEN conjunct2]
  have V: "V < 0 \<Longrightarrow> a9 \<le> 0" "0 \<le> V \<Longrightarrow> 0 \<le> a9" "V \<le> 2 ^ 255 - 100" "- V \<le> 2 ^ 255 - 100"
    using u l unfolding V_def by simp_all
  show "\<bar>V\<bar> < prime_p" "\<bar>q\<bar> \<le> 15" using V(3,4) q(1) by (simp_all add: prime_p_def)
  show "(q + V) div 2 ^ 255 = (if V < 0 then -1 else 0)"
  proof (cases "V < 0")
    case True
    then have "q \<le> 0" using q(3) V(1) by simp
    then have "- (2 ^ 255) \<le> q + V" "q + V < 0" using True q(1) V(4) by simp_all
    then have "(q + V) div 2 ^ 255 = -1" by (intro int_div_pos_eq [of _ _ _ "q + V + 2 ^ 255"]) simp_all
    then show ?thesis using True by simp
  next
    case False
    then have "0 \<le> q" using q(2) V(2) by simp
    then have "0 \<le> q + V" "q + V < 2 ^ 255" using False q(1) V(3) by simp_all
    then show ?thesis using False by (simp add: div_pos_pos_trivial)
  qed
qed

lemma upt_5: "[0..<5] = [0, 1, 2, 3, 4::nat]"
  by (simp add: upt_rec)

lemma tobytes_sign_value:
  assumes "tight h"
  shows "rep (tobytes_sign h) (if fe_val h < 0 then -1 else 0) 1" "\<bar>fe_val h\<bar> < prime_p"
proof -
  have "sint (tobytes_sign h) = (if fe_val h < 0 then -1 else 0) \<and> \<bar>fe_val h\<bar> < prime_p"
    using assms
  proof (cases rule: limbs_cases)
    case T: (1 t0 t1 t2 t3 t4 t5 t6 t7 t8 t9)
    let ?q = "(19 * sint t9 + 2 ^ 24) div 2 ^ 25"
    have q: "rep (signed_drop_bit 25 (19 * t9 + push_bit 24 1)) ?q 15"
    proof -
      have "rep (push_bit 24 1 :: i32) (2 ^ 24) (2 ^ 24)"
        using rep_of_int [of "2 ^ 24" "2 ^ 24", where ?'a = 32] by (simp add: push_bit_eq_mult)
      then have "rep (19 * t9 + push_bit 24 1) (19 * sint t9 + 2 ^ 24) (19 * 18454937 + 2 ^ 24)"
        by (intro rep_add rep_num_mult T(11)) simp_all
      then have "rep (signed_drop_bit 25 (19 * t9 + push_bit 24 1)) ?q (19 * 18454937 + 2 ^ 24)"
        by (rule rep_sdrop)
      moreover have "\<bar>?q\<bar> \<le> 15" using T(11) by (simp add: rep_def)
      ultimately show ?thesis by (simp add: rep_def)
    qed
    have step: "rep (signed_drop_bit n (w + t)) ((v + sint t) div 2 ^ n) (B + A)"
      if "rep w v B" "rep t (sint t) A" "B + A < 2 ^ 31" for w t :: i32 and v A B n
      using that by (intro rep_sdrop rep_add) simp_all
    define w0 v0 where "w0 = signed_drop_bit 25 (19 * t9 + push_bit 24 1)" and "v0 = ?q"
    have s0: "rep w0 v0 15" using q by (simp only: w0_def v0_def)
    define w1 v1 where "w1 = signed_drop_bit 26 (w0 + t0)" and "v1 = (v0 + sint t0) div 2 ^ 26"
    have s1: "rep w1 v1 (15 + 36909875)" unfolding w1_def v1_def by (rule step [OF s0 T(2)]) simp
    define w2 v2 where "w2 = signed_drop_bit 25 (w1 + t1)" and "v2 = (v1 + sint t1) div 2 ^ 25"
    have s2: "rep w2 v2 (15 + 36909875 + 18454937)" unfolding w2_def v2_def by (rule step [OF s1 T(3)]) simp
    define w3 v3 where "w3 = signed_drop_bit 26 (w2 + t2)" and "v3 = (v2 + sint t2) div 2 ^ 26"
    have s3: "rep w3 v3 (15 + 36909875 + 18454937 + 36909875)" unfolding w3_def v3_def by (rule step [OF s2 T(4)]) simp
    define w4 v4 where "w4 = signed_drop_bit 25 (w3 + t3)" and "v4 = (v3 + sint t3) div 2 ^ 25"
    have s4: "rep w4 v4 (15 + 36909875 + 18454937 + 36909875 + 18454937)" unfolding w4_def v4_def by (rule step [OF s3 T(5)]) simp
    define w5 v5 where "w5 = signed_drop_bit 26 (w4 + t4)" and "v5 = (v4 + sint t4) div 2 ^ 26"
    have s5: "rep w5 v5 (15 + 36909875 + 18454937 + 36909875 + 18454937 + 36909875)" unfolding w5_def v5_def by (rule step [OF s4 T(6)]) simp
    define w6 v6 where "w6 = signed_drop_bit 25 (w5 + t5)" and "v6 = (v5 + sint t5) div 2 ^ 25"
    have s6: "rep w6 v6 (15 + 36909875 + 18454937 + 36909875 + 18454937 + 36909875 + 18454937)" unfolding w6_def v6_def by (rule step [OF s5 T(7)]) simp
    define w7 v7 where "w7 = signed_drop_bit 26 (w6 + t6)" and "v7 = (v6 + sint t6) div 2 ^ 26"
    have s7: "rep w7 v7 (15 + 36909875 + 18454937 + 36909875 + 18454937 + 36909875 + 18454937 + 36909875)" unfolding w7_def v7_def by (rule step [OF s6 T(8)]) simp
    define w8 v8 where "w8 = signed_drop_bit 25 (w7 + t7)" and "v8 = (v7 + sint t7) div 2 ^ 25"
    have s8: "rep w8 v8 (15 + 36909875 + 18454937 + 36909875 + 18454937 + 36909875 + 18454937 + 36909875 + 18454937)" unfolding w8_def v8_def by (rule step [OF s7 T(9)]) simp
    define w9 v9 where "w9 = signed_drop_bit 26 (w8 + t8)" and "v9 = (v8 + sint t8) div 2 ^ 26"
    have s9: "rep w9 v9 (15 + 36909875 + 18454937 + 36909875 + 18454937 + 36909875 + 18454937 + 36909875 + 18454937 + 36909875)" unfolding w9_def v9_def by (rule step [OF s8 T(10)]) simp
    define w10 v10 where "w10 = signed_drop_bit 25 (w9 + t9)" and "v10 = (v9 + sint t9) div 2 ^ 25"
    have s10: "rep w10 v10 (15 + 36909875 + 18454937 + 36909875 + 18454937 + 36909875 + 18454937 + 36909875 + 18454937 + 36909875 + 18454937)" unfolding w10_def v10_def by (rule step [OF s9 T(11)]) simp
    have c1: "v1 = (v0 + sint t0) div 2 ^ 26" by (simp only: v1_def)
    have c2: "v2 = (v0 + (sint t0 + sint t1 * 2 ^ 26)) div 2 ^ 51"
      using div_step [of "2 ^ 26" "2 ^ 25" "v0 + (sint t0)" "sint t1"] unfolding v2_def c1 by (simp add: algebra_simps)
    have c3: "v3 = (v0 + (sint t0 + sint t1 * 2 ^ 26 + sint t2 * 2 ^ 51)) div 2 ^ 77"
      using div_step [of "2 ^ 51" "2 ^ 26" "v0 + (sint t0 + sint t1 * 2 ^ 26)" "sint t2"] unfolding v3_def c2 by (simp add: algebra_simps)
    have c4: "v4 = (v0 + (sint t0 + sint t1 * 2 ^ 26 + sint t2 * 2 ^ 51 + sint t3 * 2 ^ 77)) div 2 ^ 102"
      using div_step [of "2 ^ 77" "2 ^ 25" "v0 + (sint t0 + sint t1 * 2 ^ 26 + sint t2 * 2 ^ 51)" "sint t3"] unfolding v4_def c3 by (simp add: algebra_simps)
    have c5: "v5 = (v0 + (sint t0 + sint t1 * 2 ^ 26 + sint t2 * 2 ^ 51 + sint t3 * 2 ^ 77 + sint t4 * 2 ^ 102)) div 2 ^ 128"
      using div_step [of "2 ^ 102" "2 ^ 26" "v0 + (sint t0 + sint t1 * 2 ^ 26 + sint t2 * 2 ^ 51 + sint t3 * 2 ^ 77)" "sint t4"] unfolding v5_def c4 by (simp add: algebra_simps)
    have c6: "v6 = (v0 + (sint t0 + sint t1 * 2 ^ 26 + sint t2 * 2 ^ 51 + sint t3 * 2 ^ 77 + sint t4 * 2 ^ 102 + sint t5 * 2 ^ 128)) div 2 ^ 153"
      using div_step [of "2 ^ 128" "2 ^ 25" "v0 + (sint t0 + sint t1 * 2 ^ 26 + sint t2 * 2 ^ 51 + sint t3 * 2 ^ 77 + sint t4 * 2 ^ 102)" "sint t5"] unfolding v6_def c5 by (simp add: algebra_simps)
    have c7: "v7 = (v0 + (sint t0 + sint t1 * 2 ^ 26 + sint t2 * 2 ^ 51 + sint t3 * 2 ^ 77 + sint t4 * 2 ^ 102 + sint t5 * 2 ^ 128 + sint t6 * 2 ^ 153)) div 2 ^ 179"
      using div_step [of "2 ^ 153" "2 ^ 26" "v0 + (sint t0 + sint t1 * 2 ^ 26 + sint t2 * 2 ^ 51 + sint t3 * 2 ^ 77 + sint t4 * 2 ^ 102 + sint t5 * 2 ^ 128)" "sint t6"] unfolding v7_def c6 by (simp add: algebra_simps)
    have c8: "v8 = (v0 + (sint t0 + sint t1 * 2 ^ 26 + sint t2 * 2 ^ 51 + sint t3 * 2 ^ 77 + sint t4 * 2 ^ 102 + sint t5 * 2 ^ 128 + sint t6 * 2 ^ 153 + sint t7 * 2 ^ 179)) div 2 ^ 204"
      using div_step [of "2 ^ 179" "2 ^ 25" "v0 + (sint t0 + sint t1 * 2 ^ 26 + sint t2 * 2 ^ 51 + sint t3 * 2 ^ 77 + sint t4 * 2 ^ 102 + sint t5 * 2 ^ 128 + sint t6 * 2 ^ 153)" "sint t7"] unfolding v8_def c7 by (simp add: algebra_simps)
    have c9: "v9 = (v0 + (sint t0 + sint t1 * 2 ^ 26 + sint t2 * 2 ^ 51 + sint t3 * 2 ^ 77 + sint t4 * 2 ^ 102 + sint t5 * 2 ^ 128 + sint t6 * 2 ^ 153 + sint t7 * 2 ^ 179 + sint t8 * 2 ^ 204)) div 2 ^ 230"
      using div_step [of "2 ^ 204" "2 ^ 26" "v0 + (sint t0 + sint t1 * 2 ^ 26 + sint t2 * 2 ^ 51 + sint t3 * 2 ^ 77 + sint t4 * 2 ^ 102 + sint t5 * 2 ^ 128 + sint t6 * 2 ^ 153 + sint t7 * 2 ^ 179)" "sint t8"] unfolding v9_def c8 by (simp add: algebra_simps)
    have c10: "v10 = (v0 + (sint t0 + sint t1 * 2 ^ 26 + sint t2 * 2 ^ 51 + sint t3 * 2 ^ 77 + sint t4 * 2 ^ 102 + sint t5 * 2 ^ 128 + sint t6 * 2 ^ 153 + sint t7 * 2 ^ 179 + sint t8 * 2 ^ 204 + sint t9 * 2 ^ 230)) div 2 ^ 255"
      using div_step [of "2 ^ 230" "2 ^ 25" "v0 + (sint t0 + sint t1 * 2 ^ 26 + sint t2 * 2 ^ 51 + sint t3 * 2 ^ 77 + sint t4 * 2 ^ 102 + sint t5 * 2 ^ 128 + sint t6 * 2 ^ 153 + sint t7 * 2 ^ 179 + sint t8 * 2 ^ 204)" "sint t9"] unfolding v10_def c9 by (simp add: algebra_simps)
    have "tobytes_sign h = w10"
      unfolding T(1) tobytes_sign_def Let_def upt_5 foldl.simps w0_def w1_def w2_def w3_def w4_def w5_def w6_def w7_def
        w8_def w9_def w10_def by simp
    then have w: "sint (tobytes_sign h) = v10" using s10 by (simp only: rep_def)
    have val: "fe_val h = sint t0 + sint t1 * 2 ^ 26 + sint t2 * 2 ^ 51 + sint t3 * 2 ^ 77 + sint t4 * 2 ^ 102 + sint t5 * 2 ^ 128 + sint t6 * 2 ^ 153 + sint t7 * 2 ^ 179 + sint t8 * 2 ^ 204 + sint t9 * 2 ^ 230" by (simp add: T(1) fe_val_def)
    note b = T(2-) [unfolded rep_def, THEN conjunct2]
    show ?thesis
      using sign_of_value [OF b(1,3,5,7,9,2,4,6,8,10), folded v0_def]
      unfolding w val c10 by simp
  qed
  then show "rep (tobytes_sign h) (if fe_val h < 0 then -1 else 0) 1" "\<bar>fe_val h\<bar> < prime_p"
    by (auto simp: rep_def)
qed

lemma sum_10_nat:
  fixes f :: "nat \<Rightarrow> nat"
  shows "(\<Sum>i<10. f i) = f 0 + f 1 + f 2 + f 3 + f 4 + f 5 + f 6 + f 7 + f 8 + f 9"
  by (simp add: eval_nat_numeral)

lemma limb_step:
  fixes t q :: i32
  assumes "rep t a A" "rep q c 19" "A + 19 \<le> 19 * 2 ^ n" "n \<le> 26"
  shows "rep (signed_drop_bit n (t + q)) ((a + c) div 2 ^ n) 19"
    "int (unat (t + q - signed_drop_bit n (t + q) * push_bit n 1)) = (a + c) mod 2 ^ n"
    "unat (t + q - signed_drop_bit n (t + q) * push_bit n 1) < 2 ^ n"
proof -
  have n: "(2 :: int) ^ n \<le> 2 ^ 26" using assms(4) by (intro power_increasing) simp_all
  then have A: "A + 19 < 2 ^ 31" using assms(3) by simp
  have s: "rep (t + q) (a + c) (A + 19)" using A by (intro rep_add assms(1,2)) simp
  have "\<bar>a + c\<bar> \<le> 19 * 2 ^ n" using s assms(3) by (simp add: rep_def)
  then have "a + c \<le> 19 * 2 ^ n" "- 19 * 2 ^ n \<le> a + c" by linarith+
  then have "(a + c) div 2 ^ n \<le> 19" "- 19 \<le> (a + c) div 2 ^ n"
    using zdiv_mono1 [of "a + c" "19 * 2 ^ n" "2 ^ n"] zdiv_mono1 [of "- 19 * 2 ^ n" "a + c" "2 ^ n"]
      nonzero_mult_div_cancel_right [of "2 ^ n" "- 19 :: int"] by (simp_all del: mult_minus_left)
  then show r: "rep (signed_drop_bit n (t + q)) ((a + c) div 2 ^ n) 19"
    using rep_sdrop [OF s, of n] by (simp add: rep_def)
  have "t + q - signed_drop_bit n (t + q) * push_bit n 1 = of_int ((a + c) - (a + c) div 2 ^ n * 2 ^ n)"
    using rep_word [OF s] rep_word [OF r] by (simp add: push_bit_eq_mult)
  also have "(a + c) - (a + c) div 2 ^ n * 2 ^ n = (a + c) mod 2 ^ n" by (simp add: minus_div_mult_eq_mod)
  finally have w: "t + q - signed_drop_bit n (t + q) * push_bit n 1 = of_int ((a + c) mod 2 ^ n)" .
  have lt: "(a + c) mod 2 ^ n < 2 ^ n" by simp
  have m: "0 \<le> (a + c) mod 2 ^ n" by simp
  have m32: "(a + c) mod 2 ^ n < 2 ^ 32" by (rule less_le_trans [OF lt]) (use n in simp)
  have "uint (of_int ((a + c) mod 2 ^ n) :: i32) = (a + c) mod 2 ^ n"
    using m m32 by (simp add: unsigned_of_int take_bit_int_eq_self)
  then show u: "int (unat (t + q - signed_drop_bit n (t + q) * push_bit n 1)) = (a + c) mod 2 ^ n"
    by (simp only: w) (metis uint_nat)
  show "unat (t + q - signed_drop_bit n (t + q) * push_bit n 1) < 2 ^ n"
    using lt unfolding u [symmetric] by (metis of_nat_less_iff of_nat_numeral of_nat_power)
qed

definition digit_bits :: "nat \<Rightarrow> nat" where
  "digit_bits i = (if even i then 26 else 25)"

lemma tobytes_limb_eq:
  "k < length t \<Longrightarrow> q' = signed_drop_bit n (t ! k + q) \<Longrightarrow> t' = t[k := t ! k + q - q' * push_bit n 1] \<Longrightarrow>
   tobytes_limb n k (t, q) = (t', q')"
  by (simp add: tobytes_limb_def Let_def)

lemma tobytes_limbs_value:
  assumes "tight h" "rep q c 19"
  shows "\<exists>d C. tobytes_limbs h q = d \<and> length d = 10 \<and> (\<forall>i<10. unat (d ! i) < 2 ^ digit_bits i) \<and>
    fe_val h + c = int (\<Sum>i<10. unat (d ! i) * 2 ^ ex i) + C * 2 ^ 255"
  using assms(1)
proof (cases rule: limbs_cases)
  case T: (1 t0 t1 t2 t3 t4 t5 t6 t7 t8 t9)
  define q0 c0 where "q0 = q" and "c0 = c"
  have r0: "rep q0 c0 19" using assms(2) by (simp only: q0_def c0_def)
  define q1 d0 c1 where "q1 = signed_drop_bit 26 (t0 + q0)"
    and "d0 = t0 + q0 - q1 * push_bit 26 1" and "c1 = (sint t0 + c0) div 2 ^ 26"
  have r1: "rep q1 c1 19" unfolding q1_def c1_def by (rule limb_step(1) [OF T(2) r0]) simp_all
  have u0: "int (unat d0) = (sint t0 + c0) mod 2 ^ 26"
    unfolding d0_def q1_def by (rule limb_step(2) [OF T(2) r0]) simp_all
  have l0: "unat d0 < 2 ^ 26"
    unfolding d0_def q1_def by (rule limb_step(3) [OF T(2) r0]) simp_all
  have v0: "sint t0 + c0 = int (unat d0) + 2 ^ 26 * c1"
    unfolding u0 c1_def by (simp only: mod_mult_div_eq)
  define q2 d1 c2 where "q2 = signed_drop_bit 25 (t1 + q1)"
    and "d1 = t1 + q1 - q2 * push_bit 25 1" and "c2 = (sint t1 + c1) div 2 ^ 25"
  have r2: "rep q2 c2 19" unfolding q2_def c2_def by (rule limb_step(1) [OF T(3) r1]) simp_all
  have u1: "int (unat d1) = (sint t1 + c1) mod 2 ^ 25"
    unfolding d1_def q2_def by (rule limb_step(2) [OF T(3) r1]) simp_all
  have l1: "unat d1 < 2 ^ 25"
    unfolding d1_def q2_def by (rule limb_step(3) [OF T(3) r1]) simp_all
  have v1: "sint t1 + c1 = int (unat d1) + 2 ^ 25 * c2"
    unfolding u1 c2_def by (simp only: mod_mult_div_eq)
  define q3 d2 c3 where "q3 = signed_drop_bit 26 (t2 + q2)"
    and "d2 = t2 + q2 - q3 * push_bit 26 1" and "c3 = (sint t2 + c2) div 2 ^ 26"
  have r3: "rep q3 c3 19" unfolding q3_def c3_def by (rule limb_step(1) [OF T(4) r2]) simp_all
  have u2: "int (unat d2) = (sint t2 + c2) mod 2 ^ 26"
    unfolding d2_def q3_def by (rule limb_step(2) [OF T(4) r2]) simp_all
  have l2: "unat d2 < 2 ^ 26"
    unfolding d2_def q3_def by (rule limb_step(3) [OF T(4) r2]) simp_all
  have v2: "sint t2 + c2 = int (unat d2) + 2 ^ 26 * c3"
    unfolding u2 c3_def by (simp only: mod_mult_div_eq)
  define q4 d3 c4 where "q4 = signed_drop_bit 25 (t3 + q3)"
    and "d3 = t3 + q3 - q4 * push_bit 25 1" and "c4 = (sint t3 + c3) div 2 ^ 25"
  have r4: "rep q4 c4 19" unfolding q4_def c4_def by (rule limb_step(1) [OF T(5) r3]) simp_all
  have u3: "int (unat d3) = (sint t3 + c3) mod 2 ^ 25"
    unfolding d3_def q4_def by (rule limb_step(2) [OF T(5) r3]) simp_all
  have l3: "unat d3 < 2 ^ 25"
    unfolding d3_def q4_def by (rule limb_step(3) [OF T(5) r3]) simp_all
  have v3: "sint t3 + c3 = int (unat d3) + 2 ^ 25 * c4"
    unfolding u3 c4_def by (simp only: mod_mult_div_eq)
  define q5 d4 c5 where "q5 = signed_drop_bit 26 (t4 + q4)"
    and "d4 = t4 + q4 - q5 * push_bit 26 1" and "c5 = (sint t4 + c4) div 2 ^ 26"
  have r5: "rep q5 c5 19" unfolding q5_def c5_def by (rule limb_step(1) [OF T(6) r4]) simp_all
  have u4: "int (unat d4) = (sint t4 + c4) mod 2 ^ 26"
    unfolding d4_def q5_def by (rule limb_step(2) [OF T(6) r4]) simp_all
  have l4: "unat d4 < 2 ^ 26"
    unfolding d4_def q5_def by (rule limb_step(3) [OF T(6) r4]) simp_all
  have v4: "sint t4 + c4 = int (unat d4) + 2 ^ 26 * c5"
    unfolding u4 c5_def by (simp only: mod_mult_div_eq)
  define q6 d5 c6 where "q6 = signed_drop_bit 25 (t5 + q5)"
    and "d5 = t5 + q5 - q6 * push_bit 25 1" and "c6 = (sint t5 + c5) div 2 ^ 25"
  have r6: "rep q6 c6 19" unfolding q6_def c6_def by (rule limb_step(1) [OF T(7) r5]) simp_all
  have u5: "int (unat d5) = (sint t5 + c5) mod 2 ^ 25"
    unfolding d5_def q6_def by (rule limb_step(2) [OF T(7) r5]) simp_all
  have l5: "unat d5 < 2 ^ 25"
    unfolding d5_def q6_def by (rule limb_step(3) [OF T(7) r5]) simp_all
  have v5: "sint t5 + c5 = int (unat d5) + 2 ^ 25 * c6"
    unfolding u5 c6_def by (simp only: mod_mult_div_eq)
  define q7 d6 c7 where "q7 = signed_drop_bit 26 (t6 + q6)"
    and "d6 = t6 + q6 - q7 * push_bit 26 1" and "c7 = (sint t6 + c6) div 2 ^ 26"
  have r7: "rep q7 c7 19" unfolding q7_def c7_def by (rule limb_step(1) [OF T(8) r6]) simp_all
  have u6: "int (unat d6) = (sint t6 + c6) mod 2 ^ 26"
    unfolding d6_def q7_def by (rule limb_step(2) [OF T(8) r6]) simp_all
  have l6: "unat d6 < 2 ^ 26"
    unfolding d6_def q7_def by (rule limb_step(3) [OF T(8) r6]) simp_all
  have v6: "sint t6 + c6 = int (unat d6) + 2 ^ 26 * c7"
    unfolding u6 c7_def by (simp only: mod_mult_div_eq)
  define q8 d7 c8 where "q8 = signed_drop_bit 25 (t7 + q7)"
    and "d7 = t7 + q7 - q8 * push_bit 25 1" and "c8 = (sint t7 + c7) div 2 ^ 25"
  have r8: "rep q8 c8 19" unfolding q8_def c8_def by (rule limb_step(1) [OF T(9) r7]) simp_all
  have u7: "int (unat d7) = (sint t7 + c7) mod 2 ^ 25"
    unfolding d7_def q8_def by (rule limb_step(2) [OF T(9) r7]) simp_all
  have l7: "unat d7 < 2 ^ 25"
    unfolding d7_def q8_def by (rule limb_step(3) [OF T(9) r7]) simp_all
  have v7: "sint t7 + c7 = int (unat d7) + 2 ^ 25 * c8"
    unfolding u7 c8_def by (simp only: mod_mult_div_eq)
  define q9 d8 c9 where "q9 = signed_drop_bit 26 (t8 + q8)"
    and "d8 = t8 + q8 - q9 * push_bit 26 1" and "c9 = (sint t8 + c8) div 2 ^ 26"
  have r9: "rep q9 c9 19" unfolding q9_def c9_def by (rule limb_step(1) [OF T(10) r8]) simp_all
  have u8: "int (unat d8) = (sint t8 + c8) mod 2 ^ 26"
    unfolding d8_def q9_def by (rule limb_step(2) [OF T(10) r8]) simp_all
  have l8: "unat d8 < 2 ^ 26"
    unfolding d8_def q9_def by (rule limb_step(3) [OF T(10) r8]) simp_all
  have v8: "sint t8 + c8 = int (unat d8) + 2 ^ 26 * c9"
    unfolding u8 c9_def by (simp only: mod_mult_div_eq)
  define q10 d9 c10 where "q10 = signed_drop_bit 25 (t9 + q9)"
    and "d9 = t9 + q9 - q10 * push_bit 25 1" and "c10 = (sint t9 + c9) div 2 ^ 25"
  have r10: "rep q10 c10 19" unfolding q10_def c10_def by (rule limb_step(1) [OF T(11) r9]) simp_all
  have u9: "int (unat d9) = (sint t9 + c9) mod 2 ^ 25"
    unfolding d9_def q10_def by (rule limb_step(2) [OF T(11) r9]) simp_all
  have l9: "unat d9 < 2 ^ 25"
    unfolding d9_def q10_def by (rule limb_step(3) [OF T(11) r9]) simp_all
  have v9: "sint t9 + c9 = int (unat d9) + 2 ^ 25 * c10"
    unfolding u9 c10_def by (simp only: mod_mult_div_eq)
  have e0: "tobytes_limb 26 0 ([t0, t1, t2, t3, t4, t5, t6, t7, t8, t9], q0) =
      ([d0, t1, t2, t3, t4, t5, t6, t7, t8, t9], q1)"
    by (rule tobytes_limb_eq) (simp_all add: q1_def d0_def)
  have e1: "tobytes_limb 25 1 ([d0, t1, t2, t3, t4, t5, t6, t7, t8, t9], q1) =
      ([d0, d1, t2, t3, t4, t5, t6, t7, t8, t9], q2)"
    by (rule tobytes_limb_eq) (simp_all add: q2_def d1_def)
  have e2: "tobytes_limb 26 2 ([d0, d1, t2, t3, t4, t5, t6, t7, t8, t9], q2) =
      ([d0, d1, d2, t3, t4, t5, t6, t7, t8, t9], q3)"
    by (rule tobytes_limb_eq) (simp_all add: q3_def d2_def)
  have e3: "tobytes_limb 25 3 ([d0, d1, d2, t3, t4, t5, t6, t7, t8, t9], q3) =
      ([d0, d1, d2, d3, t4, t5, t6, t7, t8, t9], q4)"
    by (rule tobytes_limb_eq) (simp_all add: q4_def d3_def)
  have e4: "tobytes_limb 26 4 ([d0, d1, d2, d3, t4, t5, t6, t7, t8, t9], q4) =
      ([d0, d1, d2, d3, d4, t5, t6, t7, t8, t9], q5)"
    by (rule tobytes_limb_eq) (simp_all add: q5_def d4_def)
  have e5: "tobytes_limb 25 5 ([d0, d1, d2, d3, d4, t5, t6, t7, t8, t9], q5) =
      ([d0, d1, d2, d3, d4, d5, t6, t7, t8, t9], q6)"
    by (rule tobytes_limb_eq) (simp_all add: q6_def d5_def)
  have e6: "tobytes_limb 26 6 ([d0, d1, d2, d3, d4, d5, t6, t7, t8, t9], q6) =
      ([d0, d1, d2, d3, d4, d5, d6, t7, t8, t9], q7)"
    by (rule tobytes_limb_eq) (simp_all add: q7_def d6_def)
  have e7: "tobytes_limb 25 7 ([d0, d1, d2, d3, d4, d5, d6, t7, t8, t9], q7) =
      ([d0, d1, d2, d3, d4, d5, d6, d7, t8, t9], q8)"
    by (rule tobytes_limb_eq) (simp_all add: q8_def d7_def)
  have e8: "tobytes_limb 26 8 ([d0, d1, d2, d3, d4, d5, d6, d7, t8, t9], q8) =
      ([d0, d1, d2, d3, d4, d5, d6, d7, d8, t9], q9)"
    by (rule tobytes_limb_eq) (simp_all add: q9_def d8_def)
  have e9: "tobytes_limb 25 9 ([d0, d1, d2, d3, d4, d5, d6, d7, d8, t9], q9) =
      ([d0, d1, d2, d3, d4, d5, d6, d7, d8, d9], q10)"
    by (rule tobytes_limb_eq) (simp_all add: q10_def d9_def)
  have "tobytes_limbs h q = [d0, d1, d2, d3, d4, d5, d6, d7, d8, d9]"
    unfolding T(1) tobytes_limbs_def upt_5 q0_def [symmetric]
    by (simp add: e0 e1 [simplified] e2 e3 e4 e5 e6 e7 e8 e9)
  moreover have "unat ([d0, d1, d2, d3, d4, d5, d6, d7, d8, d9] ! i) < 2 ^ digit_bits i" if "i < 10" for i
  proof -
    have "i \<in> {0, 1, 2, 3, 4, 5, 6, 7, 8, 9}" using that by auto
    then show ?thesis
      using l0 l1 l2 l3 l4 l5 l6 l7 l8 l9 by (elim insertE emptyE; hypsubst) (simp_all add: digit_bits_def)
  qed
  moreover have "fe_val h + c = int (\<Sum>i<10. unat ([d0, d1, d2, d3, d4, d5, d6, d7, d8, d9] ! i) * 2 ^ ex i) + c10 * 2 ^ 255"
    using v0 v1 v2 v3 v4 v5 v6 v7 v8 v9 by (simp add: T(1) fe_val_def sum_10_nat c0_def)
  ultimately show ?thesis by (intro exI [of _ "[d0, d1, d2, d3, d4, d5, d6, d7, d8, d9]"] exI [of _ c10]) simp
qed

lemma unat_pack:
  fixes x y :: u32
  assumes "unat x < 2 ^ (r + s)" "s \<le> 32"
  shows "unat (drop_bit r x OR push_bit s y) = unat x div 2 ^ r + 2 ^ s * (unat y mod 2 ^ (32 - s))"
proof -
  have "unat x div 2 ^ r < 2 ^ s"
    using assms(1) by (simp add: power_add div_less_iff_less_mult mult.commute)
  moreover have "unat (drop_bit r x) = unat x div 2 ^ r"
    by (simp only: unat_drop_bit_eq) (simp add: drop_bit_eq_div)
  moreover have "unat (push_bit s y) = push_bit s (unat y mod 2 ^ (32 - s))"
  proof -
    have "LENGTH(32) = 32" by simp
    then show ?thesis unfolding unsigned_push_bit_eq take_bit_push_bit unfolding take_bit_eq_mod by simp
  qed
  ultimately show ?thesis by (simp only: unsigned_or_eq or_push_bit_nat)
qed

lemma num_words:
  "num (store32_le w0 @ store32_le w1 @ store32_le w2 @ store32_le w3 @ store32_le w4 @ store32_le w5 @ store32_le w6
     @ store32_le w7) = unat w0 + unat w1 * 2 ^ 32 + unat w2 * 2 ^ 64 + unat w3 * 2 ^ 96 + unat w4 * 2 ^ 128
     + unat w5 * 2 ^ 160 + unat w6 * 2 ^ 192 + unat w7 * 2 ^ 224"
  by (simp add: num_append num_store32_le)

text \<open>The limbs fill the eight words without a gap.\<close>

lemma digits_words:
  fixes d :: "nat \<Rightarrow> nat"
  assumes "d 4 < 2 ^ 26" "d 9 < 2 ^ 25"
  shows "(d 0 div 2 ^ 0 + 2 ^ 26 * (d 1 mod 2 ^ (32 - 26))) + (d 1 div 2 ^ 6 + 2 ^ 19 * (d 2 mod 2 ^ (32 - 19))) * 2 ^ 32
      + (d 2 div 2 ^ 13 + 2 ^ 13 * (d 3 mod 2 ^ (32 - 13))) * 2 ^ 64 + (d 3 div 2 ^ 19 + 2 ^ 6 * (d 4 mod 2 ^ (32 - 6))) * 2 ^ 96
      + (d 5 div 2 ^ 0 + 2 ^ 25 * (d 6 mod 2 ^ (32 - 25))) * 2 ^ 128 + (d 6 div 2 ^ 7 + 2 ^ 19 * (d 7 mod 2 ^ (32 - 19))) * 2 ^ 160
      + (d 7 div 2 ^ 13 + 2 ^ 12 * (d 8 mod 2 ^ (32 - 12))) * 2 ^ 192
      + (d 8 div 2 ^ 20 + 2 ^ 6 * (d 9 mod 2 ^ (32 - 6))) * 2 ^ 224 = (\<Sum>i<10. d i * 2 ^ ex i)"
proof -
  define lo hi where "lo i k = d i mod 2 ^ k" and "hi i k = d i div 2 ^ k" for i k
  have d: "d i = lo i k + 2 ^ k * hi i k" for i k by (simp add: lo_def hi_def)
  have "d 4 mod 2 ^ 26 = d 4" "d 9 mod 2 ^ 26 = d 9" using assms by simp_all
  then show ?thesis
    using d [of 1 6] d [of 2 13] d [of 3 19] d [of 6 7] d [of 7 13] d [of 8 20]
    unfolding lo_def [symmetric] hi_def [symmetric] sum_10_nat by (simp add: hi_def)
qed

lemma fe_tobytes_value:
  assumes h: "tight h"
  shows "int (num (fe_tobytes h)) = fe_val h mod prime_p" "length (fe_tobytes h) = 32"
proof -
  let ?c = "(if fe_val h < 0 then -1 else 0 :: int) * 19"
  have "rep (tobytes_sign h * 19) ?c (1 * 19)"
    by (rule rep_mult_num [OF tobytes_sign_value(1) [OF h]]) simp
  then have "rep (tobytes_sign h * 19) ?c 19" by simp
  from tobytes_limbs_value [OF h this] obtain d C where "tobytes_limbs h (tobytes_sign h * 19) = d \<and> length d = 10 \<and>
      (\<forall>i<10. unat (d ! i) < 2 ^ digit_bits i) \<and> fe_val h + ?c = int (\<Sum>i<10. unat (d ! i) * 2 ^ ex i) + C * 2 ^ 255"
    by (elim exE)
  then have d: "tobytes_limbs h (tobytes_sign h * 19) = d" "length d = 10"
      "\<And>i. i < 10 \<Longrightarrow> unat (d ! i) < 2 ^ digit_bits i"
      "fe_val h + ?c = int (\<Sum>i<10. unat (d ! i) * 2 ^ ex i) + C * 2 ^ 255"
    by blast+
  define N where "N = (\<Sum>i<10. unat (d ! i) * 2 ^ ex i)"
  note b = d(3) [of 0, unfolded digit_bits_def, simplified] d(3) [of 1, unfolded digit_bits_def, simplified] d(3) [of 2, unfolded digit_bits_def, simplified] d(3) [of 3, unfolded digit_bits_def, simplified] d(3) [of 4, unfolded digit_bits_def, simplified] d(3) [of 5, unfolded digit_bits_def, simplified] d(3) [of 6, unfolded digit_bits_def, simplified] d(3) [of 7, unfolded digit_bits_def, simplified] d(3) [of 8, unfolded digit_bits_def, simplified] d(3) [of 9, unfolded digit_bits_def, simplified]
  have p0: "unat (drop_bit 0 (d ! 0) OR push_bit 26 (d ! 1)) = unat (d ! 0) div 2 ^ 0 + 2 ^ 26 * (unat (d ! 1) mod 2 ^ (32 - 26))"
    by (rule unat_pack, rule less_le_trans [OF d(3)]) (simp_all add: digit_bits_def)
  have p1: "unat (drop_bit 6 (d ! 1) OR push_bit 19 (d ! 2)) = unat (d ! 1) div 2 ^ 6 + 2 ^ 19 * (unat (d ! 2) mod 2 ^ (32 - 19))"
    by (rule unat_pack, rule less_le_trans [OF d(3)]) (simp_all add: digit_bits_def)
  have p2: "unat (drop_bit 13 (d ! 2) OR push_bit 13 (d ! 3)) = unat (d ! 2) div 2 ^ 13 + 2 ^ 13 * (unat (d ! 3) mod 2 ^ (32 - 13))"
    by (rule unat_pack, rule less_le_trans [OF d(3)]) (simp_all add: digit_bits_def)
  have p3: "unat (drop_bit 19 (d ! 3) OR push_bit 6 (d ! 4)) = unat (d ! 3) div 2 ^ 19 + 2 ^ 6 * (unat (d ! 4) mod 2 ^ (32 - 6))"
    by (rule unat_pack, rule less_le_trans [OF d(3)]) (simp_all add: digit_bits_def)
  have p4: "unat (drop_bit 0 (d ! 5) OR push_bit 25 (d ! 6)) = unat (d ! 5) div 2 ^ 0 + 2 ^ 25 * (unat (d ! 6) mod 2 ^ (32 - 25))"
    by (rule unat_pack, rule less_le_trans [OF d(3)]) (simp_all add: digit_bits_def)
  have p5: "unat (drop_bit 7 (d ! 6) OR push_bit 19 (d ! 7)) = unat (d ! 6) div 2 ^ 7 + 2 ^ 19 * (unat (d ! 7) mod 2 ^ (32 - 19))"
    by (rule unat_pack, rule less_le_trans [OF d(3)]) (simp_all add: digit_bits_def)
  have p6: "unat (drop_bit 13 (d ! 7) OR push_bit 12 (d ! 8)) = unat (d ! 7) div 2 ^ 13 + 2 ^ 12 * (unat (d ! 8) mod 2 ^ (32 - 12))"
    by (rule unat_pack, rule less_le_trans [OF d(3)]) (simp_all add: digit_bits_def)
  have p7: "unat (drop_bit 20 (d ! 8) OR push_bit 6 (d ! 9)) = unat (d ! 8) div 2 ^ 20 + 2 ^ 6 * (unat (d ! 9) mod 2 ^ (32 - 6))"
    by (rule unat_pack, rule less_le_trans [OF d(3)]) (simp_all add: digit_bits_def)
  have "num (fe_tobytes h) = N"
    unfolding fe_tobytes_def Let_def d(1) num_words N_def p0 p1 p2 p3 p4 p5 p6 p7
    by (rule digits_words) (use d(3) [of 4] d(3) [of 9] in \<open>simp_all add: digit_bits_def\<close>)
  moreover have D: "N < 2 ^ 255"
    using b unfolding N_def sum_10_nat by simp
  moreover have "int N = fe_val h mod prime_p"
  proof -
    have D': "0 \<le> int N" "int N < 2 ^ 255" using D by simp_all
    have V: "- prime_p < fe_val h" "fe_val h < prime_p" using tobytes_sign_value(2) [OF h] by linarith+
    have mod: "int N = (fe_val h + ?c) mod 2 ^ 255"
      unfolding d(4) N_def [symmetric] using D' by simp
    show ?thesis
    proof (cases "fe_val h < 0")
      case True
      then have "fe_val h + ?c = fe_val h + prime_p + (-1) * 2 ^ 255" by (simp add: prime_p_def)
      moreover have "(fe_val h + prime_p + (-1) * 2 ^ 255) mod 2 ^ 255 = fe_val h + prime_p"
        unfolding mod_mult_self1 using V True by (intro mod_pos_pos_trivial) (simp_all add: prime_p_def)
      moreover have "fe_val h mod prime_p = fe_val h + prime_p"
        using V True mod_add_self2 [of "fe_val h" prime_p] mod_pos_pos_trivial [of "fe_val h + prime_p" prime_p] by simp
      ultimately show ?thesis using mod by (simp only:)
    next
      case False
      then have "(fe_val h + ?c) mod 2 ^ 255 = fe_val h"
        using V by (intro trans [OF mod_pos_pos_trivial]) (simp_all add: prime_p_def)
      then show ?thesis using mod V False by (simp add: mod_pos_pos_trivial)
    qed
  qed
  ultimately show "int (num (fe_tobytes h)) = fe_val h mod prime_p" "length (fe_tobytes h) = 32"
    by (simp_all add: fe_tobytes_def Let_def)
qed

section \<open>Elements of the field\<close>

text \<open>
  \<open>el k f v\<close>: the limbs of \<open>f\<close> are at most \<open>k\<close> times those after a carry, and \<open>f\<close> stands for \<open>v\<close>
  modulo \<open>2^255 - 19\<close>.  The rules below are the calculus in which the sequences of field operations
  of the curve code are checked: sums add their bounds, a product takes bounds up to three.
\<close>

definition el :: "int \<Rightarrow> fe \<Rightarrow> int \<Rightarrow> bool" where
  "el k f v \<longleftrightarrow> limbs (k * 36909875) (k * 18454937) f \<and> fe_val f mod prime_p = v mod prime_p"

named_theorems el_intros \<open>field operations on represented elements\<close>

lemma el_tight: "el 1 f v \<longleftrightarrow> tight f \<and> fe_val f mod prime_p = v mod prime_p"
  by (simp add: el_def)

lemma el_loose: "el k f v \<Longrightarrow> k \<le> 3 \<Longrightarrow> loose f"
  by (auto simp: el_def intro: limbs_mono)

lemma el_mono: "el j f v \<Longrightarrow> j \<le> k \<Longrightarrow> el k f v"
  by (auto simp: el_def intro: limbs_mono)

lemma el_cong: "el k f v \<Longrightarrow> v mod prime_p = w mod prime_p \<Longrightarrow> el k f w"
  by (simp add: el_def)

lemma el_mul [el_intros]:
  assumes "el j f a" "el k g b" "j \<le> 3" "k \<le> 3"
  shows "el 1 (fe_mul f g) (a * b)"
  using fe_mul_value [OF el_loose [OF assms(1,3)] el_loose [OF assms(2,4)]] assms(1,2)
  unfolding el_tight by (metis el_def mod_mult_cong)

lemma el_sq [el_intros]:
  assumes "el k f a" "k \<le> 3"
  shows "el 1 (fe_sq f) (a * a)"
  using fe_sq_value [OF el_loose [OF assms]] assms(1) unfolding el_tight by (metis el_def mod_mult_cong)

lemma el_mul_small [el_intros]:
  assumes "el k f a" "k \<le> 3" "rep g G (2 ^ 31 - 1)"
  shows "el 1 (fe_mul_small f g) (a * G)"
  using fe_mul_small_value [OF el_loose [OF assms(1,2)] assms(3)] assms(1)
  unfolding el_tight by (metis el_def mod_mult_cong)

lemma el_add [el_intros]:
  assumes "el j f a" "el k g b" "j + k \<le> 58"
  shows "el (j + k) (fe_add f g) (a + b)"
proof -
  have "(j + k) * 36909875 \<le> 58 * 36909875" "(j + k) * 18454937 \<le> 58 * 18454937"
    using assms(3) by (intro mult_right_mono; simp)+
  then have "j * 36909875 + k * 36909875 < 2 ^ 31" "j * 18454937 + k * 18454937 < 2 ^ 31"
    by (simp_all add: algebra_simps)
  then show ?thesis
    using assms(1,2) fe_add_value [of "j * 36909875" "j * 18454937" f "k * 36909875" "k * 18454937" g]
    by (auto simp: el_def distrib_right intro: mod_add_cong)
qed

lemma el_sub [el_intros]:
  assumes "el j f a" "el k g b" "j + k \<le> 58"
  shows "el (j + k) (fe_sub f g) (a - b)"
proof -
  have "(j + k) * 36909875 \<le> 58 * 36909875" "(j + k) * 18454937 \<le> 58 * 18454937"
    using assms(3) by (intro mult_right_mono; simp)+
  then have "j * 36909875 + k * 36909875 < 2 ^ 31" "j * 18454937 + k * 18454937 < 2 ^ 31"
    by (simp_all add: algebra_simps)
  then show ?thesis
    using assms(1,2) fe_sub_value [of "j * 36909875" "j * 18454937" f "k * 36909875" "k * 18454937" g]
    by (auto simp: el_def distrib_right intro: mod_diff_cong)
qed

lemma el_neg [el_intros]:
  assumes "el k f a" "k \<le> 58"
  shows "el k (fe_neg f) (- a)"
proof -
  have "k * 36909875 < 2 ^ 31" "k * 18454937 < 2 ^ 31" using assms(2) by simp_all
  then show ?thesis
    using assms(1) fe_neg_value [of "k * 36909875" "k * 18454937" f] unfolding el_def by (metis mod_minus_eq)
qed

lemma el_0 [el_intros]: "el 1 fe_0 0" and el_1 [el_intros]: "el 1 fe_1 1" and el_one [el_intros]: "el 1 fe_one 1"
  using fe_0_value fe_1_value fe_one_value by (simp_all add: el_tight)

lemma el_frombytes [el_intros]: "el 1 (fe_frombytes s) (int (num (take 32 s) mod 2 ^ 255))"
  using fe_frombytes_value by (simp add: el_tight)

lemma el_length: "el k f v \<Longrightarrow> length f = 10"
  by (auto simp: el_def dest: limbs_length)

lemma el_tobytes: "el 1 f v \<Longrightarrow> int (num (fe_tobytes f)) = v mod prime_p" "length (fe_tobytes f) = 32"
  using fe_tobytes_value by (simp_all add: el_tight fe_tobytes_def Let_def)

lemma el_isequal:
  assumes "el 1 f a" "el 1 g b"
  shows "fe_isequal f g = (if a mod prime_p = b mod prime_p then 1 else 0)"
proof -
  have "fe_tobytes f = fe_tobytes g \<longleftrightarrow> num (fe_tobytes f) = num (fe_tobytes g)"
    using num_inj [of "fe_tobytes f" "fe_tobytes g"] by (auto simp: el_tobytes(2))
  also have "\<dots> \<longleftrightarrow> a mod prime_p = b mod prime_p"
    using el_tobytes(1) [OF assms(1)] el_tobytes(1) [OF assms(2)] by (metis of_nat_eq_iff)
  finally show ?thesis
    by (simp add: fe_isequal_def crypto_verify32_eq el_tobytes(2))
qed

lemma num_parity: "s \<noteq> [] \<Longrightarrow> num (s :: bytes) mod 2 = unat (byte_at s 0) mod 2"
  by (cases s) (simp_all add: mod_add_eq [symmetric, of _ "256 * _"])

lemma el_isodd:
  assumes "el 1 f v"
  shows "fe_isodd f = v mod prime_p mod 2"
proof -
  have "fe_tobytes f \<noteq> []" using el_tobytes(2) [of f] by auto
  then have "int (num (fe_tobytes f)) mod 2 = int (unat (byte_at (fe_tobytes f) 0)) mod 2"
    using num_parity by (metis of_nat_numeral zmod_int)
  then show ?thesis
    using el_tobytes(1) [OF assms] by (simp add: fe_isodd_def and_one_eq uint_mod_distrib)
qed

section \<open>Properties\<close>

text \<open>
  C15. On limbs within the bounds that the code states, products and squares overflow nowhere: they are the
  product modulo \<open>2^255 - 19\<close>, in limbs that are tight again, and their encoding is the unique reduced one.
\<close>

theorem field_arithmetic:
  assumes "loose f" "loose g"
  shows "tight (fe_mul f g) \<and> fe_val (fe_mul f g) mod prime_p = fe_val f * fe_val g mod prime_p
    \<and> tight (fe_sq f) \<and> fe_val (fe_sq f) mod prime_p = (fe_val f)\<^sup>2 mod prime_p
    \<and> length (fe_tobytes (fe_mul f g)) = 32
    \<and> int (num (fe_tobytes (fe_mul f g))) = fe_val f * fe_val g mod prime_p"
  using fe_mul_value [OF assms] fe_sq_value [OF assms(1)] fe_tobytes_value [of "fe_mul f g"]
  by (simp add: power2_eq_square)

theorem field_arithmetic_witness:
  "int (num (fe_tobytes (fe_mul sqrtm1 sqrtm1))) = fe_val sqrtm1 * fe_val sqrtm1 mod prime_p"
proof -
  have "loose sqrtm1" by (simp add: limbs_def sqrtm1_def)
  from field_arithmetic [OF this this] show ?thesis by blast
qed

end
