(* ===== verification/Field_Root.thy ===== *)
theory Field_Root
  imports Field_Value
begin

text \<open>
  Powers, inverse square roots and inverses modulo \<open>2^255 - 19\<close>: what \<open>invsqrt\<close> and \<open>fe_invert\<close> return
  (\<open>support/crypto/monocypher.c\<close>).
\<close>

section \<open>Powers\<close>

lemma el_sqs:
  assumes "el k f a" "k \<le> 3" "0 < n"
  shows "el 1 (fe_sqs n f) (a ^ (2 ^ n))"
proof -
  have "el 1 ((fe_sq ^^ m) (fe_sq f)) (a ^ (2 ^ Suc m))" for m
  proof (induction m)
    case 0
    then show ?case using el_sq [OF assms(1,2)] by (simp add: power2_eq_square)
  next
    case (Suc m)
    have "a ^ 2 ^ Suc (Suc m) = a ^ 2 ^ Suc m * a ^ 2 ^ Suc m"
      by (simp add: power_add [symmetric] mult_2 [symmetric])
    then show ?case using el_sq [OF Suc] by (simp del: power_Suc)
  qed
  from this [of "n - 1"] show ?thesis using assms(3) by (simp add: fe_sqs_def)
qed

lemma el_power_sqs: "el k f (x ^ m) \<Longrightarrow> k \<le> 3 \<Longrightarrow> 0 < n \<Longrightarrow> r = m * 2 ^ n \<Longrightarrow> el 1 (fe_sqs n f) (x ^ r)"
  using el_sqs [of k f "x ^ m" n] by (simp add: power_mult)

lemma el_power_sq: "el k f (x ^ m) \<Longrightarrow> k \<le> 3 \<Longrightarrow> r = m + m \<Longrightarrow> el 1 (fe_sq f) (x ^ r)"
  using el_sq [of k f "x ^ m"] by (simp add: power_add)

lemma el_power_mul:
  "el j f (x ^ m) \<Longrightarrow> el k g (x ^ n) \<Longrightarrow> j \<le> 3 \<Longrightarrow> k \<le> 3 \<Longrightarrow> r = m + n \<Longrightarrow> el 1 (fe_mul f g) (x ^ r)"
  using el_mul [of j f "x ^ m" k g "x ^ n"] by (simp add: power_add)

text \<open>The chain of squarings and products raises to the power \<open>(p - 5) / 8 = 2^252 - 3\<close>.\<close>

lemma el_pow_p58:
  assumes "el k f x" "k \<le> 3"
  shows "el 1 (pow_p58 f) (x ^ (2 ^ 252 - 3))"
proof -
  have x: "el k f (x ^ 1)" using assms(1) by simp
  define a where "a = fe_sq f"
  have a: "el 1 a (x ^ 2)" unfolding a_def by (rule el_power_sq [OF x assms(2)]) simp
  define b where "b = fe_mul f (fe_sq (fe_sq a))"
  have b: "el 1 b (x ^ 9)" unfolding b_def
    by (rule el_power_mul [OF x el_power_sq [OF el_power_sq [OF a, where r = 4], where r = 8] assms(2)]) simp_all
  define c where "c = fe_mul b (fe_sq (fe_mul a b))"
  have c: "el 1 c (x ^ (2 ^ 5 - 1))" unfolding c_def
    by (rule el_power_mul [OF b el_power_sq [OF el_power_mul [OF a b, where r = 11], where r = 22]]) simp_all
  define d where "d = fe_mul (fe_sqs 5 c) c"
  have d: "el 1 d (x ^ (2 ^ 10 - 1))" unfolding d_def
    by (rule el_power_mul [OF el_power_sqs [OF c] c]) simp_all
  define e where "e = fe_mul (fe_sqs 10 d) d"
  have e: "el 1 e (x ^ (2 ^ 20 - 1))" unfolding e_def
    by (rule el_power_mul [OF el_power_sqs [OF d] d]) simp_all
  define g where "g = fe_mul (fe_sqs 20 e) e"
  have g: "el 1 g (x ^ (2 ^ 40 - 1))" unfolding g_def
    by (rule el_power_mul [OF el_power_sqs [OF e] e]) simp_all
  define h where "h = fe_mul (fe_sqs 10 g) d"
  have h: "el 1 h (x ^ (2 ^ 50 - 1))" unfolding h_def
    by (rule el_power_mul [OF el_power_sqs [OF g] d]) simp_all
  define i where "i = fe_mul (fe_sqs 50 h) h"
  have i: "el 1 i (x ^ (2 ^ 100 - 1))" unfolding i_def
    by (rule el_power_mul [OF el_power_sqs [OF h] h]) simp_all
  define j where "j = fe_mul (fe_sqs 100 i) i"
  have j: "el 1 j (x ^ (2 ^ 200 - 1))" unfolding j_def
    by (rule el_power_mul [OF el_power_sqs [OF i] i]) simp_all
  define l where "l = fe_mul (fe_sqs 50 j) h"
  have l: "el 1 l (x ^ (2 ^ 250 - 1))" unfolding l_def
    by (rule el_power_mul [OF el_power_sqs [OF j] h]) simp_all
  have "el 1 (fe_mul (fe_sqs 2 l) f) (x ^ (2 ^ 252 - 3))"
    by (rule el_power_mul [OF el_power_sqs [OF l] x _ assms(2)]) simp_all
  then show ?thesis
    by (simp only: pow_p58_def Let_def a_def b_def c_def d_def e_def g_def h_def i_def j_def l_def)
qed

section \<open>Inverse square roots\<close>

definition root_m1 :: int where
  "root_m1 = fe_val sqrtm1"

lemma el_sqrtm1: "el 1 sqrtm1 root_m1"
  by (simp add: el_tight root_m1_def sqrtm1_def limbs_def)

lemma root_m1_square: "root_m1 * root_m1 mod prime_p = -1 mod prime_p"
  by (simp add: root_m1_def sqrtm1_def fe_val_def prime_p_def)

text \<open>The value that \<open>isr\<close> gets for an argument \<open>x\<close>, and the condition under which 1 is returned\<close>

definition quartic :: "int \<Rightarrow> int" where
  "quartic x = x ^ (2 ^ 253 - 5)"

definition inv_root :: "int \<Rightarrow> int" where
  "inv_root x =
     (if quartic x mod prime_p = -1 mod prime_p \<or> quartic x mod prime_p = - root_m1 mod prime_p
      then x ^ (2 ^ 252 - 3) * root_m1 else x ^ (2 ^ 252 - 3))"

definition root_found :: "int \<Rightarrow> bool" where
  "root_found x \<longleftrightarrow> quartic x mod prime_p = 1 mod prime_p \<or> quartic x mod prime_p = -1 mod prime_p
     \<or> x mod prime_p = 0"

lemma invsqrt_value:
  assumes "el 1 f x"
  shows "el 1 (snd (invsqrt f)) (inv_root x)" "fst (invsqrt f) = (if root_found x then 1 else 0)"
proof -
  let ?t = "pow_p58 f"
  have t: "el 1 ?t (x ^ (2 ^ 252 - 3))" by (rule el_pow_p58 [OF assms]) simp
  have x: "el 1 f (x ^ 1)" using assms by simp
  define qu where "qu = fe_mul (fe_sq ?t) f"
  have q: "el 1 qu (quartic x)" unfolding quartic_def qu_def
    by (rule el_power_mul [OF el_power_sq [OF t] x]) simp_all
  note z0 = el_isequal [OF assms el_0] and p1 = el_isequal [OF q el_1]
  have m1: "fe_isequal qu (fe_neg fe_1) = (if quartic x mod prime_p = -1 mod prime_p then 1 else 0)"
    by (rule el_isequal [OF q el_neg [OF el_1]]) simp
  have ms: "fe_isequal qu (fe_neg sqrtm1) = (if quartic x mod prime_p = - root_m1 mod prime_p then 1 else 0)"
    by (rule el_isequal [OF q el_neg [OF el_sqrtm1]]) simp
  have ts: "el 1 (fe_mul ?t sqrtm1) (x ^ (2 ^ 252 - 3) * root_m1)" by (rule el_mul [OF t el_sqrtm1]) simp_all
  have cc: "fe_ccopy (fe_mul ?t sqrtm1) ?t b = (if b = 1 then ?t else fe_mul ?t sqrtm1)" if "b = 0 \<or> b = 1" for b
    using el_length [OF t] el_length [OF ts] that by (intro fe_ccopy_eq) simp_all
  have eq: "invsqrt f = (fe_isequal qu fe_1 OR fe_isequal qu (fe_neg fe_1) OR fe_isequal f fe_0,
      fe_ccopy (fe_mul ?t sqrtm1) ?t (1 - (fe_isequal qu (fe_neg fe_1) OR fe_isequal qu (fe_neg sqrtm1))))"
    by (simp add: invsqrt_def Let_def qu_def)
  show "fst (invsqrt f) = (if root_found x then 1 else 0)"
    unfolding eq fst_conv z0 p1 m1 by (simp add: root_found_def)
  show "el 1 (snd (invsqrt f)) (inv_root x)"
    unfolding eq snd_conv m1 ms using t ts by (simp add: cc inv_root_def)
qed

text \<open>If 1 is returned for a number that is not zero, its inverse has been given a square root.\<close>

lemma inv_root_square:
  assumes "root_found x" "x mod prime_p \<noteq> 0"
  shows "inv_root x * inv_root x * x mod prime_p = 1 mod prime_p"
proof -
  have sq: "x ^ (2 ^ 252 - 3) * x ^ (2 ^ 252 - 3) * x = quartic x"
  proof -
    have "x ^ (2 ^ 252 - 3) * x ^ (2 ^ 252 - 3) * x ^ 1 = x ^ (2 ^ 252 - 3 + (2 ^ 252 - 3) + 1)"
      by (simp only: power_add)
    then show ?thesis by (simp add: quartic_def)
  qed
  have ne: "1 mod prime_p \<noteq> -1 mod prime_p" "1 mod prime_p \<noteq> - root_m1 mod prime_p"
    by (simp_all add: prime_p_def root_m1_def sqrtm1_def fe_val_def)
  consider "quartic x mod prime_p = 1 mod prime_p" | "quartic x mod prime_p = -1 mod prime_p"
    using assms by (auto simp: root_found_def)
  then show ?thesis
  proof cases
    case 1
    then have "inv_root x = x ^ (2 ^ 252 - 3)" using ne by (simp only: inv_root_def if_False simp_thms)
    then show ?thesis using 1 sq by (simp only:)
  next
    case 2
    then have r: "inv_root x = x ^ (2 ^ 252 - 3) * root_m1" by (simp only: inv_root_def if_True simp_thms)
    have "inv_root x * inv_root x * x = quartic x * (root_m1 * root_m1)"
      unfolding r sq [symmetric] by (simp only: ac_simps)
    also have "\<dots> mod prime_p = (-1) * (-1) mod prime_p"
      by (rule mod_mult_cong [OF 2 root_m1_square])
    finally show ?thesis by simp
  qed
qed

lemma inv_root_zero: "x mod prime_p = 0 \<Longrightarrow> inv_root x mod prime_p = 0"
proof -
  assume "x mod prime_p = 0"
  then have "prime_p dvd x" by auto
  moreover have "x dvd x ^ (2 ^ 252 - 3)" by (rule dvd_power) simp
  ultimately have "prime_p dvd x ^ (2 ^ 252 - 3)" by (rule dvd_trans)
  then show ?thesis by (auto simp: inv_root_def dvd_mult2)
qed

section \<open>Inversion\<close>

text \<open>
  \<open>fe_invert\<close> computes \<open>x (1 / \<surd>(x\<^sup>2))\<^sup>2\<close>, whatever the sign of the root.  For every number
  that is not zero, \<open>x^((p - 1) / 2)\<close> is 1 or -1, because \<open>p\<close> is prime; this is the only fact on primes
  that is used.
\<close>

definition fe_inv :: "int \<Rightarrow> int" where
  "fe_inv x = inv_root (x * x) * inv_root (x * x) * x"

lemma el_invert [el_intros]:
  assumes "el k f x" "k \<le> 3"
  shows "el 1 (fe_invert f) (fe_inv x)"
proof -
  have "el 1 (snd (invsqrt (fe_sq f))) (inv_root (x * x))"
    by (rule invsqrt_value(1) [OF el_sq [OF assms]])
  then show ?thesis
    unfolding fe_invert_def Let_def fe_inv_def by (rule el_mul [OF el_sq assms(1)]) (simp_all add: assms(2))
qed

lemma fe_inv_correct:
  assumes "x ^ (2 ^ 254 - 10) mod prime_p = 1 mod prime_p \<or> x ^ (2 ^ 254 - 10) mod prime_p = -1 mod prime_p"
  shows "x * fe_inv x mod prime_p = 1 mod prime_p"
proof -
  have q: "quartic (x * x) = x ^ (2 ^ 254 - 10)"
    unfolding quartic_def by (simp add: power_mult_distrib power_add [symmetric])
  have "x * x mod prime_p \<noteq> 0"
  proof
    assume "x * x mod prime_p = 0"
    then have "prime_p dvd x ^ 2" by (auto simp: power2_eq_square)
    moreover have "x ^ 2 dvd x ^ (2 ^ 254 - 10)" by (rule le_imp_power_dvd) simp
    ultimately have "prime_p dvd x ^ (2 ^ 254 - 10)" by (rule dvd_trans)
    then have "x ^ (2 ^ 254 - 10) mod prime_p = 0" by (simp only: dvd_eq_mod_eq_0)
    moreover have "1 mod prime_p \<noteq> 0" "-1 mod prime_p \<noteq> 0" by (simp_all add: prime_p_def)
    ultimately show False using assms by metis
  qed
  then have "inv_root (x * x) * inv_root (x * x) * (x * x) mod prime_p = 1 mod prime_p"
    using assms by (intro inv_root_square) (simp_all add: root_found_def q)
  then show ?thesis by (simp add: fe_inv_def ac_simps)
qed

lemma fe_inv_zero: "x mod prime_p = 0 \<Longrightarrow> fe_inv x mod prime_p = 0"
  by (auto simp: fe_inv_def)

section \<open>Properties\<close>

text \<open>
  When \<open>invsqrt\<close> reports a square other than zero, its result is the inverse of a square root; and
  \<open>fe_invert\<close> returns the inverse of every number that satisfies Euler's criterion, as every number but
  zero does modulo a prime.
\<close>

theorem inverse_roots:
  assumes "el 1 f x" "x ^ (2 ^ 254 - 10) mod prime_p = 1 mod prime_p \<or> x ^ (2 ^ 254 - 10) mod prime_p = -1 mod prime_p"
  shows "(\<exists>r. el 1 (snd (invsqrt f)) r
      \<and> (fst (invsqrt f) = 1 \<and> x mod prime_p \<noteq> 0 \<longrightarrow> r * r * x mod prime_p = 1 mod prime_p))
    \<and> (\<exists>r. el 1 (fe_invert f) r \<and> x * r mod prime_p = 1 mod prime_p)"
proof (intro conjI exI)
  show "el 1 (snd (invsqrt f)) (inv_root x)" by (rule invsqrt_value [OF assms(1)])
  show "fst (invsqrt f) = 1 \<and> x mod prime_p \<noteq> 0 \<longrightarrow> inv_root x * inv_root x * x mod prime_p = 1 mod prime_p"
    using invsqrt_value(2) [OF assms(1)] inv_root_square [of x] by (auto split: if_splits)
  show "el 1 (fe_invert f) (fe_inv x)" by (rule el_invert [OF assms(1)]) simp
  show "x * fe_inv x mod prime_p = 1 mod prime_p" by (rule fe_inv_correct [OF assms(2)])
qed

theorem inverse_roots_witness:
  "\<exists>r. el 1 (fe_invert (fe_neg fe_1)) r \<and> - 1 * r mod prime_p = 1 mod prime_p"
proof -
  have "el 1 (fe_neg fe_1) (- 1)" by (rule el_neg [OF el_1]) simp
  moreover have "even (2 ^ 254 - 10 :: nat)" by simp
  then have "(- 1 :: int) ^ (2 ^ 254 - 10) = 1" by (rule neg_one_even_power)
  then have "(- 1 :: int) ^ (2 ^ 254 - 10) mod prime_p = 1 mod prime_p
      \<or> (- 1 :: int) ^ (2 ^ 254 - 10) mod prime_p = -1 mod prime_p"
    by (simp only: simp_thms)
  ultimately show ?thesis using inverse_roots by blast
qed

end
