(* ===== verification/Edwards.thy ===== *)
theory Edwards
  imports Scalar_L Field_Root
begin

text \<open>
  The group of Ed25519 in \<open>support/crypto/monocypher.c\<close>: points in extended projective coordinates, their
  encoding, the addition formulas, the multiplication of the base point by a signed comb, the sliding
  windows, and the equation that a signature must satisfy.  Scratch arguments of the C functions
  (temporaries the caller lends, wiped or overwritten) do not appear.  The record fields carry the prefix of
  their structure.
\<close>

section \<open>Points\<close>

record ge =
  ge_X :: fe
  ge_Y :: fe
  ge_Z :: fe
  ge_T :: fe

record ge_cached =
  cached_Yp :: fe
  cached_Ym :: fe
  cached_Z :: fe
  cached_T2 :: fe

record ge_precomp =
  precomp_Yp :: fe
  precomp_Ym :: fe
  precomp_T2 :: fe

text \<open>The constants \<open>d\<close> and \<open>D2\<close> of the file\<close>

definition edwards_d :: fe where
  "edwards_d = [-10913610, 13857413, -15372611, 6949391, 114729, -8787816, -6275908, -3247719, -18696448, -12055116]"

definition edwards_D2 :: fe where
  "edwards_D2 = [-21827239, -5839606, -30745221, 13898782, 229458, 15978800, -12551817, -6495438, 29715968, 9444199]"

definition ge_zero :: ge where
  "ge_zero = \<lparr> ge_X = fe_0, ge_Y = fe_1, ge_Z = fe_1, ge_T = fe_0 \<rparr>"

definition ge_tobytes :: "ge \<Rightarrow> bytes" where
  "ge_tobytes h =
     (let recip = fe_invert (ge_Z h);
          x = fe_mul (ge_X h) recip;
          y = fe_mul (ge_Y h) recip;
          s = fe_tobytes y
      in s[31 := s ! 31 XOR of_int (push_bit 7 (fe_isodd x))])"

text \<open>\<open>-1\<close> and no point if the bytes do not encode one\<close>

definition ge_frombytes_neg_vartime :: "bytes \<Rightarrow> int \<times> ge option" where
  "ge_frombytes_neg_vartime s =
     (let Y = fe_frombytes s;
          Z = fe_1;
          T = fe_sq Y;
          X = fe_mul T edwards_d;
          T = fe_sub T Z;
          X = fe_add X Z;
          X = fe_mul T X;
          (is_square, X) = invsqrt X
      in if is_square = 0 then (-1, None)
         else
           let X = fe_mul T X;
               X = (if fe_isodd X = uint (drop_bit 7 (byte_at s 31)) then fe_neg X else X);
               T = fe_mul X Y
           in (0, Some \<lparr> ge_X = X, ge_Y = Y, ge_Z = Z, ge_T = T \<rparr>))"

section \<open>Addition formulas\<close>

definition ge_cache :: "ge \<Rightarrow> ge_cached" where
  "ge_cache p =
     \<lparr> cached_Yp = fe_add (ge_Y p) (ge_X p), cached_Ym = fe_sub (ge_Y p) (ge_X p),
       cached_Z = ge_Z p, cached_T2 = fe_mul (ge_T p) edwards_D2 \<rparr>"

definition ge_add :: "ge \<Rightarrow> ge_cached \<Rightarrow> ge" where
  "ge_add p q =
     (let a = fe_add (ge_Y p) (ge_X p);
          b = fe_sub (ge_Y p) (ge_X p);
          a = fe_mul a (cached_Yp q);
          b = fe_mul b (cached_Ym q);
          Y = fe_add a b;
          X = fe_sub a b;
          Z = fe_add (ge_Z p) (ge_Z p);
          Z = fe_mul Z (cached_Z q);
          T = fe_mul (ge_T p) (cached_T2 q);
          a = fe_add Z T;
          b = fe_sub Z T;
          T = fe_mul X Y;
          X = fe_mul X b;
          Y = fe_mul Y a;
          Z = fe_mul a b
      in \<lparr> ge_X = X, ge_Y = Y, ge_Z = Z, ge_T = T \<rparr>)"

definition ge_sub :: "ge \<Rightarrow> ge_cached \<Rightarrow> ge" where
  "ge_sub p q =
     ge_add p \<lparr> cached_Yp = cached_Ym q, cached_Ym = cached_Yp q, cached_Z = cached_Z q,
                cached_T2 = fe_neg (cached_T2 q) \<rparr>"

definition ge_madd :: "ge \<Rightarrow> ge_precomp \<Rightarrow> ge" where
  "ge_madd p q =
     (let a = fe_add (ge_Y p) (ge_X p);
          b = fe_sub (ge_Y p) (ge_X p);
          a = fe_mul a (precomp_Yp q);
          b = fe_mul b (precomp_Ym q);
          Y = fe_add a b;
          X = fe_sub a b;
          Z = fe_add (ge_Z p) (ge_Z p);
          T = fe_mul (ge_T p) (precomp_T2 q);
          a = fe_add Z T;
          b = fe_sub Z T;
          T = fe_mul X Y;
          X = fe_mul X b;
          Y = fe_mul Y a;
          Z = fe_mul a b
      in \<lparr> ge_X = X, ge_Y = Y, ge_Z = Z, ge_T = T \<rparr>)"

definition ge_msub :: "ge \<Rightarrow> ge_precomp \<Rightarrow> ge" where
  "ge_msub p q =
     ge_madd p \<lparr> precomp_Yp = precomp_Ym q, precomp_Ym = precomp_Yp q, precomp_T2 = fe_neg (precomp_T2 q) \<rparr>"

definition ge_double :: "ge \<Rightarrow> ge" where
  "ge_double p =
     (let qX = fe_sq (ge_X p);
          qY = fe_sq (ge_Y p);
          qZ = fe_sq (ge_Z p);
          qZ = fe_mul_small qZ 2;
          qT = fe_add (ge_X p) (ge_Y p);
          sT = fe_sq qT;
          qT = fe_add qY qX;
          qY = fe_sub qY qX;
          qX = fe_sub sT qT;
          qZ = fe_sub qZ qY
      in \<lparr> ge_X = fe_mul qX qZ, ge_Y = fe_mul qT qY, ge_Z = fe_mul qY qZ, ge_T = fe_mul qX qT \<rparr>)"

section \<open>Sliding windows\<close>

text \<open>5-bit signed window\<close>

definition b_window :: "ge_precomp list" where
  "b_window = [
     ge_precomp.make
       [25967493, -14356035, 29566456, 3660896, -12694345, 4014787, 27544626, -11754271, -6079156, 2047605]
       [-12545711, 934262, -2722910, 3049990, -727428, 9406986, 12720692, 5043384, 19500929, -15469378]
       [-8738181, 4489570, 9688441, -14785194, 10184609, -12363380, 29287919, 11864899, -24514362, -4438546],
     ge_precomp.make
       [15636291, -9688557, 24204773, -7912398, 616977, -16685262, 27787600, -14772189, 28944400, -1550024]
       [16568933, 4717097, -11556148, -1102322, 15682896, -11807043, 16354577, -11775962, 7689662, 11199574]
       [30464156, -5976125, -11779434, -15670865, 23220365, 15915852, 7512774, 10017326, -17749093, -9920357],
     ge_precomp.make
       [10861363, 11473154, 27284546, 1981175, -30064349, 12577861, 32867885, 14515107, -15438304, 10819380]
       [4708026, 6336745, 20377586, 9066809, -11272109, 6594696, -25653668, 12483688, -12668491, 5581306]
       [19563160, 16186464, -29386857, 4097519, 10237984, -4348115, 28542350, 13850243, -23678021, -15815942],
     ge_precomp.make
       [5153746, 9909285, 1723747, -2777874, 30523605, 5516873, 19480852, 5230134, -23952439, -15175766]
       [-30269007, -3463509, 7665486, 10083793, 28475525, 1649722, 20654025, 16520125, 30598449, 7715701]
       [28881845, 14381568, 9657904, 3680757, -20181635, 7843316, -31400660, 1370708, 29794553, -1409300],
     ge_precomp.make
       [-22518993, -6692182, 14201702, -8745502, -23510406, 8844726, 18474211, -1361450, -13062696, 13821877]
       [-6455177, -7839871, 3374702, -4740862, -27098617, -10571707, 31655028, -7212327, 18853322, -14220951]
       [4566830, -12963868, -28974889, -12240689, -7602672, -2830569, -8514358, -10431137, 2207753, -3209784],
     ge_precomp.make
       [-25154831, -4185821, 29681144, 7868801, -6854661, -9423865, -12437364, -663000, -31111463, -16132436]
       [25576264, -2703214, 7349804, -11814844, 16472782, 9300885, 3844789, 15725684, 171356, 6466918]
       [23103977, 13316479, 9739013, -16149481, 817875, -15038942, 8965339, -14088058, -30714912, 16193877],
     ge_precomp.make
       [-33521811, 3180713, -2394130, 14003687, -16903474, -16270840, 17238398, 4729455, -18074513, 9256800]
       [-25182317, -4174131, 32336398, 5036987, -21236817, 11360617, 22616405, 9761698, -19827198, 630305]
       [-13720693, 2639453, -24237460, -7406481, 9494427, -5774029, -6554551, -15960994, -2449256, -14291300],
     ge_precomp.make
       [-3151181, -5046075, 9282714, 6866145, -31907062, -863023, -18940575, 15033784, 25105118, -7894876]
       [-24326370, 15950226, -31801215, -14592823, -11662737, -5090925, 1573892, -2625887, 2198790, -15804619]
       [-3099351, 10324967, -2241613, 7453183, -5446979, -2735503, -13812022, -16236442, -32461234, -12290683]]"

record slide_ctx =
  sl_next_index :: "16 word"
  sl_next_digit :: "8 word"
  sl_next_check :: "8 word"

text \<open>\<open>while (i > 0 && scalar_bit(scalar, i) == 0) i--;\<close>\<close>

fun slide_top :: "bytes \<Rightarrow> nat \<Rightarrow> nat" where
  "slide_top scalar 0 = 0"
| "slide_top scalar (Suc i) = (if scalar_bit scalar (int (Suc i)) = 0 then slide_top scalar i else Suc i)"

definition slide_init :: "bytes \<Rightarrow> slide_ctx" where
  "slide_init scalar =
     (let i = slide_top scalar 252
      in \<lparr> sl_next_index = -1, sl_next_digit = -1, sl_next_check = of_nat (i + 1) \<rparr>)"

text \<open>The number that the window of \<open>w\<close> bits below \<open>i\<close> stands for, and the position of its lowest bit\<close>

definition slide_window :: "bytes \<Rightarrow> int \<Rightarrow> int \<Rightarrow> int" where
  "slide_window scalar i w =
     (let v = - push_bit (nat (w - 1)) (scalar_bit scalar i);
          v = foldl (\<lambda>v j. v + push_bit j (scalar_bit scalar (i - (w - 1) + int j))) v [0..<nat (w - 1)]
      in v + scalar_bit scalar (i - w))"

definition slide_shift :: "int \<Rightarrow> int" where
  "slide_shift v =
     (let lsb = v AND (NOT v + 1)
      in push_bit 0 (of_bool (lsb AND 0xAA \<noteq> 0)) OR push_bit 1 (of_bool (lsb AND 0xCC \<noteq> 0))
         OR push_bit 2 (of_bool (lsb AND 0xF0 \<noteq> 0)))"

definition slide_step :: "slide_ctx \<Rightarrow> int \<Rightarrow> int \<Rightarrow> bytes \<Rightarrow> slide_ctx \<times> int" where
  "slide_step ctx width i scalar =
     (let ctx =
        (if i = uint (sl_next_check ctx) then
           if scalar_bit scalar i = scalar_bit scalar (i - 1)
           then ctx \<lparr> sl_next_check := sl_next_check ctx - 1 \<rparr>
           else
             let w = min width (i + 1);
                 v = slide_window scalar i w;
                 s = slide_shift v
             in ctx \<lparr> sl_next_index := of_int (i - (w - 1) + s), sl_next_digit := of_int (drop_bit (nat s) v),
                      sl_next_check := sl_next_check ctx - of_int w \<rparr>
         else ctx)
      in (ctx, if i = sint (sl_next_index ctx) then sint (sl_next_digit ctx) else 0))"

section \<open>The equation of a signature\<close>

definition P_W_WIDTH :: nat where
  "P_W_WIDTH = 3"

definition B_W_WIDTH :: nat where
  "B_W_WIDTH = 5"

definition P_W_SIZE :: nat where
  "P_W_SIZE = push_bit (P_W_WIDTH - 2) 1"

text \<open>The look-up table for \<open>minus_A\<close>: its odd multiples\<close>

definition lut_A :: "ge \<Rightarrow> ge_cached list" where
  "lut_A minus_A =
     (let minus_A2 = ge_double minus_A
      in foldl (\<lambda>lut i. lut @ [ge_cache (ge_add minus_A2 (lut ! (i - 1)))]) [ge_cache minus_A] [1..<P_W_SIZE])"

text \<open>What a digit of \<open>h\<close> and one of \<open>s\<close> add to the sum\<close>

definition add_h_digit :: "ge_cached list \<Rightarrow> int \<Rightarrow> ge \<Rightarrow> ge" where
  "add_h_digit lut h_digit acc =
     (let acc = (if h_digit > 0 then ge_add acc (lut ! nat (h_digit div 2)) else acc)
      in if h_digit < 0 then ge_sub acc (lut ! nat (- h_digit div 2)) else acc)"

definition add_s_digit :: "int \<Rightarrow> ge \<Rightarrow> ge" where
  "add_s_digit s_digit acc =
     (let acc = (if s_digit > 0 then ge_madd acc (b_window ! nat (s_digit div 2)) else acc)
      in if s_digit < 0 then ge_msub acc (b_window ! nat (- s_digit div 2)) else acc)"

text \<open>The body of the ladder: the windows of \<open>h\<close> and \<open>s\<close>, and the sum\<close>

definition equation_step ::
  "ge_cached list \<Rightarrow> bytes \<Rightarrow> bytes \<Rightarrow> slide_ctx \<times> slide_ctx \<times> ge \<Rightarrow> nat \<Rightarrow> slide_ctx \<times> slide_ctx \<times> ge" where
  "equation_step lut h s st i =
     (case st of (h_slide, s_slide, acc) \<Rightarrow>
        let acc = ge_double acc;
            (h_slide, h_digit) = slide_step h_slide (int P_W_WIDTH) (int i) h;
            (s_slide, s_digit) = slide_step s_slide (int B_W_WIDTH) (int i) s
        in (h_slide, s_slide, add_s_digit s_digit (add_h_digit lut h_digit acc)))"

text \<open>\<open>[s]B - [h]A\<close>\<close>

definition equation_sum :: "ge \<Rightarrow> bytes \<Rightarrow> bytes \<Rightarrow> ge" where
  "equation_sum minus_A h s =
     (let lut = lut_A minus_A;
          h_slide = slide_init h;
          s_slide = slide_init s;
          i = max (unat (sl_next_check h_slide)) (unat (sl_next_check s_slide))
      in snd (snd (foldl (equation_step lut h s) (h_slide, s_slide, ge_zero) (rev [0..<i + 1]))))"

definition crypto_eddsa_check_equation :: "bytes \<Rightarrow> bytes \<Rightarrow> bytes \<Rightarrow> int" where
  "crypto_eddsa_check_equation signature public_key h =
     (let s = drop 32 signature;
          s32 = load32_le_buf s 8
      in case snd (ge_frombytes_neg_vartime public_key) of
           None \<Rightarrow> -1
         | Some minus_A \<Rightarrow>
           (case snd (ge_frombytes_neg_vartime signature) of
              None \<Rightarrow> -1
            | Some minus_R \<Rightarrow>
              if is_above_l s32 \<noteq> 0 then -1
              else
                let acc = equation_sum minus_A h s;
                    acc = ge_add acc (ge_cache minus_R);
                    acc = ge_double (ge_double (ge_double acc))
                in crypto_verify32 (ge_tobytes acc) (1 # replicate 31 0)))"

section \<open>Multiples of the base point\<close>

text \<open>5-bit signed comb\<close>

definition b_comb_low :: "ge_precomp list" where
  "b_comb_low = [
     ge_precomp.make
       [-6816601, -2324159, -22559413, 124364, 18015490, 8373481, 19993724, 1979872, -18549925, 9085059]
       [10306321, 403248, 14839893, 9633706, 8463310, -8354981, -14305673, 14668847, 26301366, 2818560]
       [-22701500, -3210264, -13831292, -2927732, -16326337, -14016360, 12940910, 177905, 12165515, -2397893],
     ge_precomp.make
       [-12282262, -7022066, 9920413, -3064358, -32147467, 2927790, 22392436, -14852487, 2719975, 16402117]
       [-7236961, -4729776, 2685954, -6525055, -24242706, -15940211, -6238521, 14082855, 10047669, 12228189]
       [-30495588, -12893761, -11161261, 3539405, -11502464, 16491580, -27286798, -15030530, -7272871, -15934455],
     ge_precomp.make
       [17650926, 582297, -860412, -187745, -12072900, -10683391, -20352381, 15557840, -31072141, -5019061]
       [-6283632, -2259834, -4674247, -4598977, -4089240, 12435688, -31278303, 1060251, 6256175, 10480726]
       [-13871026, 2026300, -21928428, -2741605, -2406664, -8034988, 7355518, 15733500, -23379862, 7489131],
     ge_precomp.make
       [6883359, 695140, 23196907, 9644202, -33430614, 11354760, -20134606, 6388313, -8263585, -8491918]
       [-7716174, -13605463, -13646110, 14757414, -19430591, -14967316, 10359532, -11059670, -21935259, 12082603]
       [-11253345, -15943946, 10046784, 5414629, 24840771, 8086951, -6694742, 9868723, 15842692, -16224787],
     ge_precomp.make
       [9639399, 11810955, -24007778, -9320054, 3912937, -9856959, 996125, -8727907, -8919186, -14097242]
       [7248867, 14468564, 25228636, -8795035, 14346339, 8224790, 6388427, -7181107, 6468218, -8720783]
       [15513115, 15439095, 7342322, -10157390, 18005294, -7265713, 2186239, 4884640, 10826567, 7135781],
     ge_precomp.make
       [-14204238, 5297536, -5862318, -6004934, 28095835, 4236101, -14203318, 1958636, -16816875, 3837147]
       [-5511166, -13176782, -29588215, 12339465, 15325758, -15945770, -8813185, 11075932, -19608050, -3776283]
       [11728032, 9603156, -4637821, -5304487, -7827751, 2724948, 31236191, -16760175, -7268616, 14799772],
     ge_precomp.make
       [-28842672, 4840636, -12047946, -9101456, -1445464, 381905, -30977094, -16523389, 1290540, 12798615]
       [27246947, -10320914, 14792098, -14518944, 5302070, -8746152, -3403974, -4149637, -27061213, 10749585]
       [25572375, -6270368, -15353037, 16037944, 1146292, 32198, 23487090, 9585613, 24714571, -1418265],
     ge_precomp.make
       [19844825, 282124, -17583147, 11004019, -32004269, -2716035, 6105106, -1711007, -21010044, 14338445]
       [8027505, 8191102, -18504907, -12335737, 25173494, -5923905, 15446145, 7483684, -30440441, 10009108]
       [-14134701, -4174411, 10246585, -14677495, 33553567, -14012935, 23366126, 15080531, -7969992, 7663473]]"

definition b_comb_high :: "ge_precomp list" where
  "b_comb_high = [
     ge_precomp.make
       [33055887, -4431773, -521787, 6654165, 951411, -6266464, -5158124, 6995613, -5397442, -6985227]
       [4014062, 6967095, -11977872, 3960002, 8001989, 5130302, -2154812, -1899602, -31954493, -16173976]
       [16271757, -9212948, 23792794, 731486, -25808309, -3546396, 6964344, -4767590, 10976593, 10050757],
     ge_precomp.make
       [2533007, -4288439, -24467768, -12387405, -13450051, 14542280, 12876301, 13893535, 15067764, 8594792]
       [20073501, -11623621, 3165391, -13119866, 13188608, -11540496, -10751437, -13482671, 29588810, 2197295]
       [-1084082, 11831693, 6031797, 14062724, 14748428, -8159962, -20721760, 11742548, 31368706, 13161200],
     ge_precomp.make
       [2050412, -6457589, 15321215, 5273360, 25484180, 124590, -18187548, -7097255, -6691621, -14604792]
       [9938196, 2162889, -6158074, -1711248, 4278932, -2598531, -22865792, -7168500, -24323168, 11746309]
       [-22691768, -14268164, 5965485, 9383325, 20443693, 5854192, 28250679, -1381811, -10837134, 13717818],
     ge_precomp.make
       [-8495530, 16382250, 9548884, -4971523, -4491811, -3902147, 6182256, -12832479, 26628081, 10395408]
       [27329048, -15853735, 7715764, 8717446, -9215518, -14633480, 28982250, -5668414, 4227628, 242148]
       [-13279943, -7986904, -7100016, 8764468, -27276630, 3096719, 29678419, -9141299, 3906709, 11265498],
     ge_precomp.make
       [11918285, 15686328, -17757323, -11217300, -27548967, 4853165, -27168827, 6807359, 6871949, -1075745]
       [-29002610, 13984323, -27111812, -2713442, 28107359, -13266203, 6155126, 15104658, 3538727, -7513788]
       [14103158, 11233913, -33165269, 9279850, 31014152, 4335090, -1827936, 4590951, 13960841, 12787712],
     ge_precomp.make
       [1469134, -16738009, 33411928, 13942824, 8092558, -8778224, -11165065, 1437842, 22521552, -2792954]
       [31352705, -4807352, -25327300, 3962447, 12541566, -9399651, -27425693, 7964818, -23829869, 5541287]
       [-25732021, -6864887, 23848984, 3039395, -9147354, 6022816, -27421653, 10590137, 25309915, -1584678],
     ge_precomp.make
       [-22951376, 5048948, 31139401, -190316, -19542447, -626310, -17486305, -16511925, -18851313, -12985140]
       [-9684890, 14681754, 30487568, 7717771, -10829709, 9630497, 30290549, -10531496, -27798994, -13812825]
       [5827835, 16097107, -24501327, 12094619, 7413972, 11447087, 28057551, -1793987, -14056981, 4359312],
     ge_precomp.make
       [26323183, 2342588, -21887793, -1623758, -6062284, 2107090, -28724907, 9036464, -19618351, -13055189]
       [-29697200, 14829398, -4596333, 14220089, -30022969, 2955645, 12094100, -13693652, -5941445, 7047569]
       [-3201977, 14413268, -12058324, -16417589, -9035655, -7224648, 9258160, 1399236, 30397584, -5684634]]"

text \<open>The bits of the scalar that one look-up uses, and the entry that they select\<close>

definition comb_teeth :: "bytes \<Rightarrow> nat \<Rightarrow> byte" where
  "comb_teeth scalar i =
     of_int (scalar_bit scalar (int i) + push_bit 1 (scalar_bit scalar (int i + 32))
             + push_bit 2 (scalar_bit scalar (int i + 64)) + push_bit 3 (scalar_bit scalar (int i + 96)))"

definition comb_index :: "byte \<Rightarrow> byte" where
  "comb_index teeth = (let high = drop_bit 3 teeth in (teeth XOR (high - 1)) AND 7)"

definition select_precomp :: "ge_precomp list \<Rightarrow> byte \<Rightarrow> ge_precomp \<Rightarrow> ge_precomp" where
  "select_precomp comb index tmp_c =
     foldl (\<lambda>tmp_c j.
       let select = uint (1 AND drop_bit 8 ((of_nat j XOR ucast index) - 1 :: u32))
       in \<lparr> precomp_Yp = fe_ccopy (precomp_Yp tmp_c) (precomp_Yp (comb ! j)) select,
            precomp_Ym = fe_ccopy (precomp_Ym tmp_c) (precomp_Ym (comb ! j)) select,
            precomp_T2 = fe_ccopy (precomp_T2 tmp_c) (precomp_T2 (comb ! j)) select \<rparr>) tmp_c [0..<8]"

definition lookup_add :: "ge_precomp list \<Rightarrow> bytes \<Rightarrow> nat \<Rightarrow> ge \<times> ge_precomp \<Rightarrow> ge \<times> ge_precomp" where
  "lookup_add comb scalar i st =
     (case st of (p, tmp_c) \<Rightarrow>
        let teeth = comb_teeth scalar i;
            high = drop_bit 3 teeth;
            tmp_c = select_precomp comb (comb_index teeth) tmp_c;
            tmp_a = fe_neg (precomp_T2 tmp_c);
            (T2, tmp_a) = fe_cswap (precomp_T2 tmp_c) tmp_a (uint (high XOR 1));
            (Yp, Ym) = fe_cswap (precomp_Yp tmp_c) (precomp_Ym tmp_c) (uint (high XOR 1));
            tmp_c = \<lparr> precomp_Yp = Yp, precomp_Ym = Ym, precomp_T2 = T2 \<rparr>
        in (ge_madd p tmp_c, tmp_c))"

definition half_mod_L :: bytes where
  "half_mod_L = [247, 233, 122, 46, 141, 49, 9, 44, 107, 206, 123, 81, 239, 124, 111, 10,
                 0, 0, 0, 0, 0, 0, 0, 0, 0, 0, 0, 0, 0, 0, 0, 8]"

definition half_ones :: bytes where
  "half_ones = [142, 74, 204, 70, 186, 24, 118, 107, 184, 231, 190, 57, 250, 173, 119, 99,
                255, 255, 255, 255, 255, 255, 255, 255, 255, 255, 255, 255, 255, 255, 255, 7]"

definition comb_round :: "bytes \<Rightarrow> nat \<Rightarrow> ge \<times> ge_precomp \<Rightarrow> ge \<times> ge_precomp" where
  "comb_round s_scalar i st = lookup_add b_comb_high s_scalar (i + 128) (lookup_add b_comb_low s_scalar i st)"

definition ge_scalarmult_base :: "bytes \<Rightarrow> ge" where
  "ge_scalarmult_base scalar =
     (let s_scalar = crypto_eddsa_mul_add scalar half_mod_L half_ones;
          tmp_c = \<lparr> precomp_Yp = fe_1, precomp_Ym = fe_1, precomp_T2 = fe_0 \<rparr>;
          st = comb_round s_scalar 31 (ge_zero, tmp_c)
      in fst (foldl (\<lambda>st i. case st of (p, tmp_c) \<Rightarrow> comb_round s_scalar i (ge_double p, tmp_c)) st (rev [0..<31])))"

definition crypto_eddsa_scalarbase :: "bytes \<Rightarrow> bytes" where
  "crypto_eddsa_scalarbase scalar = ge_tobytes (ge_scalarmult_base scalar)"

section \<open>Conversions between the curves\<close>

definition crypto_eddsa_to_x25519 :: "bytes \<Rightarrow> bytes" where
  "crypto_eddsa_to_x25519 eddsa =
     (let t2 = fe_frombytes eddsa;
          t1 = fe_add fe_one t2;
          t2 = fe_sub fe_one t2;
          t2 = fe_invert t2;
          t1 = fe_mul t1 t2
      in fe_tobytes t1)"

definition crypto_x25519_to_eddsa :: "bytes \<Rightarrow> bytes" where
  "crypto_x25519_to_eddsa x25519 =
     (let t2 = fe_frombytes x25519;
          t1 = fe_sub t2 fe_one;
          t2 = fe_add t2 fe_one;
          t2 = fe_invert t2;
          t1 = fe_mul t1 t2
      in fe_tobytes t1)"

end
