(* ===== verification/X25519.thy ===== *)
theory X25519
  imports Scalar_L Field_Root
begin

text \<open>
  The X-25519 section of \<open>support/crypto/monocypher.c\<close>: the Montgomery ladder on field elements with its
  delayed conditional swaps, and the key agreement on byte strings.  It refines the ladder of RFC 7748 on
  numbers modulo \<open>2^255 - 19\<close>.
\<close>

text \<open>The variables of the loop: \<open>x2\<close>, \<open>z2\<close>, \<open>x3\<close>, \<open>z3\<close> and \<open>swap\<close>\<close>

type_synonym ladder = "fe \<times> fe \<times> fe \<times> fe \<times> int"

definition ladder_swap :: "ladder \<Rightarrow> int \<Rightarrow> ladder" where
  "ladder_swap s swap =
     (case s of (x2, z2, x3, z3, _) \<Rightarrow>
        let (x2, x3) = fe_cswap x2 x3 swap;
            (z2, z3) = fe_cswap z2 z3 swap
        in (x2, z2, x3, z3, swap))"

text \<open>The step: replaces (P2, P3) by (P2*2, P2+P3) with differential addition\<close>

definition ladder_add :: "fe \<Rightarrow> ladder \<Rightarrow> ladder" where
  "ladder_add x1 s =
     (case s of (x2, z2, x3, z3, swap) \<Rightarrow>
        let t0 = fe_sub x3 z3;
            t1 = fe_sub x2 z2;
            x2 = fe_add x2 z2;
            z2 = fe_add x3 z3;
            z3 = fe_mul t0 x2;
            z2 = fe_mul z2 t1;
            t0 = fe_sq t1;
            t1 = fe_sq x2;
            x3 = fe_add z3 z2;
            z2 = fe_sub z3 z2;
            x2 = fe_mul t1 t0;
            t1 = fe_sub t1 t0;
            z2 = fe_sq z2;
            z3 = fe_mul_small t1 121666;
            x3 = fe_sq x3;
            t0 = fe_add t0 z3;
            z3 = fe_mul x1 z2;
            z2 = fe_mul t1 t0
        in (x2, z2, x3, z3, swap))"

text \<open>The body of the loop for the bit \<open>pos\<close>\<close>

definition ladder_round :: "fe \<Rightarrow> bytes \<Rightarrow> ladder \<Rightarrow> nat \<Rightarrow> ladder" where
  "ladder_round x1 scalar s pos =
     (let b = scalar_bit scalar (int pos);
          swap = snd (snd (snd (snd s))) XOR b
      in case ladder_add x1 (ladder_swap s swap) of (x2, z2, x3, z3, _) \<Rightarrow> (x2, z2, x3, z3, b))"

definition scalarmult :: "bytes \<Rightarrow> bytes \<Rightarrow> nat \<Rightarrow> bytes" where
  "scalarmult scalar p nb_bits =
     (let x1 = fe_frombytes p;
          s = foldl (ladder_round x1 scalar) (fe_1, fe_0, x1, fe_1, 0) (rev [0..<nb_bits])
      in case ladder_swap s (snd (snd (snd (snd s)))) of (x2, z2, x3, z3, _) \<Rightarrow>
           fe_tobytes (fe_mul x2 (fe_invert z2)))"

definition crypto_x25519 :: "bytes \<Rightarrow> bytes \<Rightarrow> bytes" where
  "crypto_x25519 your_secret_key their_public_key =
     (let e = crypto_eddsa_trim_scalar your_secret_key in scalarmult e their_public_key 255)"

definition crypto_x25519_public_key :: "bytes \<Rightarrow> bytes" where
  "crypto_x25519_public_key secret_key =
     (let base_point = 9 # replicate 31 0 in crypto_x25519 secret_key base_point)"

section \<open>The ladder of RFC 7748\<close>

type_synonym points = "int \<times> int \<times> int \<times> int"

definition mont_step :: "int \<Rightarrow> points \<Rightarrow> points" where
  "mont_step x1 s =
     (case s of (x2, z2, x3, z3) \<Rightarrow>
        let A = x2 + z2; AA = A\<^sup>2; B = x2 - z2; BB = B\<^sup>2; E = AA - BB;
            C = x3 + z3; D = x3 - z3; DA = D * A; CB = C * B
        in (AA * BB, E * (AA + 121665 * E), (DA + CB)\<^sup>2, x1 * (DA - CB)\<^sup>2))"

definition swapped :: "points \<Rightarrow> points" where
  "swapped s = (case s of (x2, z2, x3, z3) \<Rightarrow> (x3, z3, x2, z2))"

text \<open>\<open>mont u n k\<close>: the pair of points after the \<open>n\<close> bits of \<open>k\<close>, the most significant first.\<close>

primrec mont :: "int \<Rightarrow> nat \<Rightarrow> nat \<Rightarrow> points" where
  "mont u 0 k = (1, 0, u, 1)"
| "mont u (Suc n) k =
     (let s = mont u n (k div 2) in if odd k then swapped (mont_step u (swapped s)) else mont_step u s)"

definition x25519 :: "nat \<Rightarrow> int \<Rightarrow> int" where
  "x25519 k u = (case mont u 255 k of (x2, z2, x3, z3) \<Rightarrow> x2 * fe_inv z2 mod prime_p)"

text \<open>The clamped scalar and the coordinate that the byte strings encode\<close>

definition clamp :: "bytes \<Rightarrow> nat" where
  "clamp s = 2 ^ 254 + num (take 32 s) mod 2 ^ 254 div 8 * 8"

definition coordinate :: "bytes \<Rightarrow> int" where
  "coordinate p = int (num (take 32 p) mod 2 ^ 255)"

section \<open>Bits of a scalar\<close>

lemma byte_at_num: "unat (byte_at s k) = num s div 2 ^ (8 * k) mod 256"
proof -
  have "unat (byte_at s k) = num (drop k s) mod 256"
  proof (cases "k < length s")
    case True
    then have "drop k s = s ! k # drop (Suc k) s" by (rule Cons_nth_drop_Suc [symmetric])
    moreover have "unat (s ! k) < 256" using unsigned_less [of "s ! k", where ?'a = nat] by simp
    ultimately show ?thesis using True by simp
  next
    case False
    then show ?thesis by (simp add: byte_at_def)
  qed
  then show ?thesis by (simp add: num_drop)
qed

lemma scalar_bit_num: "scalar_bit s (int i) = int (num s div 2 ^ i mod 2)"
proof -
  have "scalar_bit s (int i) = int (unat (byte_at s (i div 8)) div 2 ^ (i mod 8) mod 2)"
  proof -
    have "unat (drop_bit j b AND 1) = unat b div 2 ^ j mod 2" for j and b :: byte
    proof -
      have "unat (drop_bit j b AND 1) = drop_bit j (unat b) AND 1"
        by (simp only: unsigned_and_eq unat_drop_bit_eq unsigned_1)
      then show ?thesis by (simp add: and_one_eq drop_bit_eq_div)
    qed
    moreover have "scalar_bit s (int i) = int (unat (drop_bit (i mod 8) (byte_at s (i div 8)) AND 1))"
      by (simp add: scalar_bit_def)
    ultimately show ?thesis by (simp only:)
  qed
  also have "unat (byte_at s (i div 8)) div 2 ^ (i mod 8) mod 2 = num s div 2 ^ i mod 2"
  proof -
    have low: "M mod 256 div 2 ^ j mod 2 = M div 2 ^ j mod 2" if "j < 8" for M j :: nat
    proof -
      have "bit (take_bit 8 M) j = bit M j" using that by (simp add: bit_take_bit_iff)
      then have "M mod 256 div 2 ^ j mod 2 = 1 \<longleftrightarrow> M div 2 ^ j mod 2 = 1"
        by (simp add: bit_iff_odd take_bit_eq_mod odd_iff_mod_2_eq_one)
      then show ?thesis by (metis not_mod_2_eq_1_eq_0)
    qed
    have "num s div 2 ^ (8 * (i div 8)) div 2 ^ (i mod 8) = num s div 2 ^ i"
      by (simp only: div_mult2_eq [symmetric] power_add [symmetric]) simp
    then show ?thesis unfolding byte_at_num by (subst low) simp_all
  qed
  finally show ?thesis .
qed

lemma unat_and_248: "unat (b AND 248 :: byte) = unat b div 8 * 8"
proof -
  have m: "(248 :: byte) = NOT (mask 3)" by (simp add: mask_eq_exp_minus_1)
  have "b AND 248 = push_bit 3 (drop_bit 3 b)"
    unfolding m by (intro bit_word_eqI) (simp only: bit_simps, auto)
  moreover have "unat (push_bit 3 (drop_bit 3 b)) = take_bit 8 (push_bit 3 (unat b div 8))"
    by (simp only: unsigned_push_bit_eq unat_drop_bit_eq) (simp add: drop_bit_eq_div)
  moreover have "unat b < 256" using unsigned_less [of b, where ?'a = nat] by simp
  ultimately show ?thesis by (simp add: take_bit_eq_mod push_bit_eq_mult less_mult_imp_div_less)
qed

lemma unat_127_64: "unat ((b AND 127) OR 64 :: byte) = 64 + unat b mod 64"
proof -
  have m: "(127 :: byte) = mask 7" "(64 :: byte) = push_bit 6 1"
    by (simp_all add: mask_eq_exp_minus_1 push_bit_eq_mult)
  have "(b AND 127) OR 64 = take_bit 6 b OR push_bit 6 1"
    unfolding m by (intro bit_word_eqI) (simp only: bit_simps bit_1_iff, auto)
  moreover have "unat (take_bit 6 b OR push_bit 6 1) = take_bit 6 (unat b) OR push_bit 6 1"
    by (simp only: unsigned_or_eq unsigned_take_bit_eq unsigned_push_bit_eq) simp
  moreover have "take_bit 6 (unat b) OR push_bit 6 1 = take_bit 6 (unat b) + 2 ^ 6 * 1"
    by (rule or_push_bit_nat) (rule take_bit_nat_less_exp)
  ultimately show ?thesis by (simp add: take_bit_eq_mod)
qed

lemma trim_scalar_num:
  assumes "32 \<le> length s"
  shows "num (crypto_eddsa_trim_scalar s) = clamp s" "length (crypto_eddsa_trim_scalar s) = 32"
proof -
  have "length (take 32 s) = 32" using assms by simp
  define b0 b31 mid where "b0 = take 32 s ! 0" and "b31 = take 32 s ! 31" and "mid = take 30 (drop 1 (take 32 s))"
  have len: "length mid = 30" using assms by (simp add: mid_def)
  have eq: "take 32 s = b0 # mid @ [b31]"
  proof (rule nth_equalityI)
    fix i assume "i < length (take 32 s)"
    then consider "i = 0" | "0 < i" "i < 31" | "i = 31" using assms by fastforce
    then show "take 32 s ! i = (b0 # mid @ [b31]) ! i"
      using assms len by cases (auto simp: b0_def b31_def mid_def nth_Cons' nth_append)
  qed (use assms len in simp)
  have trim: "crypto_eddsa_trim_scalar s = (b0 AND 248) # mid @ [(b31 AND 127) OR 64]"
    using len by (simp add: crypto_eddsa_trim_scalar_def Let_def eq nth_append list_update_append)
  then show "length (crypto_eddsa_trim_scalar s) = 32" using len by simp
  have m: "num mid < 2 ^ 240" using num_less [of mid] len by simp
  define a c M where "a = unat b0" and "c = unat b31" and "M = num mid"
  have N: "num (take 32 s) = a + 256 * M + 2 ^ 248 * c"
    unfolding eq using len by (simp add: num_append a_def c_def M_def)
  have "num (crypto_eddsa_trim_scalar s) = a div 8 * 8 + 256 * M + 2 ^ 248 * (64 + c mod 64)"
    unfolding trim using len by (simp add: num_append unat_and_248 unat_127_64 a_def c_def M_def)
  also have "\<dots> = clamp s"
  proof -
    have a: "a < 256" using unsigned_less [of b0, where ?'a = nat] by (simp add: a_def)
    have "c = c mod 64 + 64 * (c div 64)" by simp
    then have "2 ^ 248 * c = 2 ^ 248 * (c mod 64) + 2 ^ 248 * (64 * (c div 64))"
      by (metis distrib_left)
    moreover have "(2 :: nat) ^ 248 * (64 * (c div 64)) = 2 ^ 254 * (c div 64)" by simp
    ultimately have "num (take 32 s) = a + 256 * M + 2 ^ 248 * (c mod 64) + 2 ^ 254 * (c div 64)"
      unfolding N by (simp only: add.assoc)
    moreover have "a + 256 * M + 2 ^ 248 * (c mod 64) < 2 ^ 254" using a m by (simp add: M_def)
    ultimately have "num (take 32 s) mod 2 ^ 254 = a + 256 * M + 2 ^ 248 * (c mod 64)"
      by (simp only: mod_mult_self2 mod_less)
    moreover have "(a + 256 * M + 2 ^ 248 * (c mod 64)) div 8 = a div 8 + (32 * M + 2 ^ 245 * (c mod 64))"
    proof -
      have "a + 256 * M + 2 ^ 248 * (c mod 64) = a + (32 * M + 2 ^ 245 * (c mod 64)) * 8" by simp
      then show ?thesis by (simp only: div_mult_self1)
    qed
    ultimately show ?thesis by (simp add: clamp_def)
  qed
  finally show "num (crypto_eddsa_trim_scalar s) = clamp s" .
qed

section \<open>The ladder\<close>

definition els :: "ladder \<Rightarrow> points \<Rightarrow> bool" where
  "els s v \<longleftrightarrow> (case s of (x2, z2, x3, z3, swap) \<Rightarrow> case v of (a2, b2, a3, b3) \<Rightarrow>
     el 1 x2 a2 \<and> el 1 z2 b2 \<and> el 1 x3 a3 \<and> el 1 z3 b3)"

lemma els_add:
  assumes "els s v" "el 1 x1 u"
  shows "els (ladder_add x1 s) (mont_step u v)"
proof -
  obtain x2 z2 x3 z3 swap a2 b2 a3 b3 where s: "s = (x2, z2, x3, z3, swap)" "v = (a2, b2, a3, b3)"
    by (metis prod.exhaust)
  then have e: "el 1 x2 a2" "el 1 z2 b2" "el 1 x3 a3" "el 1 z3 b3" using assms(1) by (simp_all add: els_def)
  have t: "el 2 (fe_sub x3 z3) (a3 - b3)" "el 2 (fe_sub x2 z2) (a2 - b2)" "el 2 (fe_add x2 z2) (a2 + b2)"
    "el 2 (fe_add x3 z3) (a3 + b3)"
    using el_sub [OF e(3,4)] el_sub [OF e(1,2)] el_add [OF e(1,2)] el_add [OF e(3,4)] by simp_all
  have da: "el 1 (fe_mul (fe_sub x3 z3) (fe_add x2 z2)) ((a3 - b3) * (a2 + b2))" by (rule el_mul [OF t(1,3)]) simp_all
  have cb: "el 1 (fe_mul (fe_add x3 z3) (fe_sub x2 z2)) ((a3 + b3) * (a2 - b2))" by (rule el_mul [OF t(4,2)]) simp_all
  have bb: "el 1 (fe_sq (fe_sub x2 z2)) ((a2 - b2)\<^sup>2)" using el_sq [OF t(2)] by (simp add: power2_eq_square)
  have aa: "el 1 (fe_sq (fe_add x2 z2)) ((a2 + b2)\<^sup>2)" using el_sq [OF t(3)] by (simp add: power2_eq_square)
  have ee: "el 2 (fe_sub (fe_sq (fe_add x2 z2)) (fe_sq (fe_sub x2 z2))) ((a2 + b2)\<^sup>2 - (a2 - b2)\<^sup>2)"
    using el_sub [OF aa bb] by simp
  have small: "rep (121666 :: i32) 121666 (2 ^ 31 - 1)" by (simp add: rep_def)
  note e3 = el_mul_small [OF ee _ small] and sum = el_add [OF da cb] and diff = el_sub [OF da cb]
  note x2' = el_mul [OF aa bb]
    and x3' = el_sq [OF sum]
    and z3' = el_mul [OF assms(2) el_sq [OF diff]]
    and z2' = el_mul [OF ee el_add [OF bb e3]]
  have "((a2 + b2)\<^sup>2 - (a2 - b2)\<^sup>2) * ((a2 - b2)\<^sup>2 + ((a2 + b2)\<^sup>2 - (a2 - b2)\<^sup>2) * 121666) =
      ((a2 + b2)\<^sup>2 - (a2 - b2)\<^sup>2) * ((a2 + b2)\<^sup>2 + 121665 * ((a2 + b2)\<^sup>2 - (a2 - b2)\<^sup>2))"
    by simp
  then show ?thesis
    using x2' x3' z3' z2' by (simp add: s els_def ladder_add_def mont_step_def Let_def power2_eq_square mult.commute [of _ 121666])
qed

lemma swapped_swapped [simp]: "swapped (swapped v) = v"
  by (cases v) (simp add: swapped_def)

lemma els_swap:
  assumes "els s v" "b = 0 \<or> b = 1"
  shows "els (ladder_swap s b) (if b = 1 then swapped v else v)"
proof -
  obtain x2 z2 x3 z3 swap a2 b2 a3 b3 where s: "s = (x2, z2, x3, z3, swap)" "v = (a2, b2, a3, b3)"
    by (metis prod.exhaust)
  then have e: "el 1 x2 a2" "el 1 z2 b2" "el 1 x3 a3" "el 1 z3 b3" using assms(1) by (simp_all add: els_def)
  have "length x2 = length x3" "length z2 = length z3" using e [THEN el_length] by simp_all
  then show ?thesis
    using assms(2) e by (auto simp: s ladder_swap_def els_def swapped_def fe_cswap_eq)
qed

text \<open>The code is one conditional swap behind the ladder; \<open>swap\<close> says whether it is due.\<close>

definition ladder_at :: "ladder \<Rightarrow> points \<Rightarrow> bool" where
  "ladder_at s v \<longleftrightarrow> (let swap = snd (snd (snd (snd s))) in
     (swap = 0 \<or> swap = 1) \<and> els s (if swap = 1 then swapped v else v))"

lemma ladder_round_step:
  assumes "ladder_at s (mont u n (num k div 2 ^ Suc pos))" "el 1 x1 u"
  shows "ladder_at (ladder_round x1 k s pos) (mont u (Suc n) (num k div 2 ^ pos))"
proof -
  let ?v = "mont u n (num k div 2 ^ Suc pos)" and ?w = "snd (snd (snd (snd s)))"
  define b where "b = scalar_bit k (int pos)"
  have b: "b = (if odd (num k div 2 ^ pos) then 1 else 0)"
    unfolding b_def scalar_bit_num by (simp add: odd_iff_mod_2_eq_one even_iff_mod_2_eq_zero)
  have w: "?w = 0 \<or> ?w = 1" "els s (if ?w = 1 then swapped ?v else ?v)"
    using assms(1) unfolding ladder_at_def Let_def by blast+
  have "els (ladder_swap s (?w XOR b)) (if b = 1 then swapped ?v else ?v)"
    using els_swap [OF w(2), of "?w XOR b"] w(1) b by (auto split: if_splits)
  then have "els (ladder_add x1 (ladder_swap s (?w XOR b))) (mont_step u (if b = 1 then swapped ?v else ?v))"
    using assms(2) by (rule els_add)
  moreover have "num k div 2 ^ Suc pos = num k div 2 ^ pos div 2" by (simp only: power_Suc2 div_mult2_eq)
  ultimately show ?thesis
    using b by (auto simp: ladder_at_def ladder_round_def Let_def b_def [symmetric] els_def split: prod.split)
qed

lemma ladder_rounds:
  "ladder_at s (mont u m (num k div 2 ^ n)) \<Longrightarrow> el 1 x1 u \<Longrightarrow>
   ladder_at (foldl (ladder_round x1 k) s (rev [0..<n])) (mont u (m + n) (num k))"
proof (induction n arbitrary: s m)
  case 0
  then show ?case by simp
next
  case (Suc n)
  have "ladder_at (ladder_round x1 k s n) (mont u (Suc m) (num k div 2 ^ n))"
    using Suc.prems by (rule ladder_round_step)
  then show ?case using Suc.IH [of "ladder_round x1 k s n" "Suc m"] Suc.prems(2) by simp
qed

lemma scalarmult_num:
  "int (num (scalarmult k p n)) =
     (case mont (coordinate p) n (num k) of (x2, z2, x3, z3) \<Rightarrow> x2 * fe_inv z2 mod prime_p)"
  "length (scalarmult k p n) = 32"
proof -
  define s where "s = foldl (ladder_round (fe_frombytes p) k) (fe_1, fe_0, fe_frombytes p, fe_1, 0) (rev [0..<n])"
  let ?u = "coordinate p" and ?w = "snd (snd (snd (snd s)))"
  have u: "el 1 (fe_frombytes p) ?u" unfolding coordinate_def by (rule el_frombytes)
  have "ladder_at (fe_1, fe_0, fe_frombytes p, fe_1, 0) (mont ?u 0 (num k div 2 ^ n))"
    using u el_1 el_0 by (simp add: ladder_at_def els_def)
  then have at: "ladder_at s (mont ?u n (num k))"
    using ladder_rounds [OF _ u, of _ 0 k n] by (simp add: s_def)
  have w: "?w = 0 \<or> ?w = 1" "els s (if ?w = 1 then swapped (mont ?u n (num k)) else mont ?u n (num k))"
    using at unfolding ladder_at_def Let_def by blast+
  have "els (ladder_swap s ?w) (mont ?u n (num k))"
    using els_swap [OF w(2), of ?w] w(1) by (auto split: if_splits)
  moreover obtain a2 b2 a3 b3 where v: "mont ?u n (num k) = (a2, b2, a3, b3)" by (metis prod.exhaust)
  moreover obtain x2 z2 x3 z3 sw where f: "ladder_swap s ?w = (x2, z2, x3, z3, sw)" by (metis prod.exhaust)
  ultimately have e: "el 1 x2 a2" "el 1 z2 b2" by (simp_all add: els_def)
  have "el 1 (fe_mul x2 (fe_invert z2)) (a2 * fe_inv b2)"
    by (rule el_mul [OF e(1) el_invert [OF e(2)]]) simp_all
  then have r: "int (num (fe_tobytes (fe_mul x2 (fe_invert z2)))) = a2 * fe_inv b2 mod prime_p"
    "length (fe_tobytes (fe_mul x2 (fe_invert z2))) = 32"
    using el_tobytes by blast+
  have "scalarmult k p n = fe_tobytes (fe_mul x2 (fe_invert z2))"
    using f unfolding scalarmult_def Let_def s_def by (simp only: prod.case)
  with r v show "int (num (scalarmult k p n)) =
      (case mont ?u n (num k) of (x2, z2, x3, z3) \<Rightarrow> x2 * fe_inv z2 mod prime_p)"
    "length (scalarmult k p n) = 32"
    by simp_all
qed

lemma crypto_x25519_value:
  assumes "32 \<le> length k"
  shows "int (num (crypto_x25519 k p)) = x25519 (clamp k) (coordinate p)"
  unfolding crypto_x25519_def x25519_def Let_def scalarmult_num(1) trim_scalar_num(1) [OF assms] ..

lemma length_crypto_x25519: "length (crypto_x25519 k p) = 32"
  by (simp add: crypto_x25519_def Let_def scalarmult_num(2))

lemma crypto_x25519_public_key_correct:
  assumes "32 \<le> length k"
  shows "int (num (crypto_x25519_public_key k)) = x25519 (clamp k) 9"
proof -
  have "num (9 # replicate 31 0 :: bytes) = 9" by code_simp
  then have "coordinate (9 # replicate 31 0) = 9" unfolding coordinate_def by simp
  then show ?thesis
    unfolding crypto_x25519_public_key_def Let_def crypto_x25519_value [OF assms] by (simp only:)
qed

section \<open>Properties\<close>

text \<open>
  C14. The key agreement on byte strings is the Montgomery ladder of RFC 7748 on numbers modulo
  \<open>2^255 - 19\<close>, for the clamped secret key and the masked coordinate, with the swaps delayed by one round.
\<close>

theorem x25519_refines_ladder:
  assumes "32 \<le> length k"
  shows "int (num (crypto_x25519 k p)) = x25519 (clamp k) (coordinate p) \<and> length (crypto_x25519 k p) = 32
    \<and> int (num (crypto_x25519_public_key k)) = x25519 (clamp k) 9"
  by (intro conjI crypto_x25519_value crypto_x25519_public_key_correct length_crypto_x25519 assms)

theorem x25519_refines_ladder_witness:
  "int (num (crypto_x25519 (replicate 32 7) (9 # replicate 31 0))) =
     x25519 (clamp (replicate 32 7)) (coordinate (9 # replicate 31 0))"
  using x25519_refines_ladder [of "replicate 32 7" "9 # replicate 31 0"] by simp

end
