(* ===== verification/Edwards_Value.thy ===== *)
theory Edwards_Value
  imports Edwards X25519
begin

text \<open>
  What the point operations of \<open>Edwards\<close> compute: each coordinate is a field element within the bounds of
  its use, so that no operation overflows, and stands for a number modulo \<open>2^255 - 19\<close>.  The formulas keep
  the curve equation; decoding solves it; the sliding windows and the comb are signed-digit expansions of
  their scalars; the ladder of the signature equation refines the one on numbers.
\<close>

section \<open>The values of the operations\<close>

text \<open>A point as the four numbers its coordinates stand for, and the same of a cached point\<close>

type_synonym pt = "int \<times> int \<times> int \<times> int"

definition curve_d :: int where
  "curve_d = fe_val edwards_d"

definition ge_el :: "ge \<Rightarrow> pt \<Rightarrow> bool" where
  "ge_el p v \<longleftrightarrow> (case v of (X, Y, Z, T) \<Rightarrow>
     el 1 (ge_X p) X \<and> el 1 (ge_Y p) Y \<and> el 1 (ge_Z p) Z \<and> el 1 (ge_T p) T)"

definition cached_el :: "ge_cached \<Rightarrow> pt \<Rightarrow> bool" where
  "cached_el c v \<longleftrightarrow> (case v of (Yp, Ym, Z, T2) \<Rightarrow>
     el 2 (cached_Yp c) Yp \<and> el 2 (cached_Ym c) Ym \<and> el 1 (cached_Z c) Z \<and> el 1 (cached_T2 c) T2)"

definition precomp_el :: "ge_precomp \<Rightarrow> pt \<Rightarrow> bool" where
  "precomp_el c v \<longleftrightarrow> (case v of (Yp, Ym, Z, T2) \<Rightarrow>
     el 1 (precomp_Yp c) Yp \<and> el 1 (precomp_Ym c) Ym \<and> Z = 1 \<and> el 1 (precomp_T2 c) T2)"

definition pt_zero :: pt where
  "pt_zero = (0, 1, 1, 0)"

definition pt_cached :: "pt \<Rightarrow> pt" where
  "pt_cached v = (case v of (X, Y, Z, T) \<Rightarrow> (Y + X, Y - X, Z, T * (2 * curve_d)))"

definition pt_neg :: "pt \<Rightarrow> pt" where
  "pt_neg c = (case c of (Yp, Ym, Z, T2) \<Rightarrow> (Ym, Yp, Z, - T2))"

definition pt_plus :: "pt \<Rightarrow> pt \<Rightarrow> pt" where
  "pt_plus v c = (case v of (X, Y, Z, T) \<Rightarrow> case c of (Yp, Ym, Z', T2) \<Rightarrow>
     let A = (Y - X) * Ym; B = (Y + X) * Yp; C = T * T2; D = 2 * Z * Z';
         E = B - A; F = D - C; G = D + C; H = B + A
     in (E * F, H * G, G * F, E * H))"

definition pt_double :: "pt \<Rightarrow> pt" where
  "pt_double v = (case v of (X, Y, Z, T) \<Rightarrow>
     let A = X * X; B = Y * Y; C = 2 * (Z * Z); H = B + A; G = B - A;
         E = (X + Y) * (X + Y) - H; F = C - G
     in (E * F, H * G, G * F, E * H))"

lemma el_D2: "el 1 edwards_D2 (2 * curve_d)"
  by (simp add: el_tight edwards_D2_def edwards_d_def curve_d_def limbs_def prime_p_def fe_val_def)

lemma el_d: "el 1 edwards_d curve_d"
  by (simp add: el_tight edwards_d_def curve_d_def limbs_def)

lemma ge_zero_el: "ge_el ge_zero pt_zero"
  using el_0 el_1 by (simp add: ge_el_def pt_zero_def ge_zero_def)

lemma ge_cache_el:
  assumes "ge_el p v"
  shows "cached_el (ge_cache p) (pt_cached v)"
proof -
  obtain X Y Z T where v: "v = (X, Y, Z, T)" by (metis prod.exhaust)
  have e: "el 1 (ge_X p) X" "el 1 (ge_Y p) Y" "el 1 (ge_Z p) Z" "el 1 (ge_T p) T"
    using assms by (simp_all add: v ge_el_def)
  show ?thesis
    using el_add [OF e(2,1)] el_sub [OF e(2,1)] e(3) el_mul [OF e(4) el_D2]
    by (simp add: v cached_el_def ge_cache_def pt_cached_def)
qed

text \<open>The shared half of both additions, from the products \<open>a\<close>, \<open>b\<close> and the sums of \<open>Z\<close> and \<open>T\<close>\<close>

lemma plus_el:
  assumes "el 1 a B" "el 1 b A" "el k z D" "el 1 t C" "k \<le> 2"
  shows "el 1 (fe_mul (fe_sub a b) (fe_sub z t)) ((B - A) * (D - C))"
    "el 1 (fe_mul (fe_add a b) (fe_add z t)) ((B + A) * (D + C))"
    "el 1 (fe_mul (fe_add z t) (fe_sub z t)) ((D + C) * (D - C))"
    "el 1 (fe_mul (fe_sub a b) (fe_add a b)) ((B - A) * (B + A))"
proof -
  have E: "el 2 (fe_sub a b) (B - A)" and H: "el 2 (fe_add a b) (B + A)"
    using el_sub [OF assms(1,2)] el_add [OF assms(1,2)] by simp_all
  have F: "el 3 (fe_sub z t) (D - C)" and G: "el 3 (fe_add z t) (D + C)"
    using assms(5) el_sub [OF assms(3,4)] el_add [OF assms(3,4)]
    by (auto intro: el_mono [of "k + 1" _ _ 3])
  show "el 1 (fe_mul (fe_sub a b) (fe_sub z t)) ((B - A) * (D - C))" by (rule el_mul [OF E F]) simp_all
  show "el 1 (fe_mul (fe_add a b) (fe_add z t)) ((B + A) * (D + C))" by (rule el_mul [OF H G]) simp_all
  show "el 1 (fe_mul (fe_add z t) (fe_sub z t)) ((D + C) * (D - C))" by (rule el_mul [OF G F]) simp_all
  show "el 1 (fe_mul (fe_sub a b) (fe_add a b)) ((B - A) * (B + A))" by (rule el_mul [OF E H]) simp_all
qed

lemma ge_add_el:
  assumes "ge_el p v" "cached_el q c"
  shows "ge_el (ge_add p q) (pt_plus v c)"
proof -
  obtain X Y Z T Yp Ym Z' T2 where v: "v = (X, Y, Z, T)" "c = (Yp, Ym, Z', T2)" by (metis prod.exhaust)
  have e: "el 1 (ge_X p) X" "el 1 (ge_Y p) Y" "el 1 (ge_Z p) Z" "el 1 (ge_T p) T"
    and q: "el 2 (cached_Yp q) Yp" "el 2 (cached_Ym q) Ym" "el 1 (cached_Z q) Z'" "el 1 (cached_T2 q) T2"
    using assms by (simp_all add: v ge_el_def cached_el_def)
  have s: "el 2 (fe_add (ge_Y p) (ge_X p)) (Y + X)" "el 2 (fe_sub (ge_Y p) (ge_X p)) (Y - X)"
    "el 2 (fe_add (ge_Z p) (ge_Z p)) (2 * Z)"
    using el_add [OF e(2,1)] el_sub [OF e(2,1)] el_add [OF e(3,3)] by simp_all
  have "el 1 (fe_mul (fe_add (ge_Y p) (ge_X p)) (cached_Yp q)) ((Y + X) * Yp)"
    "el 1 (fe_mul (fe_sub (ge_Y p) (ge_X p)) (cached_Ym q)) ((Y - X) * Ym)"
    "el 1 (fe_mul (fe_add (ge_Z p) (ge_Z p)) (cached_Z q)) (2 * Z * Z')"
    "el 1 (fe_mul (ge_T p) (cached_T2 q)) (T * T2)"
    by (rule el_mul [OF s(1) q(1)] el_mul [OF s(2) q(2)] el_mul [OF s(3) q(3)] el_mul [OF e(4) q(4)]; simp)+
  note plus_el [OF this]
  then show ?thesis
    by (simp add: v ge_el_def ge_add_def pt_plus_def Let_def mult.commute)
qed

lemma cached_neg_el:
  "cached_el q c \<Longrightarrow> cached_el \<lparr> cached_Yp = cached_Ym q, cached_Ym = cached_Yp q, cached_Z = cached_Z q,
     cached_T2 = fe_neg (cached_T2 q) \<rparr> (pt_neg c)"
  by (auto simp: cached_el_def pt_neg_def intro: el_neg split: prod.splits)

lemma ge_sub_el: "ge_el p v \<Longrightarrow> cached_el q c \<Longrightarrow> ge_el (ge_sub p q) (pt_plus v (pt_neg c))"
  unfolding ge_sub_def by (rule ge_add_el [OF _ cached_neg_el])

lemma ge_madd_el:
  assumes "ge_el p v" "precomp_el q c"
  shows "ge_el (ge_madd p q) (pt_plus v c)"
proof -
  obtain X Y Z T Yp Ym Z' T2 where v: "v = (X, Y, Z, T)" "c = (Yp, Ym, Z', T2)" by (metis prod.exhaust)
  have e: "el 1 (ge_X p) X" "el 1 (ge_Y p) Y" "el 1 (ge_Z p) Z" "el 1 (ge_T p) T"
    and q: "el 1 (precomp_Yp q) Yp" "el 1 (precomp_Ym q) Ym" "Z' = 1" "el 1 (precomp_T2 q) T2"
    using assms by (simp_all add: v ge_el_def precomp_el_def)
  have s: "el 2 (fe_add (ge_Y p) (ge_X p)) (Y + X)" "el 2 (fe_sub (ge_Y p) (ge_X p)) (Y - X)"
    "el 2 (fe_add (ge_Z p) (ge_Z p)) (2 * Z * 1)"
    using el_add [OF e(2,1)] el_sub [OF e(2,1)] el_add [OF e(3,3)] by simp_all
  have "el 1 (fe_mul (fe_add (ge_Y p) (ge_X p)) (precomp_Yp q)) ((Y + X) * Yp)"
    "el 1 (fe_mul (fe_sub (ge_Y p) (ge_X p)) (precomp_Ym q)) ((Y - X) * Ym)"
    "el 1 (fe_mul (ge_T p) (precomp_T2 q)) (T * T2)"
    by (rule el_mul [OF s(1) q(1)] el_mul [OF s(2) q(2)] el_mul [OF e(4) q(4)]; simp)+
  note plus_el [OF this(1,2) s(3) this(3)]
  then show ?thesis
    by (simp add: v q(3) ge_el_def ge_madd_def pt_plus_def Let_def mult.commute)
qed

lemma precomp_neg_el:
  "precomp_el q c \<Longrightarrow> precomp_el \<lparr> precomp_Yp = precomp_Ym q, precomp_Ym = precomp_Yp q,
     precomp_T2 = fe_neg (precomp_T2 q) \<rparr> (pt_neg c)"
  by (auto simp: precomp_el_def pt_neg_def intro: el_neg split: prod.splits)

lemma ge_msub_el: "ge_el p v \<Longrightarrow> precomp_el q c \<Longrightarrow> ge_el (ge_msub p q) (pt_plus v (pt_neg c))"
  unfolding ge_msub_def by (rule ge_madd_el [OF _ precomp_neg_el])

lemma ge_double_el:
  assumes "ge_el p v"
  shows "ge_el (ge_double p) (pt_double v)"
proof -
  obtain X Y Z T where v: "v = (X, Y, Z, T)" by (metis prod.exhaust)
  have e: "el 1 (ge_X p) X" "el 1 (ge_Y p) Y" "el 1 (ge_Z p) Z" "el 1 (ge_T p) T"
    using assms by (simp_all add: v ge_el_def)
  have sq: "el 1 (fe_sq (ge_X p)) (X * X)" "el 1 (fe_sq (ge_Y p)) (Y * Y)" "el 1 (fe_sq (ge_Z p)) (Z * Z)"
    using el_sq [OF e(1)] el_sq [OF e(2)] el_sq [OF e(3)] by simp_all
  have two: "rep (2 :: i32) 2 (2 ^ 31 - 1)" by (simp add: rep_def)
  have c: "el 1 (fe_mul_small (fe_sq (ge_Z p)) 2) (2 * (Z * Z))"
    using el_mul_small [OF sq(3) _ two] by (simp add: mult.commute)
  have h: "el 2 (fe_add (fe_sq (ge_Y p)) (fe_sq (ge_X p))) (Y * Y + X * X)"
    and g: "el 2 (fe_sub (fe_sq (ge_Y p)) (fe_sq (ge_X p))) (Y * Y - X * X)"
    and xy: "el 2 (fe_add (ge_X p) (ge_Y p)) (X + Y)"
    using el_add [OF sq(2,1)] el_sub [OF sq(2,1)] el_add [OF e(1,2)] by simp_all
  have s: "el 1 (fe_sq (fe_add (ge_X p) (ge_Y p))) ((X + Y) * (X + Y))" by (rule el_sq [OF xy]) simp
  have E: "el 3 (fe_sub (fe_sq (fe_add (ge_X p) (ge_Y p))) (fe_add (fe_sq (ge_Y p)) (fe_sq (ge_X p))))
      ((X + Y) * (X + Y) - (Y * Y + X * X))"
    and F: "el 3 (fe_sub (fe_mul_small (fe_sq (ge_Z p)) 2) (fe_sub (fe_sq (ge_Y p)) (fe_sq (ge_X p))))
      (2 * (Z * Z) - (Y * Y - X * X))"
    using el_sub [OF s h] el_sub [OF c g] by simp_all
  show ?thesis
    using el_mul [OF E F] el_mul [OF h g] el_mul [OF g F] el_mul [OF E h]
    by (simp add: v ge_el_def ge_double_def pt_double_def Let_def)
qed

section \<open>The curve\<close>

definition on_curve :: "pt \<Rightarrow> bool" where
  "on_curve v = (case v of (X, Y, Z, T) \<Rightarrow>
     prime_p dvd Y * Y - X * X - (Z * Z + curve_d * T * T) \<and> prime_p dvd X * Y - Z * T)"

lemma plus_on_curve:
  assumes "on_curve v" "on_curve w"
  shows "on_curve (pt_plus v (pt_cached w))"
proof -
  obtain X Y Z T X' Y' Z' T' where v: "v = (X, Y, Z, T)" "w = (X', Y', Z', T')" by (metis prod.exhaust)
  define d where "d = curve_d"
  have "prime_p dvd Y * Y - X * X - (Z * Z + d * T * T)" "prime_p dvd X * Y - Z * T"
    "prime_p dvd Y' * Y' - X' * X' - (Z' * Z' + d * T' * T')" "prime_p dvd X' * Y' - Z' * T'"
    using assms by (simp_all add: v on_curve_def d_def)
  then have "prime_p dvd (let e = X * Y' + Y * X'; h = Y * Y' + X * X'; f = Z * Z' - d * T * T'; g = Z * Z' + d * T * T'
      in (h * g) * (h * g) - (e * f) * (e * f) - ((f * g) * (f * g) + d * (e * h) * (e * h)))"
    unfolding Let_def by algebra
  then have "prime_p dvd 16 * (let e = X * Y' + Y * X'; h = Y * Y' + X * X'; f = Z * Z' - d * T * T'; g = Z * Z' + d * T * T'
      in (h * g) * (h * g) - (e * f) * (e * f) - ((f * g) * (f * g) + d * (e * h) * (e * h)))"
    by (rule dvd_mult)
  then show ?thesis
    by (simp add: v on_curve_def pt_plus_def pt_cached_def Let_def d_def [symmetric] algebra_simps)
qed

lemma double_on_curve:
  assumes "on_curve v"
  shows "on_curve (pt_double v)"
proof -
  obtain X Y Z T where v: "v = (X, Y, Z, T)" by (metis prod.exhaust)
  define d where "d = curve_d"
  have "prime_p dvd Y * Y - X * X - (Z * Z + d * T * T)" "prime_p dvd X * Y - Z * T"
    using assms by (simp_all add: v on_curve_def d_def)
  then have "prime_p dvd (let h = Y * Y + X * X; g = Y * Y - X * X; e = (X + Y) * (X + Y) - h; f = 2 * (Z * Z) - g
      in (h * g) * (h * g) - (e * f) * (e * f) - ((g * f) * (g * f) + d * (e * h) * (e * h)))"
    unfolding Let_def by algebra
  then show ?thesis
    by (simp add: v on_curve_def pt_double_def Let_def d_def [symmetric] mult.assoc)
qed

section \<open>Encoding and decoding\<close>

definition curve_num :: "int \<Rightarrow> int" where
  "curve_num y = y * y - 1"

definition curve_den :: "int \<Rightarrow> int" where
  "curve_den y = y * y * curve_d + 1"

lemma decode_parts:
  fixes s :: bytes
  defines "y \<equiv> coordinate s" and "Y \<equiv> fe_frombytes s"
  defines "N \<equiv> fe_sub (fe_sq Y) fe_1"
  defines "r \<equiv> invsqrt (fe_mul N (fe_add (fe_mul (fe_sq Y) edwards_d) fe_1))"
  shows "el 1 Y y" "el 1 (fe_mul N (snd r)) (curve_num y * inv_root (curve_num y * curve_den y))"
    "fst r = (if root_found (curve_num y * curve_den y) then 1 else 0)"
    "ge_frombytes_neg_vartime s =
       (if fst r = 0 then (-1, None)
        else let X = fe_mul N (snd r);
                 X = (if fe_isodd X = uint (drop_bit 7 (byte_at s 31)) then fe_neg X else X)
             in (0, Some \<lparr> ge_X = X, ge_Y = Y, ge_Z = fe_1, ge_T = fe_mul X Y \<rparr>))"
proof -
  show y: "el 1 Y y" unfolding Y_def y_def coordinate_def by (rule el_frombytes)
  have sq: "el 1 (fe_sq Y) (y * y)" by (rule el_sq [OF y]) simp
  have n: "el 2 N (curve_num y)" using el_sub [OF sq el_1] by (simp add: N_def curve_num_def)
  have "el 1 (fe_mul (fe_sq Y) edwards_d) (y * y * curve_d)" by (rule el_mul [OF sq el_d]) simp_all
  from el_add [OF this el_1] have "el 2 (fe_add (fe_mul (fe_sq Y) edwards_d) fe_1) (curve_den y)"
    by (simp add: curve_den_def)
  then have nd: "el 1 (fe_mul N (fe_add (fe_mul (fe_sq Y) edwards_d) fe_1)) (curve_num y * curve_den y)"
    by (rule el_mul [OF n]) simp_all
  show "fst r = (if root_found (curve_num y * curve_den y) then 1 else 0)"
    unfolding r_def by (rule invsqrt_value [OF nd])
  show "el 1 (fe_mul N (snd r)) (curve_num y * inv_root (curve_num y * curve_den y))"
    unfolding r_def by (rule el_mul [OF n invsqrt_value(1) [OF nd]]) simp_all
  show "ge_frombytes_neg_vartime s =
       (if fst r = 0 then (-1, None)
        else let X = fe_mul N (snd r);
                 X = (if fe_isodd X = uint (drop_bit 7 (byte_at s 31)) then fe_neg X else X)
             in (0, Some \<lparr> ge_X = X, ge_Y = Y, ge_Z = fe_1, ge_T = fe_mul X Y \<rparr>))"
    unfolding ge_frombytes_neg_vartime_def Let_def r_def N_def Y_def by (simp split: prod.split)
qed

lemma root_on_curve:
  assumes "root_found (n * d)" "n mod prime_p = 0 \<or> n * d mod prime_p \<noteq> 0"
  shows "prime_p dvd (n * inv_root (n * d)) * (n * inv_root (n * d)) * d - n"
proof (cases "n mod prime_p = 0")
  case True
  then have "prime_p dvd n" by (simp add: mod_eq_0_iff_dvd)
  then show ?thesis by simp
next
  case False
  let ?i = "inv_root (n * d)"
  have "?i * ?i * (n * d) mod prime_p = 1 mod prime_p" using assms False by (intro inv_root_square) simp_all
  then have "prime_p dvd ?i * ?i * (n * d) - 1" by (simp only: mod_eq_dvd_iff)
  then have "prime_p dvd n * (?i * ?i * (n * d) - 1)" by (rule dvd_mult)
  then show ?thesis by (simp add: algebra_simps)
qed

lemma root_parity:
  assumes "x mod prime_p \<noteq> 0"
  shows "(- x) mod prime_p mod 2 = 1 - x mod prime_p mod 2"
proof -
  have "(- x) mod prime_p = prime_p - x mod prime_p" using assms by (simp add: zmod_zminus1_eq_if)
  moreover have "(q - a) mod 2 = 1 - a mod 2" if "q mod 2 = 1" for q a :: int using that by presburger
  moreover have "prime_p mod 2 = 1" by (simp add: prime_p_def)
  ultimately show ?thesis by simp
qed

text \<open>
  The numbers that decoding computes: \<open>None\<close> off the curve, else the point with the encoded \<open>y\<close> and the
  \<open>x\<close> of the other sign.
\<close>

lemma decode_value:
  fixes s :: bytes
  defines "n \<equiv> curve_num (coordinate s)" and "d \<equiv> curve_den (coordinate s)"
  shows "\<not> root_found (n * d) \<Longrightarrow> ge_frombytes_neg_vartime s = (-1, None)"
    "root_found (n * d) \<Longrightarrow>
      \<exists>p x. ge_frombytes_neg_vartime s = (0, Some p) \<and> ge_el p (x, coordinate s, 1, x * coordinate s)
        \<and> x * x = n * inv_root (n * d) * (n * inv_root (n * d))
        \<and> (x mod prime_p \<noteq> 0 \<longrightarrow> x mod prime_p mod 2 \<noteq> uint (drop_bit 7 (byte_at s 31)))"
proof -
  let ?y = "coordinate s" and ?x = "n * inv_root (n * d)" and ?b = "uint (drop_bit 7 (byte_at s 31))"
  note dp = decode_parts [of s, folded n_def d_def]
  show "ge_frombytes_neg_vartime s = (-1, None)" if "\<not> root_found (n * d)"
    using dp(3,4) that by simp
  assume r: "root_found (n * d)"
  define X where "X = fe_mul (fe_sub (fe_sq (fe_frombytes s)) fe_1) (snd (invsqrt (fe_mul (fe_sub (fe_sq (fe_frombytes s)) fe_1)
    (fe_add (fe_mul (fe_sq (fe_frombytes s)) edwards_d) fe_1))))"
  define x where "x = (if ?x mod prime_p mod 2 = ?b then - ?x else ?x)"
  define p where "p = \<lparr> ge_X = if fe_isodd X = ?b then fe_neg X else X, ge_Y = fe_frombytes s, ge_Z = fe_1,
    ge_T = fe_mul (if fe_isodd X = ?b then fe_neg X else X) (fe_frombytes s) \<rparr>"
  have X: "el 1 X ?x" unfolding X_def by (rule dp(2))
  then have x': "el 1 (if fe_isodd X = ?b then fe_neg X else X) x"
    unfolding x_def el_isodd [OF X] by (auto intro: el_neg)
  have "ge_el p (x, ?y, 1, x * ?y)"
    using x' dp(1) el_1 el_mul [OF x' dp(1)] by (simp add: ge_el_def p_def)
  moreover have "ge_frombytes_neg_vartime s = (0, Some p)"
    using dp(3,4) r by (simp add: X_def p_def Let_def)
  moreover have "x * x = ?x * ?x" by (simp add: x_def)
  moreover have "x mod prime_p mod 2 \<noteq> ?b" if nz: "x mod prime_p \<noteq> 0"
  proof (cases "?x mod prime_p mod 2 = ?b")
    case True
    then have "?x mod prime_p \<noteq> 0" using nz by (auto simp: x_def zmod_zminus1_eq_if split: if_splits)
    from root_parity [OF this] have "(- ?x) mod prime_p mod 2 = 1 - ?b" using True by simp
    moreover have "1 - c \<noteq> c" for c :: int by presburger
    ultimately show ?thesis using True by (simp add: x_def)
  next
    case False
    then show ?thesis by (simp add: x_def)
  qed
  ultimately show "\<exists>p x. ge_frombytes_neg_vartime s = (0, Some p) \<and> ge_el p (x, ?y, 1, x * ?y) \<and> x * x = ?x * ?x
        \<and> (x mod prime_p \<noteq> 0 \<longrightarrow> x mod prime_p mod 2 \<noteq> ?b)"
    by (intro exI [of _ p] exI [of _ x] conjI impI)
qed

lemma xor_top_bit:
  fixes s :: bytes
  assumes "length s = 32" "num s < 2 ^ 255" "b = 0 \<or> b = 1"
  shows "int (num (s[31 := s ! 31 XOR of_int (push_bit 7 b)])) = int (num s) + 2 ^ 255 * b"
proof -
  define t where "t = take 31 s"
  have s: "s = t @ [s ! 31]" "length t = 31"
    using assms(1) take_Suc_conv_app_nth [of 31 s] by (simp_all add: t_def)
  have "num s = num t + 2 ^ 248 * unat (s ! 31)" by (subst s(1)) (simp add: num_append s(2))
  then have "2 ^ 248 * unat (s ! 31) < 2 ^ 255" using assms(2) by linarith
  then have l: "unat (s ! 31) < 2 ^ 7" by simp
  have x: "unat (s ! 31 XOR push_bit 7 1) = unat (s ! 31) + 2 ^ 7"
  proof -
    have "take_bit 7 (s ! 31) = s ! 31"
      using l by (intro word_unat_eq_iff [THEN iffD2]) (simp only: unsigned_take_bit_eq, simp add: take_bit_eq_mod)
    then have b: "\<not> bit (s ! 31) 7" by (metis bit_take_bit_iff less_irrefl)
    have "s ! 31 XOR push_bit 7 1 = s ! 31 OR push_bit 7 1"
    proof (rule bit_word_eqI)
      fix n assume "n < LENGTH(8)"
      then consider "n < 7" | "n = 7" by fastforce
      then show "bit (s ! 31 XOR push_bit 7 1) n = bit (s ! 31 OR push_bit 7 1) n"
        using b by cases (simp_all only: bit_simps bit_1_iff, simp_all)
    qed
    moreover have "unat (s ! 31 OR push_bit 7 1) = unat (s ! 31) OR push_bit 7 1"
      by (simp only: unsigned_or_eq unsigned_push_bit_eq) simp
    moreover have "unat (s ! 31) OR push_bit 7 1 = unat (s ! 31) + 2 ^ 7 * 1" by (rule or_push_bit_nat) (rule l)
    ultimately show ?thesis by simp
  qed
  have c: "num (s[31 := c]) = num t + 2 ^ 248 * unat c" for c
    by (subst s(1)) (simp add: num_append list_update_append s(2))
  have "num (s[31 := s ! 31 XOR push_bit 7 1]) = num s + 2 ^ 255"
    unfolding c x \<open>num s = num t + 2 ^ 248 * unat (s ! 31)\<close> by simp
  then have "int (num (s[31 := s ! 31 XOR push_bit 7 1])) = int (num s) + 2 ^ 255" by simp
  then show ?thesis using assms(3) by auto
qed

text \<open>The encoding holds the affine coordinates: \<open>y\<close> and the parity of \<open>x\<close>.\<close>

lemma ge_tobytes_value:
  assumes "ge_el p (X, Y, Z, T)"
  shows "int (num (ge_tobytes p)) = Y * fe_inv Z mod prime_p + 2 ^ 255 * (X * fe_inv Z mod prime_p mod 2)"
    "length (ge_tobytes p) = 32"
proof -
  have e: "el 1 (ge_X p) X" "el 1 (ge_Y p) Y" "el 1 (ge_Z p) Z" using assms by (simp_all add: ge_el_def)
  have i: "el 1 (fe_invert (ge_Z p)) (fe_inv Z)" by (rule el_invert [OF e(3)]) simp
  have x: "el 1 (fe_mul (ge_X p) (fe_invert (ge_Z p))) (X * fe_inv Z)"
    and y: "el 1 (fe_mul (ge_Y p) (fe_invert (ge_Z p))) (Y * fe_inv Z)"
    by (rule el_mul [OF e(1) i] el_mul [OF e(2) i]; simp)+
  let ?s = "fe_tobytes (fe_mul (ge_Y p) (fe_invert (ge_Z p)))"
  have s: "int (num ?s) = Y * fe_inv Z mod prime_p" "length ?s = 32" using el_tobytes(1) [OF y] el_tobytes(2) by simp_all
  have "(0 :: int) < prime_p" "prime_p < 2 ^ 255" by (simp_all add: prime_p_def)
  then have "int (num ?s) < int (2 ^ 255)" unfolding s(1) by (auto intro: less_trans [OF pos_mod_bound])
  then have n: "num ?s < 2 ^ 255" by (simp only: of_nat_less_iff)
  have t: "ge_tobytes p = ?s[31 := ?s ! 31 XOR of_int (push_bit 7 (X * fe_inv Z mod prime_p mod 2))]"
    unfolding ge_tobytes_def Let_def el_isodd [OF x] ..
  show "int (num (ge_tobytes p)) = Y * fe_inv Z mod prime_p + 2 ^ 255 * (X * fe_inv Z mod prime_p mod 2)"
    unfolding t by (subst xor_top_bit [OF s(2) n]) (auto simp: s(1))
  show "length (ge_tobytes p) = 32" unfolding t by (simp add: s(2))
qed

lemma to_x25519_value:
  "int (num (crypto_eddsa_to_x25519 s)) = (1 + coordinate s) * fe_inv (1 - coordinate s) mod prime_p"
  "length (crypto_eddsa_to_x25519 s) = 32"
proof -
  have y: "el 1 (fe_frombytes s) (coordinate s)" unfolding coordinate_def by (rule el_frombytes)
  have a: "el 2 (fe_add fe_one (fe_frombytes s)) (1 + coordinate s)"
    and b: "el 2 (fe_sub fe_one (fe_frombytes s)) (1 - coordinate s)"
    using el_add [OF el_one y] el_sub [OF el_one y] by simp_all
  have "el 1 (fe_mul (fe_add fe_one (fe_frombytes s)) (fe_invert (fe_sub fe_one (fe_frombytes s))))
      ((1 + coordinate s) * fe_inv (1 - coordinate s))"
    by (rule el_mul [OF a el_invert [OF b]]) simp_all
  from el_tobytes(1) [OF this] el_tobytes(2) show
    "int (num (crypto_eddsa_to_x25519 s)) = (1 + coordinate s) * fe_inv (1 - coordinate s) mod prime_p"
    "length (crypto_eddsa_to_x25519 s) = 32"
    by (simp_all add: crypto_eddsa_to_x25519_def Let_def)
qed

lemma from_x25519_value:
  "int (num (crypto_x25519_to_eddsa s)) = (coordinate s - 1) * fe_inv (coordinate s + 1) mod prime_p"
proof -
  have y: "el 1 (fe_frombytes s) (coordinate s)" unfolding coordinate_def by (rule el_frombytes)
  have a: "el 2 (fe_sub (fe_frombytes s) fe_one) (coordinate s - 1)"
    and b: "el 2 (fe_add (fe_frombytes s) fe_one) (coordinate s + 1)"
    using el_sub [OF y el_one] el_add [OF y el_one] by simp_all
  have "el 1 (fe_mul (fe_sub (fe_frombytes s) fe_one) (fe_invert (fe_add (fe_frombytes s) fe_one)))
      ((coordinate s - 1) * fe_inv (coordinate s + 1))"
    by (rule el_mul [OF a el_invert [OF b]]) simp_all
  from el_tobytes(1) [OF this] show ?thesis by (simp add: crypto_x25519_to_eddsa_def Let_def)
qed

lemma minus_on_curve:
  assumes "on_curve v" "on_curve w"
  shows "on_curve (pt_plus v (pt_neg (pt_cached w)))"
proof -
  obtain X Y Z T where w: "w = (X, Y, Z, T)" by (metis prod.exhaust)
  have "prime_p dvd - (X * Y - Z * T)" using assms(2) by (simp only: w on_curve_def prod.case dvd_minus_iff)
  then have "on_curve (- X, Y, Z, - T)" using assms(2) by (simp add: w on_curve_def)
  from plus_on_curve [OF assms(1) this] show ?thesis by (simp add: w pt_neg_def pt_cached_def)
qed

lemma root_point_on_curve:
  fixes x y :: int
  defines "n \<equiv> curve_num y" and "d \<equiv> curve_den y"
  assumes "root_found (n * d)" "n mod prime_p = 0 \<or> n * d mod prime_p \<noteq> 0"
    and x: "x * x = n * inv_root (n * d) * (n * inv_root (n * d))"
  shows "on_curve (x, y, 1, x * y)"
proof -
  have "prime_p dvd x * x * d - n" unfolding x by (rule root_on_curve [OF assms(3,4)])
  then have "prime_p dvd - (x * x * d - n)" by (simp only: dvd_minus_iff)
  then show ?thesis by (simp add: on_curve_def n_def d_def curve_num_def curve_den_def algebra_simps)
qed

section \<open>Properties\<close>

text \<open>
  Decoding fails exactly when the root test does; otherwise it gives a point of the curve with the
  encoded \<open>y\<close>, and an \<open>x\<close> whose parity is not the encoded sign: the negative of the encoded point.
\<close>

theorem decoded_point_on_curve:
  assumes "curve_num (coordinate s) mod prime_p = 0 \<or> curve_num (coordinate s) * curve_den (coordinate s) mod prime_p \<noteq> 0"
  shows "case ge_frombytes_neg_vartime s of
      (r, None) \<Rightarrow> r = -1 \<and> \<not> root_found (curve_num (coordinate s) * curve_den (coordinate s))
    | (r, Some p) \<Rightarrow> r = 0 \<and> (\<exists>x. ge_el p (x, coordinate s, 1, x * coordinate s)
        \<and> on_curve (x, coordinate s, 1, x * coordinate s)
        \<and> (x mod prime_p = 0 \<or> x mod prime_p mod 2 \<noteq> uint (drop_bit 7 (byte_at s 31))))"
proof (cases "root_found (curve_num (coordinate s) * curve_den (coordinate s))")
  case False
  then show ?thesis using decode_value(1) [of s] by simp
next
  case True
  from decode_value(2) [OF this] obtain p x where d: "ge_frombytes_neg_vartime s = (0, Some p)"
    and x: "ge_el p (x, coordinate s, 1, x * coordinate s)"
    and sq: "x * x = curve_num (coordinate s) * inv_root (curve_num (coordinate s) * curve_den (coordinate s))
      * (curve_num (coordinate s) * inv_root (curve_num (coordinate s) * curve_den (coordinate s)))"
    and sign: "x mod prime_p \<noteq> 0 \<longrightarrow> x mod prime_p mod 2 \<noteq> uint (drop_bit 7 (byte_at s 31))"
    by (elim exE conjE) (rule that)
  have "on_curve (x, coordinate s, 1, x * coordinate s)" by (rule root_point_on_curve [OF True assms sq])
  with d x sign show ?thesis by auto
qed

theorem decoded_point_on_curve_witness:
  "case ge_frombytes_neg_vartime (1 # replicate 31 0) of
      (r, None) \<Rightarrow> r = -1 \<and> \<not> root_found (curve_num 1 * curve_den 1)
    | (r, Some p) \<Rightarrow> r = 0 \<and> (\<exists>x. ge_el p (x, 1, 1, x * 1) \<and> on_curve (x, 1, 1, x * 1)
        \<and> (x mod prime_p = 0 \<or> x mod prime_p mod 2 \<noteq> uint (drop_bit 7 (byte_at (1 # replicate 31 0) 31))))"
proof -
  have "num (1 # replicate 31 0 :: bytes) = 1" by simp
  then have y: "coordinate (1 # replicate 31 0) = 1" unfolding coordinate_def by simp
  have "curve_num 1 mod prime_p = 0 \<or> curve_num 1 * curve_den 1 mod prime_p \<noteq> 0" by (simp add: curve_num_def)
  then show ?thesis by (rule decoded_point_on_curve [of "1 # replicate 31 0", unfolded y])
qed

text \<open>
  C21. Sums, differences and doubles of points are computed without overflow by the formulas of twisted
  Edwards curves in extended coordinates, and are points of the curve again.
\<close>

theorem group_operations_on_curve:
  assumes "ge_el p v" "on_curve v" "ge_el q w" "on_curve w"
  shows "ge_el (ge_add p (ge_cache q)) (pt_plus v (pt_cached w)) \<and> on_curve (pt_plus v (pt_cached w))
    \<and> ge_el (ge_sub p (ge_cache q)) (pt_plus v (pt_neg (pt_cached w))) \<and> on_curve (pt_plus v (pt_neg (pt_cached w)))
    \<and> ge_el (ge_double p) (pt_double v) \<and> on_curve (pt_double v)"
  using assms by (simp add: ge_add_el ge_sub_el ge_double_el ge_cache_el plus_on_curve minus_on_curve double_on_curve)

theorem group_operations_on_curve_witness:
  "ge_el (ge_add ge_zero (ge_cache ge_zero)) (pt_plus pt_zero (pt_cached pt_zero))
    \<and> on_curve (pt_plus pt_zero (pt_cached pt_zero))"
proof -
  have "on_curve pt_zero" by (simp add: on_curve_def pt_zero_def)
  from group_operations_on_curve [OF ge_zero_el this ge_zero_el this] show ?thesis by blast
qed

end
