(* ===== verification/Signed_Digits.thy ===== *)
theory Signed_Digits
  imports Edwards X25519
begin

text \<open>
  The recodings of scalars in \<open>support/crypto/monocypher.c\<close>.  The digits that \<open>slide_step\<close> returns from the
  highest position down are the signed sliding-window expansion of the scalar: zero or odd, small enough for
  the look-up tables, and with the scalar as their value.
\<close>

section \<open>Sliding windows\<close>

text \<open>The digits for the positions \<open>n - 1\<close> down to 0, and the number that digits denote\<close>

primrec slide_digits :: "nat \<Rightarrow> bytes \<Rightarrow> slide_ctx \<Rightarrow> nat \<Rightarrow> int list" where
  "slide_digits width scalar ctx 0 = []"
| "slide_digits width scalar ctx (Suc i) =
     (let (ctx, digit) = slide_step ctx (int width) (int i) scalar
      in digit # slide_digits width scalar ctx i)"

definition digits_value :: "int \<Rightarrow> int list \<Rightarrow> int" where
  "digits_value = foldl (\<lambda>v digit. 2 * v + digit)"

lemma digits_value_simps [simp]:
  "digits_value v [] = v" "digits_value v (d # ds) = digits_value (2 * v + d) ds"
  by (simp_all add: digits_value_def)

abbreviation window_bound :: "nat \<Rightarrow> int \<Rightarrow> bool" where
  "window_bound width g \<equiv> odd g \<and> \<bar>g\<bar> < 2 ^ (width - 1)"

lemma scalar_bit_neg [simp]: "scalar_bit s (- 1) = 0"
  by (simp add: scalar_bit_def)

lemma scalar_bit_01: "scalar_bit s (int i) = 0 \<or> scalar_bit s (int i) = 1"
  by (auto simp: scalar_bit_num)

lemma scalar_bit_split:
  "int (num s) div 2 ^ i = 2 * (int (num s) div 2 ^ Suc i) + scalar_bit s (int i)"
proof -
  have "scalar_bit s (int i) = int (num s) div 2 ^ i mod 2"
    unfolding scalar_bit_num by (simp add: zdiv_int zmod_int)
  moreover have "int (num s) div 2 ^ Suc i = int (num s) div 2 ^ i div 2"
    by (simp only: power_Suc2 zdiv_zmult2_eq [of 2, simplified])
  ultimately show ?thesis by simp
qed

lemma scalar_bits_sum:
  "foldl (\<lambda>v j. v + push_bit j (scalar_bit s (int k + int j))) v [0..<n] = v + int (num s) div 2 ^ k mod 2 ^ n"
proof (induction n)
  case (Suc n)
  let ?q = "int (num s) div 2 ^ k"
  have "scalar_bit s (int k + int n) = ?q div 2 ^ n mod 2"
  proof -
    have "int k + int n = int (k + n)" by simp
    then have "scalar_bit s (int k + int n) = int (num s div 2 ^ (k + n) mod 2)" by (simp only: scalar_bit_num)
    then show ?thesis by (simp add: zdiv_int zmod_int power_add zdiv_zmult2_eq)
  qed
  moreover have "?q mod 2 ^ Suc n = ?q mod 2 ^ n + 2 ^ n * (?q div 2 ^ n mod 2)"
    by (simp only: power_Suc2) (simp add: zmod_zmult2_eq)
  ultimately show ?case using Suc by (simp add: push_bit_eq_mult mult.commute)
qed simp

text \<open>A window of \<open>w\<close> bits below position \<open>i\<close>: the bits above, rounded, give those below, rounded.\<close>

lemma slide_window_value:
  fixes s :: bytes and w i :: nat
  assumes "1 \<le> w" "w \<le> i + 1"
  defines "N \<equiv> int (num s)" and "k \<equiv> i + 1 - w"
  shows "N div 2 ^ k + scalar_bit s (int i - int w) =
    2 ^ w * (N div 2 ^ Suc i + scalar_bit s (int i)) + slide_window s (int i) (int w)"
proof -
  let ?low = "N div 2 ^ k mod 2 ^ (w - 1)" and ?b = "scalar_bit s (int i)"
  have pos: "int i - (int w - 1) = int k" "nat (int w - 1) = w - 1" using assms by (simp_all add: k_def)
  have win: "slide_window s (int i) (int w) = - (2 ^ (w - 1) * ?b) + ?low + scalar_bit s (int i - int w)"
    unfolding slide_window_def Let_def pos scalar_bits_sum N_def by (simp add: push_bit_eq_mult mult.commute)
  have "i = k + (w - 1)" using assms by (simp add: k_def)
  then have "N div 2 ^ k div 2 ^ (w - 1) = N div 2 ^ i"
    by (simp add: power_add zdiv_zmult2_eq)
  then have "N div 2 ^ k = 2 ^ (w - 1) * (2 * (N div 2 ^ Suc i) + ?b) + ?low"
    using scalar_bit_split [of s i] mult_div_mod_eq [of "2 ^ (w - 1)" "N div 2 ^ k"] by (simp add: N_def)
  moreover have "(2 :: int) ^ w = 2 * 2 ^ (w - 1)" using assms(1) by (cases w) simp_all
  ultimately show ?thesis unfolding win by (simp add: algebra_simps)
qed

lemma slide_window_range:
  assumes "1 \<le> w" "w \<le> i + 1" "scalar_bit s (int i) \<noteq> scalar_bit s (int i - 1)"
  shows "slide_window s (int i) (int w) \<noteq> 0" "\<bar>slide_window s (int i) (int w)\<bar> \<le> 2 ^ (w - 1)"
proof -
  let ?v = "slide_window s (int i) (int w)" and ?b = "scalar_bit s (int i)"
  define k where "k = i + 1 - w"
  define low where "low = int (num s) div 2 ^ k mod 2 ^ (w - 1)"
  have pos: "int i - (int w - 1) = int k" "nat (int w - 1) = w - 1" using assms by (simp_all add: k_def)
  define v where "v = ?v"
  have win: "v = - (2 ^ (w - 1) * ?b) + low + scalar_bit s (int i - int w)"
    unfolding v_def slide_window_def Let_def pos scalar_bits_sum low_def by (simp add: push_bit_eq_mult mult.commute)
  have b: "?b = 0 \<or> ?b = 1" by (rule scalar_bit_01)
  have c: "scalar_bit s (int i - int w) = 0 \<or> scalar_bit s (int i - int w) = 1"
  proof (cases "w = i + 1")
    case False
    then have "int i - int w = int (i - w)" using assms by simp
    then show ?thesis by (simp only: scalar_bit_01)
  qed simp
  have "v \<noteq> 0 \<and> \<bar>v\<bar> \<le> 2 ^ (w - 1)"
  proof (cases "w = 1")
    case True
    then have "v = - ?b + scalar_bit s (int i - 1)" using win by (simp add: low_def)
    then show ?thesis using assms(3) b c True by auto
  next
    case False
    then obtain m where m: "w = Suc (Suc m)" using assms(1) by (metis One_nat_def Suc_le_D not0_implies_Suc)
    have i: "i = k + Suc m" using assms by (simp add: k_def m)
    have "low div 2 ^ m = scalar_bit s (int i - 1)"
    proof -
      have "int i - 1 = int (k + m)" by (simp add: i)
      then have "scalar_bit s (int i - 1) = int (num s) div 2 ^ k div 2 ^ m mod 2"
        by (simp only: scalar_bit_num) (simp add: zdiv_int zmod_int power_add zdiv_zmult2_eq)
      moreover have "low div 2 ^ m = int (num s) div 2 ^ k div 2 ^ m mod 2"
      proof -
        have "low = int (num s) div 2 ^ k mod (2 ^ m * 2)" by (simp add: low_def m mult.commute)
        then show ?thesis by (simp add: zmod_zmult2_eq)
      qed
      ultimately show ?thesis by simp
    qed
    then have "low - 2 ^ m * scalar_bit s (int i - 1) = low mod 2 ^ m" by (metis minus_mult_div_eq_mod)
    then have "0 \<le> low - 2 ^ m * scalar_bit s (int i - 1)" "low - 2 ^ m * scalar_bit s (int i - 1) < 2 ^ m" by simp_all
    moreover have "scalar_bit s (int i - 1) = 1 - ?b"
      using assms(3) b scalar_bit_01 [of s "i - 1"] i by (auto simp: of_nat_diff)
    moreover have "(1 :: int) \<le> 2 ^ m" by simp
    ultimately show ?thesis using b c unfolding win m by (elim disjE) simp_all
  qed
  then show "?v \<noteq> 0" "\<bar>?v\<bar> \<le> 2 ^ (w - 1)" by (simp_all add: v_def)
qed

lemma slide_shift_table:
  "list_all (\<lambda>v. v \<noteq> 0 \<longrightarrow> 0 \<le> slide_shift v \<and> slide_shift v \<le> 7
     \<and> 2 ^ nat (slide_shift v) * drop_bit (nat (slide_shift v)) v = v \<and> odd (drop_bit (nat (slide_shift v)) v))
     [-128..128]"
  by code_simp

lemma slide_shift:
  assumes "v \<noteq> 0" "\<bar>v\<bar> \<le> 128"
  shows "0 \<le> slide_shift v" "slide_shift v \<le> 7"
    "2 ^ nat (slide_shift v) * drop_bit (nat (slide_shift v)) v = v" "odd (drop_bit (nat (slide_shift v)) v)"
proof -
  have "v \<in> set [-128..128]" using assms(2) unfolding set_upto atLeastAtMost_iff by linarith
  then show "0 \<le> slide_shift v" "slide_shift v \<le> 7"
    "2 ^ nat (slide_shift v) * drop_bit (nat (slide_shift v)) v = v" "odd (drop_bit (nat (slide_shift v)) v)"
    using slide_shift_table assms(1) unfolding list_all_iff by blast+
qed

text \<open>
  The state before position \<open>n - 1\<close>: \<open>c\<close> is the next check (255 is \<open>-1\<close> in eight bits) and \<open>g\<close> a digit that is
  due at \<open>j\<close>.  Digits so far and the due one make up the scalar above the check, rounded.
\<close>

definition slide_at :: "nat \<Rightarrow> bytes \<Rightarrow> slide_ctx \<Rightarrow> nat \<Rightarrow> int \<Rightarrow> bool" where
  "slide_at width s ctx n v \<longleftrightarrow> (\<exists>c j g.
     ctx = \<lparr> sl_next_index = of_int j, sl_next_digit = of_int g, sl_next_check = of_int c \<rparr>
     \<and> -1 \<le> c \<and> c < int n \<and> -1 \<le> j \<and> j < 255
     \<and> window_bound width g \<and> (0 \<le> j \<and> j < int n \<longrightarrow> c < j)
     \<and> 2 ^ n * v + (if 0 \<le> j \<and> j < int n then g * 2 ^ nat j else 0) =
         2 ^ nat (c + 1) * (int (num s) div 2 ^ nat (c + 1) + scalar_bit s c))"

lemma slide_casts:
  "-1 \<le> c \<Longrightarrow> c < 255 \<Longrightarrow> i < 254 \<Longrightarrow> int i = uint (of_int c :: 8 word) \<longleftrightarrow> int i = c"
  "-1 \<le> j \<Longrightarrow> j < 255 \<Longrightarrow> sint (of_int j :: 16 word) = j"
  "\<bar>g\<bar> < 128 \<Longrightarrow> sint (of_int g :: 8 word) = g"
proof -
  show "-1 \<le> j \<Longrightarrow> j < 255 \<Longrightarrow> sint (of_int j :: 16 word) = j"
    by (subst signed_of_int) (simp add: signed_take_bit_int_eq_self)
  show "\<bar>g\<bar> < 128 \<Longrightarrow> sint (of_int g :: 8 word) = g"
    by (subst signed_of_int) (simp add: signed_take_bit_int_eq_self)
  show "int i = uint (of_int c :: 8 word) \<longleftrightarrow> int i = c" if "-1 \<le> c" "c < 255" "i < 254"
  proof (cases "c = -1")
    case True
    then have "uint (of_int c :: 8 word) = 255" by (simp add: unsigned_minus_1_eq_mask mask_eq_exp_minus_1)
    then show ?thesis using True that by simp
  next
    case False
    then have "uint (of_int c :: 8 word) = c" using that by (simp add: uint_word_of_int_eq take_bit_eq_mod)
    then show ?thesis by simp
  qed
qed

lemma slide_at_step:
  assumes at: "slide_at width s ctx (Suc i) v" and w: "2 \<le> width" "width \<le> 8" and i: "i < 254"
  obtains ctx' d where "slide_step ctx (int width) (int i) s = (ctx', d)" "slide_at width s ctx' i (2 * v + d)"
    "d = 0 \<or> window_bound width d"
proof -
  obtain c j g where ctx: "ctx = \<lparr> sl_next_index = of_int j, sl_next_digit = of_int g, sl_next_check = of_int c \<rparr>"
    and c: "-1 \<le> c" "c < int (Suc i)" and j: "-1 \<le> j" "j < 255" and g: "window_bound width g"
    and due: "0 \<le> j \<and> j < int (Suc i) \<longrightarrow> c < j"
    and val: "2 ^ Suc i * v + (if 0 \<le> j \<and> j < int (Suc i) then g * 2 ^ nat j else 0) =
         2 ^ nat (c + 1) * (int (num s) div 2 ^ nat (c + 1) + scalar_bit s c)"
    using at unfolding slide_at_def by blast
  define b where "b = scalar_bit s (int i)"
  have N: "int (num s) div 2 ^ i = 2 * (int (num s) div 2 ^ Suc i) + b"
    unfolding b_def by (rule scalar_bit_split)
  have pw: "2 ^ (width - 1) \<le> (128 :: int)"
    using power_increasing [of "width - 1" 7 "2 :: int"] w(2) by simp
  have check: "int i = uint (of_int c :: 8 word) \<longleftrightarrow> int i = c" using c i by (intro slide_casts) simp_all
  show ?thesis
  proof (cases "int i = c")
    case False
    define d where "d = (if int i = j then g else 0)"
    have "\<bar>g\<bar> < 128" using g pw by simp
    then have "slide_step ctx (int width) (int i) s = (ctx, d)"
      using False by (simp add: slide_step_def ctx check slide_casts j d_def)
    moreover have "slide_at width s ctx i (2 * v + d)"
      unfolding slide_at_def
      by (rule exI [of _ c], rule exI [of _ j], rule exI [of _ g])
        (use ctx c j g due val False in \<open>auto simp: d_def algebra_simps\<close>)
    ultimately show ?thesis using that g by (simp add: d_def)
  next
    case True
    with check have uc: "uint (of_int c :: 8 word) = c" by simp
    have nodue: "\<not> (0 \<le> j \<and> j < int (Suc i))" using due True by auto
    then have ji: "int i \<noteq> j" by auto
    have "nat (c + 1) = Suc i" using True by simp
    then have "2 ^ Suc i * v + 0 = 2 ^ Suc i * (int (num s) div 2 ^ Suc i + b)"
      using val unfolding if_not_P [OF nodue] b_def True by (simp only:)
    then have v: "v = int (num s) div 2 ^ Suc i + b" by simp
    show ?thesis
    proof (cases "b = scalar_bit s (int i - 1)")
      case eq: True
      define ctx' where "ctx' = ctx \<lparr> sl_next_check := of_int (c - 1) \<rparr>"
      have "slide_step ctx (int width) (int i) s = (ctx', 0)"
        using True eq ji uc by (simp add: slide_step_def ctx ctx'_def slide_casts j b_def)
      moreover have "slide_at width s ctx' i (2 * v + 0)"
        unfolding slide_at_def
        by (rule exI [of _ "c - 1"], rule exI [of _ j], rule exI [of _ g])
          (use ctx c j g nodue True v N eq in \<open>auto simp: ctx'_def\<close>)
      ultimately show ?thesis using that by simp
    next
      case ne: False
      define w' where "w' = min width (i + 1)"
      define win where "win = slide_window s (int i) (int w')"
      define k where "k = i + 1 - w'"
      define sh where "sh = nat (slide_shift win)"
      define g' where "g' = drop_bit sh win"
      define j' where "j' = int (k + sh)"
      have w': "1 \<le> w'" "w' \<le> i + 1" "w' \<le> width" "int w' = min (int width) (int i + 1)" "w' \<le> 8"
        using w by (auto simp: w'_def)
      have r: "win \<noteq> 0" "\<bar>win\<bar> \<le> 2 ^ (w' - 1)"
        using slide_window_range [OF w'(1,2)] ne by (simp_all add: win_def b_def)
      have "2 ^ (w' - 1) \<le> (2 :: int) ^ 7" by (rule power_increasing) (use w'(5) in simp_all)
      then have small: "\<bar>win\<bar> \<le> 128" using r(2) by simp
      have sh: "int sh = slide_shift win" "2 ^ sh * g' = win" "odd g'"
        using slide_shift [OF r(1) small] by (simp_all add: sh_def g'_def)
      have "g' \<noteq> 0" using sh(3) by auto
      have mag: "2 ^ sh * \<bar>g'\<bar> \<le> 2 ^ (w' - 1)" using r(2) by (simp add: sh(2) [symmetric] abs_mult)
      have "1 \<le> \<bar>g'\<bar>" using \<open>g' \<noteq> 0\<close> by simp
      then have "2 ^ sh * 1 \<le> 2 ^ sh * \<bar>g'\<bar>" by (intro mult_left_mono) simp_all
      from order_trans [OF this mag] have "(2 :: int) ^ sh \<le> 2 ^ (w' - 1)" by (simp only: mult_1_right)
      then have shw: "sh \<le> w' - 1" by simp
      have "\<bar>g'\<bar> < 2 ^ (width - 1)"
      proof (cases "sh = 0")
        case True
        have "odd \<bar>g'\<bar>" using sh(3) by simp
        have "2 ^ (w' - 1) \<le> (2 :: int) ^ (width - 1)" by (rule power_increasing) (use w'(3) in simp_all)
        moreover have "\<bar>g'\<bar> \<le> 2 ^ (w' - 1)" using mag True by simp
        moreover have "even ((2 :: int) ^ (width - 1))" using w(1) by simp
        ultimately show ?thesis using \<open>odd \<bar>g'\<bar>\<close> by (metis order_le_imp_less_or_eq order_trans)
      next
        case False
        then have "2 * \<bar>g'\<bar> \<le> 2 ^ sh * \<bar>g'\<bar>"
          using power_increasing [of 1 sh "2 :: int"] by (intro mult_right_mono) simp_all
        also have "\<dots> \<le> 2 ^ (w' - 1)" by (rule mag)
        also have "\<dots> \<le> (2 :: int) ^ (width - 1)" by (rule power_increasing) (use w'(3) in simp_all)
        finally show ?thesis using \<open>1 \<le> \<bar>g'\<bar>\<close> by simp
      qed
      with sh(3) have gb: "window_bound width g'" by simp
      define ctx' where "ctx' = ctx \<lparr> sl_next_index := of_int j', sl_next_digit := of_int g',
        sl_next_check := of_int (int i - int w') \<rparr>"
      define d where "d = (if int i = j' then g' else 0)"
      have j': "-1 \<le> j'" "j' < 255" "0 \<le> j'" "j' \<le> int i" "int i - int w' < j'" "nat j' = k + sh"
        "j' = int i - (int w' - 1) + slide_shift win"
        using shw w'(1,2,5) i by (simp_all add: j'_def k_def sh(1) [symmetric] of_nat_diff)
      have gsmall: "\<bar>g'\<bar> < 128" using gb pw by simp
      have P: "int i = uint (sl_next_check ctx)" by (simp add: ctx uc True)
      have step: "slide_step ctx (int width) (int i) s = (ctx', d)"
        unfolding slide_step_def Let_def if_P [OF P] if_not_P [OF ne [unfolded b_def]] w'(4) [symmetric]
          win_def [symmetric] sh_def [symmetric] g'_def [symmetric] j'(7) [symmetric]
        by (simp add: ctx ctx'_def d_def slide_casts j'(1,2) gsmall True [symmetric])
      have "2 ^ k * (2 ^ w' * v + win) = 2 ^ k * (int (num s) div 2 ^ k + scalar_bit s (int i - int w'))"
        using slide_window_value [OF w'(1,2), of s] by (simp only: k_def v b_def win_def)
      moreover have "(2 :: int) ^ k * 2 ^ w' = 2 ^ Suc i" using w' by (simp only: power_add [symmetric] k_def) simp
      moreover have "2 ^ k * win = g' * 2 ^ nat j'" by (simp add: j'(6) power_add sh(2) [symmetric])
      ultimately have new: "2 ^ Suc i * v + g' * 2 ^ nat j' =
          2 ^ k * (int (num s) div 2 ^ k + scalar_bit s (int i - int w'))"
        by (simp add: algebra_simps)
      have k: "nat (int i - int w' + 1) = k" using w' by (simp add: k_def)
      have val': "2 ^ i * (2 * v + d) + (if 0 \<le> j' \<and> j' < int i then g' * 2 ^ nat j' else 0) =
          2 ^ nat (int i - int w' + 1) * (int (num s) div 2 ^ nat (int i - int w' + 1) + scalar_bit s (int i - int w'))"
        unfolding k
      proof (cases "int i = j'")
        case True
        then have "nat j' = i" "\<not> j' < int i" "d = g'" by (simp_all add: d_def)
        then show "2 ^ i * (2 * v + d) + (if 0 \<le> j' \<and> j' < int i then g' * 2 ^ nat j' else 0) =
          2 ^ k * (int (num s) div 2 ^ k + scalar_bit s (int i - int w'))"
          unfolding new [symmetric] by (simp add: algebra_simps)
      next
        case False
        then have "j' < int i" "d = 0" using j'(4) by (simp_all add: d_def)
        then show "2 ^ i * (2 * v + d) + (if 0 \<le> j' \<and> j' < int i then g' * 2 ^ nat j' else 0) =
          2 ^ k * (int (num s) div 2 ^ k + scalar_bit s (int i - int w'))"
          unfolding new [symmetric] using j'(3) by simp
      qed
      have "slide_at width s ctx' i (2 * v + d)"
        unfolding slide_at_def
      proof (intro exI conjI)
        show "ctx' = \<lparr> sl_next_index = of_int j', sl_next_digit = of_int g', sl_next_check = of_int (int i - int w') \<rparr>"
          by (simp add: ctx'_def ctx)
        show "-1 \<le> int i - int w'" "int i - int w' < int i" using w'(1,2) by simp_all
        show "0 \<le> j' \<and> j' < int i \<longrightarrow> int i - int w' < j'" using j'(5) by simp
      qed (use gb j'(1,2) val' in simp_all)
      with step show ?thesis using that gb by (simp add: d_def)
    qed
  qed
qed

lemma slide_top_bound: "num s < 2 ^ Suc i \<Longrightarrow> num s < 2 ^ Suc (slide_top s i)"
proof (induction i)
  case (Suc i)
  show ?case
  proof (cases "scalar_bit s (int (Suc i)) = 0")
    case True
    then have "num s div 2 ^ Suc i mod 2 = 0" by (simp only: scalar_bit_num)
    moreover have "num s div 2 ^ Suc i < 2" using Suc.prems by (simp add: less_mult_imp_div_less)
    ultimately have "num s div 2 ^ Suc i = 0" by simp
    then have "num s < 2 ^ Suc i" by (simp add: div_eq_0_iff)
    with True show ?thesis using Suc.IH by simp
  next
    case False
    with Suc.prems show ?thesis by simp
  qed
qed simp

lemma slide_top_le: "slide_top s i \<le> i"
  by (induction i) auto

lemma slide_check_init: "unat (sl_next_check (slide_init s)) = slide_top s 252 + 1"
proof -
  have "slide_top s 252 + 1 < 2 ^ LENGTH(8)" using slide_top_le [of s 252] by simp
  then show ?thesis by (simp add: slide_init_def Let_def unsigned_of_nat take_bit_nat_eq_self del: of_nat_add of_nat_Suc)
qed

lemma slide_at_init:
  assumes "num s < 2 ^ 253" "2 \<le> width" "slide_top s 252 + 1 < n"
  shows "slide_at width s (slide_init s) n 0"
  unfolding slide_at_def
proof (intro exI conjI)
  let ?c = "int (slide_top s 252 + 1)"
  show "slide_init s = \<lparr> sl_next_index = of_int (-1), sl_next_digit = of_int (-1), sl_next_check = of_int ?c \<rparr>"
    by (simp add: slide_init_def)
  have l: "num s < 2 ^ Suc (slide_top s 252)" by (rule slide_top_bound) (use assms(1) in simp)
  have z: "int a div 2 ^ m = 0" if "a < 2 ^ m" for a m :: nat using that zdiv_int [of a "2 ^ m"] by simp
  have c: "nat (?c + 1) = Suc (Suc (slide_top s 252))" by simp
  have "num s < 2 ^ Suc (Suc (slide_top s 252))" using l by (rule less_le_trans) simp
  then have "int (num s) div 2 ^ Suc (Suc (slide_top s 252)) = 0"
    by (rule z)
  moreover have "scalar_bit s ?c = 0" using l by (simp only: scalar_bit_num) simp
  ultimately show "2 ^ n * 0 + (if 0 \<le> (-1 :: int) \<and> -1 < int n then -1 * 2 ^ nat (-1) else 0) =
      2 ^ nat (?c + 1) * (int (num s) div 2 ^ nat (?c + 1) + scalar_bit s ?c)"
    unfolding c by simp
  have "(2 :: int) ^ 1 \<le> 2 ^ (width - 1)" by (rule power_increasing) (use assms(2) in simp_all)
  then show "\<bar>-1 :: int\<bar> < 2 ^ (width - 1)" by simp
qed (use assms(3) in simp_all)

lemma slide_digits_at:
  assumes "2 \<le> width" "width \<le> 8"
  shows "slide_at width s ctx n v \<Longrightarrow> n \<le> 254 \<Longrightarrow>
    digits_value v (slide_digits width s ctx n) = int (num s) \<and>
    (\<forall>d \<in> set (slide_digits width s ctx n). d = 0 \<or> window_bound width d)"
proof (induction n arbitrary: ctx v)
  case 0
  from 0 obtain c j g where c: "-1 \<le> c" "c < int 0"
    and v: "2 ^ 0 * v + (if 0 \<le> j \<and> j < int 0 then g * 2 ^ nat j else 0) =
      2 ^ nat (c + 1) * (int (num s) div 2 ^ nat (c + 1) + scalar_bit s c)"
    unfolding slide_at_def by blast
  have "\<not> (0 \<le> j \<and> j < int 0)" by simp
  from v [unfolded if_not_P [OF this]] c
  have "v = 2 ^ nat (c + 1) * (int (num s) div 2 ^ nat (c + 1) + scalar_bit s c)" by simp
  moreover have "c = -1" using c by simp
  ultimately show ?case by simp
next
  case (Suc i)
  obtain ctx' d where "slide_step ctx (int width) (int i) s = (ctx', d)" "slide_at width s ctx' i (2 * v + d)"
    "d = 0 \<or> window_bound width d"
    using slide_at_step [OF Suc.prems(1) assms] Suc.prems(2) by auto
  then show ?case using Suc.IH Suc.prems(2) by simp
qed

lemma slide_digits_correct:
  assumes "num s < 2 ^ 253" "2 \<le> width" "width \<le> 8" "unat (sl_next_check (slide_init s)) < n" "n \<le> 254"
  shows "digits_value 0 (slide_digits width s (slide_init s) n) = int (num s)"
    "\<forall>d \<in> set (slide_digits width s (slide_init s) n). d = 0 \<or> window_bound width d"
  using slide_digits_at [OF assms(2,3) slide_at_init [OF assms(1,2)] assms(5)] assms(4)
  by (simp_all add: slide_check_init)

section \<open>The signed comb\<close>

text \<open>
  A table entry \<open>k\<close> of the comb stands for \<open>2^96\<close> and the three lower teeth, each added where its bit of \<open>k\<close>
  is set and subtracted where it is clear; the highest tooth of a look-up gives the sign.
\<close>

definition comb_entry :: "byte \<Rightarrow> int" where
  "comb_entry k = 2 ^ 96 + (\<Sum>t = 0..<3. (2 * uint (drop_bit t k AND 1) - 1) * 2 ^ (32 * t))"

definition comb_digit :: "byte \<Rightarrow> int" where
  "comb_digit teeth = (if drop_bit 3 teeth = 1 then comb_entry (comb_index teeth) else - comb_entry (comb_index teeth))"

definition comb_digits :: "bytes \<Rightarrow> int list" where
  "comb_digits s = map (\<lambda>i. comb_digit (comb_teeth s i) + 2 ^ 128 * comb_digit (comb_teeth s (i + 128))) (rev [0..<32])"

lemma digits_value_sum: "digits_value v (map f (rev [0..<n])) = v * 2 ^ n + (\<Sum>i = 0..<n. f i * 2 ^ i)"
  by (induction n arbitrary: v) (simp_all add: algebra_simps)

lemma scalar_bits_number:
  "(\<Sum>i = 0..<n. scalar_bit s (int (k + i)) * 2 ^ i) = int (num s) div 2 ^ k mod 2 ^ n"
proof -
  have "foldl (\<lambda>v j. v + push_bit j (scalar_bit s (int k + int j))) v [0..<n]
      = v + (\<Sum>i = 0..<n. scalar_bit s (int (k + i)) * 2 ^ i)" for v
    by (induction n) (simp_all add: push_bit_eq_mult)
  from this [of 0] show ?thesis using scalar_bits_sum [of s k 0 n] by simp
qed

lemma comb_digit_table:
  "list_all (\<lambda>a. list_all (\<lambda>b. list_all (\<lambda>c. list_all (\<lambda>d.
     comb_digit (of_int (a + push_bit 1 b + push_bit 2 c + push_bit 3 d)) =
       (2 * a - 1) + (2 * b - 1) * 2 ^ 32 + (2 * c - 1) * 2 ^ 64 + (2 * d - 1) * 2 ^ 96)
     [0, 1]) [0, 1]) [0, 1]) [0, 1]"
  by code_simp

lemma comb_digit_teeth:
  "comb_digit (comb_teeth s k) = (\<Sum>t = 0..<4. (2 * scalar_bit s (int (k + 32 * t)) - 1) * 2 ^ (32 * t))"
proof -
  have bits: "scalar_bit s (int m) \<in> set [0, 1]" for m using scalar_bit_01 [of s m] by auto
  have "comb_digit (comb_teeth s k) =
      (2 * scalar_bit s (int k) - 1) + (2 * scalar_bit s (int (k + 32)) - 1) * 2 ^ 32
       + (2 * scalar_bit s (int (k + 64)) - 1) * 2 ^ 64 + (2 * scalar_bit s (int (k + 96)) - 1) * 2 ^ 96"
    using comb_digit_table bits [of k] bits [of "k + 32"] bits [of "k + 64"] bits [of "k + 96"]
    unfolding comb_teeth_def list_all_iff of_nat_add of_nat_numeral by blast
  then show ?thesis by (simp add: numeral_eq_Suc add.commute)
qed

lemma number_words: "(\<Sum>t = 0..<n. N div 2 ^ (32 * t) mod 2 ^ 32 * 2 ^ (32 * t)) = N mod 2 ^ (32 * n)"
  for N :: int
proof (induction n)
  case (Suc n)
  have "N mod 2 ^ (32 * Suc n) = N mod (2 ^ (32 * n) * 2 ^ 32)" by (simp add: power_add mult.commute)
  also have "\<dots> = 2 ^ (32 * n) * (N div 2 ^ (32 * n) mod 2 ^ 32) + N mod 2 ^ (32 * n)"
    by (simp add: zmod_zmult2_eq)
  finally show ?case using Suc by simp
qed simp

text \<open>With every bit taken as 1 or \<open>-1\<close> the number is \<open>2 s - (2^256 - 1)\<close>.\<close>

lemma comb_digits_value:
  assumes "num s < 2 ^ 256"
  shows "digits_value 0 (comb_digits s) = 2 * int (num s) - (2 ^ 256 - 1)"
proof -
  let ?b = "\<lambda>i t. 2 * scalar_bit s (int (32 * t + i)) - 1"
  have digit: "comb_digit (comb_teeth s i) + 2 ^ 128 * comb_digit (comb_teeth s (i + 128))
      = (\<Sum>t = 0..<8. ?b i t * 2 ^ (32 * t))" for i
    unfolding comb_digit_teeth by (simp add: numeral_eq_Suc add.commute)
  have "digits_value 0 (comb_digits s) = (\<Sum>i = 0..<32. (\<Sum>t = 0..<8. ?b i t * 2 ^ (32 * t)) * 2 ^ i)"
    unfolding comb_digits_def digits_value_sum digit by simp
  also have "\<dots> = (\<Sum>t = 0..<8. (\<Sum>i = 0..<32. ?b i t * 2 ^ i) * 2 ^ (32 * t))"
    unfolding sum_distrib_right by (subst sum.swap) (simp add: ac_simps)
  also have "\<dots> = (\<Sum>t = 0..<8. (2 * (int (num s) div 2 ^ (32 * t) mod 2 ^ 32) - (2 ^ 32 - 1)) * 2 ^ (32 * t))"
  proof -
    have "(\<Sum>i = 0..<32. ?b i t * 2 ^ i) = 2 * (int (num s) div 2 ^ (32 * t) mod 2 ^ 32) - (2 ^ 32 - 1)" for t
    proof -
      have "(\<Sum>i = 0..<32. ?b i t * 2 ^ i) = 2 * (\<Sum>i = 0..<32. scalar_bit s (int (32 * t + i)) * 2 ^ i) - (\<Sum>i = 0..<32. 2 ^ i)"
        by (simp add: left_diff_distrib sum_subtractf sum_distrib_left mult.assoc)
      also have "(\<Sum>i = 0..<32. 2 ^ i) = (2 ^ 32 - 1 :: int)" by (simp add: numeral_eq_Suc)
      finally show ?thesis unfolding scalar_bits_number .
    qed
    then show ?thesis by simp
  qed
  also have "\<dots> = 2 * (\<Sum>t = 0..<8. int (num s) div 2 ^ (32 * t) mod 2 ^ 32 * 2 ^ (32 * t))
      - (\<Sum>t = 0..<8. (2 ^ 32 - 1) * 2 ^ (32 * t))"
    by (simp add: left_diff_distrib sum_subtractf sum_distrib_left mult.assoc)
  also have "(\<Sum>t = 0..<8. (2 ^ 32 - 1) * 2 ^ (32 * t)) = (2 ^ 256 - 1 :: int)" by code_simp
  also have "(\<Sum>t = 0..<8. int (num s) div 2 ^ (32 * t) mod 2 ^ 32 * 2 ^ (32 * t)) = int (num s)"
  proof -
    have "int (num s) < 2 ^ 256" using assms by (metis of_nat_less_iff of_nat_numeral of_nat_power)
    then show ?thesis unfolding number_words by simp
  qed
  finally show ?thesis .
qed

text \<open>The scalar that \<open>ge_scalarmult_base\<close> recodes: half of the sum of the scalar and \<open>2^256 - 1\<close>\<close>

lemma comb_scalar_value:
  fixes scalar :: bytes
  defines "s \<equiv> crypto_eddsa_mul_add scalar half_mod_L half_ones"
  shows "(2 * int (num s) - (2 ^ 256 - 1)) mod int ell = int (num (take 32 scalar)) mod int ell" "num s < 2 ^ 256"
proof -
  have tables: "2 * int (num half_mod_L) = 1 + int ell" "2 * int (num half_ones) - (2 ^ 256 - 1) = - 15 * int ell"
    "take 32 half_mod_L = half_mod_L" "take 32 half_ones = half_ones"
    by (simp_all add: half_mod_L_def half_ones_def ell_def)
  define x where "x = int (num (take 32 scalar))"
  let ?M = "x * int (num half_mod_L) + int (num half_ones)"
  have s: "num s = (num (take 32 scalar) * num half_mod_L + num half_ones) mod ell"
    unfolding s_def crypto_eddsa_mul_add_num(1) tables(3,4) ..
  then have "int (num s) = ?M mod int ell" by (simp add: zmod_int x_def)
  then have "(2 * int (num s) - (2 ^ 256 - 1)) mod int ell = (2 * ?M - (2 ^ 256 - 1)) mod int ell"
    by (simp only:) (intro mod_diff_cong mod_mult_cong refl mod_mod_trivial)
  also have "2 * ?M - (2 ^ 256 - 1) = x * (2 * int (num half_mod_L)) + (2 * int (num half_ones) - (2 ^ 256 - 1))"
    by simp
  also have "\<dots> = x + int ell * (x - 15)" unfolding tables(1,2) by (simp add: algebra_simps)
  finally show "(2 * int (num s) - (2 ^ 256 - 1)) mod int ell = int (num (take 32 scalar)) mod int ell"
    by (simp add: x_def)
  have "num s < ell" unfolding s by (rule mod_less_divisor) (simp add: ell_def)
  then show "num s < 2 ^ 256" by (simp add: ell_def)
qed

section \<open>Properties\<close>

text \<open>
  C20. For a scalar below \<open>2^253\<close> the digits that the sliding window returns from any position above its
  highest bit down to 0 denote the scalar, and each is zero or odd and below \<open>2^(width - 1)\<close>, the range of
  the look-up tables; the eight-bit check position, which wraps to 255 at the end, does no harm.
\<close>

theorem sliding_window_digits:
  assumes "num s < 2 ^ 253" "2 \<le> width" "width \<le> 8" "unat (sl_next_check (slide_init s)) < n" "n \<le> 254"
  shows "digits_value 0 (slide_digits width s (slide_init s) n) = int (num s) \<and>
    list_all (\<lambda>d. d = 0 \<or> odd d \<and> \<bar>d\<bar> < 2 ^ (width - 1)) (slide_digits width s (slide_init s) n)"
  using slide_digits_correct [OF assms] by (simp add: list_all_iff)

theorem sliding_window_digits_witness:
  "digits_value 0 (slide_digits 5 (replicate 31 255) (slide_init (replicate 31 255)) 254) = int (num (replicate 31 255 :: bytes))"
proof -
  have "num (replicate 31 255 :: bytes) < 2 ^ (LENGTH(8) * length (replicate 31 (255 :: byte)))" by (rule num_less)
  then have "num (replicate 31 255 :: bytes) < 2 ^ 253" by (rule less_le_trans) simp
  moreover have "unat (sl_next_check (slide_init (replicate 31 255))) < 254"
    using slide_top_le [of "replicate 31 255" 252] by (simp add: slide_check_init)
  ultimately show ?thesis using sliding_window_digits [of "replicate 31 255" 5 254] by simp
qed

end
