(* ===== verification/Eddsa_Ladder.thy ===== *)
theory Eddsa_Ladder
  imports Edwards_Value Signed_Digits
begin

text \<open>
  The two scalar multiplications of Ed25519 refined to numbers modulo \<open>2^255 - 19\<close>: the ladder of the
  signature equation over the sliding-window digits, and the comb of the base point over its signed digits.
  With them the check of a signature is a statement about numbers.
\<close>

section \<open>Tables\<close>

definition precomp_pt :: "ge_precomp \<Rightarrow> pt" where
  "precomp_pt c = (fe_val (precomp_Yp c), fe_val (precomp_Ym c), 1, fe_val (precomp_T2 c))"

definition table_ok :: "ge_precomp list \<Rightarrow> bool" where
  "table_ok t \<longleftrightarrow> length t = 8 \<and> (\<forall>c \<in> set t. tight (precomp_Yp c) \<and> tight (precomp_Ym c) \<and> tight (precomp_T2 c))"

lemma tables_ok: "table_ok b_window" "table_ok b_comb_low" "table_ok b_comb_high"
  by (simp_all add: table_ok_def b_window_def b_comb_low_def b_comb_high_def ge_precomp.defs limbs_def)

lemma table_el: "table_ok t \<Longrightarrow> k < 8 \<Longrightarrow> precomp_el (t ! k) (precomp_pt (t ! k))"
  by (simp add: table_ok_def precomp_el_def precomp_pt_def el_tight)

section \<open>The equation of a signature\<close>

text \<open>What a digit adds: its entry of the table, negated for a negative digit\<close>

definition pt_add_digit :: "pt list \<Rightarrow> int \<Rightarrow> pt \<Rightarrow> pt" where
  "pt_add_digit table digit v =
     (if digit > 0 then pt_plus v (table ! nat (digit div 2))
      else if digit < 0 then pt_plus v (pt_neg (table ! nat (- digit div 2)))
      else v)"

definition pt_lut :: "pt \<Rightarrow> pt list" where
  "pt_lut A = [pt_cached A, pt_cached (pt_plus (pt_double A) (pt_cached A))]"

definition pt_equation_step :: "pt list \<Rightarrow> pt \<Rightarrow> int \<times> int \<Rightarrow> pt" where
  "pt_equation_step lut v digits =
     pt_add_digit (map precomp_pt b_window) (snd digits) (pt_add_digit lut (fst digits) (pt_double v))"

definition pt_equation :: "pt \<Rightarrow> bytes \<Rightarrow> bytes \<Rightarrow> pt" where
  "pt_equation A h s =
     (let n = max (unat (sl_next_check (slide_init h))) (unat (sl_next_check (slide_init s))) + 1
      in foldl (pt_equation_step (pt_lut A)) pt_zero
           (zip (slide_digits 3 h (slide_init h) n) (slide_digits 5 s (slide_init s) n)))"

lemma lut_A_el:
  assumes "ge_el A v"
  shows "length (lut_A A) = 2" "k < 2 \<Longrightarrow> cached_el (lut_A A ! k) (pt_lut v ! k)"
proof -
  have lut: "lut_A A = [ge_cache A, ge_cache (ge_add (ge_double A) (ge_cache A))]"
    by (simp add: lut_A_def Let_def P_W_SIZE_def P_W_WIDTH_def upt_conv_Cons)
  show "length (lut_A A) = 2" by (simp add: lut)
  have "cached_el (ge_cache A) (pt_cached v)"
    "cached_el (ge_cache (ge_add (ge_double A) (ge_cache A))) (pt_cached (pt_plus (pt_double v) (pt_cached v)))"
    using assms by (simp_all add: ge_cache_el ge_add_el ge_double_el)
  then show "cached_el (lut_A A ! k) (pt_lut v ! k)" if "k < 2"
    using that by (auto simp: lut pt_lut_def less_Suc_eq numeral_eq_Suc)
qed

lemma digit_index:
  fixes d :: int
  assumes "\<bar>d\<bar> < 2 * int m"
  shows "nat (d div 2) < m" "nat (- d div 2) < m"
proof -
  have "d div 2 < int m" "- d div 2 < int m" "0 < m" using assms by auto
  then show "nat (d div 2) < m" "nat (- d div 2) < m" by linarith+
qed

lemma add_h_digit_el:
  assumes "ge_el A v" "ge_el p w" "\<bar>d\<bar> < 4"
  shows "ge_el (add_h_digit (lut_A A) d p) (pt_add_digit (pt_lut v) d w)"
  using digit_index [of d 2] assms(3) lut_A_el(2) [OF assms(1)] assms(2)
  by (auto simp: add_h_digit_def pt_add_digit_def Let_def intro!: ge_add_el ge_sub_el)

lemma add_s_digit_el:
  assumes "ge_el p w" "\<bar>d\<bar> < 16"
  shows "ge_el (add_s_digit d p) (pt_add_digit (map precomp_pt b_window) d w)"
proof -
  have "length b_window = 8" using tables_ok(1) by (simp add: table_ok_def)
  then show ?thesis
    using digit_index [of d 8] assms table_el [OF tables_ok(1)]
    by (auto simp: add_s_digit_def pt_add_digit_def Let_def intro!: ge_madd_el ge_msub_el)
qed

lemma equation_steps_el:
  assumes A: "ge_el A v"
  shows "ge_el p w \<Longrightarrow> \<forall>d \<in> set (slide_digits 3 h hs n). \<bar>d\<bar> < 4 \<Longrightarrow> \<forall>d \<in> set (slide_digits 5 s ss n). \<bar>d\<bar> < 16 \<Longrightarrow>
    ge_el (snd (snd (foldl (equation_step (lut_A A) h s) (hs, ss, p) (rev [0..<n]))))
      (foldl (pt_equation_step (pt_lut v)) w (zip (slide_digits 3 h hs n) (slide_digits 5 s ss n)))"
proof (induction n arbitrary: hs ss p w)
  case (Suc i)
  obtain hs' dh ss' ds where steps: "slide_step hs 3 (int i) h = (hs', dh)" "slide_step ss 5 (int i) s = (ss', ds)"
    by fastforce
  have digits: "slide_digits 3 h hs (Suc i) = dh # slide_digits 3 h hs' i"
    "slide_digits 5 s ss (Suc i) = ds # slide_digits 5 s ss' i"
    using steps by simp_all
  have step: "equation_step (lut_A A) h s (hs, ss, p) i =
      (hs', ss', add_s_digit ds (add_h_digit (lut_A A) dh (ge_double p)))"
    using steps by (simp add: equation_step_def P_W_WIDTH_def B_W_WIDTH_def)
  have "ge_el (add_s_digit ds (add_h_digit (lut_A A) dh (ge_double p))) (pt_equation_step (pt_lut v) w (dh, ds))"
    unfolding pt_equation_step_def fst_conv snd_conv using Suc.prems A
    by (intro add_s_digit_el add_h_digit_el ge_double_el) (simp_all only: digits list.set ball_simps simp_thms)
  moreover have "\<forall>d \<in> set (slide_digits 3 h hs' i). \<bar>d\<bar> < 4" "\<forall>d \<in> set (slide_digits 5 s ss' i). \<bar>d\<bar> < 16"
    using Suc.prems(2,3) unfolding digits by simp_all
  ultimately show ?case
    using Suc.IH by (simp only: digits upt_Suc_append rev_append rev.simps append_Nil append_Cons le0 foldl_Cons zip_Cons_Cons step)
qed simp

lemma equation_sum_el:
  assumes "ge_el A v" "num h < 2 ^ 253" "num s < 2 ^ 253"
  shows "ge_el (equation_sum A h s) (pt_equation v h s)"
proof -
  define n where "n = max (unat (sl_next_check (slide_init h))) (unat (sl_next_check (slide_init s))) + 1"
  have n: "unat (sl_next_check (slide_init h)) < n" "unat (sl_next_check (slide_init s)) < n" "n \<le> 254"
    using slide_top_le [of h 252] slide_top_le [of s 252] unfolding n_def slide_check_init by simp_all
  have "\<forall>d \<in> set (slide_digits 3 h (slide_init h) n). \<bar>d\<bar> < 4"
    using slide_digits_correct(2) [OF assms(2) _ _ n(1,3), of 3] by auto
  moreover have "\<forall>d \<in> set (slide_digits 5 s (slide_init s) n). \<bar>d\<bar> < 16"
    using slide_digits_correct(2) [OF assms(3) _ _ n(2,3), of 5] by auto
  ultimately show ?thesis
    using equation_steps_el [OF assms(1) ge_zero_el]
    unfolding equation_sum_def pt_equation_def Let_def n_def [symmetric] by blast
qed

section \<open>The check of a signature\<close>

text \<open>Decoding and encoding on numbers; decoding gives the negative of the encoded point\<close>

definition pt_decode_neg :: "bytes \<Rightarrow> pt option" where
  "pt_decode_neg s =
     (let y = coordinate s; n = curve_num y; d = curve_den y; x = n * inv_root (n * d)
      in if root_found (n * d)
         then let x = (if x mod prime_p mod 2 = uint (drop_bit 7 (byte_at s 31)) then - x else x) in Some (x, y, 1, x * y)
         else None)"

definition pt_encode :: "pt \<Rightarrow> int" where
  "pt_encode v = (case v of (X, Y, Z, T) \<Rightarrow> Y * fe_inv Z mod prime_p + 2 ^ 255 * (X * fe_inv Z mod prime_p mod 2))"

definition pt_check :: "bytes \<Rightarrow> bytes \<Rightarrow> bytes \<Rightarrow> bool" where
  "pt_check signature public_key h =
     (let s = drop 32 signature in
      case (pt_decode_neg public_key, pt_decode_neg signature) of
        (Some A, Some R) \<Rightarrow> num (take 32 s) < ell
          \<and> pt_encode (pt_double (pt_double (pt_double (pt_plus (pt_equation A h s) (pt_cached R))))) = 1
      | _ \<Rightarrow> False)"

lemma decode_el:
  "(case pt_decode_neg s of None \<Rightarrow> ge_frombytes_neg_vartime s = (-1, None)
    | Some v \<Rightarrow> \<exists>p. ge_frombytes_neg_vartime s = (0, Some p) \<and> ge_el p v)"
proof -
  let ?n = "curve_num (coordinate s)" and ?d = "curve_den (coordinate s)" and ?b = "uint (drop_bit 7 (byte_at s 31))"
  let ?x = "?n * inv_root (?n * ?d)"
  note dp = decode_parts [of s]
  show ?thesis
  proof (cases "root_found (?n * ?d)")
    case False
    then show ?thesis using dp(3,4) by (simp add: pt_decode_neg_def Let_def)
  next
    case True
    define X where "X = fe_mul (fe_sub (fe_sq (fe_frombytes s)) fe_1) (snd (invsqrt (fe_mul (fe_sub (fe_sq (fe_frombytes s)) fe_1)
      (fe_add (fe_mul (fe_sq (fe_frombytes s)) edwards_d) fe_1))))"
    define x where "x = (if ?x mod prime_p mod 2 = ?b then - ?x else ?x)"
    define X' where "X' = (if fe_isodd X = ?b then fe_neg X else X)"
    have X: "el 1 X ?x" unfolding X_def by (rule dp(2))
    then have x: "el 1 X' x" unfolding x_def X'_def el_isodd [OF X] by (auto intro: el_neg)
    have "ge_el \<lparr> ge_X = X', ge_Y = fe_frombytes s, ge_Z = fe_1, ge_T = fe_mul X' (fe_frombytes s) \<rparr>
        (x, coordinate s, 1, x * coordinate s)"
      using x dp(1) el_1 el_mul [OF x dp(1)] by (simp add: ge_el_def)
    moreover have "pt_decode_neg s = Some (x, coordinate s, 1, x * coordinate s)"
      using True by (simp add: pt_decode_neg_def Let_def x_def)
    moreover have "ge_frombytes_neg_vartime s =
        (0, Some \<lparr> ge_X = X', ge_Y = fe_frombytes s, ge_Z = fe_1, ge_T = fe_mul X' (fe_frombytes s) \<rparr>)"
      using dp(3,4) True by (simp add: X_def X'_def Let_def)
    ultimately show ?thesis by simp
  qed
qed

lemma decode_on_curve:
  assumes "pt_decode_neg s = Some v" "curve_num (coordinate s) mod prime_p = 0
    \<or> curve_num (coordinate s) * curve_den (coordinate s) mod prime_p \<noteq> 0"
  shows "on_curve v"
proof -
  let ?y = "coordinate s"
  let ?n = "curve_num ?y" and ?d = "curve_den ?y"
  obtain x where v: "v = (x, ?y, 1, x * ?y)" "x * x = (?n * inv_root (?n * ?d)) * (?n * inv_root (?n * ?d))"
    and r: "root_found (?n * ?d)"
    using assms(1) by (auto simp: pt_decode_neg_def Let_def split: if_splits)
  have "prime_p dvd (?n * inv_root (?n * ?d)) * (?n * inv_root (?n * ?d)) * ?d - ?n"
    by (rule root_on_curve [OF r assms(2)])
  then have "prime_p dvd x * x * ?d - ?n" by (simp only: v(2))
  then have "prime_p dvd - (x * x * ?d - ?n)" by (simp only: dvd_minus_iff)
  then show ?thesis by (simp add: v(1) on_curve_def curve_num_def curve_den_def algebra_simps)
qed

lemma encode_el:
  assumes "ge_el p v"
  shows "int (num (ge_tobytes p)) = pt_encode v" "length (ge_tobytes p) = 32"
proof -
  obtain X Y Z T where v: "v = (X, Y, Z, T)" by (metis prod.exhaust)
  show "int (num (ge_tobytes p)) = pt_encode v" "length (ge_tobytes p) = 32"
    using ge_tobytes_value assms unfolding v pt_encode_def prod.case by blast+
qed

lemma encode_neutral:
  assumes "ge_el p v"
  shows "crypto_verify32 (ge_tobytes p) (1 # replicate 31 0) = (if pt_encode v = 1 then 0 else -1)"
proof -
  have "num (1 # replicate 31 0 :: bytes) = 1" by simp
  then have "ge_tobytes p = 1 # replicate 31 0 \<longleftrightarrow> num (ge_tobytes p) = 1"
    using num_inj [of "ge_tobytes p" "1 # replicate 31 0"] encode_el(2) [OF assms] by auto
  then have "ge_tobytes p = 1 # replicate 31 0 \<longleftrightarrow> pt_encode v = 1"
    using encode_el(1) [OF assms] by linarith
  then show ?thesis by (simp add: crypto_verify32_eq encode_el(2) [OF assms])
qed

lemma check_equation_pt:
  assumes "length signature = 64" "num h < 2 ^ 253"
  shows "crypto_eddsa_check_equation signature public_key h = (if pt_check signature public_key h then 0 else -1)"
proof -
  define s where "s = drop 32 signature"
  have s: "length s = 32" "take 32 s = s" using assms(1) by (simp_all add: s_def)
  have above: "is_above_l (load32_le_buf s 8) = (if ell \<le> num s then 1 else 0)"
    by (subst is_above_l_iff) (simp_all add: load32_le_buf_def num_load32_le_buf [unfolded load32_le_buf_def] s(2))
  show ?thesis
  proof (cases "pt_decode_neg public_key")
    case None
    then show ?thesis using decode_el [of public_key] by (simp add: crypto_eddsa_check_equation_def pt_check_def)
  next
    case (Some A)
    then obtain a where a: "ge_frombytes_neg_vartime public_key = (0, Some a)" "ge_el a A"
      using decode_el [of public_key] by auto
    show ?thesis
    proof (cases "pt_decode_neg signature")
      case None
      then show ?thesis
        using decode_el [of signature] a Some by (simp add: crypto_eddsa_check_equation_def pt_check_def)
    next
      case R: (Some R)
      then obtain r where r: "ge_frombytes_neg_vartime signature = (0, Some r)" "ge_el r R"
        using decode_el [of signature] by auto
      show ?thesis
      proof (cases "ell \<le> num s")
        case True
        then show ?thesis
          using a r R Some above s(2)
          by (simp add: crypto_eddsa_check_equation_def pt_check_def Let_def s_def [symmetric])
      next
        case False
        then have "num s < 2 ^ 253" by (simp add: ell_def)
        then have "ge_el (ge_double (ge_double (ge_double (ge_add (equation_sum a h s) (ge_cache r)))))
            (pt_double (pt_double (pt_double (pt_plus (pt_equation A h s) (pt_cached R)))))"
          using equation_sum_el [OF a(2) assms(2)] r(2) by (intro ge_double_el ge_add_el ge_cache_el) simp_all
        from encode_neutral [OF this] show ?thesis
          using False a r R Some above s(2)
          by (simp add: crypto_eddsa_check_equation_def pt_check_def Let_def s_def [symmetric])
      qed
    qed
  qed
qed

section \<open>Multiples of the base point\<close>

definition comb_pt :: "ge_precomp list \<Rightarrow> byte \<Rightarrow> pt" where
  "comb_pt table teeth =
     (let c = precomp_pt (table ! unat (comb_index teeth)) in if drop_bit 3 teeth = 1 then c else pt_neg c)"

definition pt_comb_round :: "bytes \<Rightarrow> nat \<Rightarrow> pt \<Rightarrow> pt" where
  "pt_comb_round s i v =
     pt_plus (pt_plus v (comb_pt b_comb_low (comb_teeth s i))) (comb_pt b_comb_high (comb_teeth s (i + 128)))"

definition pt_comb :: "bytes \<Rightarrow> pt" where
  "pt_comb s = foldl (\<lambda>v i. pt_comb_round s i (pt_double v)) (pt_comb_round s 31 pt_zero) (rev [0..<31])"

definition precomp_lengths :: "ge_precomp \<Rightarrow> bool" where
  "precomp_lengths c \<longleftrightarrow> length (precomp_Yp c) = 10 \<and> length (precomp_Ym c) = 10 \<and> length (precomp_T2 c) = 10"

lemma table_lengths: "table_ok t \<Longrightarrow> k < 8 \<Longrightarrow> precomp_lengths (t ! k)"
  by (auto simp: table_ok_def precomp_lengths_def limbs_length dest!: bspec [of _ _ "t ! k"] intro: nth_mem)

lemma select_bits:
  "list_all (\<lambda>k. \<forall>j \<in> set [0..<8]. uint (1 AND drop_bit 8 ((of_nat j XOR ucast (of_nat k :: byte)) - 1 :: u32))
     = (if j = k then 1 else 0)) [0..<8]"
  by code_simp

lemma select_precomp_eq:
  assumes "table_ok t" "precomp_lengths c" "k < 8"
  shows "select_precomp t (of_nat k) c = t ! k"
proof -
  let ?sel = "\<lambda>j. uint (1 AND drop_bit 8 ((of_nat j XOR ucast (of_nat k :: byte)) - 1 :: u32))"
  let ?f = "\<lambda>c j. \<lparr> precomp_Yp = fe_ccopy (precomp_Yp c) (precomp_Yp (t ! j)) (?sel j),
    precomp_Ym = fe_ccopy (precomp_Ym c) (precomp_Ym (t ! j)) (?sel j),
    precomp_T2 = fe_ccopy (precomp_T2 c) (precomp_T2 (t ! j)) (?sel j) \<rparr>"
  have "foldl ?f c [0..<n] = (if k < n then t ! k else c)" if "n \<le> 8" for n
    using that
  proof (induction n)
    case (Suc n)
    have sel: "?sel n = (if n = k then 1 else 0)"
      using select_bits assms(3) Suc.prems unfolding list_all_iff by simp
    have len: "precomp_lengths (t ! n)" "precomp_lengths (t ! k)"
      using table_lengths [OF assms(1)] assms(3) Suc.prems by simp_all
    have "?f (if k < n then t ! k else c) n = (if k < Suc n then t ! k else c)"
      unfolding sel using len assms(2) by (cases "n = k") (auto simp: fe_ccopy_eq precomp_lengths_def)
    then show ?case using Suc by simp
  qed simp
  from this [of 8] show ?thesis using assms(3) by (simp add: select_precomp_def Let_def)
qed

lemma comb_teeth_table:
  "list_all (\<lambda>a. list_all (\<lambda>b. list_all (\<lambda>c. list_all (\<lambda>d.
     let teeth = of_int (a + push_bit 1 b + push_bit 2 c + push_bit 3 d)
     in unat (comb_index teeth) < 8 \<and> (drop_bit 3 teeth = 0 \<or> drop_bit 3 teeth = 1))
     [0, 1]) [0, 1]) [0, 1]) [0, 1]"
  by code_simp

lemma comb_teeth_bounds:
  "unat (comb_index (comb_teeth s k)) < 8" "drop_bit 3 (comb_teeth s k) = 0 \<or> drop_bit 3 (comb_teeth s k) = 1"
proof -
  have bits: "scalar_bit s (int m) \<in> set [0, 1]" for m using scalar_bit_01 [of s m] by auto
  show "unat (comb_index (comb_teeth s k)) < 8" "drop_bit 3 (comb_teeth s k) = 0 \<or> drop_bit 3 (comb_teeth s k) = 1"
    using comb_teeth_table bits [of k] bits [of "k + 32"] bits [of "k + 64"] bits [of "k + 96"]
    unfolding comb_teeth_def list_all_iff of_nat_add of_nat_numeral Let_def by blast+
qed

lemma lookup_add_el:
  assumes t: "table_ok t" and p: "ge_el p v" and c: "precomp_lengths c"
  shows "ge_el (fst (lookup_add t s i (p, c))) (pt_plus v (comb_pt t (comb_teeth s i)))"
    "precomp_lengths (snd (lookup_add t s i (p, c)))"
proof -
  define k where "k = unat (comb_index (comb_teeth s i))"
  define high where "high = drop_bit 3 (comb_teeth s i)"
  have k: "comb_index (comb_teeth s i) = of_nat k" by (simp add: k_def)
  have "k < 8" and high: "high = 0 \<or> high = 1"
    using comb_teeth_bounds [of s i] by (simp_all add: k_def high_def)
  define e where "e = t ! k"
  have el: "precomp_el e (precomp_pt e)" unfolding e_def by (rule table_el [OF t \<open>k < 8\<close>])
  have len: "precomp_lengths e" unfolding e_def by (rule table_lengths [OF t \<open>k < 8\<close>])
  define c' where "c' = (if high = 1 then e
    else \<lparr> precomp_Yp = precomp_Ym e, precomp_Ym = precomp_Yp e, precomp_T2 = fe_neg (precomp_T2 e) \<rparr>)"
  have "lookup_add t s i (p, c) = (ge_madd p c', c')"
    unfolding lookup_add_def Let_def prod.case high_def [symmetric] k select_precomp_eq [OF t c \<open>k < 8\<close>] e_def [symmetric]
    using high len by (cases e) (auto simp: c'_def fe_cswap_eq precomp_lengths_def fe_neg_def)
  moreover have "precomp_el c' (comb_pt t (comb_teeth s i))"
    using el precomp_neg_el [OF el] by (simp add: c'_def comb_pt_def high_def [symmetric] k_def [symmetric] e_def)
  moreover have "precomp_lengths c'" using len by (simp add: c'_def precomp_lengths_def fe_neg_def)
  ultimately show "ge_el (fst (lookup_add t s i (p, c))) (pt_plus v (comb_pt t (comb_teeth s i)))"
    "precomp_lengths (snd (lookup_add t s i (p, c)))"
    using ge_madd_el [OF p] by simp_all
qed

lemma comb_round_el:
  assumes "ge_el p v" "precomp_lengths c"
  shows "ge_el (fst (comb_round s i (p, c))) (pt_comb_round s i v)" "precomp_lengths (snd (comb_round s i (p, c)))"
proof -
  obtain p' c' where l: "lookup_add b_comb_low s i (p, c) = (p', c')" by fastforce
  have "ge_el p' (pt_plus v (comb_pt b_comb_low (comb_teeth s i)))" "precomp_lengths c'"
    using lookup_add_el [OF tables_ok(2) assms, of s i] by (simp_all add: l)
  from lookup_add_el [OF tables_ok(3) this, of s "i + 128"]
  show "ge_el (fst (comb_round s i (p, c))) (pt_comb_round s i v)" "precomp_lengths (snd (comb_round s i (p, c)))"
    by (simp_all add: comb_round_def pt_comb_round_def l)
qed

lemma comb_rounds_el:
  "ge_el (fst st) v \<Longrightarrow> precomp_lengths (snd st) \<Longrightarrow>
   ge_el (fst (foldl (\<lambda>st i. case st of (p, c) \<Rightarrow> comb_round s i (ge_double p, c)) st is))
     (foldl (\<lambda>v i. pt_comb_round s i (pt_double v)) v is)"
proof (induction "is" arbitrary: st v)
  case (Cons i "is")
  obtain p c where st: "st = (p, c)" by fastforce
  have "ge_el (ge_double p) (pt_double v)" "precomp_lengths c" using Cons.prems by (simp_all add: st ge_double_el)
  from comb_round_el [OF this] show ?case using Cons.IH by (simp add: st)
qed simp

lemma scalarmult_base_el:
  "ge_el (ge_scalarmult_base scalar) (pt_comb (crypto_eddsa_mul_add scalar half_mod_L half_ones))"
proof -
  have "precomp_lengths \<lparr> precomp_Yp = fe_1, precomp_Ym = fe_1, precomp_T2 = fe_0 \<rparr>"
    by (simp add: precomp_lengths_def fe_0_def fe_1_def)
  from comb_round_el [OF ge_zero_el this]
  show ?thesis unfolding ge_scalarmult_base_def pt_comb_def Let_def by (intro comb_rounds_el)
qed

lemma scalarbase_value:
  "int (num (crypto_eddsa_scalarbase scalar)) = pt_encode (pt_comb (crypto_eddsa_mul_add scalar half_mod_L half_ones))"
  "length (crypto_eddsa_scalarbase scalar) = 32"
  unfolding crypto_eddsa_scalarbase_def by (rule encode_el [OF scalarmult_base_el])+

section \<open>Properties\<close>

text \<open>
  C33. The public key of a scalar encodes the point that the signed comb yields on numbers modulo
  \<open>2^255 - 19\<close>, and the digits of the comb denote the scalar modulo the group order.
\<close>

theorem base_point_comb:
  "int (num (crypto_eddsa_scalarbase scalar)) = pt_encode (pt_comb (crypto_eddsa_mul_add scalar half_mod_L half_ones)) \<and>
   digits_value 0 (comb_digits (crypto_eddsa_mul_add scalar half_mod_L half_ones)) mod int ell =
     int (num (take 32 scalar)) mod int ell"
  using scalarbase_value(1) comb_digits_value [OF comb_scalar_value(2)] comb_scalar_value(1) by simp

text \<open>
  C6. The check of a signature returns 0 exactly when key and nonce point decode, the scalar is below the
  group order and eight times \<open>[s]B - [h]A - R\<close>, computed on numbers by double-and-add over the
  sliding-window digits, encodes the neutral point; else it returns \<open>-1\<close>.
\<close>

theorem check_equation_refines:
  assumes "length signature = 64" "num h < 2 ^ 253"
  shows "crypto_eddsa_check_equation signature public_key h = (if pt_check signature public_key h then 0 else -1)"
  by (rule check_equation_pt [OF assms])

theorem check_equation_refines_witness:
  "crypto_eddsa_check_equation (replicate 64 0) (replicate 32 0) [1] =
     (if pt_check (replicate 64 0) (replicate 32 0) [1] then 0 else -1)"
  by (rule check_equation_refines) simp_all

text \<open>
  A signature whose scalar is not reduced modulo the group order is refused, whatever key and hash:
  signatures are not malleable by adding the order.
\<close>

theorem malleable_signature_refused:
  assumes "length signature = 64" "ell \<le> num (drop 32 signature)"
  shows "crypto_eddsa_check_equation signature public_key h = -1"
proof -
  have "take (4 * 8) (drop 32 signature) = drop 32 signature" using assms(1) by simp
  then have "num (load32_le_buf (drop 32 signature) 8) = num (drop 32 signature)" by (simp only: num_load32_le_buf)
  moreover have "length (load32_le_buf (drop 32 signature) 8) = 8" by (simp add: load32_le_buf_def)
  ultimately have "is_above_l (load32_le_buf (drop 32 signature) 8) = 1" using assms(2) by (simp add: is_above_l_iff)
  then show ?thesis by (simp add: crypto_eddsa_check_equation_def Let_def split: option.split)
qed

theorem malleable_signature_refused_witness:
  "crypto_eddsa_check_equation (replicate 64 255) (9 # replicate 31 0) [] = -1"
proof (rule malleable_signature_refused)
  have "num (replicate n 255 :: bytes) + 1 = 2 ^ (8 * n)" for n
  proof (induction n)
    case (Suc n)
    have "num (replicate (Suc n) 255 :: bytes) + 1 = 2 ^ 8 * (num (replicate n 255 :: bytes) + 1)" by simp
    also have "\<dots> = 2 ^ (8 * Suc n)" unfolding Suc.IH by (simp add: power_add)
    finally show ?case .
  qed simp
  from this [of 32] show "ell \<le> num (drop 32 (replicate 64 255 :: bytes))" by (simp add: ell_def)
qed simp

end
