(* ===== verification/Ed25519.thy ===== *)
theory Ed25519
  imports Identity Sha512 Eddsa_Ladder
begin

text \<open>
  The signatures of \<open>support/crypto/monocypher-ed25519.c\<close>: key pairs, signing and checking of messages and
  of message hashes.  The functions that \<open>core/meshcore_identity.c\<close> calls make up the \<open>curve\<close> that the
  models of its operations take (\<open>monocypher\<close>).  An output buffer is a value; that of a key pair
  with its three outputs is a triple.
\<close>

section \<open>Operations\<close>

text \<open>\<open>secret_key\<close>, \<open>public_key\<close> and the wiped \<open>seed\<close>\<close>

definition crypto_ed25519_key_pair :: "bytes \<Rightarrow> bytes \<times> bytes \<times> bytes" where
  "crypto_ed25519_key_pair seed =
     (let a = mem_read 0 32 seed;
          secret_key = a;
          a = crypto_sha512 a;
          a = mem_write 0 (crypto_eddsa_trim_scalar a) a;
          public_key = crypto_eddsa_scalarbase a
      in (secret_key @ public_key, public_key, zeros 32))"

definition hash_reduce :: "bytes \<Rightarrow> bytes \<Rightarrow> bytes \<Rightarrow> bytes \<Rightarrow> bytes" where
  "hash_reduce a b c d =
     (let ctx = crypto_sha512_init;
          ctx = crypto_sha512_update ctx a;
          ctx = crypto_sha512_update ctx b;
          ctx = crypto_sha512_update ctx c;
          ctx = crypto_sha512_update ctx d;
          hash = crypto_sha512_final ctx
      in crypto_eddsa_reduce hash)"

definition ed25519_dom_sign :: "bytes \<Rightarrow> bytes \<Rightarrow> bytes \<Rightarrow> bytes" where
  "ed25519_dom_sign secret_key prefix message =
     (let pk = mem_read 32 32 secret_key;
          a = crypto_sha512 (mem_read 0 32 secret_key);
          a = mem_write 0 (crypto_eddsa_trim_scalar a) a;
          r = hash_reduce prefix (mem_read 32 32 a) message [];
          R = crypto_eddsa_scalarbase r;
          h = hash_reduce prefix R pk message
      in R @ crypto_eddsa_mul_add h a r)"

definition crypto_ed25519_sign :: "bytes \<Rightarrow> bytes \<Rightarrow> bytes" where
  "crypto_ed25519_sign secret_key message = ed25519_dom_sign secret_key [] message"

definition crypto_ed25519_check :: "bytes \<Rightarrow> bytes \<Rightarrow> bytes \<Rightarrow> int" where
  "crypto_ed25519_check signature public_key msg =
     (let h_ram = hash_reduce (mem_read 0 32 signature) (mem_read 0 32 public_key) msg []
      in crypto_eddsa_check_equation signature public_key h_ram)"

definition domain :: bytes where
  "domain = map of_char ''SigEd25519 no Ed25519 collisions'' @ [1, 0]"

definition crypto_ed25519_ph_sign :: "bytes \<Rightarrow> bytes \<Rightarrow> bytes" where
  "crypto_ed25519_ph_sign secret_key message_hash =
     ed25519_dom_sign secret_key domain (mem_read 0 64 message_hash)"

definition crypto_ed25519_ph_check :: "bytes \<Rightarrow> bytes \<Rightarrow> bytes \<Rightarrow> int" where
  "crypto_ed25519_ph_check sig pk msg_hash =
     (let h_ram = hash_reduce domain (mem_read 0 32 sig) (mem_read 0 32 pk) (mem_read 0 64 msg_hash)
      in crypto_eddsa_check_equation sig pk h_ram)"

text \<open>The library as the parameter of the identity operations\<close>

definition monocypher :: curve where
  "monocypher = \<lparr>
     ec_sha512 = \<lambda>m i. crypto_sha512 m ! i,
     ec_sha512_pieces = \<lambda>ms i. crypto_sha512_final (foldl crypto_sha512_update crypto_sha512_init ms) ! i,
     ec_eddsa_trim_scalar = \<lambda>s i. crypto_eddsa_trim_scalar s ! i,
     ec_eddsa_scalarbase = \<lambda>s i. crypto_eddsa_scalarbase s ! i,
     ec_eddsa_reduce = \<lambda>h i. crypto_eddsa_reduce h ! i,
     ec_eddsa_mul_add = \<lambda>a b c i. crypto_eddsa_mul_add a b c ! i,
     ec_eddsa_to_x25519 = \<lambda>p i. crypto_eddsa_to_x25519 p ! i,
     ec_x25519 = \<lambda>k p i. crypto_x25519 k p ! i,
     ec_ed25519_check = crypto_ed25519_check \<rparr>"

section \<open>Hashing to scalars\<close>

lemma hash_reduce_sha512: "hash_reduce a b c d = crypto_eddsa_reduce (sha512 (a @ b @ c @ d))"
  by (simp only: hash_reduce_def Let_def sha.four_pieces)

lemma hash_reduce_num:
  "num (hash_reduce a b c d) = num (sha512 (a @ b @ c @ d)) mod ell" "length (hash_reduce a b c d) = 32"
  by (simp_all add: hash_reduce_sha512 crypto_eddsa_reduce_num length_sha512 length_crypto_eddsa_reduce)

lemma hash_reduce_less: "num (hash_reduce a b c d) < 2 ^ 253"
proof -
  have "num (hash_reduce a b c d) < ell" unfolding hash_reduce_num by (rule mod_less_divisor) (simp add: ell_def)
  then show ?thesis by (simp add: ell_def)
qed

lemma buf_nth: "length xs = n \<Longrightarrow> buf n (\<lambda>i. xs ! i) = xs"
  by (intro nth_equalityI) (simp_all add: buf_def)

lemma monocypher_buf [simp]:
  "buf 64 (ec_sha512 monocypher m) = sha512 m"
  "buf 64 (ec_sha512_pieces monocypher ms) = sha512 (concat ms)"
  "buf 32 (ec_eddsa_reduce monocypher h) = crypto_eddsa_reduce h"
  "buf 32 (ec_eddsa_mul_add monocypher a b c) = crypto_eddsa_mul_add a b c"
  "buf 32 (ec_eddsa_scalarbase monocypher s) = crypto_eddsa_scalarbase s"
  "buf 32 (ec_eddsa_to_x25519 monocypher p) = crypto_eddsa_to_x25519 p"
  "buf 32 (ec_x25519 monocypher k p) = crypto_x25519 k p"
  "32 \<le> length s \<Longrightarrow> buf 32 (ec_eddsa_trim_scalar monocypher s) = crypto_eddsa_trim_scalar s"
  by (simp_all add: monocypher_def buf_nth crypto_sha512_eq sha.final_updates length_sha512 length_crypto_eddsa_reduce
      crypto_eddsa_mul_add_num(2) scalarbase_value(2) to_x25519_value(2) length_crypto_x25519 trim_scalar_num(2))

lemma mul_add_take:
  assumes "take 32 a = take 32 a'" "take 32 b = take 32 b'" "take 32 c = take 32 c'"
  shows "crypto_eddsa_mul_add a b c = crypto_eddsa_mul_add a' b' c'"
  using assms by (intro num_inj) (simp_all add: crypto_eddsa_mul_add_num)

lemma scalarbase_take: "crypto_eddsa_scalarbase (take 32 s) = crypto_eddsa_scalarbase s"
  using mul_add_take [of "take 32 s" s half_mod_L half_mod_L half_ones half_ones]
  by (simp add: crypto_eddsa_scalarbase_def ge_scalarmult_base_def)

section \<open>Signatures\<close>

lemma identity_hash_reduce: "meshcore_identity_hash_reduce4 monocypher a b c d = hash_reduce a b c d"
  by (auto simp add: meshcore_identity_hash_reduce4_def Let_def hash_reduce_sha512)

text \<open>The expanded private key of a seed\<close>

definition expanded :: "bytes \<Rightarrow> bytes" where
  "expanded seed = crypto_eddsa_trim_scalar (sha512 seed) @ drop 32 (sha512 seed)"

lemma expanded_parts:
  "length (expanded seed) = 64" "take 32 (expanded seed) = crypto_eddsa_trim_scalar (sha512 seed)"
  "drop 32 (expanded seed) = drop 32 (sha512 seed)" "num (take 32 (expanded seed)) = clamp (sha512 seed)"
  using trim_scalar_num [of "sha512 seed"] by (simp_all add: expanded_def length_sha512)

lemma trim_take: "crypto_eddsa_trim_scalar (take 32 s) = crypto_eddsa_trim_scalar s"
  by (simp add: crypto_eddsa_trim_scalar_def)

lemma expand_eq: "mem_write 0 (crypto_eddsa_trim_scalar (sha512 seed)) (sha512 seed) = expanded seed"
  using trim_scalar_num(2) [of "sha512 seed"] by (simp add: mem_write_def expanded_def length_sha512)

text \<open>Signing with an expanded key, as both libraries do it\<close>

definition sign_expanded :: "bytes \<Rightarrow> bytes \<Rightarrow> bytes \<Rightarrow> bytes" where
  "sign_expanded a pk message =
     (let r = hash_reduce (mem_read 32 32 a) message [] [];
          R = crypto_eddsa_scalarbase r
      in R @ crypto_eddsa_mul_add (hash_reduce R pk message []) (mem_read 0 32 a) r)"

lemma identity_sign:
  "meshcore_identity_sign_expanded_private_key monocypher pk a message = sign_expanded a pk message"
  by (simp add: meshcore_identity_sign_expanded_private_key_def sign_expanded_def identity_hash_reduce Let_def)

lemma hash_reduce_Nil: "hash_reduce [] a b c = hash_reduce a b c []"
  by (simp add: hash_reduce_sha512)

lemma ed25519_sign:
  assumes "length sk = 64"
  shows "crypto_ed25519_sign sk message = sign_expanded (expanded (take 32 sk)) (drop 32 sk) message"
proof -
  let ?a = "expanded (take 32 sk)"
  have pk: "mem_read 32 32 sk = drop 32 sk" using assms by (simp add: mem_read_def)
  have a: "mem_write 0 (crypto_eddsa_trim_scalar (sha512 (take 32 sk))) (sha512 (take 32 sk)) = ?a" by (rule expand_eq)
  have m: "crypto_eddsa_mul_add h ?a r = crypto_eddsa_mul_add h (mem_read 0 32 ?a) r" for h r
    by (rule mul_add_take) (simp_all add: mem_read_def)
  show ?thesis
    unfolding crypto_ed25519_sign_def ed25519_dom_sign_def sign_expanded_def Let_def
    by (simp add: crypto_sha512_eq mem_read_0_take pk a m hash_reduce_Nil)
qed

lemma key_pair_eq:
  fixes seed :: bytes
  assumes "length seed = 32"
  defines "pk \<equiv> crypto_eddsa_scalarbase (expanded seed)"
  shows "crypto_ed25519_key_pair seed = (seed @ pk, pk, zeros 32)"
  using assms by (simp add: crypto_ed25519_key_pair_def Let_def crypto_sha512_eq expand_eq)

lemma generate_eq:
  assumes "length seed = 32"
  shows "li_prv_key (meshcore_local_identity_generate monocypher seed l) = expanded seed"
    "id_pub_key (li_identity (meshcore_local_identity_generate monocypher seed l)) = crypto_eddsa_scalarbase (expanded seed)"
proof -
  have len: "32 \<le> length (mem_read 0 32 (sha512 seed))" by (simp add: length_sha512)
  show "li_prv_key (meshcore_local_identity_generate monocypher seed l) = expanded seed"
    "id_pub_key (li_identity (meshcore_local_identity_generate monocypher seed l)) = crypto_eddsa_scalarbase (expanded seed)"
    using len by (simp_all add: meshcore_local_identity_generate_def Let_def trim_take expand_eq
        meshcore_identity_trimmed_scalar_to_pub_def mem_read_0_take scalarbase_take)
qed

lemma sign_expanded_parts:
  fixes a pk message :: bytes
  defines "r \<equiv> hash_reduce (mem_read 32 32 a) message [] []"
  defines "R \<equiv> crypto_eddsa_scalarbase r"
  defines "h \<equiv> hash_reduce R pk message []"
  shows "take 32 (sign_expanded a pk message) = R" "length (sign_expanded a pk message) = 64"
    "num (drop 32 (sign_expanded a pk message)) = (num h * num (take 32 a) + num r) mod ell"
  by (simp_all add: sign_expanded_def Let_def r_def R_def h_def scalarbase_value(2) crypto_eddsa_mul_add_num
      mem_read_0_take hash_reduce_num(2) take_all [OF eq_imp_le])

lemma check_sign_expanded:
  fixes a pk message :: bytes
  assumes "length pk = 32"
  defines "sig \<equiv> sign_expanded a pk message"
  shows "crypto_ed25519_check sig pk message =
     (if pt_check sig pk (hash_reduce (take 32 sig) pk message []) then 0 else -1)"
  unfolding sig_def crypto_ed25519_check_def Let_def mem_read_0_take take_all [OF eq_imp_le [OF assms(1)]]
  by (rule check_equation_pt [OF sign_expanded_parts(2) hash_reduce_less])

lemma shared_secret_value:
  assumes "32 \<le> length k"
  shows "int (num (meshcore_identity_calculate_shared_secret monocypher k pk)) =
    x25519 (clamp k) ((1 + coordinate pk) * fe_inv (1 - coordinate pk) mod prime_p)"
proof -
  let ?u = "crypto_eddsa_to_x25519 pk"
  have "prime_p < 2 ^ 255" "0 < prime_p" by (simp_all add: prime_p_def)
  then have "int (num ?u) < 2 ^ 255" unfolding to_x25519_value(1) by (auto intro: less_trans [OF pos_mod_bound])
  then have "num ?u < 2 ^ 255" by (metis of_nat_less_iff of_nat_numeral of_nat_power)
  then have u: "coordinate ?u = (1 + coordinate pk) * fe_inv (1 - coordinate pk) mod prime_p"
    unfolding to_x25519_value(1) [symmetric] by (simp add: coordinate_def to_x25519_value(2))
  have "clamp (take 32 k) = clamp k" by (simp add: clamp_def)
  moreover have "32 \<le> length (take 32 k)" using assms by simp
  ultimately show ?thesis
    using crypto_x25519_value [of "take 32 k" ?u]
    by (simp add: meshcore_identity_calculate_shared_secret_def mem_read_0_take u)
qed

section \<open>Properties\<close>

text \<open>
  C4. An identity generated from a seed has the public key of the standard Ed25519 key pair of that seed,
  and signs every message as \<open>crypto_ed25519_sign\<close> does: keeping the expanded key instead of the seed and
  hashing in fragments change nothing.
\<close>

theorem identity_signs_as_ed25519:
  assumes "length seed = 32" "0 \<le> msg_len"
  shows "case crypto_ed25519_key_pair seed of (secret_key, public_key, _) \<Rightarrow>
    id_pub_key (li_identity (meshcore_local_identity_generate monocypher seed l)) = public_key \<and>
    meshcore_local_identity_sign monocypher (meshcore_local_identity_generate monocypher seed l) message msg_len =
      Some (crypto_ed25519_sign secret_key (mem_read 0 (nat msg_len) message))"
proof -
  let ?pk = "crypto_eddsa_scalarbase (expanded seed)"
  have "crypto_ed25519_sign (seed @ ?pk) m = sign_expanded (expanded seed) ?pk m" for m
    using ed25519_sign [of "seed @ ?pk" m] assms(1) by (simp add: scalarbase_value(2))
  then show ?thesis
    using assms by (simp add: key_pair_eq generate_eq meshcore_local_identity_sign_def identity_sign)
qed

theorem identity_signs_as_ed25519_witness:
  "meshcore_local_identity_sign monocypher
     (meshcore_local_identity_generate monocypher (replicate 32 3) meshcore_local_identity_init) [104, 105] 2 =
   Some (crypto_ed25519_sign (fst (crypto_ed25519_key_pair (replicate 32 3))) [104, 105])"
  using identity_signs_as_ed25519 [of "replicate 32 3" 2 meshcore_local_identity_init "[104, 105]"]
  by (auto split: prod.splits)

text \<open>
  C13. The signature of a local identity is the point of the nonce and a scalar that is reduced and equal to
  \<open>h a + r\<close> modulo the group order, where \<open>h\<close> is the hash that \<open>meshcore_identity_verify\<close> recomputes: it
  accepts the signature exactly when the two points satisfy the equation for that \<open>h\<close>.
\<close>

theorem identity_signature_equation:
  fixes message :: bytes and msg_len :: int and l :: local_identity
  assumes "local_identity_wf l" "0 \<le> msg_len"
  defines "m \<equiv> mem_read 0 (nat msg_len) message" and "pk \<equiv> id_pub_key (li_identity l)"
  defines "r \<equiv> hash_reduce (drop 32 (li_prv_key l)) m [] []"
  defines "h \<equiv> hash_reduce (crypto_eddsa_scalarbase r) pk m []"
  shows "\<exists>sig. meshcore_local_identity_sign monocypher l message msg_len = Some sig
    \<and> take 32 sig = crypto_eddsa_scalarbase r
    \<and> num (drop 32 sig) = (num h * num (take 32 (li_prv_key l)) + num r) mod ell
    \<and> (meshcore_identity_verify monocypher (li_identity l) sig message msg_len \<longleftrightarrow> pt_check sig pk h)"
proof (intro exI conjI)
  let ?sig = "sign_expanded (li_prv_key l) pk m"
  have len: "length (li_prv_key l) = 64" "length pk = 32"
    using assms(1) by (simp_all add: local_identity_wf_def identity_wf_def pk_def)
  have r: "hash_reduce (mem_read 32 32 (li_prv_key l)) m [] [] = r" using len(1) by (simp add: r_def mem_read_def)
  note parts = sign_expanded_parts [of "li_prv_key l" pk m, unfolded r, folded h_def]
  show "meshcore_local_identity_sign monocypher l message msg_len = Some ?sig"
    using assms(2) by (simp add: meshcore_local_identity_sign_def identity_sign m_def pk_def)
  show "take 32 ?sig = crypto_eddsa_scalarbase r" by (simp add: parts(1))
  show "num (drop 32 ?sig) = (num h * num (take 32 (li_prv_key l)) + num r) mod ell" using parts(1,3) by (simp add: h_def)
  have "meshcore_identity_verify monocypher (li_identity l) ?sig message msg_len \<longleftrightarrow> crypto_ed25519_check ?sig pk m = 0"
    using assms(2) parts(2) by (simp add: meshcore_identity_verify_def monocypher_def m_def pk_def mem_read_0_take)
  then show "meshcore_identity_verify monocypher (li_identity l) ?sig message msg_len \<longleftrightarrow> pt_check ?sig pk h"
    using check_sign_expanded [OF len(2), of "li_prv_key l" m] parts(1) by (simp add: h_def)
qed

theorem identity_signature_equation_witness:
  "\<exists>sig. meshcore_local_identity_sign monocypher meshcore_local_identity_init [104, 105] 2 = Some sig"
proof -
  have "local_identity_wf meshcore_local_identity_init"
    by (simp add: local_identity_wf_def identity_wf_def meshcore_local_identity_init_def meshcore_identity_init_def)
  from identity_signature_equation [OF this, of 2 "[104, 105]"] show ?thesis by auto
qed

text \<open>
  C28. The secret that an identity shares with a public key is X25519 on numbers, of its clamped private
  scalar and the Montgomery coordinate \<open>(1 + y) / (1 - y)\<close> of the key.
\<close>

theorem shared_secret_x25519:
  assumes "local_identity_wf l"
  shows "int (num (meshcore_local_identity_calc_shared_secret monocypher l other_pub_key)) =
    x25519 (clamp (li_prv_key l)) ((1 + coordinate other_pub_key) * fe_inv (1 - coordinate other_pub_key) mod prime_p)"
  using assms by (simp add: meshcore_local_identity_calc_shared_secret_def shared_secret_value local_identity_wf_def)

theorem shared_secret_x25519_witness:
  "int (num (meshcore_local_identity_calc_shared_secret monocypher meshcore_local_identity_init test_client_pub)) =
    x25519 (clamp (zeros 64)) ((1 + coordinate test_client_pub) * fe_inv (1 - coordinate test_client_pub) mod prime_p)"
proof -
  have "local_identity_wf meshcore_local_identity_init" and prv: "li_prv_key meshcore_local_identity_init = zeros 64"
    by (simp_all add: local_identity_wf_def identity_wf_def meshcore_local_identity_init_def meshcore_identity_init_def)
  from shared_secret_x25519 [OF this(1), of test_client_pub] show ?thesis unfolding prv .
qed

end
