(* ===== verification/Chacha20.thy ===== *)
theory Chacha20
  imports Mono_Base
begin

text \<open>
  The stream cipher of \<open>support/crypto/monocypher.c\<close>: the rounds of ChaCha20, HChaCha20, and the encryption with
  its counter of 64 bits in two words of the state.  A plaintext that is NULL asks for the bare key stream: it
  is an option.  The reference is the key stream block by block, for a 64-bit counter.
\<close>

section \<open>The rounds\<close>

definition quarterround :: "nat \<Rightarrow> nat \<Rightarrow> nat \<Rightarrow> nat \<Rightarrow> u32 list \<Rightarrow> u32 list" where
  "quarterround i j k l t =
     (let a = t ! i; b = t ! j; c = t ! k; d = t ! l;
          a = a + b; d = rotl32 (d XOR a) 16;
          c = c + d; b = rotl32 (b XOR c) 12;
          a = a + b; d = rotl32 (d XOR a) 8;
          c = c + d; b = rotl32 (b XOR c) 7
      in t[i := a, j := b, k := c, l := d])"

definition double_round :: "u32 list \<Rightarrow> u32 list" where
  "double_round t =
     (let t = quarterround 0 4 8 12 t;
          t = quarterround 1 5 9 13 t;
          t = quarterround 2 6 10 14 t;
          t = quarterround 3 7 11 15 t;
          t = quarterround 0 5 10 15 t;
          t = quarterround 1 6 11 12 t;
          t = quarterround 2 7 8 13 t
      in quarterround 3 4 9 14 t)"

definition chacha20_rounds :: "u32 list \<Rightarrow> u32 list" where
  "chacha20_rounds inp = (double_round ^^ 10) inp"

definition chacha20_constant :: bytes where
  "chacha20_constant = map of_char ''expand 32-byte k''"

definition crypto_chacha20_h :: "bytes \<Rightarrow> bytes \<Rightarrow> bytes" where
  "crypto_chacha20_h key inp =
     (let block = load32_le_buf chacha20_constant 4 @ load32_le_buf key 8 @ load32_le_buf inp 4;
          block = chacha20_rounds block
      in store32_le_buf (take 4 block) @ store32_le_buf (drop 12 block))"

section \<open>The cipher\<close>

text \<open>One whole block of output, and the increment of the counter in the words 12 and 13.\<close>

definition chacha20_out :: "bytes option \<Rightarrow> u32 list \<Rightarrow> u32 list \<Rightarrow> bytes" where
  "chacha20_out plain_text pool input =
     (case plain_text of
        Some text \<Rightarrow> concat (map (\<lambda>j. let p = pool ! j + input ! j in
                         store32_le (p XOR load32_le (drop (4 * j) text))) [0..<16])
      | None \<Rightarrow> concat (map (\<lambda>j. let p = pool ! j + input ! j in store32_le p) [0..<16]))"

definition chacha20_next :: "u32 list \<Rightarrow> u32 list" where
  "chacha20_next input =
     (let input = input[12 := input ! 12 + 1]
      in if input ! 12 = 0 then input[13 := input ! 13 + 1] else input)"

primrec chacha20_blocks :: "nat \<Rightarrow> bytes option \<Rightarrow> u32 list \<Rightarrow> bytes \<times> u32 list" where
  "chacha20_blocks 0 plain_text input = ([], input)"
| "chacha20_blocks (Suc n) plain_text input =
     (let out = chacha20_out plain_text (chacha20_rounds input) input;
          (rest, input) = chacha20_blocks n (map_option (drop 64) plain_text) (chacha20_next input)
      in (out @ rest, input))"

definition crypto_chacha20_djb ::
  "bytes option \<Rightarrow> nat \<Rightarrow> bytes \<Rightarrow> bytes \<Rightarrow> u64 \<Rightarrow> bytes \<times> u64" where
  "crypto_chacha20_djb plain_text text_size key nonce ctr =
     (let input = load32_le_buf chacha20_constant 4 @ load32_le_buf key 8 @ [ucast ctr, ucast (drop_bit 32 ctr)]
                    @ load32_le_buf nonce 2;
          nb_blocks = text_size div 64;
          (cipher_text, input) = chacha20_blocks nb_blocks plain_text input;
          plain_text = map_option (drop (64 * nb_blocks)) plain_text;
          text_size = text_size mod 64;
          last = (if text_size > 0 then
                    let text = (case plain_text of None \<Rightarrow> replicate 128 0 | Some text \<Rightarrow> text);
                        pool = chacha20_rounds input;
                        tmp = concat (map (\<lambda>i. store32_le (pool ! i + input ! i)) [0..<16])
                    in map (\<lambda>i. tmp ! i XOR text ! i) [0..<text_size]
                  else [])
      in (cipher_text @ last,
          ucast (input ! 12) + push_bit 32 (ucast (input ! 13)) + (if text_size > 0 then 1 else 0)))"

definition crypto_chacha20_ietf ::
  "bytes option \<Rightarrow> nat \<Rightarrow> bytes \<Rightarrow> bytes \<Rightarrow> u32 \<Rightarrow> bytes \<times> u32" where
  "crypto_chacha20_ietf plain_text text_size key nonce ctr =
     (let big_ctr = ucast ctr + push_bit 32 (ucast (load32_le nonce));
          (cipher_text, ctr) = crypto_chacha20_djb plain_text text_size key (drop 4 nonce) big_ctr
      in (cipher_text, ucast ctr))"

definition crypto_chacha20_x ::
  "bytes option \<Rightarrow> nat \<Rightarrow> bytes \<Rightarrow> bytes \<Rightarrow> u64 \<Rightarrow> bytes \<times> u64" where
  "crypto_chacha20_x plain_text text_size key nonce ctr =
     (let sub_key = crypto_chacha20_h key nonce
      in crypto_chacha20_djb plain_text text_size sub_key (drop 16 nonce) ctr)"

section \<open>The key stream\<close>

definition chacha_state :: "bytes \<Rightarrow> bytes \<Rightarrow> u64 \<Rightarrow> u32 list" where
  "chacha_state key nonce ctr =
     load32_le_buf chacha20_constant 4 @ load32_le_buf key 8 @ [ucast ctr, ucast (drop_bit 32 ctr)]
       @ load32_le_buf nonce 2"

definition chacha_block :: "bytes \<Rightarrow> bytes \<Rightarrow> u64 \<Rightarrow> bytes" where
  "chacha_block key nonce ctr =
     store32_le_buf (map2 (+) (chacha20_rounds (chacha_state key nonce ctr)) (chacha_state key nonce ctr))"

definition keystream :: "bytes \<Rightarrow> bytes \<Rightarrow> u64 \<Rightarrow> nat \<Rightarrow> bytes" where
  "keystream key nonce ctr n = concat (map (\<lambda>i. chacha_block key nonce (ctr + of_nat i)) [0..<n])"

lemma length_quarterround [simp]: "length (quarterround i j k l t) = length t"
  by (simp add: quarterround_def Let_def)

lemma length_double_round [simp]: "length (double_round t) = length t"
  by (simp add: double_round_def)

lemma length_chacha20_rounds [simp]: "length (chacha20_rounds t) = length t"
proof -
  have "length ((double_round ^^ n) t) = length t" for n by (induction n) simp_all
  then show ?thesis by (simp add: chacha20_rounds_def)
qed

lemma length_chacha_state [simp]: "length (chacha_state key nonce ctr) = 16"
  by (simp add: chacha_state_def)

lemma length_chacha_block [simp]: "length (chacha_block key nonce ctr) = 64"
  by (simp add: chacha_block_def)

lemma length_keystream [simp]: "length (keystream key nonce ctr n) = 64 * n"
  by (induction n) (simp_all add: keystream_def)

lemma state_counter: "chacha_state key nonce ctr ! 12 = ucast ctr" "chacha_state key nonce ctr ! 13 = ucast (drop_bit 32 ctr)"
  by (simp_all add: chacha_state_def nth_append)

lemma ucast_of_unat: "ucast (x :: 'a::len word) = (of_nat (unat x) :: 'b::len word)"
  by simp

lemma of_nat_u32_eq: "(of_nat m :: u32) = of_nat n \<longleftrightarrow> m mod 2 ^ 32 = n mod 2 ^ 32"
  by (simp only: word_of_nat_eq_iff) (simp add: take_bit_eq_mod)

lemma counter_words:
  fixes x :: u64
  shows "(ucast x :: u32) = of_nat (unat x)" "(ucast (drop_bit 32 x) :: u32) = of_nat (unat x div 2 ^ 32)"
proof -
  show "(ucast x :: u32) = of_nat (unat x)" by (rule ucast_of_unat)
  have "unat (drop_bit 32 x) = unat x div 2 ^ 32" by (simp only: unat_drop_bit_eq) (simp add: drop_bit_eq_div)
  then show "(ucast (drop_bit 32 x) :: u32) = of_nat (unat x div 2 ^ 32)"
    by (simp only: ucast_of_unat [of "drop_bit 32 x"])
qed

lemma split_counter:
  fixes x :: u64
  shows "ucast (ucast x :: u32) + push_bit 32 (ucast (ucast (drop_bit 32 x) :: u32)) = x"
proof -
  define n where "n = unat x"
  have n: "n < 2 ^ 64" using unsigned_less [of x, where ?'a = nat] by (simp add: n_def)
  then have d: "n div 2 ^ 32 mod 2 ^ 32 = n div 2 ^ 32" by (simp add: div_less_iff_less_mult)
  have u: "ucast (of_nat k :: u32) = (of_nat (k mod 2 ^ 32) :: u64)" for k
    by (simp only: ucast_of_unat [of "of_nat k :: u32"] unat_of_nat) simp
  have "ucast (ucast x :: u32) + push_bit 32 (ucast (ucast (drop_bit 32 x) :: u32)) =
      of_nat (n mod 2 ^ 32) + of_nat (n div 2 ^ 32) * (2 ^ 32 :: u64)"
    unfolding counter_words(2) unfolding counter_words(1) n_def [symmetric] u d by (simp only: push_bit_eq_mult)
  also have "\<dots> = of_nat (n mod 2 ^ 32 + n div 2 ^ 32 * 2 ^ 32)"
    by (simp only: of_nat_add of_nat_mult of_nat_power of_nat_numeral)
  also have "\<dots> = x" by (simp only: mod_div_mult_eq n_def) simp
  finally show ?thesis .
qed

lemma next_counter:
  fixes x :: u64
  shows "(ucast (x + 1) :: u32) = ucast x + 1"
    "(ucast (drop_bit 32 (x + 1)) :: u32) =
      (if (ucast x :: u32) + 1 = 0 then ucast (drop_bit 32 x) + 1 else ucast (drop_bit 32 x))"
proof -
  define n where "n = unat x"
  have n: "n < 2 ^ 64" using unsigned_less [of x, where ?'a = nat] by (simp add: n_def)
  have u: "unat (x + 1) = (n + 1) mod 2 ^ 64" by (simp add: unat_word_ariths n_def)
  have one: "(of_nat k :: u32) + 1 = of_nat (k + 1)" for k by simp
  show "(ucast (x + 1) :: u32) = ucast x + 1"
    unfolding counter_words(1) u n_def [symmetric] one of_nat_u32_eq by (simp add: mod_mod_cancel)
  have z: "(of_nat (n + 1) :: u32) = 0 \<longleftrightarrow> (n + 1) mod 2 ^ 32 = 0"
    using of_nat_u32_eq [of "n + 1" 0] by simp
  show "(ucast (drop_bit 32 (x + 1)) :: u32) =
      (if (ucast x :: u32) + 1 = 0 then ucast (drop_bit 32 x) + 1 else ucast (drop_bit 32 x))"
  proof (cases "n + 1 = 2 ^ 64")
    case True
    then have "n div 2 ^ 32 + 1 = 2 ^ 32" "(n + 1) mod 2 ^ 32 = 0" by simp_all
    then show ?thesis
      unfolding counter_words(2) unfolding counter_words(1) u n_def [symmetric] one z of_nat_u32_eq using True by (simp add: of_nat_u32_eq)
  next
    case False
    have "(n + 1) div 2 ^ 32 = (if (n + 1) mod 2 ^ 32 = 0 then n div 2 ^ 32 + 1 else n div 2 ^ 32)"
      using div_Suc [of n "2 ^ 32"] by (simp only: Suc_eq_plus1)
    moreover have "(n + 1) mod 2 ^ 64 = n + 1" using False n by (intro mod_less) linarith
    ultimately show ?thesis
      unfolding counter_words(2) unfolding counter_words(1) u n_def [symmetric] one z by (simp only: if_split) simp
  qed
qed

lemma next_state: "chacha20_next (chacha_state key nonce ctr) = chacha_state key nonce (ctr + 1)"
  by (simp add: chacha20_next_def Let_def chacha_state_def list_update_append next_counter nth_append)

section \<open>The cipher is the key stream\<close>

lemma store32_load32: "4 \<le> length s \<Longrightarrow> store32_le (load32_le s) = take 4 s"
  by (rule num_inj) (simp_all add: num_store32_le unat_load32_le num_byte_at)

lemma byte_mask: "(ucast (x AND 0xff) :: byte) = ucast (x :: u32)"
proof -
  have mask: "(0xff :: u32) = mask 8" by (simp add: mask_eq_exp_minus_1)
  show ?thesis unfolding mask by (intro bit_word_eqI) (simp only: bit_simps, simp)
qed

lemma store32_xor: "store32_le (x XOR y) = map2 (XOR) (store32_le x) (store32_le y)"
proof -
  have x: "(ucast (drop_bit k (x XOR y)) :: byte) = ucast (drop_bit k x) XOR ucast (drop_bit k y)" for k
    by (rule bit_word_eqI) (simp add: bit_simps)
  have "store32_le z = [ucast (drop_bit 0 z), ucast (drop_bit 8 z), ucast (drop_bit 16 z), ucast (drop_bit 24 z)]" for z
    by (simp only: store32_le_def byte_mask drop_bit_0 id_apply)
  then show ?thesis by (simp only: x zip.simps zip_Cons_Cons list.map list.case prod.case)
qed

lemma store_words: "concat (map (\<lambda>j. store32_le (ws ! j)) [0..<length ws]) = store32_le_buf ws"
proof -
  have "map (\<lambda>j. store32_le (ws ! j)) [0..<length ws] = map store32_le ws" by (rule nth_equalityI) simp_all
  then show ?thesis by (simp only: store32_le_buf_def)
qed

lemma upt_Suc_map: "[0..<Suc n] = 0 # map Suc [0..<n]"
  by (simp only: map_Suc_upt upt_conv_Cons zero_less_Suc)

lemma xor_words:
  "4 * length ws \<le> length s \<Longrightarrow>
     concat (map (\<lambda>j. store32_le (ws ! j XOR load32_le (drop (4 * j) s))) [0..<length ws]) =
     map2 (XOR) (store32_le_buf ws) s"
proof (induction ws arbitrary: s)
  case (Cons w ws)
  have s: "4 \<le> length s" "4 * length ws \<le> length (drop 4 s)" using Cons.prems by simp_all
  have "store32_le (w XOR load32_le s) = map2 (XOR) (store32_le w) (take 4 s)"
    using s(1) by (simp add: store32_xor store32_load32)
  moreover have "map2 (XOR) (store32_le_buf (w # ws)) s =
      map2 (XOR) (store32_le w) (take 4 s) @ map2 (XOR) (store32_le_buf ws) (drop 4 s)"
    using s(1) zip_append [of "store32_le w" "take 4 s" "store32_le_buf ws" "drop 4 s"] by (simp add: store32_le_buf_def)
  moreover have "drop (4 * Suc j) s = drop (4 * j) (drop 4 s)" for j by (simp add: add.commute)
  ultimately show ?case using Cons.IH [OF s(2)] by (simp only: length_Cons upt_Suc_map) (simp add: comp_def)
qed (simp add: store32_le_buf_def)

lemma out_block:
  assumes "length st = 16" "\<forall>text. plain_text = Some text \<longrightarrow> 64 \<le> length text"
  shows "chacha20_out plain_text (chacha20_rounds st) st =
    (let ks = store32_le_buf (map2 (+) (chacha20_rounds st) st) in
     case plain_text of None \<Rightarrow> ks | Some text \<Rightarrow> map2 (XOR) ks text)"
proof -
  let ?ws = "map2 (+) (chacha20_rounds st) st"
  have l: "length ?ws = 16" using assms(1) by simp
  have w: "j < 16 \<Longrightarrow> chacha20_rounds st ! j + st ! j = ?ws ! j" for j using assms(1) by simp
  have c: "map (\<lambda>j. g (chacha20_rounds st ! j + st ! j) j) [0..<16] = map (\<lambda>j. g (?ws ! j) j) [0..<length ?ws]"
    for g :: "u32 \<Rightarrow> nat \<Rightarrow> bytes" unfolding l by (intro map_cong refl) (simp only: w set_upt atLeastLessThan_iff)
  show ?thesis
  proof (cases plain_text)
    case None
    then show ?thesis
      unfolding chacha20_out_def Let_def None option.case c [of "\<lambda>w j. store32_le w"] by (intro store_words)
  next
    case (Some pt)
    then have t: "4 * length ?ws \<le> length pt" using assms(2) l by simp
    show ?thesis
      unfolding chacha20_out_def Let_def Some option.case c [of "\<lambda>w j. store32_le (w XOR load32_le (drop (4 * j) pt))"]
      by (rule xor_words [OF t])
  qed
qed

lemma keystream_Suc: "keystream key nonce ctr (Suc n) = chacha_block key nonce ctr @ keystream key nonce (ctr + 1) n"
  by (simp only: keystream_def upt_Suc_map) (simp add: comp_def add.assoc [symmetric])

lemma zip_take_right: "length xs = n \<Longrightarrow> zip xs (take n ys) = zip xs ys"
  by (rule nth_equalityI) simp_all

lemma blocks_value:
  assumes "\<forall>pt. plain_text = Some pt \<longrightarrow> 64 * n \<le> length pt"
  shows "chacha20_blocks n plain_text (chacha_state key nonce ctr) =
    (let ks = keystream key nonce ctr n in case plain_text of None \<Rightarrow> ks | Some pt \<Rightarrow> map2 (XOR) ks pt,
     chacha_state key nonce (ctr + of_nat n))"
  using assms
proof (induction n arbitrary: plain_text ctr)
  case 0
  then show ?case by (simp add: keystream_def split: option.split)
next
  case (Suc n)
  have out: "chacha20_out plain_text (chacha20_rounds (chacha_state key nonce ctr)) (chacha_state key nonce ctr) =
      (let ks = chacha_block key nonce ctr in case plain_text of None \<Rightarrow> ks | Some pt \<Rightarrow> map2 (XOR) ks pt)"
    unfolding chacha_block_def using Suc.prems by (intro out_block) auto
  have rest: "\<forall>pt. map_option (drop 64) plain_text = Some pt \<longrightarrow> 64 * n \<le> length pt"
    using Suc.prems by auto
  have zip: "zip (ks @ ks') pt = zip ks (take (length ks) pt) @ zip ks' (drop (length ks) pt)" for ks ks' pt :: bytes
    by (rule zip_append1)
  show ?case
    using out Suc.IH [OF rest, of "ctr + 1"]
    by (cases plain_text) (simp_all add: next_state keystream_Suc zip Let_def add.assoc [symmetric] zip_take_right)
qed

text \<open>The key stream for a text of \<open>n\<close> bytes, and the blocks that it takes.\<close>

definition chacha_blocks :: "nat \<Rightarrow> nat" where
  "chacha_blocks n = (n + 63) div 64"

lemma counter_back:
  "ucast (chacha_state key nonce ctr ! 12) + push_bit 32 (ucast (chacha_state key nonce ctr ! 13)) = ctr"
  by (simp only: state_counter split_counter)

lemma chacha20_djb_value:
  assumes "\<forall>pt. plain_text = Some pt \<longrightarrow> length pt = n"
  shows "crypto_chacha20_djb plain_text n key nonce ctr =
    (let ks = take n (keystream key nonce ctr (chacha_blocks n))
     in case plain_text of None \<Rightarrow> ks | Some pt \<Rightarrow> map2 (XOR) ks pt,
     ctr + of_nat (chacha_blocks n))"
proof -
  let ?n = "n div 64" and ?m = "n mod 64"
  let ?st = "chacha_state key nonce (ctr + of_nat ?n)"
  define b where "b = chacha_block key nonce (ctr + of_nat ?n)"
  have lb: "length b = 64" by (simp add: b_def)
  have whole: "\<forall>pt. plain_text = Some pt \<longrightarrow> 64 * ?n \<le> length pt" using assms by auto
  have ws: "concat (map (\<lambda>i. store32_le (chacha20_rounds ?st ! i + ?st ! i)) [0..<16]) = b"
    using out_block [of ?st None] by (simp add: b_def chacha_block_def chacha20_out_def)
  have blocks: "chacha_blocks n = (if ?m > 0 then Suc ?n else ?n)"
  proof -
    have "(?m + 63) div 64 = (if ?m > 0 then 1 else 0)" by (cases "?m > 0") (auto intro: div_nat_eqI)
    moreover have "(n + 63) div 64 = ?n + (?m + 63) div 64"
      using div_mult_self3 [of 64 ?n "?m + 63"] by (simp add: add.assoc [symmetric])
    ultimately show ?thesis by (simp add: chacha_blocks_def)
  qed
  have "keystream key nonce ctr (Suc ?n) = keystream key nonce ctr ?n @ b"
    by (simp add: keystream_def b_def)
  moreover have "take n (keystream key nonce ctr ?n @ b) = keystream key nonce ctr ?n @ take ?m b"
    by (simp add: take_all minus_mult_div_eq_mod)
  moreover have "?m = 0 \<Longrightarrow> n = 64 * ?n" by presburger
  ultimately have ks: "take n (keystream key nonce ctr (chacha_blocks n)) = keystream key nonce ctr ?n @ take ?m b"
    by (cases "?m = 0") (simp_all add: blocks)
  have zeros: "map (\<lambda>i. b ! i XOR replicate 128 0 ! i) [0..<?m] = take ?m b"
    using lb by (intro nth_equalityI) (auto simp: less_trans)
  have last: "length pt = n \<Longrightarrow> map (\<lambda>i. b ! i XOR drop (64 * ?n) pt ! i) [0..<?m] = map2 (XOR) (take ?m b) (drop (64 * ?n) pt)" for pt
    using lb by (intro nth_equalityI) (auto simp: less_trans minus_mult_div_eq_mod)
  have zip: "zip (ks @ ks') pt = zip ks (take (length ks) pt) @ zip ks' (drop (length ks) pt)" for ks ks' pt :: bytes
    by (rule zip_append1)
  have run: "crypto_chacha20_djb plain_text n key nonce ctr =
     (fst (chacha20_blocks ?n plain_text (chacha_state key nonce ctr)) @
        (if ?m > 0 then map (\<lambda>i. b ! i XOR (case map_option (drop (64 * ?n)) plain_text of None \<Rightarrow> replicate 128 0 | Some t \<Rightarrow> t) ! i) [0..<?m]
         else []), ctr + of_nat ?n + (if ?m > 0 then 1 else 0))"
    unfolding crypto_chacha20_djb_def chacha_state_def [symmetric] Let_def blocks_value [OF whole] prod.case fst_conv ws counter_back
    by (rule refl)
  show ?thesis
    unfolding run blocks_value [OF whole] ks unfolding blocks
    using assms last by (cases plain_text) (auto simp: Let_def zeros zip zip_take_right)
qed

text \<open>Encrypting twice gives the text back, and a text can be encrypted in pieces of whole blocks.\<close>

lemma blocks_enough: "n \<le> 64 * chacha_blocks n"
  unfolding chacha_blocks_def by presburger

lemma djb_some:
  "length pt = n \<Longrightarrow> crypto_chacha20_djb (Some pt) n key nonce ctr =
     (map2 (XOR) (take n (keystream key nonce ctr (chacha_blocks n))) pt, ctr + of_nat (chacha_blocks n))"
  by (simp add: chacha20_djb_value)

lemma djb_none:
  "crypto_chacha20_djb None n key nonce ctr =
     (take n (keystream key nonce ctr (chacha_blocks n)), ctr + of_nat (chacha_blocks n))"
  by (simp add: chacha20_djb_value)

lemma chacha20_djb_length:
  "length pt = n \<Longrightarrow> length (fst (crypto_chacha20_djb (Some pt) n key nonce ctr)) = n"
  using blocks_enough [of n] by (simp add: djb_some)

lemma xor_twice: "length pt \<le> length ks \<Longrightarrow> map2 (XOR) ks (map2 (XOR) ks pt) = (pt :: bytes)"
  by (intro nth_equalityI) (auto simp: xor.assoc [symmetric])

lemma chacha20_djb_inverse:
  assumes "length pt = n"
  shows "fst (crypto_chacha20_djb (Some (fst (crypto_chacha20_djb (Some pt) n key nonce ctr))) n key nonce ctr) = pt"
  using assms blocks_enough [of n] chacha20_djb_length [OF assms, of key nonce ctr]
  by (simp add: djb_some xor_twice)

lemma keystream_0: "keystream key nonce ctr 0 = []"
  by (simp add: keystream_def)

lemma keystream_add:
  "keystream key nonce ctr (k + n) = keystream key nonce ctr k @ keystream key nonce (ctr + of_nat k) n"
  by (induction k arbitrary: ctr) (simp_all add: keystream_Suc keystream_0 add.assoc [symmetric])

theorem chacha20_resumes:
  assumes "length a = 64 * k" "crypto_chacha20_djb (Some a) (64 * k) key nonce ctr = (ca, ctr')"
    "length b = n" "crypto_chacha20_djb (Some b) n key nonce ctr' = (cb, ctr'')"
  shows "crypto_chacha20_djb (Some (a @ b)) (64 * k + n) key nonce ctr = (ca @ cb, ctr'')"
proof -
  have k: "chacha_blocks (64 * k) = k" "chacha_blocks (64 * k + n) = k + chacha_blocks n"
    unfolding chacha_blocks_def by presburger+
  show ?thesis
    using assms(2,4) unfolding djb_some [OF assms(1)] djb_some [OF assms(3)]
    using djb_some [of "a @ b" "64 * k + n"] assms(1,3) by (auto simp: k keystream_add add.assoc)
qed

end
