(* ===== verification/Poly1305.thy ===== *)
theory Poly1305
  imports Scalar_L Sha512
begin

text \<open>
  The one-time authenticator of \<open>support/crypto/monocypher.c\<close>: the accumulator of five words, multiplied modulo
  \<open>2^130 - 5\<close> with a partial reduction, the incremental interface with its buffer of one block, and
  the final subtraction without a branch.  The reference is the polynomial of RFC 8439 on numbers.
\<close>

section \<open>The operations\<close>

record poly1305_ctx =
  pc_c :: bytes
  pc_c_idx :: nat
  pc_r :: "u32 list"
  pc_pad :: "u32 list"
  pc_h :: "u32 list"

text \<open>The body of the loop of \<open>poly_blocks\<close>: \<open>h = (h + c) * r\<close> for one block at \<open>inp\<close>.\<close>

definition poly_round :: "u32 list \<Rightarrow> u32 \<Rightarrow> bytes \<Rightarrow> u32 list \<Rightarrow> u32 list" where
  "poly_round r fin inp h =
     (let r0 = r ! 0; r1 = r ! 1; r2 = r ! 2; r3 = r ! 3;
          rr0 = drop_bit 2 r0 * 5;
          rr1 = drop_bit 2 r1 + r1;
          rr2 = drop_bit 2 r2 + r2;
          rr3 = drop_bit 2 r3 + r3;
          rr4 = r0 AND 3;
          s0 = (ucast (h ! 0) + ucast (load32_le inp) :: u64);
          s1 = (ucast (h ! 1) + ucast (load32_le (drop 4 inp)) :: u64);
          s2 = (ucast (h ! 2) + ucast (load32_le (drop 8 inp)) :: u64);
          s3 = (ucast (h ! 3) + ucast (load32_le (drop 12 inp)) :: u64);
          s4 = h ! 4 + fin;
          x0 = s0 * ucast r0 + s1 * ucast rr3 + s2 * ucast rr2 + s3 * ucast rr1 + ucast (s4 * rr0);
          x1 = s0 * ucast r1 + s1 * ucast r0 + s2 * ucast rr3 + s3 * ucast rr2 + ucast (s4 * rr1);
          x2 = s0 * ucast r2 + s1 * ucast r1 + s2 * ucast r0 + s3 * ucast rr3 + ucast (s4 * rr2);
          x3 = s0 * ucast r3 + s1 * ucast r2 + s2 * ucast r1 + s3 * ucast r0 + ucast (s4 * rr3);
          x4 = s4 * rr4;
          u5 = (ucast (ucast x4 + drop_bit 32 x3) :: u32);
          u0 = ucast (drop_bit 2 u5 * 5) + (x0 AND 0xffffffff);
          u1 = drop_bit 32 u0 + (x1 AND 0xffffffff) + drop_bit 32 x0;
          u2 = drop_bit 32 u1 + (x2 AND 0xffffffff) + drop_bit 32 x1;
          u3 = drop_bit 32 u2 + (x3 AND 0xffffffff) + drop_bit 32 x2;
          u4 = (ucast (drop_bit 32 u3 + ucast (u5 AND 3)) :: u32)
      in [ucast (u0 AND 0xffffffff), ucast (u1 AND 0xffffffff), ucast (u2 AND 0xffffffff),
          ucast (u3 AND 0xffffffff), u4])"

definition poly_blocks :: "poly1305_ctx \<Rightarrow> bytes \<Rightarrow> nat \<Rightarrow> u32 \<Rightarrow> poly1305_ctx" where
  "poly_blocks ctx inp nb_blocks fin =
     ctx \<lparr> pc_h := foldl (\<lambda>h i. poly_round (pc_r ctx) fin (drop (16 * i) inp) h) (pc_h ctx) [0..<nb_blocks] \<rparr>"

definition crypto_poly1305_init :: "bytes \<Rightarrow> poly1305_ctx" where
  "crypto_poly1305_init key =
     (let r = load32_le_buf key 4;
          r = r[0 := r ! 0 AND 0x0fffffff];
          r = foldl (\<lambda>r i. r[i := r ! i AND 0x0ffffffc]) r [1..<4]
      in \<lparr> pc_c = replicate 16 0, pc_c_idx = 0, pc_r = r, pc_pad = load32_le_buf (drop 16 key) 4,
           pc_h = replicate 5 0 \<rparr>)"

definition poly_keep :: "poly1305_ctx \<Rightarrow> bytes \<Rightarrow> poly1305_ctx" where
  "poly_keep ctx message = ctx \<lparr> pc_c := mem_write (pc_c_idx ctx) message (pc_c ctx),
     pc_c_idx := pc_c_idx ctx + length message \<rparr>"

definition crypto_poly1305_update :: "poly1305_ctx \<Rightarrow> bytes \<Rightarrow> poly1305_ctx" where
  "crypto_poly1305_update ctx message =
     (if message = [] then ctx
      else
        let aligned = min (gap (pc_c_idx ctx) 16) (length message);
            ctx = poly_keep ctx (take aligned message);
            message = drop aligned message;
            ctx = (if pc_c_idx ctx = 16 then (poly_blocks ctx (pc_c ctx) 1 1) \<lparr> pc_c_idx := 0 \<rparr> else ctx);
            nb_blocks = length message div 16;
            ctx = poly_blocks ctx message nb_blocks 1;
            message = drop (16 * nb_blocks) message
        in poly_keep ctx message)"

definition crypto_poly1305_final :: "poly1305_ctx \<Rightarrow> bytes" where
  "crypto_poly1305_final ctx =
     (let ctx = (if pc_c_idx ctx \<noteq> 0 then
                   let c = mem_write (pc_c_idx ctx) (replicate (16 - pc_c_idx ctx) 0) (pc_c ctx);
                       c = c[pc_c_idx ctx := 1]
                   in poly_blocks (ctx \<lparr> pc_c := c \<rparr>) c 1 0
                 else ctx);
          c = foldl (\<lambda>c i. drop_bit 32 (c + ucast (pc_h ctx ! i))) (5 :: u64) [0..<4];
          c = c + ucast (pc_h ctx ! 4);
          c = drop_bit 2 c * 5
      in store32_le_buf (fst (add_carry c (take 4 (pc_h ctx)) (pc_pad ctx))))"

definition crypto_poly1305 :: "bytes \<Rightarrow> bytes \<Rightarrow> bytes" where
  "crypto_poly1305 message key =
     crypto_poly1305_final (crypto_poly1305_update (crypto_poly1305_init key) message)"

section \<open>The polynomial of RFC 8439\<close>

definition poly_p :: nat where
  "poly_p = 2 ^ 130 - 5"

definition poly_chunks :: "bytes \<Rightarrow> bytes list" where
  "poly_chunks m = map (\<lambda>i. take 16 (drop (16 * i) m)) [0..<(length m + 15) div 16]"

definition poly_sum :: "nat \<Rightarrow> bytes list \<Rightarrow> nat" where
  "poly_sum r bs = foldl (\<lambda>a b. (a + num (b @ [1])) * r mod poly_p) 0 bs"

definition poly_r :: "bytes \<Rightarrow> nat" where
  "poly_r key = num (take 16 key) AND 0x0ffffffc0ffffffc0ffffffc0fffffff"

definition poly1305 :: "bytes \<Rightarrow> bytes \<Rightarrow> bytes" where
  "poly1305 key m =
     (let n = (poly_sum (poly_r key) (poly_chunks m) + num (take 16 (drop 16 key))) mod 2 ^ 128
      in map (\<lambda>i. of_nat (n div 256 ^ i)) [0..<16])"

section \<open>One block\<close>

lemma and_ones_u64: "(of_nat n :: u64) AND 0xffffffff = of_nat (n mod 2 ^ 32)"
proof -
  have "(0xffffffff :: u64) = mask 32" by (simp add: mask_eq_exp_minus_1)
  then show ?thesis by (simp only: take_bit_eq_mask [symmetric] take_bit_of_nat) (simp add: take_bit_eq_mod)
qed

lemma and_3_u32: "(of_nat n :: u32) AND 3 = of_nat (n mod 4)"
proof -
  have "(3 :: u32) = mask 2" by (simp add: mask_eq_exp_minus_1)
  then show ?thesis by (simp only: take_bit_eq_mask [symmetric] take_bit_of_nat) (simp add: take_bit_eq_mod)
qed

lemma drop_of_nat:
  "n < 2 ^ 64 \<Longrightarrow> drop_bit k (of_nat n :: u64) = of_nat (n div 2 ^ k)"
  "n < 2 ^ 32 \<Longrightarrow> drop_bit k (of_nat n :: u32) = of_nat (n div 2 ^ k)"
proof -
  have le: "n div 2 ^ k \<le> n" by (rule div_le_dividend)
  show "drop_bit k (of_nat n :: u64) = of_nat (n div 2 ^ k)" if n: "n < 2 ^ 64"
  proof (rule unsigned_word_eqI [where ?'a = nat])
    have "unat (of_nat m :: u64) = m" if "m < 2 ^ 64" for m using that by (simp add: unat_of_nat)
    note u = this [OF n] this [OF le_less_trans [OF le n]]
    show "unat (drop_bit k (of_nat n :: u64)) = unat (of_nat (n div 2 ^ k) :: u64)"
      by (simp only: unat_drop_bit_eq u) (simp only: drop_bit_eq_div)
  qed
  show "drop_bit k (of_nat n :: u32) = of_nat (n div 2 ^ k)" if n: "n < 2 ^ 32"
  proof (rule unsigned_word_eqI [where ?'a = nat])
    have "unat (of_nat m :: u32) = m" if "m < 2 ^ 32" for m using that by (simp add: unat_of_nat)
    note u = this [OF n] this [OF le_less_trans [OF le n]]
    show "unat (drop_bit k (of_nat n :: u32)) = unat (of_nat (n div 2 ^ k) :: u32)"
      by (simp only: unat_drop_bit_eq u) (simp only: drop_bit_eq_div)
  qed
qed

lemma ucast_of_nat:
  "(ucast (of_nat n :: u64) :: u32) = of_nat n"
  "n < 2 ^ 32 \<Longrightarrow> (ucast (of_nat n :: u32) :: u64) = of_nat n"
proof -
  show "(ucast (of_nat n :: u64) :: u32) = of_nat n"
    by (intro unsigned_word_eqI [where ?'a = nat]) (simp add: unsigned_ucast_eq unat_of_nat take_bit_eq_mod mod_mod_cancel)
  show "n < 2 ^ 32 \<Longrightarrow> (ucast (of_nat n :: u32) :: u64) = of_nat n"
    by (intro unsigned_word_eqI [where ?'a = nat]) (simp add: unsigned_ucast_eq unat_of_nat take_bit_eq_mod)
qed

lemma product_identity:
  fixes B s0 s1 s2 s3 s4 m t0 t1 t2 t3 :: int
  shows "(s0 + B * (s1 + B * (s2 + B * (s3 + B * s4)))) * (4 * t0 + m + B * (4 * t1 + B * (4 * t2 + B * (4 * t3)))) =
    (s0 * (4 * t0 + m) + s1 * (5 * t3) + s2 * (5 * t2) + s3 * (5 * t1) + s4 * (5 * t0)) +
    B * (s0 * (4 * t1) + s1 * (4 * t0 + m) + s2 * (5 * t3) + s3 * (5 * t2) + s4 * (5 * t1)) +
    B ^ 2 * (s0 * (4 * t2) + s1 * (4 * t1) + s2 * (4 * t0 + m) + s3 * (5 * t3) + s4 * (5 * t2)) +
    B ^ 3 * (s0 * (4 * t3) + s1 * (4 * t2) + s2 * (4 * t1) + s3 * (4 * t0 + m) + s4 * (5 * t3)) +
    B ^ 4 * (s4 * m) +
    (4 * B ^ 4 - 5) * (s1 * t3 + s2 * t2 + s3 * t1 + s4 * t0 + B * (s2 * t3 + s3 * t2 + s4 * t1) +
      B ^ 2 * (s3 * t3 + s4 * t2) + B ^ 3 * (s4 * t3))"
  by algebra

lemma carry_identity:
  fixes B xl0 xl1 xl2 xl3 xh0 xh1 xh2 xh3 ul0 ul1 ul2 ul3 uh0 uh1 uh2 uh3 d l5 v :: int
  assumes "5 * d + xl0 = ul0 + B * uh0" "uh0 + xl1 + xh0 = ul1 + B * uh1" "uh1 + xl2 + xh1 = ul2 + B * uh2"
    "uh2 + xl3 + xh2 = ul3 + B * uh3" "v + xh3 = 4 * d + l5"
  shows "ul0 + B * (ul1 + B * (ul2 + B * (ul3 + B * (uh3 + l5)))) + (4 * B ^ 4 - 5) * d =
    (xl0 + B * xh0) + B * (xl1 + B * xh1) + B ^ 2 * (xl2 + B * xh2) + B ^ 3 * (xl3 + B * xh3) + B ^ 4 * v"
  using assms by algebra

text \<open>The same steps on numbers\<close>

lemma poly_round_nat:
  fixes h0 h1 h2 h3 h4 c0 c1 c2 c3 e r0 r1 r2 r3 t1 t2 t3 :: nat
  assumes h: "h0 < 2 ^ 32" "h1 < 2 ^ 32" "h2 < 2 ^ 32" "h3 < 2 ^ 32" "h4 \<le> 4"
    and c: "load32_le inp = of_nat c0" "load32_le (drop 4 inp) = of_nat c1" "load32_le (drop 8 inp) = of_nat c2"
      "load32_le (drop 12 inp) = of_nat c3" "c0 < 2 ^ 32" "c1 < 2 ^ 32" "c2 < 2 ^ 32" "c3 < 2 ^ 32"
    and e: "e \<le> 1"
    and r: "r0 < 2 ^ 28" "r1 < 2 ^ 28" "r2 < 2 ^ 28" "r3 < 2 ^ 28"
    and t: "r1 = 4 * t1" "r2 = 4 * t2" "r3 = 4 * t3"
  defines "q0 \<equiv> 5 * (r0 div 4)" and "q1 \<equiv> r1 div 4 + r1" and "q2 \<equiv> r2 div 4 + r2" and "q3 \<equiv> r3 div 4 + r3"
  defines "s0 \<equiv> h0 + c0" and "s1 \<equiv> h1 + c1" and "s2 \<equiv> h2 + c2" and "s3 \<equiv> h3 + c3" and "s4 \<equiv> h4 + e"
  defines "x0 \<equiv> s0 * r0 + s1 * q3 + s2 * q2 + s3 * q1 + s4 * q0"
    and "x1 \<equiv> s0 * r1 + s1 * r0 + s2 * q3 + s3 * q2 + s4 * q1"
    and "x2 \<equiv> s0 * r2 + s1 * r1 + s2 * r0 + s3 * q3 + s4 * q2"
    and "x3 \<equiv> s0 * r3 + s1 * r2 + s2 * r1 + s3 * r0 + s4 * q3"
  defines "u5 \<equiv> s4 * (r0 mod 4) + x3 div 2 ^ 32"
  defines "u0 \<equiv> 5 * (u5 div 4) + x0 mod 2 ^ 32"
  defines "u1 \<equiv> u0 div 2 ^ 32 + x1 mod 2 ^ 32 + x0 div 2 ^ 32"
  defines "u2 \<equiv> u1 div 2 ^ 32 + x2 mod 2 ^ 32 + x1 div 2 ^ 32"
  defines "u3 \<equiv> u2 div 2 ^ 32 + x3 mod 2 ^ 32 + x2 div 2 ^ 32"
  defines "u4 \<equiv> u3 div 2 ^ 32 + u5 mod 4"
  shows "poly_round [of_nat r0, of_nat r1, of_nat r2, of_nat r3] (of_nat e) inp
       [of_nat h0, of_nat h1, of_nat h2, of_nat h3, of_nat h4] =
     [of_nat (u0 mod 2 ^ 32), of_nat (u1 mod 2 ^ 32), of_nat (u2 mod 2 ^ 32), of_nat (u3 mod 2 ^ 32), of_nat u4] \<and>
     u4 \<le> 4 \<and>
     (\<exists>k. u0 mod 2 ^ 32 + 2 ^ 32 * (u1 mod 2 ^ 32 + 2 ^ 32 * (u2 mod 2 ^ 32 + 2 ^ 32 * (u3 mod 2 ^ 32 + 2 ^ 32 * u4))) + poly_p * k =
       (s0 + 2 ^ 32 * (s1 + 2 ^ 32 * (s2 + 2 ^ 32 * (s3 + 2 ^ 32 * s4)))) *
       (r0 + 2 ^ 32 * (r1 + 2 ^ 32 * (r2 + 2 ^ 32 * r3))))"
proof -
  have q: "q0 \<le> 5 * 2 ^ 26" "q1 \<le> 5 * 2 ^ 26" "q2 \<le> 5 * 2 ^ 26" "q3 \<le> 5 * 2 ^ 26"
    using r by (auto simp: q0_def q1_def q2_def q3_def)
  have s: "s0 \<le> 2 ^ 33" "s1 \<le> 2 ^ 33" "s2 \<le> 2 ^ 33" "s3 \<le> 2 ^ 33" "s4 \<le> 5"
    using h c e by (auto simp: s0_def s1_def s2_def s3_def s4_def)
  have sr: "s * r \<le> 2 ^ 33 * 2 ^ 28" if "s \<le> 2 ^ 33" "r < 2 ^ 28" for s r :: nat
    using that by (intro mult_le_mono) simp_all
  have sq: "s * q \<le> 2 ^ 33 * (5 * 2 ^ 26)" if "s \<le> 2 ^ 33" "q \<le> 5 * 2 ^ 26" for s q :: nat
    using that by (intro mult_le_mono)
  have s4q: "s4 * q \<le> 5 * (5 * 2 ^ 26)" if "q \<le> 5 * 2 ^ 26" for q using that s(5) by (intro mult_le_mono)
  have x: "x0 < 3 * 2 ^ 62" "x1 < 3 * 2 ^ 62" "x2 < 3 * 2 ^ 62" "x3 < 2 ^ 63 + 2 ^ 32"
    using sr [OF s(1) r(1)] sr [OF s(1) r(2)] sr [OF s(1) r(3)] sr [OF s(1) r(4)]
      sr [OF s(2) r(1)] sr [OF s(2) r(2)] sr [OF s(2) r(3)] sr [OF s(3) r(1)] sr [OF s(3) r(2)] sr [OF s(4) r(1)]
      sq [OF s(2) q(4)] sq [OF s(3) q(3)] sq [OF s(3) q(4)] sq [OF s(4) q(2)] sq [OF s(4) q(3)] sq [OF s(4) q(4)]
      s4q [OF q(1)] s4q [OF q(2)] s4q [OF q(3)] s4q [OF q(4)]
    unfolding x0_def x1_def x2_def x3_def by simp_all
  have x4: "s4 * (r0 mod 4) \<le> 5 * 3" using s(5) by (intro mult_le_mono) auto
  have u5: "u5 < 2 ^ 31 + 2 ^ 5" using x(4) x4 by (simp add: u5_def)
  have hi: "x0 div 2 ^ 32 < 3 * 2 ^ 30" "x1 div 2 ^ 32 < 3 * 2 ^ 30" "x2 div 2 ^ 32 < 3 * 2 ^ 30"
    using x by (simp_all add: div_less_iff_less_mult)
  have lo: "x0 mod 2 ^ 32 < 2 ^ 32" "x1 mod 2 ^ 32 < 2 ^ 32" "x2 mod 2 ^ 32 < 2 ^ 32" "x3 mod 2 ^ 32 < 2 ^ 32"
    by simp_all
  have u: "u0 < 2 ^ 33" "u1 < 2 ^ 33" "u2 < 2 ^ 33" "u3 < 2 ^ 33"
  proof -
    have "u5 div 4 \<le> 2 ^ 29 + 2 ^ 3" using u5 by simp
    then show u0: "u0 < 2 ^ 33" using lo(1) unfolding u0_def by simp
    then have "u0 div 2 ^ 32 \<le> 1" by simp
    then show u1: "u1 < 2 ^ 33" using hi(1) lo(2) unfolding u1_def by simp
    then have "u1 div 2 ^ 32 \<le> 1" by simp
    then show u2: "u2 < 2 ^ 33" using hi(2) lo(3) unfolding u2_def by simp
    then have "u2 div 2 ^ 32 \<le> 1" by simp
    then show u3: "u3 < 2 ^ 33" using hi(3) lo(4) unfolding u3_def by simp
  qed
  have u4: "u4 \<le> 4"
  proof -
    have "u3 div 2 ^ 32 \<le> 1" "u5 mod 4 \<le> 3" using u(4) by simp_all
    then show ?thesis unfolding u4_def by linarith
  qed
  have b: "n < 2 ^ 34 \<Longrightarrow> n < 2 ^ 64" for n :: nat by simp
  have w_q: "drop_bit 2 (of_nat r0 :: u32) * 5 = of_nat q0" "drop_bit 2 (of_nat r1 :: u32) + of_nat r1 = of_nat q1"
    "drop_bit 2 (of_nat r2 :: u32) + of_nat r2 = of_nat q2" "drop_bit 2 (of_nat r3 :: u32) + of_nat r3 = of_nat q3"
    using r by (simp_all add: drop_of_nat q0_def q1_def q2_def q3_def)
  have w_s: "ucast (of_nat h0 :: u32) + ucast (of_nat c0 :: u32) = (of_nat s0 :: u64)"
    "ucast (of_nat h1 :: u32) + ucast (of_nat c1 :: u32) = (of_nat s1 :: u64)"
    "ucast (of_nat h2 :: u32) + ucast (of_nat c2 :: u32) = (of_nat s2 :: u64)"
    "ucast (of_nat h3 :: u32) + ucast (of_nat c3 :: u32) = (of_nat s3 :: u64)"
    "of_nat h4 + of_nat e = (of_nat s4 :: u32)"
    using h c by (simp_all add: ucast_of_nat s0_def s1_def s2_def s3_def s4_def)
  have w_s4: "ucast (of_nat s4 * of_nat q :: u32) = (of_nat (s4 * q) :: u64)" if "q \<le> 5 * 2 ^ 26" for q
    using s4q [OF that] by (simp add: ucast_of_nat flip: of_nat_mult)
  have w_r: "ucast (of_nat r :: u32) = (of_nat r :: u64)" if "r < 2 ^ 30" for r
    using that by (simp add: ucast_of_nat)
  have rb: "r0 < 2 ^ 30" "r1 < 2 ^ 30" "r2 < 2 ^ 30" "r3 < 2 ^ 30" "q0 < 2 ^ 30" "q1 < 2 ^ 30" "q2 < 2 ^ 30" "q3 < 2 ^ 30"
    using r q by simp_all
  have w_x: "of_nat s0 * ucast (of_nat r0 :: u32) + of_nat s1 * ucast (of_nat q3 :: u32) + of_nat s2 * ucast (of_nat q2 :: u32) +
       of_nat s3 * ucast (of_nat q1 :: u32) + ucast (of_nat s4 * of_nat q0 :: u32) = (of_nat x0 :: u64)"
    "of_nat s0 * ucast (of_nat r1 :: u32) + of_nat s1 * ucast (of_nat r0 :: u32) + of_nat s2 * ucast (of_nat q3 :: u32) +
       of_nat s3 * ucast (of_nat q2 :: u32) + ucast (of_nat s4 * of_nat q1 :: u32) = (of_nat x1 :: u64)"
    "of_nat s0 * ucast (of_nat r2 :: u32) + of_nat s1 * ucast (of_nat r1 :: u32) + of_nat s2 * ucast (of_nat r0 :: u32) +
       of_nat s3 * ucast (of_nat q3 :: u32) + ucast (of_nat s4 * of_nat q2 :: u32) = (of_nat x2 :: u64)"
    "of_nat s0 * ucast (of_nat r3 :: u32) + of_nat s1 * ucast (of_nat r2 :: u32) + of_nat s2 * ucast (of_nat r1 :: u32) +
       of_nat s3 * ucast (of_nat r0 :: u32) + ucast (of_nat s4 * of_nat q3 :: u32) = (of_nat x3 :: u64)"
    unfolding x0_def x1_def x2_def x3_def
    by (simp_all only: w_r [OF rb(1)] w_r [OF rb(2)] w_r [OF rb(3)] w_r [OF rb(4)] w_r [OF rb(6)] w_r [OF rb(7)]
        w_r [OF rb(8)] w_s4 [OF q(1)] w_s4 [OF q(2)] w_s4 [OF q(3)] w_s4 [OF q(4)] of_nat_add of_nat_mult)
  have x64: "x0 < 2 ^ 64" "x1 < 2 ^ 64" "x2 < 2 ^ 64" "x3 < 2 ^ 64" using x by simp_all
  have u64: "u0 < 2 ^ 64" "u1 < 2 ^ 64" "u2 < 2 ^ 64" "u3 < 2 ^ 64" using u by simp_all
  have w_x4: "of_nat s4 * (of_nat r0 AND 3) = (of_nat (s4 * (r0 mod 4)) :: u32)"
    by (simp only: and_3_u32 of_nat_mult)
  have w_u5: "ucast (ucast (of_nat (s4 * (r0 mod 4)) :: u32) + drop_bit 32 (of_nat x3) :: u64) = (of_nat u5 :: u32)"
  proof -
    have "s4 * (r0 mod 4) < 2 ^ 32" using x4 by simp
    then show ?thesis
      by (simp only: ucast_of_nat(2) drop_of_nat(1) [OF x64(4)] of_nat_add [symmetric] ucast_of_nat(1) u5_def)
  qed
  have w_u0: "ucast (drop_bit 2 (of_nat u5 :: u32) * 5) + (of_nat x0 AND 0xffffffff) = (of_nat u0 :: u64)"
  proof -
    have "u5 < 2 ^ 32" "5 * (u5 div 4) < 2 ^ 32" using u5 by simp_all
    moreover have "drop_bit 2 (of_nat u5 :: u32) * 5 = of_nat (5 * (u5 div 4))" using calculation(1) by (simp add: drop_of_nat)
    ultimately show ?thesis by (simp only: ucast_of_nat(2) and_ones_u64 of_nat_add [symmetric] u0_def)
  qed
  have w_u: "drop_bit 32 (of_nat u0) + (of_nat x1 AND 0xffffffff) + drop_bit 32 (of_nat x0) = (of_nat u1 :: u64)"
    "drop_bit 32 (of_nat u1) + (of_nat x2 AND 0xffffffff) + drop_bit 32 (of_nat x1) = (of_nat u2 :: u64)"
    "drop_bit 32 (of_nat u2) + (of_nat x3 AND 0xffffffff) + drop_bit 32 (of_nat x2) = (of_nat u3 :: u64)"
    by (simp_all only: drop_of_nat(1) x64 u64 and_ones_u64 of_nat_add [symmetric]
        u1_def [symmetric] u2_def [symmetric] u3_def [symmetric])
  have w_u4: "ucast (drop_bit 32 (of_nat u3) + ucast (of_nat u5 AND 3 :: u32) :: u64) = (of_nat u4 :: u32)"
  proof -
    have "u5 mod 4 < 2 ^ 32" using mod_less_divisor [of 4 u5] by (simp del: mod_less_divisor)
    then show ?thesis
      by (simp only: and_3_u32 ucast_of_nat(2) drop_of_nat(1) [OF u64(4)] of_nat_add [symmetric] ucast_of_nat(1) u4_def)
  qed
  have w_o: "ucast (of_nat u AND 0xffffffff :: u64) = (of_nat (u mod 2 ^ 32) :: u32)" for u
    by (simp only: and_ones_u64 ucast_of_nat(1))
  have nths: "[a, b, c, d] ! 0 = a" "[a, b, c, d] ! 1 = b" "[a, b, c, d] ! 2 = c" "[a, b, c, d] ! 3 = d"
    "[a, b, c, d, e] ! 0 = a" "[a, b, c, d, e] ! 1 = b" "[a, b, c, d, e] ! 2 = c" "[a, b, c, d, e] ! 3 = d"
    "[a, b, c, d, e] ! 4 = e" for a b c d e :: u32
    by simp_all
  have "poly_round [of_nat r0, of_nat r1, of_nat r2, of_nat r3] (of_nat e) inp
       [of_nat h0, of_nat h1, of_nat h2, of_nat h3, of_nat h4] =
     [of_nat (u0 mod 2 ^ 32), of_nat (u1 mod 2 ^ 32), of_nat (u2 mod 2 ^ 32), of_nat (u3 mod 2 ^ 32), of_nat u4]"
    by (simp only: poly_round_def Let_def nths c(1-4) w_q w_s w_x w_x4 w_u5 w_u0 w_u w_u4 w_o)
  moreover have "\<exists>k. u0 mod 2 ^ 32 + 2 ^ 32 * (u1 mod 2 ^ 32 + 2 ^ 32 * (u2 mod 2 ^ 32 + 2 ^ 32 * (u3 mod 2 ^ 32 + 2 ^ 32 * u4)))
       + poly_p * k =
       (s0 + 2 ^ 32 * (s1 + 2 ^ 32 * (s2 + 2 ^ 32 * (s3 + 2 ^ 32 * s4)))) *
       (r0 + 2 ^ 32 * (r1 + 2 ^ 32 * (r2 + 2 ^ 32 * r3)))"
  proof -
    define B :: nat where "B = 2 ^ 32"
    define m t0 where "m = r0 mod 4" and "t0 = r0 div 4"
    have qs: "q0 = 5 * t0" "q1 = 5 * t1" "q2 = 5 * t2" "q3 = 5 * t3" "r0 = 4 * t0 + m"
      by (simp_all add: q0_def q1_def q2_def q3_def t t0_def m_def)
    define Q where "Q = s1 * t3 + s2 * t2 + s3 * t1 + s4 * t0 + B * (s2 * t3 + s3 * t2 + s4 * t1) +
      B ^ 2 * (s3 * t3 + s4 * t2) + B ^ 3 * (s4 * t3)"
    have p: "int poly_p = 4 * int B ^ 4 - 5" by (simp add: poly_p_def B_def)
    have dm: "int n = int (n mod B) + int B * int (n div B)" for n
      by (simp only: of_nat_mult [symmetric] of_nat_add [symmetric] mod_mult_div_eq)
    have prod: "int ((s0 + B * (s1 + B * (s2 + B * (s3 + B * s4)))) * (r0 + B * (r1 + B * (r2 + B * r3)))) =
        int x0 + int B * int x1 + int B ^ 2 * int x2 + int B ^ 3 * int x3 + int B ^ 4 * int (s4 * m) + int poly_p * int Q"
      using product_identity [of "int s0" "int B" "int s1" "int s2" "int s3" "int s4" "int t0" "int m" "int t1" "int t2" "int t3"]
      unfolding x0_def x1_def x2_def x3_def Q_def qs t p by simp
    have carry: "int (u0 mod B + B * (u1 mod B + B * (u2 mod B + B * (u3 mod B + B * u4)))) + int poly_p * int (u5 div 4) =
        int x0 + int B * int x1 + int B ^ 2 * int x2 + int B ^ 3 * int x3 + int B ^ 4 * int (s4 * m)"
    proof -
      have a0: "5 * int (u5 div 4) + int (x0 mod B) = int (u0 mod B) + int B * int (u0 div B)"
        using dm [of u0] by (simp add: u0_def B_def)
      have a1: "int (u0 div B) + int (x1 mod B) + int (x0 div B) = int (u1 mod B) + int B * int (u1 div B)"
        using dm [of u1] by (simp add: u1_def B_def)
      have a2: "int (u1 div B) + int (x2 mod B) + int (x1 div B) = int (u2 mod B) + int B * int (u2 div B)"
        using dm [of u2] by (simp add: u2_def B_def)
      have a3: "int (u2 div B) + int (x3 mod B) + int (x2 div B) = int (u3 mod B) + int B * int (u3 div B)"
        using dm [of u3] by (simp add: u3_def B_def)
      have "s4 * m + x3 div B = 4 * (u5 div 4) + u5 mod 4"
        unfolding mult_div_mod_eq by (simp add: u5_def B_def m_def)
      then have "int (s4 * m + x3 div B) = int (4 * (u5 div 4) + u5 mod 4)" by (simp only:)
      then have a4: "int (s4 * m) + int (x3 div B) = 4 * int (u5 div 4) + int (u5 mod 4)"
        by (simp only: of_nat_add of_nat_mult of_nat_numeral)
      have u4: "int u4 = int (u3 div B) + int (u5 mod 4)" unfolding u4_def B_def by (simp only: of_nat_add)
      show ?thesis
        using carry_identity [OF a0 a1 a2 a3 a4]
        unfolding dm [of x0, symmetric] dm [of x1, symmetric] dm [of x2, symmetric] dm [of x3, symmetric] p
        by (simp only: of_nat_add of_nat_mult u4)
    qed
    have "int (u0 mod B + B * (u1 mod B + B * (u2 mod B + B * (u3 mod B + B * u4))) + poly_p * (u5 div 4 + Q)) =
        int ((s0 + B * (s1 + B * (s2 + B * (s3 + B * s4)))) * (r0 + B * (r1 + B * (r2 + B * r3))))"
      using prod carry by (simp only: of_nat_add of_nat_mult distrib_left)
    then show ?thesis unfolding of_nat_eq_iff B_def by blast
  qed
  ultimately show ?thesis using u4 by blast
qed


text \<open>One round adds the block and multiplies, modulo \<open>2^130 - 5\<close>, and keeps the accumulator small.\<close>

lemma num_take_16: "16 \<le> length inp \<Longrightarrow> num (take 16 inp) =
    unat (load32_le inp) + 2 ^ 32 * (unat (load32_le (drop 4 inp)) + 2 ^ 32 * (unat (load32_le (drop 8 inp)) +
      2 ^ 32 * unat (load32_le (drop 12 inp))))"
  using num_load32_le_buf [of inp 4] by (simp add: load32_le_buf_def upt_bytes)

definition small_r :: "u32 list \<Rightarrow> bool" where
  "small_r r \<longleftrightarrow> length r = 4 \<and> (\<forall>x \<in> set r. unat x < 2 ^ 28) \<and> (\<forall>x \<in> set (tl r). 4 dvd unat x)"

definition small_h :: "u32 list \<Rightarrow> bool" where
  "small_h h \<longleftrightarrow> length h = 5 \<and> unat (h ! 4) \<le> 4"

lemma round_value:
  assumes "h' = [of_nat (u0 mod 2 ^ 32), of_nat (u1 mod 2 ^ 32), of_nat (u2 mod 2 ^ 32), of_nat (u3 mod 2 ^ 32), of_nat u4] \<and>
    u4 \<le> 4 \<and> (\<exists>k. u0 mod 2 ^ 32 + 2 ^ 32 * (u1 mod 2 ^ 32 + 2 ^ 32 * (u2 mod 2 ^ 32 + 2 ^ 32 * (u3 mod 2 ^ 32 + 2 ^ 32 * u4)))
       + poly_p * k = M)"
  shows "small_h h' \<and> num h' mod poly_p = M mod poly_p"
proof -
  have u: "unat (of_nat n :: u32) = n" if "n < 2 ^ 32" for n using that by (simp add: unat_of_nat)
  have m: "unat (of_nat (n mod 2 ^ 32) :: u32) = n mod 2 ^ 32" for n by (intro u) simp
  have "u4 < 2 ^ 32" using assms by simp
  note u4 = u [OF this]
  have "num h' = u0 mod 2 ^ 32 + 2 ^ 32 * (u1 mod 2 ^ 32 + 2 ^ 32 * (u2 mod 2 ^ 32 + 2 ^ 32 * (u3 mod 2 ^ 32 + 2 ^ 32 * u4)))"
    using assms by (elim conjE) (simp only: num.simps m u4, simp)
  moreover have "small_h h'" using assms u4 by (simp add: small_h_def)
  ultimately show ?thesis using assms by (elim conjE exE) (metis mod_mult_self2)
qed

lemma poly_round_num:
  assumes "small_r r" "small_h h" "e \<le> 1" "16 \<le> length inp"
  shows "small_h (poly_round r (of_nat e) inp h) \<and> num (poly_round r (of_nat e) inp h) mod poly_p =
    (num h + num (take 16 inp) + e * 2 ^ 128) * num r mod poly_p"
proof -
  have "length r = 4" "length h = 5" using assms(1,2) by (simp_all only: small_r_def small_h_def)
  then obtain b0 b1 b2 b3 a0 a1 a2 a3 a4 where r: "r = [b0, b1, b2, b3]" and h: "h = [a0, a1, a2, a3, a4]"
    by (auto simp: length_Suc_conv numeral_eq_Suc)
  have lt: "unat (x :: u32) < 2 ^ 32" for x using unsigned_less [of x, where ?'a = nat] by simp
  have w: "of_nat (unat x) = (x :: u32)" for x by simp
  have "4 dvd unat b1" "4 dvd unat b2" "4 dvd unat b3" using assms(1) by (simp_all add: small_r_def r)
  then obtain t1 t2 t3 where t: "unat b1 = 4 * t1" "unat b2 = 4 * t2" "unat b3 = 4 * t3" by (metis dvdE)
  have b: "unat b0 < 2 ^ 28" "unat b1 < 2 ^ 28" "unat b2 < 2 ^ 28" "unat b3 < 2 ^ 28"
    using assms(1) by (auto simp: small_r_def r)
  have a4: "unat a4 \<le> 4" using assms(2) by (simp add: small_h_def h)
  note R = poly_round_nat [where ?h0.0 = "unat a0" and ?h1.0 = "unat a1" and ?h2.0 = "unat a2" and ?h3.0 = "unat a3"
      and inp = inp, OF lt lt lt lt a4 w [symmetric] w [symmetric] w [symmetric] w [symmetric] lt lt lt lt assms(3) b t,
      unfolded w]
  have hb: "num h + num (take 16 inp) + e * 2 ^ 128 =
      unat a0 + unat (load32_le inp) + 2 ^ 32 * (unat a1 + unat (load32_le (drop 4 inp)) +
      2 ^ 32 * (unat a2 + unat (load32_le (drop 8 inp)) + 2 ^ 32 * (unat a3 + unat (load32_le (drop 12 inp)) +
      2 ^ 32 * (unat a4 + e))))"
    unfolding h num_take_16 [OF assms(4)] by simp
  have "num r = unat b0 + 2 ^ 32 * (unat b1 + 2 ^ 32 * (unat b2 + 2 ^ 32 * unat b3))" unfolding r by simp
  then show ?thesis unfolding hb using round_value [OF R] by (simp only: r h)
qed

section \<open>The incremental interface\<close>

lemma gap_16: "x < 16 \<Longrightarrow> gap x 16 = (16 - x) mod 16"
proof -
  assume "x < 16"
  moreover have "list_all (\<lambda>x. gap x 16 = (16 - x) mod 16) [0..<16]" by code_simp
  ultimately show ?thesis by (simp only: list_all_iff set_upt) (meson atLeastLessThan_iff le0)
qed

lemma load32_le_take: "load32_le (take n s) = load32_le s" if "4 \<le> n"
proof (rule unsigned_word_eqI [where ?'a = nat])
  show "unat (load32_le (take n s)) = unat (load32_le s)"
    using that by (simp only: unat_load32_le num_byte_at take_take min_absorb1)
qed

lemma poly_round_take: "poly_round r e (take 16 inp) h = poly_round r e inp h"
proof -
  have "load32_le (take 16 inp) = load32_le inp" "load32_le (drop 4 (take 16 inp)) = load32_le (drop 4 inp)"
    "load32_le (drop 8 (take 16 inp)) = load32_le (drop 8 inp)" "load32_le (drop 12 (take 16 inp)) = load32_le (drop 12 inp)"
    by (simp_all add: drop_take load32_le_take)
  then show ?thesis by (simp only: poly_round_def)
qed

text \<open>The accumulator after the first \<open>n\<close> blocks of a message; what the context holds of the message so far.\<close>

definition poly_acc :: "u32 list \<Rightarrow> nat \<Rightarrow> bytes \<Rightarrow> u32 list" where
  "poly_acc r n m = foldl (\<lambda>h i. poly_round r 1 (drop (16 * i) m) h) (replicate 5 0) [0..<n]"

definition absorbed :: "bytes \<Rightarrow> bytes \<Rightarrow> nat \<Rightarrow> poly1305_ctx \<Rightarrow> bool" where
  "absorbed key m n ctx \<longleftrightarrow> pc_r ctx = pc_r (crypto_poly1305_init key) \<and>
     pc_pad ctx = pc_pad (crypto_poly1305_init key) \<and> length (pc_c ctx) = 16 \<and> pc_c_idx ctx \<le> 16 \<and>
     length m = 16 * n + pc_c_idx ctx \<and> take (pc_c_idx ctx) (pc_c ctx) = drop (16 * n) m \<and>
     pc_h ctx = poly_acc (pc_r ctx) n m"

lemma poly_acc_append: "16 * n \<le> length m \<Longrightarrow> poly_acc r n (m @ x) = poly_acc r n m"
proof -
  assume n: "16 * n \<le> length m"
  have "poly_round r 1 (drop (16 * i) (m @ x)) h = poly_round r 1 (drop (16 * i) m) h" if "i < n" for i h
  proof -
    have "take 16 (drop (16 * i) (m @ x)) = take 16 (drop (16 * i) m)" using n that by simp
    then show ?thesis by (metis poly_round_take)
  qed
  then show ?thesis unfolding poly_acc_def by (intro foldl_cong) auto
qed

lemma absorbed_init: "absorbed key [] 0 (crypto_poly1305_init key)"
  by (simp add: absorbed_def poly_acc_def crypto_poly1305_init_def Let_def)

lemma absorbed_keep:
  assumes "absorbed key m n ctx" "pc_c_idx ctx + length x \<le> 16"
  shows "absorbed key (m @ x) n (poly_keep ctx x)"
  using assms by (auto simp: absorbed_def poly_keep_def mem_write_def poly_acc_append)

lemma absorbed_full:
  assumes "absorbed key m n ctx" "pc_c_idx ctx = 16"
  shows "absorbed key m (Suc n) ((poly_blocks ctx (pc_c ctx) 1 1) \<lparr> pc_c_idx := 0 \<rparr>)"
  using assms by (auto simp: absorbed_def poly_blocks_def poly_acc_def)

lemma poly_acc_blocks:
  assumes "length m = 16 * n"
  shows "16 * k \<le> length x \<Longrightarrow> poly_acc r (n + k) (m @ take (16 * k) x) =
    foldl (\<lambda>h i. poly_round r 1 (drop (16 * i) x) h) (poly_acc r n m) [0..<k]"
proof -
  assume k: "16 * k \<le> length x"
  have "poly_acc r (n + j) (m @ x) = foldl (\<lambda>h i. poly_round r 1 (drop (16 * i) x) h) (poly_acc r n m) [0..<j]" for j
  proof (induction j)
    case 0
    then show ?case using assms by (simp add: poly_acc_append)
  next
    case (Suc j)
    have "poly_acc r (n + Suc j) (m @ x) = poly_round r 1 (drop (16 * (n + j)) (m @ x)) (poly_acc r (n + j) (m @ x))"
      by (simp add: poly_acc_def)
    also have "drop (16 * (n + j)) (m @ x) = drop (16 * j) x" using assms by (simp add: distrib_left)
    finally show ?case using Suc by simp
  qed
  moreover have "poly_acc r (n + k) (m @ take (16 * k) x @ drop (16 * k) x) = poly_acc r (n + k) (m @ take (16 * k) x)"
    using poly_acc_append [of "n + k" "m @ take (16 * k) x" r "drop (16 * k) x"] assms k by simp
  ultimately show ?thesis by simp
qed

lemma absorbed_blocks:
  assumes "absorbed key m n ctx" "pc_c_idx ctx = 0" "16 * k \<le> length x"
  shows "absorbed key (m @ take (16 * k) x) (n + k) (poly_blocks ctx x k 1)"
  using assms poly_acc_blocks [of m n k x] by (auto simp: absorbed_def poly_blocks_def)

lemma poly_blocks_idx [simp]: "pc_c_idx (poly_blocks ctx x k e) = pc_c_idx ctx"
  by (simp add: poly_blocks_def)

lemma poly_keep_idx [simp]: "pc_c_idx (poly_keep ctx x) = pc_c_idx ctx + length x"
  by (simp add: poly_keep_def)

text \<open>An update is: fill the block, flush it when it is full, take the whole blocks, keep the rest.\<close>

lemma absorbed_update:
  assumes "absorbed key m n ctx" "pc_c_idx ctx < 16"
  shows "\<exists>n'. absorbed key (m @ x) n' (crypto_poly1305_update ctx x) \<and> pc_c_idx (crypto_poly1305_update ctx x) < 16"
proof (cases "x = []")
  case True
  then show ?thesis using assms by (auto simp: crypto_poly1305_update_def)
next
  case False
  let ?k = "pc_c_idx ctx"
  define a where "a = min (gap ?k 16) (length x)"
  define c1 where "c1 = poly_keep ctx (take a x)"
  define c2 where "c2 = (if pc_c_idx c1 = 16 then (poly_blocks c1 (pc_c c1) 1 1) \<lparr> pc_c_idx := 0 \<rparr> else c1)"
  define y where "y = drop a x"
  define q where "q = length y div 16"
  have run: "crypto_poly1305_update ctx x = poly_keep (poly_blocks c2 y q 1) (drop (16 * q) y)"
    using False by (simp add: crypto_poly1305_update_def Let_def a_def c1_def c2_def y_def q_def)
  have g: "gap ?k 16 = (if ?k = 0 then 0 else 16 - ?k)" using gap_16 [OF assms(2)] by simp
  have i1: "pc_c_idx c1 = ?k + a" by (simp add: c1_def a_def)
  have "a \<le> 16 - ?k" unfolding a_def g by (rule min.coboundedI1) simp
  then have a_le: "?k + a \<le> 16" using assms(2) by simp
  have h1: "absorbed key (m @ take a x) n c1"
    unfolding c1_def using a_le by (intro absorbed_keep [OF assms(1)]) simp
  then obtain n2 where h2: "absorbed key (m @ take a x) n2 c2"
    using absorbed_full [OF h1] by (cases "pc_c_idx c1 = 16") (auto simp: c2_def)
  have i2: "pc_c_idx c2 = 0 \<or> y = []" "pc_c_idx c2 < 16"
    using a_le assms(2) gap_16 [of 0] by (auto simp: c2_def i1 a_def g y_def split: if_splits)
  show ?thesis
  proof (cases "y = []")
    case True
    then have "poly_blocks c2 y q 1 = c2" "drop (16 * q) y = []" "m @ x = m @ take a x"
      by (simp_all add: q_def poly_blocks_def y_def)
    then show ?thesis using h2 i2(2) absorbed_keep [OF h2, of "[]"] unfolding run by auto
  next
    case False
    then have z: "pc_c_idx c2 = 0" using i2 by blast
    have q: "16 * q \<le> length y" "length (drop (16 * q) y) < 16" by (simp_all add: q_def minus_mult_div_eq_mod)
    have h3: "absorbed key ((m @ take a x) @ take (16 * q) y) (n2 + q) (poly_blocks c2 y q 1)"
      by (rule absorbed_blocks [OF h2 z q(1)])
    have "absorbed key (((m @ take a x) @ take (16 * q) y) @ drop (16 * q) y) (n2 + q) (crypto_poly1305_update ctx x)"
      unfolding run using q(2) z by (intro absorbed_keep [OF h3]) simp
    moreover have "((m @ take a x) @ take (16 * q) y) @ drop (16 * q) y = m @ x"
      by (simp only: append_assoc append_take_drop_id y_def)
    moreover have "pc_c_idx (crypto_poly1305_update ctx x) < 16" unfolding run using q(2) z by simp
    ultimately show ?thesis by metis
  qed
qed

lemma absorbed_updates:
  "\<exists>n. absorbed key (concat ms) n (foldl crypto_poly1305_update (crypto_poly1305_init key) ms) \<and>
     pc_c_idx (foldl crypto_poly1305_update (crypto_poly1305_init key) ms) < 16"
proof (induction ms rule: rev_induct)
  case Nil
  then show ?case using absorbed_init [of key] by (auto simp: crypto_poly1305_init_def Let_def)
next
  case (snoc x ms)
  then show ?case using absorbed_update by fastforce
qed

section \<open>The value\<close>

lemma poly_sum_snoc: "poly_sum r (bs @ [b]) = (poly_sum r bs + num (b @ [1])) * r mod poly_p"
  by (simp add: poly_sum_def)

lemma poly_sum_mod: "poly_sum r bs mod poly_p = poly_sum r bs"
  by (cases bs rule: rev_cases) (simp_all add: poly_sum_snoc, simp add: poly_sum_def)

lemma num_snoc_one: "length b = 16 \<Longrightarrow> num (b @ [1 :: byte]) = num b + 2 ^ 128"
  by (simp add: num_append)

lemma poly_acc_num:
  assumes "small_r r" "16 * n \<le> length m"
  shows "small_h (poly_acc r n m) \<and>
    num (poly_acc r n m) mod poly_p = poly_sum (num r) (map (\<lambda>i. take 16 (drop (16 * i) m)) [0..<n])"
  using assms(2)
proof (induction n)
  case 0
  then show ?case by (simp add: poly_acc_def poly_sum_def small_h_def)
next
  case (Suc n)
  let ?b = "take 16 (drop (16 * n) m)" and ?h = "poly_acc r n m"
  have IH: "small_h ?h" "num ?h mod poly_p = poly_sum (num r) (map (\<lambda>i. take 16 (drop (16 * i) m)) [0..<n])"
    using Suc by simp_all
  have b: "16 \<le> length (drop (16 * n) m)" "length ?b = 16" using Suc.prems by simp_all
  have acc: "poly_acc r (Suc n) m = poly_round r (of_nat 1) (drop (16 * n) m) ?h" by (simp add: poly_acc_def)
  have "small_h (poly_acc r (Suc n) m)" "num (poly_acc r (Suc n) m) mod poly_p = (num ?h + num ?b + 1 * 2 ^ 128) * num r mod poly_p"
    using poly_round_num [OF assms(1) IH(1), of 1 "drop (16 * n) m"] b(1) unfolding acc by simp_all
  moreover have "(num ?h + num ?b + 1 * 2 ^ 128) * num r mod poly_p = (num ?h mod poly_p + num (?b @ [1])) * num r mod poly_p"
    unfolding num_snoc_one [OF b(2)] mult_1 add.assoc by (metis mod_add_left_eq mod_mult_left_eq)
  ultimately show ?case by (simp add: IH(2) poly_sum_snoc)
qed

text \<open>The multiplier is the clamped half of the key.\<close>

lemma and_less: "b < 2 ^ k \<Longrightarrow> a AND b < 2 ^ k" for a b :: nat
proof -
  assume "b < 2 ^ k"
  then have "take_bit k b = b" by (rule take_bit_nat_eq_self)
  then have "a AND b = take_bit k (a AND b)" by (auto simp: bit_eq_iff bit_simps)
  then show ?thesis by (metis take_bit_nat_less_exp)
qed

lemma and_digits:
  fixes a b c d :: nat
  assumes "a < 2 ^ k" "b < 2 ^ k"
  shows "(a + 2 ^ k * c) AND (b + 2 ^ k * d) = (a AND b) + 2 ^ k * (c AND d)"
proof -
  have ab: "a AND b < 2 ^ k" by (rule and_less [OF assms(2)])
  have "\<not> bit x n" if "x < 2 ^ k" "k \<le> n" for x n :: nat
    using that by (metis bit_take_bit_iff not_le take_bit_nat_eq_self)
  then have "(a OR push_bit k c) AND (b OR push_bit k d) = (a AND b) OR push_bit k (c AND d)"
    using assms by (intro bit_eqI) (auto simp: bit_simps not_le)
  then show ?thesis by (simp only: or_push_bit_nat assms ab)
qed

lemma num_and: "length xs = length ys \<Longrightarrow> num (map2 (AND) xs ys) = num xs AND num (ys :: u32 list)"
proof (induction xs ys rule: list_induct2)
  case (Cons x xs y ys)
  have "unat (z :: u32) < 2 ^ 32" for z using unsigned_less [of z, where ?'a = nat] by simp
  from and_digits [OF this this] show ?case using Cons.IH by (simp add: unsigned_and_eq)
qed simp

lemma init_words:
  "pc_r (crypto_poly1305_init key) =
     map2 (AND) (load32_le_buf key 4) [0x0fffffff, 0x0ffffffc, 0x0ffffffc, 0x0ffffffc]"
proof -
  obtain a b c d where "load32_le_buf key 4 = [a, b, c, d]"
    by (simp add: load32_le_buf_def upt_bytes)
  then show ?thesis by (simp add: crypto_poly1305_init_def Let_def upt_rec numeral_2_eq_2 numeral_3_eq_3)
qed

lemma masked: "unat (w AND 0x0fffffff :: u32) < 2 ^ 28" "unat (w AND 0x0ffffffc :: u32) < 2 ^ 28"
  "4 dvd unat (w AND 0x0ffffffc :: u32)"
proof -
  have "unat (w AND 0x0fffffff) = unat w AND 0x0fffffff" "unat (w AND 0x0ffffffc) = unat w AND 0x0ffffffc"
    by (simp_all only: unsigned_and_eq) simp_all
  note u = this
  show "unat (w AND 0x0fffffff :: u32) < 2 ^ 28" "unat (w AND 0x0ffffffc :: u32) < 2 ^ 28"
    unfolding u by (rule and_less, simp)+
  have "take_bit 2 (unat w AND 0x0ffffffc) = take_bit 2 (unat w) AND take_bit 2 0x0ffffffc" by (rule take_bit_and)
  also have "take_bit 2 (0x0ffffffc :: nat) = 0" by (simp add: take_bit_eq_mod)
  finally show "4 dvd unat (w AND 0x0ffffffc :: u32)" unfolding u by (simp add: take_bit_eq_mod dvd_eq_mod_eq_0)
qed

lemma init_r: "small_r (pc_r (crypto_poly1305_init key))" "num (pc_r (crypto_poly1305_init key)) = poly_r key"
proof -
  obtain a b c d where w: "load32_le_buf key 4 = [a, b, c, d]"
    by (simp add: load32_le_buf_def upt_bytes)
  show "small_r (pc_r (crypto_poly1305_init key))"
    unfolding init_words w using masked by (simp add: small_r_def)
  have "num [0x0fffffff, 0x0ffffffc, 0x0ffffffc, 0x0ffffffc :: u32] = 0x0ffffffc0ffffffc0ffffffc0fffffff" by simp
  then show "num (pc_r (crypto_poly1305_init key)) = poly_r key"
    unfolding init_words poly_r_def using num_and [of "load32_le_buf key 4" "[0x0fffffff, 0x0ffffffc, 0x0ffffffc, 0x0ffffffc]"]
    by (simp add: num_load32_le_buf)
qed

text \<open>The accumulator after the last block, which may be short.\<close>

definition last_acc :: "poly1305_ctx \<Rightarrow> u32 list" where
  "last_acc ctx = pc_h (if pc_c_idx ctx \<noteq> 0 then
     let c = mem_write (pc_c_idx ctx) (replicate (16 - pc_c_idx ctx) 0) (pc_c ctx);
         c = c[pc_c_idx ctx := 1]
     in poly_blocks (ctx \<lparr> pc_c := c \<rparr>) c 1 0 else ctx)"

lemma chunks_of:
  assumes "length m = 16 * n + k" "k < 16"
  shows "poly_chunks m = map (\<lambda>i. take 16 (drop (16 * i) m)) [0..<n] @ (if k = 0 then [] else [drop (16 * n) m])"
proof (cases "k = 0")
  case True
  have "(16 * n + 15) div 16 = n" by simp
  then show ?thesis using assms True by (simp add: poly_chunks_def)
next
  case False
  then have "(16 * n + (k + 15)) div 16 = n + (k + 15) div 16" "(k + 15) div 16 = 1"
    using assms(2) by (auto intro: div_nat_eqI)
  then have "(length m + 15) div 16 = Suc n" using assms(1) by (simp add: add.assoc)
  then show ?thesis using False assms by (simp add: poly_chunks_def)
qed

lemma last_block:
  assumes "length c = 16" "k < 16" "k \<noteq> 0"
  shows "(mem_write k (replicate (16 - k) 0) c)[k := 1] = take k c @ 1 # replicate (15 - k) (0 :: byte)"
  using assms by (intro nth_equalityI) (auto simp: mem_write_def nth_append nth_list_update nth_Cons')

lemma last_acc_num:
  assumes "absorbed key m n ctx" "pc_c_idx ctx < 16"
  shows "small_h (last_acc ctx) \<and> num (last_acc ctx) mod poly_p = poly_sum (poly_r key) (poly_chunks m)"
proof -
  let ?k = "pc_c_idx ctx" and ?r = "pc_r (crypto_poly1305_init key)"
  have a: "pc_r ctx = ?r" "length (pc_c ctx) = 16" "length m = 16 * n + ?k" "take ?k (pc_c ctx) = drop (16 * n) m"
    "pc_h ctx = poly_acc ?r n m" using assms(1) by (auto simp: absorbed_def)
  let ?h = "poly_acc ?r n m" and ?bs = "map (\<lambda>i. take 16 (drop (16 * i) m)) [0..<n]"
  have h: "small_h ?h" "num ?h mod poly_p = poly_sum (poly_r key) ?bs"
    using poly_acc_num [OF init_r(1), of n m key] a(3) by (simp_all add: init_r(2))
  have chunks: "poly_chunks m = ?bs @ (if ?k = 0 then [] else [drop (16 * n) m])"
    by (rule chunks_of [OF a(3) assms(2)])
  show ?thesis
  proof (cases "?k = 0")
    case True
    then show ?thesis using h a chunks by (simp add: last_acc_def)
  next
    case False
    let ?c = "drop (16 * n) m @ 1 # replicate (15 - ?k) 0"
    have c: "length ?c = 16" "take 16 ?c = ?c" using a(3) assms(2) by simp_all
    have num_c: "num ?c = num (drop (16 * n) m @ [1])" by (simp add: num_append)
    have l: "last_acc ctx = poly_round ?r (of_nat 0) ?c ?h"
      using False last_block [OF a(2) assms(2) False] a by (simp add: last_acc_def Let_def poly_blocks_def)
    have "num ?h mod poly_p = num ?h mod poly_p" ..
    have "(num ?h + num ?c + 0 * 2 ^ 128) * poly_r key mod poly_p =
        (num ?h mod poly_p + num (drop (16 * n) m @ [1])) * poly_r key mod poly_p"
      unfolding num_c mult_0 add_0_right by (metis mod_add_left_eq mod_mult_left_eq)
    then show ?thesis
      using poly_round_num [OF init_r(1) h(1), of 0 ?c key] c False
      unfolding l init_r(2) c(2) chunks by (simp add: poly_sum_snoc h(2))
  qed
qed

text \<open>The final addition: the carry of \<open>h + 5\<close> decides whether \<open>2^130 - 5\<close> is subtracted.\<close>

lemma carry_word:
  assumes "c < 2 ^ 32"
  shows "drop_bit 32 (of_nat c + ucast (w :: u32)) = (of_nat ((c + unat w) div 2 ^ 32) :: u64)"
    "(c + unat w) div 2 ^ 32 < 2 ^ 32"
proof -
  have w: "unat w < 2 ^ 32" using unsigned_less [of w, where ?'a = nat] by simp
  have "of_nat c + ucast w = (of_nat (c + unat w) :: u64)" by simp
  moreover have "c + unat w < 2 ^ 64" using assms w by simp
  ultimately show "drop_bit 32 (of_nat c + ucast w) = (of_nat ((c + unat w) div 2 ^ 32) :: u64)"
    by (simp only: drop_of_nat(1))
  show "(c + unat w) div 2 ^ 32 < 2 ^ 32" using assms w by (simp add: div_less_iff_less_mult)
qed

lemma carry_foldl_gen:
  assumes "c < 2 ^ 32"
  shows "foldl (\<lambda>c w. drop_bit 32 (c + ucast w)) (of_nat c :: u64) ws = of_nat ((c + num (ws :: u32 list)) div 2 ^ (32 * length ws))"
  using assms
proof (induction ws arbitrary: c)
  case (Cons w ws)
  let ?c = "(c + unat w) div 2 ^ 32"
  have "(?c + num ws) div 2 ^ (32 * length ws) = (c + unat w + 2 ^ 32 * num ws) div 2 ^ 32 div 2 ^ (32 * length ws)"
    by (simp add: add.commute)
  also have "\<dots> = (c + num (w # ws)) div 2 ^ (32 * length (w # ws))"
    by (simp only: div_mult2_eq [symmetric] power_32_Suc num_u32_Cons add.assoc)
  finally show ?case using Cons.IH [OF carry_word(2) [OF Cons.prems, of w]] carry_word(1) [OF Cons.prems, of w] by simp
qed simp

lemma carry_foldl:
  fixes h :: "u32 list"
  assumes "length h = 5"
  shows "foldl (\<lambda>c i. drop_bit 32 (c + ucast (h ! i))) (5 :: u64) [0..<4] = of_nat ((num (take 4 h) + 5) div 2 ^ 128)"
proof -
  have "take 4 h = map ((!) h) [0..<4]" using assms by (intro nth_equalityI) simp_all
  then show ?thesis using carry_foldl_gen [of 5 "take 4 h"] assms by (simp add: foldl_map add.commute)
qed

lemma final_number:
  assumes "small_h h"
  shows "(num (take 4 h) + 5 * (((num (take 4 h) + 5) div 2 ^ 128 + unat (h ! 4)) div 4)) mod 2 ^ 128 =
    num h mod poly_p mod 2 ^ 128"
proof -
  let ?lo = "num (take 4 h)" and ?n = "num h"
  have lo: "?lo < 2 ^ 128" using num_less [of "take 4 h"] assms by (simp add: small_h_def)
  have "h = take 4 h @ [h ! 4]"
    using assms by (intro nth_equalityI) (auto simp: small_h_def nth_append less_Suc_eq numeral_eq_Suc)
  then have n: "?n = ?lo + 2 ^ 128 * unat (h ! 4)"
    using num_append [of "take 4 h" "[h ! 4]"] assms by (simp add: small_h_def)
  have h4: "unat (h ! 4) \<le> 4" using assms by (simp add: small_h_def)
  have "((?lo + 5) div 2 ^ 128 + unat (h ! 4)) div 4 = (?n + 5) div 2 ^ 128 div 4"
    unfolding n by (simp add: add.assoc)
  also have "\<dots> = (?n + 5) div 2 ^ 130" by (simp add: div_mult2_eq [symmetric])
  finally have c: "((?lo + 5) div 2 ^ 128 + unat (h ! 4)) div 4 = (?n + 5) div 2 ^ 130" .
  have mods: "(?lo + x) mod 2 ^ 128 = (?n + x) mod 2 ^ 128" for x
  proof -
    have "?n + x = ?lo + x + 2 ^ 128 * unat (h ! 4)" unfolding n by simp
    then show ?thesis by (simp only: mod_mult_self2)
  qed
  show ?thesis
  proof (cases "?n + 5 < 2 ^ 130")
    case True
    then show ?thesis unfolding c mods by (simp add: poly_p_def)
  next
    case False
    have "?n < 5 * 2 ^ 128" unfolding n using lo h4 by simp
    then have "(?n + 5) div 2 ^ 130 = 1" "?n mod poly_p = ?n + 5 - 2 ^ 130"
      using False by (auto simp: poly_p_def mod_if intro!: div_nat_eqI)
    moreover have "(?n + 5 - 2 ^ 130) mod 2 ^ 128 = (?n + 5) mod 2 ^ 128"
    proof -
      have "?n + 5 = ?n + 5 - 2 ^ 130 + 4 * 2 ^ 128" using False by simp
      then show ?thesis by (metis mod_mult_self1)
    qed
    ultimately show ?thesis unfolding c mods by simp
  qed
qed

lemma bytes_of_num: "length bs = n \<Longrightarrow> bs = map (\<lambda>i. of_nat (num bs div 256 ^ i)) [0..<n]" for bs :: bytes
proof (rule nth_equalityI)
  fix i assume "length bs = n" "i < length bs"
  then have d: "drop i bs = bs ! i # drop (Suc i) bs" by (simp add: Cons_nth_drop_Suc)
  have "num bs div 256 ^ i = num (drop i bs)" by (simp add: num_drop power_mult)
  also have "(of_nat (num (drop i bs)) :: byte) = bs ! i"
  proof -
    have z: "(256 :: byte) = 0" by simp
    show ?thesis unfolding d by (simp add: z)
  qed
  finally show "bs ! i = map (\<lambda>i. of_nat (num bs div 256 ^ i)) [0..<n] ! i"
    using \<open>length bs = n\<close> \<open>i < length bs\<close> by simp
qed simp

lemma final_value:
  assumes "absorbed key m n ctx" "pc_c_idx ctx < 16"
  shows "crypto_poly1305_final ctx = poly1305 key m"
proof -
  let ?h = "last_acc ctx" and ?pad = "load32_le_buf (drop 16 key) 4"
  have h: "small_h ?h" "num ?h mod poly_p = poly_sum (poly_r key) (poly_chunks m)"
    using last_acc_num [OF assms] by blast+
  have pad: "pc_pad ctx = ?pad" using assms(1) by (simp add: absorbed_def crypto_poly1305_init_def Let_def)
  define c where "c = (num (take 4 ?h) + 5) div 2 ^ 128 + unat (?h ! 4)"
  have lh: "length ?h = 5" using h(1) by (simp add: small_h_def)
  have "num (take 4 ?h) < 2 ^ 128" using num_less [of "take 4 ?h"] lh by simp
  then have "(num (take 4 ?h) + 5) div 2 ^ 128 \<le> 1" by simp
  then have c5: "c \<le> 5" using h(1) by (simp add: c_def small_h_def)
  have word: "drop_bit 2 (foldl (\<lambda>c i. drop_bit 32 (c + ucast (?h ! i))) (5 :: u64) [0..<4] + ucast (?h ! 4)) * 5 =
      of_nat (5 * (c div 4))"
  proof -
    have "of_nat ((num (take 4 ?h) + 5) div 2 ^ 128) + ucast (?h ! 4) = (of_nat c :: u64)" by (simp add: c_def)
    then show ?thesis using c5 by (simp add: carry_foldl [OF lh] drop_of_nat)
  qed
  obtain r carry where r: "add_carry (of_nat (5 * (c div 4))) (take 4 ?h) ?pad = (r, carry)" by fastforce
  have "unat (of_nat (5 * (c div 4)) :: u64) = 5 * (c div 4)" using c5 by (intro unat_of_nat_u64) simp
  then have s: "length r = 4" "num r + 2 ^ 128 * unat carry = 5 * (c div 4) + num (take 4 ?h) + num ?pad"
    using add_carry_num [OF _ _ r] lh c5 by simp_all
  have "num r < 2 ^ 128" using num_less [of r] s(1) by simp
  then have "num r = (num r + 2 ^ 128 * unat carry) mod 2 ^ 128" by simp
  also have "\<dots> = (num (take 4 ?h) + 5 * (c div 4) + num ?pad) mod 2 ^ 128" unfolding s(2) by (simp add: add.commute)
  also have "\<dots> = (num ?h mod poly_p + num ?pad) mod 2 ^ 128"
    using final_number [OF h(1)] unfolding c_def by (metis mod_add_left_eq)
  finally have "num (store32_le_buf r) = (poly_sum (poly_r key) (poly_chunks m) + num (take 16 (drop 16 key))) mod 2 ^ 128"
    by (simp add: num_store32_le_buf h(2) num_load32_le_buf)
  moreover have "crypto_poly1305_final ctx = store32_le_buf r"
  proof -
    have "crypto_poly1305_final ctx = store32_le_buf (fst (add_carry
        (drop_bit 2 (foldl (\<lambda>c i. drop_bit 32 (c + ucast (?h ! i))) (5 :: u64) [0..<4] + ucast (?h ! 4)) * 5)
        (take 4 ?h) (pc_pad ctx)))"
      unfolding crypto_poly1305_final_def last_acc_def Let_def by (simp add: poly_blocks_def)
    then show ?thesis unfolding word pad r by simp
  qed
  ultimately show ?thesis
    using bytes_of_num [of "store32_le_buf r" 16] s(1) by (simp add: poly1305_def)
qed

lemma poly1305_updates:
  "crypto_poly1305_final (foldl crypto_poly1305_update (crypto_poly1305_init key) ms) = poly1305 key (concat ms)"
  using absorbed_updates [of key ms] final_value by blast

interpretation poly: incremental_hash "crypto_poly1305_init key" crypto_poly1305_update crypto_poly1305_final
    "poly1305 key" for key
  by unfold_locales (rule poly1305_updates)

section \<open>Properties\<close>

text \<open>
  C34. However a message is cut into the pieces of successive updates, the tag is that of RFC 8439: the polynomial in
  the clamped key over the blocks of the message, modulo \<open>2^130 - 5\<close>, plus the second half of the key.  The
  partial reductions of the code, its carries and its final subtraction lose nothing.
\<close>

theorem poly1305_incremental:
  "crypto_poly1305_final (foldl crypto_poly1305_update (crypto_poly1305_init key) ms) = poly1305 key (concat ms)"
  by (rule poly1305_updates)

lemma crypto_poly1305_eq: "crypto_poly1305 message key = poly1305 key message"
  unfolding crypto_poly1305_def by (rule poly.one_piece)

lemma length_poly1305 [simp]: "length (poly1305 key m) = 16"
  by (simp add: poly1305_def Let_def)

end
