(* ===== verification/Aead.thy ===== *)
theory Aead
  imports Chacha20 Poly1305
begin

text \<open>
  Authenticated encryption of \<open>support/crypto/monocypher.c\<close>: ChaCha20 under a key that changes with every message,
  and Poly1305 over the additional data, the ciphertext and their lengths.  The functions that encrypt return
  the ciphertext and the tag; those that decrypt return \<open>0\<close> and the plaintext or \<open>-1\<close> and nothing, as the code
  leaves the output untouched then.
\<close>

section \<open>The operations\<close>

record aead_ctx =
  ac_counter :: u64
  ac_key :: bytes
  ac_nonce :: bytes

definition lock_auth :: "bytes \<Rightarrow> bytes \<Rightarrow> bytes \<Rightarrow> bytes" where
  "lock_auth auth_key ad cipher_text =
     (let sizes = store64_le (of_nat (length ad)) @ store64_le (of_nat (length cipher_text));
          ctx = crypto_poly1305_init auth_key;
          ctx = crypto_poly1305_update ctx ad;
          ctx = crypto_poly1305_update ctx (replicate (gap (length ad) 16) 0);
          ctx = crypto_poly1305_update ctx cipher_text;
          ctx = crypto_poly1305_update ctx (replicate (gap (length cipher_text) 16) 0);
          ctx = crypto_poly1305_update ctx sizes
      in crypto_poly1305_final ctx)"

definition crypto_aead_init_x :: "bytes \<Rightarrow> bytes \<Rightarrow> aead_ctx" where
  "crypto_aead_init_x key nonce =
     \<lparr> ac_counter = 0, ac_key = crypto_chacha20_h key nonce, ac_nonce = take 8 (drop 16 nonce) \<rparr>"

definition crypto_aead_init_djb :: "bytes \<Rightarrow> bytes \<Rightarrow> aead_ctx" where
  "crypto_aead_init_djb key nonce = \<lparr> ac_counter = 0, ac_key = take 32 key, ac_nonce = take 8 nonce \<rparr>"

definition crypto_aead_init_ietf :: "bytes \<Rightarrow> bytes \<Rightarrow> aead_ctx" where
  "crypto_aead_init_ietf key nonce = \<lparr> ac_counter = push_bit 32 (ucast (load32_le nonce)),
     ac_key = take 32 key, ac_nonce = take 8 (drop 4 nonce) \<rparr>"

definition crypto_aead_write :: "aead_ctx \<Rightarrow> bytes \<Rightarrow> bytes \<Rightarrow> bytes \<times> bytes \<times> aead_ctx" where
  "crypto_aead_write ctx ad plain_text =
     (let (auth_key, _) = crypto_chacha20_djb None 64 (ac_key ctx) (ac_nonce ctx) (ac_counter ctx);
          (cipher_text, _) = crypto_chacha20_djb (Some plain_text) (length plain_text) (ac_key ctx) (ac_nonce ctx)
                               (ac_counter ctx + 1);
          mac = lock_auth auth_key ad cipher_text
      in (cipher_text, mac, ctx \<lparr> ac_key := take 32 (drop 32 auth_key) \<rparr>))"

definition crypto_aead_read :: "aead_ctx \<Rightarrow> bytes \<Rightarrow> bytes \<Rightarrow> bytes \<Rightarrow> int \<times> bytes option \<times> aead_ctx" where
  "crypto_aead_read ctx mac ad cipher_text =
     (let (auth_key, _) = crypto_chacha20_djb None 64 (ac_key ctx) (ac_nonce ctx) (ac_counter ctx);
          real_mac = lock_auth auth_key ad cipher_text;
          mismatch = crypto_verify16 mac real_mac
      in if mismatch = 0 then
           let (plain_text, _) = crypto_chacha20_djb (Some cipher_text) (length cipher_text) (ac_key ctx) (ac_nonce ctx)
                                   (ac_counter ctx + 1)
           in (mismatch, Some plain_text, ctx \<lparr> ac_key := take 32 (drop 32 auth_key) \<rparr>)
         else (mismatch, None, ctx))"

definition crypto_aead_lock :: "bytes \<Rightarrow> bytes \<Rightarrow> bytes \<Rightarrow> bytes \<Rightarrow> bytes \<times> bytes" where
  "crypto_aead_lock key nonce ad plain_text =
     (let ctx = crypto_aead_init_x key nonce;
          (cipher_text, mac, ctx) = crypto_aead_write ctx ad plain_text
      in (cipher_text, mac))"

definition crypto_aead_unlock :: "bytes \<Rightarrow> bytes \<Rightarrow> bytes \<Rightarrow> bytes \<Rightarrow> bytes \<Rightarrow> int \<times> bytes option" where
  "crypto_aead_unlock mac key nonce ad cipher_text =
     (let ctx = crypto_aead_init_x key nonce;
          (mismatch, plain_text, ctx) = crypto_aead_read ctx mac ad cipher_text
      in (mismatch, plain_text))"

section \<open>The tag\<close>

text \<open>What is authenticated: additional data and ciphertext, each padded to whole blocks, and their lengths.\<close>

definition pad_block :: "bytes \<Rightarrow> bytes" where
  "pad_block m = m @ replicate ((16 - length m mod 16) mod 16) 0"

definition aead_tag :: "bytes \<Rightarrow> bytes \<Rightarrow> bytes \<Rightarrow> bytes" where
  "aead_tag auth_key ad cipher_text = poly1305 auth_key (pad_block ad @ pad_block cipher_text @
     store64_le (of_nat (length ad)) @ store64_le (of_nat (length cipher_text)))"

lemma gap_pad: "gap n 16 = (16 - n mod 16) mod 16"
proof -
  define x where "x = (of_nat n :: u32)"
  have a: "unat x = n mod 2 ^ 32" unfolding x_def by (simp only: unat_of_nat) simp
  then have less: "unat x < 2 ^ 32" by simp
  have "(of_nat 16 - 1 :: u32) = mask 4" by (simp add: mask_eq_exp_minus_1)
  then have "gap n 16 = unat (NOT x + 1) mod 2 ^ 4"
    by (simp only: gap_def x_def [symmetric] take_bit_eq_mask [symmetric] unsigned_take_bit_eq) (simp only: take_bit_eq_mod)
  also have "\<dots> = (2 ^ 32 - unat x) mod 2 ^ 32 mod 2 ^ 4"
    using less by (simp add: unat_word_ariths unat_not_u32 Suc_diff_le [symmetric])
  also have "\<dots> = (2 ^ 32 - unat x) mod 16" by (simp add: mod_mod_cancel)
  also have "\<dots> = (16 - unat x mod 16) mod 16"
  proof -
    define q r where "q = unat x div 16" and "r = unat x mod 16"
    have "unat x = 16 * q + r" "r < 16" "q < 2 ^ 28" using less by (simp_all add: q_def r_def)
    then have "2 ^ 32 - unat x = (16 - r) + 16 * (2 ^ 28 - 1 - q)" by simp
    then show ?thesis by (simp only: mod_mult_self2 r_def)
  qed
  also have "unat x mod 16 = n mod 16" unfolding a by (simp add: mod_mod_cancel)
  finally show ?thesis .
qed

lemma lock_auth_eq: "lock_auth auth_key ad cipher_text = aead_tag auth_key ad cipher_text"
  using poly.final_updates [of auth_key "[ad, replicate (gap (length ad) 16) 0, cipher_text,
      replicate (gap (length cipher_text) 16) 0, store64_le (of_nat (length ad)) @ store64_le (of_nat (length cipher_text))]"]
  by (simp add: lock_auth_def aead_tag_def pad_block_def gap_pad Let_def)

lemma crypto_verify16_eq:
  "length a = 16 \<Longrightarrow> length b = 16 \<Longrightarrow> crypto_verify16 a b = (if a = b then 0 else -1)"
  using x16_eq [of a b] by (simp add: crypto_verify16_def neq0_eq)

lemma length_aead_tag [simp]: "length (aead_tag k ad c) = 16"
  by (simp add: aead_tag_def)

section \<open>Decryption undoes encryption\<close>

definition block_key :: "aead_ctx \<Rightarrow> bytes" where
  "block_key ctx = fst (crypto_chacha20_djb None 64 (ac_key ctx) (ac_nonce ctx) (ac_counter ctx))"

definition aead_cipher :: "aead_ctx \<Rightarrow> bytes \<Rightarrow> bytes" where
  "aead_cipher ctx m =
     fst (crypto_chacha20_djb (Some m) (length m) (ac_key ctx) (ac_nonce ctx) (ac_counter ctx + 1))"

definition next_key :: "aead_ctx \<Rightarrow> aead_ctx" where
  "next_key ctx = ctx \<lparr> ac_key := take 32 (drop 32 (block_key ctx)) \<rparr>"

lemma aead_write_eq:
  "crypto_aead_write ctx ad m =
     (aead_cipher ctx m, aead_tag (block_key ctx) ad (aead_cipher ctx m), next_key ctx)"
  by (simp add: crypto_aead_write_def lock_auth_eq block_key_def aead_cipher_def next_key_def split_beta Let_def)

lemma aead_read_eq:
  "length mac = 16 \<Longrightarrow> crypto_aead_read ctx mac ad c =
     (if mac = aead_tag (block_key ctx) ad c then (0, Some (aead_cipher ctx c), next_key ctx) else (-1, None, ctx))"
  by (simp add: crypto_aead_read_def lock_auth_eq crypto_verify16_eq block_key_def aead_cipher_def next_key_def
      split_beta Let_def)

lemma aead_cipher_inverse [simp]: "aead_cipher ctx (aead_cipher ctx m) = m"
  using chacha20_djb_inverse [OF refl, of m] chacha20_djb_length [OF refl, of m] by (simp add: aead_cipher_def)

text \<open>A conversation: messages with their additional data, written one after the other and read in the same order\<close>

primrec aead_send :: "aead_ctx \<Rightarrow> (bytes \<times> bytes) list \<Rightarrow> (bytes \<times> bytes \<times> bytes) list" where
  "aead_send ctx [] = []"
| "aead_send ctx (m # ms) =
     (case crypto_aead_write ctx (fst m) (snd m) of (c, mac, ctx) \<Rightarrow> (fst m, c, mac) # aead_send ctx ms)"

primrec aead_receive :: "aead_ctx \<Rightarrow> (bytes \<times> bytes \<times> bytes) list \<Rightarrow> (int \<times> bytes option) list" where
  "aead_receive ctx [] = []"
| "aead_receive ctx (m # ms) =
     (case crypto_aead_read ctx (snd (snd m)) (fst m) (fst (snd m)) of (e, p, ctx) \<Rightarrow> (e, p) # aead_receive ctx ms)"

section \<open>Properties\<close>

text \<open>
  C35. What one side locks, the other side unlocks: every message of a conversation is read as it was written, and
  \<open>crypto_aead_unlock\<close> undoes \<open>crypto_aead_lock\<close>; and a tag other than the one of additional data and ciphertext
  under the key of the message is refused, with no plaintext.
\<close>

theorem aead_opens_what_is_sealed:
  assumes "length mac = 16"
  shows "aead_receive ctx (aead_send ctx ms) = map (\<lambda>m. (0, Some (snd m))) ms \<and>
    (case crypto_aead_lock key nonce ad pt of (ct, tag) \<Rightarrow>
       crypto_aead_unlock tag key nonce ad ct = (0, Some pt) \<and>
       crypto_aead_unlock mac key nonce ad ct = (if mac = tag then (0, Some pt) else (-1, None)))"
proof
  show "aead_receive ctx (aead_send ctx ms) = map (\<lambda>m. (0, Some (snd m))) ms"
    by (induction ms arbitrary: ctx) (simp_all add: aead_write_eq aead_read_eq)
  show "case crypto_aead_lock key nonce ad pt of (ct, tag) \<Rightarrow>
       crypto_aead_unlock tag key nonce ad ct = (0, Some pt) \<and>
       crypto_aead_unlock mac key nonce ad ct = (if mac = tag then (0, Some pt) else (-1, None))"
    using assms by (simp add: crypto_aead_lock_def crypto_aead_unlock_def aead_write_eq aead_read_eq Let_def)
qed

theorem aead_opens_what_is_sealed_witness:
  "case crypto_aead_lock (replicate 32 1) (replicate 24 2) [] [3] of (ct, tag) \<Rightarrow>
     crypto_aead_unlock tag (replicate 32 1) (replicate 24 2) [] ct = (0, Some [3])"
  using aead_opens_what_is_sealed [of "replicate 16 0" "crypto_aead_init_djb [] []" "[]" "replicate 32 1" "replicate 24 2" "[]" "[3]"]
  by (simp add: split_beta)

end
