(* ===== verification/Minimal_Host.thy ===== *)
theory Minimal_Host
  imports Runtime_Node Ed25519
begin

text \<open>
  The example of a host in \<open>examples/minimal_host\<close>: the hooks of \<open>example_platform.c\<close>, which answer with
  constants, and the program of \<open>main.c\<close>, which starts a node and stops it.  The world of this host are its
  two clocks, which stand still.  The node it drives is linked with Monocypher.  A hook that fills a
  structure returns its code with the structure.
\<close>

section \<open>The world of the host\<close>

record minimal_world =
  mw_now_ms :: u32
  mw_now_s :: u32

text \<open>The initial values of \<open>s_now_ms\<close> and \<open>s_now_s\<close>\<close>

definition minimal_world_init :: minimal_world where
  "minimal_world_init = \<lparr> mw_now_ms = 1, mw_now_s = 1 \<rparr>"

definition NODE_NAME_MAX_LEN :: nat where
  "NODE_NAME_MAX_LEN = 32"

section \<open>The radio, the clocks and random numbers\<close>

definition meshcore_platform_timer_arm :: "u32 \<Rightarrow> (minimal_world, int) state" where
  "meshcore_platform_timer_arm x1 = State_Monad.return 0"

definition meshcore_platform_timer_cancel :: "(minimal_world, unit) state" where
  "meshcore_platform_timer_cancel = State_Monad.return ()"

definition meshcore_platform_millis_get :: "(minimal_world, u32) state" where
  "meshcore_platform_millis_get = do { w \<leftarrow> State_Monad.get; State_Monad.return (mw_now_ms w) }"

definition meshcore_platform_rtc_get_current_time :: "(minimal_world, u32) state" where
  "meshcore_platform_rtc_get_current_time = do { w \<leftarrow> State_Monad.get; State_Monad.return (mw_now_s w) }"

definition meshcore_platform_radio_begin :: "(minimal_world, unit) state" where
  "meshcore_platform_radio_begin = State_Monad.return ()"

definition meshcore_platform_radio_packet_send :: "bytes \<Rightarrow> (minimal_world, int) state" where
  "meshcore_platform_radio_packet_send data = State_Monad.return (if length data > 0 then 1 else 0)"

definition meshcore_platform_radio_airtime :: "nat \<Rightarrow> (minimal_world, u32) state" where
  "meshcore_platform_radio_airtime len = State_Monad.return (of_nat (len + 1))"

definition meshcore_platform_radio_packet_score ::
  "byte \<Rightarrow> nat \<Rightarrow> (minimal_world, rat) state" where
  "meshcore_platform_radio_packet_score snr_q4 len = State_Monad.return (of_int (sint snr_q4) / 4)"

definition meshcore_platform_radio_in_rx_mode_get :: "(minimal_world, bool) state" where
  "meshcore_platform_radio_in_rx_mode_get = State_Monad.return True"

definition meshcore_platform_radio_receiving_get :: "(minimal_world, bool) state" where
  "meshcore_platform_radio_receiving_get = State_Monad.return False"

definition meshcore_platform_radio_noise_floor_calibrate :: "int \<Rightarrow> (minimal_world, unit) state" where
  "meshcore_platform_radio_noise_floor_calibrate x1 = State_Monad.return ()"

definition meshcore_platform_radio_agc_reset :: "(minimal_world, unit) state" where
  "meshcore_platform_radio_agc_reset = State_Monad.return ()"

definition meshcore_platform_rng_random :: "nat \<Rightarrow> (minimal_world, nat \<Rightarrow> byte) state" where
  "meshcore_platform_rng_random len = State_Monad.return (\<lambda>i. 0xA5 + of_nat i)"

section \<open>Cryptography: a toy digest, and a cipher that copies\<close>

definition example_digest :: "bytes \<Rightarrow> nat \<Rightarrow> byte" where
  "example_digest data = (let acc = foldl (\<lambda>acc i. acc + data ! i + of_nat i) 0x5A [0..<length data]
      in (\<lambda>i. acc + of_nat i))"

definition meshcore_platform_crypto_sha256 ::
  "nat \<Rightarrow> bytes \<Rightarrow> (nat \<Rightarrow> byte) option" where
  "meshcore_platform_crypto_sha256 hash_len msg = Some (example_digest msg)"

definition meshcore_platform_crypto_sha256_two_fragments ::
  "nat \<Rightarrow> bytes \<Rightarrow> bytes \<Rightarrow> (nat \<Rightarrow> byte) option" where
  "meshcore_platform_crypto_sha256_two_fragments hash_len frag1 frag2 =
     (if length frag1 + length frag2 > 128 then None else Some (example_digest (frag1 @ frag2)))"

definition meshcore_platform_crypto_aes128_encrypt_block ::
  "bytes \<Rightarrow> bytes \<Rightarrow> (nat \<Rightarrow> byte) option" where
  "meshcore_platform_crypto_aes128_encrypt_block key src = Some (\<lambda>i. src ! i)"

definition meshcore_platform_crypto_aes128_decrypt_block ::
  "bytes \<Rightarrow> bytes \<Rightarrow> (nat \<Rightarrow> byte) option" where
  "meshcore_platform_crypto_aes128_decrypt_block key src = meshcore_platform_crypto_aes128_encrypt_block key src"

definition meshcore_platform_crypto_hmac_sha256 ::
  "nat \<Rightarrow> bytes \<Rightarrow> bytes \<Rightarrow> (nat \<Rightarrow> byte) option" where
  "meshcore_platform_crypto_hmac_sha256 mac_len key msg = Some (example_digest msg)"

section \<open>Configuration, peers and channels\<close>

definition meshcore_platform_node_identity_get :: "(minimal_world, int \<times> node_identity) state" where
  "meshcore_platform_node_identity_get = State_Monad.return (0,
       \<lparr> ni_name = zeros NODE_NAME_MAX_LEN, ni_role = ROLE_CHAT,
         ni_public_key = map (\<lambda>i. 0x10 + of_nat i) [0..<32],
         ni_private_key = map (\<lambda>i. 0x80 + of_nat i) [0..<64] \<rparr>)"

definition meshcore_platform_node_config_last_modify_get :: "(minimal_world, int \<times> u32) state" where
  "meshcore_platform_node_config_last_modify_get = State_Monad.return (0, 1)"

definition meshcore_platform_node_runtime_policy_get ::
  "(minimal_world, int \<times> node_runtime_policy) state" where
  "meshcore_platform_node_runtime_policy_get = State_Monad.return (0,
       \<lparr> rp_path_hash_size = 1, rp_loop_detect = LOOP_DETECT_OFF, rp_client_repeat = False, rp_disable_fwd = False,
         rp_flood_max = 0, rp_multi_acks = 0, rp_tx_delay_factor = 1 / 2,
         rp_direct_tx_delay_factor = 13421773 / 67108864 \<rparr>)"

definition meshcore_platform_node_advert_profile_get ::
  "(minimal_world, int \<times> node_advert_profile) state" where
  "meshcore_platform_node_advert_profile_get = State_Monad.return (0,
       \<lparr> ap_has_position = False, ap_latitude = 0, ap_longitude = 0, ap_advert_interval = 10000,
         ap_flood_advert_interval = 60000 \<rparr>)"

definition meshcore_platform_peer_path_get_by_key ::
  "bytes \<Rightarrow> (minimal_world, int \<times> peer_path) state" where
  "meshcore_platform_peer_path_get_by_key public_key = State_Monad.return (- 2,
       \<lparr> pp_out_path_len = 0xFF, pp_is_neighbor = False, pp_out_path = zeros 64, pp_path_hash_size = 1 \<rparr>)"

definition meshcore_platform_peer_seen_update ::
  "bytes \<Rightarrow> bool \<Rightarrow> byte \<Rightarrow> (minimal_world, int) state" where
  "meshcore_platform_peer_seen_update x1 x2 x3 = State_Monad.return 0"

definition meshcore_platform_peer_next_shared_secret_by_hash ::
  "byte \<Rightarrow> nat \<Rightarrow> (minimal_world, int \<times> nat \<times> bytes \<times> peer_identity) state" where
  "meshcore_platform_peer_next_shared_secret_by_hash hash start_slot = State_Monad.return (- 2, start_slot, zeros 32,
       \<lparr> pi_name = zeros NODE_NAME_MAX_LEN, pi_role = ROLE_NONE, pi_flags = 0, pi_public_key = zeros 32 \<rparr>)"

definition meshcore_platform_channel_secret_match_exists ::
  "byte \<Rightarrow> bytes \<Rightarrow> nat \<Rightarrow> (minimal_world, int) state" where
  "meshcore_platform_channel_secret_match_exists x1 x2 x3 = State_Monad.return 0"

definition meshcore_platform_channel_secret_hash ::
  "bytes \<Rightarrow> nat \<Rightarrow> (minimal_world, int \<times> byte) state" where
  "meshcore_platform_channel_secret_hash secret secret_len = 
     State_Monad.return (if secret_len = 0 then (- 22, 0) else (0, byte_at secret 0))"

definition meshcore_platform_channel_search_by_hash ::
  "byte \<Rightarrow> nat \<Rightarrow> (minimal_world, int \<times> (nat \<Rightarrow> channel_view)) state" where
  "meshcore_platform_channel_search_by_hash hash max_matches = State_Monad.return (0,
       \<lambda>_. \<lparr> cv_hash = zeros 1, cv_secret = zeros 32 \<rparr>)"

section \<open>Parameters of the dispatcher and of the mesh layer\<close>

definition meshcore_platform_dispatcher_log_rx_raw ::
  "rat \<Rightarrow> rat \<Rightarrow> bytes \<Rightarrow> nat \<Rightarrow> (minimal_world, unit) state" where
  "meshcore_platform_dispatcher_log_rx_raw x1 x2 x3 x4 = State_Monad.return ()"

definition meshcore_platform_dispatcher_log_rx ::
  "packet_view \<Rightarrow> nat \<Rightarrow> rat \<Rightarrow> (minimal_world, unit) state" where
  "meshcore_platform_dispatcher_log_rx x1 x2 x3 = State_Monad.return ()"

definition meshcore_platform_dispatcher_log_tx ::
  "packet_view \<Rightarrow> nat \<Rightarrow> (minimal_world, unit) state" where
  "meshcore_platform_dispatcher_log_tx x1 x2 = State_Monad.return ()"

definition meshcore_platform_dispatcher_log_tx_fail ::
  "packet_view \<Rightarrow> nat \<Rightarrow> (minimal_world, unit) state" where
  "meshcore_platform_dispatcher_log_tx_fail x1 x2 = State_Monad.return ()"

definition meshcore_platform_dispatcher_airtime_budget_factor_get :: "(minimal_world, rat) state" where
  "meshcore_platform_dispatcher_airtime_budget_factor_get = State_Monad.return 1"

definition meshcore_platform_dispatcher_rx_delay_calc ::
  "rat \<Rightarrow> u32 \<Rightarrow> (minimal_world, int) state" where
  "meshcore_platform_dispatcher_rx_delay_calc score air_time = State_Monad.return (sint air_time)"

definition meshcore_platform_dispatcher_cad_fail_max_duration_get :: "(minimal_world, u32) state" where
  "meshcore_platform_dispatcher_cad_fail_max_duration_get = State_Monad.return 4000"

definition meshcore_platform_dispatcher_interference_threshold_get :: "(minimal_world, int) state" where
  "meshcore_platform_dispatcher_interference_threshold_get = State_Monad.return 0"

definition meshcore_platform_dispatcher_agc_reset_interval_get :: "(minimal_world, int) state" where
  "meshcore_platform_dispatcher_agc_reset_interval_get = State_Monad.return 0"

definition meshcore_platform_dispatcher_duty_cycle_window_ms_get :: "(minimal_world, u32) state" where
  "meshcore_platform_dispatcher_duty_cycle_window_ms_get = State_Monad.return 3600000"

definition meshcore_platform_mesh_cad_fail_retry_delay_get :: "(minimal_world, u32) state" where
  "meshcore_platform_mesh_cad_fail_retry_delay_get = State_Monad.return 120"

definition meshcore_platform_mesh_filter_recv_flood_packet ::
  "packet_view \<Rightarrow> (minimal_world, bool) state" where
  "meshcore_platform_mesh_filter_recv_flood_packet x1 = State_Monad.return False"

definition meshcore_platform_mesh_allow_packet_forward ::
  "packet_view \<Rightarrow> (minimal_world, bool) state" where
  "meshcore_platform_mesh_allow_packet_forward x1 = State_Monad.return False"

definition meshcore_platform_mesh_retransmit_delay_get :: "packet_view \<Rightarrow> (minimal_world, u32) state" where
  "meshcore_platform_mesh_retransmit_delay_get x1 = State_Monad.return 0"

definition meshcore_platform_mesh_direct_retransmit_delay_get ::
  "packet_view \<Rightarrow> (minimal_world, u32) state" where
  "meshcore_platform_mesh_direct_retransmit_delay_get x1 = State_Monad.return 0"

definition meshcore_platform_mesh_extra_ack_transmit_count_get :: "(minimal_world, byte) state" where
  "meshcore_platform_mesh_extra_ack_transmit_count_get = State_Monad.return 0"

section \<open>Notifications, all ignored\<close>

definition meshcore_platform_mesh_on_peer_data_recv ::
  "packet_view \<Rightarrow> byte \<Rightarrow> peer_identity \<Rightarrow> bytes \<Rightarrow> bytes \<Rightarrow> nat \<Rightarrow> (minimal_world, unit) state" where
  "meshcore_platform_mesh_on_peer_data_recv x1 x2 x3 x4 x5 x6 = State_Monad.return ()"

definition meshcore_platform_mesh_on_trace_recv ::
  "packet_view \<Rightarrow> u32 \<Rightarrow> u32 \<Rightarrow> byte \<Rightarrow> bytes \<Rightarrow> bytes \<Rightarrow> byte \<Rightarrow> (minimal_world, unit) state" where
  "meshcore_platform_mesh_on_trace_recv x1 x2 x3 x4 x5 x6 x7 = State_Monad.return ()"

definition meshcore_platform_mesh_on_peer_path_recv ::
  "packet_view \<Rightarrow> peer_identity \<Rightarrow> bytes \<Rightarrow> bytes \<Rightarrow> byte \<Rightarrow> byte \<Rightarrow> bytes \<Rightarrow> byte \<Rightarrow> (minimal_world, bool) state" where
  "meshcore_platform_mesh_on_peer_path_recv x1 x2 x3 x4 x5 x6 x7 x8 = State_Monad.return False"

definition meshcore_platform_mesh_on_advert_recv ::
  "packet_view \<Rightarrow> bytes \<Rightarrow> u32 \<Rightarrow> bytes \<Rightarrow> nat \<Rightarrow> (minimal_world, unit) state" where
  "meshcore_platform_mesh_on_advert_recv x1 x2 x3 x4 x5 = State_Monad.return ()"

definition meshcore_platform_mesh_on_anon_data_recv ::
  "packet_view \<Rightarrow> bytes \<Rightarrow> bytes \<Rightarrow> bytes \<Rightarrow> nat \<Rightarrow> (minimal_world, unit) state" where
  "meshcore_platform_mesh_on_anon_data_recv x1 x2 x3 x4 x5 = State_Monad.return ()"

definition meshcore_platform_mesh_on_path_recv ::
  "packet_view \<Rightarrow> bytes \<Rightarrow> bytes \<Rightarrow> byte \<Rightarrow> byte \<Rightarrow> bytes \<Rightarrow> byte \<Rightarrow> (minimal_world, unit) state" where
  "meshcore_platform_mesh_on_path_recv x1 x2 x3 x4 x5 x6 x7 = State_Monad.return ()"

definition meshcore_platform_mesh_on_control_data_recv ::
  "packet_view \<Rightarrow> (minimal_world, unit) state" where
  "meshcore_platform_mesh_on_control_data_recv x1 = State_Monad.return ()"

definition meshcore_platform_mesh_on_raw_data_recv :: "packet_view \<Rightarrow> (minimal_world, unit) state" where
  "meshcore_platform_mesh_on_raw_data_recv x1 = State_Monad.return ()"

definition meshcore_platform_mesh_on_group_data_recv ::
  "packet_view \<Rightarrow> byte \<Rightarrow> channel_view \<Rightarrow> bytes \<Rightarrow> nat \<Rightarrow> (minimal_world, unit) state" where
  "meshcore_platform_mesh_on_group_data_recv x1 x2 x3 x4 x5 = State_Monad.return ()"

definition meshcore_platform_mesh_on_ack_recv ::
  "packet_view \<Rightarrow> u32 \<Rightarrow> (minimal_world, unit) state" where
  "meshcore_platform_mesh_on_ack_recv x1 x2 = State_Monad.return ()"

definition meshcore_platform_runtime_request_error ::
  "byte \<Rightarrow> int \<Rightarrow> (minimal_world, unit) state" where
  "meshcore_platform_runtime_request_error x1 x2 = State_Monad.return ()"

definition meshcore_platform_event_message :: "message \<Rightarrow> (minimal_world, int) state" where
  "meshcore_platform_event_message x1 = State_Monad.return 0"

definition meshcore_platform_event_message_ack ::
  "bytes \<Rightarrow> byte \<Rightarrow> (minimal_world, int) state" where
  "meshcore_platform_event_message_ack x1 x2 = State_Monad.return 0"

definition meshcore_platform_event_advert :: "advert_event \<Rightarrow> (minimal_world, int) state" where
  "meshcore_platform_event_advert x1 = State_Monad.return 0"

definition meshcore_platform_event_peer_path_publish ::
  "peer_path_event \<Rightarrow> bool \<Rightarrow> (minimal_world, int) state" where
  "meshcore_platform_event_peer_path_publish x1 x2 = State_Monad.return 0"

definition meshcore_platform_event_peer_path :: "peer_path_event \<Rightarrow> (minimal_world, int) state" where
  "meshcore_platform_event_peer_path x1 = State_Monad.return 0"

definition meshcore_platform_event_trace_path ::
  "byte \<Rightarrow> u32 \<Rightarrow> bytes \<Rightarrow> byte \<Rightarrow> bytes \<Rightarrow> byte \<Rightarrow> bool \<Rightarrow> byte \<Rightarrow> u32 \<Rightarrow> (minimal_world, int) state" where
  "meshcore_platform_event_trace_path x1 x2 x3 x4 x5 x6 x7 x8 x9 = State_Monad.return 0"

definition meshcore_platform_event_telemetry ::
  "bytes \<Rightarrow> u32 \<Rightarrow> u32 \<Rightarrow> bytes \<Rightarrow> nat \<Rightarrow> (minimal_world, int) state" where
  "meshcore_platform_event_telemetry x1 x2 x3 x4 x5 = State_Monad.return 0"

definition meshcore_platform_event_binary_request ::
  "binary_request_event \<Rightarrow> (minimal_world, int) state" where
  "meshcore_platform_event_binary_request x1 = State_Monad.return 0"

definition meshcore_platform_event_binary_response ::
  "bytes \<Rightarrow> u32 \<Rightarrow> u32 \<Rightarrow> bytes \<Rightarrow> nat \<Rightarrow> (minimal_world, int) state" where
  "meshcore_platform_event_binary_response x1 x2 x3 x4 x5 = State_Monad.return 0"

definition meshcore_platform_event_node_discover ::
  "node_discover_event \<Rightarrow> (minimal_world, int) state" where
  "meshcore_platform_event_node_discover x1 = State_Monad.return 0"

definition meshcore_platform_event_channel_data :: "channel_data_event \<Rightarrow> (minimal_world, int) state" where
  "meshcore_platform_event_channel_data x1 = State_Monad.return 0"

definition meshcore_platform_event_raw_data :: "data_event \<Rightarrow> (minimal_world, int) state" where
  "meshcore_platform_event_raw_data x1 = State_Monad.return 0"

definition meshcore_platform_event_control_data :: "data_event \<Rightarrow> (minimal_world, int) state" where
  "meshcore_platform_event_control_data x1 = State_Monad.return 0"

definition meshcore_platform_telemetry_node_get ::
  "bytes \<Rightarrow> byte \<Rightarrow> (minimal_world, int \<times> telemetry_payload) state" where
  "meshcore_platform_telemetry_node_get requester permission_mask = State_Monad.return (0,
       \<lparr> tp_has_latitude = False, tp_latitude = 0, tp_has_longitude = False, tp_longitude = 0, tp_payload_len = 0,
         tp_payload = zeros 163 \<rparr>)"

section \<open>The host and its program\<close>

definition no_result :: "(minimal_world, unit) state \<Rightarrow> (minimal_world, int) state" where
  "no_result m = do { m; State_Monad.return 0 }"

definition minimal_event :: "host_event \<Rightarrow> (minimal_world, int) state" where
  "minimal_event event = (case event of
     RadioBegin \<Rightarrow> no_result (meshcore_platform_radio_begin)
   | RadioNoiseFloorCalibrate a \<Rightarrow> no_result (meshcore_platform_radio_noise_floor_calibrate a)
   | RadioAgcReset \<Rightarrow> no_result (meshcore_platform_radio_agc_reset)
   | DispatcherLogRxRaw a b c d \<Rightarrow> no_result (meshcore_platform_dispatcher_log_rx_raw a b c d)
   | DispatcherLogRx a b c \<Rightarrow> no_result (meshcore_platform_dispatcher_log_rx a b c)
   | DispatcherLogTx a b \<Rightarrow> no_result (meshcore_platform_dispatcher_log_tx a b)
   | DispatcherLogTxFail a b \<Rightarrow> no_result (meshcore_platform_dispatcher_log_tx_fail a b)
   | MeshOnPeerDataRecv a b c d e f \<Rightarrow> no_result (meshcore_platform_mesh_on_peer_data_recv a b c d e f)
   | MeshOnTraceRecv a b c d e f g \<Rightarrow> no_result (meshcore_platform_mesh_on_trace_recv a b c d e f g)
   | MeshOnAdvertRecv a b c d e \<Rightarrow> no_result (meshcore_platform_mesh_on_advert_recv a b c d e)
   | MeshOnAnonDataRecv a b c d e \<Rightarrow> no_result (meshcore_platform_mesh_on_anon_data_recv a b c d e)
   | MeshOnPathRecv a b c d e f g \<Rightarrow> no_result (meshcore_platform_mesh_on_path_recv a b c d e f g)
   | MeshOnControlDataRecv a \<Rightarrow> no_result (meshcore_platform_mesh_on_control_data_recv a)
   | MeshOnRawDataRecv a \<Rightarrow> no_result (meshcore_platform_mesh_on_raw_data_recv a)
   | MeshOnGroupDataRecv a b c d e \<Rightarrow> no_result (meshcore_platform_mesh_on_group_data_recv a b c d e)
   | MeshOnAckRecv a b \<Rightarrow> no_result (meshcore_platform_mesh_on_ack_recv a b)
   | RuntimeRequestError a b \<Rightarrow> no_result (meshcore_platform_runtime_request_error a b)
   | EventMessage a \<Rightarrow> meshcore_platform_event_message a
   | EventMessageAck a b \<Rightarrow> meshcore_platform_event_message_ack a b
   | EventAdvert a \<Rightarrow> meshcore_platform_event_advert a
   | EventPeerPathPublish a b \<Rightarrow> meshcore_platform_event_peer_path_publish a b
   | EventPeerPath a \<Rightarrow> meshcore_platform_event_peer_path a
   | EventTracePath a b c d e f g h i \<Rightarrow> meshcore_platform_event_trace_path a b c d e f g h i
   | EventTelemetry a b c d e \<Rightarrow> meshcore_platform_event_telemetry a b c d e
   | EventBinaryRequest a \<Rightarrow> meshcore_platform_event_binary_request a
   | EventBinaryResponse a b c d e \<Rightarrow> meshcore_platform_event_binary_response a b c d e
   | EventNodeDiscover a \<Rightarrow> meshcore_platform_event_node_discover a
   | EventChannelData a \<Rightarrow> meshcore_platform_event_channel_data a
   | EventRawData a \<Rightarrow> meshcore_platform_event_raw_data a
   | EventControlData a \<Rightarrow> meshcore_platform_event_control_data a
   | PeerSeenUpdate a b c \<Rightarrow> meshcore_platform_peer_seen_update a b c
   | TimerArm a \<Rightarrow> meshcore_platform_timer_arm a
   | TimerCancel \<Rightarrow> no_result (meshcore_platform_timer_cancel))"

definition minimal_crypto :: crypto where
  "minimal_crypto = \<lparr>
     crypto_sha256 = meshcore_platform_crypto_sha256,
     crypto_sha256_two_fragments = meshcore_platform_crypto_sha256_two_fragments,
     crypto_aes128_encrypt_block = meshcore_platform_crypto_aes128_encrypt_block,
     crypto_aes128_decrypt_block = meshcore_platform_crypto_aes128_decrypt_block,
     crypto_hmac_sha256 = meshcore_platform_crypto_hmac_sha256 \<rparr>"

definition minimal_host :: "minimal_world host" where
  "minimal_host = \<lparr>
     h_crypto = minimal_crypto,
     h_ec = monocypher,
     h_event = minimal_event,
     h_millis = meshcore_platform_millis_get,
     h_rtc = meshcore_platform_rtc_get_current_time,
     h_rng_random = meshcore_platform_rng_random,
     h_radio_packet_send = meshcore_platform_radio_packet_send,
     h_radio_airtime = meshcore_platform_radio_airtime,
     h_radio_packet_score = meshcore_platform_radio_packet_score,
     h_radio_in_rx_mode = meshcore_platform_radio_in_rx_mode_get,
     h_radio_receiving = meshcore_platform_radio_receiving_get,
     h_airtime_budget_factor = meshcore_platform_dispatcher_airtime_budget_factor_get,
     h_rx_delay_calc = meshcore_platform_dispatcher_rx_delay_calc,
     h_cad_fail_max_duration = meshcore_platform_dispatcher_cad_fail_max_duration_get,
     h_interference_threshold = meshcore_platform_dispatcher_interference_threshold_get,
     h_agc_reset_interval = meshcore_platform_dispatcher_agc_reset_interval_get,
     h_duty_cycle_window_ms = meshcore_platform_dispatcher_duty_cycle_window_ms_get,
     h_cad_fail_retry_delay = meshcore_platform_mesh_cad_fail_retry_delay_get,
     h_filter_recv_flood_packet = meshcore_platform_mesh_filter_recv_flood_packet,
     h_allow_packet_forward = meshcore_platform_mesh_allow_packet_forward,
     h_retransmit_delay = meshcore_platform_mesh_retransmit_delay_get,
     h_direct_retransmit_delay = meshcore_platform_mesh_direct_retransmit_delay_get,
     h_extra_ack_transmit_count = meshcore_platform_mesh_extra_ack_transmit_count_get,
     h_peer_slots = 0,
     h_next_peer_shared_secret = meshcore_platform_peer_next_shared_secret_by_hash,
     h_channel_search = meshcore_platform_channel_search_by_hash,
     h_on_peer_path_recv = meshcore_platform_mesh_on_peer_path_recv,
     h_node_identity = meshcore_platform_node_identity_get,
     h_node_config_last_modify = meshcore_platform_node_config_last_modify_get,
     h_node_runtime_policy = meshcore_platform_node_runtime_policy_get,
     h_node_advert_profile = meshcore_platform_node_advert_profile_get,
     h_peer_path_by_key = meshcore_platform_peer_path_get_by_key,
     h_channel_secret_match_exists = meshcore_platform_channel_secret_match_exists,
     h_channel_secret_hash = meshcore_platform_channel_secret_hash,
     h_telemetry_node = meshcore_platform_telemetry_node_get \<rparr>"

text \<open>\<open>main\<close>: the exit code; the messages it prints are left out.\<close>

definition main :: "(minimal_world, int) rt_op" where
  "main = do {
     rc \<leftarrow> meshcore_init minimal_host;
     case rc of
       Inl _ \<Rightarrow> State_Monad.return 1
     | Inr _ \<Rightarrow> do { meshcore_deinit; State_Monad.return 0 }
   }"


section \<open>Properties\<close>

lemma minimal_crypto_laws: "aes_inverse minimal_crypto k" "hmac_total minimal_crypto k'"
  by (auto simp: aes_inverse_def hmac_total_def minimal_crypto_def meshcore_platform_crypto_hmac_sha256_def
      meshcore_platform_crypto_aes128_encrypt_block_def meshcore_platform_crypto_aes128_decrypt_block_def buf_def
      intro!: nth_equalityI)

lemma minimal_identity:
  "\<forall>w. fst (fst (run_state (h_node_identity minimal_host) w)) = 0"
  by (simp add: minimal_host_def meshcore_platform_node_identity_get_def)

lemma main_case:
  "run_state main s = (let (rc, s') = run_state (meshcore_init minimal_host) s in
     case rc of Inl _ \<Rightarrow> (1, s') | Inr _ \<Rightarrow> (0, snd (run_state meshcore_deinit s')))"
  by (auto simp: main_def split: prod.splits sum.splits)

lemma deinit_boots: "running s \<Longrightarrow> \<exists>w. snd (run_state meshcore_deinit s) = boot_state w"
  by (auto simp: running_def owns_def rt_ok_def meshcore_deinit_def rt_get_def run_end boot_state_def)

text \<open>
  C25. The example program of the repository does what it is for: started on a node that is off, its \<open>main\<close>
  brings the node up with its memory in order, exits with code 0, and the node is again as it was before the
  program ran, every static variable zero.
\<close>

theorem minimal_host_runs:
  assumes "\<not> rt_initialized (co_rt s)"
  shows "running (snd (run_state (meshcore_init minimal_host) s)) \<and> (\<exists>w. run_state main s = (0, boot_state w))"
proof -
  let ?i = "run_state (meshcore_init minimal_host) s"
  have ok: "fst ?i = Inr ()" and run: "running (snd ?i)"
    by (rule init_runs [OF minimal_identity assms])+
  then show ?thesis using deinit_boots [OF run] by (auto simp: main_case split_beta prod_eq_iff)
qed

theorem minimal_host_runs_witness:
  "\<exists>w. run_state main (boot_state minimal_world_init) = (0, boot_state w)"
  using minimal_host_runs [of "boot_state minimal_world_init"]
  by (simp add: boot_state_def runtime_zero_def)

end
