(* ===== verification/Test_Hooks.thy ===== *)
theory Test_Hooks
  imports Runtime_Node
begin

text \<open>
  The hooks that a build with \<open>MESHCORE_ENABLE_TEST_HOOKS\<close> adds to
  \<open>runtime/meshcore_runtime_pending.c\<close> and \<open>runtime/meshcore.c\<close>: they read the state of the runtime, and they
  pass a response to the code that waits for it as if it had been received.  An out parameter is a
  component of the result; the arguments are not NULL.
\<close>

section \<open>Reading the state\<close>

definition meshcore_test_runtime_is_initialized :: "('w, runtime) core \<Rightarrow> bool" where
  "meshcore_test_runtime_is_initialized s = rt_initialized (co_rt s)"

definition meshcore_test_runtime_dispatcher_last_budget_update_get :: "('w, runtime) core \<Rightarrow> u32" where
  "meshcore_test_runtime_dispatcher_last_budget_update_get s = dp_last_budget_update (co_disp s)"

definition meshcore_test_runtime_dispatcher_next_floor_calib_time_get :: "('w, runtime) core \<Rightarrow> u32" where
  "meshcore_test_runtime_dispatcher_next_floor_calib_time_get s = dp_next_floor_calib_time (co_disp s)"

definition meshcore_test_runtime_dispatcher_num_sent_flood_get :: "('w, runtime) core \<Rightarrow> u32" where
  "meshcore_test_runtime_dispatcher_num_sent_flood_get s = meshcore_dispatcher_get_num_sent_flood (co_disp s)"

definition meshcore_test_runtime_dispatcher_num_sent_direct_get :: "('w, runtime) core \<Rightarrow> u32" where
  "meshcore_test_runtime_dispatcher_num_sent_direct_get s = meshcore_dispatcher_get_num_sent_direct (co_disp s)"

definition meshcore_test_runtime_dispatcher_outbound_total_get :: "('w, runtime) core \<Rightarrow> nat" where
  "meshcore_test_runtime_dispatcher_outbound_total_get s =
     meshcore_packet_queue_manager_get_outbound_total (co_mgr s)"

definition meshcore_test_runtime_dispatcher_has_active_outbound :: "('w, runtime) core \<Rightarrow> bool" where
  "meshcore_test_runtime_dispatcher_has_active_outbound s \<longleftrightarrow> dp_outbound (co_disp s) \<noteq> None"

definition meshcore_test_runtime_last_now_ms_get :: "('w, runtime) core \<Rightarrow> u32" where
  "meshcore_test_runtime_last_now_ms_get s = rt_last_now_ms (co_rt s)"

definition meshcore_test_runtime_expected_ack_used_count_get :: "runtime \<Rightarrow> nat" where
  "meshcore_test_runtime_expected_ack_used_count_get rt =
     foldl (\<lambda>count entry. if ea_valid entry then count + 1 else count) 0 (rt_expected_acks rt)"

definition meshcore_test_runtime_expected_ack_peek :: "runtime \<Rightarrow> (u32 \<times> bytes \<times> byte \<times> u32) option" where
  "meshcore_test_runtime_expected_ack_peek rt =
     (case find ea_valid (rt_expected_acks rt) of
        None \<Rightarrow> None
      | Some entry \<Rightarrow> Some (ea_ack_crc entry, ea_target entry, ea_attempt entry, ea_expires_at_ms entry))"

definition meshcore_test_runtime_pending_discovery_is_valid :: "runtime \<Rightarrow> bool" where
  "meshcore_test_runtime_pending_discovery_is_valid rt = pn_valid (rt_pending_discovery rt)"

definition meshcore_test_runtime_pending_discovery_get :: "runtime \<Rightarrow> (u32 \<times> bytes \<times> u32) option" where
  "meshcore_test_runtime_pending_discovery_get rt =
     (let e = rt_pending_discovery rt in
      if \<not> pn_valid e then None else Some (pn_tag e, pn_key_prefix e, pn_expires_at_ms e))"

definition meshcore_test_runtime_pending_trace_is_valid :: "runtime \<Rightarrow> bool" where
  "meshcore_test_runtime_pending_trace_is_valid rt = pn_valid (rt_pending_trace rt)"

definition meshcore_test_runtime_pending_trace_get :: "runtime \<Rightarrow> (u32 \<times> u32) option" where
  "meshcore_test_runtime_pending_trace_get rt =
     (let e = rt_pending_trace rt in if \<not> pn_valid e then None else Some (pn_tag e, pn_expires_at_ms e))"

definition meshcore_test_runtime_pending_telemetry_is_valid :: "runtime \<Rightarrow> bool" where
  "meshcore_test_runtime_pending_telemetry_is_valid rt = pn_valid (rt_pending_telemetry rt)"

definition meshcore_test_runtime_pending_telemetry_get :: "runtime \<Rightarrow> (u32 \<times> bytes \<times> byte \<times> u32) option" where
  "meshcore_test_runtime_pending_telemetry_get rt =
     (let e = rt_pending_telemetry rt in
      if \<not> pn_valid e then None
      else Some (pn_tag e, pn_key_prefix e, pn_permission_mask e, pn_expires_at_ms e))"

definition meshcore_test_runtime_pending_binary_is_valid :: "runtime \<Rightarrow> bool" where
  "meshcore_test_runtime_pending_binary_is_valid rt = pn_valid (rt_pending_binary rt)"

definition meshcore_test_runtime_pending_binary_get :: "runtime \<Rightarrow> (u32 \<times> bytes \<times> u32) option" where
  "meshcore_test_runtime_pending_binary_get rt =
     (let e = rt_pending_binary rt in
      if \<not> pn_valid e then None else Some (pn_tag e, pn_key_prefix e, pn_expires_at_ms e))"

section \<open>Simulated responses\<close>

definition meshcore_test_runtime_simulate_ack_recv :: "'w host \<Rightarrow> u32 \<Rightarrow> ('w, bool) rt_op" where
  "meshcore_test_runtime_simulate_ack_recv h ack_crc = meshcore_runtime_expected_ack_handle h ack_crc"

text \<open>The packet of a simulated path: a signal strength per hop, each in a tuple of the hash's size\<close>

definition simulated_packet :: "byte \<Rightarrow> bytes \<Rightarrow> byte \<Rightarrow> byte \<Rightarrow> packet" where
  "simulated_packet path_hash_size return_path_snr return_path_snr_count response_snr =
     (let p = meshcore_packet_init \<lparr> pk_snr_q4 := response_snr \<rparr> in
      if return_path_snr_count > 0 then
        let tuple_size = unat path_hash_size;
            p = p \<lparr> pk_header := ROUTE_TYPE_TRANSPORT_DIRECT, pk_transport_codes := (0x534E, 1) \<rparr>;
            p = meshcore_packet_set_path_hash_size_and_count p path_hash_size return_path_snr_count
        in p \<lparr> pk_path := foldl (\<lambda>path i. mem_write (i * tuple_size)
                 (zeros (tuple_size - 1) @ [byte_at return_path_snr i]) path)
               (pk_path p) [0..<unat return_path_snr_count] \<rparr>
      else p)"

definition meshcore_test_runtime_simulate_peer_path_recv ::
  "'w host \<Rightarrow> bytes \<Rightarrow> bytes \<Rightarrow> byte \<Rightarrow> byte \<Rightarrow> byte \<Rightarrow> bytes \<Rightarrow> byte \<Rightarrow> bytes \<Rightarrow> byte \<Rightarrow> byte \<Rightarrow> ('w, bool) rt_op" where
  "meshcore_test_runtime_simulate_peer_path_recv h key_prefix out_path out_path_len path_hash_size extra_type
       out_path_snr out_path_snr_count return_path_snr return_path_snr_count response_snr =
     (case meshcore_runtime_path_len_encode path_hash_size out_path_len of
        None \<Rightarrow> ret False
      | Some path_len_field \<Rightarrow>
          let p = simulated_packet path_hash_size return_path_snr return_path_snr_count response_snr;
              snrs = mem_read 0 (unat out_path_snr_count) out_path_snr
          in if extra_type = 0x0E
             then meshcore_runtime_pending_discovery_handle h key_prefix p out_path path_len_field extra_type
                    (out_path_snr_count # snrs) (1 + out_path_snr_count)
             else meshcore_runtime_pending_discovery_handle h key_prefix p out_path path_len_field extra_type
                    snrs out_path_snr_count)"

definition meshcore_test_runtime_simulate_trace_recv ::
  "'w host \<Rightarrow> u32 \<Rightarrow> byte \<Rightarrow> bytes \<Rightarrow> byte \<Rightarrow> byte \<Rightarrow> ('w, bool) rt_op" where
  "meshcore_test_runtime_simulate_trace_recv h tag flags path_snrs path_snr_count response_snr =
     meshcore_runtime_pending_trace_handle h tag flags path_snrs path_snr_count path_snr_count response_snr"

definition meshcore_test_runtime_simulate_telemetry_response_recv ::
  "'w host \<Rightarrow> bytes \<Rightarrow> u32 \<Rightarrow> bytes \<Rightarrow> nat \<Rightarrow> ('w, bool) rt_op" where
  "meshcore_test_runtime_simulate_telemetry_response_recv h key_prefix tag payload payload_len =
     (if payload_len > 163 then ret False
      else do {
        let data = le_bytes 4 tag @ mem_read 0 payload_len payload;
        timestamp \<leftarrow> meshcore_runtime_timestamp_now_seconds h;
        meshcore_runtime_pending_telemetry_handle h key_prefix timestamp data (4 + payload_len)
      })"

definition meshcore_test_runtime_simulate_binary_response_recv ::
  "'w host \<Rightarrow> bytes \<Rightarrow> u32 \<Rightarrow> bytes \<Rightarrow> nat \<Rightarrow> ('w, bool) rt_op" where
  "meshcore_test_runtime_simulate_binary_response_recv h key_prefix tag payload payload_len =
     (if payload_len > 163 then ret False
      else do {
        let data = le_bytes 4 tag @ mem_read 0 payload_len payload;
        timestamp \<leftarrow> meshcore_runtime_timestamp_now_seconds h;
        meshcore_runtime_pending_binary_handle h key_prefix timestamp data (4 + payload_len)
      })"

section \<open>Properties\<close>

lemma calm_simulate:
  "calm rt_ok (meshcore_test_runtime_simulate_ack_recv h crc)"
  "calm rt_ok (meshcore_test_runtime_simulate_peer_path_recv h key path plen hs ety snrs n rsnrs m snr)"
  "calm rt_ok (meshcore_test_runtime_simulate_trace_recv h tag flags snrs n snr)"
  "calm rt_ok (meshcore_test_runtime_simulate_telemetry_response_recv h key tag payload len)"
  "calm rt_ok (meshcore_test_runtime_simulate_binary_response_recv h key tag payload len)"
  unfolding meshcore_test_runtime_simulate_ack_recv_def meshcore_test_runtime_simulate_peer_path_recv_def
    meshcore_test_runtime_simulate_trace_recv_def meshcore_test_runtime_simulate_telemetry_response_recv_def
    meshcore_test_runtime_simulate_binary_response_recv_def Let_def
  by (intro calm_rules)+

text \<open>
  \<open>answers P Q m\<close>: \<open>m\<close> reports that a message answered a request exactly when \<open>P\<close> holds of the runtime, and then
  \<open>Q\<close> holds of it afterwards.
\<close>

definition answers :: "(runtime \<Rightarrow> bool) \<Rightarrow> (runtime \<Rightarrow> bool) \<Rightarrow> ('w, bool) rt_op \<Rightarrow> bool" where
  "answers P Q m \<longleftrightarrow> (\<forall>s. (fst (run_state m s) \<longleftrightarrow> P (co_rt s)) \<and>
     (fst (run_state m s) \<longrightarrow> Q (co_rt (snd (run_state m s)))))"

text \<open>The outstanding request \<open>e\<close> is to the peer of the key and has the tag that the message starts with.\<close>

definition awaits :: "'a pending_peer_scheme \<Rightarrow> bytes \<Rightarrow> bytes \<Rightarrow> nat \<Rightarrow> bool" where
  "awaits e key payload n \<longleftrightarrow> pn_valid e \<and> 4 \<le> n \<and> pn_tag e = le_word (mem_read 0 4 payload) \<and>
     mem_read 0 4 (pn_key_prefix e) = mem_read 0 4 key"

lemma discovery_answers:
  "answers (\<lambda>rt. awaits (rt_pending_discovery rt) key extra (unat n) \<and> extra_type = 0x01 \<and>
       meshcore_runtime_path_len_decode plen \<noteq> None)
     (\<lambda>rt. \<not> pn_valid (rt_pending_discovery rt))
     (meshcore_runtime_pending_discovery_handle h key p path plen extra_type extra n)"
  by (auto simp: answers_def awaits_def Let_def meshcore_runtime_pending_discovery_handle_def rt_get_def rt_modify_def
      split_beta meshcore_runtime_pending_discovery_clear_def pending_peer_zero_def word_less_nat_alt
      split: option.split)

text \<open>The form of a trace's answer: an odd number of hops of one, two or eight bytes, with a strength for each\<close>

definition trace_form :: "byte \<Rightarrow> byte \<Rightarrow> byte \<Rightarrow> bool" where
  "trace_form flags snr_count hash_bytes \<longleftrightarrow> (let hash_size = push_bit (unat (flags AND 0x03)) 1 in
     hash_size \<noteq> 4 \<and> hash_size \<noteq> 0 \<and> hash_bytes \<noteq> 0 \<and> hash_bytes mod hash_size = 0 \<and>
     snr_count = hash_bytes div hash_size \<and> snr_count mod 2 \<noteq> 0)"

lemma trace_answers:
  "answers (\<lambda>rt. pn_valid (rt_pending_trace rt) \<and> pn_tag (rt_pending_trace rt) = tag \<and> trace_form flags n m)
     (\<lambda>rt. \<not> pn_valid (rt_pending_trace rt))
     (meshcore_runtime_pending_trace_handle h tag flags snrs n m snr)"
proof -
  have "fst (run_state (meshcore_runtime_pending_trace_handle h tag flags snrs n m snr) s) \<longleftrightarrow>
      pn_valid (rt_pending_trace (co_rt s)) \<and> pn_tag (rt_pending_trace (co_rt s)) = tag \<and> trace_form flags n m" for s
    by (auto simp: trace_form_def Let_def meshcore_runtime_pending_trace_handle_def rt_get_def split_beta simp del: push_bit_of_1)
  moreover have "fst (run_state (meshcore_runtime_pending_trace_handle h tag flags snrs n m snr) s) \<Longrightarrow>
      \<not> pn_valid (rt_pending_trace (co_rt (snd (run_state (meshcore_runtime_pending_trace_handle h tag flags snrs n m snr) s))))" for s
    by (auto simp: Let_def meshcore_runtime_pending_trace_handle_def rt_get_def rt_modify_def split_beta
        meshcore_runtime_pending_trace_clear_def pending_trace_zero_def split: if_splits)
  ultimately show ?thesis unfolding answers_def by blast
qed

lemma telemetry_answers:
  "answers (\<lambda>rt. awaits (rt_pending_telemetry rt) key payload n)
     (\<lambda>rt. \<not> pn_valid (rt_pending_telemetry rt))
     (meshcore_runtime_pending_telemetry_handle h key timestamp payload n)"
  by (auto simp: answers_def awaits_def Let_def meshcore_runtime_pending_telemetry_handle_def rt_get_def rt_modify_def
      split_beta meshcore_runtime_pending_telemetry_clear_def pending_telemetry_zero_def)

lemma binary_answers:
  "answers (\<lambda>rt. awaits (rt_pending_binary rt) key payload n)
     (\<lambda>rt. \<not> pn_valid (rt_pending_binary rt))
     (meshcore_runtime_pending_binary_handle h key timestamp payload n)"
  by (auto simp: answers_def awaits_def Let_def meshcore_runtime_pending_binary_handle_def rt_get_def rt_modify_def
      split_beta meshcore_runtime_pending_binary_clear_def pending_peer_zero_def)

lemma rt_timestamp: "co_rt (snd (run_state (meshcore_runtime_timestamp_now_seconds h) s)) = co_rt s"
  by (simp add: meshcore_runtime_timestamp_now_seconds_def meshcore_platform_bridge_rtc_get_current_time_def
      meshcore_clock_millis_get_def meshcore_platform_bridge_millis_get_def call_def split_beta split: option.split)

lemma answers_bind:
  assumes "\<And>s. co_rt (snd (run_state m s)) = co_rt s" "\<And>x. answers P Q (k x)"
  shows "answers P Q (State_Monad.bind m k)"
  using assms unfolding answers_def by (simp add: split_beta)

text \<open>
  C31. A message is taken as the answer to the outstanding discovery, trace, telemetry or binary request exactly
  when that request is outstanding, the tag (and the peer, where it is kept) are those of the request and
  the message has the form of an answer; and then the request is over, so that nothing answers it twice.
\<close>

theorem requests_answered_once:
  "answers (\<lambda>rt. awaits (rt_pending_discovery rt) key extra (unat n) \<and> extra_type = 0x01 \<and>
       meshcore_runtime_path_len_decode plen \<noteq> None)
     (\<lambda>rt. \<not> pn_valid (rt_pending_discovery rt))
     (meshcore_runtime_pending_discovery_handle h key p path plen extra_type extra n) \<and>
   answers (\<lambda>rt. pn_valid (rt_pending_trace rt) \<and> pn_tag (rt_pending_trace rt) = tag \<and> trace_form flags k m)
     (\<lambda>rt. \<not> pn_valid (rt_pending_trace rt))
     (meshcore_runtime_pending_trace_handle h tag flags snrs k m snr) \<and>
   answers (\<lambda>rt. awaits (rt_pending_telemetry rt) key payload len)
     (\<lambda>rt. \<not> pn_valid (rt_pending_telemetry rt))
     (meshcore_runtime_pending_telemetry_handle h key timestamp payload len) \<and>
   answers (\<lambda>rt. awaits (rt_pending_binary rt) key payload len)
     (\<lambda>rt. \<not> pn_valid (rt_pending_binary rt))
     (meshcore_runtime_pending_binary_handle h key timestamp payload len)"
  by (intro conjI discovery_answers trace_answers telemetry_answers binary_answers)

text \<open>
  A simulated path of type \<open>PATH_EXTRA_TYPE_SNR\<close> is refused in every state: the branch of the hook that builds it
  cannot answer a discovery.
\<close>

theorem simulated_snr_path_refused:
  "run_state (meshcore_test_runtime_simulate_peer_path_recv h key path plen hs 0x0E snrs n rsnrs m snr) s = (False, s)"
  by (simp add: meshcore_test_runtime_simulate_peer_path_recv_def Let_def meshcore_runtime_pending_discovery_handle_def
      rt_get_def split: option.split)

text \<open>A simulated telemetry or binary response of a length that fits is handled as a received one is.\<close>

lemma awaits_tag:
  "awaits e key (le_bytes 4 tag @ bs) (4 + n) \<longleftrightarrow> awaits e key (le_bytes 4 tag) 4"
  by (simp add: awaits_def mem_read_def)

theorem simulated_responses_answer:
  assumes "len \<le> 163"
  shows "answers (\<lambda>rt. awaits (rt_pending_telemetry rt) key (le_bytes 4 tag) 4)
      (\<lambda>rt. \<not> meshcore_test_runtime_pending_telemetry_is_valid rt)
      (meshcore_test_runtime_simulate_telemetry_response_recv h key tag payload len)"
    "answers (\<lambda>rt. awaits (rt_pending_binary rt) key (le_bytes 4 tag) 4)
      (\<lambda>rt. \<not> meshcore_test_runtime_pending_binary_is_valid rt)
      (meshcore_test_runtime_simulate_binary_response_recv h key tag payload len)"
  using assms telemetry_answers [of key "le_bytes 4 tag @ mem_read 0 len payload" "4 + len" h]
    binary_answers [of key "le_bytes 4 tag @ mem_read 0 len payload" "4 + len" h]
  unfolding awaits_tag meshcore_test_runtime_simulate_telemetry_response_recv_def
    meshcore_test_runtime_simulate_binary_response_recv_def Let_def
    meshcore_test_runtime_pending_telemetry_is_valid_def meshcore_test_runtime_pending_binary_is_valid_def
  by (auto intro!: answers_bind rt_timestamp)

end
