(* ===== verification/Spec2Isabelle.thy ===== *)
theory Spec2Isabelle
  imports
    Mesh_Prelude
    Utils
    Packet
    Packet_Manager
    Tables
    Advert_Data
    Txt_Data
    Cayenne_Lpp
    Identity
    Platform
    Core_State
    Dispatcher
    Mesh_Send
    Mesh_Receive
    Runtime_State
    Runtime_Pending
    Runtime_Publish
    Runtime_Receive
    Runtime_Loop
    Runtime_Request
    Runtime_Node
    Sha512
    Ed25519
    Aead
    Minimal_Host
    Test_Hooks
begin

text \<open>
  A verification development for meshcore, a mesh-radio protocol stack in C (\<open>src/src\<close>,
  \<open>src/include/meshcore\<close>).  Paths below are relative to \<open>src/src\<close> unless they start with
  \<open>include\<close>.

  \<^bold>\<open>The program.\<close>  A host application drives a node: it starts it (\<open>meshcore_init\<close>), reports
  timer expiries, received frames and completed transmissions, and issues requests (send a text,
  trace a path, ...).  The \<^emph>\<open>runtime\<close> validates requests, keeps the outstanding ones and publishes
  events to the host.  It sits on the \<^emph>\<open>mesh layer\<close>, which builds packets, encrypts them and
  forwards received ones; the mesh layer sits on the \<^emph>\<open>dispatcher\<close>, which schedules packets over the
  radio under a duty-cycle budget and keeps received packets until they are processed.  Packets live in a
  pool with three queues; a table of hashes suppresses duplicates.  Below are the packet codec, the
  cryptographic utilities, identities, and the codecs of adverts, texts and telemetry.  The layers call down
  directly; they call up through handlers (\<open>s_runtime_mesh_ops\<close>, \<open>on_recv\<close>) and call the host
  through hooks (\<open>include/meshcore/platform.h\<close>).

  \<^bold>\<open>The theories\<close>, each modelling the C file or files named with it, one definition per C function under
  the function's name:

  \<^item> \<open>Mesh_Prelude\<close>: machine types, buffers (\<open>mem_read\<close>, \<open>mem_write\<close>), little-endian encodings,
    wrap-around comparison of times, Hoare triples for the state monad.
  \<^item> \<open>Utils\<close>: \<open>core/meshcore_utils.c\<close>; \<open>Packet\<close>: \<open>core/meshcore_packet.c\<close>;
    \<open>Identity\<close>: \<open>core/meshcore_identity.c\<close>.
  \<^item> \<open>Packet_Manager\<close>: \<open>support/meshcore_packet_manager.c\<close>; \<open>Tables\<close>:
    \<open>support/meshcore_tables.c\<close>.
  \<^item> \<open>Float_Model\<close>: binary32 and binary64 rounding on rationals; \<open>Advert_Data\<close>, \<open>Txt_Data\<close>,
    \<open>Cayenne_Lpp\<close>: the codecs of \<open>support\<close>.
  \<^item> \<open>Platform\<close>: the structs of \<open>include/meshcore/types.h\<close> and the hooks of the host;
    \<open>Core_State\<close>: \<open>platform/meshcore_platform_bridge.c\<close>, \<open>core/meshcore_clock.c\<close>,
    \<open>core/meshcore_rng.c\<close>, \<open>core/meshcore_radio.c\<close>, and the state of a node.
  \<^item> \<open>Dispatcher\<close>: \<open>core/meshcore_dispatcher.c\<close>; \<open>Mesh_Send\<close> and \<open>Mesh_Receive\<close>:
    \<open>core/meshcore_mesh.c\<close> (builders and send functions; reception and forwarding).
  \<^item> \<open>Runtime_State\<close>: \<open>runtime/meshcore_runtime_policy.c\<close> and the helpers of
    \<open>runtime/meshcore.c\<close>; \<open>Runtime_Pending\<close>: \<open>runtime/meshcore_runtime_pending.c\<close>;
    \<open>Runtime_Publish\<close>: \<open>runtime/meshcore_runtime_event_publish.c\<close> and
    \<open>runtime/meshcore_runtime_control.c\<close>; \<open>Runtime_Receive\<close>:
    \<open>runtime/meshcore_runtime_receive.c\<close>; \<open>Runtime_Loop\<close>: the life cycle and the driving calls of
    \<open>runtime/meshcore.c\<close>; \<open>Runtime_Request\<close>: \<open>runtime/meshcore_runtime_request.c\<close>;
    \<open>Runtime_Node\<close>: the calls of \<open>include/meshcore/runtime.h\<close> in any order; \<open>Test_Hooks\<close>: what
    \<open>MESHCORE_ENABLE_TEST_HOOKS\<close> adds to \<open>runtime/meshcore.c\<close> and \<open>runtime/meshcore_runtime_pending.c\<close>.
  \<^item> the vendored Monocypher library, as far as the program reaches it and some more, under \<open>support/crypto\<close>:
    \<open>Sha512\<close>: \<open>monocypher-ed25519.c\<close> up to HKDF; \<open>Mono_Base\<close>: byte order and comparisons of
    \<open>monocypher.c\<close>; \<open>Field_25519\<close>, with \<open>Field_Value\<close> and \<open>Field_Root\<close> on the values: the field
    modulo \<open>2^255 - 19\<close>; \<open>Scalar_L\<close>: scalars modulo the group order; \<open>X25519\<close>: key agreement;
    \<open>Edwards\<close>, with \<open>Edwards_Value\<close>, \<open>Signed_Digits\<close> and \<open>Eddsa_Ladder\<close> on the values: the group of
    Ed25519; \<open>Ed25519\<close>: the signatures of \<open>monocypher-ed25519.c\<close>, and the library as the \<open>curve\<close> of
    \<open>Identity\<close>; \<open>Chacha20\<close>, \<open>Poly1305\<close> and \<open>Aead\<close>: the cipher, the authenticator and authenticated encryption,
    which the program does not call.
  \<^item> \<open>Minimal_Host\<close>: the host of \<open>examples/minimal_host\<close>, hooks and program, a concrete instance of what the
    other theories are parameterised by.
  \<^item> this theory: the properties that span several of them.

  \<^bold>\<open>State and effects.\<close>  The static data of the program is the record \<open>core\<close> (packet manager,
  duplicate table, dispatcher, local identity, runtime data), together with the world of the host, a value
  of an arbitrary type.  Operations are in the state monad over it.  The host is a record of functions on
  its world (\<open>host\<close>); so is the cryptography it provides (\<open>crypto\<close>): nothing is assumed of them but where a
  theorem says so.  The node is modelled for any elliptic-curve library (\<open>curve\<close>); \<open>monocypher\<close> is the one of
  the program.  A packet pointer is an index into the
  pool.  A C function that returns an error code returns a sum; an out parameter that is valid only on success
  is an option or a component of the result.

  \<^bold>\<open>Conventions.\<close>  Integers have the width of the C type (\<open>unsigned long\<close> is 32 bits as on the
  targets), byte order is little-endian.  \<open>mem_write\<close> does not truncate, so that an out-of-bounds write shows as
  a change of a buffer's length; the well-formedness invariants exclude it.  Arguments are not NULL, except
  where NULL selects a behaviour of the function: then they are options.  The C code guards against NULL
  arguments it is never passed; these guards are left out.

  \<^bold>\<open>Bounds and fuel.\<close>  All loops are over lists or indices, except the search for the sender of a
  packet (\<open>peer_loop\<close>): the C loop ends when the host has no further peer.  The model runs it for one
  round more than the host has peer slots; \<open>peer_search_ends\<close> shows that this is enough for a host
  that moves forward through its slots, and that more rounds change nothing.

  \<^bold>\<open>Interfaces.\<close>  The queue of \<open>Packet_Manager\<close> is an instance of the locale \<open>timed_queue\<close>, the table of
  \<open>Tables\<close> of \<open>ring_slots\<close>; ownership of packets is stated with the predicates \<open>calm\<close>, \<open>makes\<close>, \<open>takes\<close>,
  \<open>serves\<close> of \<open>Core_State\<close>; what the dispatcher asks of the handler of received packets is the
  locale \<open>recv_handler\<close>, which every instance of \<open>mesh_handlers\<close> gives; what the mesh layer asks of the handlers of the runtime is the locale
  \<open>mesh_handlers\<close>, interpreted by the handlers of \<open>Runtime_Receive\<close>; what a client relies on when it
  strings calls together is the locale \<open>node_api\<close>, interpreted by the public calls.

  \<^bold>\<open>What is shown.\<close>
  \<^item> The node invariant: in every state reachable by public calls, every buffer of the pool is in exactly one
    place, queued packets can be encoded, tables and pending slots have their sizes, a stopped node is
    zeroed (\<open>reachable_node_ok\<close>, with \<open>packet_pool_conservation\<close> for the pool alone).
  \<^item> Codecs: the packet encoder and decoder are inverse and the decoder is canonical and stays in bounds; the parser of
    the dispatcher agrees with it; adverts, identities, telemetry, hexadecimal text and path lengths round-trip.
  \<^item> Cryptography: encrypt-then-MAC round-trips, nothing unauthentic is decrypted, datagrams open at the receiver,
    forged adverts have no effect.
  \<^item> Messages end to end: a text is delivered as sent and acknowledged with the checksum its sender registered;
    each registration is acknowledged to the host at most once; an outstanding request is answered once, by a message that matches it; channel texts arrive with the name of the sender.
  \<^item> Forwarding: the policy of a repeater, the hash a node appends, the hop it removes; duplicates are
    recognised as long as the table holds them.
  \<^item> Scheduling: the queue refines a timed priority queue; deadlines are the earliest ones; nothing is sent over
    budget; a lost transmission is given up; a node can always be restarted; a stopped node refuses calls.
  \<^item> Events have their declared shape.  The example program starts a node, stops it and leaves no trace.
  \<^item> SHA-512, HMAC and HKDF give the standard values however a message is cut into pieces.
  \<^item> Field arithmetic on limbs overflows nowhere within its stated bounds and computes modulo \<open>2^255 - 19\<close>;
    roots, inverses, reductions modulo the group order and encodings are the numbers they should be.
  \<^item> X25519 is the ladder of RFC 7748.  The point formulas keep the curve equation; the sliding windows and the
    comb expand their scalars; the check of a signature is the one on numbers, and refuses unreduced scalars.
  \<^item> ChaCha20 is the key stream of its 64-bit counter, and resumes at block boundaries; Poly1305 is the polynomial of
    RFC 8439; what authenticated encryption seals it opens, and nothing else.
  \<^item> An identity signs as standard Ed25519 does for its seed, its signatures are checked against the hash they
    were made with, and shared secrets are X25519 of the converted key.

  \<^bold>\<open>Not modelled.\<close>  Of \<open>support/crypto/monocypher.c\<close>, functions that the program never calls (BLAKE2b, its
  EdDSA and Argon2, Elligator, scalar inversion, dirty public keys), and the wiping of buffers, which has no effect on any value.  That \<open>2^255 - 19\<close> is prime, the group law, the order of the base point and the
  multiples in the tables are not proved (their evaluation is beyond the simplifier): the theorems on the group
  are about the formulas, the digits and the numbers computed.  The tests and their fake platform; the time
  calls take, and calls of the library from within a hook.
\<close>

section \<open>Messages from end to end\<close>

lemma memchr_found: "c \<notin> set xs \<Longrightarrow> length xs < n \<Longrightarrow> memchr (xs @ c # ys) c n = Some (length xs)"
  by (auto simp: memchr_def find_Some_iff byte_at_def nth_append in_set_conv_nth intro!: exI [of _ "length xs"])

lemma memchr_none: "c \<notin> set xs \<Longrightarrow> memchr xs c (length xs) = None"
  by (auto simp: memchr_def find_None_iff byte_at_def in_set_conv_nth)

text \<open>The length of a text that is followed by a zero byte or by nothing.\<close>

lemma text_length:
  assumes "0 \<notin> set txt" and "rest = [] \<or> hd rest = 0" and "n = length txt + length rest"
  shows "(case memchr (txt @ rest) 0 n of Some k \<Rightarrow> k | None \<Rightarrow> n) = length txt"
proof (cases rest)
  case Nil
  then show ?thesis using assms memchr_none [of 0 "txt"] by simp
next
  case (Cons b bs)
  then show ?thesis using assms memchr_found [of 0 "txt" n bs] by simp
qed

lemma zeros_start: "zeros n = [] \<or> hd (zeros n) = 0"
  by (cases n) (simp_all add: zeros_def)

lemma flag_bits_zero: "drop_bit 2 (a AND 3 :: byte) = 0"
  by (rule bit_word_eqI) (auto simp: bit_drop_bit_eq bit_and_iff bit_numeral_iff)

lemma sha256_fragment_take:
  "meshcore_utils_sha256_two_fragments c n (xs @ ys) (int (length xs)) zs k =
   meshcore_utils_sha256_two_fragments c n xs (int (length xs)) zs k"
  by (simp add: meshcore_utils_sha256_two_fragments_def mem_read_def)



lemma zero_not_in_c_string: "0 \<notin> set (c_string s)"
  by (auto simp: c_string_def dest: set_takeWhileD)

lemma channel_text_split_prefix:
  assumes "sender \<noteq> []" "length sender \<le> 31" "58 \<notin> set sender"
  shows "channel_text_split (sender @ [58, 32] @ txt @ rest) (length sender + 2 + length txt) =
    (sender @ zeros (32 - length sender), length sender + 2, length txt)"
proof -
  have colon: "memchr (sender @ [58, 32] @ txt @ rest) 58 (length sender + 2 + length txt) = Some (length sender)"
    using memchr_found [OF assms(3), of "length sender + 2 + length txt" "[32] @ txt @ rest"] by simp
  show ?thesis
    unfolding channel_text_split_def colon
    using assms(1,2) by (simp add: Let_def byte_at_def nth_append mem_write_def mem_read_def zeros_def
        drop_Cons' replicate_append_same flip: replicate_Suc)
qed

text \<open>
  C32. A channel message arrives as it was sent: from the plain bytes that \<open>meshcore_message_send_to_channel\<close>
  encrypts, padded to the cipher block, the receiver publishes the name of the sender, the text and
  the time.  The name must not contain a colon, which the receiver takes for its end.
\<close>

theorem channel_text_delivered:
  assumes "sender = c_string name" "sender \<noteq> []" "length sender \<le> 31" "58 \<notin> set sender"
    and "txt \<noteq> []" "0 \<notin> set txt" "length txt \<le> 160"
    and "data = pad16 (le_bytes 4 (timestamp :: u32) @ [0] @ channel_text_prefix name @ txt)"
  shows "meshcore_runtime_on_group_data_recv h p PAYLOAD_TYPE_GRP_TXT channel data (length data) =
    if_initialized (do {
      chat \<leftarrow> meshcore_runtime_local_role_is h ROLE_CHAT;
      if \<not> chat then ret ()
      else meshcore_platform_bridge_message_handler h
        \<lparr> ms_type = MESSAGE_TYPE_RECEIVE_CHANNEL,
          ms_route = meshcore_runtime_message_route_from_packet p,
          ms_target_len = 4,
          ms_target = mem_write 0 (mem_read 0 4 (gc_secret channel)) (zeros 4),
          ms_sender_name = sender @ zeros (32 - length sender),
          ms_payload_len = of_nat (length txt),
          ms_payload = txt @ zeros (160 - length txt),
          ms_sender_timestamp = ucast timestamp,
          ms_has_rx_snr = True,
          ms_rx_snr = packet_rx_snr p \<rparr>
    }) (meshcore_platform_bridge_mesh_on_group_data_recv h p PAYLOAD_TYPE_GRP_TXT channel data (length data))"
proof -
  let ?line = "sender @ [58, 32] @ txt"
  define pad where "pad = zeros (ceil16 (5 + length ?line) - (5 + length ?line))"
  have "channel_text_prefix name = sender @ [58, 32]"
    using assms(1,3) by (simp add: channel_text_prefix_def)
  then have data: "data = le_bytes 4 timestamp @ [0] @ ?line @ pad"
    using assms(8) by (simp add: pad16_def pad_def add.assoc)
  have d5: "drop 5 data = ?line @ pad" by (simp add: data)
  have len: "length data - 5 = length ?line + length pad" "5 < length data" by (simp_all add: data)
  have flags: "drop_bit 2 (byte_at data 4) = 0" "le_word (mem_read 0 4 data) = timestamp"
    by (simp_all add: data byte_at_def nth_append mem_read_def)
  have nz: "0 \<notin> set ?line" using assms(1,6) zero_not_in_c_string by auto
  have text_len: "(case memchr (drop 5 data) 0 (length data - 5) of Some n \<Rightarrow> n | None \<Rightarrow> length data - 5) =
      length ?line"
    unfolding d5 len(1) pad_def by (rule text_length [OF nz zeros_start refl])
  have split: "channel_text_split (drop 5 data) (length ?line) =
      (sender @ zeros (32 - length sender), length sender + 2, length txt)"
    using channel_text_split_prefix [OF assms(2-4), of "txt" pad] by (simp add: d5 add.assoc)
  have publish: "meshcore_runtime_channel_text_publish h channel p timestamp (drop 5 data) (length ?line) =
      meshcore_platform_bridge_message_handler h
        \<lparr> ms_type = MESSAGE_TYPE_RECEIVE_CHANNEL,
          ms_route = meshcore_runtime_message_route_from_packet p,
          ms_target_len = 4,
          ms_target = mem_write 0 (mem_read 0 4 (gc_secret channel)) (zeros 4),
          ms_sender_name = sender @ zeros (32 - length sender),
          ms_payload_len = of_nat (length txt),
          ms_payload = txt @ zeros (160 - length txt),
          ms_sender_timestamp = ucast timestamp,
          ms_has_rx_snr = True,
          ms_rx_snr = packet_rx_snr p \<rparr>"
    unfolding meshcore_runtime_channel_text_publish_def split
    using assms(5,7) by (simp add: d5 mem_read_def mem_write_def zeros_def Let_def)
  show ?thesis
    unfolding meshcore_runtime_on_group_data_recv_def flags text_len Let_def publish
    using len(2) by (simp add: when_do_def cong: if_cong)
qed

theorem channel_text_delivered_witness:
  "\<exists>m. ms_sender_name m = [65] @ zeros 31 \<and> ms_payload m = [104, 105] @ zeros 158 \<and>
     meshcore_runtime_on_group_data_recv example_host example_packet PAYLOAD_TYPE_GRP_TXT
       \<lparr> gc_hash = [1], gc_secret = zeros 32 \<rparr> (pad16 (le_bytes 4 (7 :: u32) @ [0, 65, 58, 32, 104, 105])) 16 =
     if_initialized (do {
       chat \<leftarrow> meshcore_runtime_local_role_is example_host ROLE_CHAT;
       if \<not> chat then ret () else meshcore_platform_bridge_message_handler example_host m
     }) (meshcore_platform_bridge_mesh_on_group_data_recv example_host example_packet PAYLOAD_TYPE_GRP_TXT
       \<lparr> gc_hash = [1], gc_secret = zeros 32 \<rparr> (pad16 (le_bytes 4 (7 :: u32) @ [0, 65, 58, 32, 104, 105])) 16)"
proof -
  let ?m = "\<lparr> ms_type = MESSAGE_TYPE_RECEIVE_CHANNEL, ms_route = meshcore_runtime_message_route_from_packet example_packet,
    ms_target_len = 4, ms_target = mem_write 0 (mem_read 0 4 (zeros 32)) (zeros 4),
    ms_sender_name = [65] @ zeros 31, ms_payload_len = 2, ms_payload = [104, 105] @ zeros 158,
    ms_sender_timestamp = 7, ms_has_rx_snr = True, ms_rx_snr = packet_rx_snr example_packet \<rparr>"
  have "[65] = c_string [65]" "channel_text_prefix [65] = [65, 58, 32]"
    "length (pad16 (le_bytes 4 (7 :: u32) @ [0, 65, 58, 32, 104, 105])) = 16" by code_simp+
  then show ?thesis
    using channel_text_delivered [of "[65]" "[65]" "[104, 105]"
        "pad16 (le_bytes 4 (7 :: u32) @ [0, 65, 58, 32, 104, 105])" 7 example_host example_packet
        "\<lparr> gc_hash = [1], gc_secret = zeros 32 \<rparr>"]
    by (intro exI [of _ ?m] conjI) (simp_all cong: if_cong)
qed

end
